(* ===== verification/Prelude.thy ===== *)
theory Prelude imports Main begin

text \<open>
  Shared vocabulary of the development: Python text and bytes, the result type of code that may
  raise, checked sequencing, and the lemma collections the component theories use.

  A Python \<open>str\<close> is the list of its code points (\<open>pystr\<close>), a Python \<open>bytes\<close> the list of its byte
  values; both are lists of \<open>nat\<close>, with \<open>is_bytes\<close> saying that every element is a byte.
  \<open>lit\<close> turns an ASCII literal into such a text. A call that may raise returns \<open>'e + 'a\<close>,
  \<open>Inl\<close> carrying the exception.
\<close>

section \<open>Text and bytes\<close>

type_synonym pystr = "nat list"
type_synonym bytes = "nat list"

definition lit :: "string \<Rightarrow> pystr" where
  "lit s = map of_char s"

definition is_bytes :: "bytes \<Rightarrow> bool" where
  "is_bytes bs \<longleftrightarrow> (\<forall>b \<in> set bs. b < 256)"

lemma lit_inject [simp]: "lit a = lit b \<longleftrightarrow> a = b"
proof -
  have "inj (of_char :: char \<Rightarrow> nat)"
    by (rule inj_of_char)
  then show ?thesis
    by (simp add: lit_def inj_map_eq_map)
qed

lemma length_lit [simp]: "length (lit s) = length s"
  by (simp add: lit_def)

lemma lit_Nil [simp]: "lit [] = []"
  by (simp add: lit_def)

lemma lit_eq_Nil [simp]: "lit s = [] \<longleftrightarrow> s = []"
  by (simp add: lit_def)

lemma lit_append: "lit (s @ t) = lit s @ lit t"
  by (simp add: lit_def)

lemma is_bytes_lit [simp]: "is_bytes (lit s)"
  by (auto simp: is_bytes_def lit_def)

lemma is_bytes_append [simp]: "is_bytes (a @ b) \<longleftrightarrow> is_bytes a \<and> is_bytes b"
  by (auto simp: is_bytes_def)

lemma is_bytes_Nil [simp]: "is_bytes []"
  by (simp add: is_bytes_def)

lemma is_bytes_Cons [simp]: "is_bytes (b # bs) \<longleftrightarrow> b < 256 \<and> is_bytes bs"
  by (auto simp: is_bytes_def)

section \<open>Results\<close>

text \<open>\<open>bindE\<close> sequences two calls; the first exception ends the computation.\<close>

definition bindE :: "'e + 'a \<Rightarrow> ('a \<Rightarrow> 'e + 'b) \<Rightarrow> 'e + 'b" where
  "bindE r f = (case r of Inl e \<Rightarrow> Inl e | Inr a \<Rightarrow> f a)"

text \<open>\<open>if not cond: raise e\<close>\<close>

definition requireE :: "bool \<Rightarrow> 'e \<Rightarrow> 'e + unit" where
  "requireE c e = (if c then Inr () else Inl e)"

text \<open>A loop over a list whose body may raise, results dropped.\<close>

fun eachE :: "('a \<Rightarrow> 'e + 'b) \<Rightarrow> 'a list \<Rightarrow> 'e + unit" where
  "eachE f [] = Inr ()"
| "eachE f (x # xs) = bindE (f x) (\<lambda>_. eachE f xs)"

text \<open>A list comprehension whose element expression may raise.\<close>

fun mapE :: "('a \<Rightarrow> 'e + 'b) \<Rightarrow> 'a list \<Rightarrow> 'e + 'b list" where
  "mapE f [] = Inr []"
| "mapE f (x # xs) = bindE (f x) (\<lambda>y. bindE (mapE f xs) (\<lambda>ys. Inr (y # ys)))"

definition is_ok :: "'e + 'a \<Rightarrow> bool" where
  "is_ok r \<longleftrightarrow> (case r of Inl _ \<Rightarrow> False | Inr _ \<Rightarrow> True)"

named_theorems result_simps "equations that decide which branch of a fallible call is taken"

lemma bindE_Inl [simp]: "bindE (Inl e) f = Inl e"
  by (simp add: bindE_def)

lemma bindE_Inr [simp]: "bindE (Inr a) f = f a"
  by (simp add: bindE_def)

lemma bindE_eq_Inr [result_simps]: "bindE r f = Inr b \<longleftrightarrow> (\<exists>a. r = Inr a \<and> f a = Inr b)"
  by (cases r) auto

lemma bindE_eq_Inl [result_simps]:
  "bindE r f = Inl e \<longleftrightarrow> r = Inl e \<or> (\<exists>a. r = Inr a \<and> f a = Inl e)"
  by (cases r) auto

lemma bindE_assoc: "bindE (bindE r f) g = bindE r (\<lambda>a. bindE (f a) g)"
  by (cases r) auto

lemma bindE_cong [fundef_cong]:
  "r = r' \<Longrightarrow> (\<And>a. r' = Inr a \<Longrightarrow> f a = g a) \<Longrightarrow> bindE r f = bindE r' g"
  by (cases r') auto

lemma requireE_True [simp]: "requireE True e = Inr ()"
  by (simp add: requireE_def)

lemma requireE_False [simp]: "requireE False e = Inl e"
  by (simp add: requireE_def)

lemma requireE_eq_Inr [result_simps]: "requireE c e = Inr u \<longleftrightarrow> c"
  by (simp add: requireE_def)

lemma requireE_eq_Inl [result_simps]: "requireE c e = Inl e' \<longleftrightarrow> \<not> c \<and> e' = e"
  by (auto simp: requireE_def)

lemma is_ok_simps [simp]: "is_ok (Inr a)" "\<not> is_ok (Inl e)"
  by (simp_all add: is_ok_def)

lemma is_ok_iff: "is_ok r \<longleftrightarrow> (\<exists>a. r = Inr a)"
  by (cases r) auto

lemma is_ok_bindE [result_simps]: "is_ok (bindE r f) \<longleftrightarrow> (\<exists>a. r = Inr a \<and> is_ok (f a))"
  by (cases r) auto

lemma is_ok_requireE [result_simps]: "is_ok (requireE c e) \<longleftrightarrow> c"
  by (simp add: requireE_def)

lemma eachE_eq_Inr [result_simps]: "eachE f xs = Inr u \<longleftrightarrow> (\<forall>x \<in> set xs. is_ok (f x))"
  by (induction xs) (auto simp: result_simps is_ok_iff)

lemma mapE_Inr: "(\<And>x. x \<in> set xs \<Longrightarrow> f x = Inr (g x)) \<Longrightarrow> mapE f xs = Inr (map g xs)"
  by (induction xs) auto

lemma mapE_length: "mapE f xs = Inr ys \<Longrightarrow> length ys = length xs"
  by (induction xs arbitrary: ys) (auto simp: result_simps)

lemma mapE_cong [fundef_cong]:
  "xs = ys \<Longrightarrow> (\<And>x. x \<in> set ys \<Longrightarrow> f x = g x) \<Longrightarrow> mapE f xs = mapE g ys"
proof (induction ys arbitrary: xs)
  case (Cons y ys)
  then show ?case by simp
qed simp

lemma mapE_total:
  "(\<And>x. x \<in> set xs \<Longrightarrow> \<exists>y. f x = Inr y \<and> P y) \<Longrightarrow> \<exists>ys. mapE f xs = Inr ys \<and> list_all P ys"
proof (induction xs)
  case (Cons x xs)
  then obtain y ys where "f x = Inr y" "P y" "mapE f xs = Inr ys" "list_all P ys"
    by (metis list.set_intros(1,2))
  then show ?case by simp
qed simp

lemma mapE_list_all2: "mapE f xs = Inr ys \<longleftrightarrow> list_all2 (\<lambda>x y. f x = Inr y) xs ys"
proof (induction xs arbitrary: ys)
  case Nil
  then show ?case by auto
next
  case (Cons x xs)
  then show ?case by (cases ys) (auto simp: result_simps)
qed

section \<open>Codecs\<close>

text \<open>
  The interface of an encoding: \<open>enc\<close> is applied to values in the domain \<open>dom_ok\<close> and \<open>dec\<close>
  inverts it. What clients of an encoding use (no two values share a code, what decodes to a
  value and re-encodes is unchanged) is proved once here.
\<close>

locale codec =
  fixes enc :: "'a \<Rightarrow> 'c" and dec :: "'c \<Rightarrow> 'e + 'a" and dom_ok :: "'a \<Rightarrow> bool"
  assumes dec_enc: "dom_ok a \<Longrightarrow> dec (enc a) = Inr a"
begin

lemma enc_inject: "dom_ok a \<Longrightarrow> dom_ok b \<Longrightarrow> enc a = enc b \<longleftrightarrow> a = b"
  by (metis dec_enc sum.inject(2))

lemma enc_inj_on: "inj_on enc {a. dom_ok a}"
  by (auto simp: inj_on_def enc_inject)

lemma enc_not_rejected: "dom_ok a \<Longrightarrow> dec (enc a) \<noteq> Inl e"
  by (simp add: dec_enc)

end

locale canonical_codec = codec +
  assumes enc_dec: "dec c = Inr a \<Longrightarrow> enc a = c \<and> dom_ok a"
begin

lemma dec_inject: "dec c = Inr a \<Longrightarrow> dec c' = Inr a \<Longrightarrow> c = c'"
  using enc_dec by metis

lemma dec_eq_Inr: "dec c = Inr a \<longleftrightarrow> dom_ok a \<and> c = enc a"
  using enc_dec dec_enc by metis

lemma accepted_iff: "is_ok (dec c) \<longleftrightarrow> c \<in> enc ` {a. dom_ok a}"
  by (auto simp: is_ok_iff dec_eq_Inr)

end

end
