(* ===== verification/Errors.thy ===== *)
theory Errors imports Prelude begin

text \<open>
  Models \<open>src/lexwatt/errors.py\<close>: the closed enumerations of the protocol (error codes, run states,
  stop reasons, event kinds, methods), their wire spellings, the surface sets, the exception
  value a failing call returns, the error envelope, and the exit status of the command line.
  Reasons carry the prefix \<open>R_\<close>, event kinds \<open>K_\<close> and methods \<open>M_\<close>, because Python's strings are
  shared between the enumerations and Isabelle's constructors are not.
\<close>

section \<open>The closed enumerations\<close>

datatype code =
    INVALID_INPUT | UNKNOWN_FIELD | UNSUPPORTED_VERSION | UNSUPPORTED_PROFILE
    | UNSUPPORTED_MODEL | UNAUTHORIZED | NOT_FOUND | CONFLICT | BUDGET_TOO_SMALL | FLOPS_CAP
    | SPAWN_CAP | ENVELOPE_EXCEEDED | SENSOR_UNAVAILABLE | SENSOR_FAULT | OVERFLOW | STOPPED
    | TOKEN_EXPIRED | TOKEN_USED | TOKEN_BINDING | TOKEN_INVALID | ACTION_DENIED
    | ACTION_FAILED | BUSY | AUDIT_FAULT | CONTAINMENT_FAULT | INCOMPLETE | HASH_MISMATCH
    | SIGNATURE_INVALID | UNTRUSTED_KEY | CHAIN_INVALID | TRANSITION_INVALID | OUTPUT_LIMIT

fun code_name :: "code \<Rightarrow> pystr" where
  "code_name INVALID_INPUT = lit ''INVALID_INPUT''"
| "code_name UNKNOWN_FIELD = lit ''UNKNOWN_FIELD''"
| "code_name UNSUPPORTED_VERSION = lit ''UNSUPPORTED_VERSION''"
| "code_name UNSUPPORTED_PROFILE = lit ''UNSUPPORTED_PROFILE''"
| "code_name UNSUPPORTED_MODEL = lit ''UNSUPPORTED_MODEL''"
| "code_name UNAUTHORIZED = lit ''UNAUTHORIZED''"
| "code_name NOT_FOUND = lit ''NOT_FOUND''"
| "code_name CONFLICT = lit ''CONFLICT''"
| "code_name BUDGET_TOO_SMALL = lit ''BUDGET_TOO_SMALL''"
| "code_name FLOPS_CAP = lit ''FLOPS_CAP''"
| "code_name SPAWN_CAP = lit ''SPAWN_CAP''"
| "code_name ENVELOPE_EXCEEDED = lit ''ENVELOPE_EXCEEDED''"
| "code_name SENSOR_UNAVAILABLE = lit ''SENSOR_UNAVAILABLE''"
| "code_name SENSOR_FAULT = lit ''SENSOR_FAULT''"
| "code_name OVERFLOW = lit ''OVERFLOW''"
| "code_name STOPPED = lit ''STOPPED''"
| "code_name TOKEN_EXPIRED = lit ''TOKEN_EXPIRED''"
| "code_name TOKEN_USED = lit ''TOKEN_USED''"
| "code_name TOKEN_BINDING = lit ''TOKEN_BINDING''"
| "code_name TOKEN_INVALID = lit ''TOKEN_INVALID''"
| "code_name ACTION_DENIED = lit ''ACTION_DENIED''"
| "code_name ACTION_FAILED = lit ''ACTION_FAILED''"
| "code_name BUSY = lit ''BUSY''"
| "code_name AUDIT_FAULT = lit ''AUDIT_FAULT''"
| "code_name CONTAINMENT_FAULT = lit ''CONTAINMENT_FAULT''"
| "code_name INCOMPLETE = lit ''INCOMPLETE''"
| "code_name HASH_MISMATCH = lit ''HASH_MISMATCH''"
| "code_name SIGNATURE_INVALID = lit ''SIGNATURE_INVALID''"
| "code_name UNTRUSTED_KEY = lit ''UNTRUSTED_KEY''"
| "code_name CHAIN_INVALID = lit ''CHAIN_INVALID''"
| "code_name TRANSITION_INVALID = lit ''TRANSITION_INVALID''"
| "code_name OUTPUT_LIMIT = lit ''OUTPUT_LIMIT''"

definition CODES :: "code list" where
  "CODES =
    [INVALID_INPUT, UNKNOWN_FIELD, UNSUPPORTED_VERSION, UNSUPPORTED_PROFILE, UNSUPPORTED_MODEL,
     UNAUTHORIZED, NOT_FOUND, CONFLICT, BUDGET_TOO_SMALL, FLOPS_CAP, SPAWN_CAP,
     ENVELOPE_EXCEEDED, SENSOR_UNAVAILABLE, SENSOR_FAULT, OVERFLOW, STOPPED, TOKEN_EXPIRED,
     TOKEN_USED, TOKEN_BINDING, TOKEN_INVALID, ACTION_DENIED, ACTION_FAILED, BUSY, AUDIT_FAULT,
     CONTAINMENT_FAULT, INCOMPLETE, HASH_MISMATCH, SIGNATURE_INVALID, UNTRUSTED_KEY,
     CHAIN_INVALID, TRANSITION_INVALID, OUTPUT_LIMIT]"

datatype run_state =
    CREATED | ARMING | RUNNING | STOPPING | UNCONFIRMED | FINALIZING | REJECTED | COMPLETED
    | KILLED | FAILED

fun state_name :: "run_state \<Rightarrow> pystr" where
  "state_name CREATED = lit ''CREATED''"
| "state_name ARMING = lit ''ARMING''"
| "state_name RUNNING = lit ''RUNNING''"
| "state_name STOPPING = lit ''STOPPING''"
| "state_name UNCONFIRMED = lit ''UNCONFIRMED''"
| "state_name FINALIZING = lit ''FINALIZING''"
| "state_name REJECTED = lit ''REJECTED''"
| "state_name COMPLETED = lit ''COMPLETED''"
| "state_name KILLED = lit ''KILLED''"
| "state_name FAILED = lit ''FAILED''"

definition STATES :: "run_state list" where
  "STATES =
    [CREATED, ARMING, RUNNING, STOPPING, UNCONFIRMED, FINALIZING, REJECTED, COMPLETED, KILLED,
     FAILED]"

datatype reason =
    R_ENERGY_GUARD | R_FLOPS_CAP | R_SPAWN_CAP | R_WALL_CAP | R_SENSOR_FAULT | R_AUDIT_FAULT
    | R_WATCHDOG_LOST | R_OPERATOR | R_SIGNAL | R_ROOT_EXIT | R_CONTAINMENT_FAULT
    | R_MEASUREMENT_OVERRUN | R_RESOURCE_LIMIT

fun reason_name :: "reason \<Rightarrow> pystr" where
  "reason_name R_ENERGY_GUARD = lit ''ENERGY_GUARD''"
| "reason_name R_FLOPS_CAP = lit ''FLOPS_CAP''"
| "reason_name R_SPAWN_CAP = lit ''SPAWN_CAP''"
| "reason_name R_WALL_CAP = lit ''WALL_CAP''"
| "reason_name R_SENSOR_FAULT = lit ''SENSOR_FAULT''"
| "reason_name R_AUDIT_FAULT = lit ''AUDIT_FAULT''"
| "reason_name R_WATCHDOG_LOST = lit ''WATCHDOG_LOST''"
| "reason_name R_OPERATOR = lit ''OPERATOR''"
| "reason_name R_SIGNAL = lit ''SIGNAL''"
| "reason_name R_ROOT_EXIT = lit ''ROOT_EXIT''"
| "reason_name R_CONTAINMENT_FAULT = lit ''CONTAINMENT_FAULT''"
| "reason_name R_MEASUREMENT_OVERRUN = lit ''MEASUREMENT_OVERRUN''"
| "reason_name R_RESOURCE_LIMIT = lit ''RESOURCE_LIMIT''"

definition REASONS :: "reason list" where
  "REASONS =
    [R_ENERGY_GUARD, R_FLOPS_CAP, R_SPAWN_CAP, R_WALL_CAP, R_SENSOR_FAULT, R_AUDIT_FAULT,
     R_WATCHDOG_LOST, R_OPERATOR, R_SIGNAL, R_ROOT_EXIT, R_CONTAINMENT_FAULT,
     R_MEASUREMENT_OVERRUN, R_RESOURCE_LIMIT]"

datatype event_kind =
    K_RunCreated | K_RunArming | K_RunStarted | K_RunRejected | K_SampleRecorded
    | K_ComputeReserved | K_ComputeFinished | K_TokenIssued | K_TokenExpired | K_TokenSpent
    | K_ActionFinished | K_ActionUnknown | K_RequestDenied | K_StopLatched | K_FaultObserved
    | K_KillIssued | K_KillUnconfirmed | K_ContainmentEmpty | K_RunFinalized

fun kind_name :: "event_kind \<Rightarrow> pystr" where
  "kind_name K_RunCreated = lit ''RunCreated''"
| "kind_name K_RunArming = lit ''RunArming''"
| "kind_name K_RunStarted = lit ''RunStarted''"
| "kind_name K_RunRejected = lit ''RunRejected''"
| "kind_name K_SampleRecorded = lit ''SampleRecorded''"
| "kind_name K_ComputeReserved = lit ''ComputeReserved''"
| "kind_name K_ComputeFinished = lit ''ComputeFinished''"
| "kind_name K_TokenIssued = lit ''TokenIssued''"
| "kind_name K_TokenExpired = lit ''TokenExpired''"
| "kind_name K_TokenSpent = lit ''TokenSpent''"
| "kind_name K_ActionFinished = lit ''ActionFinished''"
| "kind_name K_ActionUnknown = lit ''ActionUnknown''"
| "kind_name K_RequestDenied = lit ''RequestDenied''"
| "kind_name K_StopLatched = lit ''StopLatched''"
| "kind_name K_FaultObserved = lit ''FaultObserved''"
| "kind_name K_KillIssued = lit ''KillIssued''"
| "kind_name K_KillUnconfirmed = lit ''KillUnconfirmed''"
| "kind_name K_ContainmentEmpty = lit ''ContainmentEmpty''"
| "kind_name K_RunFinalized = lit ''RunFinalized''"

definition EVENT_KINDS :: "event_kind list" where
  "EVENT_KINDS =
    [K_RunCreated, K_RunArming, K_RunStarted, K_RunRejected, K_SampleRecorded,
     K_ComputeReserved, K_ComputeFinished, K_TokenIssued, K_TokenExpired, K_TokenSpent,
     K_ActionFinished, K_ActionUnknown, K_RequestDenied, K_StopLatched, K_FaultObserved,
     K_KillIssued, K_KillUnconfirmed, K_ContainmentEmpty, K_RunFinalized]"

datatype rpc_method =
    M_capabilities_get | M_estimate_compute | M_route_choose | M_run_start | M_run_get
    | M_run_stop | M_events_read | M_token_issue | M_action_dispatch | M_action_get
    | M_compute_reserve | M_compute_finish | M_receipt_verify

fun method_name :: "rpc_method \<Rightarrow> pystr" where
  "method_name M_capabilities_get = lit ''capabilities.get''"
| "method_name M_estimate_compute = lit ''estimate.compute''"
| "method_name M_route_choose = lit ''route.choose''"
| "method_name M_run_start = lit ''run.start''"
| "method_name M_run_get = lit ''run.get''"
| "method_name M_run_stop = lit ''run.stop''"
| "method_name M_events_read = lit ''events.read''"
| "method_name M_token_issue = lit ''token.issue''"
| "method_name M_action_dispatch = lit ''action.dispatch''"
| "method_name M_action_get = lit ''action.get''"
| "method_name M_compute_reserve = lit ''compute.reserve''"
| "method_name M_compute_finish = lit ''compute.finish''"
| "method_name M_receipt_verify = lit ''receipt.verify''"

definition METHODS :: "rpc_method list" where
  "METHODS =
    [M_capabilities_get, M_estimate_compute, M_route_choose, M_run_start, M_run_get,
     M_run_stop, M_events_read, M_token_issue, M_action_dispatch, M_action_get,
     M_compute_reserve, M_compute_finish, M_receipt_verify]"

definition TERMINAL_STATES :: "run_state list" where
  "TERMINAL_STATES = [REJECTED, COMPLETED, KILLED, FAILED]"

definition BUDGET_REASONS :: "reason list" where
  "BUDGET_REASONS = [R_ENERGY_GUARD, R_FLOPS_CAP, R_SPAWN_CAP, R_WALL_CAP, R_MEASUREMENT_OVERRUN]"

definition FAULT_REASONS :: "reason list" where
  "FAULT_REASONS =
    [R_SENSOR_FAULT, R_AUDIT_FAULT, R_WATCHDOG_LOST, R_CONTAINMENT_FAULT, R_RESOURCE_LIMIT]"

definition OPERATOR_REASONS :: "reason list" where
  "OPERATOR_REASONS = [R_OPERATOR, R_SIGNAL, R_ROOT_EXIT]"

definition CONTROL_METHODS :: "rpc_method list" where
  "CONTROL_METHODS = [M_run_get, M_run_stop, M_events_read]"

definition WORKLOAD_METHODS :: "rpc_method list" where
  "WORKLOAD_METHODS =
    [M_token_issue, M_action_dispatch, M_action_get, M_compute_reserve, M_compute_finish]"

definition PURE_METHODS :: "rpc_method list" where
  "PURE_METHODS = [M_capabilities_get, M_estimate_compute, M_route_choose, M_receipt_verify]"

section \<open>Exceptions\<close>

text \<open>
  \<open>Lex c\<close> is \<open>LexwattError(c)\<close>; \<open>LexDiag c d\<close> is a \<open>LexwattError\<close> that also carries a diagnostic
  \<open>reason\<close> attribute (\<open>SensorFault\<close> and the overlap errors of \<open>meter.py\<close>); \<open>Py e\<close> is one of
  Python's own exceptions, which no \<open>except LexwattError\<close> clause catches.
\<close>

datatype diagnostic_reason =
    WRAP_AMBIGUOUS | COUNTER_RANGE | DELTA_IMPLAUSIBLE | STALE_SAMPLE | OVERLAPPING_DOMAINS

datatype py_error =
    Key_Error | Index_Error | Value_Error | Unicode_Error | Type_Error | Attribute_Error
  | Assertion_Error | Sqlite_Error | OS_Error | Not_Implemented_Error

datatype exn = Lex code | LexDiag code diagnostic_reason | Py py_error

fun exn_code :: "exn \<Rightarrow> code option" where
  "exn_code (Lex c) = Some c"
| "exn_code (LexDiag c d) = Some c"
| "exn_code (Py e) = None"

text \<open>\<open>except LexwattError as e: handler(e.code)\<close>\<close>

definition catch_lex :: "exn + 'a \<Rightarrow> (code \<Rightarrow> exn + 'a) \<Rightarrow> exn + 'a" where
  "catch_lex r h = (case r of
     Inr a \<Rightarrow> Inr a
   | Inl e \<Rightarrow> (case exn_code e of Some c \<Rightarrow> h c | None \<Rightarrow> Inl e))"

section \<open>LexwattError and its envelope\<close>

record lexwatt_error =
  err_code :: code
  err_retryable :: bool

definition LexwattError :: "code \<Rightarrow> bool \<Rightarrow> lexwatt_error" where
  "LexwattError c retryable = \<lparr>err_code = c, err_retryable = (retryable \<or> c = BUSY)\<rparr>"

record 'r response =
  resp_v :: int
  resp_id :: pystr
  resp_body :: "lexwatt_error + 'r"

definition to_response :: "lexwatt_error \<Rightarrow> pystr \<Rightarrow> 'r response" where
  "to_response e rid = \<lparr>resp_v = 1, resp_id = rid, resp_body = Inl e\<rparr>"

definition ok_response :: "pystr \<Rightarrow> 'r \<Rightarrow> 'r response" where
  "ok_response rid r = \<lparr>resp_v = 1, resp_id = rid, resp_body = Inr r\<rparr>"

section \<open>Exit status\<close>

definition EXIT_65 :: "code list" where
  "EXIT_65 = [UNSUPPORTED_PROFILE, UNSUPPORTED_MODEL, SENSOR_UNAVAILABLE, BUDGET_TOO_SMALL]"

definition EXIT_70 :: "code list" where
  "EXIT_70 = [SENSOR_FAULT, AUDIT_FAULT, CONTAINMENT_FAULT, STOPPED]"

definition EXIT_75 :: "code list" where
  "EXIT_75 = [BUSY]"

definition EXIT_76 :: "code list" where
  "EXIT_76 =
    [HASH_MISMATCH, SIGNATURE_INVALID, UNTRUSTED_KEY, CHAIN_INVALID, TRANSITION_INVALID, INCOMPLETE]"

definition EXIT_124 :: "code list" where
  "EXIT_124 = [FLOPS_CAP, SPAWN_CAP]"

definition EXIT_64 :: "code list" where
  "EXIT_64 =
    [INVALID_INPUT, UNKNOWN_FIELD, OVERFLOW, NOT_FOUND, CONFLICT, UNAUTHORIZED,
     UNSUPPORTED_VERSION, TOKEN_EXPIRED, TOKEN_USED, TOKEN_BINDING, TOKEN_INVALID,
     ACTION_DENIED, ACTION_FAILED, ENVELOPE_EXCEEDED, OUTPUT_LIMIT]"

definition exit_code_for :: "code \<Rightarrow> int" where
  "exit_code_for c =
    (if c \<in> set EXIT_65 then 65
     else if c \<in> set EXIT_70 then 70
     else if c \<in> set EXIT_75 then 75
     else if c \<in> set EXIT_76 then 76
     else if c \<in> set EXIT_124 then 124
     else 64)"

section \<open>Facts about the enumerations\<close>

text \<open>Run states are ordered as \<open>STATES\<close> lists them: the lifecycle only moves up this order.\<close>

fun state_rank :: "run_state \<Rightarrow> nat" where
  "state_rank CREATED = 0"
| "state_rank ARMING = 1"
| "state_rank RUNNING = 2"
| "state_rank STOPPING = 3"
| "state_rank UNCONFIRMED = 4"
| "state_rank FINALIZING = 5"
| "state_rank REJECTED = 6"
| "state_rank COMPLETED = 7"
| "state_rank KILLED = 8"
| "state_rank FAILED = 9"

lemma state_rank_inject [simp]: "state_rank a = state_rank b \<longleftrightarrow> a = b"
  by (cases a; cases b) simp_all

instantiation run_state :: linorder
begin

definition less_eq_run_state :: "run_state \<Rightarrow> run_state \<Rightarrow> bool" where
  "less_eq_run_state a b \<longleftrightarrow> state_rank a \<le> state_rank b"

definition less_run_state :: "run_state \<Rightarrow> run_state \<Rightarrow> bool" where
  "less_run_state a b \<longleftrightarrow> state_rank a < state_rank b"

instance
  by standard (auto simp: less_eq_run_state_def less_run_state_def)

end

lemmas state_order_simps = less_eq_run_state_def less_run_state_def

lemma state_rank_STATES: "STATES ! state_rank s = s"
  by (cases s) (simp_all add: STATES_def)

lemma CODES_complete: "set CODES = UNIV"
  by (auto simp: CODES_def) (case_tac x; simp)

lemma STATES_complete: "set STATES = UNIV"
  by (auto simp: STATES_def) (case_tac x; simp)

lemma REASONS_complete: "set REASONS = UNIV"
  by (auto simp: REASONS_def) (case_tac x; simp)

lemma EVENT_KINDS_complete: "set EVENT_KINDS = UNIV"
  by (auto simp: EVENT_KINDS_def) (case_tac x; simp)

lemma METHODS_complete: "set METHODS = UNIV"
  by (auto simp: METHODS_def) (case_tac x; simp)

text \<open>The wire spellings are unambiguous: an enumeration value is recovered from its name.\<close>

lemma code_name_inject [simp]: "code_name a = code_name b \<longleftrightarrow> a = b"
proof -
  have "distinct (map code_name CODES)"
    by (simp add: CODES_def)
  then show ?thesis
    by (auto simp: distinct_map CODES_complete dest: injD)
qed

lemma state_name_inject [simp]: "state_name a = state_name b \<longleftrightarrow> a = b"
proof -
  have "distinct (map state_name STATES)"
    by (simp add: STATES_def)
  then show ?thesis
    by (auto simp: distinct_map STATES_complete dest: injD)
qed

lemma reason_name_inject [simp]: "reason_name a = reason_name b \<longleftrightarrow> a = b"
proof -
  have "distinct (map reason_name REASONS)"
    by (simp add: REASONS_def)
  then show ?thesis
    by (auto simp: distinct_map REASONS_complete dest: injD)
qed

lemma kind_name_inject [simp]: "kind_name a = kind_name b \<longleftrightarrow> a = b"
proof -
  have "distinct (map kind_name EVENT_KINDS)"
    by (simp add: EVENT_KINDS_def)
  then show ?thesis
    by (auto simp: distinct_map EVENT_KINDS_complete dest: injD)
qed

lemma method_name_inject [simp]: "method_name a = method_name b \<longleftrightarrow> a = b"
proof -
  have "distinct (map method_name METHODS)"
    by (simp add: METHODS_def)
  then show ?thesis
    by (auto simp: distinct_map METHODS_complete dest: injD)
qed

text \<open>
  The exit buckets written in the source are disjoint and cover every code, so the order in which
  \<open>exit_code_for\<close> tests them does not matter and its default is exactly the 64 bucket.
\<close>

lemma exit_buckets_partition:
  "distinct (EXIT_64 @ EXIT_65 @ EXIT_70 @ EXIT_75 @ EXIT_76 @ EXIT_124)"
  "set (EXIT_64 @ EXIT_65 @ EXIT_70 @ EXIT_75 @ EXIT_76 @ EXIT_124) = set CODES"
  by (simp_all add: EXIT_64_def EXIT_65_def EXIT_70_def EXIT_75_def EXIT_76_def EXIT_124_def
      CODES_def insert_commute)

lemma exit_code_nonzero: "exit_code_for c \<in> {64, 65, 70, 75, 76, 124}"
  by (simp add: exit_code_for_def)

lemma reasons_partition:
  "set REASONS = set BUDGET_REASONS \<union> set FAULT_REASONS \<union> set OPERATOR_REASONS"
  by (auto simp: REASONS_def BUDGET_REASONS_def FAULT_REASONS_def OPERATOR_REASONS_def)

text \<open>\<open>run.start\<close> belongs to no surface set; every other method belongs to exactly one.\<close>

lemma surfaces_partition:
  "distinct (M_run_start # CONTROL_METHODS @ WORKLOAD_METHODS @ PURE_METHODS)"
  "m \<in> set (M_run_start # CONTROL_METHODS @ WORKLOAD_METHODS @ PURE_METHODS)"
  by (simp add: CONTROL_METHODS_def WORKLOAD_METHODS_def PURE_METHODS_def)
     (cases m; simp add: CONTROL_METHODS_def WORKLOAD_METHODS_def PURE_METHODS_def)

end
