(* ===== verification/Unicode.thy ===== *)
theory Unicode imports Errors "HOL-Library.List_Lexorder" begin

text \<open>
  The part of Python's text model the program relies on: code points, surrogates, the strict
  UTF-8 codec behind \<open>str.encode("utf-8")\<close> and \<open>bytes.decode("utf-8")\<close>, and the sort key
  \<open>s.encode("utf-16-be", "surrogatepass")\<close> of \<open>src/lexwatt/jcs.py\<close>. The codec is shown to be
  canonical: every scalar text has exactly one encoding and every accepted byte string is one.
\<close>

section \<open>Code points\<close>

definition is_surrogate :: "nat \<Rightarrow> bool" where
  "is_surrogate c \<longleftrightarrow> 55296 \<le> c \<and> c \<le> 57343"

definition is_code_point :: "nat \<Rightarrow> bool" where
  "is_code_point c \<longleftrightarrow> c \<le> 1114111"

definition is_scalar :: "nat \<Rightarrow> bool" where
  "is_scalar c \<longleftrightarrow> is_code_point c \<and> \<not> is_surrogate c"

definition is_scalar_text :: "pystr \<Rightarrow> bool" where
  "is_scalar_text s \<longleftrightarrow> list_all is_scalar s"

lemma is_scalar_text_simps [simp]:
  "is_scalar_text []"
  "is_scalar_text (c # s) \<longleftrightarrow> is_scalar c \<and> is_scalar_text s"
  "is_scalar_text (s @ t) \<longleftrightarrow> is_scalar_text s \<and> is_scalar_text t"
  by (simp_all add: is_scalar_text_def)

lemma is_scalar_text_lit [simp]: "is_scalar_text (lit s)"
proof (induction s)
  case (Cons c s)
  have "(of_char c :: nat) < 256"
    by simp
  then have "is_scalar (of_char c)"
    unfolding is_scalar_def is_code_point_def is_surrogate_def by linarith
  with Cons show ?case
    by (simp add: lit_def)
qed simp

section \<open>UTF-8\<close>

definition utf8_char :: "nat \<Rightarrow> bytes" where
  "utf8_char c =
    (if c < 128 then [c]
     else if c < 2048 then [192 + c div 64, 128 + c mod 64]
     else if c < 65536 then [224 + c div 4096, 128 + c div 64 mod 64, 128 + c mod 64]
     else [240 + c div 262144, 128 + c div 4096 mod 64, 128 + c div 64 mod 64, 128 + c mod 64])"

definition utf8_bytes :: "pystr \<Rightarrow> bytes" where
  "utf8_bytes s = concat (map utf8_char s)"

text \<open>\<open>s.encode("utf-8")\<close>: a surrogate raises \<open>UnicodeEncodeError\<close>.\<close>

definition utf8_encode :: "pystr \<Rightarrow> exn + bytes" where
  "utf8_encode s = (if list_ex is_surrogate s then Inl (Py Unicode_Error) else Inr (utf8_bytes s))"

definition is_cont :: "nat \<Rightarrow> bool" where
  "is_cont b \<longleftrightarrow> 128 \<le> b \<and> b < 192"

text \<open>One code point off the front of a byte string; overlong forms, surrogates and values past
  the last plane are refused.\<close>

fun utf8_next :: "bytes \<Rightarrow> (nat \<times> bytes) option" where
  "utf8_next [] = None"
| "utf8_next (a # bs) =
    (if a < 128 then Some (a, bs)
     else if 192 \<le> a \<and> a < 224 then
       (case bs of
          b # r \<Rightarrow>
            (let v = (a - 192) * 64 + (b - 128)
             in if is_cont b \<and> 128 \<le> v then Some (v, r) else None)
        | _ \<Rightarrow> None)
     else if 224 \<le> a \<and> a < 240 then
       (case bs of
          b # c # r \<Rightarrow>
            (let v = (a - 224) * 4096 + (b - 128) * 64 + (c - 128)
             in if is_cont b \<and> is_cont c \<and> 2048 \<le> v \<and> \<not> is_surrogate v then Some (v, r) else None)
        | _ \<Rightarrow> None)
     else if 240 \<le> a \<and> a < 248 then
       (case bs of
          b # c # d # r \<Rightarrow>
            (let v = (a - 240) * 262144 + (b - 128) * 4096 + (c - 128) * 64 + (d - 128)
             in if is_cont b \<and> is_cont c \<and> is_cont d \<and> 65536 \<le> v \<and> v \<le> 1114111
                then Some (v, r) else None)
        | _ \<Rightarrow> None)
     else None)"

lemma utf8_next_shorter: "utf8_next bs = Some (c, r) \<Longrightarrow> length r < length bs"
  by (cases bs) (auto simp: Let_def split: if_splits list.splits)

function utf8_decode :: "bytes \<Rightarrow> exn + pystr" where
  "utf8_decode bs =
    (if bs = [] then Inr []
     else (case utf8_next bs of
             None \<Rightarrow> Inl (Py Unicode_Error)
           | Some (c, r) \<Rightarrow> bindE (utf8_decode r) (\<lambda>s. Inr (c # s))))"
  by pat_completeness auto
termination
  by (relation "measure length") (auto dest: utf8_next_shorter)

declare utf8_decode.simps [simp del]

lemma utf8_char_length [simp]: "utf8_char c \<noteq> []" "length (utf8_char c) \<le> 4"
  by (simp_all add: utf8_char_def)

lemma base64_split:
  fixes y :: nat
  assumes "y < 64"
  shows "(x * 64 + y) div 64 = x" "(x * 64 + y) mod 64 = y"
  using assms by simp_all

lemma base64_digits: obtains x y :: nat where "c = x * 64 + y" "y < 64"
  by (rule that [of "c div 64" "c mod 64"]) simp_all

lemma div_4096: "(c :: nat) div 4096 = c div 64 div 64"
  by (simp flip: div_mult2_eq)

lemma div_262144: "(c :: nat) div 262144 = c div 64 div 64 div 64"
  by (simp flip: div_mult2_eq)

lemma utf8_char_2:
  assumes "c = x * 64 + y" "y < 64" "128 \<le> c" "c < 2048"
  shows "utf8_char c = [192 + x, 128 + y]"
proof -
  have "c div 64 = x" "c mod 64 = y"
    unfolding assms(1) by (rule base64_split [OF assms(2)])+
  with assms(3,4) show ?thesis
    by (simp add: utf8_char_def)
qed

lemma utf8_char_3:
  assumes "c = (x * 64 + y) * 64 + z" "y < 64" "z < 64" "2048 \<le> c" "c < 65536"
  shows "utf8_char c = [224 + x, 128 + y, 128 + z]"
proof -
  have q: "c div 64 = x * 64 + y" "c mod 64 = z"
    unfolding assms(1) by (rule base64_split [OF assms(3)])+
  then have "c div 64 div 64 = x" "c div 64 mod 64 = y"
    using base64_split [OF assms(2), of x] by (simp_all only:)
  with q(2) assms(4,5) show ?thesis
    by (simp add: utf8_char_def div_4096)
qed

lemma utf8_char_4:
  assumes "c = ((w * 64 + x) * 64 + y) * 64 + z" "x < 64" "y < 64" "z < 64" "65536 \<le> c"
  shows "utf8_char c = [240 + w, 128 + x, 128 + y, 128 + z]"
proof -
  have q: "c div 64 = (w * 64 + x) * 64 + y" "c mod 64 = z"
    unfolding assms(1) by (rule base64_split [OF assms(4)])+
  then have q2: "c div 64 div 64 = w * 64 + x" "c div 64 mod 64 = y"
    using base64_split [OF assms(3), of "w * 64 + x"] by (simp_all only:)
  then have "c div 64 div 64 div 64 = w" "c div 64 div 64 mod 64 = x"
    using base64_split [OF assms(2), of w] by (simp_all only:)
  with q(2) q2(2) assms(5) show ?thesis
    by (simp add: utf8_char_def div_4096 div_262144)
qed

lemma is_cont_add [simp]: "y < 64 \<Longrightarrow> is_cont (128 + y)"
  by (simp add: is_cont_def)

lemma is_contE: assumes "is_cont b" obtains y where "b = 128 + y" "y < 64"
  using assms by (auto simp: is_cont_def intro: that [of "b - 128"])

lemma utf8_next_2:
  assumes "c = x * 64 + y" "y < 64" "128 \<le> c" "c < 2048"
  shows "utf8_next ((192 + x) # (128 + y) # r) = Some (c, r)"
proof -
  have "x < 32" using assms by linarith
  then show ?thesis using assms by (simp add: Let_def)
qed

lemma utf8_next_3:
  assumes "c = (x * 64 + y) * 64 + z" "y < 64" "z < 64" "2048 \<le> c" "c < 65536" "\<not> is_surrogate c"
  shows "utf8_next ((224 + x) # (128 + y) # (128 + z) # r) = Some (c, r)"
proof -
  have c: "x * 4096 + y * 64 + z = c" using assms(1) by simp
  moreover have "x < 16" using c assms(5) by linarith
  ultimately show ?thesis using assms(2-) by (simp add: Let_def c)
qed

lemma utf8_next_4:
  assumes "c = ((w * 64 + x) * 64 + y) * 64 + z" "x < 64" "y < 64" "z < 64" "65536 \<le> c" "c \<le> 1114111"
  shows "utf8_next ((240 + w) # (128 + x) # (128 + y) # (128 + z) # r) = Some (c, r)"
proof -
  have c: "w * 262144 + x * 4096 + y * 64 + z = c" using assms(1) by simp
  moreover have "w < 8" using c assms(6) by linarith
  ultimately show ?thesis using assms(2-) by (simp add: Let_def c)
qed

lemma utf8_next_char:
  assumes "is_scalar c"
  shows "utf8_next (utf8_char c @ r) = Some (c, r)"
proof -
  have bound: "c \<le> 1114111" and ns: "\<not> is_surrogate c"
    using assms by (auto simp: is_scalar_def is_code_point_def)
  obtain q1 z where 1: "c = q1 * 64 + z" "z < 64" by (rule base64_digits)
  obtain q2 y where 2: "q1 = q2 * 64 + y" "y < 64" by (rule base64_digits)
  obtain w x where 3: "q2 = w * 64 + x" "x < 64" by (rule base64_digits)
  consider "c < 128" | "128 \<le> c" "c < 2048" | "2048 \<le> c" "c < 65536" | "65536 \<le> c"
    by linarith
  then show ?thesis
  proof cases
    case 1
    then show ?thesis by (simp add: utf8_char_def)
  next
    case 2
    show ?thesis
      unfolding utf8_char_2 [OF \<open>c = q1 * 64 + z\<close> \<open>z < 64\<close> 2]
      using utf8_next_2 [OF \<open>c = q1 * 64 + z\<close> \<open>z < 64\<close> 2] by simp
  next
    case 3
    have c: "c = (q2 * 64 + y) * 64 + z"
      using \<open>c = q1 * 64 + z\<close> \<open>q1 = q2 * 64 + y\<close> by (simp only:)
    show ?thesis
      unfolding utf8_char_3 [OF c \<open>y < 64\<close> \<open>z < 64\<close> 3]
      using utf8_next_3 [OF c \<open>y < 64\<close> \<open>z < 64\<close> 3 ns] by simp
  next
    case 4
    have c: "c = ((w * 64 + x) * 64 + y) * 64 + z"
      using \<open>c = q1 * 64 + z\<close> \<open>q1 = q2 * 64 + y\<close> \<open>q2 = w * 64 + x\<close> by (simp only:)
    show ?thesis
      unfolding utf8_char_4 [OF c \<open>x < 64\<close> \<open>y < 64\<close> \<open>z < 64\<close> 4]
      using utf8_next_4 [OF c \<open>x < 64\<close> \<open>y < 64\<close> \<open>z < 64\<close> 4 bound] by simp
  qed
qed

lemma utf8_next_cases:
  assumes "utf8_next bs = Some (c, r)"
  obtains (one) "c < 128" "bs = c # r"
    | (two) x y where "bs = (192 + x) # (128 + y) # r" "x < 32" "y < 64" "c = x * 64 + y" "128 \<le> c"
    | (three) x y z where "bs = (224 + x) # (128 + y) # (128 + z) # r" "x < 16" "y < 64" "z < 64"
        "c = (x * 64 + y) * 64 + z" "2048 \<le> c" "\<not> is_surrogate c"
    | (four) w x y z where "bs = (240 + w) # (128 + x) # (128 + y) # (128 + z) # r"
        "x < 64" "y < 64" "z < 64" "c = ((w * 64 + x) * 64 + y) * 64 + z" "65536 \<le> c" "c \<le> 1114111"
proof -
  from assms obtain a xs where bs: "bs = a # xs"
    by (cases bs) auto
  from assms bs consider "a < 128" "c = a" "xs = r"
    | b where "192 \<le> a" "a < 224" "xs = b # r" "is_cont b" "c = (a - 192) * 64 + (b - 128)" "128 \<le> c"
    | b d where "224 \<le> a" "a < 240" "xs = b # d # r" "is_cont b" "is_cont d"
        "c = (a - 224) * 4096 + (b - 128) * 64 + (d - 128)" "2048 \<le> c" "\<not> is_surrogate c"
    | b d e where "240 \<le> a" "a < 248" "xs = b # d # e # r" "is_cont b" "is_cont d" "is_cont e"
        "c = (a - 240) * 262144 + (b - 128) * 4096 + (d - 128) * 64 + (e - 128)"
        "65536 \<le> c" "c \<le> 1114111"
    by (auto simp: Let_def split: if_splits list.splits)
  then show thesis
  proof cases
    case 1
    then show thesis using bs by (intro one) simp_all
  next
    case 2
    obtain y where "b = 128 + y" "y < 64" using 2(4) by (rule is_contE)
    then show thesis using 2 bs by (intro two [of "a - 192" y]) simp_all
  next
    case 3
    obtain y where y: "b = 128 + y" "y < 64" using 3(4) by (rule is_contE)
    obtain z where z: "d = 128 + z" "z < 64" using 3(5) by (rule is_contE)
    show thesis using 3 bs y z by (intro three [of "a - 224" y z]) (simp_all add: algebra_simps)
  next
    case 4
    obtain x where x: "b = 128 + x" "x < 64" using 4(4) by (rule is_contE)
    obtain y where y: "d = 128 + y" "y < 64" using 4(5) by (rule is_contE)
    obtain z where z: "e = 128 + z" "z < 64" using 4(6) by (rule is_contE)
    show thesis using 4 bs x y z
      by (intro four [of "a - 240" x y z]) (simp_all add: algebra_simps)
  qed
qed

lemma utf8_next_sound:
  assumes "utf8_next bs = Some (c, r)"
  shows "is_scalar c" "bs = utf8_char c @ r"
proof -
  have "is_scalar c \<and> bs = utf8_char c @ r"
    using assms
  proof (cases rule: utf8_next_cases)
    case one
    then show ?thesis
      by (simp add: utf8_char_def is_scalar_def is_code_point_def is_surrogate_def)
  next
    case (two x y)
    then have "c < 2048" by linarith
    with two show ?thesis
      unfolding utf8_char_2 [OF two(4,3,5) \<open>c < 2048\<close>]
      by (simp add: is_scalar_def is_code_point_def is_surrogate_def)
  next
    case (three x y z)
    then have "x * 4096 + y * 64 + z = c" by simp
    then have "c < 65536" using three(2-4) by linarith
    with three show ?thesis
      unfolding utf8_char_3 [OF three(5,3,4,6) \<open>c < 65536\<close>]
      by (simp add: is_scalar_def is_code_point_def)
  next
    case (four w x y z)
    then show ?thesis
      unfolding utf8_char_4 [OF four(5,2,3,4,6)]
      by (simp add: is_scalar_def is_code_point_def is_surrogate_def)
  qed
  then show "is_scalar c" "bs = utf8_char c @ r" by simp_all
qed

lemma utf8_next_char_iff:
  "utf8_next bs = Some (c, r) \<longleftrightarrow> is_scalar c \<and> bs = utf8_char c @ r"
  using utf8_next_char utf8_next_sound by blast

lemma utf8_bytes_simps [simp]:
  "utf8_bytes [] = []"
  "utf8_bytes (c # s) = utf8_char c @ utf8_bytes s"
  "utf8_bytes (s @ t) = utf8_bytes s @ utf8_bytes t"
  by (simp_all add: utf8_bytes_def)

lemma utf8_decode_bytes: "is_scalar_text s \<Longrightarrow> utf8_decode (utf8_bytes s) = Inr s"
  by (induction s) (simp_all add: utf8_decode.simps [of "_ @ _"] utf8_decode.simps [of "[]"]
      utf8_next_char)

lemma utf8_bytes_decode: "utf8_decode bs = Inr s \<Longrightarrow> utf8_bytes s = bs \<and> is_scalar_text s"
proof (induction bs arbitrary: s rule: utf8_decode.induct)
  case (1 bs)
  show ?case
  proof (cases "bs = []")
    case True
    with "1.prems" show ?thesis by (simp add: utf8_decode.simps)
  next
    case False
    with "1.prems" obtain c r s' where "utf8_next bs = Some (c, r)" "utf8_decode r = Inr s'" "s = c # s'"
      by (subst (asm) utf8_decode.simps) (auto simp: result_simps split: option.splits)
    with "1.IH" False show ?thesis
      by (auto simp: utf8_next_char_iff)
  qed
qed

interpretation utf8: canonical_codec utf8_bytes utf8_decode is_scalar_text
  by unfold_locales (simp_all add: utf8_decode_bytes utf8_bytes_decode)

lemma utf8_encode_scalar: "is_scalar_text s \<Longrightarrow> utf8_encode s = Inr (utf8_bytes s)"
  by (auto simp: utf8_encode_def is_scalar_text_def list_ex_iff list_all_iff is_scalar_def)

lemma utf8_bytes_ascii: "(\<And>c. c \<in> set s \<Longrightarrow> c < 128) \<Longrightarrow> utf8_bytes s = s"
  by (induction s) (simp_all add: utf8_char_def)

lemma is_bytes_utf8_char: "is_scalar c \<Longrightarrow> is_bytes (utf8_char c)"
  by (auto simp: utf8_char_def is_scalar_def is_code_point_def)

lemma is_bytes_utf8: "is_scalar_text s \<Longrightarrow> is_bytes (utf8_bytes s)"
  by (induction s) (simp_all add: is_bytes_utf8_char)

section \<open>The UTF-16 sort key\<close>

definition utf16_units :: "nat \<Rightarrow> nat list" where
  "utf16_units c =
    (if c < 65536 then [c]
     else [55296 + (c - 65536) div 1024, 56320 + (c - 65536) mod 1024])"

definition utf16_key :: "pystr \<Rightarrow> bytes" where
  "utf16_key s = concat (map (\<lambda>u. [u div 256, u mod 256]) (concat (map utf16_units s)))"

end
