(* ===== verification/Pyvalue.thy ===== *)
theory Pyvalue imports Unicode begin

text \<open>
  The Python values that travel on the wire: what \<open>jcs.loads\<close> returns and \<open>jcs.dumps\<close> accepts. A
  \<open>dict\<close> is the list of its items in insertion order; \<open>distinct_keys\<close> is the invariant every Python
  dict has. Decimal text: \<open>dec_str\<close> is Python's \<open>str(n)\<close> for a nonnegative integer and \<open>dec_val\<close> what
  \<open>int\<close> computes from a string of ASCII digits.
\<close>

section \<open>JSON values\<close>

datatype json =
    JNull
  | JBool bool
  | JInt int
  | JStr pystr
  | JArr "json list"
  | JObj "(pystr \<times> json) list"

type_synonym dict = "(pystr \<times> json) list"

text \<open>\<open>d[k]\<close>: a missing key raises \<open>KeyError\<close>.\<close>

definition dict_item :: "dict \<Rightarrow> pystr \<Rightarrow> exn + json" where
  "dict_item d k = (case map_of d k of None \<Rightarrow> Inl (Py Key_Error) | Some v \<Rightarrow> Inr v)"

text \<open>\<open>d.get(k)\<close>\<close>

definition dict_get :: "dict \<Rightarrow> pystr \<Rightarrow> json" where
  "dict_get d k = (case map_of d k of None \<Rightarrow> JNull | Some v \<Rightarrow> v)"

definition distinct_keys :: "dict \<Rightarrow> bool" where
  "distinct_keys d \<longleftrightarrow> distinct (map fst d)"

section \<open>Decimal text\<close>

definition is_digit :: "nat \<Rightarrow> bool" where
  "is_digit c \<longleftrightarrow> 48 \<le> c \<and> c \<le> 57"

definition dec_val :: "pystr \<Rightarrow> nat" where
  "dec_val s = foldl (\<lambda>a c. a * 10 + (c - 48)) 0 s"

fun dec_str :: "nat \<Rightarrow> pystr" where
  "dec_str n = (if n < 10 then [48 + n] else dec_str (n div 10) @ [48 + n mod 10])"

declare dec_str.simps [simp del]

text \<open>The digit strings Python prints: no leading zero unless the number is zero.\<close>

definition is_canonical_dec :: "pystr \<Rightarrow> bool" where
  "is_canonical_dec s \<longleftrightarrow> s = [48] \<or> (s \<noteq> [] \<and> hd s \<noteq> 48 \<and> list_all is_digit s)"

lemma dec_val_snoc [simp]: "dec_val (s @ [c]) = dec_val s * 10 + (c - 48)"
  by (simp add: dec_val_def)

lemma dec_val_Nil [simp]: "dec_val [] = 0"
  by (simp add: dec_val_def)

lemma dec_str_not_Nil [simp]: "dec_str n \<noteq> []"
  by (subst dec_str.simps) simp

lemma dec_val_str [simp]: "dec_val (dec_str n) = n"
proof (induction n rule: dec_str.induct)
  case (1 n)
  show ?case
  proof (cases "n < 10")
    case True
    then show ?thesis by (simp add: dec_str.simps [of n] dec_val_def)
  next
    case False
    with 1 show ?thesis by (simp add: dec_str.simps [of n])
  qed
qed

lemma dec_str_inject [simp]: "dec_str m = dec_str n \<longleftrightarrow> m = n"
  by (metis dec_val_str)

lemma dec_str_digits: "list_all is_digit (dec_str n)"
proof (induction n rule: dec_str.induct)
  case (1 n)
  then show ?case
    by (cases "n < 10") (simp_all add: dec_str.simps [of n] is_digit_def)
qed

lemma dec_str_hd: "0 < n \<Longrightarrow> hd (dec_str n) \<noteq> 48"
proof (induction n rule: dec_str.induct)
  case (1 n)
  then show ?case
    by (cases "n < 10") (simp_all add: dec_str.simps [of n])
qed

lemma dec_str_0 [simp]: "dec_str 0 = [48]"
  by (simp add: dec_str.simps)

lemma dec_str_canonical: "is_canonical_dec (dec_str n)"
  using dec_str_digits [of n] dec_str_hd [of n]
  by (cases "n = 0") (simp_all add: is_canonical_dec_def)

lemma dec_val_pos:
  "list_all is_digit s \<Longrightarrow> s \<noteq> [] \<Longrightarrow> hd s \<noteq> 48 \<Longrightarrow> 0 < dec_val s"
proof (induction s rule: rev_induct)
  case (snoc c s)
  then show ?case
    by (cases "s = []") (auto simp: is_digit_def dec_val_def)
qed simp

lemma dec_str_val: "is_canonical_dec s \<Longrightarrow> dec_str (dec_val s) = s"
proof (induction s rule: rev_induct)
  case (snoc c s)
  show ?case
  proof (cases "s = []")
    case True
    with snoc.prems show ?thesis
      by (auto simp: is_canonical_dec_def dec_val_def is_digit_def dec_str.simps)
  next
    case False
    with snoc.prems have can: "is_canonical_dec s" and nz: "hd s \<noteq> 48"
        and ds: "list_all is_digit s" and c: "is_digit c"
      by (auto simp: is_canonical_dec_def)
    have "0 < dec_val s"
      using dec_val_pos [OF ds False nz] .
    moreover obtain d where "c = 48 + d" "d < 10"
      using c by (auto simp: is_digit_def intro: that [of "c - 48"])
    ultimately show ?thesis
      using snoc.IH [OF can] by (simp add: dec_str.simps [of "dec_val s * 10 + d"])
  qed
qed (simp add: is_canonical_dec_def)

interpretation dec: canonical_codec
    dec_str "\<lambda>s. if is_canonical_dec s then Inr (dec_val s) else Inl (Py Value_Error)" "\<lambda>_. True"
  by unfold_locales (auto simp: dec_str_canonical dec_str_val split: if_splits)

lemma dec_val_bound: "list_all is_digit s \<Longrightarrow> dec_val s < 10 ^ length s"
proof (induction s rule: rev_induct)
  case (snoc c s)
  then have "dec_val s < 10 ^ length s" and "c - 48 \<le> 9"
    by (auto simp: is_digit_def)
  then have "dec_val s * 10 + (c - 48) < 10 * 10 ^ length s"
    by linarith
  then show ?case by simp
qed simp

lemma dec_str_length_le: "n < 10 ^ k \<Longrightarrow> 0 < k \<Longrightarrow> length (dec_str n) \<le> k"
proof (induction n arbitrary: k rule: dec_str.induct)
  case (1 n)
  show ?case
  proof (cases "n < 10")
    case True
    with "1.prems" show ?thesis by (simp add: dec_str.simps [of n])
  next
    case False
    then obtain k' where k: "k = Suc k'" "0 < k'"
      using "1.prems" by (cases k; cases "k = 1") auto
    then have "n div 10 < 10 ^ k'"
      using "1.prems"(1) by (simp add: less_mult_imp_div_less mult.commute)
    with "1.IH" False k show ?thesis
      by (simp add: dec_str.simps [of n])
  qed
qed

end
