(* ===== verification/Scalars.thy ===== *)
theory Scalars imports Pyvalue begin

text \<open>
  Models \<open>src/lexwatt/scalars.py\<close>: the lexical validators of the wire scalars, the checked 127-bit
  arithmetic on \<open>U\<close> quantities, and canonical unpadded base64url. A validator takes the JSON value
  it is handed, so the \<open>isinstance\<close> tests are its first branch, and returns that value's text.

  The source anchors its regular expressions with \<open>^ ... $\<close> and calls \<open>match\<close>. In Python \<open>$\<close> also
  matches in front of a final newline; \<open>dollar\<close> is that reading, and \<open>py_int\<close> is \<open>int\<close> on the texts
  such an expression lets through. Results: the exact set of texts \<open>check_u\<close> accepts, the round
  trips between integers and their \<open>U\<close> form and between bytes and base64url, and that no
  checked operation leaves the 127-bit range.
\<close>

section \<open>Regular expressions with Python's end anchor\<close>

definition dollar :: "(pystr \<Rightarrow> bool) \<Rightarrow> pystr \<Rightarrow> bool" where
  "dollar p s \<longleftrightarrow> p s \<or> (s \<noteq> [] \<and> last s = 10 \<and> p (butlast s))"

definition chop_newline :: "pystr \<Rightarrow> pystr" where
  "chop_newline s = (if s \<noteq> [] \<and> last s = 10 then butlast s else s)"

definition py_int :: "pystr \<Rightarrow> int" where
  "py_int s = int (dec_val (chop_newline s))"

definition u_re :: "pystr \<Rightarrow> bool" where
  "u_re s \<longleftrightarrow> s = [48] \<or>
     (case s of [] \<Rightarrow> False
      | c # cs \<Rightarrow> 49 \<le> c \<and> c \<le> 57 \<and> length cs \<le> 38 \<and> list_all is_digit cs)"

definition is_hex_lower :: "nat \<Rightarrow> bool" where
  "is_hex_lower c \<longleftrightarrow> is_digit c \<or> (97 \<le> c \<and> c \<le> 102)"

definition is_upper :: "nat \<Rightarrow> bool" where
  "is_upper c \<longleftrightarrow> 65 \<le> c \<and> c \<le> 90"

definition is_lower :: "nat \<Rightarrow> bool" where
  "is_lower c \<longleftrightarrow> 97 \<le> c \<and> c \<le> 122"

definition hash_re :: "pystr \<Rightarrow> bool" where
  "hash_re s \<longleftrightarrow> length s = 64 \<and> list_all is_hex_lower s"

definition is_id_char :: "nat \<Rightarrow> bool" where
  "is_id_char c \<longleftrightarrow> is_upper c \<or> is_lower c \<or> is_digit c \<or> c = 95 \<or> c = 45"

definition id_chars_re :: "pystr \<Rightarrow> bool" where
  "id_chars_re s \<longleftrightarrow> length s = 21 \<and> list_all is_id_char s"

definition model_name_re :: "pystr \<Rightarrow> bool" where
  "model_name_re s \<longleftrightarrow>
     (case s of [] \<Rightarrow> False
      | c # cs \<Rightarrow> (is_lower c \<or> is_digit c) \<and> length cs \<le> 63 \<and>
          list_all (\<lambda>x. is_lower x \<or> is_digit x \<or> x = 46 \<or> x = 95 \<or> x = 45) cs)"

definition env_key_re :: "pystr \<Rightarrow> bool" where
  "env_key_re s \<longleftrightarrow>
     (case s of [] \<Rightarrow> False
      | c # cs \<Rightarrow> (is_upper c \<or> c = 95) \<and> length cs \<le> 63 \<and>
          list_all (\<lambda>x. is_upper x \<or> is_digit x \<or> x = 95) cs)"

definition b64url_re :: "pystr \<Rightarrow> bool" where
  "b64url_re s \<longleftrightarrow> s \<noteq> [] \<and> list_all is_id_char s"

section \<open>U quantities\<close>

definition U_MAX :: int where
  "U_MAX = 2 ^ 127 - 1"

definition check_u :: "json \<Rightarrow> exn + pystr" where
  "check_u value =
    (case value of
       JStr s \<Rightarrow>
         (if \<not> dollar u_re s then Inl (Lex INVALID_INPUT)
          else if py_int s > U_MAX then Inl (Lex INVALID_INPUT)
          else Inr s)
     | _ \<Rightarrow> Inl (Lex INVALID_INPUT))"

definition parse_u :: "json \<Rightarrow> exn + int" where
  "parse_u value = bindE (check_u value) (\<lambda>s. Inr (py_int s))"

definition u_str :: "int \<Rightarrow> exn + pystr" where
  "u_str v = (if v < 0 \<or> v > U_MAX then Inl (Lex OVERFLOW) else Inr (dec_str (nat v)))"

definition u_add :: "int \<Rightarrow> int \<Rightarrow> exn + int" where
  "u_add a b = (let r = a + b in if r > U_MAX then Inl (Lex OVERFLOW) else Inr r)"

definition u_mul :: "int \<Rightarrow> int \<Rightarrow> exn + int" where
  "u_mul a b = (let r = a * b in if r > U_MAX then Inl (Lex OVERFLOW) else Inr r)"

definition u_sub :: "int \<Rightarrow> int \<Rightarrow> exn + int" where
  "u_sub a b = (let r = a - b in if r < 0 then Inl (Lex OVERFLOW) else Inr r)"

section \<open>Hashes and base64url\<close>

definition check_hash :: "json \<Rightarrow> exn + pystr" where
  "check_hash value =
    (case value of
       JStr s \<Rightarrow> if dollar hash_re s then Inr s else Inl (Lex INVALID_INPUT)
     | _ \<Rightarrow> Inl (Lex INVALID_INPUT))"

text \<open>The URL-safe alphabet and its inverse.\<close>

definition b64_char :: "nat \<Rightarrow> nat" where
  "b64_char v =
    (if v < 26 then 65 + v
     else if v < 52 then 97 + (v - 26)
     else if v < 62 then 48 + (v - 52)
     else if v = 62 then 45 else 95)"

definition b64_val :: "nat \<Rightarrow> nat option" where
  "b64_val c =
    (if is_upper c then Some (c - 65)
     else if is_lower c then Some (c - 97 + 26)
     else if is_digit c then Some (c - 48 + 52)
     else if c = 45 then Some 62
     else if c = 95 then Some 63
     else None)"

text \<open>\<open>base64.urlsafe_b64encode\<close>, with its padding.\<close>

fun urlsafe_b64encode :: "bytes \<Rightarrow> pystr" where
  "urlsafe_b64encode [] = []"
| "urlsafe_b64encode [a] = [b64_char (a div 4), b64_char (a mod 4 * 16), 61, 61]"
| "urlsafe_b64encode [a, b] =
    [b64_char (a div 4), b64_char (a mod 4 * 16 + b div 16), b64_char (b mod 16 * 4), 61]"
| "urlsafe_b64encode (a # b # c # r) =
    b64_char (a div 4) # b64_char (a mod 4 * 16 + b div 16) #
    b64_char (b mod 16 * 4 + c div 64) # b64_char (c mod 64) # urlsafe_b64encode r"

text \<open>\<open>s.rstrip("=")\<close>\<close>

definition rstrip_pad :: "pystr \<Rightarrow> pystr" where
  "rstrip_pad s = rev (dropWhile (\<lambda>c. c = 61) (rev s))"

definition encode_b64url :: "bytes \<Rightarrow> pystr" where
  "encode_b64url raw = rstrip_pad (urlsafe_b64encode raw)"

text \<open>
  The decoding loop of \<open>binascii.a2b_base64\<close> in its default, lenient mode: characters outside the
  alphabet are skipped, a sufficient run of padding ends the input, and an incomplete quad at
  the end raises \<open>binascii.Error\<close>, a \<open>ValueError\<close>.
\<close>

fun a2b_base64 :: "nat \<Rightarrow> nat \<Rightarrow> nat \<Rightarrow> pystr \<Rightarrow> exn + bytes" where
  "a2b_base64 quad_pos leftchar pads [] =
    (if quad_pos = 0 then Inr [] else Inl (Py Value_Error))"
| "a2b_base64 quad_pos leftchar pads (c # cs) =
    (if c = 61 then
       (if 2 \<le> quad_pos then
          (if 4 \<le> quad_pos + (pads + 1) then Inr [] else a2b_base64 quad_pos leftchar (pads + 1) cs)
        else a2b_base64 quad_pos leftchar pads cs)
     else
       (case b64_val c of
          None \<Rightarrow> a2b_base64 quad_pos leftchar pads cs
        | Some v \<Rightarrow>
           (if quad_pos = 0 then a2b_base64 1 v 0 cs
            else if quad_pos = 1 then
              bindE (a2b_base64 2 (v mod 16) 0 cs) (\<lambda>r. Inr ((leftchar * 4 + v div 16) # r))
            else if quad_pos = 2 then
              bindE (a2b_base64 3 (v mod 4) 0 cs) (\<lambda>r. Inr ((leftchar * 16 + v div 4) # r))
            else
              bindE (a2b_base64 0 0 0 cs) (\<lambda>r. Inr ((leftchar * 64 + v) # r)))))"

definition urlsafe_b64decode :: "pystr \<Rightarrow> exn + bytes" where
  "urlsafe_b64decode s = a2b_base64 0 0 0 s"

definition b64_pad :: "pystr \<Rightarrow> pystr" where
  "b64_pad s = s @ replicate ((4 - length s mod 4) mod 4) 61"

definition b64url_decode_exact :: "json \<Rightarrow> nat \<Rightarrow> exn + bytes" where
  "b64url_decode_exact value n =
    (case value of
       JStr s \<Rightarrow>
         (if \<not> dollar b64url_re s then Inl (Lex INVALID_INPUT)
          else (case urlsafe_b64decode (b64_pad s) of
                  Inl _ \<Rightarrow> Inl (Lex INVALID_INPUT)
                | Inr raw \<Rightarrow>
                   (if length raw \<noteq> n then Inl (Lex INVALID_INPUT)
                    else if encode_b64url raw \<noteq> s then Inl (Lex INVALID_INPUT)
                    else Inr raw)))
     | _ \<Rightarrow> Inl (Lex INVALID_INPUT))"

definition check_signature :: "json \<Rightarrow> exn + json" where
  "check_signature value = bindE (b64url_decode_exact value 64) (\<lambda>_. Inr value)"

definition decode_signature :: "json \<Rightarrow> exn + bytes" where
  "decode_signature value = bindE (check_signature value) (\<lambda>_. b64url_decode_exact value 64)"

definition check_public_key :: "json \<Rightarrow> exn + json" where
  "check_public_key value = bindE (b64url_decode_exact value 32) (\<lambda>_. Inr value)"

definition decode_public_key :: "json \<Rightarrow> exn + bytes" where
  "decode_public_key value = bindE (check_public_key value) (\<lambda>_. b64url_decode_exact value 32)"

section \<open>Identifiers, names, paths and text\<close>

datatype id_kind = ID_run | ID_event | ID_request | ID_token | ID_action | ID_compute | ID_channel | ID_key

fun ID_PREFIXES :: "id_kind \<Rightarrow> pystr" where
  "ID_PREFIXES ID_run = lit ''lwr''"
| "ID_PREFIXES ID_event = lit ''lwe''"
| "ID_PREFIXES ID_request = lit ''lwq''"
| "ID_PREFIXES ID_token = lit ''lwt''"
| "ID_PREFIXES ID_action = lit ''lwa''"
| "ID_PREFIXES ID_compute = lit ''lwc''"
| "ID_PREFIXES ID_channel = lit ''lwp''"
| "ID_PREFIXES ID_key = lit ''lwk''"

definition all_id_kinds :: "id_kind list" where
  "all_id_kinds =
    [ID_run, ID_event, ID_request, ID_token, ID_action, ID_compute, ID_channel, ID_key]"

definition startswith :: "pystr \<Rightarrow> pystr \<Rightarrow> bool" where
  "startswith s p \<longleftrightarrow> take (length p) s = p"

text \<open>The two forms of \<open>check_id\<close>: with a kind, and the generic one that tries every prefix.\<close>

definition check_id :: "json \<Rightarrow> id_kind \<Rightarrow> exn + pystr" where
  "check_id value kind =
    (case value of
       JStr s \<Rightarrow>
         (let prefix = ID_PREFIXES kind @ [95]
          in if \<not> startswith s prefix then Inl (Lex INVALID_INPUT)
             else if \<not> dollar id_chars_re (drop (length prefix) s) then Inl (Lex INVALID_INPUT)
             else Inr s)
     | _ \<Rightarrow> Inl (Lex INVALID_INPUT))"

fun check_id_loop :: "pystr \<Rightarrow> id_kind list \<Rightarrow> exn + pystr" where
  "check_id_loop s [] = Inl (Lex INVALID_INPUT)"
| "check_id_loop s (k # ks) =
    (if startswith s (ID_PREFIXES k @ [95]) then
       (if dollar id_chars_re (drop (length (ID_PREFIXES k) + 1) s) then Inr s
        else Inl (Lex INVALID_INPUT))
     else check_id_loop s ks)"

definition check_any_id :: "json \<Rightarrow> exn + pystr" where
  "check_any_id value =
    (case value of
       JStr s \<Rightarrow> check_id_loop s all_id_kinds
     | _ \<Rightarrow> Inl (Lex INVALID_INPUT))"

definition check_model_name :: "json \<Rightarrow> exn + pystr" where
  "check_model_name value =
    (case value of
       JStr s \<Rightarrow> if dollar model_name_re s then Inr s else Inl (Lex INVALID_INPUT)
     | _ \<Rightarrow> Inl (Lex INVALID_INPUT))"

text \<open>\<open>check_path\<close> encodes before it looks for surrogates, so a surrogate raises
  \<open>UnicodeEncodeError\<close> here; \<open>check_text\<close> tests for surrogates first.\<close>

definition check_path :: "json \<Rightarrow> exn + pystr" where
  "check_path value =
    (case value of
       JStr s \<Rightarrow>
         (if \<not> startswith s [47] then Inl (Lex INVALID_INPUT)
          else if 0 \<in> set s then Inl (Lex INVALID_INPUT)
          else bindE (utf8_encode s)
            (\<lambda>b. if length b > 4096 then Inl (Lex INVALID_INPUT) else Inr s))
     | _ \<Rightarrow> Inl (Lex INVALID_INPUT))"

definition check_text_max :: "json \<Rightarrow> nat \<Rightarrow> exn + pystr" where
  "check_text_max value max_bytes =
    (case value of
       JStr s \<Rightarrow>
         (if 0 \<in> set s then Inl (Lex INVALID_INPUT)
          else if list_ex is_surrogate s then Inl (Lex INVALID_INPUT)
          else bindE (utf8_encode s)
            (\<lambda>b. if length b > max_bytes then Inl (Lex INVALID_INPUT) else Inr s))
     | _ \<Rightarrow> Inl (Lex INVALID_INPUT))"

definition check_text :: "json \<Rightarrow> exn + pystr" where
  "check_text value = check_text_max value 4096"

definition check_env_key :: "json \<Rightarrow> exn + pystr" where
  "check_env_key value =
    (case value of
       JStr s \<Rightarrow> if dollar env_key_re s then Inr s else Inl (Lex INVALID_INPUT)
     | _ \<Rightarrow> Inl (Lex INVALID_INPUT))"

definition check_body_b64 :: "json \<Rightarrow> exn + pystr" where
  "check_body_b64 value =
    (case value of
       JStr s \<Rightarrow>
         (if s = [] then Inr s
          else if \<not> dollar b64url_re s then Inl (Lex INVALID_INPUT)
          else (case urlsafe_b64decode (b64_pad s) of
                  Inl _ \<Rightarrow> Inl (Lex INVALID_INPUT)
                | Inr raw \<Rightarrow>
                   (if length raw > 262144 then Inl (Lex INVALID_INPUT)
                    else if encode_b64url raw \<noteq> s then Inl (Lex INVALID_INPUT)
                    else Inr s)))
     | _ \<Rightarrow> Inl (Lex INVALID_INPUT))"

section \<open>What the validators accept\<close>

lemma u_re_iff: "u_re s \<longleftrightarrow> is_canonical_dec s \<and> length s \<le> 39"
proof (cases s)
  case (Cons c cs)
  have "is_digit c \<and> c \<noteq> 48 \<longleftrightarrow> 49 \<le> c \<and> c \<le> 57"
    by (auto simp: is_digit_def)
  with Cons show ?thesis
    by (auto simp: u_re_def is_canonical_dec_def)
qed (simp add: u_re_def is_canonical_dec_def)

lemma canonical_dec_ends_in_digit: "is_canonical_dec s \<Longrightarrow> s \<noteq> [] \<and> is_digit (last s)"
  by (auto simp: is_canonical_dec_def is_digit_def list_all_iff)

lemma chop_newline_canonical [simp]: "is_canonical_dec s \<Longrightarrow> chop_newline s = s"
  using canonical_dec_ends_in_digit [of s] by (auto simp: chop_newline_def is_digit_def)

lemma chop_newline_snoc [simp]: "chop_newline (s @ [10]) = s"
  by (simp add: chop_newline_def)

lemma dollar_iff: "dollar p s \<longleftrightarrow> p s \<or> (\<exists>t. s = t @ [10] \<and> p t)"
  by (auto simp: dollar_def) (metis append_butlast_last_id)

lemma py_int_dec_str [simp]: "py_int (dec_str n) = int n" "py_int (dec_str n @ [10]) = int n"
  by (simp_all add: py_int_def dec_str_canonical)

lemma U_MAX_lt: "U_MAX < 10 ^ 39" and U_MAX_nonneg [simp]: "0 \<le> U_MAX"
  by (simp_all add: U_MAX_def)

lemma length_dec_str_u: "int n \<le> U_MAX \<Longrightarrow> length (dec_str n) \<le> 39"
proof -
  assume "int n \<le> U_MAX"
  with U_MAX_lt have "int n < int (10 ^ 39)"
    by simp
  then have "n < 10 ^ 39"
    by (simp only: of_nat_less_iff)
  then show ?thesis
    by (rule dec_str_length_le) simp
qed

lemma check_u_JStr_iff:
  "check_u (JStr s) = Inr t \<longleftrightarrow>
     t = s \<and> (\<exists>n. int n \<le> U_MAX \<and> (s = dec_str n \<or> s = dec_str n @ [10]))"
proof -
  have "dollar u_re s \<and> py_int s \<le> U_MAX \<longleftrightarrow>
      (\<exists>n. int n \<le> U_MAX \<and> (s = dec_str n \<or> s = dec_str n @ [10]))" (is "?l \<longleftrightarrow> ?r")
  proof
    assume ?l
    then obtain u where "is_canonical_dec u" and "s = u \<or> s = u @ [10]" and "py_int s \<le> U_MAX"
      by (auto simp: dollar_iff u_re_iff)
    then show ?r
      by (intro exI [of _ "dec_val u"]) (auto simp: dec_str_val py_int_def)
  next
    assume ?r
    then show ?l
      by (auto simp: dollar_iff u_re_iff dec_str_canonical length_dec_str_u)
  qed
  then show ?thesis
    by (auto simp: check_u_def)
qed

lemma check_u_result: "check_u v = Inr t \<Longrightarrow> v = JStr t"
  by (cases v) (auto simp: check_u_def split: if_splits)

lemma check_u_error: "check_u v = Inl e \<Longrightarrow> e = Lex INVALID_INPUT"
  by (cases v) (auto simp: check_u_def split: if_splits)

lemma check_u_iff:
  "check_u v = Inr t \<longleftrightarrow>
     v = JStr t \<and> (\<exists>n. int n \<le> U_MAX \<and> (t = dec_str n \<or> t = dec_str n @ [10]))"
  using check_u_JStr_iff check_u_result by metis

lemma parse_u_range: "parse_u v = Inr n \<Longrightarrow> 0 \<le> n \<and> n \<le> U_MAX"
  by (auto simp: parse_u_def result_simps check_u_iff)

lemma parse_u_error: "parse_u v = Inl e \<Longrightarrow> e = Lex INVALID_INPUT"
  by (auto simp: parse_u_def result_simps dest: check_u_error)

interpretation u_codec: codec "\<lambda>v. JStr (dec_str (nat v))" parse_u "\<lambda>v. 0 \<le> v \<and> v \<le> U_MAX"
proof
  fix v :: int
  assume v: "0 \<le> v \<and> v \<le> U_MAX"
  then have "check_u (JStr (dec_str (nat v))) = Inr (dec_str (nat v))"
    by (auto simp: check_u_JStr_iff intro!: exI [of _ "nat v"])
  with v show "parse_u (JStr (dec_str (nat v))) = Inr v"
    by (simp add: parse_u_def)
qed

lemma u_str_eq_Inr: "u_str v = Inr s \<longleftrightarrow> 0 \<le> v \<and> v \<le> U_MAX \<and> s = dec_str (nat v)"
  by (auto simp: u_str_def)

lemma u_str_eq_Inl: "u_str v = Inl e \<longleftrightarrow> (v < 0 \<or> U_MAX < v) \<and> e = Lex OVERFLOW"
  by (auto simp: u_str_def)

lemma parse_u_str: "u_str v = Inr s \<Longrightarrow> parse_u (JStr s) = Inr v"
  by (auto simp: u_str_eq_Inr u_codec.dec_enc)

lemma u_ops_range:
  assumes "0 \<le> a" "0 \<le> b" "a \<le> U_MAX"
  shows "u_add a b = (if a + b \<le> U_MAX then Inr (a + b) else Inl (Lex OVERFLOW))"
    "u_mul a b = (if a * b \<le> U_MAX then Inr (a * b) else Inl (Lex OVERFLOW))"
    "u_sub a b = (if b \<le> a then Inr (a - b) else Inl (Lex OVERFLOW))"
    "u_sub a b = Inr r \<Longrightarrow> 0 \<le> r \<and> r \<le> U_MAX"
  using assms by (auto simp: u_add_def u_mul_def u_sub_def Let_def split: if_splits)

section \<open>Base64url is canonical\<close>

lemma b64_val_char [simp]: "v < 64 \<Longrightarrow> b64_val (b64_char v) = Some v"
  by (auto simp: b64_val_def b64_char_def is_upper_def is_lower_def is_digit_def)

lemma b64_char_not_pad [simp]: "b64_char v \<noteq> 61"
  by (auto simp: b64_char_def)

lemma is_id_char_b64 [simp]: "is_id_char (b64_char v)"
  by (auto simp: b64_char_def is_id_char_def is_upper_def is_lower_def is_digit_def)

lemma rstrip_pad_Cons: "c \<noteq> 61 \<Longrightarrow> rstrip_pad (c # s) = c # rstrip_pad s"
  by (simp add: rstrip_pad_def dropWhile_append)

lemma rstrip_pad_pads [simp]: "rstrip_pad [] = []" "rstrip_pad (61 # s) = (if set s \<subseteq> {61} then [] else 61 # rstrip_pad s)"
  by (auto simp: rstrip_pad_def dropWhile_append)

lemma encode_b64url_simps:
  "encode_b64url [] = []"
  "encode_b64url [a] = [b64_char (a div 4), b64_char (a mod 4 * 16)]"
  "encode_b64url [a, b] =
    [b64_char (a div 4), b64_char (a mod 4 * 16 + b div 16), b64_char (b mod 16 * 4)]"
  "encode_b64url (a # b # c # r) =
    b64_char (a div 4) # b64_char (a mod 4 * 16 + b div 16) #
    b64_char (b mod 16 * 4 + c div 64) # b64_char (c mod 64) # encode_b64url r"
  by (simp_all add: encode_b64url_def rstrip_pad_Cons)

lemma b64_pad_simps:
  "b64_pad [] = []" "b64_pad [x, y] = [x, y, 61, 61]" "b64_pad [x, y, z] = [x, y, z, 61]"
  "b64_pad (x # y # z # w # s) = x # y # z # w # b64_pad s"
  by (simp_all add: b64_pad_def numeral_2_eq_2)

lemma b64_decode_encode: "is_bytes raw \<Longrightarrow> urlsafe_b64decode (b64_pad (encode_b64url raw)) = Inr raw"
  unfolding urlsafe_b64decode_def
proof (induction raw rule: urlsafe_b64encode.induct)
  case 1
  then show ?case by (simp add: encode_b64url_simps b64_pad_simps)
next
  case (2 a)
  then have "a div 4 < 64" "a mod 4 * 16 < 64" "a div 4 * 4 + a mod 4 * 16 div 16 = a"
    by auto
  then show ?case by (simp add: encode_b64url_simps b64_pad_simps)
next
  case (3 a b)
  then have "a div 4 < 64" "a mod 4 * 16 + b div 16 < 64" "b mod 16 * 4 < 64"
    "a div 4 * 4 + (a mod 4 * 16 + b div 16) div 16 = a"
    "(a mod 4 * 16 + b div 16) mod 16 * 16 + b mod 16 * 4 div 4 = b"
    by auto
  then show ?case by (simp add: encode_b64url_simps b64_pad_simps)
next
  case (4 a b c r)
  then have "a div 4 < 64" "a mod 4 * 16 + b div 16 < 64" "b mod 16 * 4 + c div 64 < 64" "c mod 64 < 64"
    by auto
  note vals = this [THEN b64_val_char]
  from 4 have "a div 4 * 4 + (a mod 4 * 16 + b div 16) div 16 = a"
    "(a mod 4 * 16 + b div 16) mod 16 * 16 + (b mod 16 * 4 + c div 64) div 4 = b"
    "(b mod 16 * 4 + c div 64) mod 4 * 64 + c mod 64 = c"
    by auto
  with 4 show ?case
    by (simp add: encode_b64url_simps b64_pad_simps vals del: div_mult_self3 div_add_self1)
qed

lemma encode_b64url_chars: "list_all is_id_char (encode_b64url raw)"
  by (induction raw rule: urlsafe_b64encode.induct) (simp_all add: encode_b64url_simps)

lemma encode_b64url_eq_Nil: "encode_b64url raw = [] \<longleftrightarrow> raw = []"
  by (cases raw rule: urlsafe_b64encode.cases) (simp_all add: encode_b64url_simps)

lemma a2b_is_bytes:
  assumes "a2b_base64 q l p s = Inr r"
    and "q = 0 \<or> (q = 1 \<and> l < 64) \<or> (q = 2 \<and> l < 16) \<or> (q = 3 \<and> l < 4)"
  shows "is_bytes r"
  using assms
proof (induction q l p s arbitrary: r rule: a2b_base64.induct)
  case (1 q l p)
  then show ?case by (auto split: if_splits)
next
  case (2 q l p c cs)
  have v: "v < 64" if "b64_val c = Some v" for v
    using that by (auto simp: b64_val_def is_upper_def is_lower_def is_digit_def split: if_splits)
  show ?case
  proof (cases "c = 61")
    case True
    with "2.prems"(1) consider "r = []" | "2 \<le> q" "\<not> 4 \<le> q + (p + 1)" "a2b_base64 q l (p + 1) cs = Inr r"
      | "\<not> 2 \<le> q" "a2b_base64 q l p cs = Inr r"
      by (auto split: if_splits)
    then show ?thesis
      using "2.IH"(1,2) [OF True] "2.prems"(2) by cases auto
  next
    case False
    show ?thesis
    proof (cases "b64_val c")
      case None
      with "2.prems" "2.IH"(3) [OF False None] False show ?thesis by simp
    next
      case (Some w)
      have w: "w < 64" "w div 16 < 4" "w div 4 < 16"
        using v [OF Some] by auto
      have step: "a2b_base64 q l p (c # cs) =
        (if q = 0 then a2b_base64 1 w 0 cs
         else if q = 1 then bindE (a2b_base64 2 (w mod 16) 0 cs) (\<lambda>r. Inr ((l * 4 + w div 16) # r))
         else if q = 2 then bindE (a2b_base64 3 (w mod 4) 0 cs) (\<lambda>r. Inr ((l * 16 + w div 4) # r))
         else bindE (a2b_base64 0 0 0 cs) (\<lambda>r. Inr ((l * 64 + w) # r)))"
        using False Some by simp
      from "2.prems"(2) consider "q = 0" | "q = 1" "l < 64" | "q = 2" "l < 16" | "q = 3" "l < 4"
        by linarith
      then show ?thesis
      proof cases
        case 1
        with "2.prems"(1) w "2.IH"(4) [OF False Some] show ?thesis
          unfolding step by simp
      next
        case 2
        with "2.prems"(1) obtain r' where "a2b_base64 2 (w mod 16) 0 cs = Inr r'" "r = (l * 4 + w div 16) # r'"
          unfolding step by (auto simp: result_simps)
        with 2 w "2.IH"(5) [OF False Some] show ?thesis by simp
      next
        case 3
        with "2.prems"(1) obtain r' where "a2b_base64 3 (w mod 4) 0 cs = Inr r'" "r = (l * 16 + w div 4) # r'"
          unfolding step by (auto simp: result_simps)
        with 3 w "2.IH"(6) [OF False Some] show ?thesis by simp
      next
        case 4
        with "2.prems"(1) obtain r' where "a2b_base64 0 0 0 cs = Inr r'" "r = (l * 64 + w) # r'"
          unfolding step by (auto simp: result_simps)
        with 4 w "2.IH"(7) [OF False Some] show ?thesis by simp
      qed
    qed
  qed
qed

interpretation b64url: canonical_codec encode_b64url "\<lambda>s. b64url_decode_exact (JStr s) n"
    "\<lambda>raw. is_bytes raw \<and> length raw = n \<and> 0 < n" for n
proof
  fix raw :: bytes
  assume "is_bytes raw \<and> length raw = n \<and> 0 < n"
  moreover from this have "dollar b64url_re (encode_b64url raw)"
    using encode_b64url_chars encode_b64url_eq_Nil by (auto simp: dollar_def b64url_re_def)
  ultimately show "b64url_decode_exact (JStr (encode_b64url raw)) n = Inr raw"
    by (simp add: b64url_decode_exact_def b64_decode_encode)
next
  fix s raw
  assume ok: "b64url_decode_exact (JStr s) n = Inr raw"
  then have re: "dollar b64url_re s" and dec: "urlsafe_b64decode (b64_pad s) = Inr raw"
    and len: "length raw = n" and enc: "encode_b64url raw = s"
    by (auto simp: b64url_decode_exact_def split: if_splits sum.splits)
  have "is_bytes raw"
    using dec a2b_is_bytes by (auto simp: urlsafe_b64decode_def)
  moreover have "raw \<noteq> []"
    using re enc encode_b64url_eq_Nil [of raw] by (auto simp: dollar_def b64url_re_def)
  ultimately show "encode_b64url raw = s \<and> is_bytes raw \<and> length raw = n \<and> 0 < n"
    using len enc by auto
qed

lemma b64url_decode_exact_iff:
  "b64url_decode_exact v n = Inr raw \<longleftrightarrow>
     v = JStr (encode_b64url raw) \<and> is_bytes raw \<and> length raw = n \<and> 0 < n"
proof (cases v)
  case (JStr s)
  show ?thesis
    unfolding JStr b64url.dec_eq_Inr by auto
qed (simp_all add: b64url_decode_exact_def)

lemma decode_signature_iff:
  "decode_signature v = Inr sig \<longleftrightarrow> v = JStr (encode_b64url sig) \<and> is_bytes sig \<and> length sig = 64"
  by (auto simp: decode_signature_def check_signature_def result_simps b64url_decode_exact_iff)

lemma decode_public_key_iff:
  "decode_public_key v = Inr k \<longleftrightarrow> v = JStr (encode_b64url k) \<and> is_bytes k \<and> length k = 32"
  by (auto simp: decode_public_key_def check_public_key_def result_simps b64url_decode_exact_iff)

section \<open>Identifier prefixes\<close>

lemma ID_PREFIXES_inject [simp]: "ID_PREFIXES a = ID_PREFIXES b \<longleftrightarrow> a = b"
  by (cases a; cases b; simp)

lemma length_ID_PREFIXES [simp]: "length (ID_PREFIXES k) = 3"
  by (cases k) simp_all

lemma startswith_unique:
  "startswith s (ID_PREFIXES a @ [95]) \<Longrightarrow> startswith s (ID_PREFIXES b @ [95]) \<Longrightarrow> a = b"
  by (simp add: startswith_def)

lemma check_id_loop_iff:
  "check_id_loop s ks = Inr t \<longleftrightarrow> (\<exists>k \<in> set ks. check_id (JStr s) k = Inr t)"
proof (induction ks)
  case (Cons k ks)
  show ?case
  proof (cases "startswith s (ID_PREFIXES k @ [95])")
    case True
    then have "check_id (JStr s) k' \<noteq> Inr t" if "k' \<noteq> k" for k'
      using that startswith_unique by (auto simp: check_id_def Let_def)
    with True show ?thesis
      by (auto simp: check_id_def Let_def)
  next
    case False
    with Cons show ?thesis
      by (auto simp: check_id_def Let_def)
  qed
qed simp

lemma check_any_id_iff: "check_any_id v = Inr t \<longleftrightarrow> (\<exists>k. check_id v k = Inr t)"
proof (cases v)
  case (JStr s)
  have "set all_id_kinds = UNIV"
    by (auto simp: all_id_kinds_def) (case_tac x; simp)
  with JStr show ?thesis
    by (simp add: check_any_id_def check_id_loop_iff)
qed (simp_all add: check_any_id_def check_id_def)

lemma check_id_kind_unique: "check_id v a = Inr s \<Longrightarrow> check_id v b = Inr t \<Longrightarrow> a = b"
  by (cases v) (auto simp: check_id_def Let_def split: if_splits dest: startswith_unique)

text \<open>The validators return the text they were given.\<close>

lemma validators_return_input:
  "check_hash v = Inr s \<Longrightarrow> v = JStr s"
  "check_id v k = Inr s \<Longrightarrow> v = JStr s"
  "check_model_name v = Inr s \<Longrightarrow> v = JStr s"
  "check_path v = Inr s \<Longrightarrow> v = JStr s"
  "check_text_max v m = Inr s \<Longrightarrow> v = JStr s"
  "check_env_key v = Inr s \<Longrightarrow> v = JStr s"
  "check_body_b64 v = Inr s \<Longrightarrow> v = JStr s"
  by (cases v; auto simp: check_hash_def check_id_def check_model_name_def check_path_def
      check_text_max_def check_env_key_def check_body_b64_def Let_def result_simps
      split: if_splits sum.splits)+

section \<open>Properties\<close>

text \<open>\<open>parse_u\<close> accepts exactly the texts \<open>u_str\<close> prints for 0 to 2^127 - 1, and those texts with one
  newline appended (the end anchor of the regular expression lets it through).\<close>

theorem parse_u_accepts_exactly:
  "parse_u v = Inr n \<longleftrightarrow> (\<exists>s. u_str n = Inr s \<and> (v = JStr s \<or> v = JStr (s @ [10])))"
proof
  assume "parse_u v = Inr n"
  then show "\<exists>s. u_str n = Inr s \<and> (v = JStr s \<or> v = JStr (s @ [10]))"
    by (auto simp: parse_u_def result_simps check_u_iff u_str_eq_Inr)
next
  assume "\<exists>s. u_str n = Inr s \<and> (v = JStr s \<or> v = JStr (s @ [10]))"
  then obtain s where s: "0 \<le> n" "n \<le> U_MAX" "s = dec_str (nat n)" "v = JStr s \<or> v = JStr (s @ [10])"
    by (auto simp: u_str_eq_Inr)
  note s = this
  have "check_u (JStr t) = Inr t" if "t = s \<or> t = s @ [10]" for t
    unfolding check_u_JStr_iff using s that by (intro conjI refl exI [of _ "nat n"]) auto
  then show "parse_u v = Inr n"
    using s by (auto simp: parse_u_def)
qed

text \<open>On parsed operands the checked operations return the exact integer result when it is representable
  and raise OVERFLOW otherwise; they never wrap.\<close>

theorem u_operations_exact:
  assumes "parse_u x = Inr a" "parse_u y = Inr b"
  shows "u_add a b = (if a + b \<le> U_MAX then Inr (a + b) else Inl (Lex OVERFLOW)) \<and>
    u_mul a b = (if a * b \<le> U_MAX then Inr (a * b) else Inl (Lex OVERFLOW)) \<and>
    u_sub a b = (if b \<le> a then Inr (a - b) else Inl (Lex OVERFLOW)) \<and>
    (\<forall>r. r \<in> {u_add a b, u_mul a b, u_sub a b} \<longrightarrow> (\<forall>n. r = Inr n \<longrightarrow> (\<exists>s. u_str n = Inr s)))"
  using parse_u_range [OF assms(1)] parse_u_range [OF assms(2)] u_ops_range [of a b]
  by (auto simp: u_str_eq_Inr split: if_splits)

theorem u_operations_exact_witness:
  "u_add 2 3 = Inr 5 \<and> u_mul 2 3 = Inr 6 \<and> u_sub 2 3 = Inl (Lex OVERFLOW)"
proof -
  have p: "parse_u (JStr [50]) = Inr 2" "parse_u (JStr [51]) = Inr 3"
    by code_simp+
  show ?thesis
    using u_operations_exact [OF p] by (simp add: U_MAX_def)
qed

text \<open>Base64url is canonical: a signature or public key text is accepted exactly when it is the unpadded
  encoding of 64, respectively 32, bytes, so each has one accepted text and two texts never decode alike.\<close>

theorem base64url_canonical:
  "(decode_signature v = Inr raw \<longleftrightarrow> v = JStr (encode_b64url raw) \<and> is_bytes raw \<and> length raw = 64) \<and>
   (decode_public_key v = Inr raw \<longleftrightarrow> v = JStr (encode_b64url raw) \<and> is_bytes raw \<and> length raw = 32)"
  by (simp add: decode_signature_iff decode_public_key_iff)

end
