(* ===== verification/Units.thy ===== *)
theory Units imports Scalars begin

text \<open>
  Models \<open>src/lexwatt/units.py\<close>: the command line's joule, FLOP, range and wall-clock parsers.
  \<open>int\<close> on a digit string longer than Python's conversion limit (4300 digits) raises \<open>ValueError\<close>,
  which these functions do not catch. The results: joule parsing is exact decimal scaling, and every
  accepted quantity lies in its stated range.
\<close>

section \<open>Definitions\<close>

definition INT_MAX_STR_DIGITS :: nat where
  "INT_MAX_STR_DIGITS = 4300"

text \<open>\<open>int(s)\<close> for a string of digits.\<close>

definition int_of_digits :: "pystr \<Rightarrow> exn + int" where
  "int_of_digits s =
    (if length s > INT_MAX_STR_DIGITS then Inl (Py Value_Error) else Inr (int (dec_val s)))"

text \<open>The groups of \<open>_JOULES_RE\<close>: the whole part and the (possibly absent) fraction.\<close>

definition joules_groups :: "pystr \<Rightarrow> (pystr \<times> pystr) option" where
  "joules_groups text =
    (let t = chop_newline text; whole = takeWhile is_digit t; rest = dropWhile is_digit t
     in if whole = [] then None
        else (case rest of
            [] \<Rightarrow> Some (whole, [])
          | c # frac \<Rightarrow>
              if c = 46 \<and> 1 \<le> length frac \<and> length frac \<le> 6 \<and> list_all is_digit frac
              then Some (whole, frac) else None))"

text \<open>\<open>s.ljust(6, "0")\<close>\<close>

definition ljust6 :: "pystr \<Rightarrow> pystr" where
  "ljust6 s = s @ replicate (6 - length s) 48"

definition parse_joules :: "pystr \<Rightarrow> exn + int" where
  "parse_joules text =
    (case joules_groups text of
       None \<Rightarrow> Inl (Lex INVALID_INPUT)
     | Some (whole, frac) \<Rightarrow>
         (if length whole > 1 \<and> startswith whole [48] then Inl (Lex INVALID_INPUT)
          else bindE (int_of_digits whole) (\<lambda>w.
            bindE (int_of_digits (ljust6 frac)) (\<lambda>f.
              let uj = w * 1000000 + f
              in if uj > 2 ^ 127 - 1 then Inl (Lex INVALID_INPUT) else Inr uj))))"

definition parse_flops :: "pystr \<Rightarrow> exn + int" where
  "parse_flops text = bindE (check_u (JStr text)) (\<lambda>_. Inr (py_int text))"

definition parse_int_range :: "pystr \<Rightarrow> int \<Rightarrow> int \<Rightarrow> exn + int" where
  "parse_int_range text lo hi =
    (if \<not> dollar is_canonical_dec text then Inl (Lex INVALID_INPUT)
     else bindE (int_of_digits (chop_newline text)) (\<lambda>v.
       if lo \<le> v \<and> v \<le> hi then Inr v else Inl (Lex INVALID_INPUT)))"

definition wall_ms_to_us :: "pystr \<Rightarrow> exn + int" where
  "wall_ms_to_us text = bindE (parse_int_range text 1 86400000) (\<lambda>ms. Inr (ms * 1000))"

definition format_u :: "int \<Rightarrow> exn + pystr" where
  "format_u v = u_str v"

section \<open>Joules\<close>

lemma dec_val_zeros: "dec_val (s @ replicate k 48) = dec_val s * 10 ^ k"
proof (induction k)
  case (Suc k)
  have "s @ replicate (Suc k) 48 = (s @ replicate k 48) @ [48]"
    by (simp add: replicate_append_same)
  then show ?case
    using Suc by (simp only: dec_val_snoc) simp
qed simp

lemma dec_val_append: "dec_val (a @ b) = dec_val a * 10 ^ length b + dec_val b"
proof (induction b rule: rev_induct)
  case (snoc c b)
  have "dec_val (a @ b @ [c]) = dec_val ((a @ b) @ [c])"
    by simp
  with snoc show ?case
    by (simp only: dec_val_snoc) (simp add: algebra_simps)
qed simp

lemma joules_groups_digits:
  assumes "joules_groups text = Some (whole, frac)"
  shows "whole \<noteq> []" "list_all is_digit whole" "list_all is_digit frac" "length frac \<le> 6"
    "chop_newline text = whole @ (if frac = [] then [] else 46 # frac)"
proof -
  define t where "t = chop_newline text"
  have whole: "whole = takeWhile is_digit t" "whole \<noteq> []"
    and rest: "dropWhile is_digit t = [] \<and> frac = [] \<or>
      dropWhile is_digit t = 46 # frac \<and> frac \<noteq> [] \<and> list_all is_digit frac \<and> length frac \<le> 6"
    using assms by (auto simp: joules_groups_def t_def Let_def split: if_splits list.splits)
  show "whole \<noteq> []" "list_all is_digit frac" "length frac \<le> 6"
    using whole(2) rest by auto
  show "list_all is_digit whole"
    unfolding whole(1) list_all_iff by (auto dest: set_takeWhileD)
  show "chop_newline text = whole @ (if frac = [] then [] else 46 # frac)"
  proof -
    have "dropWhile is_digit t = (if frac = [] then [] else 46 # frac)"
      using rest by auto
    then show ?thesis
      using takeWhile_dropWhile_id [of is_digit t] unfolding whole(1) t_def [symmetric] by simp
  qed
qed

lemma joules_groups_intro:
  assumes "list_all is_digit whole" "whole \<noteq> []" "list_all is_digit frac" "frac \<noteq> []" "length frac \<le> 6"
  shows "joules_groups (whole @ 46 # frac) = Some (whole, frac)"
proof -
  have nd: "\<not> is_digit 46" "\<not> is_digit 10" by (simp_all add: is_digit_def)
  have "last frac \<noteq> 10"
    using assms(3,4) nd by (metis last_in_set list_all_iff)
  then have "chop_newline (whole @ 46 # frac) = whole @ 46 # frac"
    using assms(4) by (simp add: chop_newline_def)
  moreover have "takeWhile is_digit (whole @ 46 # frac) = whole"
    "dropWhile is_digit (whole @ 46 # frac) = 46 # frac"
    using assms(1) nd by (auto simp: takeWhile_append dropWhile_append list_all_iff)
  moreover have "1 \<le> length frac"
    using assms(4) by (cases frac) simp_all
  ultimately show ?thesis
    using assms by (simp add: joules_groups_def)
qed

lemma parse_joules_eq_Inr:
  assumes "parse_joules text = Inr uj"
  obtains w frac where
    "chop_newline text = dec_str w @ (if frac = [] then [] else 46 # frac)"
    "list_all is_digit frac" "length frac \<le> 6"
    "uj * 10 ^ length frac = int (dec_val (dec_str w @ frac)) * 1000000" "0 \<le> uj" "uj \<le> U_MAX"
proof -
  from assms obtain whole frac where g: "joules_groups text = Some (whole, frac)"
    and lead: "\<not> (length whole > 1 \<and> startswith whole [48])"
    and uj: "uj = int (dec_val whole) * 1000000 + int (dec_val (ljust6 frac))"
    and le: "uj \<le> 2 ^ 127 - 1"
    by (auto simp: parse_joules_def int_of_digits_def Let_def split: option.splits if_splits)
  note d = joules_groups_digits [OF g]
  have "is_canonical_dec whole"
    using d lead by (cases whole) (auto simp: is_canonical_dec_def startswith_def)
  then have whole: "dec_str (dec_val whole) = whole"
    by (rule dec_str_val)
  have "(10 :: nat) ^ (6 - length frac) * 10 ^ length frac = 10 ^ 6"
    using d by (simp flip: power_add)
  then have scale: "(10 :: int) ^ (6 - length frac) * 10 ^ length frac = 10 ^ 6"
    using d by (simp flip: power_add)
  have "uj * 10 ^ length frac
      = int (dec_val whole) * 10 ^ length frac * 1000000
        + int (dec_val frac) * (10 ^ (6 - length frac) * 10 ^ length frac)"
    by (simp add: uj ljust6_def dec_val_zeros algebra_simps)
  also have "\<dots> = int (dec_val (whole @ frac)) * 1000000"
    unfolding scale by (simp add: dec_val_append algebra_simps)
  finally show thesis
    using that [of "dec_val whole" frac] d le uj whole by (simp add: U_MAX_def)
qed

lemma parse_int_range_bounds: "parse_int_range text lo hi = Inr v \<Longrightarrow> lo \<le> v \<and> v \<le> hi"
  by (auto simp: parse_int_range_def result_simps split: if_splits)

lemma parse_int_range_dec_str:
  "lo \<le> int n \<Longrightarrow> int n \<le> hi \<Longrightarrow> length (dec_str n) \<le> 4300 \<Longrightarrow>
     parse_int_range (dec_str n) lo hi = Inr (int n)"
  by (simp add: parse_int_range_def dollar_def dec_str_canonical int_of_digits_def
      INT_MAX_STR_DIGITS_def)

lemma wall_ms_to_us_bounds: "wall_ms_to_us text = Inr us \<Longrightarrow> 1000 \<le> us \<and> us \<le> 86400000000"
  by (auto simp: wall_ms_to_us_def result_simps dest: parse_int_range_bounds)

section \<open>Properties\<close>

text \<open>A text \<open>parse_joules\<close> accepts is a canonical decimal with at most six fractional digits, and the
  microjoules returned are exactly that number times 10^6, inside the 127-bit range.\<close>

theorem parse_joules_exact:
  assumes "parse_joules text = Inr uj"
  shows "\<exists>w frac. chop_newline text = dec_str w @ (if frac = [] then [] else 46 # frac) \<and>
    list_all is_digit frac \<and> length frac \<le> 6 \<and>
    uj * 10 ^ length frac = int (dec_val (dec_str w @ frac)) * 1000000 \<and> 0 \<le> uj \<and> uj \<le> U_MAX"
  using parse_joules_eq_Inr [OF assms] by blast

theorem parse_joules_exact_witness:
  "parse_joules (lit ''12.500000'') = Inr 12500000 \<and>
   (\<exists>w frac. chop_newline (lit ''12.500000'') = dec_str w @ (if frac = [] then [] else 46 # frac) \<and>
    list_all is_digit frac \<and> length frac \<le> 6 \<and>
    12500000 * 10 ^ length frac = int (dec_val (dec_str w @ frac)) * 1000000 \<and> (0 :: int) \<le> 12500000 \<and>
    12500000 \<le> U_MAX)"
proof -
  have p: "parse_joules (lit ''12.500000'') = Inr 12500000"
    by (simp add: parse_joules_def joules_groups_def int_of_digits_def INT_MAX_STR_DIGITS_def ljust6_def lit_def
        chop_newline_def startswith_def is_digit_def dec_val_def Units.INT_MAX_STR_DIGITS_def)
  show ?thesis
    using p parse_joules_exact [OF p] by blast
qed

end
