(* ===== verification/Ids.thy ===== *)
theory Ids imports Scalars begin

text \<open>
  Models \<open>src/lexwatt/ids.py\<close>: the two identifier generators. The random source of \<open>IdGenerator\<close> is
  the sequence of indices its \<open>choice\<close> calls draw; a state is the number of draws made so far.
  \<open>DeterministicIds\<close> keeps one counter per prefix. What the callers rely on is the interface
  \<open>id_source\<close>: an identifier that is returned is well formed and not already in use.
\<close>

section \<open>The random generator\<close>

definition ALPHABET :: pystr where
  "ALPHABET = lit ''ABCDEFGHIJKLMNOPQRSTUVWXYZabcdefghijklmnopqrstuvwxyz0123456789_-''"

definition SUFFIX_LEN :: nat where
  "SUFFIX_LEN = 21"

text \<open>\<open>rng k\<close> is the result of the \<open>k\<close>-th draw; \<open>choice\<close> reduces it to an index.\<close>

definition choice :: "(nat \<Rightarrow> nat) \<Rightarrow> nat \<Rightarrow> nat" where
  "choice rng k = ALPHABET ! (rng k mod length ALPHABET)"

definition suffix :: "(nat \<Rightarrow> nat) \<Rightarrow> nat \<Rightarrow> pystr \<times> nat" where
  "suffix rng k = (map (choice rng) [k..<k + SUFFIX_LEN], k + SUFFIX_LEN)"

fun new_attempts :: "nat \<Rightarrow> (nat \<Rightarrow> nat) \<Rightarrow> id_kind \<Rightarrow> (pystr \<Rightarrow> bool) \<Rightarrow> nat \<Rightarrow> exn + (pystr \<times> nat)" where
  "new_attempts 0 rng kind exists k = Inl (Lex BUSY)"
| "new_attempts (Suc n) rng kind exists k =
    (let (suf, k') = suffix rng k; candidate = ID_PREFIXES kind @ [95] @ suf
     in if \<not> exists candidate then Inr (candidate, k') else new_attempts n rng kind exists k')"

definition IdGenerator_new ::
    "(nat \<Rightarrow> nat) \<Rightarrow> id_kind \<Rightarrow> (pystr \<Rightarrow> bool) \<Rightarrow> nat \<Rightarrow> exn + (pystr \<times> nat)" where
  "IdGenerator_new rng kind exists k = new_attempts 1000 rng kind exists k"

section \<open>The counter generator\<close>

text \<open>\<open>f"{n:021d}"\<close>\<close>

definition zfill21 :: "nat \<Rightarrow> pystr" where
  "zfill21 n = replicate (21 - length (dec_str n)) 48 @ dec_str n"

type_synonym id_counters = "id_kind \<Rightarrow> nat"

function det_loop :: "id_kind \<Rightarrow> (pystr \<Rightarrow> bool) \<Rightarrow> id_counters \<Rightarrow> nat \<Rightarrow> exn + (pystr \<times> id_counters)" where
  "det_loop kind exists counters n =
    (if n > 10 ^ 21 - 1 then Inl (Lex BUSY)
     else
       (let candidate = ID_PREFIXES kind @ [95] @ zfill21 n; counters' = counters(kind := n)
        in if \<not> exists candidate then Inr (candidate, counters')
           else det_loop kind exists counters' (n + 1)))"
  by pat_completeness auto
termination
  by (relation "measure (\<lambda>(kind, exists, counters, n). 10 ^ 21 - n)") auto

declare det_loop.simps [simp del]

definition DeterministicIds_new ::
    "id_kind \<Rightarrow> (pystr \<Rightarrow> bool) \<Rightarrow> id_counters \<Rightarrow> exn + (pystr \<times> id_counters)" where
  "DeterministicIds_new kind exists counters = det_loop kind exists counters (counters kind + 1)"

section \<open>The interface\<close>

locale id_source =
  fixes new :: "id_kind \<Rightarrow> (pystr \<Rightarrow> bool) \<Rightarrow> 's \<Rightarrow> exn + (pystr \<times> 's)"
  assumes new_fresh: "new kind exists s = Inr (i, s') \<Longrightarrow> \<not> exists i"
    and new_shape: "new kind exists s = Inr (i, s') \<Longrightarrow> check_id (JStr i) kind = Inr i"
    and new_error: "new kind exists s = Inl e \<Longrightarrow> e = Lex BUSY"
begin

text \<open>Allocating one identifier after another, each checked against those in use.\<close>

fun allocate :: "id_kind list \<Rightarrow> pystr set \<Rightarrow> 's \<Rightarrow> exn + (pystr list \<times> 's)" where
  "allocate [] used s = Inr ([], s)"
| "allocate (k # ks) used s =
    bindE (new k (\<lambda>i. i \<in> used) s) (\<lambda>(i, s').
      bindE (allocate ks (insert i used) s') (\<lambda>(is, s''). Inr (i # is, s'')))"

lemma allocate_distinct:
  "allocate ks used s = Inr (is, s') \<Longrightarrow> distinct is \<and> set is \<inter> used = {} \<and> length is = length ks"
proof (induction ks arbitrary: used s "is" s')
  case (Cons k ks)
  then obtain i t js where "new k (\<lambda>i. i \<in> used) s = Inr (i, t)"
      "allocate ks (insert i used) t = Inr (js, s')" "is = i # js"
    by (auto simp: result_simps)
  with Cons.IH new_fresh show ?case
    by fastforce
qed simp

lemma kinds_disjoint:
  "new a ex s = Inr (i, s') \<Longrightarrow> new b ex' t = Inr (j, t') \<Longrightarrow> i = j \<Longrightarrow> a = b"
  using new_shape check_id_kind_unique by metis

end

section \<open>Both generators implement it\<close>

lemma ALPHABET_chars: "c \<in> set ALPHABET \<Longrightarrow> is_id_char c"
proof -
  have "list_all is_id_char ALPHABET"
    by code_simp
  then show "c \<in> set ALPHABET \<Longrightarrow> is_id_char c"
    by (simp add: list_all_iff)
qed

lemma choice_is_id_char: "is_id_char (choice rng k)"
proof -
  have "length ALPHABET = 64"
    by (simp add: ALPHABET_def)
  then have "rng k mod length ALPHABET < length ALPHABET"
    by simp
  then show ?thesis
    unfolding choice_def by (rule ALPHABET_chars [OF nth_mem])
qed

lemma check_id_prefixed:
  "length s = 21 \<Longrightarrow> list_all is_id_char s \<Longrightarrow>
     check_id (JStr (ID_PREFIXES kind @ 95 # s)) kind = Inr (ID_PREFIXES kind @ 95 # s)"
  by (simp add: check_id_def startswith_def Let_def dollar_def id_chars_re_def)

lemma new_attempts_spec:
  "new_attempts n rng kind exists k = Inr (i, k') \<Longrightarrow>
     \<not> exists i \<and> check_id (JStr i) kind = Inr i"
proof (induction n arbitrary: k)
  case (Suc n)
  then show ?case
    by (auto simp: suffix_def SUFFIX_LEN_def Let_def check_id_prefixed list_all_iff choice_is_id_char
        split: if_splits)
qed simp

lemma new_attempts_error: "new_attempts n rng kind exists k = Inl e \<Longrightarrow> e = Lex BUSY"
  by (induction n arbitrary: k) (auto simp: Let_def split: if_splits prod.splits)

interpretation random_ids: id_source "IdGenerator_new rng" for rng
  by unfold_locales
     (auto simp: IdGenerator_new_def dest: new_attempts_spec new_attempts_error)

lemma zfill21_shape: "n < 10 ^ 21 \<Longrightarrow> length (zfill21 n) = 21 \<and> list_all is_id_char (zfill21 n)"
  using dec_str_length_le [of n 21] dec_str_digits [of n]
  by (auto simp: zfill21_def list_all_iff is_id_char_def is_digit_def)

lemma det_loop_spec:
  "det_loop kind exists c n = Inr (i, c') \<Longrightarrow>
     \<not> exists i \<and> check_id (JStr i) kind = Inr i \<and> n \<le> c' kind \<and>
     i = ID_PREFIXES kind @ 95 # zfill21 (c' kind) \<and> (\<forall>k. k \<noteq> kind \<longrightarrow> c' k = c k)"
proof (induction kind exists c n rule: det_loop.induct)
  case (1 kind exists c n)
  show ?case
  proof (cases "n > 10 ^ 21 - 1 \<or> \<not> exists (ID_PREFIXES kind @ [95] @ zfill21 n)")
    case True
    with "1.prems" have "n < 10 ^ 21" "\<not> exists i" "i = ID_PREFIXES kind @ 95 # zfill21 n" "c' = c(kind := n)"
      by (auto simp: det_loop.simps [of kind exists c n] Let_def split: if_splits)
    then show ?thesis
      using check_id_prefixed [of "zfill21 n" kind] zfill21_shape [of n] by auto
  next
    case False
    with "1.prems" have rest: "det_loop kind exists (c(kind := n)) (n + 1) = Inr (i, c')"
      by (simp add: det_loop.simps [of kind exists c n] Let_def)
    have "\<not> n > 10 ^ 21 - 1" "\<not> \<not> exists (ID_PREFIXES kind @ [95] @ zfill21 n)"
      using False by blast+
    from "1.IH" [OF this(1) refl refl this(2) rest] show ?thesis
      by auto
  qed
qed

lemma det_loop_error: "det_loop kind exists c n = Inl e \<Longrightarrow> e = Lex BUSY"
proof (induction kind exists c n rule: det_loop.induct)
  case (1 kind exists c n)
  show ?case
  proof (cases "n > 10 ^ 21 - 1 \<or> \<not> exists (ID_PREFIXES kind @ [95] @ zfill21 n)")
    case True
    with "1.prems" show ?thesis
      by (auto simp: det_loop.simps [of kind exists c n] Let_def split: if_splits)
  next
    case False
    with "1.prems" have rest: "det_loop kind exists (c(kind := n)) (n + 1) = Inl e"
      by (simp add: det_loop.simps [of kind exists c n] Let_def)
    have "\<not> n > 10 ^ 21 - 1" "\<not> \<not> exists (ID_PREFIXES kind @ [95] @ zfill21 n)"
      using False by blast+
    from "1.IH" [OF this(1) refl refl this(2) rest] show ?thesis .
  qed
qed

interpretation counter_ids: id_source DeterministicIds_new
  by unfold_locales (auto simp: DeterministicIds_new_def dest: det_loop_spec det_loop_error)

text \<open>The counter generator never repeats itself, even when nothing is checked against it: the
  counter it stores is the one the identifier prints.\<close>

lemma zfill21_inject: "m < 10 ^ 21 \<Longrightarrow> n < 10 ^ 21 \<Longrightarrow> zfill21 m = zfill21 n \<longleftrightarrow> m = n"
proof -
  have val: "dec_val (zfill21 k) = k" for k
  proof -
    have "dec_val (replicate j 48 @ s) = dec_val s" for j s
      by (induction s rule: rev_induct)
         (simp_all add: dec_val_def foldl_append flip: append_assoc,
          induction j, simp_all)
    then show ?thesis by (simp add: zfill21_def)
  qed
  show "zfill21 m = zfill21 n \<longleftrightarrow> m = n"
    by (metis val)
qed

section \<open>Properties\<close>

text \<open>An id drawn by either generator is not in use, is accepted by the id validator, and is accepted for
  no other kind than the one asked for.\<close>

theorem new_id_fresh_and_typed:
  assumes "IdGenerator_new rng kind exists s = Inr (i, s') \<or> DeterministicIds_new kind exists c = Inr (i, c')"
  shows "\<not> exists i \<and> check_any_id (JStr i) = Inr i \<and> (\<forall>k. check_id (JStr i) k = Inr i \<longleftrightarrow> k = kind)"
proof -
  have "\<not> exists i \<and> check_id (JStr i) kind = Inr i"
    using assms
  proof
    assume "IdGenerator_new rng kind exists s = Inr (i, s')"
    then show ?thesis using random_ids.new_fresh random_ids.new_shape by metis
  next
    assume "DeterministicIds_new kind exists c = Inr (i, c')"
    then show ?thesis using counter_ids.new_fresh counter_ids.new_shape by metis
  qed
  then show ?thesis
    using check_id_kind_unique by (auto simp: check_any_id_iff)
qed

theorem new_id_fresh_and_typed_witness:
  "\<exists>i. check_any_id (JStr i) = Inr i \<and> (\<forall>k. check_id (JStr i) k = Inr i \<longleftrightarrow> k = ID_run)"
proof -
  obtain i c' where "DeterministicIds_new ID_run (\<lambda>_. False) (\<lambda>_. 0) = Inr (i, c')"
    by (auto simp: DeterministicIds_new_def det_loop.simps)
  then show ?thesis
    using new_id_fresh_and_typed [of undefined ID_run "\<lambda>_. False" undefined i undefined "\<lambda>_. 0" c'] by blast
qed

end
