(* ===== verification/Estimator.thy ===== *)
theory Estimator imports Scalars begin

text \<open>
  Models \<open>src/lexwatt/estimator.py\<close> down to \<open>estimate_from_parts\<close>: the dimension checks and the
  dense-v1 work formula. Python's integers do not overflow, so the model computes on \<open>int\<close>, and
  \<open>//\<close> is Isabelle's \<open>div\<close>. (\<open>estimate_for_model_work\<close>, which first runs the schema checks on its
  two dictionaries, is in the theory \<open>Schema\<close>.)

  Results: inside the documented dimensions the estimate never overflows the 127-bit range, the
  number of attended token pairs has the closed form one expects, and the charge is monotone in the
  number of output tokens, so work that stays inside its envelope never costs more than was reserved.
\<close>

section \<open>Bounds\<close>

definition P_MAX :: int where "P_MAX = 10 ^ 13"
definition L_MAX :: int where "L_MAX = 1000"
definition H_MAX :: int where "H_MAX = 10 ^ 6"
definition I_MAX :: int where "I_MAX = 1048576"
definition O_MAX :: int where "O_MAX = 1048576"
definition IO_MAX :: int where "IO_MAX = 1048576"
definition B_MAX :: int where "B_MAX = 256"
definition S_MIN :: int where "S_MIN = 1000"
definition S_MAX :: int where "S_MAX = 10000"

lemmas estimator_bounds =
  P_MAX_def L_MAX_def H_MAX_def I_MAX_def O_MAX_def IO_MAX_def B_MAX_def S_MIN_def S_MAX_def

definition ESTIMATOR_KIND :: pystr where
  "ESTIMATOR_KIND = lit ''dense-v1''"

definition check_model_dims :: "int \<Rightarrow> int \<Rightarrow> int \<Rightarrow> int \<Rightarrow> exn + unit" where
  "check_model_dims parameters layers hidden safety_milli =
    (if \<not> (1 \<le> parameters \<and> parameters \<le> P_MAX) then Inl (Lex INVALID_INPUT)
     else if \<not> (1 \<le> layers \<and> layers \<le> L_MAX) then Inl (Lex INVALID_INPUT)
     else if \<not> (1 \<le> hidden \<and> hidden \<le> H_MAX) then Inl (Lex INVALID_INPUT)
     else if \<not> (S_MIN \<le> safety_milli \<and> safety_milli \<le> S_MAX) then Inl (Lex INVALID_INPUT)
     else Inr ())"

definition check_work_dims :: "int \<Rightarrow> int \<Rightarrow> int \<Rightarrow> exn + unit" where
  "check_work_dims input_tokens max_output_tokens batch =
    (if \<not> (1 \<le> input_tokens \<and> input_tokens \<le> I_MAX) then Inl (Lex INVALID_INPUT)
     else if \<not> (0 \<le> max_output_tokens \<and> max_output_tokens \<le> O_MAX) then Inl (Lex INVALID_INPUT)
     else if input_tokens + max_output_tokens > IO_MAX then Inl (Lex INVALID_INPUT)
     else if \<not> (1 \<le> batch \<and> batch \<le> B_MAX) then Inl (Lex INVALID_INPUT)
     else Inr ())"

section \<open>The formula\<close>

definition dense_v1 :: "int \<Rightarrow> int \<Rightarrow> int \<Rightarrow> int \<Rightarrow> int \<Rightarrow> int \<Rightarrow> int \<Rightarrow> exn + int" where
  "dense_v1 P L H I U B S =
    (let base = 2 * P * B * (I + U);
         pairs = I * (I - 1) div 2 + I * U + U * (U - 1) div 2;
         attention = 4 * L * H * B * pairs;
         result = ((base + attention) * S + 999) div 1000
     in if result > U_MAX then Inl (Lex OVERFLOW) else Inr result)"

record decomposition =
  base_flops :: pystr
  attention_flops :: pystr
  charged_flops :: pystr

text \<open>\<open>str(n)\<close> of a Python integer.\<close>

definition int_str :: "int \<Rightarrow> pystr" where
  "int_str n = (if n < 0 then 45 # dec_str (nat (- n)) else dec_str (nat n))"

definition estimate_decomposition ::
    "int \<Rightarrow> int \<Rightarrow> int \<Rightarrow> int \<Rightarrow> int \<Rightarrow> int \<Rightarrow> int \<Rightarrow> exn + decomposition" where
  "estimate_decomposition P L H I U B S =
    bindE (check_model_dims P L H S) (\<lambda>_.
    bindE (check_work_dims I U B) (\<lambda>_.
      let base = 2 * P * B * (I + U);
          pairs = I * (I - 1) div 2 + I * U + U * (U - 1) div 2;
          attention = 4 * L * H * B * pairs;
          total = (base + attention) * S
      in if total div 1000 + 1 > U_MAX then Inl (Lex OVERFLOW)
         else
           (let charged = (total + 999) div 1000
            in if base > U_MAX \<or> attention > U_MAX \<or> charged > U_MAX then Inl (Lex OVERFLOW)
               else Inr \<lparr>base_flops = int_str base, attention_flops = int_str attention,
                         charged_flops = int_str charged\<rparr>)))"

record estimate =
  est_estimator :: pystr
  est_base_flops :: pystr
  est_attention_flops :: pystr
  est_charged_flops :: pystr
  est_coverage :: pystr

definition estimate_from_parts ::
    "pystr \<Rightarrow> int \<Rightarrow> int \<Rightarrow> int \<Rightarrow> int \<Rightarrow> int \<Rightarrow> int \<Rightarrow> int \<Rightarrow> exn + estimate" where
  "estimate_from_parts kind parameters layers hidden input_tokens max_output_tokens batch safety_milli =
    (if kind \<noteq> ESTIMATOR_KIND then Inl (Lex UNSUPPORTED_MODEL)
     else bindE (estimate_decomposition parameters layers hidden input_tokens max_output_tokens batch
                   safety_milli)
       (\<lambda>parts. Inr
          \<lparr>est_estimator = ESTIMATOR_KIND,
           est_base_flops = base_flops parts,
           est_attention_flops = attention_flops parts,
           est_charged_flops = charged_flops parts,
           est_coverage = lit ''cooperative_estimate''\<rparr>))"

section \<open>The charge as a number\<close>

definition dense_base :: "int \<Rightarrow> int \<Rightarrow> int \<Rightarrow> int \<Rightarrow> int" where
  "dense_base P I U B = 2 * P * B * (I + U)"

definition dense_pairs :: "int \<Rightarrow> int \<Rightarrow> int" where
  "dense_pairs I U = I * (I - 1) div 2 + I * U + U * (U - 1) div 2"

definition dense_attention :: "int \<Rightarrow> int \<Rightarrow> int \<Rightarrow> int \<Rightarrow> int \<Rightarrow> int" where
  "dense_attention L H I U B = 4 * L * H * B * dense_pairs I U"

definition dense_charge :: "int \<Rightarrow> int \<Rightarrow> int \<Rightarrow> int \<Rightarrow> int \<Rightarrow> int \<Rightarrow> int \<Rightarrow> int" where
  "dense_charge P L H I U B S = ((dense_base P I U B + dense_attention L H I U B) * S + 999) div 1000"

definition model_dims_ok :: "int \<Rightarrow> int \<Rightarrow> int \<Rightarrow> int \<Rightarrow> bool" where
  "model_dims_ok P L H S \<longleftrightarrow> 1 \<le> P \<and> P \<le> P_MAX \<and> 1 \<le> L \<and> L \<le> L_MAX \<and> 1 \<le> H \<and> H \<le> H_MAX \<and>
     S_MIN \<le> S \<and> S \<le> S_MAX"

definition work_dims_ok :: "int \<Rightarrow> int \<Rightarrow> int \<Rightarrow> bool" where
  "work_dims_ok I U B \<longleftrightarrow> 1 \<le> I \<and> I \<le> I_MAX \<and> 0 \<le> U \<and> U \<le> O_MAX \<and> I + U \<le> IO_MAX \<and>
     1 \<le> B \<and> B \<le> B_MAX"

lemma check_model_dims_iff: "check_model_dims P L H S = Inr () \<longleftrightarrow> model_dims_ok P L H S"
  by (auto simp: check_model_dims_def model_dims_ok_def)

lemma check_work_dims_iff: "check_work_dims I U B = Inr () \<longleftrightarrow> work_dims_ok I U B"
  by (auto simp: check_work_dims_def work_dims_ok_def)

lemma check_dims_error:
  "check_model_dims P L H S = Inl e \<Longrightarrow> e = Lex INVALID_INPUT"
  "check_work_dims I U B = Inl e \<Longrightarrow> e = Lex INVALID_INPUT"
  by (auto simp: check_model_dims_def check_work_dims_def split: if_splits)

text \<open>Every unordered pair of the \<open>I + U\<close> tokens is attended once.\<close>

lemma consecutive_even: "even (n * (n - 1) :: int)"
  by simp

lemma dense_pairs_triangle: "dense_pairs I U = (I + U) * (I + U - 1) div 2"
proof -
  have "2 * (I * (I - 1) div 2) = I * (I - 1)" "2 * (U * (U - 1) div 2) = U * (U - 1)"
    "2 * ((I + U) * (I + U - 1) div 2) = (I + U) * (I + U - 1)"
    by (simp_all only: dvd_mult_div_cancel consecutive_even)
  then have "2 * dense_pairs I U = 2 * ((I + U) * (I + U - 1) div 2)"
    by (simp add: dense_pairs_def algebra_simps)
  then show ?thesis by simp
qed

lemma dense_pairs_nonneg: "1 \<le> I \<Longrightarrow> 0 \<le> U \<Longrightarrow> 0 \<le> dense_pairs I U"
  by (simp add: dense_pairs_triangle)

lemma dense_pairs_mono:
  assumes "1 \<le> I" "0 \<le> U" "U \<le> V"
  shows "dense_pairs I U \<le> dense_pairs I V"
proof -
  have "(I + U) * (I + U - 1) \<le> (I + V) * (I + V - 1)"
    using assms by (intro mult_mono) auto
  then show ?thesis
    unfolding dense_pairs_triangle by (rule zdiv_mono1) simp
qed

lemma dense_charge_mono:
  assumes "0 \<le> P" "0 \<le> L" "0 \<le> H" "0 \<le> B" "0 \<le> S" "1 \<le> I" "0 \<le> U" "U \<le> V"
  shows "dense_charge P L H I U B S \<le> dense_charge P L H I V B S"
proof -
  have "dense_base P I U B \<le> dense_base P I V B"
    unfolding dense_base_def using assms by (intro mult_left_mono) simp_all
  moreover have "dense_attention L H I U B \<le> dense_attention L H I V B"
    unfolding dense_attention_def using assms by (intro mult_left_mono dense_pairs_mono) simp_all
  ultimately have "(dense_base P I U B + dense_attention L H I U B) * S + 999
      \<le> (dense_base P I V B + dense_attention L H I V B) * S + 999"
    using assms(5) by (intro add_right_mono mult_right_mono add_mono)
  then show ?thesis
    unfolding dense_charge_def by (rule zdiv_mono1) simp
qed

text \<open>The largest admissible model and work stay far below the 127-bit bound.\<close>

lemma dense_bounds:
  assumes m: "model_dims_ok P L H S" and w: "work_dims_ok I U B"
  shows "0 \<le> dense_base P I U B" "dense_base P I U B \<le> 10 ^ 22"
    "0 \<le> dense_attention L H I U B" "dense_attention L H I U B \<le> 10 ^ 24"
    "(dense_base P I U B + dense_attention L H I U B) * S \<le> 10 ^ 30"
proof -
  have p: "0 \<le> dense_pairs I U" "dense_pairs I U \<le> 549755289600"
  proof -
    have "1 \<le> I" "0 \<le> U" "I + U \<le> 1048576"
      using w by (simp_all add: work_dims_ok_def estimator_bounds)
    then show "0 \<le> dense_pairs I U"
      by (simp add: dense_pairs_nonneg)
    have "(I + U) * (I + U - 1) \<le> 1048576 * (1048576 - 1)"
      using \<open>1 \<le> I\<close> \<open>0 \<le> U\<close> \<open>I + U \<le> 1048576\<close> by (intro mult_mono) auto
    then have "(I + U) * (I + U - 1) div 2 \<le> 1048576 * (1048576 - 1) div 2"
      by (rule zdiv_mono1) simp
    then show "dense_pairs I U \<le> 549755289600"
      by (simp add: dense_pairs_triangle)
  qed
  have r: "1 \<le> P" "P \<le> 10 ^ 13" "1 \<le> L" "L \<le> 1000" "1 \<le> H" "H \<le> 10 ^ 6" "1 \<le> B" "B \<le> 256"
      "1 \<le> I + U" "I + U \<le> 1048576" "0 \<le> S" "S \<le> 10000"
    using m w by (simp_all add: model_dims_ok_def work_dims_ok_def estimator_bounds)
  show b0: "0 \<le> dense_base P I U B" and a0: "0 \<le> dense_attention L H I U B"
    using r p by (simp_all add: dense_base_def dense_attention_def)
  have "2 * P * B * (I + U) \<le> 2 * 10 ^ 13 * 256 * 1048576"
    using r by (intro mult_mono) simp_all
  then show b: "dense_base P I U B \<le> 10 ^ 22"
    by (simp add: dense_base_def)
  have "4 * L * H * B * dense_pairs I U \<le> 4 * 1000 * 10 ^ 6 * 256 * 549755289600"
    using r p by (intro mult_mono) simp_all
  then show a: "dense_attention L H I U B \<le> 10 ^ 24"
    by (simp add: dense_attention_def)
  have "(dense_base P I U B + dense_attention L H I U B) * S \<le> (10 ^ 22 + 10 ^ 24) * 10000"
    using r a b a0 b0 by (intro mult_mono add_mono) simp_all
  then show "(dense_base P I U B + dense_attention L H I U B) * S \<le> 10 ^ 30"
    by simp
qed

lemma int_str_nonneg [simp]: "0 \<le> n \<Longrightarrow> int_str n = dec_str (nat n)"
  by (simp add: int_str_def)

lemma dense_charge_bounds:
  assumes "model_dims_ok P L H S" "work_dims_ok I U B"
  shows "0 \<le> dense_charge P L H I U B S" "dense_charge P L H I U B S \<le> U_MAX"
proof -
  note b = dense_bounds [OF assms]
  have "0 \<le> S" using assms(1) by (simp add: model_dims_ok_def estimator_bounds)
  then show "0 \<le> dense_charge P L H I U B S"
    using b unfolding dense_charge_def by (intro pos_imp_zdiv_nonneg_iff [THEN iffD2]) simp_all
  have "dense_charge P L H I U B S \<le> (10 ^ 30 + 999) div 1000"
    unfolding dense_charge_def using b(5) by (intro zdiv_mono1) simp_all
  also have "\<dots> \<le> U_MAX"
    by (simp add: U_MAX_def)
  finally show "dense_charge P L H I U B S \<le> U_MAX" .
qed

lemma estimate_decomposition_ok:
  assumes "model_dims_ok P L H S" "work_dims_ok I U B"
  shows "estimate_decomposition P L H I U B S =
    Inr \<lparr>base_flops = dec_str (nat (dense_base P I U B)),
         attention_flops = dec_str (nat (dense_attention L H I U B)),
         charged_flops = dec_str (nat (dense_charge P L H I U B S))\<rparr>"
proof -
  note b = dense_bounds [OF assms]
  have lim: "(10 ^ 30 :: int) div 1000 + 1 \<le> U_MAX" "(10 ^ 24 :: int) \<le> U_MAX"
    by (simp_all add: U_MAX_def)
  have "(dense_base P I U B + dense_attention L H I U B) * S div 1000 \<le> 10 ^ 30 div 1000"
    using b(5) by (rule zdiv_mono1) simp
  with lim have "\<not> (dense_base P I U B + dense_attention L H I U B) * S div 1000 + 1 > U_MAX"
    by linarith
  moreover have "\<not> dense_base P I U B > U_MAX" using b(2) lim(2) by simp
  moreover have "\<not> dense_attention L H I U B > U_MAX" using b(4) lim(2) by simp
  moreover have "check_model_dims P L H S = Inr ()" "check_work_dims I U B = Inr ()"
    using assms by (simp_all add: check_model_dims_iff check_work_dims_iff)
  ultimately show ?thesis
    using dense_charge_bounds [OF assms] b
    by (simp add: estimate_decomposition_def Let_def
        flip: dense_pairs_def dense_base_def dense_attention_def dense_charge_def)
qed

lemma estimate_decomposition_iff:
  "is_ok (estimate_decomposition P L H I U B S) \<longleftrightarrow> model_dims_ok P L H S \<and> work_dims_ok I U B"
proof
  assume "is_ok (estimate_decomposition P L H I U B S)"
  then have "check_model_dims P L H S = Inr ()" "check_work_dims I U B = Inr ()"
    by (auto simp: estimate_decomposition_def result_simps)
  then show "model_dims_ok P L H S \<and> work_dims_ok I U B"
    by (simp add: check_model_dims_iff check_work_dims_iff)
qed (simp add: estimate_decomposition_ok)

lemma dense_v1_charge: "dense_v1 P L H I U B S =
    (if dense_charge P L H I U B S > U_MAX then Inl (Lex OVERFLOW) else Inr (dense_charge P L H I U B S))"
  by (simp add: dense_v1_def dense_charge_def dense_base_def dense_attention_def dense_pairs_def)

lemma estimate_from_parts_ok:
  "kind = ESTIMATOR_KIND \<Longrightarrow> model_dims_ok P L H S \<Longrightarrow> work_dims_ok I U B \<Longrightarrow>
     \<exists>e. estimate_from_parts kind P L H I U B S = Inr e \<and>
       est_charged_flops e = dec_str (nat (dense_charge P L H I U B S))"
  by (simp add: estimate_from_parts_def estimate_decomposition_ok)

section \<open>Properties\<close>

text \<open>The estimator accepts exactly the admissible dimensions; on those its charge is the ceiling of the dense
  operation count times the safety factor, the attention term counting each unordered token pair once.\<close>

theorem estimate_charge_exact:
  "estimate_from_parts kind P L H I U B S = Inr e \<longleftrightarrow>
     kind = ESTIMATOR_KIND \<and> model_dims_ok P L H S \<and> work_dims_ok I U B \<and>
     (\<exists>base att c. base = 2 * P * B * (I + U) \<and> att = 4 * L * H * B * ((I + U) * (I + U - 1) div 2) \<and>
        (base + att) * S \<le> 1000 * c \<and> 1000 * c < (base + att) * S + 1000 \<and>
        e = \<lparr>est_estimator = ESTIMATOR_KIND, est_base_flops = dec_str (nat base),
             est_attention_flops = dec_str (nat att), est_charged_flops = dec_str (nat c),
             est_coverage = lit ''cooperative_estimate''\<rparr>)"
proof (cases "kind = ESTIMATOR_KIND \<and> model_dims_ok P L H S \<and> work_dims_ok I U B")
  case True
  have ceil: "c = (n + 999) div 1000" if "n \<le> 1000 * c" "1000 * c < n + 1000" for n c :: int
    using that by linarith
  have div: "n \<le> 1000 * ((n + 999) div 1000)" "1000 * ((n + 999) div 1000) < n + 1000" for n :: int
    by linarith+
  let ?base = "2 * P * B * (I + U)" and ?att = "4 * L * H * B * ((I + U) * (I + U - 1) div 2)"
  let ?e = "\<lambda>c. \<lparr>est_estimator = ESTIMATOR_KIND, est_base_flops = dec_str (nat ?base),
    est_attention_flops = dec_str (nat ?att), est_charged_flops = dec_str (nat c),
    est_coverage = lit ''cooperative_estimate''\<rparr>"
  have "estimate_from_parts kind P L H I U B S = Inr (?e (((?base + ?att) * S + 999) div 1000))"
    using True by (simp add: estimate_from_parts_def estimate_decomposition_ok dense_charge_def dense_base_def
        dense_attention_def dense_pairs_triangle)
  moreover have "e = ?e (((?base + ?att) * S + 999) div 1000) \<longleftrightarrow>
      (\<exists>c. (?base + ?att) * S \<le> 1000 * c \<and> 1000 * c < (?base + ?att) * S + 1000 \<and> e = ?e c)"
    using ceil div by blast
  ultimately show ?thesis
    using True by auto
next
  case False
  then have "\<not> is_ok (estimate_from_parts kind P L H I U B S)"
    using estimate_decomposition_iff [of P L H I U B S]
    by (auto simp: estimate_from_parts_def result_simps split: if_splits)
  with False show ?thesis by (auto simp: is_ok_iff)
qed

text \<open>A reservation covers whatever the work then reports: for every observed output up to the reserved one
  the estimate exists, is no larger than the charge, and stays inside the 127-bit range.\<close>

theorem reservation_covers_observed:
  assumes "estimate_from_parts kind P L H I U B S = Inr e" "0 \<le> V" "V \<le> U"
  shows "\<exists>e'. estimate_from_parts kind P L H I V B S = Inr e' \<and>
    0 \<le> py_int (est_charged_flops e') \<and> py_int (est_charged_flops e') \<le> py_int (est_charged_flops e) \<and>
    py_int (est_charged_flops e) \<le> U_MAX"
proof -
  have k: "kind = ESTIMATOR_KIND"
    using assms(1) by (auto simp: estimate_from_parts_def split: if_splits)
  have "is_ok (estimate_decomposition P L H I U B S)"
    using assms(1) by (auto simp: estimate_from_parts_def result_simps is_ok_iff split: if_splits)
  then have m: "model_dims_ok P L H S" and w: "work_dims_ok I U B"
    by (simp_all add: estimate_decomposition_iff)
  have w': "work_dims_ok I V B" using w assms(2,3) by (auto simp: work_dims_ok_def)
  have "dense_charge P L H I V B S \<le> dense_charge P L H I U B S"
    using m w assms(2,3)
    by (intro dense_charge_mono) (auto simp: model_dims_ok_def work_dims_ok_def estimator_bounds)
  then show ?thesis
    using assms(1) dense_charge_bounds [OF m w'] dense_charge_bounds [OF m w]
      estimate_from_parts_ok [OF k m w] estimate_from_parts_ok [OF k m w'] by auto
qed

theorem reservation_covers_observed_witness:
  "\<exists>e e'. estimate_from_parts ESTIMATOR_KIND 10 2 4 8 5 1 1000 = Inr e \<and>
     estimate_from_parts ESTIMATOR_KIND 10 2 4 8 3 1 1000 = Inr e' \<and>
     py_int (est_charged_flops e') \<le> py_int (est_charged_flops e)"
proof -
  have "model_dims_ok 10 2 4 1000" "work_dims_ok 8 5 1"
    by (simp_all add: model_dims_ok_def work_dims_ok_def estimator_bounds)
  then obtain e where "estimate_from_parts ESTIMATOR_KIND 10 2 4 8 5 1 1000 = Inr e"
    using estimate_from_parts_ok by blast
  then show ?thesis
    using reservation_covers_observed [of ESTIMATOR_KIND 10 2 4 8 5 1 1000 e 3] by auto
qed

end
