(* ===== verification/Meter.thy ===== *)
theory Meter imports Errors begin

text \<open>
  Models \<open>src/lexwatt/meter.py\<close>: the RAPL counter arithmetic, the energy reserve and guard, the domain
  topology check, shared-inclusive attribution and the stuck-sensor test. All arithmetic is on
  unbounded integers, as in Python; \<open>//\<close> and \<open>%\<close> with a positive divisor are \<open>div\<close> and \<open>mod\<close>.

  Results: a plausible draw is recovered exactly from two readings of a wrapping counter, the
  guard leaves room for everything that can be drawn before containment is enforced, and the
  topology check accepts exactly the selections without duplicates, ancestors or shared CPUs.
\<close>

section \<open>Counter deltas\<close>

definition rapl_delta :: "int \<Rightarrow> int \<Rightarrow> int \<Rightarrow> int \<Rightarrow> int \<Rightarrow> int \<Rightarrow> int \<Rightarrow> exn + int" where
  "rapl_delta a b range_uj dt_us stale_us power_uw margin_uj =
    (if range_uj \<le> 0 then Inl (LexDiag SENSOR_FAULT COUNTER_RANGE)
     else if \<not> (0 \<le> a \<and> a < range_uj) \<or> \<not> (0 \<le> b \<and> b < range_uj) then
       Inl (LexDiag SENSOR_FAULT COUNTER_RANGE)
     else if dt_us > stale_us then Inl (LexDiag SENSOR_FAULT STALE_SAMPLE)
     else
       (let possible = (power_uw * dt_us + 999999) div 1000000 + margin_uj
        in if possible \<ge> range_uj then Inl (LexDiag SENSOR_FAULT WRAP_AMBIGUOUS)
           else
             (let delta = (b - a + range_uj) mod range_uj
              in if delta > possible then Inl (LexDiag SENSOR_FAULT DELTA_IMPLAUSIBLE)
                 else Inr delta)))"

text \<open>What the domain can draw in \<open>dt_us\<close> microseconds, rounded up, plus its margin.\<close>

definition possible_uj :: "int \<Rightarrow> int \<Rightarrow> int \<Rightarrow> int" where
  "possible_uj power_uw dt_us margin_uj = (power_uw * dt_us + 999999) div 1000000 + margin_uj"

section \<open>Reserve and guard\<close>

record power_domain =
  pd_id :: pystr
  pd_max_power_uw :: int
  pd_margin_uj :: int

fun reserve_loop :: "power_domain list \<Rightarrow> int \<Rightarrow> int \<Rightarrow> int \<Rightarrow> int" where
  "reserve_loop [] stale_us kill_deadline_us running = running"
| "reserve_loop (d # ds) stale_us kill_deadline_us running =
    reserve_loop ds stale_us kill_deadline_us
      (running + ((pd_max_power_uw d * (stale_us + kill_deadline_us) + 999999) div 1000000 + pd_margin_uj d))"

definition reserve_uj :: "power_domain list \<Rightarrow> int \<Rightarrow> int \<Rightarrow> int" where
  "reserve_uj power_domains stale_us kill_deadline_us =
    reserve_loop power_domains stale_us kill_deadline_us 0"

definition guard_eval :: "int \<Rightarrow> int \<Rightarrow> int \<Rightarrow> run_state \<times> reason option" where
  "guard_eval energy_uj cap_uj reserve =
    (if energy_uj \<ge> cap_uj then (STOPPING, Some R_MEASUREMENT_OVERRUN)
     else if energy_uj + reserve \<ge> cap_uj then (STOPPING, Some R_ENERGY_GUARD)
     else (RUNNING, None))"

section \<open>Topology\<close>

text \<open>
  The walk from a selected domain through its ancestors; \<open>parents\<close> is the dict as its item list.
  \<open>seen\<close> cuts cycles, so the loop ends on every input.
\<close>

definition parent_values :: "(pystr \<times> pystr) list \<Rightarrow> pystr set" where
  "parent_values parents = snd ` set parents"

function ancestor_walk ::
    "(pystr \<times> pystr) list \<Rightarrow> pystr list \<Rightarrow> pystr set \<Rightarrow> pystr option \<Rightarrow> exn + unit" where
  "ancestor_walk parents sel seen None = Inr ()"
| "ancestor_walk parents sel seen (Some anc) =
    (if anc \<in> seen then Inr ()
     else if anc \<in> set sel then Inl (LexDiag INVALID_INPUT OVERLAPPING_DOMAINS)
     else ancestor_walk parents sel (insert anc seen) (map_of parents anc))"
  by pat_completeness auto

lemma map_of_parent_value: "map_of parents k = Some v \<Longrightarrow> v \<in> parent_values parents"
  by (force simp: parent_values_def dest: map_of_SomeD)

lemma finite_parent_values [simp]: "finite (parent_values parents)"
  by (simp add: parent_values_def)

termination ancestor_walk
proof (relation "measure (\<lambda>(parents, sel, seen, a).
    case a of None \<Rightarrow> 0 | Some anc \<Rightarrow> card (insert anc (parent_values parents) - seen))")
  fix parents :: "(pystr \<times> pystr) list" and sel :: "pystr list" and seen :: "pystr set" and anc :: pystr
  assume "anc \<notin> seen"
  let ?old = "insert anc (parent_values parents) - seen"
  have "card (insert v (parent_values parents) - insert anc seen) < card ?old"
    if "map_of parents anc = Some v" for v
    using map_of_parent_value [OF that] \<open>anc \<notin> seen\<close> by (intro psubset_card_mono) auto
  moreover have "0 < card ?old"
    using \<open>anc \<notin> seen\<close> by (auto simp: card_gt_0_iff)
  ultimately show "((parents, sel, insert anc seen, map_of parents anc), parents, sel, seen, Some anc)
      \<in> measure (\<lambda>(parents, sel, seen, a).
          case a of None \<Rightarrow> 0 | Some anc \<Rightarrow> card (insert anc (parent_values parents) - seen))"
    by (auto split: option.splits)
qed simp

declare ancestor_walk.simps(2) [simp del]

fun cover_cpus :: "nat list \<Rightarrow> nat set \<Rightarrow> exn + nat set" where
  "cover_cpus [] covered = Inr covered"
| "cover_cpus (c # cs) covered =
    (if c \<in> covered then Inl (LexDiag INVALID_INPUT OVERLAPPING_DOMAINS)
     else cover_cpus cs (insert c covered))"

fun cover_domains ::
    "(pystr \<times> nat list) list \<Rightarrow> pystr list \<Rightarrow> nat set \<Rightarrow> exn + unit" where
  "cover_domains cpus [] covered = Inr ()"
| "cover_domains cpus (d # ds) covered =
    bindE (cover_cpus (case map_of cpus d of None \<Rightarrow> [] | Some cs \<Rightarrow> cs) covered)
      (\<lambda>covered'. cover_domains cpus ds covered')"

text \<open>A \<open>set[int]\<close> of CPUs is the duplicate-free list of its elements in iteration order.\<close>

definition check_topology ::
    "pystr list \<Rightarrow> (pystr \<times> pystr) list \<Rightarrow> (pystr \<times> nat list) list option \<Rightarrow> exn + unit" where
  "check_topology selected parents cpus =
    (if \<not> distinct selected then Inl (Lex INVALID_INPUT)
     else bindE (eachE (\<lambda>d. ancestor_walk parents selected {} (map_of parents d)) selected)
       (\<lambda>_. case cpus of None \<Rightarrow> Inr () | Some c \<Rightarrow> cover_domains c selected {}))"

section \<open>Attribution and stuck sensors\<close>

definition attribute_shared_inclusive :: "int \<Rightarrow> pystr list \<Rightarrow> int list" where
  "attribute_shared_inclusive package_delta_uj runs = map (\<lambda>_. package_delta_uj) runs"

definition STUCK_ENERGY_WINDOW_US :: int where "STUCK_ENERGY_WINDOW_US = 1000000"
definition STUCK_CPU_ADVANCE_US :: int where "STUCK_CPU_ADVANCE_US = 10000"

definition stuck_sensor :: "int \<Rightarrow> int \<Rightarrow> bool" where
  "stuck_sensor unchanged_us cpu_advance_us \<longleftrightarrow>
     unchanged_us \<ge> STUCK_ENERGY_WINDOW_US \<and> cpu_advance_us \<ge> STUCK_CPU_ADVANCE_US"

section \<open>Facts about deltas\<close>

lemma rapl_delta_eq_Inr:
  "rapl_delta a b R dt stale p m = Inr d \<longleftrightarrow>
     0 < R \<and> 0 \<le> a \<and> a < R \<and> 0 \<le> b \<and> b < R \<and> dt \<le> stale \<and> possible_uj p dt m < R \<and>
     d = (b - a) mod R \<and> d \<le> possible_uj p dt m"
  by (auto simp: rapl_delta_def possible_uj_def Let_def)

lemma rapl_delta_error_code: "rapl_delta a b R dt stale p m = Inl e \<Longrightarrow> exn_code e = Some SENSOR_FAULT"
  by (auto simp: rapl_delta_def Let_def split: if_splits)

lemma counter_difference:
  fixes R :: int
  assumes "0 \<le> e" "e < R" "0 \<le> a" "a < R"
  shows "((a + e) mod R - a) mod R = e"
proof -
  have "((a + e) mod R - a) mod R = ((a + e) - a) mod R"
    by (rule mod_diff_left_eq)
  then show ?thesis
    using assms by simp
qed

section \<open>Facts about the reserve and the guard\<close>

definition domain_reserve :: "int \<Rightarrow> power_domain \<Rightarrow> int" where
  "domain_reserve window d = possible_uj (pd_max_power_uw d) window (pd_margin_uj d)"

lemma reserve_loop_sum:
  "reserve_loop ds stale kill running = running + sum_list (map (domain_reserve (stale + kill)) ds)"
  by (induction ds arbitrary: running) (simp_all add: domain_reserve_def possible_uj_def)

lemma reserve_uj_sum: "reserve_uj ds stale kill = sum_list (map (domain_reserve (stale + kill)) ds)"
  by (simp add: reserve_uj_def reserve_loop_sum)

lemma possible_uj_mono: "0 \<le> p \<Longrightarrow> dt \<le> dt' \<Longrightarrow> possible_uj p dt m \<le> possible_uj p dt' m"
  unfolding possible_uj_def by (intro add_right_mono zdiv_mono1 mult_left_mono) simp_all

lemma draw_within_reserve:
  assumes "\<And>d. d \<in> set ds \<Longrightarrow> 0 \<le> pd_max_power_uw d"
    and "\<And>d. d \<in> set ds \<Longrightarrow> draw d \<le> possible_uj (pd_max_power_uw d) dt (pd_margin_uj d)"
    and "dt \<le> stale + kill"
  shows "sum_list (map draw ds) \<le> reserve_uj ds stale kill"
  unfolding reserve_uj_sum domain_reserve_def
  using assms by (intro sum_list_mono) (meson order_trans possible_uj_mono)

lemma guard_eval_running: "guard_eval e cap r = (RUNNING, None) \<longleftrightarrow> e < cap \<and> e + r < cap"
  by (simp add: guard_eval_def)

lemma guard_eval_cases: "guard_eval e cap r \<in>
    {(STOPPING, Some R_MEASUREMENT_OVERRUN), (STOPPING, Some R_ENERGY_GUARD), (RUNNING, None)}"
  by (simp add: guard_eval_def)

section \<open>Facts about the topology check\<close>

definition parent_rel :: "(pystr \<times> pystr) list \<Rightarrow> (pystr \<times> pystr) set" where
  "parent_rel parents = {(d, p). map_of parents d = Some p}"

lemma parent_rel_tranclE:
  assumes "(d, a) \<in> (parent_rel parents)\<^sup>+"
  obtains p where "map_of parents d = Some p" "(p, a) \<in> (parent_rel parents)\<^sup>*"
  using assms by (auto simp: parent_rel_def dest!: tranclD)

text \<open>
  The walk succeeds exactly when nothing selected is reachable, provided what it has already seen
  is closed under parents up to the current point and contains nothing selected.
\<close>

lemma ancestor_walk_iff:
  assumes "\<And>x. x \<in> seen \<Longrightarrow> x \<notin> set sel"
    and "\<And>x p. x \<in> seen \<Longrightarrow> map_of parents x = Some p \<Longrightarrow> p \<in> seen \<or> a = Some p"
  shows "ancestor_walk parents sel seen a = Inr () \<longleftrightarrow>
    (\<forall>anc r. a = Some anc \<longrightarrow> (anc, r) \<in> (parent_rel parents)\<^sup>* \<longrightarrow> r \<notin> set sel)"
  using assms
proof (induction parents sel seen a rule: ancestor_walk.induct)
  case (1 parents sel seen)
  then show ?case by simp
next
  case (2 parents sel seen anc)
  consider (old) "anc \<in> seen" | (hit) "anc \<notin> seen" "anc \<in> set sel" | (go) "anc \<notin> seen" "anc \<notin> set sel"
    by blast
  then show ?case
  proof cases
    case old
    have "r \<in> seen" if "(anc, r) \<in> (parent_rel parents)\<^sup>*" for r
      using that by (induction rule: rtrancl_induct) (use old "2.prems"(2) in \<open>auto simp: parent_rel_def\<close>)
    with old "2.prems"(1) show ?thesis
      by (auto simp: ancestor_walk.simps(2))
  next
    case hit
    then show ?thesis by (auto simp: ancestor_walk.simps(2))
  next
    case go
    have closed: "p \<in> insert anc seen \<or> map_of parents anc = Some p"
      if "x \<in> insert anc seen" "map_of parents x = Some p" for x p
      using that "2.prems"(2) [of x p] by auto
    have "ancestor_walk parents sel seen (Some anc) =
        ancestor_walk parents sel (insert anc seen) (map_of parents anc)"
      using go by (simp add: ancestor_walk.simps(2))
    also have "\<dots> = Inr () \<longleftrightarrow>
      (\<forall>p r. map_of parents anc = Some p \<longrightarrow> (p, r) \<in> (parent_rel parents)\<^sup>* \<longrightarrow> r \<notin> set sel)"
    proof (rule "2.IH" [OF go])
      show "x \<notin> set sel" if "x \<in> insert anc seen" for x
        using that "2.prems"(1) go(2) by blast
    qed (rule closed)
    also have "\<dots> \<longleftrightarrow> (\<forall>r. (anc, r) \<in> (parent_rel parents)\<^sup>* \<longrightarrow> r \<notin> set sel)"
      using go(2) by (auto simp: parent_rel_def elim: converse_rtranclE intro: converse_rtrancl_into_rtrancl)
    finally show ?thesis by simp
  qed
qed

lemma walk_from_domain:
  "ancestor_walk parents sel {} (map_of parents d) = Inr () \<longleftrightarrow>
     (\<forall>r. (d, r) \<in> (parent_rel parents)\<^sup>+ \<longrightarrow> r \<notin> set sel)"
proof -
  have "(d, r) \<in> (parent_rel parents)\<^sup>+ \<longleftrightarrow>
      (\<exists>p. map_of parents d = Some p \<and> (p, r) \<in> (parent_rel parents)\<^sup>*)" for r
  proof
    assume "(d, r) \<in> (parent_rel parents)\<^sup>+"
    then show "\<exists>p. map_of parents d = Some p \<and> (p, r) \<in> (parent_rel parents)\<^sup>*"
      by (rule parent_rel_tranclE) blast
  next
    assume "\<exists>p. map_of parents d = Some p \<and> (p, r) \<in> (parent_rel parents)\<^sup>*"
    then obtain p where "(d, p) \<in> parent_rel parents" "(p, r) \<in> (parent_rel parents)\<^sup>*"
      by (auto simp: parent_rel_def)
    then show "(d, r) \<in> (parent_rel parents)\<^sup>+"
      by (rule rtrancl_into_trancl2)
  qed
  then show ?thesis
    using ancestor_walk_iff [of "{}" sel parents "map_of parents d"] by auto
qed

definition domain_cpus :: "(pystr \<times> nat list) list \<Rightarrow> pystr \<Rightarrow> nat list" where
  "domain_cpus cpus d = (case map_of cpus d of None \<Rightarrow> [] | Some cs \<Rightarrow> cs)"

lemma cover_cpus_eq_Inr:
  "cover_cpus cs covered = Inr covered' \<longleftrightarrow>
     distinct cs \<and> set cs \<inter> covered = {} \<and> covered' = covered \<union> set cs"
  by (induction cs arbitrary: covered) auto

lemma cover_domains_eq_Inr:
  "cover_domains cpus ds covered = Inr () \<longleftrightarrow>
     distinct (concat (map (domain_cpus cpus) ds)) \<and>
     set (concat (map (domain_cpus cpus) ds)) \<inter> covered = {}"
  by (induction ds arbitrary: covered)
     (auto simp: result_simps cover_cpus_eq_Inr simp flip: domain_cpus_def)

lemma is_ok_unit: "is_ok r \<longleftrightarrow> r = Inr ()"
  by (cases r) auto

lemma check_topology_ok:
  "check_topology selected parents cpus = Inr () \<longleftrightarrow>
     distinct selected \<and>
     (\<forall>d \<in> set selected. \<forall>a \<in> set selected. (d, a) \<notin> (parent_rel parents)\<^sup>+) \<and>
     (\<forall>c. cpus = Some c \<longrightarrow> distinct (concat (map (domain_cpus c) selected)))"
  by (auto simp: check_topology_def result_simps is_ok_unit walk_from_domain cover_domains_eq_Inr
      split: option.splits)

section \<open>Properties\<close>

text \<open>When the counter really advanced by an amount the domain could draw in the interval, the delta is that
  amount whether or not the counter wrapped, and conversely every accepted delta is such an amount.\<close>

theorem rapl_delta_true_draw:
  assumes "0 \<le> a" "a < R" "dt \<le> stale" "possible_uj p dt m < R"
  shows "(0 \<le> drawn \<and> drawn \<le> possible_uj p dt m \<longrightarrow> rapl_delta a ((a + drawn) mod R) R dt stale p m = Inr drawn) \<and>
    (rapl_delta a b R dt stale p m = Inr d \<longrightarrow> 0 \<le> d \<and> d \<le> possible_uj p dt m \<and> b = (a + d) mod R)"
proof (rule conjI; rule impI)
  assume "0 \<le> drawn \<and> drawn \<le> possible_uj p dt m"
  then show "rapl_delta a ((a + drawn) mod R) R dt stale p m = Inr drawn"
    using assms counter_difference [of drawn R a] by (simp add: rapl_delta_eq_Inr)
next
  assume "rapl_delta a b R dt stale p m = Inr d"
  then show "0 \<le> d \<and> d \<le> possible_uj p dt m \<and> b = (a + d) mod R"
    by (auto simp: rapl_delta_eq_Inr mod_add_right_eq)
qed

theorem rapl_delta_true_draw_witness:
  "rapl_delta 990 ((990 + 30) mod 1000) 1000 10 20 1000000 40 = Inr 30"
  using rapl_delta_true_draw [of 990 1000 10 20 1000000 40 30] by (simp add: possible_uj_def)

text \<open>C1: while the guard answers RUNNING, no set of readings the meter accepts next can bring the energy to the
  cap: the reserve covers one stale interval of every domain at its maximal power.\<close>

theorem guard_covers_next_sample:
  assumes "guard_eval e cap (reserve_uj ds stale kill) = (RUNNING, None)" "0 \<le> kill"
    and "\<And>d. d \<in> set ds \<Longrightarrow> 0 \<le> pd_max_power_uw d"
    and "\<And>d. d \<in> set ds \<Longrightarrow>
      rapl_delta (before d) (after d) (R d) dt stale (pd_max_power_uw d) (pd_margin_uj d) = Inr (delta d)"
  shows "e + sum_list (map delta ds) < cap"
proof (cases "ds = []")
  case True
  then show ?thesis using assms(1) by (simp add: guard_eval_running)
next
  case False
  then obtain d where "d \<in> set ds" by (meson last_in_set)
  then have "dt \<le> stale + kill"
    using assms(2,4) by (force simp: rapl_delta_eq_Inr)
  then have "sum_list (map delta ds) \<le> reserve_uj ds stale kill"
    using assms(3,4) by (intro draw_within_reserve) (blast dest: rapl_delta_eq_Inr [THEN iffD1])+
  then show ?thesis using assms(1) by (simp add: guard_eval_running)
qed

theorem guard_covers_next_sample_witness:
  "let d = \<lparr>pd_id = [], pd_max_power_uw = 1000000, pd_margin_uj = 5\<rparr>
   in guard_eval 10 1000 (reserve_uj [d] 100 50) = (RUNNING, None) \<and> 10 + sum_list (map (\<lambda>_. 30) [d]) < (1000 :: int)"
  unfolding Let_def
  by (rule conjI, simp add: guard_eval_def reserve_uj_def,
      rule guard_covers_next_sample [where stale = 100 and kill = 50 and dt = 60 and before = "\<lambda>_. 0" and
        after = "\<lambda>_. 30" and R = "\<lambda>_. 5000"])
    (simp_all add: guard_eval_def reserve_uj_def rapl_delta_eq_Inr possible_uj_def)

text \<open>C19: a selection of power domains is accepted exactly when its ids are distinct, none is an ancestor of
  another along the parent links (cyclic links included), and no CPU is covered twice.\<close>

theorem check_topology_exact:
  "check_topology selected parents cpus = Inr () \<longleftrightarrow>
     distinct selected \<and>
     \<not> (\<exists>d \<in> set selected. \<exists>a \<in> set selected. (d, a) \<in> {(x, y). map_of parents x = Some y}\<^sup>+) \<and>
     (case cpus of None \<Rightarrow> True
      | Some c \<Rightarrow> distinct (concat (map (\<lambda>d. case map_of c d of None \<Rightarrow> [] | Some cs \<Rightarrow> cs) selected)))"
  unfolding check_topology_ok parent_rel_def domain_cpus_def by (cases cpus) auto

end
