(* ===== verification/Containment.thy ===== *)
theory Containment imports Errors begin

text \<open>
  Models \<open>src/lexwatt/containment.py\<close> (the kill and deadline decisions) and \<open>src/lexwatt/redact.py\<close>
  (what of an error or diagnostic may become public). A dict with a fixed key set is a record.

  Results: the run is reported complete exactly when the cgroup is empty and its effects are
  closed, a run that is still populated at its kill deadline is never reported as anything but
  UNCONFIRMED, verdicts are stable as time passes, and a process group is signalled only with
  every identity check satisfied.
\<close>

section \<open>Kill\<close>

record 'p kill_view =
  surviving_owned_processes :: "'p list"
  kv_populated :: int

definition cgroup_kill :: "'p list \<Rightarrow> bool \<Rightarrow> 'p kill_view" where
  "cgroup_kill owned_processes kernel_tasks_killable =
    (if \<not> kernel_tasks_killable
     then \<lparr>surviving_owned_processes = owned_processes, kv_populated = 1\<rparr>
     else \<lparr>surviving_owned_processes = [], kv_populated = 0\<rparr>)"

section \<open>Deadlines\<close>

datatype completeness = COMPLETE | PREFIX

record deadline_view =
  dv_state :: run_state
  cli_exit :: "int option"
  receipt_completeness :: completeness
  continue_kill_attempts :: bool

definition evaluate_deadline :: "run_state \<Rightarrow> int \<Rightarrow> int \<Rightarrow> int \<Rightarrow> bool \<Rightarrow> deadline_view" where
  "evaluate_deadline state kill_deadline_us elapsed_us populated effects_closed =
    (let empty = (populated = 0 \<and> effects_closed)
     in if state = STOPPING \<and> \<not> empty \<and> elapsed_us \<ge> kill_deadline_us then
          \<lparr>dv_state = UNCONFIRMED, cli_exit = Some 70, receipt_completeness = PREFIX,
           continue_kill_attempts = True\<rparr>
        else if empty then
          \<lparr>dv_state = FINALIZING, cli_exit = Some 0, receipt_completeness = COMPLETE,
           continue_kill_attempts = False\<rparr>
        else
          \<lparr>dv_state = state, cli_exit = None, receipt_completeness = PREFIX,
           continue_kill_attempts = True\<rparr>)"

definition wall_deadline :: "int \<Rightarrow> int \<Rightarrow> run_state \<times> reason option" where
  "wall_deadline boottime_elapsed_us max_wall_us =
    (if boottime_elapsed_us \<ge> max_wall_us then (STOPPING, Some R_WALL_CAP) else (RUNNING, None))"

section \<open>Identity, monitors, audit store\<close>

definition check_pid_identity ::
    "int \<Rightarrow> pystr \<Rightarrow> pystr \<Rightarrow> bool \<Rightarrow> bool \<Rightarrow> int \<times> code option" where
  "check_pid_identity recorded_pid recorded_start current_start pidfd_available cgroup_identity_matches =
    (if pidfd_available \<and> cgroup_identity_matches \<and> recorded_start = current_start
     then (1, None) else (0, Some CONTAINMENT_FAULT))"

record monitor_view =
  mv_kill_requested :: bool
  mv_workload_survivors :: int

definition monitor_loss :: "pystr \<Rightarrow> bool \<Rightarrow> exn + monitor_view" where
  "monitor_loss case_name kernel_tasks_killable =
    (if case_name \<notin> {lit ''supervisor_eof'', lit ''guardian_eof'', lit ''client_lifetime_eof''}
     then Inl (Lex INVALID_INPUT)
     else Inr \<lparr>mv_kill_requested = True,
               mv_workload_survivors = (if kernel_tasks_killable then 0 else 1)\<rparr>)"

record audit_view =
  av_kill_requested :: bool
  av_new_dispatches :: int
  av_receipt_completeness :: completeness
  av_cli_exit :: int

definition audit_store_failure :: "bool \<Rightarrow> audit_view" where
  "audit_store_failure workload_running =
    \<lparr>av_kill_requested = (if workload_running then True else True), av_new_dispatches = 0,
     av_receipt_completeness = PREFIX, av_cli_exit = 70\<rparr>"

section \<open>Redaction\<close>

record public_error_view =
  pe_code :: code
  pe_retryable :: bool

definition public_error :: "lexwatt_error \<Rightarrow> public_error_view" where
  "public_error err = \<lparr>pe_code = err_code err, pe_retryable = err_retryable err\<rparr>"

record diagnostic_view =
  dg_code :: pystr
  dg_run_id :: "pystr option"
  dg_seq :: "pystr option"
  dg_component :: pystr

definition diagnostic :: "pystr \<Rightarrow> pystr option \<Rightarrow> pystr option \<Rightarrow> pystr \<Rightarrow> diagnostic_view" where
  "diagnostic c run_id seq component =
    \<lparr>dg_code = c, dg_run_id = run_id, dg_seq = seq, dg_component = component\<rparr>"

definition exec_public_fields :: "'e \<Rightarrow> pystr list" where
  "exec_public_fields execv = []"

section \<open>Facts\<close>

lemma evaluate_deadline_complete_iff:
  "receipt_completeness (evaluate_deadline s dl t pop closed) = COMPLETE \<longleftrightarrow> pop = 0 \<and> closed"
  by (simp add: evaluate_deadline_def Let_def)

lemma evaluate_deadline_unconfirmed_iff:
  "s \<noteq> UNCONFIRMED \<Longrightarrow>
   dv_state (evaluate_deadline s dl t pop closed) = UNCONFIRMED \<longleftrightarrow>
     s = STOPPING \<and> \<not> (pop = 0 \<and> closed) \<and> dl \<le> t"
  by (auto simp: evaluate_deadline_def Let_def)

lemma evaluate_deadline_exit:
  "cli_exit (evaluate_deadline s dl t pop closed) =
     (if pop = 0 \<and> closed then Some 0 else if s = STOPPING \<and> dl \<le> t then Some 70 else None)"
  by (simp add: evaluate_deadline_def Let_def)

lemma evaluate_deadline_keeps_killing:
  "continue_kill_attempts (evaluate_deadline s dl t pop closed) \<longleftrightarrow> \<not> (pop = 0 \<and> closed)"
  by (simp add: evaluate_deadline_def Let_def)

text \<open>The verdict of a killed cgroup is always decided by whether the kernel could kill its tasks.\<close>

lemma cgroup_kill_deadline:
  "receipt_completeness
     (evaluate_deadline s dl t (kv_populated (cgroup_kill procs killable)) True) = COMPLETE \<longleftrightarrow> killable"
  by (simp add: evaluate_deadline_complete_iff cgroup_kill_def)

lemma wall_deadline_stable:
  "wall_deadline t cap = (STOPPING, Some R_WALL_CAP) \<Longrightarrow> t \<le> t' \<Longrightarrow> wall_deadline t' cap = wall_deadline t cap"
  by (auto simp: wall_deadline_def split: if_splits)

lemma check_pid_identity_signals:
  "fst (check_pid_identity p rs cs pidfd cg) = 1 \<longleftrightarrow> pidfd \<and> cg \<and> rs = cs"
  by (simp add: check_pid_identity_def)

section \<open>Properties\<close>

text \<open>After a kill attempt a run is reported complete, and the command exits 0, exactly when the kernel could
  kill every task and all effects are closed; a stopping run still populated at its deadline is reported
  UNCONFIRMED with exit 70 and the killing goes on.\<close>

theorem kill_verdict:
  "(let v = evaluate_deadline st deadline elapsed (kv_populated (cgroup_kill procs killable)) fx_done
    in (receipt_completeness v = COMPLETE \<longleftrightarrow> killable \<and> fx_done) \<and>
       (cli_exit v = Some 0 \<longleftrightarrow> killable \<and> fx_done) \<and>
       (continue_kill_attempts v \<longleftrightarrow> \<not> (killable \<and> fx_done)) \<and>
       (surviving_owned_processes (cgroup_kill procs killable) = [] \<longleftrightarrow> killable \<or> procs = []) \<and>
       (cli_exit v = Some 70 \<longleftrightarrow> st = STOPPING \<and> \<not> (killable \<and> fx_done) \<and> deadline \<le> elapsed) \<and>
       dv_state v = (if killable \<and> fx_done then FINALIZING else if cli_exit v = Some 70 then UNCONFIRMED else st))"
  by (simp add: evaluate_deadline_def cgroup_kill_def Let_def)

end
