(* ===== verification/Sandbox.thy ===== *)
theory Sandbox imports Errors begin

text \<open>
  Models \<open>src/lexwatt/sandbox.py\<close>, the workload policy: the syscall filter decision, \<open>open\<close> under
  the private mount namespace, signals in the PID namespace and the frame-length check of the
  reader. Python's integers are unbounded, and \<open>&\<close>, \<open>|\<close>, \<open>~\<close> are the bit operations on \<open>int\<close>.

  Results: \<open>clone\<close> admits exactly the flag words made of the three required bits and any of the
  listed extra bits, no other process-creating or socket-creating call is admitted, a hidden path
  stays hidden under any suffix, and a signal is allowed only to a peer of the task's UID.
\<close>

unbundle bit_operations_syntax

section \<open>Constants\<close>

definition ALLOWED_SYSCALLS :: "pystr list" where
  "ALLOWED_SYSCALLS = [
    lit ''read'', lit ''write'', lit ''readv'', lit ''writev'', lit ''pread64'', lit ''pwrite64'',
    lit ''close'', lit ''close_range'', lit ''lseek'', lit ''fstat'', lit ''newfstatat'',
    lit ''stat'', lit ''lstat'', lit ''statx'', lit ''open'', lit ''openat'', lit ''openat2'',
    lit ''access'', lit ''faccessat'', lit ''faccessat2'', lit ''readlink'', lit ''readlinkat'',
    lit ''getdents'', lit ''getdents64'', lit ''mmap'', lit ''mprotect'', lit ''munmap'',
    lit ''mremap'', lit ''madvise'', lit ''msync'', lit ''brk'', lit ''mincore'',
    lit ''rt_sigaction'', lit ''rt_sigprocmask'', lit ''rt_sigreturn'', lit ''rt_sigpending'',
    lit ''rt_sigtimedwait'', lit ''rt_sigsuspend'', lit ''sigaltstack'', lit ''poll'', lit ''ppoll'',
    lit ''select'', lit ''pselect6'', lit ''epoll_create'', lit ''epoll_create1'', lit ''epoll_ctl'',
    lit ''epoll_wait'', lit ''epoll_pwait'', lit ''epoll_pwait2'', lit ''eventfd'', lit ''eventfd2'',
    lit ''pipe'', lit ''pipe2'', lit ''dup'', lit ''dup2'', lit ''dup3'', lit ''fcntl'',
    lit ''flock'', lit ''fsync'', lit ''fdatasync'', lit ''ftruncate'', lit ''truncate'',
    lit ''getpid'', lit ''getppid'', lit ''gettid'', lit ''getuid'', lit ''geteuid'', lit ''getgid'',
    lit ''getegid'', lit ''getgroups'', lit ''getcwd'', lit ''chdir'', lit ''fchdir'', lit ''mkdir'',
    lit ''mkdirat'', lit ''rmdir'', lit ''unlink'', lit ''unlinkat'', lit ''rename'',
    lit ''renameat'', lit ''renameat2'', lit ''link'', lit ''linkat'', lit ''symlink'',
    lit ''symlinkat'', lit ''chmod'', lit ''fchmod'', lit ''fchmodat'', lit ''umask'', lit ''utime'',
    lit ''utimes'', lit ''utimensat'', lit ''getrandom'', lit ''uname'', lit ''sysinfo'',
    lit ''clock_gettime'', lit ''clock_getres'', lit ''gettimeofday'', lit ''time'',
    lit ''nanosleep'', lit ''clock_nanosleep'', lit ''futex'', lit ''set_tid_address'',
    lit ''set_robust_list'', lit ''get_robust_list'', lit ''rseq'', lit ''membarrier'',
    lit ''sched_yield'', lit ''sched_getaffinity'', lit ''sched_setaffinity'', lit ''sched_getparam'',
    lit ''sched_getscheduler'', lit ''sched_get_priority_max'', lit ''sched_get_priority_min'',
    lit ''getrlimit'', lit ''setrlimit'', lit ''prlimit64'', lit ''getrusage'', lit ''times'',
    lit ''arch_prctl'', lit ''restart_syscall'', lit ''wait4'', lit ''waitid'', lit ''kill'',
    lit ''tkill'', lit ''tgkill'', lit ''setsid'', lit ''setpgid'', lit ''getpgid'', lit ''getsid'',
    lit ''execve'', lit ''execveat'', lit ''exit'', lit ''exit_group'', lit ''sendmsg'',
    lit ''recvmsg'', lit ''sendto'', lit ''recvfrom'', lit ''shutdown'', lit ''getsockname'',
    lit ''getpeername'', lit ''getsockopt'', lit ''setsockopt'']"

definition CLONE_REQUIRED :: int where "CLONE_REQUIRED = 0x00000100 OR 0x00000800 OR 0x00010000"

definition CLONE_EXTRA :: int where
  "CLONE_EXTRA = 0x00000200 OR 0x00000400 OR 0x00040000 OR 0x00080000 OR 0x00100000 OR 0x00200000
     OR 0x01000000"

definition CLONE_ALLOWED_MASK :: int where "CLONE_ALLOWED_MASK = CLONE_REQUIRED OR CLONE_EXTRA"

definition HIDDEN_PATH_PREFIXES :: "pystr list" where
  "HIDDEN_PATH_PREFIXES =
    [lit ''/sys/fs/cgroup'', lit ''/sys/class/powercap'', lit ''/run'', lit ''/var/run/docker.sock'',
     lit ''/var/run/sshd'']"

definition HIDDEN_DEVICE_PREFIXES :: "pystr list" where
  "HIDDEN_DEVICE_PREFIXES = [lit ''/dev/nvidia'', lit ''/dev/dri'']"

section \<open>Decisions\<close>

text \<open>The \<open>errno\<close> of a refused call; an allowed call has none.\<close>

datatype errno = ENOSYS | EPERM | EAGAIN | ENOENT | ESRCH

record decision =
  dc_errno :: "errno option"
  dc_allowed :: bool

abbreviation allow_call :: decision where "allow_call \<equiv> \<lparr>dc_errno = None, dc_allowed = True\<rparr>"
abbreviation refuse_call :: "errno \<Rightarrow> decision" where
  "refuse_call e \<equiv> \<lparr>dc_errno = Some e, dc_allowed = False\<rparr>"

definition clone_flags_ok :: "int \<Rightarrow> bool" where
  "clone_flags_ok flags \<longleftrightarrow>
     flags AND CLONE_REQUIRED = CLONE_REQUIRED \<and> flags AND NOT CLONE_ALLOWED_MASK = 0"

definition evaluate_syscall :: "pystr \<Rightarrow> int option \<Rightarrow> int \<Rightarrow> int \<Rightarrow> exn + decision" where
  "evaluate_syscall name flags pids_current pids_max =
    (if name = lit ''clone3'' then Inr (refuse_call ENOSYS)
     else if name = lit ''clone'' then
       (case flags of
          None \<Rightarrow> Inl (Py Assertion_Error)
        | Some fl \<Rightarrow>
            if \<not> clone_flags_ok fl then Inr (refuse_call EPERM)
            else if pids_current \<ge> pids_max then Inr (refuse_call EAGAIN)
            else Inr allow_call)
     else if name \<in> {lit ''fork'', lit ''vfork''} then Inr (refuse_call EPERM)
     else if name \<in> {lit ''socket'', lit ''socketpair'', lit ''connect'', lit ''bind'', lit ''listen'',
                     lit ''accept'', lit ''accept4''} then Inr (refuse_call EPERM)
     else if name \<in> set ALLOWED_SYSCALLS then Inr allow_call
     else Inr (refuse_call EPERM))"

text \<open>\<open>s.rstrip("/")\<close> and \<open>s.startswith(prefix)\<close>.\<close>

definition rstrip_slash :: "pystr \<Rightarrow> pystr" where
  "rstrip_slash s = rev (dropWhile (\<lambda>c. c = 47) (rev s))"

definition has_prefix :: "pystr \<Rightarrow> pystr \<Rightarrow> bool" where
  "has_prefix s pre \<longleftrightarrow> take (length pre) s = pre"

definition evaluate_open :: "pystr \<Rightarrow> pystr \<Rightarrow> decision" where
  "evaluate_open path flags =
    (let norm = (if rstrip_slash path = [] then lit ''/'' else rstrip_slash path)
     in if list_ex (\<lambda>hidden. norm = hidden \<or> has_prefix norm (hidden @ lit ''/'')) HIDDEN_PATH_PREFIXES
        then refuse_call ENOENT
        else if list_ex (\<lambda>dev. has_prefix norm dev) HIDDEN_DEVICE_PREFIXES then refuse_call ENOENT
        else allow_call)"

definition evaluate_signal :: "pystr \<Rightarrow> int \<Rightarrow> int \<Rightarrow> bool \<Rightarrow> bool \<Rightarrow> decision" where
  "evaluate_signal target task_uid target_uid host_pid_visible same_run_peer =
    (if \<not> host_pid_visible \<and> \<not> same_run_peer then refuse_call ESRCH
     else if target_uid \<noteq> task_uid then refuse_call EPERM
     else allow_call)"

record frame_view =
  fv_connection_closed :: bool
  fv_payload_allocated_bytes :: int
  fv_effects_released :: int

definition check_frame_length :: "int \<Rightarrow> int \<Rightarrow> frame_view" where
  "check_frame_length declared_bytes max_request =
    (if declared_bytes > max_request \<or> declared_bytes < 0
     then \<lparr>fv_connection_closed = True, fv_payload_allocated_bytes = 0, fv_effects_released = 0\<rparr>
     else \<lparr>fv_connection_closed = False, fv_payload_allocated_bytes = declared_bytes,
           fv_effects_released = 0\<rparr>)"

section \<open>Clone flags\<close>

text \<open>A flag word is admitted exactly when it is the required bits plus a choice of extra bits.\<close>

lemma clone_masks: "CLONE_REQUIRED = 0x10900" "CLONE_EXTRA = 0x13C0600" "CLONE_ALLOWED_MASK = 0x13D0F00"
  by (simp_all add: CLONE_REQUIRED_def CLONE_EXTRA_def CLONE_ALLOWED_MASK_def)

lemma mask_cover:
  fixes a b m :: int
  shows "a AND NOT m = 0 \<longleftrightarrow> a = a AND m"
proof
  assume "a AND NOT m = 0"
  have "a = (a AND m) OR (a AND NOT m)"
    by (simp flip: bit.conj_disj_distrib)
  with \<open>a AND NOT m = 0\<close> show "a = a AND m" by simp
next
  assume "a = a AND m"
  then have "a AND NOT m = a AND (m AND NOT m)"
    by (metis and.assoc)
  then show "a AND NOT m = 0" by simp
qed

lemma clone_flags_ok_iff:
  "clone_flags_ok flags \<longleftrightarrow>
     (\<forall>n. bit CLONE_REQUIRED n \<longrightarrow> bit flags n) \<and> (\<forall>n. bit flags n \<longrightarrow> bit CLONE_ALLOWED_MASK n)"
proof -
  have "flags AND CLONE_REQUIRED = CLONE_REQUIRED \<longleftrightarrow> (\<forall>n. bit CLONE_REQUIRED n \<longrightarrow> bit flags n)"
    by (auto simp: bit_eq_iff bit_and_iff)
  moreover have "flags = flags AND CLONE_ALLOWED_MASK \<longleftrightarrow>
      (\<forall>n. bit flags n \<longrightarrow> bit CLONE_ALLOWED_MASK n)"
    by (auto simp: bit_eq_iff bit_and_iff)
  ultimately show ?thesis
    by (simp add: clone_flags_ok_def mask_cover)
qed

lemma clone_flags_ok_range:
  assumes "clone_flags_ok flags"
  shows "0x10900 \<le> flags \<and> flags \<le> 0x13D0F00"
proof -
  have "flags = flags AND CLONE_ALLOWED_MASK" "flags AND CLONE_REQUIRED = CLONE_REQUIRED"
    using assms by (simp_all add: clone_flags_ok_def mask_cover)
  moreover have "0 \<le> flags AND CLONE_ALLOWED_MASK" "flags AND CLONE_ALLOWED_MASK \<le> CLONE_ALLOWED_MASK"
    by (simp_all add: clone_masks AND_upper2)
  ultimately have "0 \<le> flags" "flags \<le> CLONE_ALLOWED_MASK" by simp_all
  moreover from this have "flags AND CLONE_REQUIRED \<le> flags" by (simp add: AND_upper1)
  then have "CLONE_REQUIRED \<le> flags"
    using \<open>flags AND CLONE_REQUIRED = CLONE_REQUIRED\<close> by simp
  ultimately show ?thesis by (simp add: clone_masks)
qed

section \<open>Decisions: facts\<close>

lemma evaluate_syscall_clone:
  "evaluate_syscall (lit ''clone'') (Some fl) cur mx = Inr allow_call \<longleftrightarrow> clone_flags_ok fl \<and> cur < mx"
  by (simp add: evaluate_syscall_def)

lemma evaluate_syscall_allowed_only:
  assumes "evaluate_syscall name flags cur mx = Inr d" "dc_allowed d"
  shows "name = lit ''clone'' \<or> name \<in> set ALLOWED_SYSCALLS"
  using assms by (auto simp: evaluate_syscall_def split: if_splits option.splits)

lemma evaluate_syscall_errno_iff:
  "evaluate_syscall name flags cur mx = Inr d \<Longrightarrow> dc_allowed d \<longleftrightarrow> dc_errno d = None"
  by (auto simp: evaluate_syscall_def split: if_splits option.splits)

lemma evaluate_syscall_error_iff:
  "(\<exists>e. evaluate_syscall name flags cur mx = Inl e) \<longleftrightarrow> name = lit ''clone'' \<and> flags = None"
  by (auto simp: evaluate_syscall_def split: option.splits)

lemma has_prefix_iff: "has_prefix s pre \<longleftrightarrow> (\<exists>rest. s = pre @ rest)"
  by (metis append_eq_conv_conj append_take_drop_id has_prefix_def)

lemma rstrip_slash_id: "s = [] \<or> last s \<noteq> 47 \<Longrightarrow> rstrip_slash s = s"
proof -
  assume *: "s = [] \<or> last s \<noteq> 47"
  have "dropWhile (\<lambda>c. c = 47) (rev s) = rev s"
    using * by (cases "rev s") (auto simp: last_rev dest: arg_cong [of _ _ rev])
  then show ?thesis by (simp add: rstrip_slash_def)
qed

lemma evaluate_open_hidden:
  assumes "h \<in> set HIDDEN_PATH_PREFIXES" "rest = [] \<or> last rest \<noteq> 47" "rest \<noteq> [] \<Longrightarrow> hd rest = 47"
  shows "evaluate_open (h @ rest) flags = refuse_call ENOENT"
proof -
  have h: "h \<noteq> []" "last h \<noteq> 47"
    using assms(1) by (auto simp: HIDDEN_PATH_PREFIXES_def lit_def)
  then have same: "rstrip_slash (h @ rest) = h @ rest"
    using assms(2) by (intro rstrip_slash_id) (cases "rest = []"; simp)
  have "rest = [] \<or> (\<exists>rest'. rest = lit ''/'' @ rest')"
    using assms(3) by (cases rest) (auto simp: lit_def)
  then have "h @ rest = h \<or> has_prefix (h @ rest) (h @ lit ''/'')"
    by (auto simp: has_prefix_iff)
  then have "list_ex (\<lambda>hidden. h @ rest = hidden \<or> has_prefix (h @ rest) (hidden @ lit ''/''))
      HIDDEN_PATH_PREFIXES"
    using assms(1) by (auto simp: list_ex_iff)
  then show ?thesis
    using h by (simp add: evaluate_open_def same Let_def)
qed

lemma evaluate_signal_allowed_iff:
  "dc_allowed (evaluate_signal target uid tuid visible peer) \<longleftrightarrow> (visible \<or> peer) \<and> tuid = uid"
  by (simp add: evaluate_signal_def)

lemma check_frame_length_bound:
  "0 \<le> mx \<Longrightarrow> 0 \<le> fv_payload_allocated_bytes (check_frame_length n mx) \<and>
     fv_payload_allocated_bytes (check_frame_length n mx) \<le> mx"
  by (simp add: check_frame_length_def)

section \<open>Properties\<close>

text \<open>A call the syscall policy lets through is on the allow list, and for \<open>clone\<close> the flags contain every
  required namespace bit, nothing outside the allowed mask, and the process count is below its limit.\<close>

theorem allowed_syscalls:
  assumes "evaluate_syscall name flags cur mx = Inr d" "dc_allowed d"
  shows "dc_errno d = None \<and>
    (if name = lit ''clone''
     then cur < mx \<and> (\<exists>fl. flags = Some fl \<and> (\<forall>n. bit CLONE_REQUIRED n \<longrightarrow> bit fl n) \<and>
       (\<forall>n. bit fl n \<longrightarrow> bit CLONE_ALLOWED_MASK n) \<and> 0x10900 \<le> fl \<and> fl \<le> 0x13D0F00)
     else name \<in> set ALLOWED_SYSCALLS \<and>
       name \<notin> lit ` {''clone3'', ''fork'', ''vfork'', ''socket'', ''socketpair'', ''connect'', ''bind'', ''listen'',
         ''accept'', ''accept4''})"
  using assms clone_flags_ok_iff clone_flags_ok_range
  by (auto simp: evaluate_syscall_def split: if_splits option.splits)

theorem allowed_syscalls_witness:
  "evaluate_syscall (lit ''clone'') (Some 0x10900) 3 4 = Inr allow_call \<and> dc_errno allow_call = None \<and>
   3 < (4 :: int)"
proof -
  have ok: "evaluate_syscall (lit ''clone'') (Some 0x10900) 3 4 = Inr allow_call"
    by (simp add: evaluate_syscall_def clone_flags_ok_def clone_masks)
  show ?thesis
    using ok allowed_syscalls [OF ok] by auto
qed

lemma rstrip_slash_append:
  assumes "h \<noteq> []" "last h \<noteq> 47"
  shows "rstrip_slash (h @ rest) = h @ rstrip_slash rest"
proof -
  have "dropWhile (\<lambda>c. c = 47) (rev h) = rev h"
    using assms by (cases "rev h") (auto simp: last_rev dest: arg_cong [of _ _ rev])
  then have "dropWhile (\<lambda>c. c = 47) (rev rest @ rev h) = dropWhile (\<lambda>c. c = 47) (rev rest) @ rev h"
    by (cases "\<forall>c \<in> set rest. c = 47") (auto simp: dropWhile_append dropWhile_eq_Nil_conv)
  then show ?thesis by (simp add: rstrip_slash_def)
qed

text \<open>No spelling of a hidden host path opens: the hidden directory itself, anything below it, and either with
  any number of trailing slashes, answer ENOENT.\<close>

theorem hidden_paths_never_open:
  assumes "h \<in> set HIDDEN_PATH_PREFIXES" "rest = [] \<or> hd rest = 47"
  shows "evaluate_open (h @ rest) flags = refuse_call ENOENT"
proof -
  have h: "h \<noteq> []" "last h \<noteq> 47"
    using assms(1) by (auto simp: HIDDEN_PATH_PREFIXES_def lit_def)
  have "rstrip_slash rest = [] \<or> hd (rstrip_slash rest) = 47"
  proof (cases rest)
    case (Cons c r)
    then have "c = 47" using assms(2) by simp
    obtain t where "rest = rstrip_slash rest @ t"
      by (metis rstrip_slash_def rev_append rev_rev_ident takeWhile_dropWhile_id)
    then show ?thesis using Cons \<open>c = 47\<close> by (cases "rstrip_slash rest") auto
  qed (simp add: rstrip_slash_def)
  then have "h @ rstrip_slash rest = h \<or> has_prefix (h @ rstrip_slash rest) (h @ lit ''/'')"
    by (cases "rstrip_slash rest") (auto simp: has_prefix_iff lit_def)
  then have "list_ex (\<lambda>hidden. h @ rstrip_slash rest = hidden \<or> has_prefix (h @ rstrip_slash rest) (hidden @ lit ''/''))
      HIDDEN_PATH_PREFIXES"
    using assms(1) by (auto simp: list_ex_iff)
  then show ?thesis
    using h by (simp add: evaluate_open_def rstrip_slash_append Let_def)
qed

theorem hidden_paths_never_open_witness:
  "evaluate_open (lit ''/var/run/sshd/x//'') [] = refuse_call ENOENT"
proof -
  have "lit ''/var/run/sshd'' \<in> set HIDDEN_PATH_PREFIXES" by (simp add: HIDDEN_PATH_PREFIXES_def)
  then have "evaluate_open (lit ''/var/run/sshd'' @ lit ''/x//'') [] = refuse_call ENOENT"
    by (rule hidden_paths_never_open) (simp add: lit_def)
  then show ?thesis by (simp add: lit_def)
qed

end
