(* ===== verification/Seccomp.thy ===== *)
theory Seccomp imports Sandbox begin

text \<open>
  Models \<open>src/lexwatt/seccomp.py\<close> up to the bytes of the cBPF program; installing it (\<open>prctl\<close>
  through ctypes) is not modelled. An instruction is its eight bytes \<open>struct.pack("<HBBI", ...)\<close>;
  every value packed by the code is in range, so \<open>pack\<close> is total here.

  Results: \<open>build_filter\<close> never returns a program. Four allowed calls have no number in the table,
  so the lookup raises \<open>KeyError\<close> in whatever order the set is walked; and the assembler itself
  rejects every list of numbers, because the deny instruction lies before the jumps to it.
\<close>

definition BPF_LD_W_ABS :: nat where "BPF_LD_W_ABS = 0x20"
definition BPF_JMP_JEQ :: nat where "BPF_JMP_JEQ = 0x15"
definition BPF_JMP_JSET :: nat where "BPF_JMP_JSET = 0x45"
definition BPF_ALU_AND_K :: nat where "BPF_ALU_AND_K = 0x54"
definition BPF_RET_K :: nat where "BPF_RET_K = 0x06"
definition SECCOMP_RET_KILL_PROCESS :: int where "SECCOMP_RET_KILL_PROCESS = 0x80000000"
definition SECCOMP_RET_ERRNO :: int where "SECCOMP_RET_ERRNO = 0x00050000"
definition SECCOMP_RET_ALLOW :: int where "SECCOMP_RET_ALLOW = 0x7FFF0000"
definition EPERM_NO :: int where "EPERM_NO = 1"
definition ENOSYS_NO :: int where "ENOSYS_NO = 38"
definition AUDIT_ARCH_X86_64 :: int where "AUDIT_ARCH_X86_64 = 0xC000003E"
definition OFF_NR :: int where "OFF_NR = 0"
definition OFF_ARCH :: int where "OFF_ARCH = 4"
definition OFF_ARGS0_LO :: int where "OFF_ARGS0_LO = 16"

definition X86_64_SYSCALLS :: "(pystr \<times> int) list" where
  "X86_64_SYSCALLS = [
    (lit ''read'', 0), (lit ''write'', 1), (lit ''open'', 2), (lit ''close'', 3), (lit ''stat'', 4),
    (lit ''fstat'', 5), (lit ''lstat'', 6), (lit ''poll'', 7), (lit ''lseek'', 8), (lit ''mmap'', 9),
    (lit ''mprotect'', 10), (lit ''munmap'', 11), (lit ''brk'', 12), (lit ''rt_sigaction'', 13),
    (lit ''rt_sigprocmask'', 14), (lit ''rt_sigreturn'', 15), (lit ''pread64'', 17),
    (lit ''pwrite64'', 18), (lit ''readv'', 19), (lit ''writev'', 20), (lit ''access'', 21),
    (lit ''pipe'', 22), (lit ''select'', 23), (lit ''sched_yield'', 24), (lit ''mremap'', 25),
    (lit ''msync'', 26), (lit ''mincore'', 27), (lit ''madvise'', 28), (lit ''dup'', 32),
    (lit ''dup2'', 33), (lit ''nanosleep'', 35), (lit ''getpid'', 39), (lit ''socket'', 41),
    (lit ''connect'', 42), (lit ''accept'', 43), (lit ''sendto'', 44), (lit ''recvfrom'', 45),
    (lit ''sendmsg'', 46), (lit ''recvmsg'', 47), (lit ''shutdown'', 48), (lit ''bind'', 49),
    (lit ''listen'', 50), (lit ''getsockname'', 51), (lit ''getpeername'', 52),
    (lit ''socketpair'', 53), (lit ''setsockopt'', 54), (lit ''getsockopt'', 55), (lit ''clone'', 56),
    (lit ''fork'', 57), (lit ''vfork'', 58), (lit ''execve'', 59), (lit ''exit'', 60),
    (lit ''wait4'', 61), (lit ''kill'', 62), (lit ''uname'', 63), (lit ''fcntl'', 72),
    (lit ''flock'', 73), (lit ''fsync'', 74), (lit ''fdatasync'', 75), (lit ''truncate'', 76),
    (lit ''ftruncate'', 77), (lit ''getdents'', 78), (lit ''getcwd'', 79), (lit ''chdir'', 80),
    (lit ''fchdir'', 81), (lit ''rename'', 82), (lit ''mkdir'', 83), (lit ''rmdir'', 84),
    (lit ''link'', 86), (lit ''unlink'', 87), (lit ''symlink'', 88), (lit ''readlink'', 89),
    (lit ''chmod'', 90), (lit ''fchmod'', 91), (lit ''umask'', 95), (lit ''gettimeofday'', 96),
    (lit ''getrlimit'', 97), (lit ''getrusage'', 98), (lit ''sysinfo'', 99), (lit ''times'', 100),
    (lit ''getuid'', 102), (lit ''getgid'', 104), (lit ''geteuid'', 107), (lit ''getegid'', 108),
    (lit ''setpgid'', 109), (lit ''getppid'', 110), (lit ''setsid'', 112), (lit ''getgroups'', 115),
    (lit ''getpgid'', 121), (lit ''getsid'', 124), (lit ''rt_sigpending'', 127),
    (lit ''rt_sigtimedwait'', 128), (lit ''rt_sigsuspend'', 130), (lit ''sigaltstack'', 131),
    (lit ''utime'', 132), (lit ''mknod'', 133), (lit ''statfs'', 137), (lit ''personality'', 135),
    (lit ''prctl'', 157), (lit ''arch_prctl'', 158), (lit ''setrlimit'', 160), (lit ''gettid'', 186),
    (lit ''tkill'', 200), (lit ''time'', 201), (lit ''futex'', 202), (lit ''sched_setaffinity'', 203),
    (lit ''sched_getaffinity'', 204), (lit ''epoll_create'', 213), (lit ''getdents64'', 217),
    (lit ''set_tid_address'', 218), (lit ''restart_syscall'', 219), (lit ''clock_gettime'', 228),
    (lit ''clock_getres'', 229), (lit ''clock_nanosleep'', 230), (lit ''exit_group'', 231),
    (lit ''epoll_wait'', 232), (lit ''epoll_ctl'', 233), (lit ''tgkill'', 234), (lit ''utimes'', 235),
    (lit ''waitid'', 247), (lit ''openat'', 257), (lit ''mkdirat'', 258), (lit ''newfstatat'', 262),
    (lit ''unlinkat'', 263), (lit ''renameat'', 264), (lit ''linkat'', 265), (lit ''symlinkat'', 266),
    (lit ''readlinkat'', 267), (lit ''fchmodat'', 268), (lit ''faccessat'', 269),
    (lit ''pselect6'', 270), (lit ''ppoll'', 271), (lit ''set_robust_list'', 273),
    (lit ''get_robust_list'', 274), (lit ''utimensat'', 280), (lit ''epoll_pwait'', 281),
    (lit ''eventfd'', 284), (lit ''accept4'', 288), (lit ''eventfd2'', 290),
    (lit ''epoll_create1'', 291), (lit ''dup3'', 292), (lit ''pipe2'', 293), (lit ''prlimit64'', 302),
    (lit ''renameat2'', 316), (lit ''getrandom'', 318), (lit ''execveat'', 322),
    (lit ''membarrier'', 324), (lit ''statx'', 332), (lit ''rseq'', 334), (lit ''clone3'', 435),
    (lit ''close_range'', 436), (lit ''openat2'', 437), (lit ''faccessat2'', 439),
    (lit ''epoll_pwait2'', 441)]"

section \<open>Assembler\<close>

definition le_bytes :: "nat \<Rightarrow> int \<Rightarrow> bytes" where
  "le_bytes n k = map (\<lambda>i. nat (k div 256 ^ i mod 256)) [0..<n]"

definition pack :: "nat \<Rightarrow> nat \<Rightarrow> nat \<Rightarrow> int \<Rightarrow> bytes" where
  "pack opcode jt jf k = le_bytes 2 (int opcode) @ [jt, jf] @ le_bytes 4 k"

definition stmt :: "nat \<Rightarrow> int \<Rightarrow> bytes" where "stmt opcode k = pack opcode 0 0 k"
definition jump :: "nat \<Rightarrow> int \<Rightarrow> nat \<Rightarrow> nat \<Rightarrow> bytes" where "jump opcode k jt jf = pack opcode jt jf k"
definition ret :: "int \<Rightarrow> bytes" where "ret k = stmt BPF_RET_K k"

definition fwd :: "nat \<Rightarrow> nat \<Rightarrow> exn + nat" where
  "fwd src dst =
    (let d = int dst - int src - 1
     in if \<not> (0 \<le> d \<and> d \<le> 255) then Inl (Py Assertion_Error) else Inr (nat d))"

definition syscall_nr :: "pystr \<Rightarrow> exn + int" where
  "syscall_nr name = (case map_of X86_64_SYSCALLS name of None \<Rightarrow> Inl (Py Key_Error) | Some n \<Rightarrow> Inr n)"

fun patch_compares :: "(nat \<times> int) list \<Rightarrow> nat \<Rightarrow> bytes list \<Rightarrow> exn + bytes list" where
  "patch_compares [] allow_idx prog = Inr prog"
| "patch_compares ((idx, nr) # rest) allow_idx prog =
    bindE (fwd idx allow_idx) (\<lambda>d. patch_compares rest allow_idx (prog[idx := jump BPF_JMP_JEQ nr d 0]))"

text \<open>Lines 97 to 152: the layout of the program, then its jumps, for given sorted numbers.\<close>

definition assemble :: "int list \<Rightarrow> exn + bytes" where
  "assemble allowed_nrs =
    bindE (syscall_nr (lit ''clone'')) (\<lambda>clone_nr.
    bindE (syscall_nr (lit ''clone3'')) (\<lambda>clone3_nr.
    (let head = [stmt BPF_LD_W_ABS OFF_ARCH, jump BPF_JMP_JEQ AUDIT_ARCH_X86_64 1 0,
                 ret SECCOMP_RET_KILL_PROCESS, stmt BPF_LD_W_ABS OFF_NR];
         compares = zip [length head..<length head + length allowed_nrs] allowed_nrs;
         clone_idx = length head + length allowed_nrs;
         clone3_idx = clone_idx + 1;
         deny_idx = clone_idx + 2;
         enosys_idx = clone_idx + 3;
         clone_block = clone_idx + 4;
         jset_idx = clone_idx + 5;
         jeq_idx = clone_idx + 7;
         allow_idx = clone_idx + 8;
         prog = head @ replicate (length allowed_nrs) [] @
           [jump BPF_JMP_JEQ clone_nr 0 0, jump BPF_JMP_JEQ clone3_nr 0 0,
            ret (SECCOMP_RET_ERRNO OR EPERM_NO), ret (SECCOMP_RET_ERRNO OR ENOSYS_NO),
            stmt BPF_LD_W_ABS OFF_ARGS0_LO, [], stmt BPF_ALU_AND_K CLONE_REQUIRED, [],
            ret SECCOMP_RET_ALLOW]
     in bindE (patch_compares compares allow_idx prog) (\<lambda>prog.
        bindE (fwd clone_idx clone_block) (\<lambda>d1.
        bindE (fwd clone3_idx enosys_idx) (\<lambda>d2.
        bindE (fwd jset_idx deny_idx) (\<lambda>d3.
        bindE (fwd jeq_idx allow_idx) (\<lambda>d4.
        bindE (fwd jeq_idx deny_idx) (\<lambda>d5.
          Inr (concat (prog
            [clone_idx := jump BPF_JMP_JEQ clone_nr d1 0,
             clone3_idx := jump BPF_JMP_JEQ clone3_nr d2 0,
             jset_idx := jump BPF_JMP_JSET (NOT CLONE_ALLOWED_MASK AND 0xFFFFFFFF) d3 0,
             jeq_idx := jump BPF_JMP_JEQ CLONE_REQUIRED d4 d5]))))))))))) "

text \<open>\<open>names\<close> is the order in which Python walks the frozen set of allowed names.\<close>

definition build_filter_in_order :: "pystr list \<Rightarrow> exn + bytes" where
  "build_filter_in_order names =
    bindE (mapE syscall_nr (filter (\<lambda>n. n \<noteq> lit ''clone'') names)) (\<lambda>nrs. assemble (sort nrs))"

definition build_filter :: "exn + bytes" where
  "build_filter = build_filter_in_order ALLOWED_SYSCALLS"

definition instruction_count :: "exn + nat" where
  "instruction_count = bindE build_filter (\<lambda>b. Inr (length b div 8))"

section \<open>Facts\<close>

lemma patch_compares_error:
  "patch_compares cs a prog = Inl e \<Longrightarrow> e = Py Assertion_Error"
  by (induction cs a prog rule: patch_compares.induct) (auto simp: result_simps fwd_def Let_def split: if_splits)

lemma fwd_backward: "dst \<le> src \<Longrightarrow> fwd src dst = Inl (Py Assertion_Error)"
  by (simp add: fwd_def Let_def)

lemma clone_numbers: "syscall_nr (lit ''clone'') = Inr 56" "syscall_nr (lit ''clone3'') = Inr 435"
  by (simp_all add: syscall_nr_def X86_64_SYSCALLS_def)

lemma fwd_error: "fwd src dst = Inl e \<Longrightarrow> e = Py Assertion_Error"
  by (simp add: fwd_def Let_def split: if_splits)

lemma bindE_always_error:
  "(\<And>e. r = Inl e \<Longrightarrow> e = e0) \<Longrightarrow> (\<And>x. f x = Inl e0) \<Longrightarrow> bindE r f = Inl e0"
  by (cases r) simp_all

lemma bindE_first_error: "r = Inl e \<Longrightarrow> bindE r f = Inl e"
  by simp

lemma assemble_raises: "assemble nrs = Inl (Py Assertion_Error)"
  unfolding assemble_def clone_numbers bindE_Inr Let_def
  apply (rule bindE_always_error, erule patch_compares_error)
  apply (rule bindE_always_error, erule fwd_error)
  apply (rule bindE_always_error, erule fwd_error)
  apply (rule bindE_first_error)
  apply (rule fwd_backward)
  apply simp
  done

lemma mapE_error_of:
  "(\<And>x e. x \<in> set xs \<Longrightarrow> f x = Inl e \<Longrightarrow> e = e0) \<Longrightarrow> x \<in> set xs \<Longrightarrow> f x = Inl e0 \<Longrightarrow> mapE f xs = Inl e0"
proof (induction xs)
  case (Cons y ys)
  show ?case
  proof (cases "f y")
    case (Inl e)
    moreover have "e = e0" by (rule Cons.prems(1) [OF _ Inl]) simp
    ultimately show ?thesis by simp
  next
    case (Inr v)
    then have "x \<in> set ys" using Cons.prems(2,3) by auto
    then have "mapE f ys = Inl e0"
      by (rule Cons.IH [rotated]) (rule Cons.prems(3), rule Cons.prems(1), simp_all)
    then show ?thesis using Inr by simp
  qed
qed simp

lemma missing_number: "syscall_nr (lit ''sched_getparam'') = Inl (Py Key_Error)"
  by (simp add: syscall_nr_def X86_64_SYSCALLS_def)

lemma sched_getparam_allowed: "lit ''sched_getparam'' \<in> set ALLOWED_SYSCALLS"
  by (simp add: ALLOWED_SYSCALLS_def)

lemma build_filter_any_order:
  assumes "set names = set ALLOWED_SYSCALLS"
  shows "build_filter_in_order names = Inl (Py Key_Error)"
proof -
  have "mapE syscall_nr (filter (\<lambda>n. n \<noteq> lit ''clone'') names) = Inl (Py Key_Error)"
  proof (rule mapE_error_of)
    show "e = Py Key_Error" if "syscall_nr x = Inl e" for x e
      using that by (auto simp: syscall_nr_def split: option.splits)
    show "lit ''sched_getparam'' \<in> set (filter (\<lambda>n. n \<noteq> lit ''clone'') names)"
      using assms sched_getparam_allowed by simp
  qed (rule missing_number)
  then show ?thesis by (simp add: build_filter_in_order_def)
qed

section \<open>Properties\<close>

text \<open>The filter is never produced. In whatever order the allowed names are enumerated the table lookup raises
  KeyError, and for every table of numbers the assembler rejects its own backward jump.\<close>

theorem build_filter_always_raises:
  assumes "set names = set ALLOWED_SYSCALLS"
  shows "build_filter_in_order names = Inl (Py Key_Error) \<and> instruction_count = Inl (Py Key_Error) \<and>
    assemble numbers = Inl (Py Assertion_Error)"
  using build_filter_any_order [OF assms] build_filter_any_order [OF refl] assemble_raises
  by (simp add: instruction_count_def build_filter_def)

theorem build_filter_always_raises_witness:
  "build_filter = Inl (Py Key_Error) \<and> assemble [0, 1] = Inl (Py Assertion_Error)"
  using build_filter_always_raises [of ALLOWED_SYSCALLS "[0, 1]"] by (simp add: build_filter_def)

end
