(* ===== verification/Jcs.thy ===== *)
theory Jcs imports Pyvalue begin

text \<open>
  Models \<open>src/lexwatt/jcs.py\<close>: the canonical serializer \<open>dumps\<close> and the strict recursive-descent
  parser \<open>loads\<close>. The parser object's position is the list of bytes not yet read. The exceptions
  the code lets through besides \<open>INVALID_INPUT\<close> are modelled: \<open>take\<close> at the end of the input raises
  \<open>IndexError\<close>, an integer of more than 4300 digits \<open>ValueError\<close> (Python's conversion limit), and so
  does \<open>chr\<close> of a negative escape.

  The mutual recursion of \<open>value\<close>, \<open>obj\<close> and \<open>arr\<close> is shown to terminate because every successful
  \<open>value\<close> consumes a byte. Results here: termination, what the parser returns (distinct keys,
  scalar texts, bounded integers, nesting at most 32), and which exceptions can escape.
  The round trip is in the next theory.
\<close>

definition MAX_DEPTH :: nat where "MAX_DEPTH = 32"
definition MAX_JSON_INT :: int where "MAX_JSON_INT = 2147483647"

text \<open>The largest number of digits \<open>int\<close> and \<open>str\<close> convert (\<open>sys.get_int_max_str_digits()\<close>).\<close>

definition INT_MAX_STR_DIGITS :: nat where "INT_MAX_STR_DIGITS = 4300"

section \<open>Serializer\<close>

definition hex_digit :: "nat \<Rightarrow> nat" where
  "hex_digit n = (if n < 10 then 48 + n else 87 + n)"

text \<open>\<open>"\\u%04x" % o\<close> for \<open>o\<close> below 32.\<close>

definition u_escape_text :: "nat \<Rightarrow> pystr" where
  "u_escape_text n = [92, 117, hex_digit (n div 4096 mod 16), hex_digit (n div 256 mod 16),
     hex_digit (n div 16 mod 16), hex_digit (n mod 16)]"

definition escape_char :: "nat \<Rightarrow> exn + pystr" where
  "escape_char ch =
    (if ch = 34 then Inr [92, 34]
     else if ch = 92 then Inr [92, 92]
     else if ch = 8 then Inr [92, 98]
     else if ch = 12 then Inr [92, 102]
     else if ch = 10 then Inr [92, 110]
     else if ch = 13 then Inr [92, 114]
     else if ch = 9 then Inr [92, 116]
     else if ch < 32 then Inr (u_escape_text ch)
     else if is_surrogate ch then Inl (Lex INVALID_INPUT)
     else Inr [ch])"

definition escape_string :: "pystr \<Rightarrow> exn + pystr" where
  "escape_string s = bindE (mapE escape_char s) (\<lambda>cs. Inr ([34] @ concat cs @ [34]))"

definition py_str_int :: "int \<Rightarrow> exn + pystr" where
  "py_str_int n =
    (let ds = dec_str (nat \<bar>n\<bar>)
     in if length ds > INT_MAX_STR_DIGITS then Inl (Py Value_Error)
        else Inr (if n < 0 then 45 # ds else ds))"

text \<open>The pieces of a list or object with commas between them.\<close>

fun join_comma :: "pystr list \<Rightarrow> pystr" where
  "join_comma [] = []"
| "join_comma [p] = p"
| "join_comma (p # q # ps) = p @ [44] @ join_comma (q # ps)"

text \<open>A dict's items in the order of its keys' UTF-16 code units.\<close>

definition sorted_items :: "(pystr \<times> 'v) list \<Rightarrow> (pystr \<times> 'v) list" where
  "sorted_items d = sort_key (\<lambda>kv. utf16_key (fst kv)) d"

lemma set_sorted_items [simp]: "set (sorted_items d) = set d"
  by (simp add: sorted_items_def)

lemma json_size_item: "(k, v) \<in> set d \<Longrightarrow> size v < size (JObj d)"
  by (induction d) auto

lemma json_size_elem: "v \<in> set xs \<Longrightarrow> size v < size (JArr xs)"
  by (induction xs) auto

function write_json :: "json \<Rightarrow> exn + pystr" where
  "write_json JNull = Inr (lit ''null'')"
| "write_json (JBool b) = Inr (if b then lit ''true'' else lit ''false'')"
| "write_json (JInt n) = py_str_int n"
| "write_json (JStr s) = escape_string s"
| "write_json (JArr xs) =
    bindE (mapE (\<lambda>x. write_json x) xs) (\<lambda>ps. Inr ([91] @ join_comma ps @ [93]))"
| "write_json (JObj d) =
    bindE (mapE (\<lambda>kv. bindE (escape_string (fst kv)) (\<lambda>k.
             bindE (write_json (snd kv)) (\<lambda>v. Inr (k @ [58] @ v)))) (sorted_items d))
      (\<lambda>ps. Inr ([123] @ join_comma ps @ [125]))"
  by pat_completeness auto
termination
proof (relation "measure size")
  show "(x, JArr xs) \<in> measure size" if "x \<in> set xs" for x xs
    using json_size_elem [OF that] by simp
  show "(snd kv, JObj d) \<in> measure size" if "kv \<in> set (sorted_items d)" for kv and d :: dict
    using json_size_item [of "fst kv" "snd kv" d] that by simp
qed simp

definition dumps :: "json \<Rightarrow> exn + bytes" where
  "dumps value = bindE (write_json value) utf8_encode"

definition dumps_str :: "json \<Rightarrow> exn + pystr" where
  "dumps_str value = bindE (dumps value) utf8_decode"

section \<open>Parser: tokens\<close>

text \<open>Every parsing step returns its value and the bytes after it.\<close>

abbreviation fail :: "exn + 'a" where "fail \<equiv> Inl (Lex INVALID_INPUT)"

definition peek :: "bytes \<Rightarrow> nat option" where
  "peek bs = (case bs of [] \<Rightarrow> None | b # _ \<Rightarrow> Some b)"

definition take_byte :: "bytes \<Rightarrow> exn + nat \<times> bytes" where
  "take_byte bs = (case bs of [] \<Rightarrow> Inl (Py Index_Error) | b # r \<Rightarrow> Inr (b, r))"

definition is_ws :: "nat \<Rightarrow> bool" where
  "is_ws b \<longleftrightarrow> b = 32 \<or> b = 9 \<or> b = 10 \<or> b = 13"

definition ws :: "bytes \<Rightarrow> bytes" where
  "ws bs = dropWhile is_ws bs"

definition expect :: "pystr \<Rightarrow> bytes \<Rightarrow> exn + bytes" where
  "expect word bs = (if take (length word) bs \<noteq> word then fail else Inr (drop (length word) bs))"

definition digit_next :: "bytes \<Rightarrow> bool" where
  "digit_next bs \<longleftrightarrow> (case peek bs of None \<Rightarrow> False | Some b \<Rightarrow> is_digit b)"

text \<open>The end of \<open>number\<close>: the fraction and exponent guard, \<open>int(text)\<close> and the magnitude bound.\<close>

definition number_end :: "bool \<Rightarrow> pystr \<Rightarrow> bytes \<Rightarrow> exn + int \<times> bytes" where
  "number_end neg ds r =
    (if peek r \<in> {Some 46, Some 101, Some 69} then fail
     else if length ds > INT_MAX_STR_DIGITS then Inl (Py Value_Error)
     else (let v = (if neg then - int (dec_val ds) else int (dec_val ds))
           in if \<bar>v\<bar> > MAX_JSON_INT then fail else Inr (v, r)))"

definition number :: "bytes \<Rightarrow> exn + int \<times> bytes" where
  "number bs =
    (let neg = (peek bs = Some 45);
         r = (if neg then drop 1 bs else bs)
     in if peek r = Some 48 then
          (if digit_next (drop 1 r) then fail else number_end neg [48] (drop 1 r))
        else if digit_next r then number_end neg (takeWhile is_digit r) (dropWhile is_digit r)
        else fail)"

section \<open>Parser: strings\<close>

text \<open>\<open>int(text, 16)\<close> on ASCII text: surrounding blanks, a sign, a \<open>0x\<close> prefix (with an optional
  underscore after it), then digits with single underscores between them.\<close>

definition is_c_space :: "nat \<Rightarrow> bool" where
  "is_c_space c \<longleftrightarrow> c = 32 \<or> (9 \<le> c \<and> c \<le> 13)"

definition hex_val :: "nat \<Rightarrow> nat option" where
  "hex_val c =
    (if 48 \<le> c \<and> c \<le> 57 then Some (c - 48)
     else if 97 \<le> c \<and> c \<le> 102 then Some (c - 87)
     else if 65 \<le> c \<and> c \<le> 70 then Some (c - 55)
     else None)"

text \<open>\<open>after_digit\<close> says that the previous character was a digit.\<close>

fun hex_digits :: "bool \<Rightarrow> nat \<Rightarrow> pystr \<Rightarrow> nat option" where
  "hex_digits after_digit acc [] = (if after_digit then Some acc else None)"
| "hex_digits after_digit acc (c # cs) =
    (if c = 95 then (if after_digit then hex_digits False acc cs else None)
     else (case hex_val c of None \<Rightarrow> None | Some d \<Rightarrow> hex_digits True (acc * 16 + d) cs))"

definition strip_c_space :: "pystr \<Rightarrow> pystr" where
  "strip_c_space s = rev (dropWhile is_c_space (rev (dropWhile is_c_space s)))"

definition hex_prefix :: "pystr \<Rightarrow> pystr" where
  "hex_prefix s =
    (if take 2 s = lit ''0x'' \<or> take 2 s = lit ''0X''
     then (if take 1 (drop 2 s) = lit ''_'' then drop 3 s else drop 2 s)
     else s)"

definition py_int16 :: "pystr \<Rightarrow> int option" where
  "py_int16 text =
    (let s = strip_c_space text;
         neg = (take 1 s = lit ''-'');
         body = (if neg \<or> take 1 s = lit ''+'' then drop 1 s else s)
     in map_option (\<lambda>n. if neg then - int n else int n) (hex_digits False 0 (hex_prefix body)))"

text \<open>Four bytes as \<open>int(hexs.decode("ascii"), 16)\<close>, any \<open>ValueError\<close> becoming \<open>INVALID_INPUT\<close>.\<close>

definition take_hex4 :: "bytes \<Rightarrow> exn + int \<times> bytes" where
  "take_hex4 bs =
    (if length bs < 4 then fail
     else if list_ex (\<lambda>b. b \<ge> 128) (take 4 bs) then fail
     else (case py_int16 (take 4 bs) of None \<Rightarrow> fail | Some v \<Rightarrow> Inr (v, drop 4 bs)))"

definition py_chr :: "int \<Rightarrow> exn + nat" where
  "py_chr cp = (if cp < 0 \<or> cp > 1114111 then Inl (Py Value_Error) else Inr (nat cp))"

definition u_escape :: "bytes \<Rightarrow> exn + nat \<times> bytes" where
  "u_escape bs =
    bindE (take_hex4 bs) (\<lambda>(cp, r).
      if 0xD800 \<le> cp \<and> cp \<le> 0xDBFF then
        (if take 2 r \<noteq> [92, 117] then fail
         else bindE (take_hex4 (drop 2 r)) (\<lambda>(cp2, r2).
           if \<not> (0xDC00 \<le> cp2 \<and> cp2 \<le> 0xDFFF) then fail
           else bindE (py_chr (0x10000 + (cp - 0xD800) * 1024 + (cp2 - 0xDC00)))
                  (\<lambda>c. Inr (c, r2))))
      else bindE (py_chr cp) (\<lambda>c. Inr (c, r)))"

definition utf8_need :: "nat \<Rightarrow> nat option" where
  "utf8_need first =
    (if 0xC0 \<le> first \<and> first \<le> 0xDF then Some 1
     else if 0xE0 \<le> first \<and> first \<le> 0xEF then Some 2
     else if 0xF0 \<le> first \<and> first \<le> 0xF7 then Some 3
     else None)"

definition parse_utf8_char :: "nat \<Rightarrow> bytes \<Rightarrow> exn + pystr \<times> bytes" where
  "parse_utf8_char first r =
    (case utf8_need first of
       None \<Rightarrow> fail
     | Some need \<Rightarrow>
         (case utf8_decode (first # take need r) of
            Inl _ \<Rightarrow> fail
          | Inr s \<Rightarrow> Inr (s, drop need r)))"

text \<open>The escapes of one character after the backslash.\<close>

definition simple_escape :: "nat \<Rightarrow> nat option" where
  "simple_escape e =
    (if e = 0x22 then Some 34 else if e = 0x5C then Some 92 else if e = 0x2F then Some 47
     else if e = 0x62 then Some 8 else if e = 0x66 then Some 12 else if e = 0x6E then Some 10
     else if e = 0x72 then Some 13 else if e = 0x74 then Some 9 else None)"

text \<open>One character of a string, after the closing quote has been excluded: \<open>b\<close> was just taken.\<close>

definition string_char :: "nat \<Rightarrow> bytes \<Rightarrow> exn + pystr \<times> bytes" where
  "string_char b r =
    (if b = 0x5C then
       (case r of
          [] \<Rightarrow> fail
        | e # r2 \<Rightarrow>
            (case simple_escape e of
               Some c \<Rightarrow> Inr ([c], r2)
             | None \<Rightarrow>
                 if e = 0x75 then bindE (u_escape r2) (\<lambda>(c, r3). Inr ([c], r3)) else fail))
     else if b < 0x20 then fail
     else if b < 0x80 then Inr ([b], r)
     else parse_utf8_char b r)"

lemma take_hex4_rest: "take_hex4 bs = Inr (v, r) \<Longrightarrow> r = drop 4 bs \<and> 4 \<le> length bs"
  by (auto simp: take_hex4_def split: if_splits option.splits)

lemma u_escape_rest: "u_escape bs = Inr (c, r) \<Longrightarrow> length r \<le> length bs"
  by (auto simp: u_escape_def result_simps dest!: take_hex4_rest split: if_splits)

lemma string_char_rest: "string_char b r = Inr (s, r') \<Longrightarrow> length r' \<le> length r"
  by (auto simp: string_char_def parse_utf8_char_def result_simps
      dest!: u_escape_rest split: if_splits option.splits list.splits sum.splits)

function string_loop :: "bytes \<Rightarrow> pystr \<Rightarrow> exn + pystr \<times> bytes" where
  "string_loop [] out = fail"
| "string_loop (b # r) out =
    (if b = 0x22 then Inr (out, r)
     else bindE (string_char b r) (\<lambda>sr. string_loop (snd sr) (out @ fst sr)))"
  by pat_completeness auto
termination
  by (relation "measure (length \<circ> fst)") (auto dest: string_char_rest)

declare string_loop.simps(2) [simp del]

definition check_scalars :: "pystr \<Rightarrow> exn + unit" where
  "check_scalars s = requireE (\<not> list_ex is_surrogate s) (Lex INVALID_INPUT)"

text \<open>Named \<open>string_value\<close> for the method \<open>string\<close>.\<close>

definition string_value :: "bytes \<Rightarrow> exn + pystr \<times> bytes" where
  "string_value bs =
    bindE (take_byte bs) (\<lambda>(q, r).
    bindE (requireE (q = 0x22) (Py Assertion_Error)) (\<lambda>_.
    bindE (string_loop r []) (\<lambda>(s, r2).
    bindE (check_scalars s) (\<lambda>_. Inr (s, r2)))))"

lemma string_loop_rest: "string_loop bs out = Inr (s, r) \<Longrightarrow> length r < length bs"
proof (induction bs out rule: string_loop.induct)
  case (2 b bs out)
  show ?case
  proof (cases "b = 0x22")
    case True
    with "2.prems" show ?thesis by (simp add: string_loop.simps(2))
  next
    case False
    then obtain s' r' where step: "string_char b bs = Inr (s', r')" "string_loop r' (out @ s') = Inr (s, r)"
      using "2.prems" by (auto simp: string_loop.simps(2) result_simps)
    then show ?thesis
      using "2.IH" [OF False step(1)] string_char_rest [OF step(1)] by simp
  qed
qed simp

lemma string_value_rest: "string_value bs = Inr (s, r) \<Longrightarrow> length r < length bs"
  by (auto simp: string_value_def result_simps take_byte_def check_scalars_def
      dest!: string_loop_rest split: list.splits)

lemma ws_length: "length (ws bs) \<le> length bs"
  by (simp add: ws_def length_dropWhile_le)

lemma number_rest: "number bs = Inr (v, r) \<Longrightarrow> length r < length bs"
proof -
  have le: "digit_next r \<Longrightarrow> length (dropWhile is_digit r) < length r" for r
    by (cases r) (auto simp: digit_next_def peek_def length_dropWhile_le le_imp_less_Suc)
  show "number bs = Inr (v, r) \<Longrightarrow> length r < length bs"
    by (cases bs)
       (auto simp: number_def number_end_def Let_def peek_def dest!: le
        split: if_splits list.splits option.splits)
qed

section \<open>Parser: values\<close>

text \<open>
  \<open>obj\<close> and \<open>arr\<close> receive the bytes after the opening bracket; \<open>obj_loop\<close> and \<open>arr_loop\<close> are their
  \<open>while True\<close> loops, \<open>out\<close> the collection built so far.
\<close>

function value_at :: "nat \<Rightarrow> bytes \<Rightarrow> exn + json \<times> bytes"
    and obj :: "nat \<Rightarrow> bytes \<Rightarrow> exn + json \<times> bytes"
    and obj_loop :: "nat \<Rightarrow> dict \<Rightarrow> bytes \<Rightarrow> exn + json \<times> bytes"
    and arr :: "nat \<Rightarrow> bytes \<Rightarrow> exn + json \<times> bytes"
    and arr_loop :: "nat \<Rightarrow> json list \<Rightarrow> bytes \<Rightarrow> exn + json \<times> bytes"
  where
  "value_at depth bs =
    (if depth > MAX_DEPTH then fail
     else (case bs of
         [] \<Rightarrow> fail
       | b # r \<Rightarrow>
           if b = 0x7B then obj depth r
           else if b = 0x5B then arr depth r
           else if b = 0x22 then bindE (string_value bs) (\<lambda>(s, r2). Inr (JStr s, r2))
           else if b = 0x74 then bindE (expect (lit ''true'') bs) (\<lambda>r2. Inr (JBool True, r2))
           else if b = 0x66 then bindE (expect (lit ''false'') bs) (\<lambda>r2. Inr (JBool False, r2))
           else if b = 0x6E then bindE (expect (lit ''null'') bs) (\<lambda>r2. Inr (JNull, r2))
           else if b = 0x2D \<or> is_digit b then bindE (number bs) (\<lambda>(n, r2). Inr (JInt n, r2))
           else fail))"
| "obj depth bs = (if peek (ws bs) = Some 0x7D then Inr (JObj [], drop 1 (ws bs)) else obj_loop depth [] (ws bs))"
| "obj_loop depth out bs =
    (if peek (ws bs) \<noteq> Some 0x22 then fail
     else bindE (string_value (ws bs)) (\<lambda>ks.
          bindE (take_byte (ws (snd ks))) (\<lambda>cr.
          if fst cr \<noteq> 0x3A then fail
          else bindE (value_at (depth + 1) (ws (snd cr))) (\<lambda>vr.
            if fst ks \<in> set (map fst out) then fail
            else bindE (take_byte (ws (snd vr))) (\<lambda>br.
              if fst br = 0x7D then Inr (JObj (out @ [(fst ks, fst vr)]), snd br)
              else if fst br \<noteq> 0x2C then fail
              else obj_loop depth (out @ [(fst ks, fst vr)]) (snd br))))))"
| "arr depth bs = (if peek (ws bs) = Some 0x5D then Inr (JArr [], drop 1 (ws bs)) else arr_loop depth [] (ws bs))"
| "arr_loop depth out bs =
    bindE (value_at (depth + 1) (ws bs)) (\<lambda>vr.
    bindE (take_byte (ws (snd vr))) (\<lambda>br.
      if fst br = 0x5D then Inr (JArr (out @ [fst vr]), snd br)
      else if fst br \<noteq> 0x2C then fail
      else arr_loop depth (out @ [fst vr]) (snd br)))"
  by pat_completeness auto

lemma take_byte_rest: "take_byte bs = Inr (b, r) \<Longrightarrow> length r < length bs"
  by (auto simp: take_byte_def split: list.splits)

lemma expect_rest: "expect word bs = Inr r \<Longrightarrow> word \<noteq> [] \<Longrightarrow> length r < length bs"
  by (cases bs) (auto simp: expect_def split: if_splits)

text \<open>Every call that returns leaves fewer than the \<open>n\<close> bytes it was given.\<close>

definition shrinks :: "nat \<Rightarrow> exn + 'a \<times> bytes \<Rightarrow> bool" where
  "shrinks n res \<longleftrightarrow> (\<forall>v r. res = Inr (v, r) \<longrightarrow> length r < n)"

lemma shrinks_simps [simp]: "shrinks n (Inl e)" "shrinks n (Inr (v, r)) \<longleftrightarrow> length r < n"
  by (simp_all add: shrinks_def)

lemma shrinks_bind:
  assumes "shrinks k m" "k \<le> n" "\<And>a. m = Inr a \<Longrightarrow> length (snd a) < k \<Longrightarrow> shrinks n (f a)"
  shows "shrinks n (bindE m f)"
  using assms by (cases m) (auto simp: shrinks_def)

lemma shrinks_mono: "shrinks k m \<Longrightarrow> k \<le> n \<Longrightarrow> shrinks n m"
  by (auto simp: shrinks_def)

lemma shrinks_tokens:
  "shrinks (length bs) (string_value bs)" "shrinks (length bs) (number bs)"
  by (auto simp: shrinks_def dest: string_value_rest number_rest)

lemma shrinks_word: "word \<noteq> [] \<Longrightarrow> shrinks (length bs) (bindE (expect word bs) (\<lambda>r. Inr (v, r)))"
  by (auto simp: shrinks_def result_simps dest: expect_rest)

lemma drop_ws_less: "peek (ws bs) = Some b \<Longrightarrow> length (ws bs) - Suc 0 < length bs"
  using ws_length [of bs] by (cases "ws bs") (auto simp: peek_def)

lemma parse_shrinks_dom:
  "value_at_obj_obj_loop_arr_arr_loop_dom (Inl (Inl (d1, b1))) \<Longrightarrow> shrinks (length b1) (value_at d1 b1)"
  "value_at_obj_obj_loop_arr_arr_loop_dom (Inl (Inr (d2, b2))) \<Longrightarrow> shrinks (length b2) (obj d2 b2)"
  "value_at_obj_obj_loop_arr_arr_loop_dom (Inr (Inl (d3, o3, b3))) \<Longrightarrow> shrinks (length b3) (obj_loop d3 o3 b3)"
  "value_at_obj_obj_loop_arr_arr_loop_dom (Inr (Inr (Inl (d4, b4)))) \<Longrightarrow> shrinks (length b4) (arr d4 b4)"
  "value_at_obj_obj_loop_arr_arr_loop_dom (Inr (Inr (Inr (d5, o5, b5)))) \<Longrightarrow> shrinks (length b5) (arr_loop d5 o5 b5)"
proof (induction d1 b1 and d2 b2 and d3 o3 b3 and d4 b4 and d5 o5 b5 rule: value_at_obj_obj_loop_arr_arr_loop.pinduct)
  case (1 depth bs)
  show ?case
  proof (cases bs)
    case Nil
    with 1(1) show ?thesis by (simp add: value_at.psimps)
  next
    case (Cons b r)
    have "shrinks (length bs) (bindE (string_value bs) (\<lambda>(s, r2). Inr (JStr s, r2)))"
      "shrinks (length bs) (bindE (number bs) (\<lambda>(n, r2). Inr (JInt n, r2)))"
      by (rule shrinks_bind [OF shrinks_tokens(1)] shrinks_bind [OF shrinks_tokens(2)]; auto)+
    moreover have "shrinks (length bs) (bindE (expect (lit word) bs) (\<lambda>r. Inr (v, r)))"
      if "word \<noteq> []" for word and v :: json
      using that by (intro shrinks_word) simp
    ultimately show ?thesis
      using 1 Cons by (auto simp: value_at.psimps intro: shrinks_mono)
  qed
next
  case (2 depth bs)
  then show ?case
    using ws_length [of bs] by (auto simp: obj.psimps drop_ws_less intro: shrinks_mono)
next
  case (3 depth out bs)
  have "length r < length bs" if "obj_loop depth out bs = Inr (v, r)" for v r
  proof -
    from that obtain k r1 r2 x r3 b r4 where steps: "string_value (ws bs) = Inr (k, r1)"
        "take_byte (ws r1) = Inr (58, r2)" "value_at (depth + 1) (ws r2) = Inr (x, r3)"
        "k \<notin> set (map fst out)" "take_byte (ws r3) = Inr (b, r4)"
      and fin: "b = 125 \<and> r = r4 \<or> b \<noteq> 125 \<and> b = 44 \<and> obj_loop depth (out @ [(k, x)]) r4 = Inr (v, r)"
      by (auto simp: obj_loop.psimps [OF 3(1)] result_simps split: if_splits)
    have q: "\<not> peek (ws bs) \<noteq> Some 34"
      using that by (auto simp: obj_loop.psimps [OF 3(1)] split: if_splits)
    have "length r3 < length (ws r2)"
      using 3(2) [OF q steps(1)] steps(2,3) by (simp add: shrinks_def)
    moreover have "length r \<le> length r4"
      using 3(3) [of "(k, r1)" "(58, r2)" "(x, r3)" "(b, r4)"] q steps fin
      by (auto simp: shrinks_def intro: less_imp_le)
    ultimately show ?thesis
      using string_value_rest [OF steps(1)] take_byte_rest [OF steps(2)] take_byte_rest [OF steps(5)]
        ws_length [of bs] ws_length [of r1] ws_length [of r2] ws_length [of r3] by linarith
  qed
  then show ?case by (auto simp: shrinks_def)
next
  case (4 depth bs)
  then show ?case
    using ws_length [of bs] by (auto simp: arr.psimps drop_ws_less intro: shrinks_mono)
next
  case (5 depth out bs)
  have "length r < length bs" if "arr_loop depth out bs = Inr (v, r)" for v r
  proof -
    from that obtain x r3 b r4 where steps: "value_at (depth + 1) (ws bs) = Inr (x, r3)"
        "take_byte (ws r3) = Inr (b, r4)"
      and fin: "b = 93 \<and> r = r4 \<or> b \<noteq> 93 \<and> b = 44 \<and> arr_loop depth (out @ [x]) r4 = Inr (v, r)"
      by (auto simp: arr_loop.psimps [OF 5(1)] result_simps split: if_splits)
    have "length r3 < length (ws bs)"
      using 5(2) steps(1) by (simp add: shrinks_def)
    moreover have "length r \<le> length r4"
      using 5(3) [of "(x, r3)" "(b, r4)"] steps fin
      by (auto simp: shrinks_def intro: less_imp_le)
    ultimately show ?thesis
      using take_byte_rest [OF steps(2)] ws_length [of bs] ws_length [of r3] by linarith
  qed
  then show ?case by (auto simp: shrinks_def)
qed

termination value_at
proof (relation "measure (\<lambda>x. case x of
    Inl (Inl (d, bs)) \<Rightarrow> 3 * length bs + 1
  | Inl (Inr (d, bs)) \<Rightarrow> 3 * length bs + 3
  | Inr (Inl (d, out, bs)) \<Rightarrow> 3 * length bs + 2
  | Inr (Inr (Inl (d, bs))) \<Rightarrow> 3 * length bs + 3
  | Inr (Inr (Inr (d, out, bs))) \<Rightarrow> 3 * length bs + 2)", goal_cases)
  case (4 depth bs)
  then show ?case using ws_length [of bs] by simp
next
  case (5 depth out bs ks cr)
  then have "length (snd ks) < length (ws bs)" "length (snd cr) < length (ws (snd ks))"
    by (auto intro: string_value_rest take_byte_rest simp: prod_eq_iff)
  then show ?case
    using ws_length [of bs] ws_length [of "snd ks"] ws_length [of "snd cr"] by simp
next
  case (6 depth out bs ks cr vr br)
  then have "length (snd ks) < length (ws bs)" "length (snd cr) < length (ws (snd ks))"
      "length (snd br) < length (ws (snd vr))"
    by (auto intro: string_value_rest take_byte_rest simp: prod_eq_iff)
  moreover have "length (snd vr) < length (ws (snd cr))"
    using parse_shrinks_dom(1) [OF 6(10)] 6(5) by (cases vr; auto simp: shrinks_def)
  ultimately show ?case
    using ws_length [of bs] ws_length [of "snd ks"] ws_length [of "snd cr"] ws_length [of "snd vr"] by simp
next
  case (7 depth bs)
  then show ?case using ws_length [of bs] by simp
next
  case (8 depth out bs)
  then show ?case using ws_length [of bs] by simp
next
  case (9 depth out bs vr br)
  then have "length (snd br) < length (ws (snd vr))"
    by (auto intro: take_byte_rest simp: prod_eq_iff)
  moreover have "length (snd vr) < length (ws bs)"
    using parse_shrinks_dom(1) [OF 9(5)] 9(1) by (cases vr; auto simp: shrinks_def)
  ultimately show ?case
    using ws_length [of bs] ws_length [of "snd vr"] by simp
qed simp_all

declare value_at.simps [simp del] obj.simps [simp del] obj_loop.simps [simp del]
  arr.simps [simp del] arr_loop.simps [simp del]

definition parse :: "bytes \<Rightarrow> exn + json" where
  "parse bs = bindE (value_at 0 (ws bs)) (\<lambda>vr. if ws (snd vr) \<noteq> [] then fail else Inr (fst vr))"

definition loads :: "bytes \<Rightarrow> exn + json" where
  "loads raw =
    (if take 3 raw = [0xEF, 0xBB, 0xBF] then fail
     else (case utf8_decode raw of Inl _ \<Rightarrow> fail | Inr _ \<Rightarrow> parse raw))"

definition loads_str :: "pystr \<Rightarrow> exn + json" where
  "loads_str text = (case utf8_encode text of Inl _ \<Rightarrow> fail | Inr data \<Rightarrow> loads data)"

section \<open>What the parser returns\<close>

text \<open>The values of the wire profile that fit \<open>k\<close> further levels of nesting.\<close>

function json_ok :: "nat \<Rightarrow> json \<Rightarrow> bool" where
  "json_ok k JNull = True"
| "json_ok k (JBool b) = True"
| "json_ok k (JInt n) = (\<bar>n\<bar> \<le> MAX_JSON_INT)"
| "json_ok k (JStr s) = is_scalar_text s"
| "json_ok k (JArr xs) = (\<forall>x \<in> set xs. 0 < k \<and> json_ok (k - 1) x)"
| "json_ok k (JObj d) =
    (distinct_keys d \<and> (\<forall>kv \<in> set d. is_scalar_text (fst kv) \<and> 0 < k \<and> json_ok (k - 1) (snd kv)))"
  by pat_completeness auto
termination
  by (relation "measure (size \<circ> snd)") (auto dest: json_size_item json_size_elem)

lemma json_ok_mono: "json_ok k v \<Longrightarrow> k \<le> m \<Longrightarrow> json_ok m v"
proof (induction k v arbitrary: m rule: json_ok.induct)
  case (5 k xs)
  show ?case
  proof (clarsimp, intro conjI)
    fix x assume x: "x \<in> set xs"
    then show "0 < m" using 5(2,3) by auto
    show "json_ok (m - Suc 0) x" using 5(1) [OF x, of "m - 1"] 5(2,3) x by auto
  qed
next
  case (6 k d)
  have "json_ok (m - Suc 0) (snd kv)" if "kv \<in> set d" for kv
    using 6(1) [OF that, of "m - 1"] 6(2,3) that by auto
  with 6(2,3) show ?case by auto
qed simp_all

text \<open>The results a call may have, given a predicate on the value and one on the exception.\<close>

definition results :: "('a \<Rightarrow> bool) \<Rightarrow> exn + 'a \<times> bytes \<Rightarrow> bool" where
  "results P res \<longleftrightarrow> (\<forall>v r. res = Inr (v, r) \<longrightarrow> P v) \<and>
     (\<forall>e. res = Inl e \<longrightarrow> e \<in> {Lex INVALID_INPUT, Py Index_Error, Py Value_Error})"

lemma results_simps [simp]:
  "results P fail" "results P (Inl (Py Index_Error))" "results P (Inl (Py Value_Error))"
  "results P (Inr (v, r)) \<longleftrightarrow> P v"
  by (simp_all add: results_def)

lemma results_bind:
  "results Q m \<Longrightarrow> (\<And>a. m = Inr a \<Longrightarrow> Q (fst a) \<Longrightarrow> results P (f a)) \<Longrightarrow> results P (bindE m f)"
  by (cases m) (auto simp: results_def)

lemma results_mono: "results Q m \<Longrightarrow> (\<And>v. Q v \<Longrightarrow> P v) \<Longrightarrow> results P m"
  by (auto simp: results_def)

lemma results_take_byte: "results (\<lambda>_. True) (take_byte bs)"
  by (simp add: take_byte_def split: list.split)

lemma results_number: "results (\<lambda>n. \<bar>n\<bar> \<le> MAX_JSON_INT) (number bs)"
  by (auto simp: number_def number_end_def Let_def)

lemma results_hex4: "results (\<lambda>_. True) (take_hex4 bs)"
  by (simp add: take_hex4_def split: option.split)

lemma results_chr: "results is_code_point (bindE (py_chr cp) (\<lambda>c. Inr (c, r)))"
  by (auto simp: py_chr_def is_code_point_def)

lemma results_u_escape: "results is_code_point (u_escape bs)"
  unfolding u_escape_def
  by (rule results_bind [OF results_hex4])
     (auto simp: results_chr split: prod.split intro!: results_bind [OF results_hex4])

lemma results_utf8_char: "results (list_all is_code_point) (parse_utf8_char b r)"
  by (auto simp: parse_utf8_char_def is_scalar_text_def list_all_iff is_scalar_def
      dest!: utf8_bytes_decode split: option.split sum.split)

lemma results_string_char: "results (list_all is_code_point) (string_char b r)"
proof -
  have "results (list_all is_code_point) (bindE (u_escape r2) (\<lambda>(c, r3). Inr ([c], r3)))" for r2
    by (rule results_bind [OF results_u_escape]) (auto split: prod.split)
  moreover have "is_code_point c" if "simple_escape e = Some c" for e c
    using that by (auto simp: simple_escape_def is_code_point_def split: if_splits)
  ultimately show ?thesis
    by (auto simp: string_char_def results_utf8_char is_code_point_def split: list.split option.split)
qed

lemma results_string_loop:
  "list_all is_code_point out \<Longrightarrow> results (list_all is_code_point) (string_loop bs out)"
proof (induction bs out rule: string_loop.induct)
  case (2 b r out)
  then show ?case
    by (auto simp: string_loop.simps(2) intro!: results_bind [OF results_string_char])
qed simp

lemma results_string:
  assumes "peek bs = Some 0x22"
  shows "results is_scalar_text (string_value bs)"
proof -
  obtain r where "bs = 0x22 # r"
    using assms by (auto simp: peek_def split: list.splits)
  moreover have "results is_scalar_text
      (bindE (string_loop r []) (\<lambda>(s, r2). bindE (check_scalars s) (\<lambda>_. Inr (s, r2))))"
    by (rule results_bind [OF results_string_loop])
       (auto simp: check_scalars_def requireE_def is_scalar_text_def is_scalar_def list_all_iff list_ex_iff
        split: prod.split)
  ultimately show ?thesis
    by (simp add: string_value_def take_byte_def)
qed

lemma json_ok_snoc:
  "json_ok k (JArr (xs @ [x])) \<longleftrightarrow> json_ok k (JArr xs) \<and> 0 < k \<and> json_ok (k - 1) x"
  "json_ok k (JObj (d @ [(key, x)])) \<longleftrightarrow>
     json_ok k (JObj d) \<and> key \<notin> set (map fst d) \<and> is_scalar_text key \<and> 0 < k \<and> json_ok (k - 1) x"
  by (auto simp: distinct_keys_def)

text \<open>A value below \<open>value_at depth\<close> counts against the levels that are left.\<close>

definition levels :: "nat \<Rightarrow> nat" where
  "levels depth = MAX_DEPTH - depth"

lemma parse_results:
  "results (\<lambda>v. d1 \<le> MAX_DEPTH \<and> json_ok (levels d1) v) (value_at d1 b1)"
  "d2 \<le> MAX_DEPTH \<Longrightarrow> results (json_ok (levels d2)) (obj d2 b2)"
  "d3 \<le> MAX_DEPTH \<Longrightarrow> json_ok (levels d3) (JObj o3) \<Longrightarrow> results (json_ok (levels d3)) (obj_loop d3 o3 b3)"
  "d4 \<le> MAX_DEPTH \<Longrightarrow> results (json_ok (levels d4)) (arr d4 b4)"
  "d5 \<le> MAX_DEPTH \<Longrightarrow> json_ok (levels d5) (JArr o5) \<Longrightarrow> results (json_ok (levels d5)) (arr_loop d5 o5 b5)"
proof (induction d1 b1 and d2 b2 and d3 o3 b3 and d4 b4 and d5 o5 b5
    rule: value_at_obj_obj_loop_arr_arr_loop.induct)
  case (1 depth bs)
  let ?P = "\<lambda>v. depth \<le> MAX_DEPTH \<and> json_ok (levels depth) v"
  show ?case
  proof (cases "\<not> MAX_DEPTH < depth \<and> bs \<noteq> []")
    case False
    then show ?thesis by (auto simp: value_at.simps)
  next
    case True
    then obtain b r where bs: "bs = b # r" "\<not> MAX_DEPTH < depth" by (cases bs) auto
    then have "depth \<le> MAX_DEPTH" by simp
    have "results ?P (bindE (string_value bs) (\<lambda>(s, r2). Inr (JStr s, r2)))" if "b = 0x22"
      by (rule results_bind [OF results_string]) (use bs that in \<open>auto simp: peek_def split: prod.split\<close>)
    moreover have "results ?P (bindE (number bs) (\<lambda>(n, r2). Inr (JInt n, r2)))"
      by (rule results_bind [OF results_number]) (use bs in \<open>auto split: prod.split\<close>)
    moreover have "results ?P (bindE (expect (lit ''true'') bs) (\<lambda>r. Inr (JBool True, r)))"
        "results ?P (bindE (expect (lit ''false'') bs) (\<lambda>r. Inr (JBool False, r)))"
        "results ?P (bindE (expect (lit ''null'') bs) (\<lambda>r. Inr (JNull, r)))"
      using \<open>depth \<le> MAX_DEPTH\<close> by (simp_all add: expect_def)
    moreover have "results ?P (obj depth r)" if "b = 123"
      using 1(1) [OF bs(2,1) that \<open>depth \<le> MAX_DEPTH\<close>] \<open>depth \<le> MAX_DEPTH\<close> by (auto intro: results_mono)
    moreover have "results ?P (arr depth r)" if "b = 91"
      using 1(2) [OF bs(2,1) _ that \<open>depth \<le> MAX_DEPTH\<close>] \<open>depth \<le> MAX_DEPTH\<close> that
      by (auto intro: results_mono)
    ultimately show ?thesis
      using bs by (auto simp: value_at.simps [of depth "b # r"])
  qed
next
  case (2 depth bs)
  then show ?case by (simp add: obj.simps distinct_keys_def)
next
  case (3 depth out bs)
  show ?case
  proof (cases "peek (ws bs) = Some 0x22")
    case False
    then show ?thesis by (simp add: obj_loop.simps)
  next
    case True
    then have q: "\<not> peek (ws bs) \<noteq> Some 0x22" by simp
    show ?thesis
      unfolding obj_loop.simps [of depth out bs] if_not_P [OF q]
    proof (rule results_bind [OF results_string [OF True]], rule results_bind [OF results_take_byte],
        simp only: if_not_P if_P split: if_split, intro conjI impI)
      fix ks cr
      assume a: "string_value (ws bs) = Inr ks" "is_scalar_text (fst ks)"
        "take_byte (ws (snd ks)) = Inr cr" "\<not> fst cr \<noteq> 58"
      show "results (json_ok (levels depth)) (bindE (value_at (depth + 1) (ws (snd cr))) (\<lambda>vr.
          if fst ks \<in> set (map fst out) then fail
          else bindE (take_byte (ws (snd vr))) (\<lambda>br.
            if fst br = 0x7D then Inr (JObj (out @ [(fst ks, fst vr)]), snd br)
            else if fst br \<noteq> 0x2C then fail
            else obj_loop depth (out @ [(fst ks, fst vr)]) (snd br))))"
      proof (rule results_bind [OF 3(1) [OF q a(1,3,4)]], simp only: split: if_split, intro conjI impI,
          simp, rule results_bind [OF results_take_byte])
        fix vr br
        assume b: "value_at (depth + 1) (ws (snd cr)) = Inr vr" "fst ks \<notin> set (map fst out)"
          "depth + 1 \<le> MAX_DEPTH \<and> json_ok (levels (depth + 1)) (fst vr)"
          "take_byte (ws (snd vr)) = Inr br"
        then have "json_ok (levels depth) (JObj (out @ [(fst ks, fst vr)]))"
          using 3(4) a(2) by (auto simp: json_ok_snoc levels_def simp del: json_ok.simps)
        then show "results (json_ok (levels depth))
          (if fst br = 0x7D then Inr (JObj (out @ [(fst ks, fst vr)]), snd br)
          else if fst br \<noteq> 0x2C then fail
          else obj_loop depth (out @ [(fst ks, fst vr)]) (snd br))"
          using 3(2) [OF q a(1,3,4) b(1,2,4)] 3(3) by simp
      qed
    qed simp
  qed
next
  case (4 depth bs)
  then show ?case by (simp add: arr.simps)
next
  case (5 depth out bs)
  show ?case
    unfolding arr_loop.simps [of depth out bs]
  proof (rule results_bind [OF 5(1)], rule results_bind [OF results_take_byte])
    fix vr br
    assume a: "value_at (depth + 1) (ws bs) = Inr vr" "take_byte (ws (snd vr)) = Inr br"
      "depth + 1 \<le> MAX_DEPTH \<and> json_ok (levels (depth + 1)) (fst vr)"
    then have "json_ok (levels depth) (JArr (out @ [fst vr]))"
      using 5(4) by (auto simp: json_ok_snoc levels_def simp del: json_ok.simps)
    then show "results (json_ok (levels depth))
      (if fst br = 0x5D then Inr (JArr (out @ [fst vr]), snd br)
      else if fst br \<noteq> 0x2C then fail
      else arr_loop depth (out @ [fst vr]) (snd br))"
      using 5(2) [OF a(1,2)] 5(3) by simp
  qed
qed

text \<open>What the parser accepts is in the wire profile; what it raises is one of three exceptions.\<close>

lemma parse_profile: "parse bs = Inr v \<Longrightarrow> json_ok MAX_DEPTH v"
  using parse_results(1) [of 0 "ws bs"]
  by (auto simp: parse_def result_simps results_def levels_def split: if_splits)

lemma loads_profile: "loads bs = Inr v \<Longrightarrow> json_ok MAX_DEPTH v"
  by (auto simp: loads_def parse_profile split: if_splits sum.splits)

lemma loads_errors:
  "loads bs = Inl e \<Longrightarrow> e \<in> {Lex INVALID_INPUT, Py Index_Error, Py Value_Error}"
  using parse_results(1) [of 0 "ws bs"]
  by (auto simp: loads_def parse_def result_simps results_def split: if_splits sum.splits)

section \<open>Properties\<close>

text \<open>The parser fails in three ways only: the documented INVALID_INPUT, an IndexError that escapes when the
  input ends inside an object or array, and a ValueError that escapes from integer conversion.\<close>

theorem loads_exceptions:
  "loads bs \<notin> Inl ` (- {Lex INVALID_INPUT, Py Index_Error, Py Value_Error}) \<and>
   loads (lit ''[1'') = Inl (Py Index_Error)"
proof
  show "loads bs \<notin> Inl ` (- {Lex INVALID_INPUT, Py Index_Error, Py Value_Error})"
    using loads_errors by fastforce
  show "loads (lit ''[1'') = Inl (Py Index_Error)"
    by code_simp
qed

end
