(* ===== verification/JcsRoundtrip.thy ===== *)
theory JcsRoundtrip imports Jcs "HOL-Library.Multiset" begin

text \<open>
  The serializer and the parser of \<open>src/lexwatt/jcs.py\<close> against each other: every value of the wire
  profile serializes, parses back to the same value with its keys in canonical order, and two
  values with the same bytes are the same up to key order. Since UTF-16 keys are injective on
  scalar texts, the order in which a dict was built does not matter either.
\<close>

section \<open>Values in canonical key order\<close>

function canon :: "json \<Rightarrow> json" where
  "canon JNull = JNull"
| "canon (JBool b) = JBool b"
| "canon (JInt n) = JInt n"
| "canon (JStr s) = JStr s"
| "canon (JArr xs) = JArr (map (\<lambda>x. canon x) xs)"
| "canon (JObj d) = JObj (map (\<lambda>kv. (fst kv, canon (snd kv))) (sorted_items d))"
  by pat_completeness auto
termination
  by (relation "measure size") (auto dest: json_size_item json_size_elem)

section \<open>Characters and strings\<close>

lemma utf8_char_ascii [simp]: "c < 128 \<Longrightarrow> utf8_char c = [c]"
  by (simp add: utf8_char_def)

lemma take_hex4_control:
  assumes "c < 32"
  shows "take_hex4 (drop 2 (u_escape_text c) @ r) = Inr (int c, r)"
proof -
  let ?q = "c div 16" and ?m = "c mod 16"
  have small: "?q < 2" "?m < 16"
    using assms by (simp_all add: less_mult_imp_div_less)
  have val: "hex_val (hex_digit n) = Some n \<and> \<not> is_c_space (hex_digit n) \<and> hex_digit n \<noteq> 95 \<and> hex_digit n < 128" if "n < 16" for n
    using that by (auto simp: hex_digit_def hex_val_def is_c_space_def)
  have esc: "drop 2 (u_escape_text c) = [48, 48, 48 + ?q, hex_digit ?m]"
    using assms small by (simp add: u_escape_text_def hex_digit_def)
  have "strip_c_space (drop 2 (u_escape_text c)) = drop 2 (u_escape_text c)"
    using val [OF small(2)] by (simp add: esc strip_c_space_def is_c_space_def)
  then have "py_int16 (drop 2 (u_escape_text c)) = Some (int (?q * 16 + ?m))"
    using val [OF small(2)] small(1) by (simp add: py_int16_def esc hex_prefix_def lit_def hex_val_def)
  then have "py_int16 (drop 2 (u_escape_text c)) = Some (int c)"
    by (simp only: div_mult_mod_eq)
  moreover have "list_all (\<lambda>b. b < 128) (drop 2 (u_escape_text c))" "length (drop 2 (u_escape_text c)) = 4"
    using small(1) val [OF small(2)] by (simp_all add: esc)
  ultimately show ?thesis
    by (auto simp: take_hex4_def list_all_iff list_ex_iff not_less)
qed

lemma u_escape_control: "c < 32 \<Longrightarrow> u_escape (drop 2 (u_escape_text c) @ r) = Inr (c, r)"
  by (simp add: u_escape_def take_hex4_control py_chr_def)

lemma parse_utf8_char_wide:
  assumes "is_scalar c" "128 \<le> c" "utf8_char c = b # bs"
  shows "parse_utf8_char b (bs @ r) = Inr ([c], r)" "128 \<le> b"
proof -
  have dec: "utf8_decode (b # bs) = Inr [c]"
    using utf8_decode_bytes [of "[c]"] assms by simp
  have "utf8_need b = Some (length bs)" "128 \<le> b"
    using assms by (auto simp: utf8_char_def utf8_need_def is_scalar_def is_code_point_def split: if_splits)
  then show "parse_utf8_char b (bs @ r) = Inr ([c], r)" "128 \<le> b"
    using dec by (simp_all add: parse_utf8_char_def)
qed

lemma string_loop_char:
  assumes "is_scalar c" "escape_char c = Inr t"
  shows "string_loop (utf8_bytes t @ r) out = string_loop r (out @ [c])"
proof -
  consider (quote) "c = 34 \<or> c = 92 \<or> c = 8 \<or> c = 12 \<or> c = 10 \<or> c = 13 \<or> c = 9"
    | (control) "c < 32" "t = u_escape_text c" | (plain) "32 \<le> c" "c < 128" "c \<noteq> 34" "c \<noteq> 92" "t = [c]"
    | (wide) "128 \<le> c" "t = [c]"
    using assms by (force simp: escape_char_def split: if_splits)
  then show ?thesis
  proof cases
    case quote
    then show ?thesis
      using assms(2) by (auto simp: escape_char_def string_loop.simps(2) string_char_def simple_escape_def)
  next
    case control
    have "utf8_bytes t = 92 # 117 # drop 2 (u_escape_text c)"
      using control by (subst utf8_bytes_ascii) (auto simp: u_escape_text_def hex_digit_def)
    then show ?thesis
      using u_escape_control [OF control(1), of r]
      by (simp add: string_loop.simps(2) string_char_def simple_escape_def)
  next
    case plain
    then show ?thesis by (simp add: string_loop.simps(2) string_char_def)
  next
    case wide
    obtain b bs where u: "utf8_char c = b # bs" by (cases "utf8_char c") auto
    then show ?thesis
      using parse_utf8_char_wide [OF assms(1) wide(1) u] wide
      by (simp add: string_loop.simps(2) string_char_def)
  qed
qed

lemma string_loop_text:
  "is_scalar_text s \<Longrightarrow> mapE escape_char s = Inr cs \<Longrightarrow>
   string_loop (utf8_bytes (concat cs) @ r) out = string_loop r (out @ s)"
proof (induction s arbitrary: cs out)
  case (Cons c s)
  then obtain t ts where "escape_char c = Inr t" "mapE escape_char s = Inr ts" "cs = t # ts"
    by (auto simp: result_simps)
  with Cons.prems Cons.IH [of ts "out @ [c]"] string_loop_char [of c t] show ?case
    by simp
qed simp

lemma escape_string_parse:
  assumes "is_scalar_text s" "escape_string s = Inr t"
  shows "string_value (utf8_bytes t @ r) = Inr (s, r)" "take 1 (utf8_bytes t) = [34]"
proof -
  obtain cs where cs: "mapE escape_char s = Inr cs" "t = [34] @ concat cs @ [34]"
    using assms(2) by (auto simp: escape_string_def result_simps)
  have "string_loop (utf8_bytes (concat cs) @ 34 # r) [] = Inr (s, r)"
    using string_loop_text [OF assms(1) cs(1)] by (simp add: string_loop.simps(2))
  moreover have "\<not> list_ex is_surrogate s"
    using assms(1) by (auto simp: is_scalar_text_def list_all_iff list_ex_iff is_scalar_def)
  ultimately show "string_value (utf8_bytes t @ r) = Inr (s, r)" "take 1 (utf8_bytes t) = [34]"
    by (simp_all add: cs(2) string_value_def take_byte_def check_scalars_def)
qed

lemma escape_char_total: "is_scalar c \<Longrightarrow> \<exists>t. escape_char c = Inr t \<and> is_scalar_text t"
  by (auto simp: escape_char_def u_escape_text_def hex_digit_def is_scalar_def is_code_point_def
      is_surrogate_def)

lemma escape_string_total:
  assumes "is_scalar_text s"
  shows "\<exists>t. escape_string s = Inr t \<and> is_scalar_text t"
proof -
  have "\<exists>cs. mapE escape_char s = Inr cs \<and> is_scalar_text (concat cs)"
    using assms
  proof (induction s)
    case (Cons c s)
    then show ?case using escape_char_total [of c] by (fastforce simp: result_simps)
  qed simp
  then show ?thesis
    by (auto simp: escape_string_def is_scalar_def is_code_point_def is_surrogate_def)
qed

section \<open>Numbers\<close>

text \<open>What follows a number must not continue it; commas and brackets do not.\<close>

definition follow :: "bytes \<Rightarrow> bool" where
  "follow r \<longleftrightarrow> \<not> digit_next r \<and> peek r \<notin> {Some 46, Some 101, Some 69}"

lemma follow_simps [simp]: "follow []" "follow (44 # r)" "follow (93 # r)" "follow (125 # r)"
  by (simp_all add: follow_def digit_next_def peek_def is_digit_def)

lemma dec_str_less_10: "n < 10 \<Longrightarrow> dec_str n = [48 + n]"
  by (simp add: dec_str.simps)

lemma number_digits:
  assumes "follow r" "int n \<le> MAX_JSON_INT" "peek bs = Some 45 \<longleftrightarrow> neg" "bs = (if neg then 45 # dec_str n @ r else dec_str n @ r)"
  shows "number bs = Inr (if neg then - int n else int n, r)"
proof -
  have rest: "(if neg then drop 1 bs else bs) = dec_str n @ r"
    using assms(4) by simp
  have "n < 10 ^ 10"
    using assms(2) by (simp add: MAX_JSON_INT_def)
  then have len: "length (dec_str n) \<le> INT_MAX_STR_DIGITS"
    using dec_str_length_le [of n 10] by (simp add: INT_MAX_STR_DIGITS_def)
  have tw: "takeWhile is_digit (dec_str n @ r) = dec_str n" "dropWhile is_digit (dec_str n @ r) = r"
    using dec_str_digits [of n] assms(1)
    by (cases r; simp add: list_all_iff takeWhile_append2 dropWhile_append2 follow_def digit_next_def peek_def)+
  obtain c cs where c: "dec_str n = c # cs" by (cases "dec_str n") auto
  then have "is_digit c" using dec_str_digits [of n] by simp
  then have dn: "digit_next (dec_str n @ r)" by (simp add: c digit_next_def peek_def)
  have fin: "number_end neg (dec_str n) r = Inr (if neg then - int n else int n, r)"
    using assms(1,2) len by (simp add: number_end_def follow_def)
  show ?thesis
  proof (cases "n = 0")
    case True
    then show ?thesis
      using assms(1,3) fin by (simp add: number_def rest Let_def peek_def follow_def)
  next
    case False
    then have "peek (dec_str n @ r) \<noteq> Some 48"
      using dec_str_hd [of n] by (simp add: c peek_def)
    then show ?thesis
      using assms(3) fin dn by (simp add: number_def rest Let_def tw)
  qed
qed

lemma py_str_int_parse:
  assumes "py_str_int n = Inr t" "\<bar>n\<bar> \<le> MAX_JSON_INT" "follow r"
  shows "number (t @ r) = Inr (n, r)" "utf8_bytes t = t"
proof -
  obtain c cs where c: "dec_str (nat \<bar>n\<bar>) = c # cs" "is_digit c"
    using dec_str_digits [of "nat \<bar>n\<bar>"] by (cases "dec_str (nat \<bar>n\<bar>)") auto
  have t: "t = (if n < 0 then 45 # dec_str (nat \<bar>n\<bar>) else dec_str (nat \<bar>n\<bar>))"
    using assms(1) by (auto simp: py_str_int_def Let_def split: if_splits)
  show "number (t @ r) = Inr (n, r)"
    using number_digits [OF assms(3), of "nat \<bar>n\<bar>" "t @ r" "n < 0"] assms(2) c
    by (auto simp: t peek_def is_digit_def)
  show "utf8_bytes t = t"
    using dec_str_digits [of "nat \<bar>n\<bar>"]
    by (intro utf8_bytes_ascii) (auto simp: t is_digit_def list_all_iff split: if_splits)
qed

lemma digits_head: "list_all is_digit ds \<Longrightarrow> ds \<noteq> [] \<Longrightarrow> \<exists>c cs. ds = c # cs \<and> is_digit c"
  by (cases ds) auto

lemma py_str_int_head:
  assumes "py_str_int n = Inr t"
  shows "\<exists>c cs. t = c # cs \<and> (c = 45 \<or> is_digit c)"
proof -
  have "t = dec_str (nat \<bar>n\<bar>) \<or> t = 45 # dec_str (nat \<bar>n\<bar>)"
    using assms by (auto simp: py_str_int_def Let_def split: if_splits)
  then show ?thesis
    using digits_head [OF dec_str_digits dec_str_not_Nil, of "nat \<bar>n\<bar>"] by auto
qed

lemma py_str_int_total:
  assumes "\<bar>n\<bar> \<le> MAX_JSON_INT"
  shows "\<exists>t. py_str_int n = Inr t \<and> is_scalar_text t"
proof -
  have "nat \<bar>n\<bar> < 10 ^ 10"
    using assms by (simp add: MAX_JSON_INT_def)
  then have "length (dec_str (nat \<bar>n\<bar>)) \<le> INT_MAX_STR_DIGITS"
    using dec_str_length_le [of "nat \<bar>n\<bar>" 10] by (simp add: INT_MAX_STR_DIGITS_def)
  moreover have "is_scalar_text (dec_str (nat \<bar>n\<bar>))"
    using dec_str_digits [of "nat \<bar>n\<bar>"]
    by (auto simp: is_scalar_text_def list_all_iff is_digit_def is_scalar_def is_code_point_def is_surrogate_def)
  ultimately show ?thesis
    by (auto simp: py_str_int_def Let_def is_scalar_def is_code_point_def is_surrogate_def)
qed

section \<open>Arrays and objects\<close>

lemma ws_id: "bs = [] \<or> \<not> is_ws (hd bs) \<Longrightarrow> ws bs = bs"
  by (cases bs) (simp_all add: ws_def)

lemma ws_punct [simp]:
  "ws (44 # r) = 44 # r" "ws (93 # r) = 93 # r" "ws (125 # r) = 125 # r" "ws (58 # r) = 58 # r"
  "ws (34 # r) = 34 # r" "ws [] = []"
  by (simp_all add: ws_id is_ws_def)

text \<open>The bytes \<open>p\<close> stand for the value \<open>x\<close> wherever a value is read at \<open>depth\<close>.\<close>

definition reads_as :: "nat \<Rightarrow> bytes \<Rightarrow> json \<Rightarrow> bool" where
  "reads_as depth p x \<longleftrightarrow> p \<noteq> [] \<and> \<not> is_ws (hd p) \<and>
     (\<forall>r. follow r \<longrightarrow> value_at depth (p @ r) = Inr (x, r))"

lemma reads_asD:
  "reads_as depth p x \<Longrightarrow> follow r \<Longrightarrow> value_at depth (p @ r) = Inr (x, r)"
  "reads_as depth p x \<Longrightarrow> ws (p @ r) = p @ r"
  by (auto simp: reads_as_def intro!: ws_id)

lemma ascii_utf8 [simp]: "c < 128 \<Longrightarrow> utf8_bytes (c # s) = c # utf8_bytes s"
  by simp

lemma arr_loop_reads:
  assumes "list_all2 (\<lambda>p x. reads_as (depth + 1) (utf8_bytes p) x) ps xs" "ps \<noteq> []"
  shows "arr_loop depth out (utf8_bytes (join_comma ps) @ 93 # r) = Inr (JArr (out @ xs), r)"
  using assms
proof (induction ps arbitrary: xs out rule: join_comma.induct)
  case (2 p)
  then obtain x where "xs = [x]" "reads_as (depth + 1) (utf8_bytes p) x"
    by (auto simp: list_all2_Cons1)
  then show ?case
    by (subst arr_loop.simps) (simp add: reads_asD take_byte_def)
next
  case (3 p q ps)
  then obtain x xs' where "xs = x # xs'" and x: "reads_as (depth + 1) (utf8_bytes p) x"
      and "list_all2 (\<lambda>p x. reads_as (depth + 1) (utf8_bytes p) x) (q # ps) xs'"
    by (auto simp: list_all2_Cons1)
  then have "arr_loop depth (out @ [x]) (utf8_bytes (join_comma (q # ps)) @ 93 # r) = Inr (JArr (out @ xs), r)"
    using "3.IH" [of xs' "out @ [x]"] by simp
  then show ?case
    using reads_asD [OF x] by (subst arr_loop.simps) (simp add: take_byte_def)
qed simp

text \<open>The text of one item: an escaped key, a colon and the text of its value.\<close>

definition item_reads_as :: "nat \<Rightarrow> pystr \<Rightarrow> pystr \<times> json \<Rightarrow> bool" where
  "item_reads_as depth p kx \<longleftrightarrow>
     (\<exists>k v. p = k @ [58] @ v \<and> escape_string (fst kx) = Inr k \<and> is_scalar_text (fst kx) \<and>
       reads_as depth (utf8_bytes v) (snd kx))"

lemma item_reads_asE:
  assumes "item_reads_as depth p kx"
  obtains k v where "utf8_bytes p = utf8_bytes k @ 58 # utf8_bytes v" "reads_as depth (utf8_bytes v) (snd kx)"
    "\<And>r. string_value (utf8_bytes k @ r) = Inr (fst kx, r)"
    "\<And>r. peek (utf8_bytes k @ r) = Some 34" "\<And>r. ws (utf8_bytes k @ r) = utf8_bytes k @ r"
proof -
  obtain k v where kv: "p = k @ [58] @ v" "escape_string (fst kx) = Inr k" "is_scalar_text (fst kx)"
      "reads_as depth (utf8_bytes v) (snd kx)"
    using assms by (auto simp: item_reads_as_def)
  obtain ks where "utf8_bytes k = 34 # ks"
    using escape_string_parse(2) [OF kv(3,2)] by (cases "utf8_bytes k") auto
  then show thesis
    using that [of k v] kv(1,4) escape_string_parse(1) [OF kv(3,2)]
    by (simp add: peek_def)
qed

lemma obj_loop_reads:
  assumes "list_all2 (\<lambda>p kx. item_reads_as (depth + 1) p kx) ps kxs" "ps \<noteq> []"
    and "distinct (map fst (out @ kxs))"
  shows "obj_loop depth out (utf8_bytes (join_comma ps) @ 125 # r) = Inr (JObj (out @ kxs), r)"
  using assms
proof (induction ps arbitrary: kxs out rule: join_comma.induct)
  case (2 p)
  then obtain kx where kx: "kxs = [kx]" "item_reads_as (depth + 1) p kx"
    by (auto simp: list_all2_Cons1)
  from kx(2) show ?case
  proof (cases rule: item_reads_asE)
    case (1 k v)
    then show ?thesis
      using reads_asD [OF 1(2)] kx(1) "2.prems"(3)
      by (subst obj_loop.simps) (auto simp: take_byte_def)
  qed
next
  case (3 p q ps)
  then obtain kx kxs' where kx: "kxs = kx # kxs'" "item_reads_as (depth + 1) p kx"
      and "list_all2 (\<lambda>p kx. item_reads_as (depth + 1) p kx) (q # ps) kxs'"
    by (auto simp: list_all2_Cons1)
  then have rest: "obj_loop depth (out @ [kx]) (utf8_bytes (join_comma (q # ps)) @ 125 # r) =
      Inr (JObj (out @ kxs), r)"
    using "3.IH" [of kxs' "out @ [kx]"] "3.prems"(3) by simp
  from kx(2) show ?case
  proof (cases rule: item_reads_asE)
    case (1 k v)
    then show ?thesis
      using reads_asD [OF 1(2)] kx(1) "3.prems"(3) rest
      by (subst obj_loop.simps) (auto simp: take_byte_def)
  qed
qed simp

section \<open>Round trip\<close>

lemma join_comma_scalar: "list_all is_scalar_text ps \<Longrightarrow> is_scalar_text (join_comma ps)"
  by (induction ps rule: join_comma.induct)
     (auto simp: is_scalar_def is_code_point_def is_surrogate_def)

lemma write_json_total: "json_ok k v \<Longrightarrow> \<exists>t. write_json v = Inr t \<and> is_scalar_text t"
proof (induction k v rule: json_ok.induct)
  case (3 k n)
  then show ?case by (simp add: py_str_int_total)
next
  case (4 k s)
  then show ?case by (simp add: escape_string_total)
next
  case (5 k xs)
  have "\<exists>ps. mapE (\<lambda>x. write_json x) xs = Inr ps \<and> list_all is_scalar_text ps"
    by (rule mapE_total) (use 5 in auto)
  then show ?case
    using join_comma_scalar by (auto simp: is_scalar_def is_code_point_def is_surrogate_def)
next
  case (6 k d)
  let ?item = "\<lambda>kv. bindE (escape_string (fst kv)) (\<lambda>k. bindE (write_json (snd kv)) (\<lambda>v. Inr (k @ [58] @ v)))"
  have "\<exists>ps. mapE ?item (sorted_items d) = Inr ps \<and> list_all is_scalar_text ps"
  proof (rule mapE_total)
    fix kv assume "kv \<in> set (sorted_items d)"
    then have kv: "kv \<in> set d" by simp
    obtain t where "escape_string (fst kv) = Inr t" "is_scalar_text t"
      using escape_string_total [of "fst kv"] 6(2) kv by auto
    moreover obtain t' where "write_json (snd kv) = Inr t'" "is_scalar_text t'"
      using 6(1) [OF kv] 6(2) kv by auto
    ultimately show "\<exists>y. ?item kv = Inr y \<and> is_scalar_text y"
      by (simp add: is_scalar_def is_code_point_def is_surrogate_def)
  qed
  then show ?case
    using join_comma_scalar by (auto simp: is_scalar_def is_code_point_def is_surrogate_def)
qed (simp_all add: is_scalar_text_lit)

lemma reads_asI:
  "p \<noteq> [] \<Longrightarrow> \<not> is_ws (hd p) \<Longrightarrow> (\<And>r. follow r \<Longrightarrow> value_at depth (p @ r) = Inr (x, r)) \<Longrightarrow>
   reads_as depth p x"
  by (simp add: reads_as_def)

lemma distinct_sorted_items [simp]: "distinct (map fst (sorted_items d)) \<longleftrightarrow> distinct_keys d"
proof -
  have "mset (map fst (sorted_items d)) = mset (map fst d)"
    by (simp add: sorted_items_def)
  then show ?thesis
    unfolding distinct_keys_def by (rule mset_eq_imp_distinct_iff)
qed

lemma write_json_reads:
  assumes "json_ok (levels depth) v" "depth \<le> MAX_DEPTH" "write_json v = Inr t"
  shows "reads_as depth (utf8_bytes t) (canon v)"
  using assms
proof (induction v arbitrary: depth t rule: canon.induct)
  case 1
  then show ?case
    by (auto simp: reads_as_def value_at.simps lit_def is_ws_def expect_def)
next
  case (2 b)
  then show ?case
    by (cases b) (auto simp: reads_as_def value_at.simps lit_def is_ws_def expect_def)
next
  case (3 n)
  have n: "number (t @ r) = Inr (n, r)" if "follow r" for r
    using py_str_int_parse(1) 3 that by simp
  have t: "utf8_bytes t = t"
    using py_str_int_parse(2) [of n t "[]"] 3 by simp
  obtain c cs where c: "t = c # cs" "c = 45 \<or> is_digit c"
    using py_str_int_head [of n t] 3(3) by auto
  show ?case
    unfolding t canon.simps
  proof (rule reads_asI)
    fix r assume "follow r"
    then have "number (c # cs @ r) = Inr (n, r)" using n c by simp
    moreover have "c \<notin> {123, 91, 34, 116, 102, 110}" using c by (auto simp: is_digit_def)
    ultimately show "value_at depth (t @ r) = Inr (JInt n, r)"
      using c 3(2) by (auto simp: value_at.simps)
  qed (use c in \<open>auto simp: is_ws_def is_digit_def\<close>)
next
  case (4 s)
  then have s: "string_value (utf8_bytes t @ r) = Inr (s, r)" "take 1 (utf8_bytes t) = [34]" for r
    using escape_string_parse [of s t] by simp_all
  then obtain ts where ts: "utf8_bytes t = 34 # ts" by (cases "utf8_bytes t") auto
  show ?case
    unfolding canon.simps
    by (rule reads_asI) (use s(1) 4(2) ts in \<open>simp_all add: value_at.simps is_ws_def\<close>)
next
  case (5 xs)
  obtain ps where ps: "mapE (\<lambda>x. write_json x) xs = Inr ps" "t = [91] @ join_comma ps @ [93]"
    using 5(4) by (auto simp: result_simps)
  have all2: "list_all2 (\<lambda>p x. reads_as (depth + 1) (utf8_bytes p) x) ps (map canon xs)"
    unfolding list_all2_map2
  proof (rule list_all2_all_nthI)
    show "length ps = length xs" using ps(1) by (simp add: mapE_length)
    fix i assume "i < length ps"
    then have "i < length xs" using ps(1) by (simp add: mapE_length)
    moreover have "write_json (xs ! i) = Inr (ps ! i)"
      using ps(1) \<open>i < length xs\<close> by (auto simp: mapE_list_all2 list_all2_conv_all_nth)
    moreover have "depth < MAX_DEPTH \<and> json_ok (MAX_DEPTH - depth - 1) (xs ! i)"
      using 5(2) nth_mem [OF \<open>i < length xs\<close>] unfolding levels_def json_ok.simps by simp
    ultimately show "reads_as (depth + 1) (utf8_bytes (ps ! i)) (canon (xs ! i))"
      by (intro 5(1)) (auto simp: levels_def)
  qed
  have "arr depth (utf8_bytes (join_comma ps) @ 93 # r) = Inr (JArr (map canon xs), r)" for r
  proof (cases "ps = []")
    case True
    then show ?thesis using all2 by (simp add: arr.simps peek_def)
  next
    case False
    then obtain p qs x ys where p: "ps = p # qs" "map canon xs = x # ys" "reads_as (depth + 1) (utf8_bytes p) x"
      using all2 by (cases ps) (auto simp: list_all2_Cons1)
    then obtain c cs where cs: "utf8_bytes p = c # cs" "\<not> is_ws c"
      by (cases "utf8_bytes p") (auto simp: reads_as_def)
    have "c \<noteq> 93"
      using reads_asD(1) [OF p(3), of "[]"] cs(1) by (auto simp: value_at.simps is_digit_def split: if_splits)
    moreover have "\<exists>u. utf8_bytes (join_comma ps) = c # u"
      using p(1) cs(1) by (cases qs) auto
    ultimately show ?thesis
      using arr_loop_reads [OF all2 False, of "[]" r] cs(2) by (auto simp: arr.simps ws_id peek_def)
  qed
  then show ?case
    using 5(3) ps(2) by (auto intro!: reads_asI simp: value_at.simps is_ws_def)
next
  case (6 d)
  let ?item = "\<lambda>kv. bindE (escape_string (fst kv)) (\<lambda>k. bindE (write_json (snd kv)) (\<lambda>v. Inr (k @ [58] @ v)))"
  let ?kxs = "map (\<lambda>kv. (fst kv, canon (snd kv))) (sorted_items d)"
  obtain ps where ps: "mapE ?item (sorted_items d) = Inr ps" "t = [123] @ join_comma ps @ [125]"
    using 6(4) by (auto simp: result_simps)
  have all2: "list_all2 (\<lambda>p kx. item_reads_as (depth + 1) p kx) ps ?kxs"
    unfolding list_all2_map2
  proof (rule list_all2_all_nthI)
    show "length ps = length (sorted_items d)" using ps(1) by (simp add: mapE_length)
    fix i assume "i < length ps"
    then have i: "i < length (sorted_items d)" using ps(1) by (simp add: mapE_length)
    let ?kv = "sorted_items d ! i"
    have kv: "?kv \<in> set d"
      using nth_mem [OF i] by simp
    have "?item ?kv = Inr (ps ! i)"
      using ps(1) i by (auto simp: mapE_list_all2 list_all2_conv_all_nth)
    then obtain k w where kw: "escape_string (fst ?kv) = Inr k" "write_json (snd ?kv) = Inr w" "ps ! i = k @ [58] @ w"
      by (auto simp: result_simps)
    have "reads_as (depth + 1) (utf8_bytes w) (canon (snd ?kv))"
      by (rule 6(1)) (use 6(2) kv kw(2) in \<open>auto simp: levels_def\<close>)
    then show "item_reads_as (depth + 1) (ps ! i) (fst ?kv, canon (snd ?kv))"
      using kw(1,3) 6(2) kv by (auto simp: item_reads_as_def)
  qed
  have keys: "distinct (map fst ?kxs)"
    using 6(2) by (simp add: comp_def)
  have "obj depth (utf8_bytes (join_comma ps) @ 125 # r) = Inr (JObj ?kxs, r)" for r
  proof (cases "ps = []")
    case True
    then show ?thesis using all2 by (simp add: obj.simps peek_def)
  next
    case False
    then obtain p qs kx ys where p: "ps = p # qs" "?kxs = kx # ys" "item_reads_as (depth + 1) p kx"
      using all2 by (cases ps) (auto simp: list_all2_Cons1)
    obtain u where "utf8_bytes p = 34 # u"
      using p(3)
    proof (cases rule: item_reads_asE)
      case (1 k v)
      then show ?thesis
        using that 1(4) [of "58 # utf8_bytes v"]
        by (cases "utf8_bytes k @ 58 # utf8_bytes v") (simp_all add: peek_def)
    qed
    then have "\<exists>u. utf8_bytes (join_comma ps) = 34 # u"
      using p(1) by (cases qs) auto
    then show ?thesis
      using obj_loop_reads [OF all2 False, of "[]" r] keys by (auto simp: obj.simps peek_def)
  qed
  then show ?case
    using 6(3) ps(2) by (auto intro!: reads_asI simp: value_at.simps is_ws_def)
qed

text \<open>The bytes of a value of the profile, and the profile in canonical key order.\<close>

definition dumps_bytes :: "json \<Rightarrow> bytes" where
  "dumps_bytes v = (case dumps v of Inl _ \<Rightarrow> [] | Inr b \<Rightarrow> b)"

lemma dumps_total:
  assumes "json_ok k v"
  obtains t where "write_json v = Inr t" "is_scalar_text t" "dumps v = Inr (utf8_bytes t)"
  using write_json_total [OF assms] that by (auto simp: dumps_def utf8_encode_scalar)

lemma dumps_bytes_ok: "json_ok k v \<Longrightarrow> dumps v = Inr (dumps_bytes v)"
  by (auto simp: dumps_bytes_def elim: dumps_total)

lemma loads_dumps:
  assumes "json_ok MAX_DEPTH v"
  shows "loads (dumps_bytes v) = Inr (canon v)"
proof -
  obtain t where t: "write_json v = Inr t" "is_scalar_text t" "dumps v = Inr (utf8_bytes t)"
    using assms by (rule dumps_total)
  have r: "reads_as 0 (utf8_bytes t) (canon v)"
    using write_json_reads [of 0 v t] assms t(1) by (simp add: levels_def)
  have val: "value_at 0 (utf8_bytes t) = Inr (canon v, [])" and "ws (utf8_bytes t) = utf8_bytes t"
    using reads_asD(1) [OF r, of "[]"] reads_asD(2) [OF r, of "[]"] by simp_all
  then have "parse (utf8_bytes t) = Inr (canon v)"
    by (simp add: parse_def)
  moreover have "take 3 (utf8_bytes t) \<noteq> [0xEF, 0xBB, 0xBF]"
    using val by (cases "utf8_bytes t") (auto simp: value_at.simps is_digit_def)
  ultimately show ?thesis
    using t by (simp add: dumps_bytes_def loads_def utf8_decode_bytes)
qed

section \<open>Canonical form\<close>

lemma sorted_items_sorted: "sorted (map (\<lambda>kv. utf16_key (fst kv)) d) \<Longrightarrow> sorted_items d = d"
  by (simp add: sorted_items_def sort_key_id_if_sorted)

lemma canon_canon [simp]: "canon (canon v) = canon v"
proof (induction v rule: canon.induct)
  case (6 d)
  let ?e = "map (\<lambda>kv. (fst kv, canon (snd kv))) (sorted_items d)"
  have "sorted_items ?e = ?e"
    by (rule sorted_items_sorted) (simp add: comp_def sorted_items_def)
  then show ?case
    using 6 by simp
qed simp_all

lemma json_ok_canon: "json_ok k v \<Longrightarrow> json_ok k (canon v)"
proof (induction k v rule: json_ok.induct)
  case (6 k d)
  then have "distinct_keys (map (\<lambda>kv. (fst kv, canon (snd kv))) (sorted_items d))"
    using distinct_sorted_items [of d] by (simp add: distinct_keys_def comp_def)
  with 6 show ?case by auto
qed auto

lemma mapE_cong_result: "(\<And>x. x \<in> set xs \<Longrightarrow> f x = g x) \<Longrightarrow> mapE f xs = mapE g xs"
  by (rule mapE_cong) simp_all

lemma mapE_map: "mapE f (map h xs) = mapE (\<lambda>x. f (h x)) xs"
  by (induction xs) simp_all

lemma write_json_canon: "write_json (canon v) = write_json v"
proof (induction v rule: canon.induct)
  case (5 xs)
  then have "mapE (\<lambda>x. write_json x) (map canon xs) = mapE (\<lambda>x. write_json x) xs"
    unfolding mapE_map by (intro mapE_cong_result)
  then show ?case by simp
next
  case (6 d)
  let ?e = "map (\<lambda>kv. (fst kv, canon (snd kv))) (sorted_items d)"
  let ?item = "\<lambda>kv. bindE (escape_string (fst kv)) (\<lambda>k. bindE (write_json (snd kv)) (\<lambda>v. Inr (k @ [58] @ v)))"
  have e: "sorted_items ?e = ?e"
    by (rule sorted_items_sorted) (simp add: comp_def sorted_items_def)
  have "mapE ?item ?e = mapE ?item (sorted_items d)"
    unfolding mapE_map by (rule mapE_cong_result) (use 6 in simp)
  then show ?case by (simp only: canon.simps write_json.simps e)
qed simp_all

interpretation jcs: codec dumps_bytes loads "\<lambda>v. json_ok MAX_DEPTH v \<and> canon v = v"
  by unfold_locales (simp add: loads_dumps)

text \<open>Equal bytes mean equal values up to key order.\<close>

lemma dumps_bytes_eq_iff:
  assumes "json_ok MAX_DEPTH v" "json_ok MAX_DEPTH w"
  shows "dumps_bytes v = dumps_bytes w \<longleftrightarrow> canon v = canon w"
proof
  assume "dumps_bytes v = dumps_bytes w"
  then show "canon v = canon w"
    using loads_dumps [OF assms(1)] loads_dumps [OF assms(2)] by simp
next
  assume "canon v = canon w"
  then have "write_json v = write_json w"
    by (metis write_json_canon)
  then show "dumps_bytes v = dumps_bytes w"
    by (simp add: dumps_bytes_def dumps_def)
qed

section \<open>Key order\<close>

text \<open>The UTF-16 code is prefix free on scalar values, so the sort key determines the text.\<close>

lemma utf16_units_astral:
  assumes "65536 \<le> c"
  obtains m where "utf16_units c = [55296 + m div 1024, 56320 + m mod 1024]" "c = 65536 + m"
  using assms that [of "c - 65536"] by (simp add: utf16_units_def)

lemma utf16_units_inject:
  assumes "is_scalar c" "is_scalar d" "utf16_units c @ x = utf16_units d @ y"
  shows "c = d \<and> x = y"
proof (cases "c < 65536"; cases "d < 65536")
  assume "c < 65536" "d < 65536"
  then show ?thesis using assms(3) by (simp add: utf16_units_def)
next
  assume cd: "c < 65536" "\<not> d < 65536"
  obtain m where m: "utf16_units d = [55296 + m div 1024, 56320 + m mod 1024]" "d = 65536 + m"
    using cd(2) by (auto intro: utf16_units_astral [of d])
  then have "m < 1048576" using assms(2) by (simp add: is_scalar_def is_code_point_def)
  then have "m div 1024 < 1024" by (simp add: less_mult_imp_div_less)
  moreover have "c = 55296 + m div 1024" using assms(3) cd(1) m(1) by (simp add: utf16_units_def)
  ultimately have "is_surrogate c" by (simp add: is_surrogate_def)
  then show ?thesis using assms(1) by (simp add: is_scalar_def)
next
  assume cd: "\<not> c < 65536" "d < 65536"
  obtain m where m: "utf16_units c = [55296 + m div 1024, 56320 + m mod 1024]" "c = 65536 + m"
    using cd(1) by (auto intro: utf16_units_astral [of c])
  then have "m < 1048576" using assms(1) by (simp add: is_scalar_def is_code_point_def)
  then have "m div 1024 < 1024" by (simp add: less_mult_imp_div_less)
  moreover have "d = 55296 + m div 1024" using assms(3) cd(2) m(1) by (simp add: utf16_units_def)
  ultimately have "is_surrogate d" by (simp add: is_surrogate_def)
  then show ?thesis using assms(2) by (simp add: is_scalar_def)
next
  assume cd: "\<not> c < 65536" "\<not> d < 65536"
  obtain m where m: "utf16_units c = [55296 + m div 1024, 56320 + m mod 1024]" "c = 65536 + m"
    using cd(1) by (auto intro: utf16_units_astral [of c])
  obtain n where n: "utf16_units d = [55296 + n div 1024, 56320 + n mod 1024]" "d = 65536 + n"
    using cd(2) by (auto intro: utf16_units_astral [of d])
  have "m div 1024 = n div 1024" "m mod 1024 = n mod 1024" "x = y"
    using assms(3) m(1) n(1) by simp_all
  then show ?thesis
    using m(2) n(2) by (metis div_mult_mod_eq)
qed

lemma utf16_units_not_Nil: "utf16_units c \<noteq> []"
  by (simp add: utf16_units_def)

lemma utf16_concat_inject:
  "is_scalar_text s \<Longrightarrow> is_scalar_text t \<Longrightarrow>
   concat (map utf16_units s) = concat (map utf16_units t) \<Longrightarrow> s = t"
proof (induction s arbitrary: t)
  case Nil
  then show ?case by (cases t) (simp_all add: utf16_units_not_Nil)
next
  case (Cons c s)
  have "t \<noteq> []" using Cons.prems(3) by (auto simp: utf16_units_not_Nil)
  then obtain d t' where t: "t = d # t'" by (meson list.exhaust)
  have "c = d \<and> concat (map utf16_units s) = concat (map utf16_units t')"
    by (rule utf16_units_inject) (use Cons.prems t in simp_all)
  then show ?case using Cons.IH [of t'] Cons.prems(1,2) t by simp
qed

lemma unit_bytes_inject:
  "concat (map (\<lambda>u. [u div 256, u mod 256]) us) = concat (map (\<lambda>u. [u div 256, u mod 256]) vs)
   \<Longrightarrow> us = (vs :: nat list)"
proof (induction us arbitrary: vs)
  case Nil
  then show ?case by (cases vs) simp_all
next
  case (Cons u us)
  have "vs \<noteq> []" using Cons.prems by auto
  then obtain v vs' where v: "vs = v # vs'" by (meson list.exhaust)
  have eq: "u div 256 = v div 256" "u mod 256 = v mod 256" using Cons.prems unfolding v by simp_all
  have "u = v" using div_mult_mod_eq [of u 256] div_mult_mod_eq [of v 256] unfolding eq by simp
  moreover have "us = vs'" using Cons.prems unfolding v by (intro Cons.IH) simp
  ultimately show ?case by (simp add: v)
qed

lemma utf16_key_inject:
  assumes "is_scalar_text s" "is_scalar_text t"
  shows "utf16_key s = utf16_key t \<longleftrightarrow> s = t"
  using utf16_concat_inject [OF assms] unit_bytes_inject unfolding utf16_key_def by blast

text \<open>Two dicts with the same items, in whatever insertion order, have the same canonical form.\<close>

lemma key_inj_on:
  assumes "distinct_keys d" "\<And>kv. kv \<in> set d \<Longrightarrow> is_scalar_text (fst kv)"
  shows "inj_on (\<lambda>kv. utf16_key (fst kv)) (set d)"
proof (rule inj_onI)
  fix a b assume ab: "a \<in> set d" "b \<in> set d" "utf16_key (fst a) = utf16_key (fst b)"
  then have "fst a = fst b" using assms(2) by (simp add: utf16_key_inject)
  moreover have "inj_on fst (set d)"
    using assms(1) by (simp add: distinct_keys_def distinct_map)
  ultimately show "a = b"
    using ab(1,2) by (simp add: inj_onD)
qed

lemma sorted_items_perm:
  assumes "mset d = mset e" "distinct_keys d" "\<And>kv. kv \<in> set d \<Longrightarrow> is_scalar_text (fst kv)"
  shows "sorted_items d = sorted_items e"
proof (rule map_sorted_distinct_set_unique)
  let ?f = "\<lambda>kv :: pystr \<times> 'a. utf16_key (fst kv)"
  have set_eq: "set e = set d" using assms(1) by (metis set_mset_mset)
  have "distinct d" using assms(2) by (simp add: distinct_keys_def distinct_map)
  then have "distinct e" using assms(1) by (metis mset_eq_imp_distinct_iff)
  have inj: "inj_on ?f (set d)" using assms(2,3) by (rule key_inj_on)
  then show "inj_on ?f (set (sorted_items d) \<union> set (sorted_items e))" by (simp add: set_eq)
  show "distinct (map ?f (sorted_items d))" "distinct (map ?f (sorted_items e))"
    using inj \<open>distinct d\<close> \<open>distinct e\<close> by (simp_all add: distinct_map set_eq sorted_items_def)
qed (use assms(1) in \<open>simp_all add: sorted_items_def flip: set_mset_mset\<close>)

lemma dumps_key_order:
  assumes "json_ok MAX_DEPTH (JObj d)" "mset d = mset e"
  shows "dumps (JObj e) = dumps (JObj d)"
proof -
  have "sorted_items d = sorted_items e"
    using assms by (intro sorted_items_perm) auto
  then show ?thesis by (simp add: dumps_def)
qed

section \<open>Properties\<close>

text \<open>C15: serialising a value of the wire profile (integers within 2^31 - 1, scalar text, distinct keys, nesting at
  most 32) succeeds, and reading the bytes back gives the value with its keys in canonical order.\<close>

theorem loads_after_dumps:
  assumes "json_ok MAX_DEPTH v"
  shows "\<exists>b. dumps v = Inr b \<and> loads b = Inr (canon v) \<and> dumps (canon v) = Inr b"
proof -
  have "dumps (canon v) = dumps v" by (simp add: dumps_def write_json_canon)
  then show ?thesis
    using dumps_bytes_ok [OF assms] loads_dumps [OF assms] by auto
qed

theorem loads_after_dumps_witness:
  "\<exists>b. dumps (JObj [(lit ''b'', JInt 1), (lit ''a'', JNull)]) = Inr b \<and>
     loads b = Inr (canon (JObj [(lit ''b'', JInt 1), (lit ''a'', JNull)]))"
proof -
  have "json_ok MAX_DEPTH (JObj [(lit ''b'', JInt 1), (lit ''a'', JNull)])"
    by (simp add: distinct_keys_def MAX_DEPTH_def MAX_JSON_INT_def)
  then show ?thesis using loads_after_dumps by blast
qed

text \<open>The canonical form identifies values up to the order of their keys and nothing else: two values have
  the same bytes exactly when their canonical forms agree, and permuting the items of an object changes nothing.\<close>

theorem dumps_identifies_up_to_key_order:
  assumes "json_ok MAX_DEPTH v" "json_ok MAX_DEPTH w"
  shows "(dumps v = dumps w \<longleftrightarrow> canon v = canon w) \<and>
    (\<forall>d e. v = JObj d \<and> mset e = mset d \<longrightarrow> dumps (JObj e) = dumps v)"
proof
  show "dumps v = dumps w \<longleftrightarrow> canon v = canon w"
    using dumps_bytes_eq_iff [OF assms] dumps_bytes_ok [OF assms(1)] dumps_bytes_ok [OF assms(2)] by simp
  show "\<forall>d e. v = JObj d \<and> mset e = mset d \<longrightarrow> dumps (JObj e) = dumps v"
  proof (intro allI impI)
    fix d e assume *: "v = JObj d \<and> mset e = mset d"
    then have v: "v = JObj d" by (rule conjunct1)
    show "dumps (JObj e) = dumps v"
      unfolding v by (rule dumps_key_order [OF assms(1) [unfolded v] conjunct2 [OF *, symmetric]])
  qed
qed

theorem dumps_identifies_up_to_key_order_witness:
  "dumps (JObj [(lit ''a'', JNull), (lit ''b'', JInt 1)]) = dumps (JObj [(lit ''b'', JInt 1), (lit ''a'', JNull)])"
proof -
  have ok: "json_ok MAX_DEPTH (JObj [(lit ''b'', JInt 1), (lit ''a'', JNull)])"
    by (simp add: distinct_keys_def MAX_DEPTH_def MAX_JSON_INT_def)
  have "mset [(lit ''a'', JNull), (lit ''b'', JInt 1)] = mset [(lit ''b'', JInt 1), (lit ''a'', JNull)]"
    by (simp add: add_mset_commute)
  then show ?thesis
    using conjunct2 [OF dumps_identifies_up_to_key_order [OF ok ok]] by blast
qed

text \<open>Whatever bytes the parser accepts are a value of the wire profile, so it can be serialised again, and the
  canonical bytes are a fixed point of reading and writing.\<close>

theorem accepted_bytes_normalise:
  assumes "loads bs = Inr v"
  shows "json_ok MAX_DEPTH v \<and> (\<exists>b. dumps v = Inr b \<and> (\<exists>w. loads b = Inr w \<and> dumps w = Inr b))"
proof -
  have ok: "json_ok MAX_DEPTH v" using assms by (rule loads_profile)
  have "dumps (canon v) = dumps v" by (simp add: dumps_def write_json_canon)
  then show ?thesis
    using ok dumps_bytes_ok [OF ok] loads_dumps [OF ok] by auto
qed

theorem accepted_bytes_normalise_witness:
  "loads (lit ''[1, true]'') = Inr (JArr [JInt 1, JBool True]) \<and>
   (\<exists>b. dumps (JArr [JInt 1, JBool True]) = Inr b \<and> (\<exists>w. loads b = Inr w \<and> dumps w = Inr b))"
proof -
  have p: "loads (lit ''[1, true]'') = Inr (JArr [JInt 1, JBool True])" by code_simp
  then show ?thesis using accepted_bytes_normalise [OF p] by simp
qed

end
