(* ===== verification/Sha256.thy ===== *)
theory Sha256 imports Pyvalue "HOL-Library.Word" begin

text \<open>
  \<open>hashlib.sha256(raw)\<close> as FIPS 180-4 defines it, on 32-bit words: padding to 64-byte blocks, the
  message schedule, the 64 rounds and the digest. It is what \<open>src/lexwatt/hashing.py\<close> calls.
\<close>

unbundle bit_operations_syntax

type_synonym w32 = "32 word"

text \<open>The round constants, in decimal.\<close>

definition sha_k :: "w32 list" where
  "sha_k =
    [1116352408, 1899447441, 3049323471, 3921009573, 961987163, 1508970993,
     2453635748, 2870763221, 3624381080, 310598401, 607225278, 1426881987,
     1925078388, 2162078206, 2614888103, 3248222580, 3835390401, 4022224774,
     264347078, 604807628, 770255983, 1249150122, 1555081692, 1996064986,
     2554220882, 2821834349, 2952996808, 3210313671, 3336571891, 3584528711,
     113926993, 338241895, 666307205, 773529912, 1294757372, 1396182291,
     1695183700, 1986661051, 2177026350, 2456956037, 2730485921, 2820302411,
     3259730800, 3345764771, 3516065817, 3600352804, 4094571909, 275423344,
     430227734, 506948616, 659060556, 883997877, 958139571, 1322822218,
     1537002063, 1747873779, 1955562222, 2024104815, 2227730452, 2361852424,
     2428436474, 2756734187, 3204031479, 3329325298]"

record sha_state =
  va :: w32
  vb :: w32
  vc :: w32
  vd :: w32
  ve :: w32
  vf :: w32
  vg :: w32
  vh :: w32

definition sha_h0 :: sha_state where
  "sha_h0 = \<lparr>va = 0x6a09e667, vb = 0xbb67ae85, vc = 0x3c6ef372, vd = 0xa54ff53a,
     ve = 0x510e527f, vf = 0x9b05688c, vg = 0x1f83d9ab, vh = 0x5be0cd19\<rparr>"

section \<open>Padding and words\<close>

text \<open>\<open>n\<close> bytes, most significant first.\<close>

fun be_bytes :: "nat \<Rightarrow> nat \<Rightarrow> bytes" where
  "be_bytes 0 k = []"
| "be_bytes (Suc n) k = be_bytes n (k div 256) @ [k mod 256]"

definition sha_pad :: "bytes \<Rightarrow> bytes" where
  "sha_pad msg = msg @ [128] @ replicate ((119 - length msg mod 64) mod 64) 0 @ be_bytes 8 (8 * length msg)"

fun words_of :: "bytes \<Rightarrow> w32 list" where
  "words_of (a # b # c # d # r) =
    word_of_nat (((a * 256 + b) * 256 + c) * 256 + d) # words_of r"
| "words_of _ = []"

function blocks_of :: "w32 list \<Rightarrow> w32 list list" where
  "blocks_of ws = (if length ws < 16 then [] else take 16 ws # blocks_of (drop 16 ws))"
  by pat_completeness auto
termination
  by (relation "measure length") auto

declare blocks_of.simps [simp del]

section \<open>Compression\<close>

definition rotr :: "nat \<Rightarrow> w32 \<Rightarrow> w32" where "rotr n x = drop_bit n x OR push_bit (32 - n) x"

definition small_sigma0 :: "w32 \<Rightarrow> w32" where
  "small_sigma0 x = rotr 7 x XOR rotr 18 x XOR drop_bit 3 x"
definition small_sigma1 :: "w32 \<Rightarrow> w32" where
  "small_sigma1 x = rotr 17 x XOR rotr 19 x XOR drop_bit 10 x"
definition big_sigma0 :: "w32 \<Rightarrow> w32" where "big_sigma0 x = rotr 2 x XOR rotr 13 x XOR rotr 22 x"
definition big_sigma1 :: "w32 \<Rightarrow> w32" where "big_sigma1 x = rotr 6 x XOR rotr 11 x XOR rotr 25 x"
definition sha_ch :: "w32 \<Rightarrow> w32 \<Rightarrow> w32 \<Rightarrow> w32" where "sha_ch x y z = (x AND y) XOR (NOT x AND z)"
definition sha_maj :: "w32 \<Rightarrow> w32 \<Rightarrow> w32 \<Rightarrow> w32" where
  "sha_maj x y z = (x AND y) XOR (x AND z) XOR (y AND z)"

text \<open>\<open>n\<close> further words of the schedule.\<close>

fun sha_schedule :: "nat \<Rightarrow> w32 list \<Rightarrow> w32 list" where
  "sha_schedule 0 w = w"
| "sha_schedule (Suc n) w =
    (let t = length w
     in sha_schedule n (w @ [small_sigma1 (w ! (t - 2)) + w ! (t - 7) + small_sigma0 (w ! (t - 15)) + w ! (t - 16)]))"

definition sha_round :: "sha_state \<Rightarrow> w32 \<times> w32 \<Rightarrow> sha_state" where
  "sha_round s kw =
    (let t1 = vh s + big_sigma1 (ve s) + sha_ch (ve s) (vf s) (vg s) + fst kw + snd kw;
         t2 = big_sigma0 (va s) + sha_maj (va s) (vb s) (vc s)
     in \<lparr>va = t1 + t2, vb = va s, vc = vb s, vd = vc s, ve = vd s + t1, vf = ve s, vg = vf s, vh = vg s\<rparr>)"

definition sha_compress :: "sha_state \<Rightarrow> w32 list \<Rightarrow> sha_state" where
  "sha_compress s block =
    (let r = foldl sha_round s (zip sha_k (sha_schedule 48 block))
     in \<lparr>va = va s + va r, vb = vb s + vb r, vc = vc s + vc r, vd = vd s + vd r,
         ve = ve s + ve r, vf = vf s + vf r, vg = vg s + vg r, vh = vh s + vh r\<rparr>)"

definition sha256 :: "bytes \<Rightarrow> bytes" where
  "sha256 msg =
    (let s = foldl sha_compress sha_h0 (blocks_of (words_of (sha_pad msg)))
     in concat (map (\<lambda>w. be_bytes 4 (unat w)) [va s, vb s, vc s, vd s, ve s, vf s, vg s, vh s]))"

text \<open>\<open>bytes.hex()\<close>\<close>

definition hex_nibble :: "nat \<Rightarrow> nat" where
  "hex_nibble n = (if n < 10 then 48 + n else 87 + n)"

definition hex_of :: "bytes \<Rightarrow> pystr" where
  "hex_of bs = concat (map (\<lambda>b. [hex_nibble (b div 16), hex_nibble (b mod 16)]) bs)"

section \<open>Facts\<close>

lemma length_be_bytes [simp]: "length (be_bytes n k) = n"
  by (induction n arbitrary: k) simp_all

lemma is_bytes_be_bytes [simp]: "is_bytes (be_bytes n k)"
  by (induction n arbitrary: k) simp_all

lemma length_sha256 [simp]: "length (sha256 m) = 32"
  by (simp add: sha256_def Let_def)

lemma is_bytes_sha256 [simp]: "is_bytes (sha256 m)"
  by (simp add: sha256_def Let_def)

lemma sha_pad_blocks: "length (sha_pad m) mod 64 = 0"
proof -
  define k where "k = length m mod 64"
  have "k < 64" by (simp add: k_def)
  have "(k + 1 + (119 - k) mod 64 + 8) mod 64 = 0"
  proof (cases "k \<le> 55")
    case True
    then have "(119 - k) mod 64 = 55 - k" using mod_add_self1 [of 64 "55 - k"] by simp
    then show ?thesis using True by simp
  next
    case False
    with \<open>k < 64\<close> show ?thesis by simp
  qed
  then have "(length m + 1 + (119 - k) mod 64 + 8) mod 64 = 0"
    using mod_add_left_eq [of "length m" 64 "1 + (119 - k) mod 64 + 8"] by (simp add: k_def ac_simps)
  then show ?thesis by (simp add: sha_pad_def k_def ac_simps)
qed

lemma length_hex_of [simp]: "length (hex_of bs) = 2 * length bs"
  by (induction bs) (simp_all add: hex_of_def)

lemma hex_nibble_inject: "m < 16 \<Longrightarrow> n < 16 \<Longrightarrow> hex_nibble m = hex_nibble n \<longleftrightarrow> m = n"
  by (auto simp: hex_nibble_def)

lemma hex_of_inject: "is_bytes a \<Longrightarrow> is_bytes b \<Longrightarrow> hex_of a = hex_of b \<longleftrightarrow> a = b"
proof (induction a arbitrary: b)
  case Nil
  then show ?case by (cases b) (auto simp: hex_of_def)
next
  case (Cons x a)
  show ?case
  proof (cases b)
    case Nil
    then show ?thesis by (simp add: hex_of_def)
  next
    case (Cons y c)
    have x: "x div 16 < 16" "y div 16 < 16" "x mod 16 < 16" "y mod 16 < 16"
      using Cons.prems Cons by (simp_all add: less_mult_imp_div_less)
    have "x = y \<longleftrightarrow> x div 16 = y div 16 \<and> x mod 16 = y mod 16"
      by (metis div_mult_mod_eq)
    then show ?thesis
      using Cons.IH [of c] Cons.prems Cons x by (auto simp: hex_of_def hex_nibble_inject)
  qed
qed

end
