(* ===== verification/Hashing.thy ===== *)
theory Hashing imports JcsRoundtrip Sha256 Scalars begin

text \<open>
  Models \<open>src/lexwatt/hashing.py\<close>: the domain-separated digests and the messages that are signed.
  A digest raises whatever \<open>jcs.dumps\<close> raises. Results: the digested bytes determine both the
  label and the value (up to key order), so two digests that agree agree on both unless SHA-256
  itself collides on the two inputs; a digest is always text that \<open>check_hash\<close> accepts; and the
  signed messages of the two signing domains never coincide.
\<close>

definition D_CONFIG :: pystr where "D_CONFIG = lit ''LEXWATT-CONFIG/1''"
definition D_ACTION :: pystr where "D_ACTION = lit ''LEXWATT-ACTION/1''"
definition D_EVENT :: pystr where "D_EVENT = lit ''LEXWATT-EVENT/1''"
definition D_REQUEST :: pystr where "D_REQUEST = lit ''LEXWATT-REQUEST/1''"
definition SIGN_EVENT :: pystr where "SIGN_EVENT = lit ''LEXWATT-SIGN/1''"
definition SIGN_TOKEN :: pystr where "SIGN_TOKEN = lit ''LEXWATT-TOKEN/1''"

definition sha256_hex :: "bytes \<Rightarrow> pystr" where
  "sha256_hex raw = hex_of (sha256 raw)"

text \<open>Named \<open>digest\<close> for the function \<open>d\<close>.\<close>

definition digest :: "pystr \<Rightarrow> json \<Rightarrow> exn + pystr" where
  "digest label v =
    bindE (utf8_encode label) (\<lambda>l. bindE (dumps v) (\<lambda>b. Inr (sha256_hex (l @ [0] @ b))))"

definition event_hash :: "json \<Rightarrow> exn + pystr" where "event_hash body = digest D_EVENT body"
definition action_hash :: "json \<Rightarrow> exn + pystr" where "action_hash action = digest D_ACTION action"
definition config_hash :: "json \<Rightarrow> exn + pystr" where "config_hash config = digest D_CONFIG config"

definition request_digest :: "pystr \<Rightarrow> json \<Rightarrow> exn + pystr" where
  "request_digest method params =
    digest D_REQUEST (JObj [(lit ''method'', JStr method), (lit ''params'', params)])"

text \<open>\<open>bytes.fromhex\<close>: ASCII white space between bytes is skipped, either case is read.\<close>

fun fromhex :: "pystr \<Rightarrow> exn + bytes" where
  "fromhex [] = Inr []"
| "fromhex (a # r) =
    (if is_c_space a then fromhex r
     else (case r of
         [] \<Rightarrow> Inl (Py Value_Error)
       | b # r2 \<Rightarrow>
           (case (hex_val a, hex_val b) of
              (Some x, Some y) \<Rightarrow> bindE (fromhex r2) (\<lambda>bs. Inr ((x * 16 + y) # bs))
            | _ \<Rightarrow> Inl (Py Value_Error))))"

definition event_sign_message :: "pystr \<Rightarrow> exn + bytes" where
  "event_sign_message event_hash_hex =
    bindE (utf8_encode SIGN_EVENT) (\<lambda>l. bindE (fromhex event_hash_hex) (\<lambda>b. Inr (l @ [0] @ b)))"

definition token_sign_message :: "json \<Rightarrow> exn + bytes" where
  "token_sign_message token_body =
    bindE (utf8_encode SIGN_TOKEN) (\<lambda>l. bindE (dumps token_body) (\<lambda>b. Inr (l @ [0] @ b)))"

section \<open>Digested bytes\<close>

lemmas label_defs = D_CONFIG_def D_ACTION_def D_EVENT_def D_REQUEST_def SIGN_EVENT_def SIGN_TOKEN_def

text \<open>The labels are ASCII text without the separator.\<close>

definition is_label :: "pystr \<Rightarrow> bool" where
  "is_label l \<longleftrightarrow> (\<forall>c \<in> set l. 0 < c \<and> c < 128)"

lemma labels [simp]:
  "is_label D_CONFIG" "is_label D_ACTION" "is_label D_EVENT" "is_label D_REQUEST"
  "is_label SIGN_EVENT" "is_label SIGN_TOKEN"
  by (simp_all add: is_label_def label_defs lit_def)

lemma label_utf8 [simp]: "is_label l \<Longrightarrow> utf8_encode l = Inr l"
proof -
  assume "is_label l"
  then have "is_scalar_text l" "utf8_bytes l = l"
    by (auto simp: is_label_def is_scalar_text_def list_all_iff is_scalar_def is_code_point_def
        is_surrogate_def intro: utf8_bytes_ascii)
  then show ?thesis by (simp add: utf8_encode_scalar)
qed

definition preimage :: "pystr \<Rightarrow> json \<Rightarrow> bytes" where
  "preimage label v = label @ [0] @ dumps_bytes v"

lemma digest_preimage:
  "is_label l \<Longrightarrow> json_ok k v \<Longrightarrow> digest l v = Inr (sha256_hex (preimage l v))"
  by (simp add: digest_def dumps_bytes_ok preimage_def)

lemma separator_unique:
  "0 \<notin> set a \<Longrightarrow> 0 \<notin> set b \<Longrightarrow> a @ [0] @ x = b @ [0] @ y \<longleftrightarrow> a = b \<and> x = (y :: nat list)"
proof (induction a arbitrary: b)
  case Nil
  then show ?case by (cases b) auto
next
  case (Cons c a)
  then show ?case by (cases b) auto
qed

lemma label_no_separator [simp]: "is_label l \<Longrightarrow> 0 \<notin> set l"
  by (auto simp: is_label_def)

lemma preimage_inject:
  assumes "is_label l" "is_label m" "json_ok MAX_DEPTH v" "json_ok MAX_DEPTH w"
  shows "preimage l v = preimage m w \<longleftrightarrow> l = m \<and> canon v = canon w"
  unfolding preimage_def
  using assms by (simp only: separator_unique label_no_separator not_False_eq_True dumps_bytes_eq_iff)

lemma sha256_hex_inject: "sha256_hex a = sha256_hex b \<longleftrightarrow> sha256 a = sha256 b"
  by (simp add: sha256_hex_def hex_of_inject)

text \<open>Equal digests come from equal labels and equal values, or from a collision of SHA-256.\<close>

lemma digest_binding:
  assumes "is_label l" "is_label m" "json_ok MAX_DEPTH v" "json_ok MAX_DEPTH w"
    and "digest l v = digest m w"
  shows "l = m \<and> canon v = canon w \<or>
    (preimage l v \<noteq> preimage m w \<and> sha256 (preimage l v) = sha256 (preimage m w))"
  using assms digest_preimage [OF assms(1,3)] digest_preimage [OF assms(2,4)]
  by (auto simp: sha256_hex_inject preimage_inject)

lemma digest_canon: "json_ok k v \<Longrightarrow> digest l (canon v) = digest l v"
  by (simp add: digest_def dumps_def write_json_canon)

section \<open>Shape of digests and messages\<close>

lemma hex_nibble_lower: "n < 16 \<Longrightarrow> is_hex_lower (hex_nibble n)"
  by (auto simp: hex_nibble_def is_hex_lower_def is_digit_def)

lemma hex_of_lower: "is_bytes bs \<Longrightarrow> list_all is_hex_lower (hex_of bs)"
  by (induction bs) (auto simp: hex_of_def hex_nibble_lower less_mult_imp_div_less)

lemma digest_shape: "digest l v = Inr h \<Longrightarrow> length h = 64 \<and> list_all is_hex_lower h"
  by (auto simp: digest_def result_simps sha256_hex_def hex_of_lower)

lemma hex_val_nibble: "n < 16 \<Longrightarrow> hex_val (hex_nibble n) = Some n \<and> \<not> is_c_space (hex_nibble n)"
  by (auto simp: hex_val_def hex_nibble_def is_c_space_def)

lemma fromhex_hex_of: "is_bytes bs \<Longrightarrow> fromhex (hex_of bs) = Inr bs"
proof (induction bs)
  case (Cons b bs)
  then have "b div 16 < 16" "b mod 16 < 16" by (simp_all add: less_mult_imp_div_less)
  then show ?case
    using Cons hex_val_nibble [of "b div 16"] hex_val_nibble [of "b mod 16"]
    by (simp add: hex_of_def)
qed (simp add: hex_of_def)

interpretation hex: codec hex_of fromhex is_bytes
  by unfold_locales (rule fromhex_hex_of)

lemma event_sign_message_hex:
  "is_bytes b \<Longrightarrow> event_sign_message (hex_of b) = Inr (SIGN_EVENT @ [0] @ b)"
  by (simp add: event_sign_message_def fromhex_hex_of)

lemma sign_messages_distinct:
  assumes "event_sign_message h = Inr m" "token_sign_message t = Inr m'"
  shows "m \<noteq> m'"
proof -
  obtain x y where "m = SIGN_EVENT @ [0] @ x" "m' = SIGN_TOKEN @ [0] @ y"
    using assms by (auto simp: event_sign_message_def token_sign_message_def result_simps)
  moreover have "SIGN_EVENT \<noteq> SIGN_TOKEN" by (simp add: label_defs)
  ultimately show ?thesis by (metis separator_unique label_no_separator labels(5,6))
qed

section \<open>Properties\<close>

text \<open>C16: digests bind their label and value: if two digests of the protocol agree then the labels agree and the
  values agree up to key order, or the two digested byte strings are an actual SHA-256 collision. A digest is
  always text that the hash validator accepts.\<close>

theorem digest_binds:
  assumes "l \<in> {D_CONFIG, D_ACTION, D_EVENT, D_REQUEST}" "m \<in> {D_CONFIG, D_ACTION, D_EVENT, D_REQUEST}"
    and "json_ok MAX_DEPTH v" "json_ok MAX_DEPTH w"
  shows "\<exists>h. digest l v = Inr h \<and> check_hash (JStr h) = Inr h \<and>
    (digest m w = Inr h \<longrightarrow> l = m \<and> canon v = canon w \<or>
       (\<exists>x y. x \<noteq> y \<and> sha256 x = sha256 y \<and> (\<exists>b. dumps v = Inr b \<and> x = l @ [0] @ b) \<and>
          (\<exists>b. dumps w = Inr b \<and> y = m @ [0] @ b)))"
proof -
  have lm: "is_label l" "is_label m" using assms(1,2) by auto
  let ?h = "sha256_hex (preimage l v)"
  have h: "digest l v = Inr ?h" using lm(1) assms(3) by (rule digest_preimage)
  have "check_hash (JStr ?h) = Inr ?h"
    using digest_shape [OF h] by (simp add: check_hash_def dollar_def hash_re_def)
  moreover have "l = m \<and> canon v = canon w \<or>
      (preimage l v \<noteq> preimage m w \<and> sha256 (preimage l v) = sha256 (preimage m w))" if "digest m w = Inr ?h"
    using that h lm assms(3,4) by (intro digest_binding) auto
  ultimately show ?thesis
    using h dumps_bytes_ok [OF assms(3)] dumps_bytes_ok [OF assms(4)] unfolding preimage_def by blast
qed

theorem digest_binds_witness:
  "\<exists>h. digest D_ACTION JNull = Inr h \<and> check_hash (JStr h) = Inr h"
  using digest_binds [of D_ACTION D_EVENT JNull JNull] by auto

text \<open>No signature can be moved between the two signing domains: the message signed for an event never equals
  the message signed for a token, whatever the event hash and the token body.\<close>

theorem signing_domains_disjoint:
  assumes "event_sign_message h = Inr m" "token_sign_message t = Inr m'"
  shows "m \<noteq> m'"
  using assms by (rule sign_messages_distinct)

theorem signing_domains_disjoint_witness:
  "\<exists>m m'. event_sign_message (hex_of [1, 2]) = Inr m \<and> token_sign_message JNull = Inr m' \<and> m \<noteq> m'"
proof -
  have "event_sign_message (hex_of [1, 2]) = Inr (SIGN_EVENT @ [0, 1, 2])"
    by (simp add: event_sign_message_hex)
  moreover have "token_sign_message JNull = Inr (SIGN_TOKEN @ [0] @ dumps_bytes JNull)"
    using dumps_bytes_ok [of 0 JNull] by (simp add: token_sign_message_def)
  ultimately show ?thesis using signing_domains_disjoint by blast
qed

end
