(* ===== verification/IpaddrRoundtrip.thy ===== *)
theory IpaddrRoundtrip imports Ipaddr begin

text \<open>
  An address is read back from its text: \<open>ip_address (ip_str i) = i\<close> for every IPv4 and IPv6 address with any zone, and what
  \<open>ip_address\<close> returns is such an address. The text of an IPv6 address leaves out one run of zero groups, so the proof follows
  the loop that finds it.
\<close>

section \<open>Hexadecimal groups\<close>

lemma hex_char_val: "d < 16 \<Longrightarrow> hex_digit_val (hex_char d) = Some d"
  by (auto simp: hex_digit_val_def hex_char_def)

lemma hex_str_small: "n < 16 \<Longrightarrow> hex_str n = [hex_char n]"
  by (simp add: hex_str.simps)

lemma hex_str_value: "foldl (\<lambda>a c. a * 16 + the (hex_digit_val c)) 0 (hex_str n) = n"
proof (induction n rule: hex_str.induct)
  case (1 n)
  then show ?case by (subst hex_str.simps) (simp add: hex_char_val)
qed

lemma hex_str_chars: "c \<in> set (hex_str n) \<Longrightarrow> \<exists>d < 16. c = hex_char d"
proof (induction n rule: hex_str.induct)
  case (1 n)
  then show ?case by (cases "n < 16") (auto simp: hex_str.simps [of n] intro: exI [of _ "n mod 16"])
qed

lemma hex_str_length: "n < 16 ^ Suc k \<Longrightarrow> length (hex_str n) \<le> Suc k"
proof (induction k arbitrary: n)
  case (Suc k)
  have "n div 16 < 16 ^ Suc k" using Suc.prems by (simp add: less_mult_imp_div_less)
  then show ?case using Suc.IH by (subst hex_str.simps) simp
qed (simp add: hex_str_small)

lemma hex_str_not_Nil [simp]: "hex_str n \<noteq> []"
  by (simp add: hex_str.simps)

lemma parse_hextet_str: "h < 65536 \<Longrightarrow> parse_hextet (hex_str h) = Some h"
proof -
  assume h: "h < 65536"
  then have "length (hex_str h) \<le> 4" using hex_str_length [of h 3] by simp
  moreover have "\<not> list_ex (\<lambda>c. hex_digit_val c = None) (hex_str h)"
    using hex_str_chars hex_char_val by (fastforce simp: list_ex_iff)
  ultimately show ?thesis by (simp add: parse_hextet_def hex_str_value)
qed

lemma hex_str_plain: "58 \<notin> set (hex_str n)" "46 \<notin> set (hex_str n)" "47 \<notin> set (hex_str n)" "37 \<notin> set (hex_str n)"
  by (auto dest!: hex_str_chars simp: hex_char_def split: if_splits)

lemma hex_str_zero: "hex_str n = [48] \<longleftrightarrow> n = 0"
proof
  assume "hex_str n = [48]"
  then show "n = 0" using hex_str_value [of n] by (simp add: hex_digit_val_def)
qed (simp add: hex_str_small hex_char_def)

section \<open>The run of zeros\<close>

definition zeros :: "pystr list \<Rightarrow> nat \<times> nat \<Rightarrow> bool" where
  "zeros hs r \<longleftrightarrow> fst r + snd r \<le> length hs \<and> (\<forall>i. fst r \<le> i \<and> i < fst r + snd r \<longrightarrow> hs ! i = [48])"

lemma zero_run_zeros:
  assumes "zeros hs best" "zeros hs (if run = 0 then (0, 0) else (start, run))" "run \<noteq> 0 \<longrightarrow> start + run = i" "hs = past @ rest" "length past = i"
  shows "zeros hs (zero_run i rest start run best)"
  using assms
proof (induction i rest start run best arbitrary: past rule: zero_run.induct)
  case (2 i h hs' start run best)
  have at: "hs ! i = h" "i < length hs" "hs = (past @ [h]) @ hs'" "length (past @ [h]) = i + 1" using 2(6,7) by (simp_all add: nth_append)
  show ?case
  proof (cases "h = [48]")
    case True
    let ?s = "if run = 0 then i else start"
    have z: "zeros hs (?s, run + 1)" using 2(4,5) at True by (auto simp: zeros_def less_Suc_eq split: if_splits)
    have "zeros hs (if run + 1 > snd best then (?s, run + 1) else best)" using z 2(3) by simp
    from 2(1) [OF True refl this _ _ at(3,4)] z 2(5) show ?thesis by (simp add: True Let_def)
  next
    case False
    from 2(2) [OF False 2(3) _ _ at(3,4)] False show ?thesis by (simp add: zeros_def)
  qed
qed simp

section \<open>Reading back\<close>

text \<open>The 28 places where a run can stand.\<close>

lemma run_places:
  assumes "s + r \<le> 8" "1 < (r :: nat)"
  shows "(s, r) \<in> {(0, 2), (0, 3), (0, 4), (0, 5), (0, 6), (0, 7), (0, 8), (1, 2), (1, 3), (1, 4), (1, 5), (1, 6), (1, 7), (2, 2), (2, 3),
    (2, 4), (2, 5), (2, 6), (3, 2), (3, 3), (3, 4), (3, 5), (4, 2), (4, 3), (4, 4), (5, 2), (5, 3), (6, 2)}"
proof -
  have "s < 7" "r < 9" using assms by simp_all
  then have "s = 0 \<or> s = 1 \<or> s = 2 \<or> s = 3 \<or> s = 4 \<or> s = 5 \<or> s = 6"
    "r = 2 \<or> r = 3 \<or> r = 4 \<or> r = 5 \<or> r = 6 \<or> r = 7 \<or> r = 8" using assms(2) by linarith+
  then show ?thesis using assms(1) by (elim disjE) simp_all
qed

lemma parts_at:
  assumes "a \<noteq> []" "b \<noteq> []" "c \<noteq> []" "d \<noteq> []" "e \<noteq> []" "f \<noteq> []" "g \<noteq> []" "h \<noteq> []" "parse_hextet w = Some 0"
  shows "ipv6_parts_int [[], [], c, d, e, f, g, h] = hextets_int (map parse_hextet [w, w, c, d, e, f, g, h])"
    "ipv6_parts_int [[], [], d, e, f, g, h] = hextets_int (map parse_hextet [w, w, w, d, e, f, g, h])"
    "ipv6_parts_int [[], [], e, f, g, h] = hextets_int (map parse_hextet [w, w, w, w, e, f, g, h])"
    "ipv6_parts_int [[], [], f, g, h] = hextets_int (map parse_hextet [w, w, w, w, w, f, g, h])"
    "ipv6_parts_int [[], [], g, h] = hextets_int (map parse_hextet [w, w, w, w, w, w, g, h])"
    "ipv6_parts_int [[], [], h] = hextets_int (map parse_hextet [w, w, w, w, w, w, w, h])"
    "ipv6_parts_int [[], [], []] = hextets_int (map parse_hextet [w, w, w, w, w, w, w, w])"
    "ipv6_parts_int [a, [], d, e, f, g, h] = hextets_int (map parse_hextet [a, w, w, d, e, f, g, h])"
    "ipv6_parts_int [a, [], e, f, g, h] = hextets_int (map parse_hextet [a, w, w, w, e, f, g, h])"
    "ipv6_parts_int [a, [], f, g, h] = hextets_int (map parse_hextet [a, w, w, w, w, f, g, h])"
    "ipv6_parts_int [a, [], g, h] = hextets_int (map parse_hextet [a, w, w, w, w, w, g, h])"
    "ipv6_parts_int [a, [], h] = hextets_int (map parse_hextet [a, w, w, w, w, w, w, h])"
    "ipv6_parts_int [a, [], []] = hextets_int (map parse_hextet [a, w, w, w, w, w, w, w])"
    "ipv6_parts_int [a, b, [], e, f, g, h] = hextets_int (map parse_hextet [a, b, w, w, e, f, g, h])"
    "ipv6_parts_int [a, b, [], f, g, h] = hextets_int (map parse_hextet [a, b, w, w, w, f, g, h])"
    "ipv6_parts_int [a, b, [], g, h] = hextets_int (map parse_hextet [a, b, w, w, w, w, g, h])"
    "ipv6_parts_int [a, b, [], h] = hextets_int (map parse_hextet [a, b, w, w, w, w, w, h])"
    "ipv6_parts_int [a, b, [], []] = hextets_int (map parse_hextet [a, b, w, w, w, w, w, w])"
    "ipv6_parts_int [a, b, c, [], f, g, h] = hextets_int (map parse_hextet [a, b, c, w, w, f, g, h])"
    "ipv6_parts_int [a, b, c, [], g, h] = hextets_int (map parse_hextet [a, b, c, w, w, w, g, h])"
    "ipv6_parts_int [a, b, c, [], h] = hextets_int (map parse_hextet [a, b, c, w, w, w, w, h])"
    "ipv6_parts_int [a, b, c, [], []] = hextets_int (map parse_hextet [a, b, c, w, w, w, w, w])"
    "ipv6_parts_int [a, b, c, d, [], g, h] = hextets_int (map parse_hextet [a, b, c, d, w, w, g, h])"
    "ipv6_parts_int [a, b, c, d, [], h] = hextets_int (map parse_hextet [a, b, c, d, w, w, w, h])"
    "ipv6_parts_int [a, b, c, d, [], []] = hextets_int (map parse_hextet [a, b, c, d, w, w, w, w])"
    "ipv6_parts_int [a, b, c, d, e, [], h] = hextets_int (map parse_hextet [a, b, c, d, e, w, w, h])"
    "ipv6_parts_int [a, b, c, d, e, [], []] = hextets_int (map parse_hextet [a, b, c, d, e, w, w, w])"
    "ipv6_parts_int [a, b, c, d, e, f, [], []] = hextets_int (map parse_hextet [a, b, c, d, e, f, w, w])"
  using assms by (simp_all add: ipv6_parts_int_def upt_conv_Cons Let_def eval_nat_numeral)

lemma parts_read_back:
  assumes "hs = [a, b, c, d, e, f, g, h]" "\<forall>x \<in> set hs. x \<noteq> []" "\<forall>i \<in> set [start..<start + run]. hs ! i = w" "parse_hextet w = Some 0"
    and "start + run \<le> 8" "1 < run"
  shows "ipv6_parts_int ((if start = 0 then [[]] else []) @ take start hs @ [[]] @ drop (start + run) hs @ (if start + run = 8 then [[]] else [])) =
    hextets_int (map parse_hextet hs)"
proof -
  have n: "a \<noteq> []" "b \<noteq> []" "c \<noteq> []" "d \<noteq> []" "e \<noteq> []" "f \<noteq> []" "g \<noteq> []" "h \<noteq> []" using assms(2) by (simp_all add: assms(1))
  note eq = parts_at [OF n assms(4)]
  show ?thesis
    using run_places [OF assms(5,6)] assms(3) unfolding assms(1) insert_iff prod.inject empty_iff
    by (elim disjE) (simp_all add: eq upt_rec [of _ "numeral _"] nth_Cons_numeral)
qed

section \<open>The address of the text of an address\<close>

definition hextet :: "nat \<Rightarrow> nat \<Rightarrow> nat" where "hextet v i = v div 65536 ^ (7 - i) mod 65536"

lemma hextets_value:
  assumes "v < 2 ^ 128"
  shows "foldl (\<lambda>a h. a * 65536 + h) 0 (map (hextet v) [0..<8]) = v"
proof -
  have up: "(v div 65536 ^ Suc k) * 65536 + v div 65536 ^ k mod 65536 = v div 65536 ^ k" for k
    by (simp only: power_Suc2 div_mult2_eq div_mult_mod_eq)
  have top: "v div 65536 ^ 7 mod 65536 = v div 65536 ^ 7" using assms by (simp add: less_mult_imp_div_less)
  have "[0..<8] = [0, 1, 2, 3, 4, 5, 6, 7 :: nat]" by (simp add: upt_rec)
  then have "foldl (\<lambda>a h. a * 65536 + h) 0 (map (hextet v) [0..<8]) =
    ((((((v div 65536 ^ 7 * 65536 + v div 65536 ^ 6 mod 65536) * 65536 + v div 65536 ^ 5 mod 65536) * 65536 + v div 65536 ^ 4 mod 65536) * 65536 +
      v div 65536 ^ 3 mod 65536) * 65536 + v div 65536 ^ 2 mod 65536) * 65536 + v div 65536 ^ 1 mod 65536) * 65536 + v div 65536 ^ 0 mod 65536"
    using top by (simp add: hextet_def)
  also have "\<dots> = v"
  proof -
    have u: "v div 65536 ^ 7 * 65536 + v div 65536 ^ 6 mod 65536 = v div 65536 ^ 6" "v div 65536 ^ 6 * 65536 + v div 65536 ^ 5 mod 65536 = v div 65536 ^ 5"
      "v div 65536 ^ 5 * 65536 + v div 65536 ^ 4 mod 65536 = v div 65536 ^ 4" "v div 65536 ^ 4 * 65536 + v div 65536 ^ 3 mod 65536 = v div 65536 ^ 3"
      "v div 65536 ^ 3 * 65536 + v div 65536 ^ 2 mod 65536 = v div 65536 ^ 2"
      using up [of 6] up [of 5] up [of 4] up [of 3] up [of 2] by (simp_all only: Suc_numeral add_num_simps)
    have "v div 65536 ^ 2 * 65536 + v div 65536 ^ 1 mod 65536 = v div 65536 ^ 1" "v div 65536 ^ 1 * 65536 + v div 65536 ^ 0 mod 65536 = v"
      using up [of 1] up [of 0] by (simp_all only: Suc_1 One_nat_def [symmetric] power_0 div_by_1)
    then show ?thesis by (simp only: u)
  qed
  finally show ?thesis .
qed

lemma hextets_some: "hextets_int (map Some ns) = Some (foldl (\<lambda>a h. a * 65536 + h) 0 ns)"
  by (simp add: hextets_int_def foldl_map image_iff)

lemma hextets_read_back: "v < 2 ^ 128 \<Longrightarrow> hextets_int (map parse_hextet (map (\<lambda>i. hex_str (hextet v i)) [0..<8])) = Some v"
proof -
  assume v: "v < 2 ^ 128"
  have "map parse_hextet (map (\<lambda>i. hex_str (hextet v i)) [0..<8]) = map Some (map (hextet v) [0..<8])"
    by (simp add: parse_hextet_str hextet_def)
  then show ?thesis using hextets_some hextets_value [OF v] by metis
qed

text \<open>The parts of the text: the groups, but for the longest run of zeros.\<close>

definition groups :: "nat \<Rightarrow> pystr list" where "groups v = map (\<lambda>i. hex_str (hextet v i)) [0..<8]"

lemma groups_props: "length (groups v) = 8" "x \<in> set (groups v) \<Longrightarrow> x \<noteq> [] \<and> 58 \<notin> set x \<and> 46 \<notin> set x \<and> 47 \<notin> set x \<and> 37 \<notin> set x"
  by (auto simp: groups_def hex_str_plain)

lemma compressed_cases:
  obtains "compress_hextets (groups v) = groups v"
  | start run where "zeros (groups v) (start, run)" "1 < run" "compress_hextets (groups v) =
      (if start = 0 then [[]] else []) @ take start (groups v) @ [[]] @ drop (start + run) (groups v) @ (if start + run = 8 then [[]] else [])"
proof -
  obtain start run where z: "zero_run 0 (groups v) 0 0 (0, 0) = (start, run)" by (cases "zero_run 0 (groups v) 0 0 (0, 0)")
  have zs: "zeros (groups v) (start, run)"
    using zero_run_zeros [of "groups v" "(0, 0)" 0 0 0 "[]" "groups v"] by (simp add: z) (simp add: zeros_def)
  show thesis
  proof (cases "run > 1")
    case False
    then show thesis using that(1) z by (simp add: compress_hextets_def)
  next
    case True
    have "start + run \<le> 8" using zs by (simp add: zeros_def groups_props)
    then have "compress_hextets (groups v) =
      (if start = 0 then [[]] else []) @ take start (groups v) @ [[]] @ drop (start + run) (groups v) @ (if start + run = 8 then [[]] else [])"
      using True z by (simp add: compress_hextets_def groups_props Let_def)
    then show thesis using that(2) zs True by blast
  qed
qed

lemma eight: "length hs = 8 \<Longrightarrow> \<exists>a b c d e f g h. hs = [a, b, c, d, e, f, g, h]"
  by (auto simp: length_Suc_conv eval_nat_numeral)

lemma whole_parts:
  assumes "length hs = 8" "\<forall>x \<in> set hs. x \<noteq> []"
  shows "ipv6_parts_int hs = hextets_int (map parse_hextet hs)"
proof -
  obtain a b c d e f g h where "hs = [a, b, c, d, e, f, g, h]" using eight [OF assms(1)] by blast
  then show ?thesis using assms(2) by (simp add: ipv6_parts_int_def upt_conv_Cons Let_def eval_nat_numeral)
qed

lemma compressed_read_back:
  assumes "v < 2 ^ 128"
  shows "ipv6_parts_int (compress_hextets (groups v)) = Some v"
proof -
  have whole: "hextets_int (map parse_hextet (groups v)) = Some v" using hextets_read_back [OF assms] by (simp add: groups_def)
  have ne: "\<forall>x \<in> set (groups v). x \<noteq> []" using groups_props(2) by blast
  show ?thesis
  proof (cases rule: compressed_cases [of v])
    case 1
    then show ?thesis using whole_parts [OF groups_props(1) ne] whole by simp
  next
    case (2 start run)
    obtain a b c d e f g h where hs: "groups v = [a, b, c, d, e, f, g, h]" using eight [OF groups_props(1)] by blast
    have "\<forall>i \<in> set [start..<start + run]. groups v ! i = [48]" "start + run \<le> 8" using 2(1) by (auto simp: zeros_def groups_props)
    moreover have "parse_hextet [48] = Some 0" by (simp add: parse_hextet_def hex_digit_val_def)
    ultimately show ?thesis using parts_read_back [OF hs ne _ _ _ 2(2)] whole unfolding 2(3) by metis
  qed
qed

lemma compressed_parts:
  "3 \<le> length (compress_hextets (groups v))"
  "x \<in> set (compress_hextets (groups v)) \<Longrightarrow> 58 \<notin> set x \<and> 46 \<notin> set x \<and> 47 \<notin> set x \<and> 37 \<notin> set x"
proof -
  show "3 \<le> length (compress_hextets (groups v))"
  proof (cases rule: compressed_cases [of v])
    case (2 start run)
    then show ?thesis unfolding 2(3) by (auto simp: zeros_def groups_props min_def)
  qed (simp add: groups_props)
  show "x \<in> set (compress_hextets (groups v)) \<Longrightarrow> 58 \<notin> set x \<and> 46 \<notin> set x \<and> 47 \<notin> set x \<and> 37 \<notin> set x"
    using groups_props(2) by (cases rule: compressed_cases [of v]) (auto split: if_splits dest!: in_set_takeD in_set_dropD)
qed

lemma ipv6_str_groups: "ipv6_str v = join_on 58 (compress_hextets (groups v))"
  by (simp add: ipv6_str_def groups_def hextet_def)

lemma join_chars: "c \<in> set (join_on sep ps) \<Longrightarrow> c = sep \<or> (\<exists>p \<in> set ps. c \<in> set p)"
  by (induction ps rule: join_on.induct) auto

lemma ipv6_str_plain: "46 \<notin> set (ipv6_str v)" "47 \<notin> set (ipv6_str v)" "37 \<notin> set (ipv6_str v)"
  using compressed_parts(2) by (auto simp: ipv6_str_groups dest!: join_chars)

lemma ipv6_str_split: "split_on 58 (ipv6_str v) = compress_hextets (groups v)"
proof (unfold ipv6_str_groups, rule split_join)
  show "compress_hextets (groups v) \<noteq> []" using compressed_parts(1) [of v] by auto
qed (simp add: compressed_parts(2))

lemma ipv6_int_str: "v < 2 ^ 128 \<Longrightarrow> ipv6_int (ipv6_str v) = Some v"
proof -
  assume v: "v < 2 ^ 128"
  have l: "3 \<le> length (split_on 58 (ipv6_str v))" by (simp only: ipv6_str_split compressed_parts)
  then have "ipv6_str v \<noteq> []" by auto
  moreover have "46 \<notin> set (last (split_on 58 (ipv6_str v)))"
    using compressed_parts(2) [OF last_in_set, of v] compressed_parts(1) [of v] by (cases "compress_hextets (groups v) = []") (simp_all add: ipv6_str_split)
  ultimately show ?thesis using l compressed_read_back [OF v] by (simp add: ipv6_int_def ipv6_str_split)
qed

text \<open>The addresses: in range, and with a zone that has no \<open>%\<close> and no \<open>/\<close>.\<close>

fun ip_ok :: "ip \<Rightarrow> bool" where
  "ip_ok (V4 v) \<longleftrightarrow> v < 2 ^ 32"
| "ip_ok (V6 v scope) \<longleftrightarrow> v < 2 ^ 128 \<and> (case scope of None \<Rightarrow> True | Some s \<Rightarrow> s \<noteq> [] \<and> 37 \<notin> set s \<and> 47 \<notin> set s)"

lemma join_has_sep: "2 \<le> length ps \<Longrightarrow> sep \<in> set (join_on sep ps)"
  by (induction ps rule: join_on.induct) auto

lemma split_hd_append: "sep \<notin> set p \<Longrightarrow> split_on sep (p @ s) = (p @ hd (split_on sep s)) # tl (split_on sep s)"
proof (induction p)
  case Nil
  then show ?case by (cases "split_on sep s") auto
qed auto

lemma not_ipv4: "ipv4_int (ipv6_str v @ s) = None"
proof -
  have "58 \<in> set (ipv6_str v)" using compressed_parts(1) [of v] by (simp add: ipv6_str_groups join_has_sep)
  then have "\<not> list_all is_digit (ipv6_str v @ s')" for s' by (auto simp: list_all_iff is_digit_def intro: bexI [of _ 58])
  then have "parse_octet (ipv6_str v @ s') = None" for s' by (simp add: parse_octet_def)
  then show ?thesis by (simp add: ipv4_int_def split_hd_append ipv6_str_plain split: list.split)
qed

lemma no_zone: "takeWhile (\<lambda>c. c \<noteq> 37) (ipv6_str v) = ipv6_str v" "dropWhile (\<lambda>c. c \<noteq> 37) (ipv6_str v) = []"
  "takeWhile (\<lambda>c. c \<noteq> 37) (ipv6_str v @ 37 # s) = ipv6_str v" "dropWhile (\<lambda>c. c \<noteq> 37) (ipv6_str v @ 37 # s) = 37 # s"
  using ipv6_str_plain(3) [of v] by (auto simp: takeWhile_tail dropWhile_append3 takeWhile_eq_all_conv dropWhile_eq_Nil_conv takeWhile_append2)

lemma ip_roundtrip: "ip_ok i \<Longrightarrow> ip_address (ip_str i) = Some i"
proof (cases i)
  case (V6 v scope)
  assume "ip_ok i"
  then have i: "v < 2 ^ 128" "scope = None \<or> (\<exists>s. scope = Some s \<and> s \<noteq> [] \<and> 37 \<notin> set s \<and> 47 \<notin> set s)" using V6 by (auto split: option.splits)
  show ?thesis
    using i(2) not_ipv4 [of v "[]"] not_ipv4 [of v] ipv6_int_str [OF i(1)] ipv6_str_plain(2) [of v]
    by (auto simp: V6 ip_address_def ipv6_address_def no_zone)
qed (simp add: ipv4_roundtrip del: ip_str.simps)

section \<open>What is read is an address\<close>

lemma dec_bytes: "parse_octet s = Some n \<Longrightarrow> n < 256"
  by (auto simp: parse_octet_def split: if_splits)

lemma ipv4_int_bound: "ipv4_int s = Some v \<Longrightarrow> v < 2 ^ 32"
proof -
  assume "ipv4_int s = Some v"
  then obtain a b c d where p: "map parse_octet (split_on 46 s) = [Some a, Some b, Some c, Some d]" and v: "v = ((a * 256 + b) * 256 + c) * 256 + d"
    by (auto simp: ipv4_int_def split: if_splits list.splits option.splits)
  have "Some x \<in> set [Some a, Some b, Some c, Some d] \<Longrightarrow> x < 256" for x unfolding p [symmetric] using dec_bytes by force
  then have "a < 256" "b < 256" "c < 256" "d < 256" by simp_all
  then show ?thesis by (simp add: v)
qed

lemma hex_val_small: "hex_digit_val c = Some d \<Longrightarrow> d < 16"
  by (auto simp: hex_digit_val_def split: if_splits)

lemma hex_fold_bound: "\<not> list_ex (\<lambda>c. hex_digit_val c = None) s \<Longrightarrow> a < 16 ^ k \<Longrightarrow>
    foldl (\<lambda>a c. a * 16 + the (hex_digit_val c)) a s < 16 ^ (k + length s)"
proof (induction s arbitrary: a k)
  case (Cons c s)
  obtain d where "hex_digit_val c = Some d" "d < 16" using Cons.prems(1) hex_val_small by (cases "hex_digit_val c") auto
  then have "a * 16 + the (hex_digit_val c) < 16 ^ Suc k" using Cons.prems(2) by simp
  from Cons.IH [OF _ this] Cons.prems(1) show ?case by simp
qed simp

lemma parse_hextet_bound: "parse_hextet s = Some h \<Longrightarrow> h < 65536"
proof -
  assume s: "parse_hextet s = Some h"
  then have "h < 16 ^ length s" "length s \<le> 4"
    using hex_fold_bound [of s 0 0] by (auto simp: parse_hextet_def split: if_splits)
  moreover from this(2) have "(16 :: nat) ^ length s \<le> 16 ^ 4" by (intro power_increasing) simp_all
  ultimately show ?thesis by simp
qed

lemma fold_hextets_bound: "\<forall>h \<in> set hs. \<exists>n < 65536. h = Some n \<Longrightarrow> (a :: nat) < 65536 ^ k \<Longrightarrow> foldl (\<lambda>a h. a * 65536 + the h) a hs < 65536 ^ (k + length hs)"
proof (induction hs arbitrary: a k)
  case (Cons h hs)
  then have "a * 65536 + the h < 65536 ^ Suc k" by auto
  from Cons.IH [OF _ this] Cons.prems(1) show ?case by simp
qed simp

lemma hextets_bound:
  assumes "hextets_int hs = Some v" "length hs \<le> 8" "\<forall>n. Some n \<in> set hs \<longrightarrow> n < 65536"
  shows "v < 2 ^ 128"
proof -
  have "\<forall>h \<in> set hs. \<exists>n < 65536. h = Some n" using assms(1,3) by (metis hextets_int_def not_None_eq option.distinct(1))
  from fold_hextets_bound [OF this, of 0 0] have "v < 65536 ^ length hs" using assms(1) by (auto simp: hextets_int_def split: if_splits)
  also have "(65536 :: nat) ^ length hs \<le> 65536 ^ 8" using assms(2) by (intro power_increasing) simp_all
  finally show ?thesis by simp
qed

lemma read_hextets_bound:
  assumes "hextets_int (map parse_hextet xs @ replicate k (Some 0) @ map parse_hextet ys) = Some v" "length xs + k + length ys \<le> 8"
  shows "v < 2 ^ 128"
  by (rule hextets_bound [OF assms(1)]) (use assms(2) in \<open>auto dest: parse_hextet_bound [OF sym]\<close>)

lemma ipv6_parts_bound:
  assumes "ipv6_parts_int parts = Some v"
  shows "v < 2 ^ 128"
proof -
  have "\<exists>xs k ys. hextets_int (map parse_hextet xs @ replicate k (Some 0) @ map parse_hextet ys) = Some v \<and> length xs + k + length ys \<le> 8"
  proof (cases "filter (\<lambda>i. parts ! i = []) [1..<length parts - 1]")
    case Nil
    then have "hextets_int (map parse_hextet parts) = Some v \<and> length parts = 8"
      using assms by (auto simp: ipv6_parts_int_def Let_def split: if_splits)
    then show ?thesis by (intro exI [of _ parts] exI [of _ 0] exI [of _ "[]"]) simp
  next
    case (Cons skip more)
    let ?n = "length parts"
    obtain hi lo where h: "hi + lo \<le> 7" "hextets_int (map parse_hextet (take hi parts) @ replicate (8 - (hi + lo)) (Some 0) @ map parse_hextet (drop (?n - lo) parts)) = Some v"
      using assms Cons unfolding ipv6_parts_int_def Let_def by (cases more) (auto split: if_splits simp: not_less)
    have "length (take hi parts) + (8 - (hi + lo)) + length (drop (?n - lo) parts) \<le> 8" using h(1) by (simp add: min_def) linarith
    with h(2) show ?thesis by blast
  qed
  then show ?thesis using read_hextets_bound by blast
qed

lemma ipv6_int_bound: "ipv6_int s = Some v \<Longrightarrow> v < 2 ^ 128"
  by (auto simp: ipv6_int_def Let_def dest: ipv6_parts_bound split: if_splits option.splits)

lemma ip_address_ok: "ip_address s = Some i \<Longrightarrow> ip_ok i"
proof -
  assume a: "ip_address s = Some i"
  have d: "c \<in> set (tl (dropWhile P s)) \<Longrightarrow> c \<in> set s" for P and c :: nat by (metis list.set_sel(2) set_dropWhileD tl_Nil)
  show ?thesis using a d
    by (auto simp: ip_address_def ipv6_address_def Let_def dest!: ipv4_int_bound ipv6_int_bound split: option.splits if_splits)
qed

text \<open>Reading the text of what was read gives it again.\<close>

theorem ip_text_stable: "ip_address s = Some i \<Longrightarrow> ip_address (ip_str i) = Some i"
  by (intro ip_roundtrip ip_address_ok)

end
