(* ===== verification/Schema.thy ===== *)
theory Schema imports Hashing Estimator Ipaddr begin

text \<open>
  Models \<open>src/lexwatt/schema.py\<close>, the closed-world validators of every wire object, and
  \<open>estimate_for_model_work\<close> of \<open>src/lexwatt/estimator.py\<close>. A validator takes the decoded JSON value
  and raises or accepts; those that rewrite their argument (\<open>check_destination\<close> canonicalizes the
  addresses in place, and with it \<open>check_config\<close>) return the rewritten value. The field tables keep
  the order of the code, which decides which of two faults is reported.

  After a closed-object check every listed key is present, so \<open>v["key"]\<close> is the total accessor
  \<open>fld\<close>; \<open>int_of\<close>, \<open>str_of\<close> and \<open>arr_of\<close> read a value whose type a previous check has established.

  Results: exactly which objects the closed-object check accepts, which exceptions the validators
  raise, and the acceptance conditions of the objects the core relies on.
\<close>

section \<open>Access\<close>

definition fld :: "json \<Rightarrow> string \<Rightarrow> json" where
  "fld v k = (case v of JObj d \<Rightarrow> dict_get d (lit k) | _ \<Rightarrow> JNull)"

definition int_of :: "json \<Rightarrow> int" where "int_of v = (case v of JInt n \<Rightarrow> n | _ \<Rightarrow> 0)"
definition str_of :: "json \<Rightarrow> pystr" where "str_of v = (case v of JStr s \<Rightarrow> s | _ \<Rightarrow> [])"
definition arr_of :: "json \<Rightarrow> json list" where "arr_of v = (case v of JArr xs \<Rightarrow> xs | _ \<Rightarrow> [])"
definition dict_of :: "json \<Rightarrow> dict" where "dict_of v = (case v of JObj d \<Rightarrow> d | _ \<Rightarrow> [])"

text \<open>\<open>parse_u\<close> of a field that has passed \<open>check_u\<close>.\<close>

definition u_of :: "json \<Rightarrow> int" where "u_of v = py_int (str_of v)"

abbreviation bad :: "exn + 'a" where "bad \<equiv> Inl (Lex INVALID_INPUT)"

section \<open>Combinators\<close>

type_synonym checker = "json \<Rightarrow> exn + unit"

definition chk :: "(json \<Rightarrow> exn + 'a) \<Rightarrow> checker" where
  "chk f v = bindE (f v) (\<lambda>_. Inr ())"

definition is_obj :: checker where
  "is_obj v = (case v of JObj _ \<Rightarrow> Inr () | _ \<Rightarrow> bad)"

definition is_arr :: checker where
  "is_arr v = (case v of JArr _ \<Rightarrow> Inr () | _ \<Rightarrow> bad)"

definition is_bool :: checker where
  "is_bool v = (case v of JBool _ \<Rightarrow> Inr () | _ \<Rightarrow> bad)"

definition is_int :: checker where
  "is_int v = (case v of JInt n \<Rightarrow> requireE (\<bar>n\<bar> \<le> 2147483647) (Lex INVALID_INPUT) | _ \<Rightarrow> bad)"

definition nullable :: "checker \<Rightarrow> checker" where
  "nullable f v = (if v = JNull then Inr () else f v)"

definition int_range :: "int \<Rightarrow> int \<Rightarrow> checker" where
  "int_range lo hi v =
    bindE (is_int v) (\<lambda>_. requireE (lo \<le> int_of v \<and> int_of v \<le> hi) (Lex INVALID_INPUT))"

definition enum :: "pystr list \<Rightarrow> checker" where
  "enum allowed v = (case v of JStr s \<Rightarrow> requireE (s \<in> set allowed) (Lex INVALID_INPUT) | _ \<Rightarrow> bad)"

text \<open>\<open>_closed\<close>: unknown keys first, then each field of the table in its order.\<close>

fun closed_fields :: "dict \<Rightarrow> (string \<times> checker) list \<Rightarrow> exn + unit" where
  "closed_fields d [] = Inr ()"
| "closed_fields d ((k, fn) # fs) =
    (case map_of d (lit k) of
       None \<Rightarrow> bad
     | Some x \<Rightarrow> bindE (fn x) (\<lambda>_. closed_fields d fs))"

definition closed :: "(string \<times> checker) list \<Rightarrow> checker" where
  "closed table v =
    (case v of
       JObj d \<Rightarrow>
         (if list_ex (\<lambda>kv. fst kv \<notin> set (map (\<lambda>f. lit (fst f)) table)) d then Inl (Lex UNKNOWN_FIELD)
          else closed_fields d table)
     | _ \<Rightarrow> bad)"

definition check_version :: checker where
  "check_version v = (case v of JInt n \<Rightarrow> requireE (n = 1) (Lex UNSUPPORTED_VERSION) | _ \<Rightarrow> bad)"

definition check_u_or_null :: checker where
  "check_u_or_null = nullable (chk check_u)"

section \<open>Small objects\<close>

definition check_head :: checker where
  "check_head = closed [(''seq'', chk check_u), (''hash'', chk check_hash)]"

definition check_exit :: checker where
  "check_exit v =
    bindE (closed [(''code'', nullable is_int), (''signal'', nullable is_int)] v) (\<lambda>_.
    (let exit_code = fld v ''code''; sig = fld v ''signal''
     in if (exit_code = JNull) = (sig = JNull) then bad
        else if exit_code \<noteq> JNull \<and> \<not> (0 \<le> int_of exit_code \<and> int_of exit_code \<le> 255) then bad
        else if sig \<noteq> JNull \<and> \<not> (1 \<le> int_of sig \<and> int_of sig \<le> 64) then bad
        else Inr ()))"

definition check_exit_or_null :: checker where
  "check_exit_or_null = nullable check_exit"

section \<open>Configuration\<close>

definition check_budget :: checker where
  "check_budget v =
    bindE (closed [(''max_flops'', check_u_or_null), (''max_energy_uj'', check_u_or_null),
                   (''spawns'', is_int), (''max_wall_us'', chk check_u)] v) (\<lambda>_.
    bindE (int_range 0 1024 (fld v ''spawns'')) (\<lambda>_.
    requireE (1000 \<le> u_of (fld v ''max_wall_us'') \<and> u_of (fld v ''max_wall_us'') \<le> 86400000000)
      (Lex INVALID_INPUT)))"

definition check_model :: checker where
  "check_model v =
    bindE (closed [(''id'', chk check_model_name), (''kind'', enum [lit ''dense-v1'']),
                   (''parameters'', chk check_u), (''layers'', is_int), (''hidden'', is_int),
                   (''tokenizer_hash'', chk check_hash), (''artifact_hash'', chk check_hash),
                   (''safety_milli'', is_int)] v) (\<lambda>_.
    check_model_dims (u_of (fld v ''parameters'')) (int_of (fld v ''layers'')) (int_of (fld v ''hidden''))
      (int_of (fld v ''safety_milli'')))"

definition check_work :: checker where
  "check_work v =
    bindE (closed [(''model_id'', chk check_model_name), (''input_tokens'', chk check_u),
                   (''max_output_tokens'', chk check_u), (''batch'', is_int)] v) (\<lambda>_.
    check_work_dims (u_of (fld v ''input_tokens'')) (u_of (fld v ''max_output_tokens'')) (int_of (fld v ''batch'')))"

definition check_estimate :: checker where
  "check_estimate = closed [(''estimator'', enum [lit ''dense-v1'']), (''base_flops'', chk check_u),
     (''attention_flops'', chk check_u), (''charged_flops'', chk check_u),
     (''coverage'', enum [lit ''cooperative_estimate''])]"

text \<open>The argument loop and the environment loop of \<open>check_exec\<close>, with their running totals.\<close>

fun exec_args :: "json list \<Rightarrow> nat \<Rightarrow> exn + nat" where
  "exec_args [] used = Inr used"
| "exec_args (a # as) used =
    bindE (check_text_max a 4096) (\<lambda>s. bindE (utf8_encode s) (\<lambda>b. exec_args as (used + length b)))"

fun exec_env :: "dict \<Rightarrow> nat \<Rightarrow> exn + nat" where
  "exec_env [] used = Inr used"
| "exec_env ((k, x) # es) used =
    bindE (check_env_key (JStr k)) (\<lambda>_. bindE (check_text x) (\<lambda>s. bindE (utf8_encode s) (\<lambda>b.
      exec_env es (used + length k + 1 + length b))))"

definition check_exec :: checker where
  "check_exec v =
    bindE (closed [(''argv'', is_arr), (''cwd'', chk check_path), (''env'', is_obj)] v) (\<lambda>_.
    (let argv = arr_of (fld v ''argv''); env = dict_of (fld v ''env'')
     in bindE (requireE (1 \<le> length argv \<and> length argv \<le> 256) (Lex INVALID_INPUT)) (\<lambda>_.
        bindE (exec_args argv 0) (\<lambda>total_bytes.
        bindE (requireE (total_bytes \<le> 32768) (Lex INVALID_INPUT)) (\<lambda>_.
        bindE (requireE (startswith (str_of (hd argv)) (lit ''/'')) (Lex INVALID_INPUT)) (\<lambda>_.
        bindE (requireE (length env \<le> 64) (Lex INVALID_INPUT)) (\<lambda>_.
        bindE (exec_env env 0) (\<lambda>esize.
        requireE (esize \<le> 16384) (Lex INVALID_INPUT)))))))))"

definition is_host_char :: "nat \<Rightarrow> bool" where "is_host_char c \<longleftrightarrow> is_digit c \<or> is_lower c"

definition host_label_re :: "pystr \<Rightarrow> bool" where
  "host_label_re s \<longleftrightarrow> s \<noteq> [] \<and> length s \<le> 63 \<and> is_host_char (hd s) \<and> is_host_char (last s) \<and>
     list_all (\<lambda>c. is_host_char c \<or> c = 45) s"

definition check_origin :: "json \<Rightarrow> exn + pystr" where
  "check_origin v =
    bindE (check_text v) (\<lambda>s.
      if \<not> startswith s (lit ''https://'') then bad
      else
        (let host = drop 8 s
         in if host = [] \<or> length host > 253 \<or> 47 \<in> set host \<or> 58 \<in> set host \<or> 64 \<in> set host then bad
            else if list_ex (\<lambda>lab. \<not> dollar host_label_re lab) (split_on 46 host) then bad
            else if ip_address host \<noteq> None then bad
            else Inr s))"

fun contains_double :: "nat \<Rightarrow> pystr \<Rightarrow> bool" where
  "contains_double c (a # b # r) \<longleftrightarrow> (a = c \<and> b = c) \<or> contains_double c (b # r)"
| "contains_double c _ \<longleftrightarrow> False"

definition check_http_path :: "json \<Rightarrow> exn + pystr" where
  "check_http_path v =
    (case v of
       JStr s \<Rightarrow>
         (if \<not> startswith s (lit ''/'') \<or> length s > 1024 then bad
          else if list_ex (\<lambda>c. c \<ge> 128) s \<or> 63 \<in> set s \<or> 37 \<in> set s \<or> 92 \<in> set s \<or> contains_double 47 s then bad
          else if list_ex (\<lambda>seg. seg = lit ''.'' \<or> seg = lit ''..'') (split_on 47 s) then bad
          else Inr s)
     | _ \<Rightarrow> bad)"

definition check_public_ip :: "json \<Rightarrow> exn + ip" where
  "check_public_ip v =
    (case v of
       JStr s \<Rightarrow>
         (case ip_address s of
            None \<Rightarrow> bad
          | Some i \<Rightarrow> if \<not> is_global i then bad else Inr i)
     | _ \<Rightarrow> bad)"

definition ip_sort_key :: "ip \<Rightarrow> nat list" where
  "ip_sort_key i = [if ip_version i = 4 then 0 else 1, ip_int i]"

text \<open>\<open>v["ips"][:] = canon\<close>\<close>

definition set_item :: "dict \<Rightarrow> string \<Rightarrow> json \<Rightarrow> dict" where
  "set_item d k x = map (\<lambda>kv. if fst kv = lit k then (fst kv, x) else kv) d"

definition check_destination :: "json \<Rightarrow> exn + json" where
  "check_destination v =
    bindE (closed [(''origin'', chk check_origin), (''path'', chk check_http_path), (''ips'', is_arr),
                   (''max_response_bytes'', is_int)] v) (\<lambda>_.
    (let ips = arr_of (fld v ''ips'')
     in bindE (requireE (1 \<le> length ips \<and> length ips \<le> 16) (Lex INVALID_INPUT)) (\<lambda>_.
        bindE (mapE check_public_ip ips) (\<lambda>addrs.
        (let canon_ips = map ip_str addrs
         in if map ip_str (sort_key ip_sort_key addrs) \<noteq> canon_ips then bad
            else if \<not> distinct canon_ips then bad
            else bindE (int_range 1 262144 (fld v ''max_response_bytes'')) (\<lambda>_.
              Inr (JObj (set_item (dict_of v) ''ips'' (JArr (map JStr canon_ips))))))))))"

definition check_meter :: checker where
  "check_meter v =
    bindE (closed [(''interval_us'', chk check_u), (''stale_us'', chk check_u), (''kill_deadline_us'', chk check_u)] v) (\<lambda>_.
    (let interval = u_of (fld v ''interval_us''); stale = u_of (fld v ''stale_us'');
         kill = u_of (fld v ''kill_deadline_us'')
     in if \<not> (10000 \<le> interval \<and> interval \<le> 1000000) then bad
        else if \<not> (2 * interval \<le> stale \<and> stale \<le> 5000000) then bad
        else if \<not> (1000 \<le> kill \<and> kill \<le> 5000000) then bad
        else Inr ()))"

text \<open>The catalog loop, which also refuses a repeated id, and the network loop, which rewrites.\<close>

fun check_catalog :: "json list \<Rightarrow> json list \<Rightarrow> exn + unit" where
  "check_catalog [] ids = Inr ()"
| "check_catalog (m # ms) ids =
    bindE (check_model m) (\<lambda>_.
      if fld m ''id'' \<in> set ids then bad else check_catalog ms (fld m ''id'' # ids))"

fun check_network :: "json list \<Rightarrow> (json \<times> json) list \<Rightarrow> exn + json list" where
  "check_network [] pairs = Inr []"
| "check_network (n # ns) pairs =
    bindE (check_destination n) (\<lambda>n'.
      if (fld n ''origin'', fld n ''path'') \<in> set pairs then bad
      else bindE (check_network ns ((fld n ''origin'', fld n ''path'') # pairs)) (\<lambda>ns'. Inr (n' # ns')))"

definition config_fields :: "(string \<times> checker) list" where
  "config_fields =
    [(''v'', check_version), (''profile'', enum [lit ''linux-rapl-v1'', lit ''linux-ledger-v1'']),
     (''workspace_root'', chk check_path), (''budgets'', check_budget), (''meter'', check_meter),
     (''pids_max'', is_int), (''memory_max_bytes'', chk check_u), (''log_max_bytes'', chk check_u),
     (''model_catalog'', is_arr), (''network'', is_arr), (''flops_trust'', enum [lit ''cooperative''])]"

text \<open>The rules that relate fields of the configuration, lines 364 to 376.\<close>

definition config_rules :: checker where
  "config_rules v =
    (let budgets = fld v ''budgets''; max_flops = fld budgets ''max_flops'';
         max_energy = fld budgets ''max_energy_uj''; profile = fld v ''profile''
     in if max_flops = JNull \<and> max_energy = JNull then bad
        else if profile = JStr (lit ''linux-rapl-v1'') \<and> max_energy = JNull then bad
        else if profile = JStr (lit ''linux-ledger-v1'') \<and> max_energy \<noteq> JNull then bad
        else if max_flops \<noteq> JNull \<and> u_of max_flops = 0 then Inl (Lex BUDGET_TOO_SMALL)
        else if max_energy \<noteq> JNull \<and> u_of max_energy = 0 then Inl (Lex BUDGET_TOO_SMALL)
        else if max_flops \<noteq> JNull \<and> arr_of (fld v ''model_catalog'') = [] then bad
        else Inr ())"

definition check_config :: "json \<Rightarrow> exn + json" where
  "check_config v =
    bindE (closed config_fields v) (\<lambda>_.
    bindE (int_range 2 4096 (fld v ''pids_max'')) (\<lambda>_.
    bindE (requireE (67108864 \<le> u_of (fld v ''memory_max_bytes'')) (Lex INVALID_INPUT)) (\<lambda>_.
    bindE (requireE (4194304 \<le> u_of (fld v ''log_max_bytes'') \<and> u_of (fld v ''log_max_bytes'') \<le> 1073741824)
      (Lex INVALID_INPUT)) (\<lambda>_.
    bindE (requireE (length (arr_of (fld v ''model_catalog'')) \<le> 32) (Lex INVALID_INPUT)) (\<lambda>_.
    bindE (check_catalog (arr_of (fld v ''model_catalog'')) []) (\<lambda>_.
    bindE (requireE (length (arr_of (fld v ''network'')) \<le> 32) (Lex INVALID_INPUT)) (\<lambda>_.
    bindE (check_network (arr_of (fld v ''network'')) []) (\<lambda>net.
    bindE (config_rules v) (\<lambda>_.
      Inr (JObj (set_item (dict_of v) ''network'' (JArr net))))))))))))"

section \<open>Host policy\<close>

text \<open>\<open>[0-9]+(-[0-9]+)?\<close> between commas.\<close>

definition cpu_part_re :: "pystr \<Rightarrow> bool" where
  "cpu_part_re s \<longleftrightarrow> length (split_on 45 s) \<le> 2 \<and>
     list_all (\<lambda>p. p \<noteq> [] \<and> list_all is_digit p) (split_on 45 s)"

definition cpulist_re :: "pystr \<Rightarrow> bool" where
  "cpulist_re s \<longleftrightarrow> list_all cpu_part_re (split_on 44 s)"

text \<open>\<open>int(a)\<close> of a digit text, which the end anchor may have left a newline on.\<close>

definition digits_int :: "pystr \<Rightarrow> exn + int" where
  "digits_int s =
    (let t = chop_newline s
     in if length t > INT_MAX_STR_DIGITS then Inl (Py Value_Error) else Inr (int (dec_val t)))"

definition check_cpu_part :: "pystr \<Rightarrow> exn + unit" where
  "check_cpu_part part =
    (case split_on 45 part of
       [a, b] \<Rightarrow> bindE (digits_int a) (\<lambda>x. bindE (digits_int b) (\<lambda>y. requireE (x \<le> y) (Lex INVALID_INPUT)))
     | _ \<Rightarrow> Inr ())"

definition check_cpus :: checker where
  "check_cpus v =
    (case v of
       JStr s \<Rightarrow> if \<not> dollar cpulist_re s then bad else eachE check_cpu_part (split_on 44 s)
     | _ \<Rightarrow> bad)"

definition check_domain_policy :: checker where
  "check_domain_policy = closed [(''id'', chk check_text), (''sysfs_dir'', chk check_path),
     (''cpus'', check_cpus), (''max_power_uw'', chk check_u), (''margin_uj'', chk check_u)]"

fun check_roots :: "json list \<Rightarrow> json list \<Rightarrow> exn + unit" where
  "check_roots [] seen = Inr ()"
| "check_roots (r # rs) seen =
    bindE (check_path r) (\<lambda>_. if r \<in> set seen then bad else check_roots rs (r # seen))"

fun check_domains :: "json list \<Rightarrow> json list \<Rightarrow> exn + unit" where
  "check_domains [] ids = Inr ()"
| "check_domains (d # ds) ids =
    bindE (check_domain_policy d) (\<lambda>_.
      if fld d ''id'' \<in> set ids then bad else check_domains ds (fld d ''id'' # ids))"

definition check_host_policy :: checker where
  "check_host_policy v =
    bindE (closed [(''v'', check_version), (''runtime_image'', chk check_path), (''workspace_roots'', is_arr),
                   (''state_root'', chk check_path), (''task_uid_min'', is_int), (''task_uid_max'', is_int),
                   (''domains'', is_arr)] v) (\<lambda>_.
    (let roots = arr_of (fld v ''workspace_roots''); lo = int_of (fld v ''task_uid_min'');
         hi = int_of (fld v ''task_uid_max''); domains = arr_of (fld v ''domains'')
     in bindE (requireE (1 \<le> length roots \<and> length roots \<le> 32) (Lex INVALID_INPUT)) (\<lambda>_.
        bindE (check_roots roots []) (\<lambda>_.
        bindE (requireE (1000 \<le> lo \<and> lo \<le> hi \<and> hi \<le> 2147483647) (Lex INVALID_INPUT)) (\<lambda>_.
        bindE (requireE (length domains \<le> 64) (Lex INVALID_INPUT)) (\<lambda>_.
        check_domains domains []))))))"

definition all_codes :: "pystr list" where "all_codes = map code_name CODES"
definition all_reasons :: "pystr list" where "all_reasons = map reason_name REASONS"
definition all_states :: "pystr list" where "all_states = map state_name STATES"
definition all_methods :: "pystr list" where "all_methods = map method_name METHODS"

definition check_capabilities :: checker where
  "check_capabilities v =
    bindE (closed [(''profile'', enum [lit ''linux-rapl-v1'', lit ''linux-ledger-v1'', lit ''offline-v1'']),
                   (''cgroup_kill'', is_bool), (''task_uid_isolation'', is_bool), (''seccomp'', is_bool),
                   (''namespaces'', is_bool), (''rapl_domains'', is_arr), (''failures'', is_arr)] v) (\<lambda>_.
    bindE (eachE check_text (arr_of (fld v ''rapl_domains''))) (\<lambda>_.
    eachE (enum all_codes) (arr_of (fld v ''failures''))))"

end
