(* ===== verification/SchemaEvents.thy ===== *)
theory SchemaEvents imports Schema begin

text \<open>
  The second half of \<open>src/lexwatt/schema.py\<close>: actions, tokens, reservations, samples, the bodies of
  journal events, receipt bundles, outcomes, and the request and response envelopes, and
  \<open>estimate_for_model_work\<close>. Conventions are those of the theory \<open>Schema\<close>.
\<close>

section \<open>Actions, tokens, compute\<close>

definition is_obj_or_str :: checker where
  "is_obj_or_str v = (case v of JObj _ \<Rightarrow> Inr () | JStr _ \<Rightarrow> Inr () | _ \<Rightarrow> bad)"

definition check_action :: checker where
  "check_action v =
    bindE (is_obj v) (\<lambda>_.
      if fld v ''kind'' = JStr (lit ''spawn'') then
        closed [(''kind'', is_obj_or_str), (''exec'', check_exec)] v
      else if fld v ''kind'' = JStr (lit ''http_get'') then
        bindE (closed [(''kind'', is_obj_or_str), (''origin'', chk check_origin), (''path'', chk check_http_path),
                       (''max_response_bytes'', is_int)] v)
          (\<lambda>_. int_range 1 262144 (fld v ''max_response_bytes''))
      else bad)"

definition id_of :: "id_kind \<Rightarrow> checker" where
  "id_of k = chk (\<lambda>v. check_id v k)"

definition check_token_body :: checker where
  "check_token_body = closed [(''v'', check_version), (''key_id'', id_of ID_key), (''token_id'', id_of ID_token),
     (''run_id'', id_of ID_run), (''channel_id'', id_of ID_channel), (''action_hash'', chk check_hash),
     (''issued_us'', chk check_u), (''expires_us'', chk check_u), (''issue_seq'', chk check_u)]"

definition check_token :: checker where
  "check_token v =
    bindE (closed [(''body'', check_token_body), (''sig'', chk check_signature)] v) (\<lambda>_.
    bindE (dumps v) (\<lambda>b. requireE (length b \<le> 8192) (Lex INVALID_INPUT)))"

definition check_action_result :: checker where
  "check_action_result v =
    bindE (is_obj v) (\<lambda>_.
      if fld v ''kind'' = JStr (lit ''spawn'') then
        closed [(''kind'', is_obj_or_str), (''exit'', check_exit_or_null)] v
      else if fld v ''kind'' = JStr (lit ''http_get'') then
        bindE (closed [(''kind'', is_obj_or_str), (''status'', is_int), (''body_b64'', chk check_body_b64),
                       (''body_hash'', chk check_hash), (''truncated'', is_bool)] v) (\<lambda>_.
        bindE (int_range 100 599 (fld v ''status'')) (\<lambda>_.
        requireE (fld v ''truncated'' = JBool False) (Lex INVALID_INPUT)))
      else bad)"

definition check_action_view :: checker where
  "check_action_view v =
    bindE (closed [(''action_id'', id_of ID_action),
                   (''state'', enum [lit ''DISPATCHED'', lit ''SUCCEEDED'', lit ''FAILED'', lit ''UNKNOWN'']),
                   (''result'', nullable check_action_result), (''error'', nullable (enum all_codes))] v) (\<lambda>_.
    (let st = fld v ''state''; res = fld v ''result''; err = fld v ''error''
     in if st = JStr (lit ''DISPATCHED'') \<and> (res \<noteq> JNull \<or> err \<noteq> JNull) then bad
        else if st = JStr (lit ''UNKNOWN'') \<and> (res \<noteq> JNull \<or> err = JNull) then bad
        else if st = JStr (lit ''SUCCEEDED'') \<and> (res = JNull \<or> err \<noteq> JNull) then bad
        else if st = JStr (lit ''FAILED'') \<and> err = JNull then bad
        else Inr ()))"

definition check_reservation :: checker where
  "check_reservation v =
    bindE (closed [(''compute_id'', id_of ID_compute), (''work'', check_work), (''charged_flops'', chk check_u),
                   (''state'', enum [lit ''CHARGED'', lit ''FINISHED'']),
                   (''observed_output_tokens'', check_u_or_null), (''observed_flops'', check_u_or_null)] v) (\<lambda>_.
    (let finished = (fld v ''state'' = JStr (lit ''FINISHED''));
         have_both = (fld v ''observed_output_tokens'' \<noteq> JNull \<and> fld v ''observed_flops'' \<noteq> JNull)
     in requireE (finished = have_both) (Lex INVALID_INPUT)))"

section \<open>Evidence\<close>

definition check_pin :: checker where
  "check_pin = closed [(''key_id'', id_of ID_key), (''public_key'', chk check_public_key)]"

definition check_power_assumption :: checker where
  "check_power_assumption = closed [(''domain'', chk check_text), (''max_power_uw'', chk check_u), (''margin_uj'', chk check_u)]"

definition check_energy_assumptions :: checker where
  "check_energy_assumptions v =
    bindE (closed [(''meter'', check_meter), (''power'', is_arr)] v)
      (\<lambda>_. eachE check_power_assumption (arr_of (fld v ''power'')))"

definition check_coverage :: checker where
  "check_coverage v =
    bindE (closed [(''flops'', enum [lit ''cooperative_estimate'']),
                   (''energy'', enum [lit ''package_measured'', lit ''unavailable'']), (''domains'', is_arr),
                   (''energy_complete'', is_bool), (''reserve_uj'', chk check_u), (''host_power_assumption'', is_bool),
                   (''assumptions'', nullable check_energy_assumptions)] v) (\<lambda>_.
    bindE (eachE check_text (arr_of (fld v ''domains''))) (\<lambda>_.
      if fld v ''energy'' = JStr (lit ''package_measured'') then
        (if fld v ''assumptions'' = JNull then bad
         else requireE (sort (map (\<lambda>p. str_of (fld p ''domain'')) (arr_of (fld (fld v ''assumptions'') ''power''))) =
                        sort (map str_of (arr_of (fld v ''domains'')))) (Lex INVALID_INPUT))
      else if fld v ''assumptions'' \<noteq> JNull then bad
      else requireE (fld v ''domains'' = JArr [] \<and> fld v ''reserve_uj'' = JStr (lit ''0'')) (Lex INVALID_INPUT)))"

definition check_reading :: checker where
  "check_reading = closed [(''domain'', chk check_text), (''counter_uj'', chk check_u), (''range_uj'', chk check_u),
     (''read_t_us'', chk check_u)]"

definition check_sample :: checker where
  "check_sample v =
    bindE (closed [(''index'', chk check_u), (''t_us'', chk check_u), (''cpu_us'', chk check_u), (''readings'', is_arr),
                   (''delta_uj'', chk check_u), (''total_uj'', chk check_u), (''max_gap_us'', chk check_u)] v)
      (\<lambda>_. eachE check_reading (arr_of (fld v ''readings'')))"

definition check_status :: checker where
  "check_status = closed [(''run_id'', id_of ID_run), (''state'', enum all_states), (''budgets'', check_budget),
     (''charged_flops'', chk check_u), (''energy_uj'', check_u_or_null), (''spawn_tokens_issued'', is_int),
     (''elapsed_us'', chk check_u), (''root_exit'', check_exit_or_null), (''stop_reason'', nullable (enum all_reasons)),
     (''coverage'', check_coverage), (''head'', check_head)]"

definition check_action_audit :: checker where
  "check_action_audit = closed [(''action_id'', id_of ID_action), (''state'', enum [lit ''SUCCEEDED'', lit ''FAILED'']),
     (''kind'', enum [lit ''spawn'', lit ''http_get'']), (''root_exit'', check_exit_or_null),
     (''http_status'', nullable (int_range 100 599)), (''body_hash'', nullable (chk check_hash)),
     (''error'', nullable (enum all_codes))]"

section \<open>Journal events\<close>

definition profiles :: "pystr list" where "profiles = [lit ''linux-rapl-v1'', lit ''linux-ledger-v1'']"

text \<open>\<open>_check_event_data\<close>\<close>

fun check_event_data :: "event_kind \<Rightarrow> checker" where
  "check_event_data K_RunCreated d = closed [(''config_hash'', chk check_hash)] d"
| "check_event_data K_RunArming d = closed [(''profile'', enum profiles)] d"
| "check_event_data K_RunStarted d =
    bindE (closed [(''budgets'', check_budget), (''models'', is_arr), (''coverage'', check_coverage),
                   (''baseline'', check_sample)] d)
      (\<lambda>_. eachE check_model (arr_of (fld d ''models'')))"
| "check_event_data K_RunRejected d = closed [(''code'', enum all_codes)] d"
| "check_event_data K_SampleRecorded d = closed [(''sample'', check_sample)] d"
| "check_event_data K_ComputeReserved d = closed [(''reservation'', check_reservation)] d"
| "check_event_data K_ComputeFinished d = closed [(''reservation'', check_reservation)] d"
| "check_event_data K_TokenIssued d =
    closed [(''token_id'', id_of ID_token), (''channel_id'', id_of ID_channel),
            (''kind'', enum [lit ''spawn'', lit ''http_get'']), (''action_hash'', chk check_hash),
            (''issued_us'', chk check_u), (''expires_us'', chk check_u), (''issue_seq'', chk check_u)] d"
| "check_event_data K_TokenExpired d = closed [(''token_id'', id_of ID_token)] d"
| "check_event_data K_TokenSpent d = closed [(''token_id'', id_of ID_token), (''action_id'', id_of ID_action)] d"
| "check_event_data K_ActionFinished d = closed [(''action'', check_action_audit)] d"
| "check_event_data K_ActionUnknown d = closed [(''action_id'', id_of ID_action), (''code'', enum all_codes)] d"
| "check_event_data K_RequestDenied d = closed [(''request_id'', id_of ID_request), (''code'', enum all_codes)] d"
| "check_event_data K_StopLatched d = closed [(''reason'', enum all_reasons)] d"
| "check_event_data K_FaultObserved d = closed [(''reason'', enum all_reasons)] d"
| "check_event_data K_KillIssued d = closed [(''cgroup_attempted'', is_bool), (''group_attempted'', is_bool)] d"
| "check_event_data K_KillUnconfirmed d = closed [(''elapsed_us'', chk check_u)] d"
| "check_event_data K_ContainmentEmpty d =
    closed [(''final_sample'', nullable check_sample), (''root_exit'', check_exit_or_null)] d"
| "check_event_data K_RunFinalized d =
    closed [(''state'', enum [lit ''COMPLETED'', lit ''KILLED'', lit ''FAILED'']), (''charged_flops'', chk check_u),
            (''energy_uj'', check_u_or_null), (''spawn_tokens_issued'', is_int), (''coverage'', check_coverage),
            (''root_exit'', check_exit_or_null), (''stop_reason'', enum all_reasons),
            (''kill_latency_us'', chk check_u), (''closed_effects'', is_bool)] d"

text \<open>The event kind a JSON text names, if any.\<close>

definition kind_of :: "json \<Rightarrow> event_kind option" where
  "kind_of v = (case v of JStr s \<Rightarrow> find (\<lambda>k. kind_name k = s) EVENT_KINDS | _ \<Rightarrow> None)"

definition event_fields :: "(string \<times> checker) list" where
  "event_fields =
    [(''v'', check_version), (''run_id'', id_of ID_run), (''event_id'', id_of ID_event), (''key_id'', id_of ID_key),
     (''seq'', chk check_u), (''prev_hash'', chk check_hash), (''t_us'', chk check_u), (''kind'', is_obj_or_str),
     (''data'', is_obj)]"

definition check_event_body :: checker where
  "check_event_body v =
    bindE (is_obj v) (\<lambda>_.
      if map_of (dict_of v) (lit ''kind'') = None then bad
      else (case kind_of (fld v ''kind'') of
              None \<Rightarrow> bad
            | Some k \<Rightarrow> bindE (closed event_fields v) (\<lambda>_. check_event_data k (fld v ''data''))))"

definition check_entry :: checker where
  "check_entry = closed [(''body'', check_event_body), (''hash'', chk check_hash), (''sig'', chk check_signature)]"

definition check_bundle :: checker where
  "check_bundle v =
    bindE (closed [(''v'', check_version), (''entries'', is_arr), (''expected_head'', nullable check_head)] v) (\<lambda>_.
    bindE (requireE (length (arr_of (fld v ''entries'')) \<le> 1000000) (Lex INVALID_INPUT)) (\<lambda>_.
    eachE check_entry (arr_of (fld v ''entries''))))"

definition check_verify_result :: checker where
  "check_verify_result = closed [(''integrity'', enum [lit ''VALID'']),
     (''completeness'', enum [lit ''COMPLETE'', lit ''PREFIX'']), (''physical_truth'', enum [lit ''NOT_ATTESTED'']),
     (''head'', check_head), (''state'', enum all_states)]"

text \<open>The life of a token and of an action, and what the core and the replay call an event.\<close>

datatype token_state = T_ISSUED | T_EXPIRED | T_SPENT
datatype action_state = A_DISPATCHED | A_SUCCEEDED | A_FAILED | A_UNKNOWN

fun action_state_name :: "action_state \<Rightarrow> pystr" where
  "action_state_name A_DISPATCHED = lit ''DISPATCHED''"
| "action_state_name A_SUCCEEDED = lit ''SUCCEEDED''"
| "action_state_name A_FAILED = lit ''FAILED''"
| "action_state_name A_UNKNOWN = lit ''UNKNOWN''"

type_synonym event = "event_kind \<times> json"

section \<open>Outcomes\<close>

definition check_model_file :: checker where
  "check_model_file = closed [(''model_id'', chk check_model_name), (''artifact_path'', chk check_path),
     (''tokenizer_path'', chk check_path)]"

definition check_launch_manifest :: checker where
  "check_launch_manifest v =
    bindE (closed [(''v'', check_version), (''run_id'', id_of ID_run), (''config_hash'', chk check_hash),
                   (''host_policy_hash'', chk check_hash), (''boot_id'', chk check_text), (''cgroup_inode'', chk check_u),
                   (''cgroup_path'', chk check_path), (''task_uid'', is_int), (''owner_uid'', is_int),
                   (''root_exec_hash'', chk check_hash), (''model_files'', is_arr)] v) (\<lambda>_.
    bindE (requireE (fld v ''owner_uid'' = JInt 0) (Lex INVALID_INPUT)) (\<lambda>_.
    eachE check_model_file (arr_of (fld v ''model_files''))))"

definition check_emergency :: checker where
  "check_emergency = closed [(''v'', check_version), (''run_id'', id_of ID_run), (''last_head'', check_head),
     (''reason'', enum all_reasons), (''kill_attempted'', is_bool), (''empty_observed'', is_bool),
     (''boot_id'', chk check_text)]"

definition check_run_outcome :: checker where
  "check_run_outcome = closed [(''v'', check_version), (''run_id'', id_of ID_run), (''state'', enum all_states),
     (''exit_code'', is_int), (''root_exit'', check_exit_or_null), (''head'', check_head),
     (''completeness'', enum [lit ''COMPLETE'', lit ''PREFIX'']), (''confirmed'', is_bool)]"

definition check_kill_outcome :: checker where
  "check_kill_outcome = closed [(''v'', check_version), (''run_id'', id_of ID_run), (''state'', enum all_states),
     (''confirmed'', is_bool), (''stop_reason'', nullable (enum all_reasons))]"

definition check_recovery_report :: checker where
  "check_recovery_report v =
    bindE (closed [(''v'', check_version), (''runs'', is_arr)] v) (\<lambda>_.
    eachE (closed [(''run_id'', id_of ID_run),
                   (''result'', enum [lit ''CONTAINED'', lit ''INCOMPLETE'', lit ''UNCONFIRMED'']),
                   (''head'', nullable check_head)]) (arr_of (fld v ''runs'')))"

definition check_config_validation :: checker where
  "check_config_validation = closed [(''v'', check_version), (''valid'', is_bool), (''config_hash'', chk check_hash),
     (''preflight'', enum [lit ''NOT_RUN'', lit ''PASSED''])]"

text \<open>\<open>_enum(x, (1,))\<close> asks for a text that is a member of a tuple of one integer: there is none.\<close>

definition check_version_info :: checker where
  "check_version_info v =
    bindE (closed [(''v'', check_version), (''cli'', enum [lit ''1.0.0'']), (''protocol'', enum []),
                   (''storage'', enum []), (''estimator'', enum [lit ''dense-v1'']), (''profiles'', is_arr)] v)
      (\<lambda>_. requireE (fld v ''profiles'' =
         JArr [JStr (lit ''linux-rapl-v1''), JStr (lit ''linux-ledger-v1''), JStr (lit ''offline-v1'')]) (Lex INVALID_INPUT))"

definition error_fields :: checker where
  "error_fields = closed [(''code'', enum all_codes), (''retryable'', is_bool)]"

definition check_cli_error :: checker where
  "check_cli_error = closed [(''v'', check_version), (''error'', error_fields)]"

definition check_model_path_map :: checker where
  "check_model_path_map v =
    bindE (is_obj v) (\<lambda>_. eachE (\<lambda>kv. bindE (check_model_name (JStr (fst kv))) (\<lambda>_.
      closed [(''artifact_path'', chk check_path), (''tokenizer_path'', chk check_path)] (snd kv))) (dict_of v))"

section \<open>Envelopes\<close>

definition check_request :: checker where
  "check_request = closed [(''v'', check_version), (''id'', id_of ID_request), (''method'', enum all_methods),
     (''params'', is_obj)]"

definition has_key :: "json \<Rightarrow> string \<Rightarrow> bool" where
  "has_key v k \<longleftrightarrow> map_of (dict_of v) (lit k) \<noteq> None"

definition check_response :: checker where
  "check_response v =
    bindE (is_obj v) (\<lambda>_.
    bindE (requireE (list_all (\<lambda>kv. fst kv \<in> set (map lit [''v'', ''id'', ''ok'', ''result'', ''error''])) (dict_of v))
      (Lex UNKNOWN_FIELD)) (\<lambda>_.
    bindE (check_version (fld v ''v'')) (\<lambda>_.
    bindE (id_of ID_request (fld v ''id'')) (\<lambda>_.
      (case fld v ''ok'' of
         JBool okv \<Rightarrow>
           if okv then requireE (has_key v ''result'' \<and> \<not> has_key v ''error'') (Lex INVALID_INPUT)
           else bindE (requireE (has_key v ''error'' \<and> \<not> has_key v ''result'') (Lex INVALID_INPUT))
             (\<lambda>_. error_fields (fld v ''error''))
       | _ \<Rightarrow> bad)))))"

section \<open>Estimation of checked work\<close>

text \<open>\<open>estimate_for_model_work\<close> of \<open>src/lexwatt/estimator.py\<close>.\<close>

definition estimate_for_model_work :: "json \<Rightarrow> json \<Rightarrow> exn + estimate" where
  "estimate_for_model_work model work =
    bindE (check_model model) (\<lambda>_.
    bindE (check_work work) (\<lambda>_.
      if fld work ''model_id'' \<noteq> fld model ''id'' then bad
      else estimate_from_parts (str_of (fld model ''kind'')) (u_of (fld model ''parameters''))
             (int_of (fld model ''layers'')) (int_of (fld model ''hidden'')) (u_of (fld work ''input_tokens''))
             (u_of (fld work ''max_output_tokens'')) (int_of (fld work ''batch'')) (int_of (fld model ''safety_milli''))))"

section \<open>What the closed-object check accepts\<close>

lemma closed_fields_ok:
  "closed_fields d fs = Inr () \<longleftrightarrow> (\<forall>(k, fn) \<in> set fs. \<exists>x. map_of d (lit k) = Some x \<and> fn x = Inr ())"
  by (induction d fs rule: closed_fields.induct) (auto simp: result_simps split: option.splits)

lemma closed_ok_iff:
  "closed table v = Inr () \<longleftrightarrow>
     (\<exists>d. v = JObj d \<and> fst ` set d \<subseteq> lit ` fst ` set table \<and>
        (\<forall>(k, fn) \<in> set table. \<exists>x. map_of d (lit k) = Some x \<and> fn x = Inr ()))"
  by (auto simp: closed_def closed_fields_ok list_ex_iff image_image subset_eq split: json.splits)

lemma closed_fld:
  assumes "closed table v = Inr ()" "(k, fn) \<in> set table"
  shows "fn (fld v k) = Inr ()" "has_key v k"
  using assms by (auto simp: closed_ok_iff fld_def dict_get_def has_key_def dict_of_def)

text \<open>A closed object has every key of its table and no other.\<close>

lemma closed_keys: "closed table v = Inr () \<Longrightarrow> fst ` set (dict_of v) = lit ` fst ` set table"
proof -
  assume c: "closed table v = Inr ()"
  then obtain d where d: "v = JObj d" "fst ` set d \<subseteq> lit ` fst ` set table"
      "\<forall>(k, fn) \<in> set table. \<exists>x. map_of d (lit k) = Some x \<and> fn x = Inr ()"
    by (auto simp: closed_ok_iff)
  have "lit k \<in> fst ` set d" if "(k, fn) \<in> set table" for k fn
    using d(3) that by (force dest: map_of_SomeD)
  with d show ?thesis by (auto simp: dict_of_def)
qed

section \<open>Fields of objects\<close>

lemma map_of_key: "map_of al k = Some v \<Longrightarrow> k \<in> fst ` set al"
  by (force dest: map_of_SomeD)

lemma fld_JObj: "fld (JObj d) k = (case map_of d (lit k) of None \<Rightarrow> JNull | Some x \<Rightarrow> x)"
  by (simp add: fld_def dict_get_def)

lemma map_of_set_item:
  "map_of (set_item d k x) j = (if j = lit k then map_option (\<lambda>_. x) (map_of d j) else map_of d j)"
  by (induction d) (auto simp: set_item_def)

lemma keys_set_item [simp]: "fst ` set (set_item d k x) = fst ` set d"
  by (induction d) (auto simp: set_item_def)

lemma fld_set_item:
  "fld (JObj (set_item d k x)) j = (if j = k \<and> lit k \<in> fst ` set d then x else fld (JObj d) j)"
  by (auto simp: fld_JObj map_of_set_item map_of_eq_None_iff split: option.split dest: map_of_key)

lemma fld_present: "fld v k \<noteq> JNull \<Longrightarrow> lit k \<in> fst ` set (dict_of v)"
  by (auto simp: fld_def dict_get_def dict_of_def split: json.splits option.splits dest: map_of_key)

lemma fld_dict_of: "fld (JObj (dict_of v)) k = fld v k"
  by (cases v) (simp_all add: fld_def dict_of_def dict_get_def)

lemma check_version_info_rejects: "\<exists>e. check_version_info v = Inl e"
proof (cases "closed [(''v'', check_version), (''cli'', enum [lit ''1.0.0'']), (''protocol'', enum []),
    (''storage'', enum []), (''estimator'', enum [lit ''dense-v1'']), (''profiles'', is_arr)] v")
  case (Inr u)
  then have "enum [] (fld v ''protocol'') = Inr ()"
    by (intro closed_fld(1)) auto
  then show ?thesis by (simp add: enum_def requireE_def split: json.splits)
qed (simp add: check_version_info_def)

lemma kind_of_iff: "kind_of v = Some k \<longleftrightarrow> v = JStr (kind_name k)"
proof -
  have "find (\<lambda>k. kind_name k = s) EVENT_KINDS = Some k \<longleftrightarrow> s = kind_name k" for s
  proof
    assume "find (\<lambda>k. kind_name k = s) EVENT_KINDS = Some k"
    then show "s = kind_name k" by (auto simp: find_Some_iff)
  next
    assume s: "s = kind_name k"
    have "find (\<lambda>k. kind_name k = s) EVENT_KINDS \<noteq> None"
      by (simp add: find_None_iff EVENT_KINDS_complete s)
    then obtain k' where "find (\<lambda>k. kind_name k = s) EVENT_KINDS = Some k'" by auto
    moreover from this have "kind_name k' = s" by (auto simp: find_Some_iff)
    ultimately show "find (\<lambda>k. kind_name k = s) EVENT_KINDS = Some k" by (simp add: s)
  qed
  then show ?thesis by (auto simp: kind_of_def split: json.splits)
qed

section \<open>Properties\<close>

lemma check_catalog_distinct:
  "check_catalog ms ids = Inr () \<Longrightarrow>
     distinct (map (\<lambda>m. fld m ''id'') ms) \<and> set (map (\<lambda>m. fld m ''id'') ms) \<inter> set ids = {} \<and>
     (\<forall>m \<in> set ms. check_model m = Inr ())"
  by (induction ms ids rule: check_catalog.induct) (auto simp: result_simps split: if_splits)

text \<open>C18: a validated run configuration is closed (exactly the eleven keys), bounded in every budget and meter
  setting, consistent between profile and energy budget, and has no zero budget and no model listed twice.\<close>

theorem check_config_sound:
  assumes "check_config v = Inr v'"
  shows "fst ` set (dict_of v) = lit ` {''v'', ''profile'', ''workspace_root'', ''budgets'', ''meter'', ''pids_max'',
      ''memory_max_bytes'', ''log_max_bytes'', ''model_catalog'', ''network'', ''flops_trust''} \<and>
    (let b = fld v ''budgets''; m = fld v ''meter''; rapl = (fld v ''profile'' = JStr (lit ''linux-rapl-v1''))
     in 0 \<le> int_of (fld b ''spawns'') \<and> int_of (fld b ''spawns'') \<le> 1024 \<and>
        1000 \<le> u_of (fld b ''max_wall_us'') \<and> u_of (fld b ''max_wall_us'') \<le> 86400000000 \<and>
        (fld b ''max_energy_uj'' = JNull \<longleftrightarrow> \<not> rapl) \<and> (rapl \<or> fld b ''max_flops'' \<noteq> JNull) \<and>
        (fld b ''max_energy_uj'' = JNull \<or> 0 < u_of (fld b ''max_energy_uj'')) \<and>
        (fld b ''max_flops'' = JNull \<or> 0 < u_of (fld b ''max_flops'') \<and> arr_of (fld v ''model_catalog'') \<noteq> []) \<and>
        10000 \<le> u_of (fld m ''interval_us'') \<and> 2 * u_of (fld m ''interval_us'') \<le> u_of (fld m ''stale_us'') \<and>
        u_of (fld m ''stale_us'') \<le> 5000000 \<and> 1000 \<le> u_of (fld m ''kill_deadline_us'') \<and>
        u_of (fld m ''kill_deadline_us'') \<le> 5000000 \<and>
        distinct (map (\<lambda>x. fld x ''id'') (arr_of (fld v ''model_catalog''))) \<and>
        (\<forall>x \<in> set (arr_of (fld v ''model_catalog'')). check_model x = Inr ()))"
proof -
  have c: "closed config_fields v = Inr ()" and r: "config_rules v = Inr ()"
    and cat: "check_catalog (arr_of (fld v ''model_catalog'')) [] = Inr ()"
    using assms by (auto simp: check_config_def result_simps)
  have keys: "fst ` set (dict_of v) = lit ` fst ` set config_fields"
    using c by (rule closed_keys)
  have f: "check_budget (fld v ''budgets'') = Inr ()" "check_meter (fld v ''meter'') = Inr ()"
    "enum [lit ''linux-rapl-v1'', lit ''linux-ledger-v1''] (fld v ''profile'') = Inr ()"
    using closed_fld(1) [OF c] by (simp_all add: config_fields_def)
  have budget: "0 \<le> int_of (fld (fld v ''budgets'') ''spawns'')" "int_of (fld (fld v ''budgets'') ''spawns'') \<le> 1024"
    "1000 \<le> u_of (fld (fld v ''budgets'') ''max_wall_us'')" "u_of (fld (fld v ''budgets'') ''max_wall_us'') \<le> 86400000000"
    using f(1) by (auto simp: check_budget_def int_range_def result_simps)
  have meter: "10000 \<le> u_of (fld (fld v ''meter'') ''interval_us'')"
    "2 * u_of (fld (fld v ''meter'') ''interval_us'') \<le> u_of (fld (fld v ''meter'') ''stale_us'')"
    "u_of (fld (fld v ''meter'') ''stale_us'') \<le> 5000000" "1000 \<le> u_of (fld (fld v ''meter'') ''kill_deadline_us'')"
    "u_of (fld (fld v ''meter'') ''kill_deadline_us'') \<le> 5000000"
    using f(2) by (auto simp: check_meter_def Let_def result_simps split: if_splits)
  have prof: "fld v ''profile'' = JStr (lit ''linux-rapl-v1'') \<or> fld v ''profile'' = JStr (lit ''linux-ledger-v1'')"
    using f(3) by (auto simp: enum_def result_simps split: json.splits)
  have nonneg: "0 \<le> u_of x" for x by (simp add: u_of_def py_int_def)
  have rules: "(fld (fld v ''budgets'') ''max_energy_uj'' = JNull \<longleftrightarrow> fld v ''profile'' \<noteq> JStr (lit ''linux-rapl-v1''))"
    "fld v ''profile'' = JStr (lit ''linux-rapl-v1'') \<or> fld (fld v ''budgets'') ''max_flops'' \<noteq> JNull"
    "fld (fld v ''budgets'') ''max_energy_uj'' = JNull \<or> 0 < u_of (fld (fld v ''budgets'') ''max_energy_uj'')"
    "fld (fld v ''budgets'') ''max_flops'' = JNull \<or>
      0 < u_of (fld (fld v ''budgets'') ''max_flops'') \<and> arr_of (fld v ''model_catalog'') \<noteq> []"
    using r prof nonneg [of "fld (fld v ''budgets'') ''max_energy_uj''"] nonneg [of "fld (fld v ''budgets'') ''max_flops''"]
    by (auto simp: config_rules_def Let_def split: if_splits)
  show ?thesis
    unfolding Let_def keys using budget meter rules check_catalog_distinct [OF cat]
    by (simp add: config_fields_def)
qed

text \<open>The version-info validator rejects every document, because it asks a text enumeration to admit the
  number 1.\<close>

theorem version_info_never_valid: "check_version_info v \<noteq> Inr u"
  using check_version_info_rejects [of v] by auto


text \<open>A model and a configuration that the validators accept.\<close>

definition example_model :: json where
  "example_model =
    JObj [(lit ''id'', JStr (lit ''m'')), (lit ''kind'', JStr (lit ''dense-v1'')),
        (lit ''parameters'', JStr (lit ''90'')), (lit ''layers'', JInt 1), (lit ''hidden'', JInt 1),
        (lit ''tokenizer_hash'', JStr (replicate 64 97)), (lit ''artifact_hash'', JStr (replicate 64 97)),
        (lit ''safety_milli'', JInt 1000)]"

definition example_config :: json where
  "example_config =
    JObj [(lit ''v'', JInt 1), (lit ''profile'', JStr (lit ''linux-ledger-v1'')),
     (lit ''workspace_root'', JStr (lit ''/w'')),
     (lit ''budgets'', JObj [(lit ''max_flops'', JStr (lit ''90'')), (lit ''max_energy_uj'', JNull),
        (lit ''spawns'', JInt 2), (lit ''max_wall_us'', JStr (lit ''20000''))]),
     (lit ''meter'', JObj [(lit ''interval_us'', JStr (lit ''10000'')), (lit ''stale_us'', JStr (lit ''20000'')),
        (lit ''kill_deadline_us'', JStr (lit ''20000''))]),
     (lit ''pids_max'', JInt 2), (lit ''memory_max_bytes'', JStr (lit ''67108864'')),
     (lit ''log_max_bytes'', JStr (lit ''4194304'')),
     (lit ''model_catalog'', JArr [example_model]),
     (lit ''network'', JArr []), (lit ''flops_trust'', JStr (lit ''cooperative''))]"

text \<open>A number text that the validators accept, with its value.\<close>

lemma u_text:
  "check_u (JStr (lit ''90'')) = Inr (lit ''90'')" "u_of (JStr (lit ''90'')) = 90"
  "check_u (JStr (lit ''10000'')) = Inr (lit ''10000'')" "u_of (JStr (lit ''10000'')) = 10000"
  "check_u (JStr (lit ''20000'')) = Inr (lit ''20000'')" "u_of (JStr (lit ''20000'')) = 20000"
  "check_u (JStr (lit ''4194304'')) = Inr (lit ''4194304'')" "u_of (JStr (lit ''4194304'')) = 4194304"
  "check_u (JStr (lit ''67108864'')) = Inr (lit ''67108864'')" "u_of (JStr (lit ''67108864'')) = 67108864"
  by (simp_all add: check_u_def dollar_def u_re_def lit_def py_int_def dec_val_def U_MAX_def u_of_def str_of_def
      chop_newline_def is_digit_def)

lemmas shape_defs = fld_def dict_get_def closed_def check_u_or_null_def nullable_def chk_def is_int_def int_range_def
  int_of_def arr_of_def is_arr_def enum_def requireE_def

lemma example_model_checks: "check_model example_model = Inr ()"
proof -
  have "check_hash (JStr (replicate 64 97)) = Inr (replicate 64 97)"
    by (simp add: check_hash_def dollar_def hash_re_def list_all_iff is_hex_lower_def)
  moreover have "check_model_name (JStr (lit ''m'')) = Inr (lit ''m'')"
    by (simp add: check_model_name_def dollar_def model_name_re_def lit_def is_lower_def)
  ultimately show "?thesis"
    by (simp add: example_model_def shape_defs check_model_def u_text check_model_dims_def estimator_bounds)
qed

lemma example_config_checks:
  "check_config example_config = Inr (JObj (set_item (dict_of example_config) ''network'' (JArr [])))"
proof -
  have "check_budget (fld example_config ''budgets'') = Inr ()" "check_meter (fld example_config ''meter'') = Inr ()"
    by (simp_all add: check_budget_def check_meter_def example_config_def shape_defs u_text)
  moreover have "check_catalog (arr_of (fld example_config ''model_catalog'')) [] = Inr ()"
    using example_model_checks by (simp add: example_config_def shape_defs)
  moreover have "config_rules example_config = Inr ()"
    by (simp add: example_config_def shape_defs config_rules_def u_text)
  moreover have "check_path (JStr (lit ''/w'')) = Inr (lit ''/w'')"
    by (simp add: check_path_def lit_def startswith_def utf8_encode_def utf8_bytes_def utf8_char_def is_surrogate_def)
  ultimately show ?thesis
    by (simp add: check_config_def example_config_def shape_defs config_fields_def u_text check_version_def)
qed

theorem check_config_sound_witness:
  "int_of (fld (fld example_config ''budgets'') ''spawns'') \<le> 1024 \<and>
   (\<exists>v'. check_config example_config = Inr v')"
  using check_config_sound [OF example_config_checks] example_config_checks by (simp add: Let_def)

end
