(* ===== verification/Core.thy ===== *)
theory Core imports SchemaEvents "HOL-Library.AList" begin

text \<open>
  Models \<open>src/lexwatt/core.py\<close>: the run-state reducer \<open>RunCore\<close>, one definition per method, and
  \<open>choose_route\<close>. The object is the record \<open>run_core\<close>; a Python dict is an association list in
  insertion order (\<open>AList.update\<close> is \<open>d[k] = v\<close>), and the dataclasses are records. An operation
  returns what the method returns or raises together with the object as it is left, so that an
  exception raised half way leaves the fields already assigned.

  Wire objects (configuration, actions, work, tokens, reservations) are JSON values, as in the
  code; the engine validates them before it calls the core, so their fields are read with \<open>fld\<close>.
  The entries \<open>_rec\<close> and \<open>_arec\<close> of two results are references to records that are also in the
  object's tables; the results here carry the other entries.
\<close>

section \<open>Constants and records\<close>

definition TOKEN_TTL_US :: int where "TOKEN_TTL_US = 1000000"
definition MAX_INFLIGHT_ACTIONS :: nat where "MAX_INFLIGHT_ACTIONS = 32"
definition ROUTE_MAX_MODELS :: nat where "ROUTE_MAX_MODELS = 32"

record outcome =
  oc_events :: "event list"
  oc_result :: json
  oc_error :: "code option"

abbreviation no_outcome :: outcome where
  "no_outcome \<equiv> \<lparr>oc_events = [], oc_result = JNull, oc_error = None\<rparr>"

record token_rec =
  tk_token :: json
  tk_channel_id :: pystr
  tk_action_hash :: pystr
  tk_expires_us :: int
  tk_state :: token_state
  tk_action_id :: "pystr option"

record action_rec =
  ac_action_id :: pystr
  ac_channel_id :: pystr
  ac_kind :: json
  ac_token_id :: json
  ac_state :: action_state
  ac_result :: json
  ac_error :: json
  ac_exit :: json

record compute_rec =
  cp_reservation :: json
  cp_channel_id :: pystr

record run_core =
  rc_run_id :: pystr
  rc_key_id :: pystr
  rc_config :: json
  rc_state :: run_state
  rc_stop_reason :: "reason option"
  rc_charged_flops :: int
  rc_spawn_issued :: int
  rc_tokens :: "(pystr \<times> token_rec) list"
  rc_actions :: "(pystr \<times> action_rec) list"
  rc_computes :: "(pystr \<times> compute_rec) list"
  rc_channels :: "pystr set"
  rc_issue_seq :: int
  rc_root_exit :: json
  rc_energy_uj :: "int option"
  rc_energy_complete :: bool
  rc_kill_issued_at_us :: "int option"
  rc_stop_latched_us :: "int option"
  rc_inflight :: int
  rc_final_state :: "run_state option"

type_synonym step = "(exn + outcome) \<times> run_core"

definition RunCore :: "pystr \<Rightarrow> pystr \<Rightarrow> json \<Rightarrow> run_core" where
  "RunCore run_id key_id config =
    \<lparr>rc_run_id = run_id, rc_key_id = key_id, rc_config = config, rc_state = CREATED, rc_stop_reason = None,
     rc_charged_flops = 0, rc_spawn_issued = 0, rc_tokens = [], rc_actions = [], rc_computes = [],
     rc_channels = {}, rc_issue_seq = 0, rc_root_exit = JNull, rc_energy_uj = None, rc_energy_complete = False,
     rc_kill_issued_at_us = None, rc_stop_latched_us = None, rc_inflight = 0, rc_final_state = None\<rparr>"

definition budgets :: "run_core \<Rightarrow> json" where "budgets c = fld (rc_config c) ''budgets''"

text \<open>The dicts \<open>_catalog\<close> and \<open>_network\<close>; of two entries with the same key the later one wins.\<close>

definition catalog :: "run_core \<Rightarrow> json \<Rightarrow> json option" where
  "catalog c model_id =
    map_of (rev (map (\<lambda>m. (fld m ''id'', m)) (arr_of (fld (rc_config c) ''model_catalog'')))) model_id"

definition network :: "run_core \<Rightarrow> json \<times> json \<Rightarrow> json option" where
  "network c key =
    map_of (rev (map (\<lambda>d. ((fld d ''origin'', fld d ''path''), d)) (arr_of (fld (rc_config c) ''network'')))) key"

section \<open>Helpers\<close>

definition live_states :: "run_state list" where
  "live_states = [CREATED, ARMING, RUNNING, STOPPING, UNCONFIRMED]"

definition live :: "run_core \<Rightarrow> bool" where
  "live c \<longleftrightarrow> rc_state c \<in> set live_states"

definition deny :: "run_core \<Rightarrow> pystr \<Rightarrow> code \<Rightarrow> outcome" where
  "deny c request_id code =
    \<lparr>oc_events = (if live c then
       [(K_RequestDenied, JObj [(lit ''request_id'', JStr request_id), (lit ''code'', JStr (code_name code))])]
       else []),
     oc_result = JNull, oc_error = Some code\<rparr>"

definition add_event :: "outcome \<Rightarrow> event \<Rightarrow> outcome" where
  "add_event out e = out\<lparr>oc_events := oc_events out @ [e]\<rparr>"

definition reason_data :: "reason \<Rightarrow> json" where
  "reason_data reason = JObj [(lit ''reason'', JStr (reason_name reason))]"

definition latch :: "reason \<Rightarrow> outcome \<Rightarrow> run_core \<Rightarrow> outcome \<times> run_core" where
  "latch reason out c =
    (if rc_state c \<in> {ARMING, RUNNING} \<and> rc_stop_reason c = None
     then (add_event out (K_StopLatched, reason_data reason),
           c\<lparr>rc_stop_reason := Some reason, rc_state := STOPPING\<rparr>)
     else (out, c))"

definition fault_or_latch :: "reason \<Rightarrow> outcome \<Rightarrow> run_core \<Rightarrow> outcome \<times> run_core" where
  "fault_or_latch reason out c =
    (if rc_stop_reason c = None \<and> rc_state c \<in> {ARMING, RUNNING} then latch reason out c
     else if rc_state c \<in> {STOPPING, UNCONFIRMED, FINALIZING}
     then (add_event out (K_FaultObserved, reason_data reason), c)
     else (out, c))"

text \<open>The pair of an outcome and an object as the value of an operation.\<close>

definition done_step :: "outcome \<times> run_core \<Rightarrow> step" where
  "done_step oc = (Inr (fst oc), snd oc)"

section \<open>Admission policy\<close>

definition default_roots :: "pystr list" where
  "default_roots = [lit ''/work'', lit ''/usr'', lit ''/bin'', lit ''/lib'', lit ''/opt'']"

definition rstrip_slashes :: "pystr \<Rightarrow> pystr" where
  "rstrip_slashes s = rev (dropWhile (\<lambda>ch. ch = 47) (rev s))"

definition approved_roots :: "run_core \<Rightarrow> pystr list" where
  "approved_roots c =
    (if has_key (rc_config c) ''_approved_roots''
     then map str_of (arr_of (fld (rc_config c) ''_approved_roots'')) else default_roots)"

definition in_approved_roots :: "run_core \<Rightarrow> pystr \<Rightarrow> bool" where
  "in_approved_roots c path =
    list_ex (\<lambda>r. path = r \<or> startswith path (rstrip_slashes r @ lit ''/'')) (approved_roots c)"

definition action_policy :: "run_core \<Rightarrow> json \<Rightarrow> exn + unit" where
  "action_policy c action =
    (if fld action ''kind'' = JStr (lit ''spawn'') then
       (let execv = fld action ''exec''
        in case arr_of (fld execv ''argv'') of
             [] \<Rightarrow> Inl (Py Index_Error)
           | argv0 # _ \<Rightarrow>
               requireE (in_approved_roots c (str_of argv0) \<and> in_approved_roots c (str_of (fld execv ''cwd'')))
                 (Lex ACTION_DENIED))
     else
       (case network c (fld action ''origin'', fld action ''path'') of
          None \<Rightarrow> Inl (Lex ACTION_DENIED)
        | Some dest \<Rightarrow>
            if int_of (fld action ''max_response_bytes'') > int_of (fld dest ''max_response_bytes'')
            then Inl (Lex ACTION_DENIED)
            else eachE (\<lambda>ip. case check_public_ip ip of Inl e \<Rightarrow> Inl (Lex ACTION_DENIED) | Inr _ \<Rightarrow> Inr ())
                   (arr_of (fld dest ''ips''))))"

section \<open>Token lifecycle\<close>

definition token_body :: "run_core \<Rightarrow> pystr \<Rightarrow> pystr \<Rightarrow> pystr \<Rightarrow> pystr \<Rightarrow> pystr \<Rightarrow> pystr \<Rightarrow> json" where
  "token_body c token_id channel_id ahash issued expires seq =
    JObj [(lit ''v'', JInt 1), (lit ''key_id'', JStr (rc_key_id c)), (lit ''token_id'', JStr token_id),
          (lit ''run_id'', JStr (rc_run_id c)), (lit ''channel_id'', JStr channel_id),
          (lit ''action_hash'', JStr ahash), (lit ''issued_us'', JStr issued), (lit ''expires_us'', JStr expires),
          (lit ''issue_seq'', JStr seq)]"

definition token_issued_data :: "pystr \<Rightarrow> pystr \<Rightarrow> json \<Rightarrow> pystr \<Rightarrow> pystr \<Rightarrow> pystr \<Rightarrow> pystr \<Rightarrow> json" where
  "token_issued_data token_id channel_id kind ahash issued expires seq =
    JObj [(lit ''token_id'', JStr token_id), (lit ''channel_id'', JStr channel_id), (lit ''kind'', kind),
          (lit ''action_hash'', JStr ahash), (lit ''issued_us'', JStr issued), (lit ''expires_us'', JStr expires),
          (lit ''issue_seq'', JStr seq)]"

text \<open>The values the body is made of, computed after the slot has been charged.\<close>

definition token_parts :: "json \<Rightarrow> int \<Rightarrow> int \<Rightarrow> exn + pystr \<times> pystr \<times> pystr \<times> pystr" where
  "token_parts action now_us issue_seq =
    bindE (action_hash action) (\<lambda>h.
    bindE (u_str now_us) (\<lambda>issued.
    bindE (u_str (now_us + TOKEN_TTL_US)) (\<lambda>expires.
    bindE (u_str issue_seq) (\<lambda>seq. Inr (h, issued, expires, seq)))))"

definition token_issue :: "pystr \<Rightarrow> json \<Rightarrow> int \<Rightarrow> pystr \<Rightarrow> pystr \<Rightarrow> run_core \<Rightarrow> step" where
  "token_issue channel_id action now_us token_id request_id c =
    (if rc_state c \<noteq> RUNNING then (Inr (no_outcome\<lparr>oc_error := Some STOPPED\<rparr>), c)
     else (case action_policy c action of
       Inl (Lex code) \<Rightarrow> (Inr (deny c request_id code), c)
     | Inl e \<Rightarrow> (Inl e, c)
     | Inr _ \<Rightarrow>
       (let cap = int_of (fld (budgets c) ''spawns'')
        in if rc_spawn_issued c \<ge> cap then
             done_step (latch R_SPAWN_CAP (deny c request_id SPAWN_CAP) c)
           else
             (let c1 = c\<lparr>rc_spawn_issued := rc_spawn_issued c + 1, rc_issue_seq := rc_issue_seq c + 1\<rparr>
              in case token_parts action now_us (rc_issue_seq c1) of
                   Inl e \<Rightarrow> (Inl e, c1)
                 | Inr (h, issued, expires, seq) \<Rightarrow>
                     (let body = token_body c1 token_id channel_id h issued expires seq;
                          rec = \<lparr>tk_token = JObj [(lit ''body'', body), (lit ''sig'', JNull)],
                                 tk_channel_id = channel_id, tk_action_hash = h,
                                 tk_expires_us = now_us + TOKEN_TTL_US, tk_state = T_ISSUED, tk_action_id = None\<rparr>
                      in (Inr \<lparr>oc_events = [(K_TokenIssued,
                                 token_issued_data token_id channel_id (fld action ''kind'') h issued expires seq)],
                               oc_result = JObj [(lit ''token_body'', body),
                                 (lit ''remaining_spawns'', JInt (cap - rc_spawn_issued c1))],
                               oc_error = None\<rparr>,
                          c1\<lparr>rc_tokens := AList.update token_id rec (rc_tokens c1)\<rparr>))))))"

definition lookup_str :: "(pystr \<times> 'v) list \<Rightarrow> json \<Rightarrow> 'v option" where
  "lookup_str m k = (case k of JStr s \<Rightarrow> map_of m s | _ \<Rightarrow> None)"

definition expired_data :: "token_rec \<Rightarrow> json" where
  "expired_data rec = JObj [(lit ''token_id'', fld (fld (tk_token rec) ''body'') ''token_id'')]"

text \<open>The disjunction of lines 212 to 217: the hash is computed only if the first two tests pass.\<close>

definition token_mismatch :: "run_core \<Rightarrow> pystr \<Rightarrow> json \<Rightarrow> json \<Rightarrow> exn + bool" where
  "token_mismatch c channel_id body action =
    (if fld body ''run_id'' \<noteq> JStr (rc_run_id c) \<or> fld body ''channel_id'' \<noteq> JStr channel_id then Inr True
     else bindE (action_hash action) (\<lambda>h.
       Inr (fld body ''action_hash'' \<noteq> JStr h \<or> lookup_str (rc_tokens c) (fld body ''token_id'') = None)))"

definition dispatch :: "pystr \<Rightarrow> json \<Rightarrow> json \<Rightarrow> int \<Rightarrow> pystr \<Rightarrow> pystr \<Rightarrow> run_core \<Rightarrow> step" where
  "dispatch channel_id token action now_us action_id request_id c =
    (if rc_state c \<noteq> RUNNING then (Inr (no_outcome\<lparr>oc_error := Some STOPPED\<rparr>), c)
     else
       (let body = fld token ''body''; tid = str_of (fld body ''token_id'')
        in case token_mismatch c channel_id body action of
             Inl e \<Rightarrow> (Inl e, c)
           | Inr mismatch \<Rightarrow>
             (case lookup_str (rc_tokens c) (fld body ''token_id'') of
                None \<Rightarrow> (Inr (deny c request_id TOKEN_BINDING), c)
              | Some rec \<Rightarrow>
                  if mismatch then (Inr (deny c request_id TOKEN_BINDING), c)
                  else if tk_state rec = T_SPENT then (Inr (deny c request_id TOKEN_USED), c)
                  else if tk_state rec = T_EXPIRED then (Inr (deny c request_id TOKEN_EXPIRED), c)
                  else if now_us \<ge> tk_expires_us rec then
                    (let c1 = c\<lparr>rc_tokens := AList.update tid (rec\<lparr>tk_state := T_EXPIRED\<rparr>) (rc_tokens c)\<rparr>;
                         out = deny c1 request_id TOKEN_EXPIRED
                     in (Inr (out\<lparr>oc_events := (K_TokenExpired, expired_data rec) # oc_events out\<rparr>), c1))
                  else if rc_inflight c \<ge> int MAX_INFLIGHT_ACTIONS then
                    (Inr (no_outcome\<lparr>oc_error := Some BUSY\<rparr>), c)
                  else
                    (let rec' = rec\<lparr>tk_state := T_SPENT, tk_action_id := Some action_id\<rparr>;
                         arec = \<lparr>ac_action_id = action_id, ac_channel_id = channel_id, ac_kind = fld action ''kind'',
                                 ac_token_id = fld body ''token_id'', ac_state = A_DISPATCHED, ac_result = JNull,
                                 ac_error = JNull, ac_exit = JNull\<rparr>
                     in (Inr \<lparr>oc_events = [(K_TokenSpent, JObj [(lit ''token_id'', fld body ''token_id''),
                                                          (lit ''action_id'', JStr action_id)])],
                              oc_result = JObj [(lit ''action_id'', JStr action_id), (lit ''state'', JStr (lit ''DISPATCHED'')),
                                                (lit ''_action'', action)],
                              oc_error = None\<rparr>,
                         c\<lparr>rc_tokens := AList.update tid rec' (rc_tokens c),
                           rc_inflight := rc_inflight c + 1,
                           rc_actions := AList.update action_id arec (rc_actions c)\<rparr>)))))"

text \<open>The loop of \<open>expire_tokens\<close> over the records in insertion order.\<close>

fun expire_loop :: "int \<Rightarrow> (pystr \<times> token_rec) list \<Rightarrow> (pystr \<times> token_rec) list \<times> event list" where
  "expire_loop now_us [] = ([], [])"
| "expire_loop now_us ((k, rec) # recs) =
    (let (recs', evs) = expire_loop now_us recs
     in if tk_state rec = T_ISSUED \<and> now_us \<ge> tk_expires_us rec
        then ((k, rec\<lparr>tk_state := T_EXPIRED\<rparr>) # recs', (K_TokenExpired, expired_data rec) # evs)
        else ((k, rec) # recs', evs))"

definition expire_tokens :: "int \<Rightarrow> run_core \<Rightarrow> outcome \<times> run_core" where
  "expire_tokens now_us c =
    (if rc_state c \<noteq> RUNNING then (no_outcome, c)
     else (let (recs, evs) = expire_loop now_us (rc_tokens c)
           in (no_outcome\<lparr>oc_events := evs\<rparr>, c\<lparr>rc_tokens := recs\<rparr>)))"

section \<open>Action lifecycle\<close>

definition action_view :: "pystr \<Rightarrow> pystr \<Rightarrow> pystr \<Rightarrow> run_core \<Rightarrow> outcome" where
  "action_view channel_id action_id request_id c =
    (case map_of (rc_actions c) action_id of
       None \<Rightarrow> deny c request_id NOT_FOUND
     | Some arec \<Rightarrow>
         if ac_channel_id arec \<noteq> channel_id then deny c request_id UNAUTHORIZED
         else no_outcome\<lparr>oc_result := JObj [(lit ''action_id'', JStr action_id),
                (lit ''state'', JStr (action_state_name (ac_state arec))), (lit ''result'', ac_result arec),
                (lit ''error'', ac_error arec)]\<rparr>)"

text \<open>The sanitized audit: no arguments, no environment, no token, no body.\<close>

definition truthy_dict :: "json \<Rightarrow> bool" where
  "truthy_dict v \<longleftrightarrow> v \<noteq> JNull \<and> v \<noteq> JObj []"

definition audit :: "action_rec \<Rightarrow> action_state \<Rightarrow> json \<Rightarrow> json \<Rightarrow> json \<Rightarrow> json" where
  "audit arec st exit_info result error =
    (let http = (ac_kind arec = JStr (lit ''http_get'') \<and> truthy_dict result)
     in JObj [(lit ''action_id'', JStr (ac_action_id arec)), (lit ''state'', JStr (action_state_name st)),
              (lit ''kind'', ac_kind arec),
              (lit ''root_exit'', if ac_kind arec = JStr (lit ''spawn'') then exit_info else JNull),
              (lit ''http_status'', if http then fld result ''status'' else JNull),
              (lit ''body_hash'', if http then fld result ''body_hash'' else JNull),
              (lit ''error'', error)])"

text \<open>\<open>error or "ACTION_FAILED"\<close>\<close>

definition error_or_failed :: "json \<Rightarrow> json" where
  "error_or_failed error = (if error = JNull \<or> error = JStr [] then JStr (lit ''ACTION_FAILED'') else error)"

definition finish_states :: "run_state list" where "finish_states = [RUNNING, STOPPING, UNCONFIRMED]"

definition action_finish :: "pystr \<Rightarrow> json \<Rightarrow> json \<Rightarrow> json \<Rightarrow> run_core \<Rightarrow> outcome \<times> run_core" where
  "action_finish action_id result error exit_info c =
    (case map_of (rc_actions c) action_id of
       None \<Rightarrow> (no_outcome, c)
     | Some arec \<Rightarrow>
         if ac_state arec \<noteq> A_DISPATCHED then (no_outcome, c)
         else if rc_state c \<notin> set finish_states then (no_outcome, c)
         else
           (let arec' = (if error = JNull \<and> result \<noteq> JNull
                         then arec\<lparr>ac_state := A_SUCCEEDED, ac_result := result\<rparr>
                         else arec\<lparr>ac_state := A_FAILED, ac_error := error_or_failed error, ac_result := result,
                                   ac_exit := exit_info\<rparr>);
                audit_data = (if error = JNull \<and> result \<noteq> JNull
                              then audit arec A_SUCCEEDED exit_info result JNull
                              else audit arec A_FAILED exit_info result (error_or_failed error))
            in (no_outcome\<lparr>oc_events := [(K_ActionFinished, JObj [(lit ''action'', audit_data)])]\<rparr>,
                c\<lparr>rc_inflight := rc_inflight c - 1,
                  rc_actions := AList.update action_id arec' (rc_actions c)\<rparr>)))"

definition action_unknown :: "pystr \<Rightarrow> code \<Rightarrow> run_core \<Rightarrow> outcome \<times> run_core" where
  "action_unknown action_id code c =
    (case map_of (rc_actions c) action_id of
       None \<Rightarrow> (no_outcome, c)
     | Some arec \<Rightarrow>
         if ac_state arec \<noteq> A_DISPATCHED then (no_outcome, c)
         else if rc_state c \<notin> set finish_states then (no_outcome, c)
         else
           (no_outcome\<lparr>oc_events := [(K_ActionUnknown, JObj [(lit ''action_id'', JStr action_id),
              (lit ''code'', JStr (code_name code))])]\<rparr>,
            c\<lparr>rc_inflight := rc_inflight c - 1,
              rc_actions := AList.update action_id
                (arec\<lparr>ac_state := A_UNKNOWN, ac_error := JStr (code_name code)\<rparr>) (rc_actions c)\<rparr>))"

section \<open>Compute lifecycle\<close>

definition admit_flops :: "run_core \<Rightarrow> int \<Rightarrow> bool" where
  "admit_flops c charge \<longleftrightarrow>
    (let cap = fld (budgets c) ''max_flops''
     in if cap = JNull then True else rc_charged_flops c + charge \<le> u_of cap)"

definition reservation :: "pystr \<Rightarrow> json \<Rightarrow> pystr \<Rightarrow> json" where
  "reservation compute_id work charged =
    JObj [(lit ''compute_id'', JStr compute_id), (lit ''work'', work), (lit ''charged_flops'', JStr charged),
          (lit ''state'', JStr (lit ''CHARGED'')), (lit ''observed_output_tokens'', JNull),
          (lit ''observed_flops'', JNull)]"

definition reservation_data :: "json \<Rightarrow> json" where
  "reservation_data res = JObj [(lit ''reservation'', res)]"

definition compute_reserve :: "pystr \<Rightarrow> json \<Rightarrow> int \<Rightarrow> pystr \<Rightarrow> pystr \<Rightarrow> run_core \<Rightarrow> step" where
  "compute_reserve channel_id work now_us compute_id request_id c =
    (if rc_state c \<noteq> RUNNING then (Inr (no_outcome\<lparr>oc_error := Some STOPPED\<rparr>), c)
     else (case check_work work of
       Inl e \<Rightarrow> (Inl e, c)
     | Inr _ \<Rightarrow>
       (case catalog c (fld work ''model_id'') of
          None \<Rightarrow> (Inr (deny c request_id UNSUPPORTED_MODEL), c)
        | Some model \<Rightarrow>
          (case estimate_for_model_work model work of
             Inl e \<Rightarrow> (Inl e, c)
           | Inr est \<Rightarrow>
             (let charge = py_int (est_charged_flops est)
              in if \<not> admit_flops c charge then
                   done_step (latch R_FLOPS_CAP (deny c request_id FLOPS_CAP) c)
                 else
                   (let c1 = c\<lparr>rc_charged_flops := rc_charged_flops c + charge\<rparr>
                    in case u_str charge of
                         Inl e \<Rightarrow> (Inl e, c1)
                       | Inr charged \<Rightarrow>
                         (let res = reservation compute_id work charged
                          in (Inr \<lparr>oc_events = [(K_ComputeReserved, reservation_data res)], oc_result = res,
                                   oc_error = None\<rparr>,
                              c1\<lparr>rc_computes := AList.update compute_id
                                   \<lparr>cp_reservation = res, cp_channel_id = channel_id\<rparr> (rc_computes c1)\<rparr>))))))))"

definition finish_reservation :: "json \<Rightarrow> pystr \<Rightarrow> pystr \<Rightarrow> json" where
  "finish_reservation res observed flops =
    JObj (set_item (set_item (set_item (dict_of res) ''state'' (JStr (lit ''FINISHED'')))
      ''observed_output_tokens'' (JStr observed)) ''observed_flops'' (JStr flops))"

definition compute_finish :: "pystr \<Rightarrow> pystr \<Rightarrow> json \<Rightarrow> pystr \<Rightarrow> run_core \<Rightarrow> step" where
  "compute_finish channel_id compute_id observed_output_tokens request_id c =
    (case check_u observed_output_tokens of
       Inl e \<Rightarrow> (Inl e, c)
     | Inr observed_text \<Rightarrow>
       (case map_of (rc_computes c) compute_id of
          None \<Rightarrow> (Inr (deny c request_id NOT_FOUND), c)
        | Some rec \<Rightarrow>
          if cp_channel_id rec \<noteq> channel_id then (Inr (deny c request_id UNAUTHORIZED), c)
          else
            (let res = cp_reservation rec; work = fld res ''work'';
                 observed = py_int observed_text; limit = u_of (fld work ''max_output_tokens'')
             in case catalog c (fld work ''model_id'') of
                  None \<Rightarrow> (Inl (Py Key_Error), c)
                | Some model \<Rightarrow>
                  if fld res ''state'' = JStr (lit ''FINISHED'') then
                    (if fld res ''observed_output_tokens'' = observed_output_tokens then
                       (Inr (no_outcome\<lparr>oc_result := res\<rparr>), c)
                     else if observed > limit then
                       done_step (latch R_FLOPS_CAP (deny c request_id ENVELOPE_EXCEEDED) c)
                     else (Inr (deny c request_id CONFLICT), c))
                  else if rc_state c \<noteq> RUNNING then (Inr (no_outcome\<lparr>oc_error := Some STOPPED\<rparr>), c)
                  else if observed > limit then
                    done_step (latch R_FLOPS_CAP (deny c request_id ENVELOPE_EXCEEDED) c)
                  else
                    (case estimate_from_parts (str_of (fld model ''kind'')) (u_of (fld model ''parameters''))
                        (int_of (fld model ''layers'')) (int_of (fld model ''hidden'')) (u_of (fld work ''input_tokens''))
                        observed (int_of (fld work ''batch'')) (int_of (fld model ''safety_milli'')) of
                       Inl e \<Rightarrow> (Inl e, c)
                     | Inr est \<Rightarrow>
                       (let res' = finish_reservation res observed_text (est_charged_flops est)
                        in (Inr \<lparr>oc_events = [(K_ComputeFinished, reservation_data res')], oc_result = res',
                                 oc_error = None\<rparr>,
                            c\<lparr>rc_computes := AList.update compute_id (rec\<lparr>cp_reservation := res'\<rparr>) (rc_computes c)\<rparr>))))))"

section \<open>Stop and containment\<close>

definition stop_result :: "run_core \<Rightarrow> json" where
  "stop_result c = JObj [(lit ''state'', JStr (state_name (rc_state c))),
     (lit ''stop_reason'', case rc_stop_reason c of None \<Rightarrow> JNull | Some r \<Rightarrow> JStr (reason_name r))]"

definition stop :: "reason \<Rightarrow> run_core \<Rightarrow> outcome \<times> run_core" where
  "stop reason c =
    (if rc_stop_reason c \<noteq> None then (no_outcome\<lparr>oc_result := stop_result c\<rparr>, c)
     else (let (out, c1) = (if rc_state c \<in> {ARMING, RUNNING} then latch reason no_outcome c else (no_outcome, c))
           in (out\<lparr>oc_result := stop_result c1\<rparr>, c1)))"

definition kill_issued :: "bool \<Rightarrow> bool \<Rightarrow> int \<Rightarrow> run_core \<Rightarrow> outcome \<times> run_core" where
  "kill_issued cgroup_attempted group_attempted now_us c =
    (if rc_state c \<in> {STOPPING, UNCONFIRMED} then
       (no_outcome\<lparr>oc_events := [(K_KillIssued, JObj [(lit ''cgroup_attempted'', JBool cgroup_attempted),
          (lit ''group_attempted'', JBool group_attempted)])]\<rparr>,
        if rc_kill_issued_at_us c = None then c\<lparr>rc_kill_issued_at_us := Some now_us\<rparr> else c)
     else (no_outcome, c))"

text \<open>The state is assigned before \<open>u_str\<close> may raise.\<close>

definition kill_unconfirmed :: "int \<Rightarrow> run_core \<Rightarrow> step" where
  "kill_unconfirmed elapsed_us c =
    (if rc_state c = STOPPING then
       (let c1 = c\<lparr>rc_state := UNCONFIRMED\<rparr>
        in case u_str elapsed_us of
             Inl e \<Rightarrow> (Inl e, c1)
           | Inr s \<Rightarrow> (Inr (no_outcome\<lparr>oc_events := [(K_KillUnconfirmed, JObj [(lit ''elapsed_us'', JStr s)])]\<rparr>), c1))
     else (Inr no_outcome, c))"

definition containment_empty :: "json \<Rightarrow> json \<Rightarrow> run_core \<Rightarrow> outcome \<times> run_core" where
  "containment_empty final_sample root_exit c =
    (if rc_state c \<in> {STOPPING, UNCONFIRMED} then
       (let c1 = c\<lparr>rc_state := FINALIZING, rc_root_exit := (if root_exit \<noteq> JNull then root_exit else rc_root_exit c)\<rparr>
        in (no_outcome\<lparr>oc_events := [(K_ContainmentEmpty, JObj [(lit ''final_sample'', final_sample),
              (lit ''root_exit'', rc_root_exit c1)])]\<rparr>, c1))
     else (no_outcome, c))"

definition final_state_for :: "reason \<Rightarrow> run_state" where
  "final_state_for reason =
    (if reason \<in> set FAULT_REASONS then FAILED else if reason = R_ROOT_EXIT then COMPLETED else KILLED)"

definition kill_latency :: "run_core \<Rightarrow> exn + pystr" where
  "kill_latency c =
    (case (rc_kill_issued_at_us c, rc_stop_latched_us c) of
       (Some k, Some s) \<Rightarrow> u_str (k - s)
     | _ \<Rightarrow> Inr (lit ''0''))"

definition finalized_data :: "run_core \<Rightarrow> run_state \<Rightarrow> reason \<Rightarrow> json \<Rightarrow> exn + json" where
  "finalized_data c final reason coverage =
    bindE (kill_latency c) (\<lambda>latency.
    bindE (u_str (rc_charged_flops c)) (\<lambda>charged.
    bindE (case rc_energy_uj c of None \<Rightarrow> Inr JNull | Some e \<Rightarrow> bindE (u_str e) (\<lambda>s. Inr (JStr s))) (\<lambda>energy.
      Inr (JObj [(lit ''state'', JStr (state_name final)), (lit ''charged_flops'', JStr charged),
                 (lit ''energy_uj'', energy), (lit ''spawn_tokens_issued'', JInt (rc_spawn_issued c)),
                 (lit ''coverage'', coverage), (lit ''root_exit'', rc_root_exit c),
                 (lit ''stop_reason'', JStr (reason_name reason)), (lit ''kill_latency_us'', JStr latency),
                 (lit ''closed_effects'', JBool True)]))))"

definition finalize :: "json \<Rightarrow> int \<Rightarrow> run_core \<Rightarrow> step" where
  "finalize coverage now_us c =
    (if rc_state c \<noteq> FINALIZING then (Inr no_outcome, c)
     else
       (let reason = (case rc_stop_reason c of None \<Rightarrow> R_ROOT_EXIT | Some r \<Rightarrow> r);
            final = final_state_for reason;
            c1 = c\<lparr>rc_final_state := Some final\<rparr>
        in case finalized_data c1 final reason coverage of
             Inl e \<Rightarrow> (Inl e, c1)
           | Inr data \<Rightarrow> (Inr (no_outcome\<lparr>oc_events := [(K_RunFinalized, data)]\<rparr>), c1\<lparr>rc_state := final\<rparr>)))"

definition reject :: "code \<Rightarrow> run_core \<Rightarrow> outcome \<times> run_core" where
  "reject code c =
    (if rc_state c \<in> {CREATED, ARMING} then
       (no_outcome\<lparr>oc_events := [(K_RunRejected, JObj [(lit ''code'', JStr (code_name code))])]\<rparr>,
        c\<lparr>rc_state := REJECTED, rc_final_state := Some REJECTED\<rparr>)
     else (no_outcome, c))"

definition fault :: "reason \<Rightarrow> run_core \<Rightarrow> outcome \<times> run_core" where
  "fault reason c =
    (if rc_state c \<in> {ARMING, RUNNING} then latch reason no_outcome c
     else if rc_state c \<in> {STOPPING, UNCONFIRMED, FINALIZING}
     then (add_event no_outcome (K_FaultObserved, reason_data reason), c)
     else (no_outcome, c))"

section \<open>Routing\<close>

definition route_work :: "json \<Rightarrow> json \<Rightarrow> json" where
  "route_work m work_fields =
    JObj [(lit ''model_id'', fld m ''id''), (lit ''input_tokens'', fld work_fields ''input_tokens''),
          (lit ''max_output_tokens'', fld work_fields ''max_output_tokens''), (lit ''batch'', fld work_fields ''batch'')]"

text \<open>A \<open>LexwattError\<close> skips the model; any other exception leaves the loop.\<close>

fun route_loop :: "json list \<Rightarrow> json \<Rightarrow> int \<Rightarrow> (json \<times> estimate) option \<Rightarrow> exn + (json \<times> estimate) option" where
  "route_loop [] work_fields remaining best = Inr best"
| "route_loop (m # ms) work_fields remaining best =
    (case estimate_for_model_work m (route_work m work_fields) of
       Inl (Py e) \<Rightarrow> Inl (Py e)
     | Inl _ \<Rightarrow> route_loop ms work_fields remaining best
     | Inr est \<Rightarrow>
         (let cost = py_int (est_charged_flops est)
          in if cost > remaining then route_loop ms work_fields remaining best
             else (case best of
                 None \<Rightarrow> route_loop ms work_fields remaining (Some (m, est))
               | Some (b, best_est) \<Rightarrow>
                   if cost < py_int (est_charged_flops best_est) \<or>
                      (cost = py_int (est_charged_flops best_est) \<and> str_of (fld m ''id'') < str_of (fld b ''id''))
                   then route_loop ms work_fields remaining (Some (m, est))
                   else route_loop ms work_fields remaining best)))"

definition choose_route :: "json list \<Rightarrow> json \<Rightarrow> int \<Rightarrow> exn + (json \<times> estimate) option" where
  "choose_route models work_fields remaining_flops =
    (if length models > ROUTE_MAX_MODELS then Inl (Lex INVALID_INPUT)
     else bindE (route_loop models work_fields remaining_flops None)
       (\<lambda>best. Inr (map_option (\<lambda>(m, est). (fld m ''id'', est)) best)))"

section \<open>Properties\<close>

text \<open>Addresses of this host and of private networks: unspecified, loopback, link-local (with the metadata service) and private ones.\<close>

definition local_v4 :: "nat \<Rightarrow> bool" where
  "local_v4 n \<longleftrightarrow> n div 2 ^ 24 \<in> {0, 10, 127} \<or> n div 2 ^ 16 = 169 * 256 + 254 \<or> n div 2 ^ 16 = 192 * 256 + 168 \<or> n div 2 ^ 20 = 172 * 16 + 1"

definition local_v6 :: "nat \<Rightarrow> bool" where
  "local_v6 n \<longleftrightarrow> n \<in> {0, 1} \<or> n div 2 ^ 121 = 0x7E \<or> n div 2 ^ 118 = 0x3FA"

fun is_local :: "ip \<Rightarrow> bool" where
  "is_local (V4 n) \<longleftrightarrow> n < 2 ^ 32 \<and> local_v4 n"
| "is_local (V6 n _) \<longleftrightarrow> local_v6 n \<or> (n div 2 ^ 32 = 0xFFFF \<and> local_v4 (n mod 2 ^ 32))"

lemma local_v6_not_global: "local_v6 n \<Longrightarrow> \<not> is_global (V6 n scope)"
proof -
  assume l: "local_v6 n"
  have m: "n div 2 ^ 32 \<noteq> 0xFFFF"
  proof
    assume "n div 2 ^ 32 = 0xFFFF"
    then have "n div 2 ^ 32 div 2 ^ 89 = 0" "n div 2 ^ 32 div 2 ^ 86 = 0" "n \<noteq> 0" "n \<noteq> 1" by simp_all
    then have "n div 2 ^ 121 = 0" "n div 2 ^ 118 = 0" by (simp_all flip: div_mult2_eq)
    then show False using l \<open>n \<noteq> 0\<close> \<open>n \<noteq> 1\<close> by (simp add: local_v6_def)
  qed
  have p: "list_ex (in_net 128 n) IPV6_PRIVATE"
    using l by (auto simp: local_v6_def IPV6_PRIVATE_def in_net_def)
  have far: "n div 2 ^ 100 \<noteq> 0x20010030 div 2 ^ 4 \<and> n div 2 ^ 112 \<noteq> 0x2001"
  proof
    have "n div 2 ^ 112 div 2 ^ 9 = n div 2 ^ 121" "n div 2 ^ 112 div 2 ^ 6 = n div 2 ^ 118" by (simp_all flip: div_mult2_eq)
    then show b: "n div 2 ^ 112 \<noteq> 0x2001" using l by (auto simp: local_v6_def)
    have "n div 2 ^ 100 div 2 ^ 12 = n div 2 ^ 112" by (simp flip: div_mult2_eq)
    then show "n div 2 ^ 100 \<noteq> 0x20010030 div 2 ^ 4" using b by auto
  qed
  have "\<not> list_ex (in_net 128 n) IPV6_PRIVATE_EXCEPTIONS"
  proof -
    have "n div 2 ^ 96 div 2 ^ 16 = n div 2 ^ 112" "n div 2 ^ 80 div 2 ^ 32 = n div 2 ^ 112" "n div 2 ^ 100 div 2 ^ 12 = n div 2 ^ 112"
      by (simp_all flip: div_mult2_eq)
    then have "n div 2 ^ 96 \<noteq> 0x20010003" "n div 2 ^ 80 \<noteq> 0x200100040112" "n div 2 ^ 100 \<noteq> 0x2001002" "n div 2 ^ 100 \<noteq> 0x2001003"
      "n \<noteq> 0x20010001 * 2 ^ 96 + 1" "n \<noteq> 0x20010001 * 2 ^ 96 + 2"
      using far by auto
    then show ?thesis by (simp add: IPV6_PRIVATE_EXCEPTIONS_def in_net_def)
  qed
  then show ?thesis using m p by (simp add: ipv6_private_def)
qed

lemma local_not_global: "is_local i \<Longrightarrow> \<not> is_global i"
proof (cases i)
  case (V4 n)
  assume "is_local i"
  then show ?thesis using V4 ipv4_special_not_global(1) [of n] by (auto simp: local_v4_def)
next
  case (V6 n scope)
  assume l: "is_local i"
  show ?thesis
  proof (cases "local_v6 n")
    case False
    then have m: "n div 2 ^ 32 = 0xFFFF" "local_v4 (n mod 2 ^ 32)" using l V6 by simp_all
    then have "n = 0xFFFF * 2 ^ 32 + n mod 2 ^ 32" using div_mult_mod_eq [of n "2 ^ 32"] by simp
    then show ?thesis using V6 m(2) ipv4_special_not_global(2) [of "n mod 2 ^ 32" scope] by (auto simp: local_v4_def)
  qed (use V6 local_v6_not_global in simp)
qed

text \<open>C17: what the action policy lets pass, exactly. A spawn passes if and only if its program and its working directory lie under the
  approved roots; any other action if and only if it names a configured destination, asks for no more bytes than that allows, and
  every pinned address is the text of an address that Python calls global. None of these is an unspecified, loopback, link-local or
  private address, also not in IPv4-mapped form; multicast addresses and NAT64 forms are let pass.\<close>

theorem action_policy_sound:
  "action_policy c action = Inr () \<longleftrightarrow>
    (if fld action ''kind'' = JStr (lit ''spawn'') then
       \<exists>argv0 rest. arr_of (fld (fld action ''exec'') ''argv'') = argv0 # rest \<and>
         in_approved_roots c (str_of argv0) \<and> in_approved_roots c (str_of (fld (fld action ''exec'') ''cwd''))
     else
       \<exists>dest. network c (fld action ''origin'', fld action ''path'') = Some dest \<and>
         int_of (fld action ''max_response_bytes'') \<le> int_of (fld dest ''max_response_bytes'') \<and>
         (\<forall>x \<in> set (arr_of (fld dest ''ips'')). \<exists>s i. x = JStr s \<and> ip_address s = Some i \<and> is_global i \<and> \<not> is_local i))"
proof (cases "fld action ''kind'' = JStr (lit ''spawn'')")
  case True
  then show ?thesis by (auto simp: action_policy_def Let_def result_simps split: list.splits)
next
  case False
  have ip: "check_public_ip x = Inr i \<longleftrightarrow> (\<exists>s. x = JStr s \<and> ip_address s = Some i \<and> is_global i \<and> \<not> is_local i)" for x i
    using local_not_global by (auto simp: check_public_ip_def split: json.splits option.splits if_splits)
  have "is_ok (case check_public_ip x of Inl e \<Rightarrow> Inl (Lex ACTION_DENIED) | Inr _ \<Rightarrow> Inr ()) \<longleftrightarrow> (\<exists>i. check_public_ip x = Inr i)" for x
    by (cases "check_public_ip x") (simp_all add: is_ok_iff)
  then show ?thesis using False ip by (auto simp: action_policy_def result_simps split: option.splits if_splits)
qed

lemma dns_address: "ip_address (lit ''8.8.8.8'') = Some (V4 0x08080808)" "is_global (V4 0x08080808)"
  by (simp_all add: ip_address_def ipv4_int_def lit_def parse_octet_def is_digit_def dec_val_def ipv4_global_def ipv4_private_def IPV4_PRIVATE_def
    IPV4_PRIVATE_EXCEPTIONS_def in_net_def quad_def)

theorem action_policy_sound_witness:
  "\<exists>c spawn get. action_policy c spawn = Inr () \<and> in_approved_roots c (lit ''/bin/sh'') \<and>
     action_policy c get = Inr () \<and> is_global (V4 0x08080808) \<and> action_policy c (JObj [(lit ''kind'', JStr (lit ''http_get''))]) \<noteq> Inr ()"
proof -
  let ?spawn = "JObj [(lit ''kind'', JStr (lit ''spawn'')), (lit ''exec'', JObj [(lit ''argv'', JArr [JStr (lit ''/bin/sh'')]), (lit ''cwd'', JStr (lit ''/work''))])]"
  let ?get = "JObj [(lit ''kind'', JStr (lit ''http_get'')), (lit ''origin'', JStr (lit ''https://a'')), (lit ''path'', JStr (lit ''/'')),
    (lit ''max_response_bytes'', JInt 9)]"
  let ?dest = "JObj [(lit ''origin'', JStr (lit ''https://a'')), (lit ''path'', JStr (lit ''/'')), (lit ''ips'', JArr [JStr (lit ''8.8.8.8'')]),
    (lit ''max_response_bytes'', JInt 9)]"
  let ?c = "RunCore [] [] (JObj [(lit ''network'', JArr [?dest])])"
  have r: "in_approved_roots ?c (lit ''/bin/sh'')" "in_approved_roots ?c (lit ''/work'')"
    by (simp_all add: in_approved_roots_def approved_roots_def has_key_def RunCore_def dict_of_def default_roots_def lit_def startswith_def rstrip_slashes_def)
  have n: "network ?c (JStr (lit ''https://a''), JStr (lit ''/'')) = Some ?dest" "network ?c (JNull, JNull) = None"
    by (simp_all add: network_def RunCore_def fld_def dict_get_def arr_of_def)
  have "action_policy ?c ?spawn = Inr ()"
    by (subst action_policy_sound) (use r in \<open>simp add: fld_def dict_get_def arr_of_def str_of_def\<close>)
  moreover have "action_policy ?c ?get = Inr ()"
    by (subst action_policy_sound) (use n dns_address local_not_global [of "V4 0x08080808"] in \<open>auto simp: fld_def dict_get_def arr_of_def int_of_def\<close>)
  moreover have "action_policy ?c (JObj [(lit ''kind'', JStr (lit ''http_get''))]) \<noteq> Inr ()"
    by (subst action_policy_sound) (use n in \<open>simp add: fld_def dict_get_def\<close>)
  ultimately show ?thesis using r dns_address by blast
qed

text \<open>Multicast and NAT64 addresses count as public.\<close>

theorem multicast_is_public:
  "is_global (V4 (quad 224 0 0 1)) \<and> is_global (V6 (0x64ff9b * 2 ^ 96 + quad 127 0 0 1) None)"
  by (simp add: quad_def ipv4_global_def ipv4_private_def IPV4_PRIVATE_def IPV4_PRIVATE_EXCEPTIONS_def in_net_def ipv6_private_def IPV6_PRIVATE_def
    IPV6_PRIVATE_EXCEPTIONS_def)

text \<open>A model that can be chosen, and the order in which candidates are preferred.\<close>

definition route_fits :: "json \<Rightarrow> int \<Rightarrow> json \<Rightarrow> estimate \<Rightarrow> bool" where
  "route_fits work remaining m est \<longleftrightarrow>
     estimate_for_model_work m (route_work m work) = Inr est \<and> py_int (est_charged_flops est) \<le> remaining"

definition route_le :: "json \<times> estimate \<Rightarrow> json \<times> estimate \<Rightarrow> bool" where
  "route_le a b \<longleftrightarrow>
     py_int (est_charged_flops (snd a)) < py_int (est_charged_flops (snd b)) \<or>
     (py_int (est_charged_flops (snd a)) = py_int (est_charged_flops (snd b)) \<and>
      str_of (fld (fst a) ''id'') \<le> str_of (fld (fst b) ''id''))"

lemma route_le_trans: "route_le a b \<Longrightarrow> route_le b c \<Longrightarrow> route_le a c"
  by (auto simp: route_le_def)

lemma route_loop_Cons:
  assumes "route_loop (m # ms) work remaining best = Inr r"
  obtains (skip) "route_loop ms work remaining best = Inr r" "\<And>est. \<not> route_fits work remaining m est"
    | (worse) est b where "route_loop ms work remaining best = Inr r" "route_fits work remaining m est"
        "best = Some b" "route_le b (m, est)"
    | (take) est where "route_loop ms work remaining (Some (m, est)) = Inr r" "route_fits work remaining m est"
        "\<And>b. best = Some b \<Longrightarrow> route_le (m, est) b"
proof (cases "estimate_for_model_work m (route_work m work)")
  case (Inl e)
  then show ?thesis using assms skip by (cases e) (auto simp: route_fits_def)
next
  case est: (Inr est)
  show ?thesis
  proof (cases "py_int (est_charged_flops est) \<le> remaining")
    case False
    then show ?thesis using assms skip est by (auto simp: route_fits_def)
  next
    case True
    then have fits: "route_fits work remaining m est" using est by (simp add: route_fits_def)
    show ?thesis
    proof (cases best)
      case None
      then show ?thesis using assms take [of est] fits est True by simp
    next
      case (Some b)
      obtain bm be where b: "b = (bm, be)" by (cases b)
      show ?thesis
      proof (cases "py_int (est_charged_flops est) < py_int (est_charged_flops be) \<or>
          (py_int (est_charged_flops est) = py_int (est_charged_flops be) \<and>
           str_of (fld m ''id'') < str_of (fld bm ''id''))")
        case better: True
        then have "route_loop ms work remaining (Some (m, est)) = Inr r"
          using assms est True Some b by simp
        moreover have "route_le (m, est) b" using better b by (auto simp: route_le_def)
        ultimately show ?thesis using take [of est] fits Some by simp
      next
        case no: False
        then have "route_loop ms work remaining best = Inr r"
          using assms est True Some b by (simp split: if_splits)
        moreover have "route_le b (m, est)" using no b by (auto simp: route_le_def not_less)
        ultimately show ?thesis using worse [of est b] fits Some by simp
      qed
    qed
  qed
qed

lemma route_loop_optimal:
  assumes "route_loop ms work remaining best = Inr r"
  shows "(\<forall>b. best = Some b \<longrightarrow> (\<exists>x. r = Some x \<and> route_le x b)) \<and>
    (\<forall>m \<in> set ms. \<forall>est. route_fits work remaining m est \<longrightarrow> (\<exists>x. r = Some x \<and> route_le x (m, est))) \<and>
    (\<forall>x. r = Some x \<longrightarrow> best = Some x \<or> (fst x \<in> set ms \<and> route_fits work remaining (fst x) (snd x)))"
  using assms
proof (induction ms arbitrary: best)
  case Nil
  then show ?case by (auto simp: route_le_def)
next
  case (Cons m ms)
  from Cons.prems show ?case
  proof (cases rule: route_loop_Cons)
    case skip
    with Cons.IH [OF skip(1)] show ?thesis by auto
  next
    case (worse est b)
    note IH = Cons.IH [OF worse(1)]
    obtain x where x: "r = Some x" "route_le x b" using IH worse(3) by blast
    have same: "e = est" if "route_fits work remaining m e" for e
      using that worse(2) by (simp add: route_fits_def)
    have "route_le x (m, est)" using x(2) worse(4) by (rule route_le_trans)
    then show ?thesis using IH x(1) same by (metis set_ConsD list.set_intros(2))
  next
    case (take est)
    note IH = Cons.IH [OF take(1)]
    obtain x where x: "r = Some x" "route_le x (m, est)" using IH by blast
    have same: "e = est" if "route_fits work remaining m e" for e
      using that take(2) by (simp add: route_fits_def)
    have from_ms: "x = (m, est) \<or> fst x \<in> set ms \<and> route_fits work remaining (fst x) (snd x)"
      using IH x(1) by auto
    show ?thesis
    proof (intro conjI allI impI ballI)
      fix b assume "best = Some b"
      then have "route_le x b" using x(2) take(3) by (blast intro: route_le_trans)
      with x(1) show "\<exists>x. r = Some x \<and> route_le x b" by blast
    next
      fix m' e assume m': "m' \<in> set (m # ms)" "route_fits work remaining m' e"
      show "\<exists>x. r = Some x \<and> route_le x (m', e)"
      proof (cases "m' = m")
        case True
        then show ?thesis using x same m'(2) by blast
      next
        case False
        then show ?thesis using IH m' by simp
      qed
    next
      fix y assume "r = Some y"
      then have "y = x" using x(1) by simp
      then show "best = Some y \<or> fst y \<in> set (m # ms) \<and> route_fits work remaining (fst y) (snd y)"
        using from_ms take(2) by auto
    qed
  qed
qed

text \<open>Routing is optimal: of the models whose estimate fits the remaining budget the one chosen has the least
  charge, ties going to the smaller id, and nothing is chosen only if no model fits.\<close>

theorem choose_route_optimal:
  assumes "choose_route models work remaining = Inr r"
  shows "(case r of
      None \<Rightarrow> \<forall>m \<in> set models. \<forall>est. estimate_for_model_work m (route_work m work) = Inr est \<longrightarrow>
        remaining < py_int (est_charged_flops est)
    | Some (mid, est) \<Rightarrow> (\<exists>m \<in> set models. mid = fld m ''id'' \<and>
        estimate_for_model_work m (route_work m work) = Inr est \<and> py_int (est_charged_flops est) \<le> remaining \<and>
        (\<forall>m' \<in> set models. \<forall>est'. estimate_for_model_work m' (route_work m' work) = Inr est' \<longrightarrow>
           py_int (est_charged_flops est') \<le> remaining \<longrightarrow>
           py_int (est_charged_flops est) < py_int (est_charged_flops est') \<or>
           py_int (est_charged_flops est) = py_int (est_charged_flops est') \<and> str_of mid \<le> str_of (fld m' ''id''))))"
proof -
  obtain x where x: "route_loop models work remaining None = Inr x" "r = map_option (\<lambda>(m, est). (fld m ''id'', est)) x"
    using assms by (auto simp: choose_route_def result_simps split: if_splits)
  note opt = route_loop_optimal [OF x(1)]
  show ?thesis
  proof (cases x)
    case None
    then show ?thesis using opt x(2) by (force simp: route_fits_def not_le)
  next
    case (Some p)
    then show ?thesis using opt x(2) by (cases p) (fastforce simp: route_fits_def route_le_def)
  qed
qed

theorem choose_route_optimal_witness:
  "\<exists>est. choose_route [example_model] (JObj [(lit ''input_tokens'', JStr (lit ''90'')),
       (lit ''max_output_tokens'', JStr (lit ''90'')), (lit ''batch'', JInt 1)]) 100000 = Inr (Some (JStr (lit ''m''), est)) \<and>
     py_int (est_charged_flops est) \<le> 100000"
proof -
  let ?w = "JObj [(lit ''input_tokens'', JStr (lit ''90'')), (lit ''max_output_tokens'', JStr (lit ''90'')),
    (lit ''batch'', JInt 1)]"
  have dims: "model_dims_ok 90 1 1 1000" "work_dims_ok 90 90 1"
    by (simp_all add: model_dims_ok_def work_dims_ok_def estimator_bounds)
  then obtain e where e: "estimate_from_parts ESTIMATOR_KIND 90 1 1 90 90 1 1000 = Inr e"
      "est_charged_flops e = dec_str (nat (dense_charge 90 1 1 90 90 1 1000))"
    using estimate_from_parts_ok by blast
  have id: "fld example_model ''id'' = JStr (lit ''m'')" by (simp add: example_model_def fld_def dict_get_def)
  have name: "check_model_name (JStr (lit ''m'')) = Inr (lit ''m'')"
    by (simp add: check_model_name_def dollar_def model_name_re_def lit_def is_lower_def)
  have wf: "fld ?w ''input_tokens'' = JStr (lit ''90'')" "fld ?w ''max_output_tokens'' = JStr (lit ''90'')"
    "fld ?w ''batch'' = JInt 1"
    by (simp_all add: fld_def dict_get_def)
  let ?r = "JObj [(lit ''model_id'', JStr (lit ''m'')), (lit ''input_tokens'', JStr (lit ''90'')),
    (lit ''max_output_tokens'', JStr (lit ''90'')), (lit ''batch'', JInt 1)]"
  have work: "route_work example_model ?w = ?r"
    by (simp only: route_work_def id wf)
  have "check_work ?r = Inr ()"
    by (simp add: check_work_def shape_defs name u_text check_work_dims_def estimator_bounds)
  then have "estimate_for_model_work example_model ?r = Inr e"
    using e(1) by (simp add: estimate_for_model_work_def example_model_checks)
      (simp add: example_model_def fld_def dict_get_def u_text int_of_def str_of_def ESTIMATOR_KIND_def)
  then have r: "choose_route [example_model] ?w 100000 = Inr (Some (JStr (lit ''m''), e))"
    by (simp add: choose_route_def ROUTE_MAX_MODELS_def work e(2) id dense_charge_def dense_base_def dense_attention_def
        dense_pairs_def)
  show ?thesis
    using choose_route_optimal [OF r] r by auto
qed

end
