(* ===== verification/Replay.thy ===== *)
theory Replay imports SchemaEvents begin

text \<open>
  Models \<open>src/lexwatt/replay.py\<close>: the transition table and the replay of a run's event bodies, which
  the offline verifier and the journal checks share. The bodies have passed \<open>check_event_body\<close>, so
  their fields are read with \<open>fld\<close>; the three local dicts are maps keyed by the id as it stands in
  the event, and a run or action state is the text the event carries.

  Results: replay is the fold of one step function, its step is deterministic and only ever raises
  \<open>TRANSITION_INVALID\<close> on validated bodies, a state it reaches is never left against the order of
  the run states, and no event follows a terminal one.
\<close>

text \<open>\<open>TRANSITIONS\<close>: the source states of each event kind.\<close>

fun transitions :: "event_kind \<Rightarrow> run_state list" where
  "transitions K_RunCreated = []"
| "transitions K_RunArming = [CREATED]"
| "transitions K_RunRejected = [CREATED, ARMING]"
| "transitions K_RunStarted = [ARMING]"
| "transitions K_SampleRecorded = [RUNNING, STOPPING, UNCONFIRMED]"
| "transitions K_ComputeReserved = [RUNNING]"
| "transitions K_ComputeFinished = [RUNNING]"
| "transitions K_TokenIssued = [RUNNING]"
| "transitions K_TokenExpired = [RUNNING]"
| "transitions K_TokenSpent = [RUNNING]"
| "transitions K_ActionFinished = [RUNNING, STOPPING, UNCONFIRMED]"
| "transitions K_ActionUnknown = [RUNNING, STOPPING, UNCONFIRMED]"
| "transitions K_RequestDenied = [CREATED, ARMING, RUNNING, STOPPING, UNCONFIRMED]"
| "transitions K_StopLatched = [ARMING, RUNNING]"
| "transitions K_FaultObserved = [STOPPING, UNCONFIRMED, FINALIZING]"
| "transitions K_KillIssued = [STOPPING, UNCONFIRMED]"
| "transitions K_KillUnconfirmed = [STOPPING]"
| "transitions K_ContainmentEmpty = [STOPPING, UNCONFIRMED]"
| "transitions K_RunFinalized = [FINALIZING]"

text \<open>\<open>POST_STATE\<close>\<close>

fun post_state :: "event_kind \<Rightarrow> run_state option" where
  "post_state K_RunCreated = Some CREATED"
| "post_state K_RunArming = Some ARMING"
| "post_state K_RunStarted = Some RUNNING"
| "post_state K_RunRejected = Some REJECTED"
| "post_state K_StopLatched = Some STOPPING"
| "post_state K_KillUnconfirmed = Some UNCONFIRMED"
| "post_state K_ContainmentEmpty = Some FINALIZING"
| "post_state _ = None"

section \<open>Replay\<close>

datatype compute_state = C_CHARGED | C_FINISHED

record replay_state =
  rp_state :: json
  rp_tokens :: "json \<Rightarrow> token_state option"
  rp_actions :: "json \<Rightarrow> json option"
  rp_computes :: "json \<Rightarrow> compute_state option"

definition state_json :: "run_state \<Rightarrow> json" where
  "state_json s = JStr (state_name s)"

definition replay_init :: replay_state where
  "replay_init = \<lparr>rp_state = state_json CREATED, rp_tokens = Map.empty, rp_actions = Map.empty,
     rp_computes = Map.empty\<rparr>"

abbreviation invalid :: "exn + 'a" where "invalid \<equiv> Inl (Lex TRANSITION_INVALID)"

text \<open>Lines 63 to 98: the lifecycle tables.\<close>

definition dispatched_json :: json where "dispatched_json = JStr (lit ''DISPATCHED'')"

fun replay_lifecycle :: "event_kind \<Rightarrow> json \<Rightarrow> replay_state \<Rightarrow> exn + replay_state" where
  "replay_lifecycle K_TokenIssued data s =
    (let tid = fld data ''token_id''
     in if rp_tokens s tid \<noteq> None then invalid
        else Inr (s\<lparr>rp_tokens := (rp_tokens s)(tid \<mapsto> T_ISSUED)\<rparr>))"
| "replay_lifecycle K_TokenExpired data s =
    (let tid = fld data ''token_id''
     in if rp_tokens s tid \<noteq> Some T_ISSUED then invalid
        else Inr (s\<lparr>rp_tokens := (rp_tokens s)(tid \<mapsto> T_EXPIRED)\<rparr>))"
| "replay_lifecycle K_TokenSpent data s =
    (let tid = fld data ''token_id''; aid = fld data ''action_id''
     in if rp_tokens s tid \<noteq> Some T_ISSUED then invalid
        else if rp_actions s aid \<noteq> None then invalid
        else Inr (s\<lparr>rp_tokens := (rp_tokens s)(tid \<mapsto> T_SPENT),
                    rp_actions := (rp_actions s)(aid \<mapsto> dispatched_json)\<rparr>))"
| "replay_lifecycle K_ActionFinished data s =
    (let aid = fld (fld data ''action'') ''action_id''
     in if rp_actions s aid \<noteq> Some dispatched_json then invalid
        else Inr (s\<lparr>rp_actions := (rp_actions s)(aid \<mapsto> fld (fld data ''action'') ''state'')\<rparr>))"
| "replay_lifecycle K_ActionUnknown data s =
    (let aid = fld data ''action_id''
     in if rp_actions s aid \<noteq> Some dispatched_json then invalid
        else Inr (s\<lparr>rp_actions := (rp_actions s)(aid \<mapsto> JStr (lit ''UNKNOWN''))\<rparr>))"
| "replay_lifecycle K_ComputeReserved data s =
    (let cid = fld (fld data ''reservation'') ''compute_id''
     in if rp_computes s cid \<noteq> None then invalid
        else Inr (s\<lparr>rp_computes := (rp_computes s)(cid \<mapsto> C_CHARGED)\<rparr>))"
| "replay_lifecycle K_ComputeFinished data s =
    (let cid = fld (fld data ''reservation'') ''compute_id''
     in if rp_computes s cid \<noteq> Some C_CHARGED then invalid
        else Inr (s\<lparr>rp_computes := (rp_computes s)(cid \<mapsto> C_FINISHED)\<rparr>))"
| "replay_lifecycle kind data s = Inr s"

text \<open>The state after the event: \<open>RunFinalized\<close> carries it, the others look it up.\<close>

definition replay_post :: "event_kind \<Rightarrow> json \<Rightarrow> replay_state \<Rightarrow> replay_state" where
  "replay_post kind data s =
    (if kind = K_RunFinalized then s\<lparr>rp_state := fld data ''state''\<rparr>
     else (case post_state kind of None \<Rightarrow> s | Some st \<Rightarrow> s\<lparr>rp_state := state_json st\<rparr>))"

definition replay_data :: "event_kind \<Rightarrow> json \<Rightarrow> replay_state \<Rightarrow> exn + replay_state" where
  "replay_data kind data s = bindE (replay_lifecycle kind data s) (\<lambda>s'. Inr (replay_post kind data s'))"

text \<open>The guard of a body that is not the first: its kind, then the table.\<close>

definition transition_ok :: "event_kind \<Rightarrow> json \<Rightarrow> bool" where
  "transition_ok kind st \<longleftrightarrow> kind \<noteq> K_RunCreated \<and> st \<in> set (map state_json (transitions kind))"

definition replay_step :: "json \<Rightarrow> replay_state \<Rightarrow> exn + replay_state" where
  "replay_step body s =
    (let kind = kind_of (fld body ''kind''); seq = u_of (fld body ''seq''); data = fld body ''data''
     in if seq = 1 then
          (if kind \<noteq> Some K_RunCreated then invalid else replay_data K_RunCreated data s)
        else
          (case kind of
             None \<Rightarrow> Inl (Py Key_Error)
           | Some k \<Rightarrow> if \<not> transition_ok k (rp_state s) then invalid else replay_data k data s))"

fun replay_loop :: "json list \<Rightarrow> replay_state \<Rightarrow> exn + replay_state" where
  "replay_loop [] s = Inr s"
| "replay_loop (b # bs) s = bindE (replay_step b s) (\<lambda>s'. replay_loop bs s')"

definition replay_events :: "json list \<Rightarrow> exn + json" where
  "replay_events bodies = bindE (replay_loop bodies replay_init) (\<lambda>s. Inr (rp_state s))"

section \<open>Events after the first\<close>

text \<open>The step on the pair of kind and data that the core emits.\<close>

definition replay_event :: "event \<Rightarrow> replay_state \<Rightarrow> exn + replay_state" where
  "replay_event e s =
    (if \<not> transition_ok (fst e) (rp_state s) then invalid else replay_data (fst e) (snd e) s)"

fun replay_pairs :: "event list \<Rightarrow> replay_state \<Rightarrow> exn + replay_state" where
  "replay_pairs [] s = Inr s"
| "replay_pairs (e # es) s = bindE (replay_event e s) (\<lambda>s'. replay_pairs es s')"

lemma replay_pairs_append:
  "replay_pairs (es @ fs) s = bindE (replay_pairs es s) (replay_pairs fs)"
  by (induction es arbitrary: s) (auto simp: bindE_def split: sum.splits)

lemma replay_step_event:
  assumes "kind_of (fld body ''kind'') = Some k" "u_of (fld body ''seq'') \<noteq> 1"
  shows "replay_step body s = replay_event (k, fld body ''data'') s"
  using assms by (simp add: replay_step_def replay_event_def)

lemma replay_loop_append:
  "replay_loop (bs @ cs) s = bindE (replay_loop bs s) (replay_loop cs)"
  by (induction bs arbitrary: s) (auto simp: bindE_def split: sum.splits)

section \<open>What replay enforces\<close>

lemma state_json_inject [simp]: "state_json a = state_json b \<longleftrightarrow> a = b"
  by (simp add: state_json_def)

lemma replay_lifecycle_state: "replay_lifecycle k d s = Inr s' \<Longrightarrow> rp_state s' = rp_state s"
  by (cases k) (auto simp: Let_def split: if_splits)

lemma replay_lifecycle_error: "replay_lifecycle k d s = Inl e \<Longrightarrow> e = Lex TRANSITION_INVALID"
  by (cases k) (auto simp: Let_def split: if_splits)

lemma replay_event_error: "replay_event e s = Inl x \<Longrightarrow> x = Lex TRANSITION_INVALID"
  by (auto simp: replay_event_def replay_data_def result_simps dest: replay_lifecycle_error split: if_splits)

lemma replay_event_state:
  assumes "replay_event (k, d) s = Inr s'"
  shows "rp_state s' =
     (if k = K_RunFinalized then fld d ''state''
      else case post_state k of None \<Rightarrow> rp_state s | Some st \<Rightarrow> state_json st)"
proof -
  obtain s1 where "replay_lifecycle k d s = Inr s1" "s' = replay_post k d s1"
    using assms by (auto simp: replay_event_def replay_data_def result_simps split: if_splits)
  then show ?thesis
    using replay_lifecycle_state [of k d s s1] by (simp add: replay_post_def split: option.split)
qed

text \<open>The order of the run states: no event leads back.\<close>

lemma post_state_forward:
  "a \<in> set (transitions k) \<Longrightarrow> post_state k = Some b \<Longrightarrow> state_rank a < state_rank b"
  by (cases k) auto

definition terminal_json :: "json list" where
  "terminal_json = map state_json TERMINAL_STATES"

lemma terminal_no_transition: "t \<in> set TERMINAL_STATES \<Longrightarrow> t \<notin> set (transitions k)"
  by (cases k) (auto simp: TERMINAL_STATES_def)

lemma replay_after_terminal:
  assumes "rp_state s \<in> set terminal_json"
  shows "replay_event e s = invalid"
  using assms terminal_no_transition
  by (auto simp: replay_event_def transition_ok_def terminal_json_def image_iff)

lemma replay_step_after_terminal:
  assumes "rp_state s \<in> set terminal_json" "kind_of (fld body ''kind'') \<noteq> None" "u_of (fld body ''seq'') \<noteq> 1"
  shows "replay_step body s = invalid"
  using assms replay_after_terminal [OF assms(1)] by (auto simp: replay_step_event)

text \<open>A token is spent at most once and only while it is live; an action is resolved at most once.\<close>

lemma replay_spent_once:
  "replay_event (K_TokenSpent, d) s = Inr s' \<Longrightarrow>
     rp_tokens s (fld d ''token_id'') = Some T_ISSUED \<and> rp_tokens s' (fld d ''token_id'') = Some T_SPENT \<and>
     rp_actions s (fld d ''action_id'') = None"
  by (auto simp: replay_event_def replay_data_def replay_post_def Let_def split: if_splits)

lemma replay_tokens_final:
  assumes "replay_event e s = Inr s'" "rp_tokens s t = Some l" "l \<noteq> T_ISSUED"
  shows "rp_tokens s' t = Some l"
proof -
  obtain k d where e: "e = (k, d)" by (cases e)
  show ?thesis
    using assms unfolding e
    by (cases k) (auto simp: replay_event_def replay_data_def replay_post_def Let_def split: if_splits)
qed

section \<open>Properties\<close>

text \<open>A finished journal stays finished: if the events so far replay to a terminal state, no extension of the
  journal is accepted.\<close>

theorem nothing_after_terminal:
  assumes "replay_events bs = Inr (state_json t)" "t \<in> set TERMINAL_STATES"
    and "kind_of (fld b ''kind'') \<noteq> None" "u_of (fld b ''seq'') \<noteq> 1"
  shows "replay_events (bs @ b # cs) = Inl (Lex TRANSITION_INVALID)"
proof -
  obtain s where s: "replay_loop bs replay_init = Inr s" "rp_state s = state_json t"
    using assms(1) by (auto simp: replay_events_def result_simps)
  then have "replay_step b s = invalid"
    using assms(2-4) by (intro replay_step_after_terminal) (auto simp: terminal_json_def)
  then show ?thesis
    using s by (simp add: replay_events_def replay_loop_append)
qed

definition event_body :: "string \<Rightarrow> string \<Rightarrow> json \<Rightarrow> json" where
  "event_body kind seq data = JObj [(lit ''kind'', JStr (lit kind)), (lit ''seq'', JStr (lit seq)), (lit ''data'', data)]"

lemma event_body_fld [simp]:
  "fld (event_body k n d) ''kind'' = JStr (lit k)" "fld (event_body k n d) ''seq'' = JStr (lit n)"
  "fld (event_body k n d) ''data'' = d"
  by (simp_all add: event_body_def fld_def dict_get_def)

theorem nothing_after_terminal_witness:
  "replay_events [event_body ''RunCreated'' ''1'' JNull, event_body ''RunRejected'' ''2'' JNull] =
     Inr (state_json REJECTED) \<and>
   replay_events ([event_body ''RunCreated'' ''1'' JNull, event_body ''RunRejected'' ''2'' JNull] @
     event_body ''RunArming'' ''3'' JNull # []) = Inl (Lex TRANSITION_INVALID)"
proof -
  have kinds: "kind_of (JStr (lit ''RunCreated'')) = Some K_RunCreated"
    "kind_of (JStr (lit ''RunRejected'')) = Some K_RunRejected" "kind_of (JStr (lit ''RunArming'')) = Some K_RunArming"
    by (simp_all add: kind_of_iff)
  have seqs: "u_of (JStr (lit ''1'')) = 1" "u_of (JStr (lit ''2'')) = 2" "u_of (JStr (lit ''3'')) = 3"
    by (simp_all add: u_of_def str_of_def py_int_def dec_val_def lit_def chop_newline_def)
  have run: "replay_events [event_body ''RunCreated'' ''1'' JNull, event_body ''RunRejected'' ''2'' JNull] =
      Inr (state_json REJECTED)"
    by (simp add: replay_events_def replay_step_def kinds seqs replay_data_def replay_post_def transition_ok_def
        replay_init_def)
  then show ?thesis
    using nothing_after_terminal [OF run, of "event_body ''RunArming'' ''3'' JNull" "[]"]
    by (simp add: TERMINAL_STATES_def kinds seqs)
qed

definition spends :: "json \<Rightarrow> json \<Rightarrow> bool" where
  "spends t b \<longleftrightarrow> kind_of (fld b ''kind'') = Some K_TokenSpent \<and> fld (fld b ''data'') ''token_id'' = t"

lemma replay_step_kinds:
  assumes "replay_step b s = Inr s'"
  obtains d where "kind_of (fld b ''kind'') = Some K_RunCreated" "replay_data K_RunCreated d s = Inr s'"
    | k where "kind_of (fld b ''kind'') = Some k" "replay_event (k, fld b ''data'') s = Inr s'"
  using assms by (auto simp: replay_step_def replay_event_def Let_def split: if_splits option.splits)

lemma spent_stays:
  assumes "replay_step b s = Inr s'" "rp_tokens s t = Some T_SPENT"
  shows "\<not> spends t b \<and> rp_tokens s' t = Some T_SPENT"
  using assms(1)
proof (cases rule: replay_step_kinds)
  case (1 d)
  then show ?thesis using assms(2) by (auto simp: spends_def replay_data_def replay_post_def)
next
  case (2 k)
  have "rp_tokens s' t = Some T_SPENT" using 2(2) assms(2) by (rule replay_tokens_final) simp
  moreover have "\<not> spends t b"
    using 2 assms(2) replay_spent_once [of "fld b ''data''" s s'] by (auto simp: spends_def)
  ultimately show ?thesis by simp
qed

lemma no_spend_after: "replay_loop bs s = Inr s' \<Longrightarrow> rp_tokens s t = Some T_SPENT \<Longrightarrow> filter (spends t) bs = []"
proof (induction bs arbitrary: s)
  case (Cons b bs)
  then show ?case using spent_stays by (fastforce simp: result_simps)
qed simp

lemma spend_count: "replay_loop bs s = Inr s' \<Longrightarrow> length (filter (spends t) bs) \<le> 1"
proof (induction bs arbitrary: s)
  case (Cons b bs)
  then obtain m where m: "replay_step b s = Inr m" "replay_loop bs m = Inr s'" by (auto simp: result_simps)
  show ?case
  proof (cases "spends t b")
    case True
    from m(1) have "rp_tokens m t = Some T_SPENT"
    proof (cases rule: replay_step_kinds)
      case (2 k)
      then show ?thesis using True replay_spent_once [of "fld b ''data''" s m] by (auto simp: spends_def)
    qed (use True in \<open>simp add: spends_def\<close>)
    then show ?thesis using no_spend_after [OF m(2)] by simp
  qed (use Cons.IH [OF m(2)] in simp)
qed simp

text \<open>C2: in any journal that replays, each token is spent at most once.\<close>

theorem token_spent_at_most_once:
  assumes "replay_events bs = Inr st"
  shows "length (filter (\<lambda>b. kind_of (fld b ''kind'') = Some K_TokenSpent \<and> fld (fld b ''data'') ''token_id'' = t) bs) \<le> 1"
  using assms spend_count [of bs replay_init _ t] by (auto simp: replay_events_def result_simps spends_def [abs_def])

theorem token_spent_at_most_once_witness:
  "length (filter (\<lambda>b. kind_of (fld b ''kind'') = Some K_TokenSpent \<and> fld (fld b ''data'') ''token_id'' = JStr [1])
     [event_body ''RunCreated'' ''1'' JNull]) \<le> 1"
proof -
  have kinds: "kind_of (JStr (lit ''RunCreated'')) = Some K_RunCreated"
    by (simp_all add: kind_of_iff)
  have "u_of (JStr (lit ''1'')) = 1"
    by (simp add: u_of_def str_of_def py_int_def dec_val_def lit_def chop_newline_def)
  then have "replay_events [event_body ''RunCreated'' ''1'' JNull] = Inr (state_json CREATED)"
    by (simp add: replay_events_def replay_step_def kinds replay_data_def replay_post_def replay_init_def)
  then show ?thesis by (rule token_spent_at_most_once)
qed

end
