(* ===== verification/CoreInv.thy ===== *)
theory CoreInv imports Core Replay begin

text \<open>
  The run core against the journal it writes. \<open>abs_core\<close> reads off a core object what the replay of its
  events tracks; \<open>core_inv\<close> is the invariant of the object. Every operation of \<open>RunCore\<close>, and the
  three assignments the engine makes to it (\<open>arming\<close>, \<open>started\<close>, \<open>sampled\<close>, from
  \<open>src/lexwatt/engine.py\<close>), preserves the invariant and emits events that replay from the
  abstraction of the old object to that of the new one.
\<close>

section \<open>Association lists\<close>

definition asum :: "('v \<Rightarrow> int) \<Rightarrow> ('k \<times> 'v) list \<Rightarrow> int" where
  "asum f al = sum_list (map (\<lambda>kv. f (snd kv)) al)"

lemma asum_simps [simp]: "asum f [] = 0" "asum f ((k, v) # al) = f v + asum f al"
  by (simp_all add: asum_def)

lemma asum_update_new:
  "k \<notin> fst ` set al \<Longrightarrow> asum f (AList.update k v al) = asum f al + f v"
  by (induction al) (auto simp: asum_def)

lemma asum_update_old:
  "distinct (map fst al) \<Longrightarrow> map_of al k = Some w \<Longrightarrow> asum f (AList.update k v al) = asum f al + f v - f w"
proof (induction al)
  case (Cons kv al)
  then show ?case by (cases kv) (auto simp: asum_def)
qed simp

lemma length_update_new: "k \<notin> fst ` set al \<Longrightarrow> length (AList.update k v al) = Suc (length al)"
  by (induction al) auto

lemma length_update_old: "k \<in> fst ` set al \<Longrightarrow> length (AList.update k v al) = length al"
proof (induction al)
  case (Cons kv al)
  then show ?case by (cases kv) auto
qed simp

lemma set_update_subset: "set (AList.update k v al) \<subseteq> insert (k, v) (set al)"
proof (induction al)
  case (Cons kv al)
  then show ?case by (cases kv) auto
qed simp

lemma all_update:
  "(\<forall>kv \<in> set al. P kv) \<Longrightarrow> P (k, v) \<Longrightarrow> \<forall>kv \<in> set (AList.update k v al). P kv"
  using set_update_subset [of k v al] by auto

lemma asum_nonneg: "(\<And>v. 0 \<le> f v) \<Longrightarrow> 0 \<le> asum f al"
  by (induction al) (auto simp: asum_def)

section \<open>Invariant\<close>

definition is_dispatched :: "action_rec \<Rightarrow> int" where
  "is_dispatched a = (if ac_state a = A_DISPATCHED then 1 else 0)"

definition is_spent :: "token_rec \<Rightarrow> int" where
  "is_spent t = (if tk_state t = T_SPENT then 1 else 0)"

definition charge_of :: "compute_rec \<Rightarrow> int" where
  "charge_of r = u_of (fld (cp_reservation r) ''charged_flops'')"

definition keys_ok :: "run_core \<Rightarrow> bool" where
  "keys_ok c \<longleftrightarrow> distinct (map fst (rc_tokens c)) \<and> distinct (map fst (rc_actions c)) \<and>
     distinct (map fst (rc_computes c))"

definition token_key :: "pystr \<times> token_rec \<Rightarrow> bool" where
  "token_key kt \<longleftrightarrow> fld (fld (tk_token (snd kt)) ''body'') ''token_id'' = JStr (fst kt)"

definition action_key :: "pystr \<times> action_rec \<Rightarrow> bool" where
  "action_key ka \<longleftrightarrow> ac_action_id (snd ka) = fst ka"

definition compute_key :: "pystr \<times> compute_rec \<Rightarrow> bool" where
  "compute_key kc \<longleftrightarrow>
     (let res = cp_reservation (snd kc)
      in fld res ''compute_id'' = JStr (fst kc) \<and>
         fld res ''state'' \<in> {JStr (lit ''CHARGED''), JStr (lit ''FINISHED'')} \<and>
         fld res ''charged_flops'' \<noteq> JNull)"

definition entries_ok :: "run_core \<Rightarrow> bool" where
  "entries_ok c \<longleftrightarrow> (\<forall>kt \<in> set (rc_tokens c). token_key kt) \<and> (\<forall>ka \<in> set (rc_actions c). action_key ka) \<and>
     (\<forall>kc \<in> set (rc_computes c). compute_key kc)"

definition slots_ok :: "run_core \<Rightarrow> bool" where
  "slots_ok c \<longleftrightarrow> int (length (rc_tokens c)) \<le> rc_spawn_issued c \<and>
     rc_spawn_issued c \<le> max 0 (int_of (fld (budgets c) ''spawns'')) \<and>
     int (length (rc_actions c)) = asum is_spent (rc_tokens c)"

definition inflight_ok :: "run_core \<Rightarrow> bool" where
  "inflight_ok c \<longleftrightarrow> rc_inflight c = asum is_dispatched (rc_actions c) \<and> rc_inflight c \<le> int MAX_INFLIGHT_ACTIONS"

definition flops_ok :: "run_core \<Rightarrow> bool" where
  "flops_ok c \<longleftrightarrow> rc_charged_flops c = asum charge_of (rc_computes c) \<and>
     (fld (budgets c) ''max_flops'' \<noteq> JNull \<longrightarrow> rc_charged_flops c \<le> u_of (fld (budgets c) ''max_flops''))"

definition phase_ok :: "run_core \<Rightarrow> bool" where
  "phase_ok c \<longleftrightarrow> (rc_stop_reason c = None \<longleftrightarrow> rc_state c \<in> {CREATED, ARMING, RUNNING, REJECTED})"

definition core_inv :: "run_core \<Rightarrow> bool" where
  "core_inv c \<longleftrightarrow> keys_ok c \<and> entries_ok c \<and> slots_ok c \<and> inflight_ok c \<and> flops_ok c \<and> phase_ok c"

lemmas inv_defs = core_inv_def keys_ok_def entries_ok_def slots_ok_def inflight_ok_def flops_ok_def phase_ok_def

lemma u_of_nonneg [simp]: "0 \<le> u_of v"
  by (simp add: u_of_def py_int_def)

lemma core_inv_init: "core_inv (RunCore run_id key_id config)"
  by (simp add: inv_defs RunCore_def)

section \<open>Abstraction\<close>

definition abs_computes :: "run_core \<Rightarrow> json \<Rightarrow> compute_state option" where
  "abs_computes c k =
    map_option (\<lambda>r. if fld (cp_reservation r) ''state'' = JStr (lit ''FINISHED'') then C_FINISHED else C_CHARGED)
      (lookup_str (rc_computes c) k)"

definition abs_core :: "run_core \<Rightarrow> replay_state" where
  "abs_core c = \<lparr>rp_state = state_json (rc_state c),
     rp_tokens = (\<lambda>k. map_option tk_state (lookup_str (rc_tokens c) k)),
     rp_actions = (\<lambda>k. map_option (\<lambda>a. JStr (action_state_name (ac_state a))) (lookup_str (rc_actions c) k)),
     rp_computes = abs_computes c\<rparr>"

lemma lookup_str_update:
  "lookup_str (AList.update k v al) = (lookup_str al)(JStr k \<mapsto> v)"
  by (rule ext) (auto simp: lookup_str_def update_conv' split: json.split)

lemma lookup_str_JStr [simp]: "lookup_str al (JStr s) = map_of al s"
  by (simp add: lookup_str_def)

lemma lookup_strD: "lookup_str al k = Some v \<Longrightarrow> \<exists>s. k = JStr s \<and> map_of al s = Some v"
  by (auto simp: lookup_str_def split: json.splits)

lemma action_state_json [simp]:
  "JStr (action_state_name s) = dispatched_json \<longleftrightarrow> s = A_DISPATCHED"
  by (cases s) (simp_all add: dispatched_json_def)

lemma abs_init: "abs_core (RunCore r k cfg) = replay_init"
  by (auto simp: abs_core_def RunCore_def replay_init_def abs_computes_def lookup_str_def split: json.split)

end
