(* ===== verification/CoreSteps.thy ===== *)
theory CoreSteps imports CoreInv begin

text \<open>
  Every operation of \<open>RunCore\<close> conforms: it keeps \<open>core_inv\<close> and its events replay from the
  abstraction of the object before to that of the object after. With the assignments the engine
  makes itself (\<open>Run.arming\<close>, the start of \<open>Run.arm\<close>, \<open>Run._sample\<close>), the operations form the step
  relation \<open>core_step\<close>; \<open>core_run\<close> is its closure from a fresh object, with the journal so far.
\<close>

section \<open>Conformance\<close>

definition conforms :: "run_core \<Rightarrow> event list \<Rightarrow> run_core \<Rightarrow> bool" where
  "conforms c es c' \<longleftrightarrow> core_inv c' \<and> replay_pairs es (abs_core c) = Inr (abs_core c')"

lemma conforms_refl: "core_inv c \<Longrightarrow> conforms c [] c"
  by (simp add: conforms_def)

lemma conforms_trans: "conforms a es b \<Longrightarrow> conforms b fs c \<Longrightarrow> conforms a (es @ fs) c"
  by (simp add: conforms_def replay_pairs_append)

lemma conforms_one:
  "core_inv c' \<Longrightarrow> replay_event e (abs_core c) = Inr (abs_core c') \<Longrightarrow> conforms c [e] c'"
  by (simp add: conforms_def)

lemma abs_core_sel [simp]:
  "rp_state (abs_core c) = state_json (rc_state c)"
  "rp_tokens (abs_core c) k = map_option tk_state (lookup_str (rc_tokens c) k)"
  "rp_actions (abs_core c) k = map_option (\<lambda>a. JStr (action_state_name (ac_state a))) (lookup_str (rc_actions c) k)"
  "rp_computes (abs_core c) = abs_computes c"
  by (simp_all add: abs_core_def)

lemma transition_ok_state [simp]:
  "transition_ok k (state_json s) \<longleftrightarrow> k \<noteq> K_RunCreated \<and> s \<in> set (transitions k)"
  by (auto simp: transition_ok_def)

text \<open>An event without a lifecycle of its own moves the state as the table says.\<close>

lemma replay_plain:
  assumes "replay_lifecycle k d (abs_core c) = Inr (abs_core c)" "k \<noteq> K_RunCreated" "k \<noteq> K_RunFinalized"
    "rc_state c \<in> set (transitions k)" "rc_state c' = (case post_state k of None \<Rightarrow> rc_state c | Some s \<Rightarrow> s)"
    "rc_tokens c' = rc_tokens c" "rc_actions c' = rc_actions c" "rc_computes c' = rc_computes c"
  shows "replay_event (k, d) (abs_core c) = Inr (abs_core c')"
  using assms
  by (auto simp: replay_event_def replay_data_def replay_post_def abs_core_def abs_computes_def split: option.splits)

lemma deny_conforms:
  assumes "core_inv c"
  shows "conforms c (oc_events (deny c r code)) c"
proof (cases "live c")
  case True
  then have "replay_event (K_RequestDenied, d) (abs_core c) = Inr (abs_core c)" for d
    by (intro replay_plain) (auto simp: live_def live_states_def)
  then show ?thesis
    using assms True by (simp add: deny_def conforms_def)
qed (use assms in \<open>simp add: deny_def conforms_def\<close>)

definition latched :: "reason \<Rightarrow> run_core \<Rightarrow> run_core" where
  "latched r c = c\<lparr>rc_stop_reason := Some r, rc_state := STOPPING\<rparr>"

lemma latched_sel [simp]:
  "rc_tokens (latched r c) = rc_tokens c" "rc_actions (latched r c) = rc_actions c"
  "rc_computes (latched r c) = rc_computes c" "rc_state (latched r c) = STOPPING"
  "budgets (latched r c) = budgets c"
  by (simp_all add: latched_def budgets_def)

text \<open>The invariant only looks at the tables, the counters and the phase.\<close>

lemma core_inv_cong:
  assumes "core_inv c" "phase_ok c'" "rc_config c' = rc_config c" "rc_tokens c' = rc_tokens c"
    "rc_actions c' = rc_actions c" "rc_computes c' = rc_computes c" "rc_spawn_issued c' = rc_spawn_issued c"
    "rc_charged_flops c' = rc_charged_flops c" "rc_inflight c' = rc_inflight c"
  shows "core_inv c'"
  using assms(1) unfolding core_inv_def keys_ok_def entries_ok_def slots_ok_def inflight_ok_def flops_ok_def
    budgets_def assms(3-) using assms(2) by blast

lemma phase_okD: "core_inv c \<Longrightarrow> phase_ok c"
  by (simp add: core_inv_def)

lemma latched_inv: "core_inv c \<Longrightarrow> core_inv (latched r c)"
  by (rule core_inv_cong [of c]) (simp_all add: latched_def phase_ok_def)

lemma latch_eq:
  "latch r out c = (if rc_state c \<in> {ARMING, RUNNING} \<and> rc_stop_reason c = None
     then (add_event out (K_StopLatched, reason_data r), latched r c) else (out, c))"
  by (simp add: latch_def latched_def)

lemma stop_latched_replay:
  "rc_state c \<in> {ARMING, RUNNING} \<Longrightarrow>
   replay_event (K_StopLatched, d) (abs_core c) = Inr (abs_core (latched r c))"
  by (rule replay_plain) auto

lemma latch_conforms:
  assumes "latch r out c = (out', c')" "conforms c (oc_events out) c"
  shows "conforms c (oc_events out') c'"
proof (cases "rc_state c \<in> {ARMING, RUNNING} \<and> rc_stop_reason c = None")
  case True
  have "core_inv c" using assms(2) by (simp add: conforms_def)
  then have "conforms c [(K_StopLatched, reason_data r)] (latched r c)"
    using True by (intro conforms_one latched_inv stop_latched_replay) simp_all
  with assms(2) have "conforms c (oc_events out @ [(K_StopLatched, reason_data r)]) (latched r c)"
    by (rule conforms_trans)
  with True assms(1) show ?thesis by (auto simp: latch_eq add_event_def)
qed (use assms in \<open>auto simp: latch_eq\<close>)

lemma fault_conforms:
  assumes "core_inv c" "fault r c = (out, c')"
  shows "conforms c (oc_events out) c'"
proof -
  have none: "conforms c (oc_events no_outcome) c"
    using assms(1) by (simp add: conforms_refl)
  have "replay_event (K_FaultObserved, d) (abs_core c) = Inr (abs_core c)"
    if "rc_state c \<in> {STOPPING, UNCONFIRMED, FINALIZING}" for d
    using that by (intro replay_plain) auto
  then show ?thesis
    using assms latch_conforms [OF _ none] none
    by (auto simp: fault_def add_event_def conforms_def split: if_splits)
qed

lemma stop_conforms:
  assumes "core_inv c" "stop r c = (out, c')"
  shows "conforms c (oc_events out) c'"
proof -
  have none: "conforms c (oc_events no_outcome) c"
    using assms(1) by (simp add: conforms_refl)
  then show ?thesis
    using assms latch_conforms [OF _ none]
    by (auto simp: stop_def split: if_splits prod.splits)
qed

lemma kill_issued_conforms:
  assumes "core_inv c" "kill_issued cg gr t c = (out, c')"
  shows "conforms c (oc_events out) c'"
proof (cases "rc_state c \<in> {STOPPING, UNCONFIRMED}")
  case True
  let ?d = "JObj [(lit ''cgroup_attempted'', JBool cg), (lit ''group_attempted'', JBool gr)]"
  have c': "c' = c \<or> c' = c\<lparr>rc_kill_issued_at_us := Some t\<rparr>" and es: "oc_events out = [(K_KillIssued, ?d)]"
    using assms(2) True by (auto simp: kill_issued_def)
  have "core_inv c'"
    by (rule core_inv_cong [OF assms(1)])
       (use c' phase_okD [OF assms(1)] in \<open>auto simp: phase_ok_def\<close>)
  moreover have "replay_event (K_KillIssued, ?d) (abs_core c) = Inr (abs_core c')"
    using c' True by (intro replay_plain) auto
  ultimately show ?thesis
    unfolding es by (rule conforms_one)
qed (use assms in \<open>auto simp: kill_issued_def conforms_def\<close>)

lemma kill_unconfirmed_conforms:
  assumes "core_inv c" "kill_unconfirmed e c = (Inr out, c')"
  shows "conforms c (oc_events out) c'"
proof (cases "rc_state c = STOPPING")
  case True
  have c': "c' = c\<lparr>rc_state := UNCONFIRMED\<rparr>"
    using assms(2) True by (auto simp: kill_unconfirmed_def Let_def split: sum.splits)
  have "core_inv c'"
    by (rule core_inv_cong [OF assms(1)])
       (use True phase_okD [OF assms(1)] in \<open>auto simp: c' phase_ok_def\<close>)
  moreover have "replay_event (K_KillUnconfirmed, d) (abs_core c) = Inr (abs_core c')" for d
    using True by (intro replay_plain) (auto simp: c')
  ultimately show ?thesis
    using assms(2) True by (auto simp: kill_unconfirmed_def conforms_def Let_def split: sum.splits)
qed (use assms in \<open>auto simp: kill_unconfirmed_def conforms_def\<close>)

lemma containment_empty_conforms:
  assumes "core_inv c" "containment_empty smp ex c = (out, c')"
  shows "conforms c (oc_events out) c'"
proof (cases "rc_state c \<in> {STOPPING, UNCONFIRMED}")
  case True
  have "core_inv c'"
    by (rule core_inv_cong [OF assms(1)])
       (use assms(2) True phase_okD [OF assms(1)] in \<open>auto simp: containment_empty_def Let_def phase_ok_def\<close>)
  moreover have "replay_event (K_ContainmentEmpty, d) (abs_core c) = Inr (abs_core c')" for d
    using assms(2) True by (intro replay_plain) (auto simp: containment_empty_def Let_def)
  ultimately show ?thesis
    using assms(2) True by (auto simp: containment_empty_def conforms_def Let_def)
qed (use assms in \<open>auto simp: containment_empty_def conforms_def\<close>)

lemma reject_conforms:
  assumes "core_inv c" "reject code c = (out, c')"
  shows "conforms c (oc_events out) c'"
proof (cases "rc_state c \<in> {CREATED, ARMING}")
  case True
  have "core_inv c'"
    by (rule core_inv_cong [OF assms(1)])
       (use assms(2) True phase_okD [OF assms(1)] in \<open>auto simp: reject_def phase_ok_def\<close>)
  moreover have "replay_event (K_RunRejected, d) (abs_core c) = Inr (abs_core c')" for d
    using assms(2) True by (intro replay_plain) (auto simp: reject_def)
  ultimately show ?thesis
    using assms(2) True by (auto simp: reject_def conforms_def)
qed (use assms in \<open>auto simp: reject_def conforms_def\<close>)

lemma finalized_data_state:
  "finalized_data c final r cov = Inr d \<Longrightarrow> fld d ''state'' = state_json final"
  by (auto simp: finalized_data_def result_simps fld_JObj state_json_def)

lemma finalize_conforms:
  assumes "core_inv c" "finalize cov t c = (Inr out, c')"
  shows "conforms c (oc_events out) c'"
proof (cases "rc_state c = FINALIZING")
  case True
  then obtain r where r: "rc_stop_reason c = Some r"
    using phase_okD [OF assms(1)] by (auto simp: phase_ok_def)
  let ?c1 = "c\<lparr>rc_final_state := Some (final_state_for r)\<rparr>"
  obtain d where d: "finalized_data ?c1 (final_state_for r) r cov = Inr d"
      "out = no_outcome\<lparr>oc_events := [(K_RunFinalized, d)]\<rparr>" "c' = ?c1\<lparr>rc_state := final_state_for r\<rparr>"
    using assms(2) True r by (auto simp: finalize_def Let_def split: sum.splits)
  have "core_inv c'"
    by (rule core_inv_cong [OF assms(1)]) (simp_all add: d(3) phase_ok_def r final_state_for_def)
  moreover have "replay_event (K_RunFinalized, d) (abs_core c) = Inr (abs_core c')"
    using True finalized_data_state [OF d(1)]
    by (simp add: replay_event_def replay_data_def replay_post_def d(3) abs_core_def abs_computes_def [abs_def])
  ultimately show ?thesis by (simp add: conforms_def d(2))
qed (use assms in \<open>auto simp: finalize_def conforms_def\<close>)

end
