(* ===== verification/CoreLifecycle.thy ===== *)
theory CoreLifecycle imports CoreSteps begin

text \<open>
  Conformance of the operations on tokens, actions and reservations, and the closure of all
  operations from a fresh object. The ids the engine draws are new (the contract of the id source);
  that is the hypothesis of the operations that insert.
\<close>

section \<open>The abstraction of an updated table\<close>

lemma abs_tokens_update:
  assumes "rc_state c' = rc_state c" "rc_tokens c' = AList.update tid rec (rc_tokens c)"
    "rc_actions c' = rc_actions c" "rc_computes c' = rc_computes c"
  shows "abs_core c' = (abs_core c)\<lparr>rp_tokens := (rp_tokens (abs_core c))(JStr tid \<mapsto> tk_state rec)\<rparr>"
  using assms by (auto simp: abs_core_def abs_computes_def [abs_def] lookup_str_update)

lemma abs_actions_update:
  assumes "rc_state c' = rc_state c" "rc_actions c' = AList.update aid a (rc_actions c)"
    "rc_tokens c' = rc_tokens c" "rc_computes c' = rc_computes c"
  shows "abs_core c' = (abs_core c)\<lparr>rp_actions := (rp_actions (abs_core c))(JStr aid \<mapsto> JStr (action_state_name (ac_state a)))\<rparr>"
  using assms by (auto simp: abs_core_def abs_computes_def [abs_def] lookup_str_update)

lemma abs_computes_update:
  assumes "rc_state c' = rc_state c" "rc_computes c' = AList.update cid r (rc_computes c)"
    "rc_tokens c' = rc_tokens c" "rc_actions c' = rc_actions c"
  shows "abs_core c' = (abs_core c)\<lparr>rp_computes := (rp_computes (abs_core c))(JStr cid \<mapsto>
      if fld (cp_reservation r) ''state'' = JStr (lit ''FINISHED'') then C_FINISHED else C_CHARGED)\<rparr>"
  using assms by (auto simp: abs_core_def abs_computes_def [abs_def] lookup_str_update)

lemma fresh_lookup: "k \<notin> fst ` set al \<Longrightarrow> map_of al k = None"
  by (simp add: map_of_eq_None_iff)

section \<open>Issue\<close>

definition issued_rec :: "pystr \<Rightarrow> json \<Rightarrow> pystr \<Rightarrow> int \<Rightarrow> token_rec" where
  "issued_rec channel_id body h expires_us =
    \<lparr>tk_token = JObj [(lit ''body'', body), (lit ''sig'', JNull)], tk_channel_id = channel_id,
     tk_action_hash = h, tk_expires_us = expires_us, tk_state = T_ISSUED, tk_action_id = None\<rparr>"

text \<open>One equation per branch of the operation.\<close>

lemma token_issue_denied:
  "rc_state c = RUNNING \<Longrightarrow> action_policy c action = Inl (Lex code) \<Longrightarrow>
   token_issue channel_id action now_us token_id request_id c = (Inr (deny c request_id code), c)"
  by (simp add: token_issue_def)

lemma token_issue_raises:
  "rc_state c = RUNNING \<Longrightarrow> action_policy c action = Inl e \<Longrightarrow> (\<forall>code. e \<noteq> Lex code) \<Longrightarrow>
   token_issue channel_id action now_us token_id request_id c = (Inl e, c)"
  by (cases e) (simp_all add: token_issue_def)

lemma token_issue_cap:
  "rc_state c = RUNNING \<Longrightarrow> action_policy c action = Inr u \<Longrightarrow>
   int_of (fld (budgets c) ''spawns'') \<le> rc_spawn_issued c \<Longrightarrow>
   token_issue channel_id action now_us token_id request_id c =
     done_step (latch R_SPAWN_CAP (deny c request_id SPAWN_CAP) c)"
  by (simp add: token_issue_def Let_def)

lemma token_issue_cases:
  assumes "token_issue channel_id action now_us token_id request_id c = (Inr out, c')"
  obtains (stopped) "rc_state c \<noteq> RUNNING" "oc_events out = []" "c' = c"
    | (denied) code where "out = deny c request_id code" "c' = c"
    | (cap) "latch R_SPAWN_CAP (deny c request_id SPAWN_CAP) c = (out, c')"
    | (issued) h issued expires seq where
        "rc_state c = RUNNING" "rc_spawn_issued c < int_of (fld (budgets c) ''spawns'')"
        "oc_events out = [(K_TokenIssued, token_issued_data token_id channel_id (fld action ''kind'') h issued expires seq)]"
        "c' = c\<lparr>rc_spawn_issued := rc_spawn_issued c + 1, rc_issue_seq := rc_issue_seq c + 1,
           rc_tokens := AList.update token_id
             (issued_rec channel_id (token_body c token_id channel_id h issued expires seq) h (now_us + TOKEN_TTL_US))
             (rc_tokens c)\<rparr>"
proof (cases "rc_state c = RUNNING")
  case False
  then have "out = no_outcome\<lparr>oc_error := Some STOPPED\<rparr>" "c' = c"
    using assms by (simp_all add: token_issue_def)
  then show thesis using False by (intro stopped) simp_all
next
  case running: True
  show thesis
  proof (cases "action_policy c action")
    case (Inl e)
    show thesis
    proof (cases "\<exists>code. e = Lex code")
      case True
      then obtain code where "e = Lex code" by blast
      with Inl have "(Inr (deny c request_id code), c) = (Inr out :: exn + outcome, c')"
        using assms token_issue_denied [OF running] by metis
      then show thesis by (intro denied [of code]) auto
    next
      case False
      then show thesis using assms token_issue_raises [OF running Inl] by simp
    qed
  next
    case (Inr u)
    note policy = Inr
    show thesis
    proof (cases "rc_spawn_issued c \<ge> int_of (fld (budgets c) ''spawns'')")
      case True
      then have "latch R_SPAWN_CAP (deny c request_id SPAWN_CAP) c = (out, c')"
        using assms token_issue_cap [OF running policy] by (simp add: done_step_def prod_eq_iff)
      then show thesis by (rule cap)
    next
      case False
      show thesis
      proof (cases "token_parts action now_us (rc_issue_seq c + 1)")
        case (Inl e)
        then show thesis using assms running policy False by (simp add: token_issue_def Let_def)
      next
        case (Inr t)
        obtain h i e q where t: "t = (h, i, e, q)" by (cases t)
        show thesis
          using assms running policy False Inr
          by (intro issued [of h i e q]) (auto simp: t token_issue_def Let_def issued_rec_def token_body_def)
      qed
    qed
  qed
qed

lemma issue_inv:
  assumes "core_inv c" "rc_state c = RUNNING" "rc_spawn_issued c < int_of (fld (budgets c) ''spawns'')"
    "tid \<notin> fst ` set (rc_tokens c)" "fld (fld (tk_token rec) ''body'') ''token_id'' = JStr tid" "tk_state rec = T_ISSUED"
  shows "core_inv (c\<lparr>rc_spawn_issued := rc_spawn_issued c + 1, rc_issue_seq := n,
    rc_tokens := AList.update tid rec (rc_tokens c)\<rparr>)" (is "core_inv ?c'")
proof -
  have parts: "keys_ok c" "entries_ok c" "slots_ok c" "inflight_ok c" "flops_ok c" "phase_ok c"
    using assms(1) by (simp_all add: core_inv_def)
  have "keys_ok ?c'" using parts(1) by (simp add: keys_ok_def distinct_update)
  moreover have "entries_ok ?c'"
    using parts(2) assms(5) all_update [of "rc_tokens c" token_key tid rec] by (simp add: entries_ok_def token_key_def)
  moreover have "slots_ok ?c'"
    using parts(3) assms(3,4,6)
    by (auto simp: slots_ok_def budgets_def length_update_new asum_update_new is_spent_def)
  moreover have "inflight_ok ?c' = inflight_ok c" "flops_ok ?c' = flops_ok c" "phase_ok ?c' = phase_ok c"
    by (simp_all add: inflight_ok_def flops_ok_def phase_ok_def budgets_def)
  ultimately show ?thesis using parts by (simp add: core_inv_def)
qed

lemma token_issue_conforms:
  assumes "core_inv c" "token_id \<notin> fst ` set (rc_tokens c)"
    "token_issue channel_id action now_us token_id request_id c = (Inr out, c')"
  shows "conforms c (oc_events out) c'"
  using assms(3)
proof (cases rule: token_issue_cases)
  case stopped
  then show ?thesis using assms(1) by (simp add: conforms_refl)
next
  case (denied code)
  then show ?thesis using assms(1) by (simp add: deny_conforms)
next
  case cap
  then show ?thesis by (rule latch_conforms) (rule deny_conforms [OF assms(1)])
next
  case (issued h i e s)
  let ?rec = "issued_rec channel_id (token_body c token_id channel_id h i e s) h (now_us + TOKEN_TTL_US)"
  have "core_inv c'"
    unfolding issued(4)
    by (rule issue_inv [OF assms(1) issued(1,2) assms(2)]) (simp_all add: issued_rec_def token_body_def fld_JObj)
  moreover have "replay_event (K_TokenIssued, token_issued_data token_id channel_id k h i e s) (abs_core c) =
      Inr (abs_core c')" for k
  proof -
    have "abs_core c' = (abs_core c)\<lparr>rp_tokens := (rp_tokens (abs_core c))(JStr token_id \<mapsto> tk_state ?rec)\<rparr>"
      by (rule abs_tokens_update) (simp_all add: issued(4))
    then show ?thesis
      using issued(1) fresh_lookup [OF assms(2)]
      by (simp add: replay_event_def replay_data_def replay_post_def token_issued_data_def fld_JObj issued_rec_def)
  qed
  ultimately show ?thesis
    unfolding issued(3) by (rule conforms_one)
qed

section \<open>Updates that keep the invariant\<close>

lemma core_invD:
  assumes "core_inv c"
  shows "keys_ok c" "entries_ok c" "slots_ok c" "inflight_ok c" "flops_ok c" "phase_ok c"
  using assms by (simp_all add: core_inv_def)

lemma length_update_same: "map_of al k = Some w \<Longrightarrow> length (AList.update k v al) = length al"
  by (rule length_update_old) (rule map_of_key)

lemma token_keyD: "entries_ok c \<Longrightarrow> map_of (rc_tokens c) tid = Some rec \<Longrightarrow> token_key (tid, rec)"
  by (auto simp: entries_ok_def dest: map_of_SomeD)

lemma action_keyD: "entries_ok c \<Longrightarrow> map_of (rc_actions c) aid = Some a \<Longrightarrow> action_key (aid, a)"
  by (auto simp: entries_ok_def dest: map_of_SomeD)

lemma compute_keyD: "entries_ok c \<Longrightarrow> map_of (rc_computes c) cid = Some r \<Longrightarrow> compute_key (cid, r)"
  by (auto simp: entries_ok_def dest: map_of_SomeD)

text \<open>A token changes its state without being spent.\<close>

lemma token_update_inv:
  assumes inv: "core_inv c" and rec: "map_of (rc_tokens c) tid = Some rec"
    and same: "tk_token rec' = tk_token rec" "is_spent rec' = is_spent rec"
  shows "core_inv (c\<lparr>rc_tokens := AList.update tid rec' (rc_tokens c)\<rparr>)" (is "core_inv ?c'")
proof -
  note parts = core_invD [OF inv]
  have dist: "distinct (map fst (rc_tokens c))" using parts(1) by (simp add: keys_ok_def)
  have "keys_ok ?c'" using parts(1) by (simp add: keys_ok_def distinct_update)
  moreover have "token_key (tid, rec')"
    using token_keyD [OF parts(2) rec] same(1) by (simp add: token_key_def)
  then have "entries_ok ?c'"
    using parts(2) all_update [of "rc_tokens c" token_key tid rec'] by (simp add: entries_ok_def)
  moreover have "slots_ok ?c'"
    using parts(3) asum_update_old [OF dist rec, of is_spent rec'] length_update_same [OF rec] same(2)
    by (simp add: slots_ok_def budgets_def)
  moreover have "inflight_ok ?c' = inflight_ok c" "flops_ok ?c' = flops_ok c" "phase_ok ?c' = phase_ok c"
    by (simp_all add: inflight_ok_def flops_ok_def phase_ok_def budgets_def)
  ultimately show ?thesis using parts by (simp add: core_inv_def)
qed

text \<open>A live token is spent on a new action.\<close>

lemma spend_inv:
  assumes inv: "core_inv c" and rec: "map_of (rc_tokens c) tid = Some rec" "tk_state rec = T_ISSUED"
    and rec': "tk_token rec' = tk_token rec" "tk_state rec' = T_SPENT"
    and act: "aid \<notin> fst ` set (rc_actions c)" "ac_action_id a = aid" "ac_state a = A_DISPATCHED"
    and room: "rc_inflight c < int MAX_INFLIGHT_ACTIONS"
  shows "core_inv (c\<lparr>rc_tokens := AList.update tid rec' (rc_tokens c), rc_inflight := rc_inflight c + 1,
    rc_actions := AList.update aid a (rc_actions c)\<rparr>)" (is "core_inv ?c'")
proof -
  note parts = core_invD [OF inv]
  have dist: "distinct (map fst (rc_tokens c))" using parts(1) by (simp add: keys_ok_def)
  have "keys_ok ?c'" using parts(1) by (simp add: keys_ok_def distinct_update)
  moreover have "token_key (tid, rec')"
    using token_keyD [OF parts(2) rec(1)] rec'(1) by (simp add: token_key_def)
  then have "entries_ok ?c'"
    using parts(2) act(2) all_update [of "rc_tokens c" token_key tid rec'] all_update [of "rc_actions c" action_key aid a]
    by (simp add: entries_ok_def action_key_def)
  moreover have "slots_ok ?c'"
    using parts(3) asum_update_old [OF dist rec(1), of is_spent rec'] length_update_same [OF rec(1)]
      length_update_new [OF act(1), of a] rec(2) rec'(2)
    by (simp add: slots_ok_def budgets_def is_spent_def)
  moreover have "inflight_ok ?c'"
    using parts(4) room asum_update_new [OF act(1), of is_dispatched a] act(3)
    by (simp add: inflight_ok_def is_dispatched_def)
  moreover have "flops_ok ?c' = flops_ok c" "phase_ok ?c' = phase_ok c"
    by (simp_all add: flops_ok_def phase_ok_def budgets_def)
  ultimately show ?thesis using parts by (simp add: core_inv_def)
qed

text \<open>A dispatched action is resolved.\<close>

lemma resolve_inv:
  assumes inv: "core_inv c" and a: "map_of (rc_actions c) aid = Some a" "ac_state a = A_DISPATCHED"
    and a': "ac_action_id a' = ac_action_id a" "ac_state a' \<noteq> A_DISPATCHED"
  shows "core_inv (c\<lparr>rc_inflight := rc_inflight c - 1, rc_actions := AList.update aid a' (rc_actions c)\<rparr>)"
    (is "core_inv ?c'")
proof -
  note parts = core_invD [OF inv]
  have dist: "distinct (map fst (rc_actions c))" using parts(1) by (simp add: keys_ok_def)
  have "keys_ok ?c'" using parts(1) by (simp add: keys_ok_def distinct_update)
  moreover have "entries_ok ?c'"
    using parts(2) action_keyD [OF parts(2) a(1)] a'(1) all_update [of "rc_actions c" action_key aid a']
    by (simp add: entries_ok_def action_key_def)
  moreover have "slots_ok ?c'"
    using parts(3) length_update_same [OF a(1), of a'] by (simp add: slots_ok_def budgets_def)
  moreover have "inflight_ok ?c'"
    using parts(4) asum_update_old [OF dist a(1), of is_dispatched a'] a(2) a'(2)
    by (simp add: inflight_ok_def is_dispatched_def)
  moreover have "flops_ok ?c' = flops_ok c" "phase_ok ?c' = phase_ok c"
    by (simp_all add: flops_ok_def phase_ok_def budgets_def)
  ultimately show ?thesis using parts by (simp add: core_inv_def)
qed

section \<open>Dispatch\<close>

lemma dispatch_cases:
  assumes d: "dispatch channel_id token action now_us aid request_id c = (Inr out, c')"
  obtains (none) "oc_events out = []" "c' = c"
    | (denied) code where "out = deny c request_id code" "c' = c"
    | (expired) tid rec where "rc_state c = RUNNING" "map_of (rc_tokens c) tid = Some rec" "tk_state rec = T_ISSUED"
        "c' = c\<lparr>rc_tokens := AList.update tid (rec\<lparr>tk_state := T_EXPIRED\<rparr>) (rc_tokens c)\<rparr>"
        "oc_events out = (K_TokenExpired, expired_data rec) # oc_events (deny c' request_id TOKEN_EXPIRED)"
    | (spent) tid rec a where "rc_state c = RUNNING" "map_of (rc_tokens c) tid = Some rec" "tk_state rec = T_ISSUED"
        "rc_inflight c < int MAX_INFLIGHT_ACTIONS" "ac_action_id a = aid" "ac_state a = A_DISPATCHED"
        "c' = c\<lparr>rc_tokens := AList.update tid (rec\<lparr>tk_state := T_SPENT, tk_action_id := Some aid\<rparr>) (rc_tokens c),
           rc_inflight := rc_inflight c + 1, rc_actions := AList.update aid a (rc_actions c)\<rparr>"
        "oc_events out = [(K_TokenSpent, JObj [(lit ''token_id'', JStr tid), (lit ''action_id'', JStr aid)])]"
        "now_us < tk_expires_us rec"
proof (cases "rc_state c = RUNNING")
  case False
  then have "(Inr (no_outcome\<lparr>oc_error := Some STOPPED\<rparr>), c) = (Inr out :: exn + outcome, c')"
    using d by (simp add: dispatch_def)
  then show thesis by (intro none) auto
next
  case running: True
  let ?body = "fld token ''body''"
  show thesis
  proof (cases "token_mismatch c channel_id ?body action")
    case (Inl e)
    then show thesis using d running by (simp add: dispatch_def Let_def)
  next
    case mm: (Inr mismatch)
    show thesis
    proof (cases "lookup_str (rc_tokens c) (fld ?body ''token_id'')")
      case None
      then have "(Inr (deny c request_id TOKEN_BINDING), c) = (Inr out :: exn + outcome, c')"
        using d running mm by (auto simp: dispatch_def Let_def)
      then show thesis by (intro denied [of TOKEN_BINDING]) auto
    next
      case look: (Some rec)
      obtain tid where tid: "fld ?body ''token_id'' = JStr tid" "map_of (rc_tokens c) tid = Some rec"
        using lookup_strD [OF look] by blast
      note facts = running mm look tid(1) str_of_def
      have refused: "\<exists>code. dispatch channel_id token action now_us aid request_id c = (Inr (deny c request_id code), c)"
        if "mismatch \<or> tk_state rec \<noteq> T_ISSUED"
        using that facts by (cases "tk_state rec"; cases mismatch) (auto simp: dispatch_def Let_def)
      show thesis
      proof (cases "mismatch \<or> tk_state rec \<noteq> T_ISSUED")
        case True
        then obtain code where "(Inr (deny c request_id code), c) = (Inr out :: exn + outcome, c')"
          using refused d by metis
        then show thesis by (intro denied [of code]) auto
      next
        case False
        then have live: "\<not> mismatch" "tk_state rec = T_ISSUED" by simp_all
        show thesis
        proof (cases "now_us \<ge> tk_expires_us rec")
          case True
          then show thesis
            using d facts live tid(2) by (intro expired [of tid rec]) (auto simp: dispatch_def Let_def)
        next
          case False
          show thesis
          proof (cases "rc_inflight c \<ge> int MAX_INFLIGHT_ACTIONS")
            case True
            then have "(Inr (no_outcome\<lparr>oc_error := Some BUSY\<rparr>), c) = (Inr out :: exn + outcome, c')"
              using d facts live False by (simp add: dispatch_def Let_def)
            then show thesis by (intro none) auto
          next
            case room: False
            let ?a = "\<lparr>ac_action_id = aid, ac_channel_id = channel_id, ac_kind = fld action ''kind'', ac_token_id = JStr tid,
              ac_state = A_DISPATCHED, ac_result = JNull, ac_error = JNull, ac_exit = JNull\<rparr>"
            show thesis
              using d facts live False room tid(2)
              by (intro spent [of tid rec ?a]) (auto simp: dispatch_def Let_def)
          qed
        qed
      qed
    qed
  qed
qed

lemma deny_events:
  "live c \<Longrightarrow> oc_events (deny c r code) =
     [(K_RequestDenied, JObj [(lit ''request_id'', JStr r), (lit ''code'', JStr (code_name code))])]"
  by (simp add: deny_def)

lemma running_live: "rc_state c = RUNNING \<Longrightarrow> live c"
  by (simp add: live_def live_states_def)

text \<open>Expiry of one live token.\<close>

lemma expire_conforms:
  assumes inv: "core_inv c" and run: "rc_state c = RUNNING"
    and rec: "map_of (rc_tokens c) tid = Some rec" "tk_state rec = T_ISSUED"
  shows "conforms c [(K_TokenExpired, expired_data rec)]
    (c\<lparr>rc_tokens := AList.update tid (rec\<lparr>tk_state := T_EXPIRED\<rparr>) (rc_tokens c)\<rparr>)" (is "conforms c _ ?c'")
proof (rule conforms_one)
  show "core_inv ?c'"
    using rec by (intro token_update_inv [OF inv rec(1)]) (simp_all add: is_spent_def)
  have "fld (expired_data rec) ''token_id'' = JStr tid"
    using token_keyD [OF core_invD(2) [OF inv] rec(1)] by (simp add: expired_data_def fld_JObj token_key_def)
  moreover have "abs_core ?c' = (abs_core c)\<lparr>rp_tokens := (rp_tokens (abs_core c))(JStr tid \<mapsto> T_EXPIRED)\<rparr>"
    by (subst abs_tokens_update [of ?c' c tid "rec\<lparr>tk_state := T_EXPIRED\<rparr>"]) simp_all
  ultimately show "replay_event (K_TokenExpired, expired_data rec) (abs_core c) = Inr (abs_core ?c')"
    using run rec by (simp add: replay_event_def replay_data_def replay_post_def Let_def)
qed

lemma dispatch_conforms:
  assumes inv: "core_inv c" and fresh: "aid \<notin> fst ` set (rc_actions c)"
    and d: "dispatch channel_id token action now_us aid request_id c = (Inr out, c')"
  shows "conforms c (oc_events out) c'"
  using d
proof (cases rule: dispatch_cases)
  case none
  then show ?thesis using inv by (simp add: conforms_refl)
next
  case (denied code)
  then show ?thesis using inv by (simp add: deny_conforms)
next
  case (expired tid rec)
  have "conforms c [(K_TokenExpired, expired_data rec)] c'"
    unfolding expired(4) by (rule expire_conforms [OF inv expired(1-3)])
  moreover from this have "conforms c' (oc_events (deny c' request_id TOKEN_EXPIRED)) c'"
    by (intro deny_conforms) (simp add: conforms_def)
  ultimately show ?thesis
    unfolding expired(5) using conforms_trans by fastforce
next
  case (spent tid rec a)
  have "core_inv c'"
    unfolding spent(7) using spent by (intro spend_inv [OF inv spent(2) spent(3) _ _ fresh]) simp_all
  moreover have "replay_event (K_TokenSpent, JObj [(lit ''token_id'', JStr tid), (lit ''action_id'', JStr aid)]) (abs_core c)
      = Inr (abs_core c')"
  proof -
    have "abs_core c' = (abs_core c)\<lparr>rp_tokens := (rp_tokens (abs_core c))(JStr tid \<mapsto> T_SPENT),
        rp_actions := (rp_actions (abs_core c))(JStr aid \<mapsto> dispatched_json)\<rparr>"
      using spent(6) by (auto simp: spent(7) abs_core_def abs_computes_def [abs_def] lookup_str_update dispatched_json_def)
    then show ?thesis
      using spent(1-3) fresh_lookup [OF fresh]
      by (simp add: replay_event_def replay_data_def replay_post_def Let_def fld_JObj)
  qed
  ultimately show ?thesis
    unfolding spent(8) by (rule conforms_one)
qed

section \<open>The expiry sweep\<close>

lemma expire_loop_conforms:
  assumes "core_inv c" "rc_state c = RUNNING" "rc_tokens c = pre @ recs" "expire_loop now recs = (recs', evs)"
  shows "conforms c evs (c\<lparr>rc_tokens := pre @ recs'\<rparr>)"
  using assms
proof (induction recs arbitrary: c pre recs' evs)
  case Nil
  then have "c\<lparr>rc_tokens := pre @ recs'\<rparr> = c" "evs = []" by auto
  with Nil.prems(1) show ?case by (simp only: conforms_refl)
next
  case (Cons kr recs)
  obtain k rec where kr: "kr = (k, rec)" by (cases kr)
  obtain rs es where tl: "expire_loop now recs = (rs, es)" by (cases "expire_loop now recs")
  have "distinct (map fst (rc_tokens c))" using core_invD(1) [OF Cons.prems(1)] by (simp add: keys_ok_def)
  then have k: "k \<notin> fst ` set pre" "map_of (rc_tokens c) k = Some rec"
    using Cons.prems(3) kr by (simp, intro map_of_is_SomeI) (simp_all add: Cons.prems(3) kr)
  show ?case
  proof (cases "tk_state rec = T_ISSUED \<and> now \<ge> tk_expires_us rec")
    case True
    let ?rec = "rec\<lparr>tk_state := T_EXPIRED\<rparr>"
    let ?c = "c\<lparr>rc_tokens := (pre @ [(k, ?rec)]) @ recs\<rparr>"
    have "AList.update k ?rec (rc_tokens c) = (pre @ [(k, ?rec)]) @ recs"
      using k(1) unfolding Cons.prems(3) kr by (induction pre) auto
    with expire_conforms [OF Cons.prems(1,2) k(2)] True have first: "conforms c [(K_TokenExpired, expired_data rec)] ?c"
      by simp
    then have "conforms ?c es (?c\<lparr>rc_tokens := (pre @ [(k, ?rec)]) @ rs\<rparr>)"
      using Cons.prems(2) tl by (intro Cons.IH) (simp_all add: conforms_def)
    with first have "conforms c ([(K_TokenExpired, expired_data rec)] @ es) (?c\<lparr>rc_tokens := (pre @ [(k, ?rec)]) @ rs\<rparr>)"
      by (rule conforms_trans)
    then show ?thesis using Cons.prems(4) True kr tl by simp
  next
    case False
    have "conforms c es (c\<lparr>rc_tokens := (pre @ [(k, rec)]) @ rs\<rparr>)"
      using Cons.prems kr tl by (intro Cons.IH) simp_all
    then show ?thesis using Cons.prems(4) False kr tl by auto
  qed
qed

lemma expire_tokens_conforms:
  assumes "core_inv c" "expire_tokens now c = (out, c')"
  shows "conforms c (oc_events out) c'"
proof (cases "rc_state c = RUNNING")
  case True
  obtain recs evs where l: "expire_loop now (rc_tokens c) = (recs, evs)" by (cases "expire_loop now (rc_tokens c)")
  have "conforms c evs (c\<lparr>rc_tokens := [] @ recs\<rparr>)"
    using assms(1) True l by (intro expire_loop_conforms) simp_all
  then show ?thesis using assms(2) True l by (auto simp: expire_tokens_def)
qed (use assms in \<open>auto simp: expire_tokens_def conforms_refl\<close>)

section \<open>Actions\<close>

lemma resolved_abs:
  "abs_core (c\<lparr>rc_inflight := n, rc_actions := AList.update aid a (rc_actions c)\<rparr>) =
     (abs_core c)\<lparr>rp_actions := (rp_actions (abs_core c))(JStr aid \<mapsto> JStr (action_state_name (ac_state a)))\<rparr>"
  by (rule abs_actions_update) simp_all

lemma resolve_conforms:
  assumes inv: "core_inv c" and a: "map_of (rc_actions c) aid = Some a" "ac_state a = A_DISPATCHED"
    and a': "ac_action_id a' = ac_action_id a" "ac_state a' \<noteq> A_DISPATCHED" and st: "rc_state c \<in> set finish_states"
    and ev: "k = K_ActionFinished \<and> fld (fld d ''action'') ''action_id'' = JStr aid \<and>
        fld (fld d ''action'') ''state'' = JStr (action_state_name (ac_state a')) \<or>
      k = K_ActionUnknown \<and> fld d ''action_id'' = JStr aid \<and> ac_state a' = A_UNKNOWN"
  shows "conforms c [(k, d)] (c\<lparr>rc_inflight := rc_inflight c - 1, rc_actions := AList.update aid a' (rc_actions c)\<rparr>)"
proof (rule conforms_one)
  show "core_inv (c\<lparr>rc_inflight := rc_inflight c - 1, rc_actions := AList.update aid a' (rc_actions c)\<rparr>)"
    by (rule resolve_inv [OF inv a a'])
  have "rp_actions (abs_core c) (JStr aid) = Some dispatched_json"
    using a by (simp add: dispatched_json_def)
  moreover have "rc_state c \<in> {RUNNING, STOPPING, UNCONFIRMED}" using st by (simp add: finish_states_def)
  ultimately show "replay_event (k, d) (abs_core c) =
      Inr (abs_core (c\<lparr>rc_inflight := rc_inflight c - 1, rc_actions := AList.update aid a' (rc_actions c)\<rparr>))"
    unfolding resolved_abs using ev
    by (auto simp: replay_event_def replay_data_def replay_post_def Let_def simp del: abs_core_sel(3))
qed

lemma action_finish_conforms:
  assumes inv: "core_inv c" and f: "action_finish aid result error exit_info c = (out, c')"
  shows "conforms c (oc_events out) c'"
proof (cases "\<exists>a. map_of (rc_actions c) aid = Some a \<and> ac_state a = A_DISPATCHED \<and> rc_state c \<in> set finish_states")
  case True
  then obtain a where a: "map_of (rc_actions c) aid = Some a" "ac_state a = A_DISPATCHED" "rc_state c \<in> set finish_states"
    by blast
  have aid: "ac_action_id a = aid"
    using action_keyD [OF core_invD(2) [OF inv] a(1)] by (simp add: action_key_def)
  define good where "good \<longleftrightarrow> error = JNull \<and> result \<noteq> JNull"
  define a' where "a' = (if good then a\<lparr>ac_state := A_SUCCEEDED, ac_result := result\<rparr>
    else a\<lparr>ac_state := A_FAILED, ac_error := error_or_failed error, ac_result := result, ac_exit := exit_info\<rparr>)"
  define d where "d = JObj [(lit ''action'', if good then audit a A_SUCCEEDED exit_info result JNull
    else audit a A_FAILED exit_info result (error_or_failed error))]"
  have "oc_events out = [(K_ActionFinished, d)]"
    "c' = c\<lparr>rc_inflight := rc_inflight c - 1, rc_actions := AList.update aid a' (rc_actions c)\<rparr>"
    using f a by (auto simp: action_finish_def Let_def good_def a'_def d_def)
  moreover have "fld (fld d ''action'') ''action_id'' = JStr aid"
      "fld (fld d ''action'') ''state'' = JStr (action_state_name (ac_state a'))"
    using aid by (simp_all add: d_def a'_def audit_def fld_JObj Let_def)
  moreover have "ac_action_id a' = ac_action_id a" "ac_state a' \<noteq> A_DISPATCHED"
    by (simp_all add: a'_def)
  ultimately show ?thesis
    using resolve_conforms [OF inv a(1,2) _ _ a(3), of a' K_ActionFinished d] by simp
next
  case False
  then have "out = no_outcome" "c' = c" using f by (auto simp: action_finish_def split: option.splits if_splits)
  then show ?thesis using inv by (simp add: conforms_refl)
qed

lemma action_unknown_conforms:
  assumes inv: "core_inv c" and f: "action_unknown aid code c = (out, c')"
  shows "conforms c (oc_events out) c'"
proof (cases "\<exists>a. map_of (rc_actions c) aid = Some a \<and> ac_state a = A_DISPATCHED \<and> rc_state c \<in> set finish_states")
  case True
  then obtain a where a: "map_of (rc_actions c) aid = Some a" "ac_state a = A_DISPATCHED" "rc_state c \<in> set finish_states"
    by blast
  let ?a = "a\<lparr>ac_state := A_UNKNOWN, ac_error := JStr (code_name code)\<rparr>"
  let ?d = "JObj [(lit ''action_id'', JStr aid), (lit ''code'', JStr (code_name code))]"
  have "oc_events out = [(K_ActionUnknown, ?d)]"
    "c' = c\<lparr>rc_inflight := rc_inflight c - 1, rc_actions := AList.update aid ?a (rc_actions c)\<rparr>"
    using f a by (auto simp: action_unknown_def)
  then show ?thesis
    using resolve_conforms [OF inv a(1,2) _ _ a(3), of ?a K_ActionUnknown ?d] by (simp add: fld_JObj)
next
  case False
  then have "out = no_outcome" "c' = c" using f by (auto simp: action_unknown_def split: option.splits if_splits)
  then show ?thesis using inv by (simp add: conforms_refl)
qed

section \<open>Reservations\<close>

lemma u_of_u_str: "u_str n = Inr s \<Longrightarrow> u_of (JStr s) = n"
  by (auto simp: u_str_eq_Inr u_of_def str_of_def)

lemma reserve_inv:
  assumes inv: "core_inv c" and fresh: "cid \<notin> fst ` set (rc_computes c)"
    and charged: "u_str charge = Inr charged" and fits: "admit_flops c charge"
  shows "core_inv (c\<lparr>rc_charged_flops := rc_charged_flops c + charge,
    rc_computes := AList.update cid \<lparr>cp_reservation = reservation cid work charged, cp_channel_id = ch\<rparr> (rc_computes c)\<rparr>)"
    (is "core_inv ?c'")
proof -
  note parts = core_invD [OF inv]
  let ?r = "\<lparr>cp_reservation = reservation cid work charged, cp_channel_id = ch\<rparr>"
  have "keys_ok ?c'" using parts(1) by (simp add: keys_ok_def distinct_update)
  moreover have "compute_key (cid, ?r)"
    by (simp add: compute_key_def reservation_def fld_JObj Let_def)
  then have "entries_ok ?c'"
    using parts(2) all_update [of "rc_computes c" compute_key cid ?r] by (simp add: entries_ok_def)
  moreover have "slots_ok ?c' = slots_ok c" "inflight_ok ?c' = inflight_ok c" "phase_ok ?c' = phase_ok c"
    by (simp_all add: slots_ok_def inflight_ok_def phase_ok_def budgets_def)
  moreover have "charge_of ?r = charge"
    using u_of_u_str [OF charged] by (simp add: charge_of_def reservation_def fld_JObj)
  then have "asum charge_of (AList.update cid ?r (rc_computes c)) = asum charge_of (rc_computes c) + charge"
    using asum_update_new [OF fresh, of charge_of ?r] by simp
  then have "flops_ok ?c'"
    using parts(5) fits by (auto simp: flops_ok_def admit_flops_def budgets_def Let_def split: if_splits)
  ultimately show ?thesis using parts by (simp add: core_inv_def)
qed

lemma compute_reserve_cases:
  assumes r: "compute_reserve ch work now cid rid c = (Inr out, c')"
  obtains (none) "oc_events out = []" "c' = c"
    | (denied) code where "out = deny c rid code" "c' = c"
    | (cap) "latch R_FLOPS_CAP (deny c rid FLOPS_CAP) c = (out, c')"
    | (reserved) charge charged where "rc_state c = RUNNING" "u_str charge = Inr charged" "admit_flops c charge"
        "oc_events out = [(K_ComputeReserved, reservation_data (reservation cid work charged))]"
        "c' = c\<lparr>rc_charged_flops := rc_charged_flops c + charge, rc_computes := AList.update cid
           \<lparr>cp_reservation = reservation cid work charged, cp_channel_id = ch\<rparr> (rc_computes c)\<rparr>"
proof (cases "rc_state c = RUNNING")
  case False
  then have "(Inr (no_outcome\<lparr>oc_error := Some STOPPED\<rparr>), c) = (Inr out :: exn + outcome, c')"
    using r by (simp add: compute_reserve_def)
  then show thesis by (intro none) auto
next
  case run: True
  show thesis
  proof (cases "check_work work")
    case (Inl e)
    then show thesis using r run by (simp add: compute_reserve_def)
  next
    case w: (Inr u)
    show thesis
    proof (cases "catalog c (fld work ''model_id'')")
      case None
      then have "(Inr (deny c rid UNSUPPORTED_MODEL), c) = (Inr out :: exn + outcome, c')"
        using r run w by (auto simp: compute_reserve_def)
      then show thesis by (intro denied [of UNSUPPORTED_MODEL]) auto
    next
      case m: (Some model)
      show thesis
      proof (cases "estimate_for_model_work model work")
        case (Inl e)
        then show thesis using r run w m by (simp add: compute_reserve_def)
      next
        case e: (Inr est)
        let ?charge = "py_int (est_charged_flops est)"
        show thesis
        proof (cases "admit_flops c ?charge")
          case False
          then show thesis using r run w m e
            by (intro cap) (auto simp: compute_reserve_def Let_def done_step_def prod_eq_iff)
        next
          case fits: True
          show thesis
          proof (cases "u_str ?charge")
            case (Inl x)
            then show thesis using r run w m e fits by (simp add: compute_reserve_def Let_def)
          next
            case (Inr charged)
            then show thesis using r run w m e fits
              by (intro reserved [of ?charge charged]) (auto simp: compute_reserve_def Let_def)
          qed
        qed
      qed
    qed
  qed
qed

lemma compute_reserve_conforms:
  assumes inv: "core_inv c" and fresh: "cid \<notin> fst ` set (rc_computes c)"
    and r: "compute_reserve ch work now cid rid c = (Inr out, c')"
  shows "conforms c (oc_events out) c'"
  using r
proof (cases rule: compute_reserve_cases)
  case none
  then show ?thesis using inv by (simp add: conforms_refl)
next
  case (denied code)
  then show ?thesis using inv by (simp add: deny_conforms)
next
  case cap
  then show ?thesis by (rule latch_conforms) (rule deny_conforms [OF inv])
next
  case (reserved charge charged)
  have "core_inv c'"
    unfolding reserved(5) by (rule reserve_inv [OF inv fresh reserved(2,3)])
  moreover have "replay_event (K_ComputeReserved, reservation_data (reservation cid work charged)) (abs_core c) =
      Inr (abs_core c')"
  proof -
    have "abs_core c' = (abs_core c)\<lparr>rp_computes := (rp_computes (abs_core c))(JStr cid \<mapsto> C_CHARGED)\<rparr>"
      by (auto simp: reserved(5) abs_core_def abs_computes_def [abs_def] lookup_str_update reservation_def fld_JObj)
    moreover have "rp_computes (abs_core c) (JStr cid) = None"
      using fresh_lookup [OF fresh] by (simp add: abs_computes_def)
    ultimately show ?thesis
      using reserved(1) by (simp add: replay_event_def replay_data_def replay_post_def Let_def reservation_data_def
          reservation_def fld_JObj del: abs_core_sel(4))
  qed
  ultimately show ?thesis
    unfolding reserved(4) by (rule conforms_one)
qed

lemma finished_fields:
  assumes "compute_key (cid, r)"
  shows "fld (finish_reservation (cp_reservation r) o1 o2) ''state'' = JStr (lit ''FINISHED'')"
    "fld (finish_reservation (cp_reservation r) o1 o2) ''compute_id'' = JStr cid"
    "fld (finish_reservation (cp_reservation r) o1 o2) ''charged_flops'' = fld (cp_reservation r) ''charged_flops''"
proof -
  have st: "fld (cp_reservation r) ''state'' \<noteq> JNull" and cid: "fld (cp_reservation r) ''compute_id'' = JStr cid"
    using assms by (auto simp: compute_key_def Let_def)
  show "fld (finish_reservation (cp_reservation r) o1 o2) ''state'' = JStr (lit ''FINISHED'')"
    "fld (finish_reservation (cp_reservation r) o1 o2) ''compute_id'' = JStr cid"
    "fld (finish_reservation (cp_reservation r) o1 o2) ''charged_flops'' = fld (cp_reservation r) ''charged_flops''"
    using fld_present [OF st] cid by (simp_all add: finish_reservation_def fld_set_item fld_dict_of)
qed

lemma finish_inv:
  assumes inv: "core_inv c" and r: "map_of (rc_computes c) cid = Some r"
  shows "core_inv (c\<lparr>rc_computes := AList.update cid
    (r\<lparr>cp_reservation := finish_reservation (cp_reservation r) o1 o2\<rparr>) (rc_computes c)\<rparr>)" (is "core_inv ?c'")
proof -
  note parts = core_invD [OF inv]
  let ?r = "r\<lparr>cp_reservation := finish_reservation (cp_reservation r) o1 o2\<rparr>"
  have key: "compute_key (cid, r)" by (rule compute_keyD [OF parts(2) r])
  note f = finished_fields [OF key, of o1 o2]
  have dist: "distinct (map fst (rc_computes c))" using parts(1) by (simp add: keys_ok_def)
  have "keys_ok ?c'" using parts(1) by (simp add: keys_ok_def distinct_update)
  moreover have "compute_key (cid, ?r)"
    using key f by (simp add: compute_key_def Let_def)
  then have "entries_ok ?c'"
    using parts(2) all_update [of "rc_computes c" compute_key cid ?r] by (simp add: entries_ok_def)
  moreover have "slots_ok ?c' = slots_ok c" "inflight_ok ?c' = inflight_ok c" "phase_ok ?c' = phase_ok c"
    by (simp_all add: slots_ok_def inflight_ok_def phase_ok_def budgets_def)
  moreover have "charge_of ?r = charge_of r" using f by (simp add: charge_of_def)
  then have "asum charge_of (AList.update cid ?r (rc_computes c)) = asum charge_of (rc_computes c)"
    using asum_update_old [OF dist r, of charge_of ?r] by simp
  then have "flops_ok ?c' = flops_ok c" by (simp add: flops_ok_def budgets_def)
  ultimately show ?thesis using parts by (simp add: core_inv_def)
qed

text \<open>The ways \<open>compute_finish\<close> returns, and its two halves: a finished and an open reservation.\<close>

definition finish_outcome :: "run_core \<Rightarrow> pystr \<Rightarrow> pystr \<Rightarrow> outcome \<Rightarrow> run_core \<Rightarrow> bool" where
  "finish_outcome c cid rid out c' \<longleftrightarrow>
     (oc_events out = [] \<and> c' = c) \<or> (\<exists>code. out = deny c rid code \<and> c' = c) \<or>
     (\<exists>code. latch R_FLOPS_CAP (deny c rid code) c = (out, c')) \<or>
     (\<exists>r o1 o2. rc_state c = RUNNING \<and> map_of (rc_computes c) cid = Some r \<and>
        fld (cp_reservation r) ''state'' \<noteq> JStr (lit ''FINISHED'') \<and>
        oc_events out = [(K_ComputeFinished, reservation_data (finish_reservation (cp_reservation r) o1 o2))] \<and>
        c' = c\<lparr>rc_computes := AList.update cid
           (r\<lparr>cp_reservation := finish_reservation (cp_reservation r) o1 o2\<rparr>) (rc_computes c)\<rparr>)"

lemma finish_outcome_simple:
  "s = (Inr (no_outcome\<lparr>oc_error := e\<rparr>), c) \<Longrightarrow> s = (Inr out, c') \<Longrightarrow> finish_outcome c cid rid out c'"
  "s = (Inr (no_outcome\<lparr>oc_result := j\<rparr>), c) \<Longrightarrow> s = (Inr out, c') \<Longrightarrow> finish_outcome c cid rid out c'"
  "s = (Inr (deny c rid code), c) \<Longrightarrow> s = (Inr out, c') \<Longrightarrow> finish_outcome c cid rid out c'"
  "s = done_step (latch R_FLOPS_CAP (deny c rid code) c) \<Longrightarrow> s = (Inr out, c') \<Longrightarrow> finish_outcome c cid rid out c'"
  for s :: step
  by (auto simp: finish_outcome_def done_step_def prod_eq_iff)

lemma finish_finished:
  assumes f: "compute_finish ch cid obs rid c = (Inr out, c')" and u: "check_u obs = Inr o1"
    and r: "map_of (rc_computes c) cid = Some r" "cp_channel_id r = ch"
    and m: "catalog c (fld (fld (cp_reservation r) ''work'') ''model_id'') = Some model"
    and fin: "fld (cp_reservation r) ''state'' = JStr (lit ''FINISHED'')"
  shows "finish_outcome c cid rid out c'"
proof -
  note facts = u r m fin compute_finish_def Let_def
  let ?limit = "u_of (fld (fld (cp_reservation r) ''work'') ''max_output_tokens'')"
  consider "fld (cp_reservation r) ''observed_output_tokens'' = obs"
    | "fld (cp_reservation r) ''observed_output_tokens'' \<noteq> obs" "py_int o1 > ?limit"
    | "fld (cp_reservation r) ''observed_output_tokens'' \<noteq> obs" "\<not> py_int o1 > ?limit" by blast
  then show ?thesis
  proof cases
    case 1
    then have "compute_finish ch cid obs rid c = (Inr (no_outcome\<lparr>oc_result := cp_reservation r\<rparr>), c)"
      by (simp add: facts)
    from this f show ?thesis by (rule finish_outcome_simple(2))
  next
    case 2
    then have "compute_finish ch cid obs rid c = done_step (latch R_FLOPS_CAP (deny c rid ENVELOPE_EXCEEDED) c)"
      by (simp add: facts)
    from this f show ?thesis by (rule finish_outcome_simple(4))
  next
    case 3
    then have "compute_finish ch cid obs rid c = (Inr (deny c rid CONFLICT), c)"
      by (simp add: facts)
    from this f show ?thesis by (rule finish_outcome_simple(3))
  qed
qed

lemma finish_open:
  assumes f: "compute_finish ch cid obs rid c = (Inr out, c')" and u: "check_u obs = Inr o1"
    and r: "map_of (rc_computes c) cid = Some r" "cp_channel_id r = ch"
    and m: "catalog c (fld (fld (cp_reservation r) ''work'') ''model_id'') = Some model"
    and unfinished: "fld (cp_reservation r) ''state'' \<noteq> JStr (lit ''FINISHED'')"
  shows "finish_outcome c cid rid out c'"
proof -
  note facts = u r m unfinished compute_finish_def Let_def
  let ?limit = "u_of (fld (fld (cp_reservation r) ''work'') ''max_output_tokens'')"
  consider "rc_state c \<noteq> RUNNING" | "rc_state c = RUNNING" "py_int o1 > ?limit" | "rc_state c = RUNNING" "\<not> py_int o1 > ?limit"
    by blast
  then show ?thesis
  proof cases
    case 1
    then have "compute_finish ch cid obs rid c = (Inr (no_outcome\<lparr>oc_error := Some STOPPED\<rparr>), c)"
      by (simp add: facts)
    from this f show ?thesis by (rule finish_outcome_simple(1))
  next
    case 2
    then have "compute_finish ch cid obs rid c = done_step (latch R_FLOPS_CAP (deny c rid ENVELOPE_EXCEEDED) c)"
      by (simp add: facts)
    from this f show ?thesis by (rule finish_outcome_simple(4))
  next
    case 3
    then obtain o2 where "oc_events out = [(K_ComputeFinished, reservation_data (finish_reservation (cp_reservation r) o1 o2))]"
        "c' = c\<lparr>rc_computes := AList.update cid (r\<lparr>cp_reservation := finish_reservation (cp_reservation r) o1 o2\<rparr>) (rc_computes c)\<rparr>"
      using f by (auto simp: facts split: sum.splits)
    then show ?thesis using 3(1) r(1) unfinished unfolding finish_outcome_def by blast
  qed
qed

lemma compute_finish_outcome:
  assumes f: "compute_finish ch cid obs rid c = (Inr out, c')"
  shows "finish_outcome c cid rid out c'"
proof (cases "check_u obs")
  case (Inl e)
  then show ?thesis using f by (simp add: compute_finish_def)
next
  case u: (Inr o1)
  show ?thesis
  proof (cases "map_of (rc_computes c) cid")
    case None
    with u have "compute_finish ch cid obs rid c = (Inr (deny c rid NOT_FOUND), c)" by (simp add: compute_finish_def)
    from this f show ?thesis by (rule finish_outcome_simple(3))
  next
    case r: (Some r)
    show ?thesis
    proof (cases "cp_channel_id r = ch")
      case False
      with u r have "compute_finish ch cid obs rid c = (Inr (deny c rid UNAUTHORIZED), c)" by (simp add: compute_finish_def)
      from this f show ?thesis by (rule finish_outcome_simple(3))
    next
      case ch: True
      show ?thesis
      proof (cases "catalog c (fld (fld (cp_reservation r) ''work'') ''model_id'')")
        case None
        then show ?thesis using f u r ch by (simp add: compute_finish_def Let_def)
      next
        case (Some model)
        then show ?thesis
          using finish_finished [OF f u r ch Some] finish_open [OF f u r ch Some] by blast
      qed
    qed
  qed
qed

lemma finish_step_conforms:
  assumes inv: "core_inv c" and run: "rc_state c = RUNNING" and r: "map_of (rc_computes c) cid = Some r"
    and unfinished: "fld (cp_reservation r) ''state'' \<noteq> JStr (lit ''FINISHED'')"
  shows "conforms c [(K_ComputeFinished, reservation_data (finish_reservation (cp_reservation r) o1 o2))]
    (c\<lparr>rc_computes := AList.update cid (r\<lparr>cp_reservation := finish_reservation (cp_reservation r) o1 o2\<rparr>) (rc_computes c)\<rparr>)"
    (is "conforms c _ ?c'")
proof (rule conforms_one)
  show "core_inv ?c'" by (rule finish_inv [OF inv r])
  note f = finished_fields [OF compute_keyD [OF core_invD(2) [OF inv] r], of o1 o2]
  have "abs_core ?c' = (abs_core c)\<lparr>rp_computes := (rp_computes (abs_core c))(JStr cid \<mapsto> C_FINISHED)\<rparr>"
    using f(1) by (auto simp: abs_core_def abs_computes_def [abs_def] lookup_str_update)
  moreover have "rp_computes (abs_core c) (JStr cid) = Some C_CHARGED"
    using r unfinished by (simp add: abs_computes_def)
  ultimately show "replay_event (K_ComputeFinished, reservation_data (finish_reservation (cp_reservation r) o1 o2)) (abs_core c) =
      Inr (abs_core ?c')"
    using run f(2) by (simp add: replay_event_def replay_data_def replay_post_def Let_def reservation_data_def fld_JObj
        del: abs_core_sel(4))
qed

lemma compute_finish_conforms:
  assumes inv: "core_inv c" and f: "compute_finish ch cid obs rid c = (Inr out, c')"
  shows "conforms c (oc_events out) c'"
proof -
  consider "oc_events out = []" "c' = c" | code where "out = deny c rid code" "c' = c"
    | code where "latch R_FLOPS_CAP (deny c rid code) c = (out, c')"
    | r o1 o2 where "rc_state c = RUNNING" "map_of (rc_computes c) cid = Some r"
        "fld (cp_reservation r) ''state'' \<noteq> JStr (lit ''FINISHED'')"
        "oc_events out = [(K_ComputeFinished, reservation_data (finish_reservation (cp_reservation r) o1 o2))]"
        "c' = c\<lparr>rc_computes := AList.update cid
           (r\<lparr>cp_reservation := finish_reservation (cp_reservation r) o1 o2\<rparr>) (rc_computes c)\<rparr>"
    using compute_finish_outcome [OF f] unfolding finish_outcome_def by blast
  then show ?thesis
  proof cases
    case 1
    then show ?thesis using inv by (simp add: conforms_refl)
  next
    case 2
    then show ?thesis using inv by (simp add: deny_conforms)
  next
    case 3
    then show ?thesis by (rule latch_conforms) (rule deny_conforms [OF inv])
  next
    case (4 r o1 o2)
    then show ?thesis unfolding 4(4,5) by (intro finish_step_conforms [OF inv])
  qed
qed

end
