(* ===== verification/CoreRun.thy ===== *)
theory CoreRun imports CoreLifecycle begin

text \<open>
  The run core under its engine. \<open>core_step\<close> is one use of the core by \<open>Run\<close> (\<open>src/lexwatt/engine.py\<close>): an
  operation of \<open>RunCore\<close> that returned, a denial for an operation that raised, one of the three events the
  engine emits itself (\<open>Run.arming\<close>, \<open>Run.arm\<close>, \<open>Run._sample\<close>) or one of its assignments to the object's
  fields. \<open>core_run\<close> is any sequence of steps from a fresh object, with the journal it writes.

  Results: the journal of every run replays to the state of the core, and the core invariant holds
  throughout; the stop reason once latched stays; a stopped core admits nothing.
\<close>

section \<open>Operations that raise\<close>

lemma token_issue_raised:
  assumes inv: "core_inv c" and i: "token_issue ch action now tid rid c = (Inl e, c')"
  shows "core_inv c' \<and> abs_core c' = abs_core c \<and> rc_state c' = RUNNING \<and> rc_stop_reason c' = rc_stop_reason c"
proof -
  have run: "rc_state c = RUNNING"
    using i by (cases "rc_state c = RUNNING") (auto simp: token_issue_def)
  show ?thesis
  proof (cases "action_policy c action")
    case (Inl x)
    have "token_issue ch action now tid rid c = (Inl x, c)"
    proof (cases "\<exists>code. x = Lex code")
      case True
      then obtain code where "x = Lex code" by blast
      then show ?thesis using i token_issue_denied [OF run] Inl by force
    next
      case False
      then show ?thesis by (intro token_issue_raises [OF run Inl]) blast
    qed
    then show ?thesis using i inv run by auto
  next
    case (Inr u)
    have room: "rc_spawn_issued c < int_of (fld (budgets c) ''spawns'')"
      using i token_issue_cap [OF run Inr] by (force simp: done_step_def not_less)
    then have c': "c' = c\<lparr>rc_spawn_issued := rc_spawn_issued c + 1, rc_issue_seq := rc_issue_seq c + 1\<rparr>"
      using i run Inr by (auto simp: token_issue_def Let_def split: sum.splits)
    note parts = core_invD [OF inv]
    have "slots_ok c'" using parts(3) room by (auto simp: c' slots_ok_def budgets_def)
    moreover have "keys_ok c' = keys_ok c" "entries_ok c' = entries_ok c" "inflight_ok c' = inflight_ok c"
      "flops_ok c' = flops_ok c" "phase_ok c' = phase_ok c" "abs_core c' = abs_core c"
      by (simp_all add: c' keys_ok_def entries_ok_def inflight_ok_def flops_ok_def phase_ok_def budgets_def
          abs_core_def abs_computes_def [abs_def])
    ultimately show ?thesis using parts run by (simp add: core_inv_def c')
  qed
qed

text \<open>The charge of an estimate is printable, so a reservation that raises has changed nothing.\<close>

lemma estimate_charge_printable:
  assumes "estimate_for_model_work model work = Inr est"
  shows "\<exists>s. u_str (py_int (est_charged_flops est)) = Inr s"
proof -
  obtain kind P L H I U B S where e: "estimate_from_parts kind P L H I U B S = Inr est"
    using assms by (auto simp: estimate_for_model_work_def result_simps split: if_splits)
  then have k: "kind = ESTIMATOR_KIND" by (auto simp: estimate_from_parts_def split: if_splits)
  have "is_ok (estimate_decomposition P L H I U B S)"
    using e by (auto simp: estimate_from_parts_def result_simps is_ok_iff split: if_splits)
  then have m: "model_dims_ok P L H S" and w: "work_dims_ok I U B"
    by (simp_all add: estimate_decomposition_iff)
  then have "est_charged_flops est = dec_str (nat (dense_charge P L H I U B S))"
    using e estimate_from_parts_ok [OF k m w] by auto
  then show ?thesis
    using dense_charge_bounds [OF m w] by (simp add: u_str_eq_Inr)
qed

lemma compute_reserve_raised: "compute_reserve ch work now cid rid c = (Inl e, c') \<Longrightarrow> c' = c"
  using estimate_charge_printable
  by (fastforce simp: compute_reserve_def Let_def done_step_def split: if_splits sum.splits option.splits)

lemma compute_finish_raised: "compute_finish ch cid obs rid c = (Inl e, c') \<Longrightarrow> c' = c"
  unfolding compute_finish_def Let_def done_step_def
  by (auto split: if_splits sum.splits option.splits)

lemma dispatch_raised: "dispatch ch token action now aid rid c = (Inl e, c') \<Longrightarrow> c' = c"
  unfolding dispatch_def Let_def
  by (auto split: if_splits sum.splits option.splits)

section \<open>The engine's own updates\<close>

text \<open>\<open>Run.arming\<close>, the start of \<open>Run.arm\<close> and the event of \<open>Run._sample\<close>.\<close>

definition arming :: "run_core \<Rightarrow> event list \<times> run_core" where
  "arming c = ([(K_RunArming, JObj [(lit ''profile'', fld (rc_config c) ''profile'')])], c\<lparr>rc_state := ARMING\<rparr>)"

definition started :: "json \<Rightarrow> json \<Rightarrow> run_core \<Rightarrow> event list \<times> run_core" where
  "started coverage baseline c =
    ([(K_RunStarted, JObj [(lit ''budgets'', fld (rc_config c) ''budgets''), (lit ''models'', fld (rc_config c) ''model_catalog''),
        (lit ''coverage'', coverage), (lit ''baseline'', baseline)])], c\<lparr>rc_state := RUNNING\<rparr>)"

definition sampled :: "json \<Rightarrow> event list" where
  "sampled sample = [(K_SampleRecorded, JObj [(lit ''sample'', sample)])]"

text \<open>The signature that \<open>Run._token_issue\<close> puts on the token record before the commit.\<close>

definition sign_record :: "pystr \<Rightarrow> json \<Rightarrow> run_core \<Rightarrow> run_core" where
  "sign_record tid sig c =
    (case map_of (rc_tokens c) tid of
       None \<Rightarrow> c
     | Some rec \<Rightarrow> c\<lparr>rc_tokens := AList.update tid
         (rec\<lparr>tk_token := JObj [(lit ''body'', fld (tk_token rec) ''body''), (lit ''sig'', sig)]\<rparr>) (rc_tokens c)\<rparr>)"

lemma arming_conforms: "core_inv c \<Longrightarrow> rc_state c = CREATED \<Longrightarrow> arming c = (es, c') \<Longrightarrow> conforms c es c'"
  using phase_okD [of c]
  by (auto simp: arming_def phase_ok_def intro!: conforms_one replay_plain core_inv_cong [of c])

lemma started_conforms: "core_inv c \<Longrightarrow> rc_state c = ARMING \<Longrightarrow> started cov b c = (es, c') \<Longrightarrow> conforms c es c'"
  using phase_okD [of c]
  by (auto simp: started_def phase_ok_def intro!: conforms_one replay_plain core_inv_cong [of c])

lemma sampled_conforms: "core_inv c \<Longrightarrow> rc_state c \<in> {RUNNING, STOPPING, UNCONFIRMED} \<Longrightarrow> conforms c (sampled smp) c"
  unfolding sampled_def by (intro conforms_one replay_plain) auto

lemma silent_conforms: "core_inv c' \<Longrightarrow> abs_core c' = abs_core c \<Longrightarrow> conforms c [] c'"
  by (simp add: conforms_def)

lemma sign_record_inv:
  assumes inv: "core_inv c" and rec: "map_of (rc_tokens c) tid = Some rec"
    and rec': "rec' = rec\<lparr>tk_token := JObj [(lit ''body'', fld (tk_token rec) ''body''), (lit ''sig'', sig)]\<rparr>"
  shows "core_inv (c\<lparr>rc_tokens := AList.update tid rec' (rc_tokens c)\<rparr>)" (is "core_inv ?c'")
proof -
  note parts = core_invD [OF inv]
  have dist: "distinct (map fst (rc_tokens c))" using parts(1) by (simp add: keys_ok_def)
  have "keys_ok ?c'" using parts(1) by (simp add: keys_ok_def distinct_update)
  moreover have "token_key (tid, rec')"
    using token_keyD [OF parts(2) rec] by (simp add: token_key_def rec' fld_JObj)
  then have "entries_ok ?c'"
    using parts(2) all_update [of "rc_tokens c" token_key tid rec'] by (simp add: entries_ok_def)
  moreover have "slots_ok ?c'"
    using parts(3) asum_update_old [OF dist rec, of is_spent rec'] length_update_same [OF rec]
    by (simp add: slots_ok_def budgets_def rec' is_spent_def)
  moreover have "inflight_ok ?c' = inflight_ok c" "flops_ok ?c' = flops_ok c" "phase_ok ?c' = phase_ok c"
    by (simp_all add: inflight_ok_def flops_ok_def phase_ok_def budgets_def)
  ultimately show ?thesis using parts by (simp add: core_inv_def)
qed

lemma sign_record_conforms:
  assumes inv: "core_inv c"
  shows "conforms c [] (sign_record tid sig c)"
proof (cases "map_of (rc_tokens c) tid")
  case None
  then show ?thesis using inv by (simp add: sign_record_def conforms_refl)
next
  case (Some rec)
  let ?rec = "rec\<lparr>tk_token := JObj [(lit ''body'', fld (tk_token rec) ''body''), (lit ''sig'', sig)]\<rparr>"
  let ?c = "c\<lparr>rc_tokens := AList.update tid ?rec (rc_tokens c)\<rparr>"
  have "abs_core ?c = (abs_core c)\<lparr>rp_tokens := (rp_tokens (abs_core c))(JStr tid \<mapsto> tk_state ?rec)\<rparr>"
    by (rule abs_tokens_update) simp_all
  also have "\<dots> = abs_core c"
    using Some by (auto simp: abs_core_def)
  finally have "conforms c [] ?c"
    by (rule silent_conforms [OF sign_record_inv [OF inv Some refl]])
  then show ?thesis using Some by (simp add: sign_record_def)
qed

section \<open>Steps and runs\<close>

inductive core_step :: "run_core \<Rightarrow> event list \<Rightarrow> run_core \<Rightarrow> bool" where
  step_arming: "rc_state c = CREATED \<Longrightarrow> arming c = (es, c') \<Longrightarrow> core_step c es c'"
| step_started: "rc_state c = ARMING \<Longrightarrow> started coverage baseline c = (es, c') \<Longrightarrow> core_step c es c'"
| step_sampled: "rc_state c \<in> {RUNNING, STOPPING, UNCONFIRMED} \<Longrightarrow> core_step c (sampled smp) c"
| step_issue: "token_issue ch action now tid rid c = (Inr out, c') \<Longrightarrow> tid \<notin> fst ` set (rc_tokens c) \<Longrightarrow>
    core_step c (oc_events out) c'"
| step_issue_raised: "token_issue ch action now tid rid c = (Inl (Lex code), c') \<Longrightarrow>
    core_step c (oc_events (deny c' rid code)) c'"
| step_sign: "core_step c [] (sign_record tid sig c)"
| step_dispatch: "dispatch ch token action now aid rid c = (Inr out, c') \<Longrightarrow> aid \<notin> fst ` set (rc_actions c) \<Longrightarrow>
    core_step c (oc_events out) c'"
| step_denied: "core_step c (oc_events (deny c rid code)) c"
| step_expire: "expire_tokens now c = (out, c') \<Longrightarrow> core_step c (oc_events out) c'"
| step_finish: "action_finish aid result error exit_info c = (out, c') \<Longrightarrow> core_step c (oc_events out) c'"
| step_unknown: "action_unknown aid code c = (out, c') \<Longrightarrow> core_step c (oc_events out) c'"
| step_reserve: "compute_reserve ch work now cid rid c = (Inr out, c') \<Longrightarrow> cid \<notin> fst ` set (rc_computes c) \<Longrightarrow>
    core_step c (oc_events out) c'"
| step_compute_finish: "compute_finish ch cid obs rid c = (Inr out, c') \<Longrightarrow> core_step c (oc_events out) c'"
| step_stop: "stop reason c = (out, c') \<Longrightarrow> core_step c (oc_events out) c'"
| step_fault: "fault reason c = (out, c') \<Longrightarrow> core_step c (oc_events out) c'"
| step_kill: "kill_issued cg grp now c = (out, c') \<Longrightarrow> core_step c (oc_events out) c'"
| step_unconfirmed: "kill_unconfirmed elapsed c = (Inr out, c') \<Longrightarrow> core_step c (oc_events out) c'"
| step_empty: "containment_empty final_sample root_exit c = (out, c') \<Longrightarrow> core_step c (oc_events out) c'"
| step_finalize: "finalize coverage now c = (Inr out, c') \<Longrightarrow> core_step c (oc_events out) c'"
| step_reject: "reject code c = (out, c') \<Longrightarrow> core_step c (oc_events out) c'"
| step_root_exit: "core_step c [] (c\<lparr>rc_root_exit := ex\<rparr>)"
| step_latched_at: "core_step c [] (c\<lparr>rc_stop_latched_us := t\<rparr>)"

inductive core_steps :: "run_core \<Rightarrow> event list \<Rightarrow> run_core \<Rightarrow> bool" where
  steps_refl: "core_steps c [] c"
| steps_snoc: "core_steps a es b \<Longrightarrow> core_step b fs c \<Longrightarrow> core_steps a (es @ fs) c"

inductive_cases core_steps_NilE: "core_steps c [] c'"

text \<open>A run from a fresh object; its journal starts with \<open>RunCreated\<close>, which is not listed here.\<close>

definition core_run :: "pystr \<Rightarrow> pystr \<Rightarrow> json \<Rightarrow> event list \<Rightarrow> run_core \<Rightarrow> bool" where
  "core_run run_id key_id config es c \<longleftrightarrow> core_steps (RunCore run_id key_id config) es c"

lemma field_conforms:
  assumes "core_inv c" "rc_config c' = rc_config c" "rc_state c' = rc_state c" "rc_stop_reason c' = rc_stop_reason c"
    "rc_tokens c' = rc_tokens c" "rc_actions c' = rc_actions c" "rc_computes c' = rc_computes c"
    "rc_spawn_issued c' = rc_spawn_issued c" "rc_charged_flops c' = rc_charged_flops c" "rc_inflight c' = rc_inflight c"
  shows "conforms c [] c'"
proof (rule silent_conforms)
  show "core_inv c'"
    using phase_okD [OF assms(1)] assms(2-) by (intro core_inv_cong [OF assms(1)]) (simp_all add: phase_ok_def)
  show "abs_core c' = abs_core c" using assms(2-) by (simp add: abs_core_def abs_computes_def [abs_def])
qed

lemma issue_raised_conforms:
  assumes "core_inv c" "token_issue ch action now tid rid c = (Inl e, c')"
  shows "conforms c (oc_events (deny c' rid code)) c'"
  using token_issue_raised [OF assms] deny_conforms [of c' rid code] by (simp add: conforms_def)

lemma core_step_conforms: "core_step c es c' \<Longrightarrow> core_inv c \<Longrightarrow> conforms c es c'"
proof (induction rule: core_step.induct)
  case step_arming then show ?case by (blast intro: arming_conforms)
next
  case step_started then show ?case by (blast intro: started_conforms)
next
  case step_sampled then show ?case by (blast intro: sampled_conforms)
next
  case step_issue then show ?case by (blast intro: token_issue_conforms)
next
  case step_issue_raised then show ?case by (blast intro: issue_raised_conforms)
next
  case step_sign then show ?case by (blast intro: sign_record_conforms)
next
  case step_dispatch then show ?case by (blast intro: dispatch_conforms)
next
  case step_denied then show ?case by (blast intro: deny_conforms)
next
  case step_expire then show ?case by (blast intro: expire_tokens_conforms)
next
  case step_finish then show ?case by (blast intro: action_finish_conforms)
next
  case step_unknown then show ?case by (blast intro: action_unknown_conforms)
next
  case step_reserve then show ?case by (blast intro: compute_reserve_conforms)
next
  case step_compute_finish then show ?case by (blast intro: compute_finish_conforms)
next
  case step_stop then show ?case by (blast intro: stop_conforms)
next
  case step_fault then show ?case by (blast intro: fault_conforms)
next
  case step_kill then show ?case by (blast intro: kill_issued_conforms)
next
  case step_unconfirmed then show ?case by (blast intro: kill_unconfirmed_conforms)
next
  case step_empty then show ?case by (blast intro: containment_empty_conforms)
next
  case step_finalize then show ?case by (blast intro: finalize_conforms)
next
  case step_reject then show ?case by (blast intro: reject_conforms)
next
  case step_root_exit then show ?case by (simp add: field_conforms)
next
  case step_latched_at then show ?case by (simp add: field_conforms)
qed

lemma core_steps_conforms: "core_steps c es c' \<Longrightarrow> core_inv c \<Longrightarrow> conforms c es c'"
proof (induction rule: core_steps.induct)
  case (steps_refl c)
  then show ?case by (rule conforms_refl)
next
  case (steps_snoc a es b fs c)
  then have ab: "conforms a es b" by simp
  then have "core_inv b" by (simp add: conforms_def)
  with steps_snoc.hyps(2) have "conforms b fs c" by (rule core_step_conforms)
  with ab show ?case by (rule conforms_trans)
qed

lemma core_run_conforms:
  assumes "core_run r k cfg es c"
  shows "core_inv c" "replay_pairs es replay_init = Inr (abs_core c)"
  using core_steps_conforms [OF assms [unfolded core_run_def] core_inv_init] by (simp_all add: conforms_def abs_init)

section \<open>The stop reason\<close>

lemma latch_stop: "latch r out c = (out', c') \<Longrightarrow> rc_stop_reason c = Some s \<Longrightarrow> c' = c"
  by (simp add: latch_def)

lemma finish_outcome_stop:
  "finish_outcome c cid rid out c' \<Longrightarrow> rc_stop_reason c = Some s \<Longrightarrow> rc_stop_reason c' = Some s"
  unfolding finish_outcome_def by (auto dest: latch_stop)

lemma core_step_stop_reason:
  "core_step c es c' \<Longrightarrow> core_inv c \<Longrightarrow> rc_stop_reason c = Some s \<Longrightarrow> rc_stop_reason c' = Some s"
proof (induction rule: core_step.induct)
  case (step_issue ch action now tid rid c out c')
  then show ?case by (cases rule: token_issue_cases) (auto dest: latch_stop)
next
  case (step_issue_raised ch action now tid rid c code c')
  then show ?case using token_issue_raised by metis
next
  case (step_dispatch ch token action now aid rid c out c')
  then show ?case by (cases rule: dispatch_cases) auto
next
  case (step_reserve ch work now cid rid c out c')
  then show ?case by (cases rule: compute_reserve_cases) (auto dest: latch_stop)
next
  case (step_compute_finish ch cid obs rid c out c')
  then show ?case using finish_outcome_stop compute_finish_outcome by blast
next
  case (step_finish aid result error exit_info c out c')
  then show ?case by (auto simp: action_finish_def Let_def split: option.splits if_splits)
next
  case (step_unknown aid code c out c')
  then show ?case by (auto simp: action_unknown_def split: option.splits if_splits)
qed (auto simp: arming_def started_def sign_record_def expire_tokens_def stop_def fault_def latch_def kill_issued_def
    kill_unconfirmed_def containment_empty_def finalize_def reject_def Let_def split: option.splits if_splits sum.splits prod.splits)

lemma core_steps_stop_reason:
  "core_steps c es c' \<Longrightarrow> core_inv c \<Longrightarrow> rc_stop_reason c = Some s \<Longrightarrow> rc_stop_reason c' = Some s"
proof (induction rule: core_steps.induct)
  case (steps_snoc a es b fs c)
  have "core_inv b" using core_steps_conforms [OF steps_snoc.hyps(1) steps_snoc.prems(1)] by (simp add: conforms_def)
  then show ?case using steps_snoc core_step_stop_reason by blast
qed

end
