(* ===== verification/CoreProps.thy ===== *)
theory CoreProps imports CoreRun begin

text \<open>
  What holds of every run of the core, as statements over \<open>core_run\<close>: the journal replays to the state of the
  object, the counters account for the tables, a latched stop reason is final and ends every admission, a stop
  leads to the terminal state of its reason, and the measured energy never reaches the final event.
\<close>

section \<open>The journal of a run\<close>

text \<open>The journal body of an event that is not the first: its sequence number is not one.\<close>

definition body_of :: "json \<Rightarrow> event \<Rightarrow> bool" where
  "body_of b e \<longleftrightarrow> kind_of (fld b ''kind'') = Some (fst e) \<and> u_of (fld b ''seq'') \<noteq> 1 \<and> fld b ''data'' = snd e"

lemma replay_bodies: "list_all2 body_of bs es \<Longrightarrow> replay_loop bs s = replay_pairs es s"
proof (induction arbitrary: s rule: list_all2_induct)
  case (Cons b bs e es)
  then have "replay_step b s = replay_event e s"
    by (cases e) (simp add: body_of_def replay_step_event)
  then show ?case using Cons.IH by (simp add: bindE_def split: sum.split)
qed simp

lemma replay_created:
  "kind_of (fld b ''kind'') = Some K_RunCreated \<Longrightarrow> u_of (fld b ''seq'') = 1 \<Longrightarrow> replay_step b replay_init = Inr replay_init"
  by (simp add: replay_step_def replay_data_def replay_post_def replay_init_def)

section \<open>A stopped core\<close>

definition admission_kinds :: "event_kind set" where
  "admission_kinds = {K_RunArming, K_RunStarted, K_ComputeReserved, K_ComputeFinished, K_TokenIssued, K_TokenExpired,
     K_TokenSpent, K_StopLatched}"

lemma stopped_state: "core_inv c \<Longrightarrow> rc_stop_reason c = Some s \<Longrightarrow> rc_state c \<notin> {CREATED, ARMING, RUNNING, REJECTED}"
  using phase_okD [of c] by (auto simp: phase_ok_def)

lemma deny_kinds: "(k, x) \<in> set (oc_events (deny c r code)) \<Longrightarrow> k \<notin> admission_kinds"
  by (auto simp: deny_def admission_kinds_def split: if_splits)

lemma latch_same: "rc_state c \<notin> {ARMING, RUNNING} \<Longrightarrow> latch r out c = (out, c)"
  by (simp add: latch_def)

lemma core_step_stopped:
  assumes "core_step c es c'" "core_inv c" "rc_stop_reason c = Some s"
  shows "fst ` set es \<inter> admission_kinds = {}"
proof -
  have st: "rc_state c \<notin> {CREATED, ARMING, RUNNING, REJECTED}" by (rule stopped_state [OF assms(2,3)])
  then have no: "rc_state c \<noteq> CREATED" "rc_state c \<noteq> ARMING" "rc_state c \<noteq> RUNNING" by simp_all
  from assms(1) show ?thesis
  proof cases
    case (step_issue ch action now tid rid out)
    from step_issue(2) show ?thesis unfolding step_issue(1)
      by (cases rule: token_issue_cases) (use no in \<open>auto simp: latch_same dest: deny_kinds\<close>)
  next
    case (step_dispatch ch token action now aid rid out)
    from step_dispatch(2) show ?thesis unfolding step_dispatch(1)
      by (cases rule: dispatch_cases) (use no in \<open>auto dest: deny_kinds\<close>)
  next
    case (step_reserve ch work now cid rid out)
    from step_reserve(2) show ?thesis unfolding step_reserve(1)
      by (cases rule: compute_reserve_cases) (use no in \<open>auto simp: latch_same dest: deny_kinds\<close>)
  next
    case (step_compute_finish ch cid obs rid out)
    have "finish_outcome c cid rid out c'" by (rule compute_finish_outcome [OF step_compute_finish(2)])
    then show ?thesis unfolding step_compute_finish(1) finish_outcome_def
      using no by (auto simp: latch_same dest: deny_kinds)
  next
    case (step_issue_raised ch action now tid rid code)
    show ?thesis unfolding step_issue_raised(1) by (auto dest: deny_kinds)
  next
    case (step_denied rid code)
    show ?thesis unfolding step_denied(1) by (auto dest: deny_kinds)
  qed (use no in \<open>auto simp: admission_kinds_def sampled_def expire_tokens_def stop_def fault_def latch_def add_event_def
      kill_issued_def kill_unconfirmed_def containment_empty_def finalize_def reject_def action_finish_def action_unknown_def
      Let_def split: option.splits if_splits sum.splits prod.splits\<close>)
qed

lemma core_steps_stopped:
  "core_steps c es c' \<Longrightarrow> core_inv c \<Longrightarrow> rc_stop_reason c = Some s \<Longrightarrow> fst ` set es \<inter> admission_kinds = {}"
proof (induction rule: core_steps.induct)
  case (steps_snoc a es b fs c)
  have "core_inv b" using core_steps_conforms [OF steps_snoc.hyps(1) steps_snoc.prems(1)] by (simp add: conforms_def)
  moreover have "rc_stop_reason b = Some s"
    by (rule core_steps_stop_reason [OF steps_snoc.hyps(1) steps_snoc.prems])
  ultimately have "fst ` set fs \<inter> admission_kinds = {}" by (rule core_step_stopped [OF steps_snoc.hyps(2)])
  then show ?case using steps_snoc.IH [OF steps_snoc.prems] by auto
qed simp

section \<open>The measured energy\<close>

lemma latch_energy: "latch r out c = (out', c') \<Longrightarrow> rc_energy_uj c' = rc_energy_uj c"
  by (auto simp: latch_def split: if_splits)

lemma core_step_energy:
  "core_step c es c' \<Longrightarrow> rc_energy_uj c' = rc_energy_uj c"
proof (induction rule: core_step.induct)
  case (step_issue ch action now tid rid c out c')
  from step_issue(1) show ?case by (cases rule: token_issue_cases) (auto dest: latch_energy)
next
  case (step_issue_raised ch action now tid rid c code c')
  then show ?case unfolding token_issue_def Let_def done_step_def
    by (auto split: if_splits sum.splits exn.splits)
next
  case (step_dispatch ch token action now aid rid c out c')
  from step_dispatch(1) show ?case by (cases rule: dispatch_cases) auto
next
  case (step_reserve ch work now cid rid c out c')
  from step_reserve(1) show ?case by (cases rule: compute_reserve_cases) (auto dest: latch_energy)
next
  case (step_compute_finish ch cid obs rid c out c')
  then show ?case using compute_finish_outcome latch_energy unfolding finish_outcome_def by fastforce
next
  case (step_finish aid result error exit_info c out c')
  then show ?case by (auto simp: action_finish_def Let_def split: option.splits if_splits)
next
  case (step_unknown aid code c out c')
  then show ?case by (auto simp: action_unknown_def split: option.splits if_splits)
qed (auto simp: arming_def started_def sign_record_def expire_tokens_def stop_def fault_def latch_def kill_issued_def
    kill_unconfirmed_def containment_empty_def finalize_def reject_def Let_def split: option.splits if_splits sum.splits prod.splits)

lemma core_steps_energy: "core_steps c es c' \<Longrightarrow> rc_energy_uj c' = rc_energy_uj c"
  by (induction rule: core_steps.induct) (auto dest: core_step_energy)

text \<open>Only \<open>finalize\<close> writes the final event.\<close>

lemma deny_not_final: "(K_RunFinalized, x) \<notin> set (oc_events (deny c r code))"
  by (auto simp: deny_def)

lemma latch_not_final: "latch r out c = (out', c') \<Longrightarrow> (K_RunFinalized, x) \<in> set (oc_events out') \<longleftrightarrow> (K_RunFinalized, x) \<in> set (oc_events out)"
  by (auto simp: latch_def add_event_def split: if_splits)

lemma expire_loop_not_final: "expire_loop now al = (al', es) \<Longrightarrow> (K_RunFinalized, x) \<notin> set es"
  by (induction now al arbitrary: al' es rule: expire_loop.induct) (auto split: if_splits prod.splits)

lemmas not_final = deny_not_final latch_not_final expire_loop_not_final

lemma core_step_final_energy:
  assumes "core_step c es c'" "rc_energy_uj c = None" "(K_RunFinalized, d) \<in> set es"
  shows "fld d ''energy_uj'' = JNull"
  using assms(1)
proof cases
  case (step_issue ch action now tid rid out)
  from step_issue(2) show ?thesis
    by (cases rule: token_issue_cases) (use step_issue(1) assms(3) in \<open>auto simp: not_final\<close>)
next
  case (step_dispatch ch token action now aid rid out)
  from step_dispatch(2) show ?thesis
    by (cases rule: dispatch_cases) (use step_dispatch(1) assms(3) in \<open>auto simp: not_final\<close>)
next
  case (step_reserve ch work now cid rid out)
  from step_reserve(2) show ?thesis
    by (cases rule: compute_reserve_cases) (use step_reserve(1) assms(3) in \<open>auto simp: not_final\<close>)
next
  case (step_compute_finish ch cid obs rid out)
  have "finish_outcome c cid rid out c'" by (rule compute_finish_outcome [OF step_compute_finish(2)])
  then show ?thesis using step_compute_finish(1) assms(3) unfolding finish_outcome_def by (auto simp: not_final)
next
  case (step_finalize coverage now out)
  then obtain st r x where "finalized_data (c\<lparr>rc_final_state := Some st\<rparr>) st r coverage = Inr d"
    using assms(3) by (auto simp: finalize_def Let_def split: if_splits sum.splits)
  then show ?thesis using assms(2) by (auto simp: finalized_data_def result_simps fld_JObj)
qed (use assms(3) in \<open>auto simp: not_final arming_def started_def sampled_def expire_tokens_def stop_def fault_def
    add_event_def kill_issued_def kill_unconfirmed_def containment_empty_def reject_def action_finish_def action_unknown_def
    Let_def split: option.splits if_splits sum.splits prod.splits\<close>)

lemma core_steps_final_energy:
  "core_steps c es c' \<Longrightarrow> rc_energy_uj c = None \<Longrightarrow> (K_RunFinalized, d) \<in> set es \<Longrightarrow> fld d ''energy_uj'' = JNull"
proof (induction rule: core_steps.induct)
  case (steps_snoc a es b fs c)
  then show ?case using core_steps_energy [OF steps_snoc.hyps(1)] core_step_final_energy [OF steps_snoc.hyps(2)] by auto
qed simp

section \<open>From a stop to the terminal state\<close>

lemma final_state_terminal: "final_state_for r \<in> set TERMINAL_STATES"
  by (simp add: final_state_for_def TERMINAL_STATES_def)

definition latency_ok :: "run_core \<Rightarrow> bool" where
  "latency_ok c \<longleftrightarrow> (case (rc_kill_issued_at_us c, rc_stop_latched_us c) of
     (Some k, Some s) \<Rightarrow> 0 \<le> k - s \<and> k - s \<le> U_MAX | _ \<Rightarrow> True)"

lemma kill_latency_ok: "is_ok (kill_latency c) \<longleftrightarrow> latency_ok c"
  by (auto simp: latency_ok_def kill_latency_def is_ok_iff u_str_eq_Inr split: option.splits)

lemma finalized_data_ok:
  assumes "latency_ok c" "0 \<le> rc_charged_flops c" "rc_charged_flops c \<le> U_MAX" "rc_energy_uj c = None"
  shows "\<exists>d. finalized_data c st r cov = Inr d"
  using kill_latency_ok [of c] assms
  by (auto simp: finalized_data_def is_ok_iff u_str_eq_Inr result_simps)

lemma finalized_data_fails:
  assumes "\<not> (latency_ok c \<and> rc_charged_flops c \<le> U_MAX)"
  shows "\<exists>e. finalized_data c st r cov = Inl e"
  using kill_latency_ok [of c] assms
  by (cases "finalized_data c st r cov") (auto simp: finalized_data_def is_ok_iff u_str_eq_Inr result_simps)

lemma stop_stops:
  assumes "core_inv c" "rc_state c \<in> {ARMING, RUNNING, STOPPING, UNCONFIRMED}" "stop r c = (out, c1)"
  shows "rc_state c1 \<in> {STOPPING, UNCONFIRMED}" "rc_stop_reason c1 = (case rc_stop_reason c of None \<Rightarrow> Some r | Some s \<Rightarrow> Some s)"
    "rc_charged_flops c1 = rc_charged_flops c" "rc_energy_uj c1 = rc_energy_uj c" "latency_ok c1 = latency_ok c"
  using assms phase_okD [OF assms(1)]
  by (auto simp: stop_def latch_eq latched_def phase_ok_def latency_ok_def split: if_splits option.splits)

lemma emptied:
  assumes "rc_state c \<in> {STOPPING, UNCONFIRMED}" "containment_empty smp ex c = (out, c1)"
  shows "rc_state c1 = FINALIZING" "rc_stop_reason c1 = rc_stop_reason c"
    "rc_charged_flops c1 = rc_charged_flops c" "rc_energy_uj c1 = rc_energy_uj c" "latency_ok c1 = latency_ok c"
  using assms by (auto simp: containment_empty_def Let_def latency_ok_def split: if_splits option.splits)

lemma finalized:
  assumes "rc_state c = FINALIZING" "rc_stop_reason c = Some r" "latency_ok c"
    "0 \<le> rc_charged_flops c" "rc_charged_flops c \<le> U_MAX" "rc_energy_uj c = None"
  shows "\<exists>d. finalize cov now c = (Inr (no_outcome\<lparr>oc_events := [(K_RunFinalized, d)]\<rparr>),
     c\<lparr>rc_final_state := Some (final_state_for r), rc_state := final_state_for r\<rparr>)"
proof -
  let ?c = "c\<lparr>rc_final_state := Some (final_state_for r)\<rparr>"
  have "latency_ok ?c" using assms(3) by (simp add: latency_ok_def)
  then have "\<exists>d. finalized_data ?c (final_state_for r) r cov = Inr d"
    using assms(4-) by (intro finalized_data_ok) simp_all
  then show ?thesis using assms(1,2) by (auto simp: finalize_def Let_def)
qed

lemma not_finalized:
  assumes "rc_state c = FINALIZING" "rc_stop_reason c = Some r" "\<not> (latency_ok c \<and> rc_charged_flops c \<le> U_MAX)"
  shows "\<exists>e. finalize cov now c = (Inl e, c\<lparr>rc_final_state := Some (final_state_for r)\<rparr>)"
proof -
  let ?c = "c\<lparr>rc_final_state := Some (final_state_for r)\<rparr>"
  have "\<not> (latency_ok ?c \<and> rc_charged_flops ?c \<le> U_MAX)" using assms(3) by (simp add: latency_ok_def)
  then obtain e where "finalized_data ?c (final_state_for r) r cov = Inl e" using finalized_data_fails by blast
  then show ?thesis using assms(1,2) by (auto simp: finalize_def Let_def)
qed

section \<open>A short run\<close>

definition short_events :: "event list" where
  "short_events =
    [(K_RunArming, JObj [(lit ''profile'', JNull)]),
     (K_RunStarted, JObj [(lit ''budgets'', JNull), (lit ''models'', JNull), (lit ''coverage'', JNull), (lit ''baseline'', JNull)]),
     (K_StopLatched, reason_data R_OPERATOR)]"

definition short_core :: run_core where
  "short_core = (RunCore [] [] JNull)\<lparr>rc_stop_reason := Some R_OPERATOR, rc_state := STOPPING\<rparr>"

lemma fld_JNull [simp]: "fld JNull k = JNull"
  by (simp add: fld_def dict_get_def)

lemma short_started: "core_steps (RunCore [] [] JNull) (take 2 short_events) ((RunCore [] [] JNull)\<lparr>rc_state := RUNNING\<rparr>)"
proof -
  let ?c = "RunCore [] [] JNull"
  have a: "core_step ?c (take 1 short_events) (?c\<lparr>rc_state := ARMING\<rparr>)"
    by (rule step_arming) (simp_all add: arming_def RunCore_def short_events_def)
  have b: "core_step (?c\<lparr>rc_state := ARMING\<rparr>) (take 1 (drop 1 short_events)) (?c\<lparr>rc_state := RUNNING\<rparr>)"
    by (rule step_started [of _ JNull JNull]) (simp_all add: started_def RunCore_def short_events_def)
  show ?thesis
    using steps_snoc [OF steps_snoc [OF steps_refl a] b] by (simp add: short_events_def numeral_2_eq_2)
qed

lemma short_run: "core_run [] [] JNull short_events short_core"
proof -
  let ?c = "(RunCore [] [] JNull)\<lparr>rc_state := RUNNING\<rparr>"
  have eq: "stop R_OPERATOR ?c = (no_outcome\<lparr>oc_events := [(K_StopLatched, reason_data R_OPERATOR)],
      oc_result := stop_result short_core\<rparr>, short_core)"
    by (simp add: stop_def latch_def add_event_def RunCore_def short_core_def)
  have "core_step ?c [(K_StopLatched, reason_data R_OPERATOR)] short_core"
    using step_stop [OF eq] by simp
  from steps_snoc [OF short_started this] show ?thesis
    by (simp add: core_run_def short_events_def numeral_2_eq_2)
qed

section \<open>Properties\<close>

text \<open>C21: the journal of a run is its replay: whatever the core and its engine did, the bodies of the events they
  wrote are accepted by \<open>replay_events\<close>, which ends in the state of the core.\<close>

theorem journal_replays_to_state:
  assumes "core_run r k cfg es c" "kind_of (fld b ''kind'') = Some K_RunCreated" "u_of (fld b ''seq'') = 1"
    and "list_all2 body_of bs es"
  shows "replay_events (b # bs) = Inr (state_json (rc_state c))"
  using core_run_conforms(2) [OF assms(1)] replay_created [OF assms(2,3)] replay_bodies [OF assms(4)]
  by (simp add: replay_events_def)

theorem journal_replays_to_state_witness:
  "replay_events (event_body ''RunCreated'' ''1'' JNull #
     map2 (\<lambda>k e. event_body k ''2'' (snd e)) [''RunArming'', ''RunStarted'', ''StopLatched''] short_events) =
   Inr (state_json STOPPING)"
proof -
  have seqs: "u_of (JStr (lit ''1'')) = 1" "u_of (JStr (lit ''2'')) = 2"
    by (simp_all add: u_of_def str_of_def py_int_def dec_val_def lit_def chop_newline_def)
  have kinds: "kind_of (JStr (lit ''RunCreated'')) = Some K_RunCreated" "kind_of (JStr (lit ''RunArming'')) = Some K_RunArming"
    "kind_of (JStr (lit ''RunStarted'')) = Some K_RunStarted" "kind_of (JStr (lit ''StopLatched'')) = Some K_StopLatched"
    by (simp_all add: kind_of_iff)
  have "list_all2 body_of (map2 (\<lambda>k e. event_body k ''2'' (snd e)) [''RunArming'', ''RunStarted'', ''StopLatched''] short_events)
      short_events"
    by (simp add: body_of_def short_events_def kinds seqs)
  then show ?thesis
    using journal_replays_to_state [OF short_run, of "event_body ''RunCreated'' ''1'' JNull"] kinds seqs
    by (simp add: short_core_def)
qed

text \<open>C22: the budgets hold in every reachable core. At most \<open>spawns\<close> tokens are ever issued, every action has a
  token of its own, at most \<open>MAX_INFLIGHT_ACTIONS\<close> actions are open, and the charge is the sum of the reservations
  and within \<open>max_flops\<close>.\<close>

theorem run_accounting:
  assumes "core_run r k cfg es c"
  shows "int (length (rc_actions c)) = asum is_spent (rc_tokens c) \<and> int (length (rc_tokens c)) \<le> rc_spawn_issued c \<and>
    rc_spawn_issued c \<le> max 0 (int_of (fld (budgets c) ''spawns'')) \<and>
    rc_inflight c = asum is_dispatched (rc_actions c) \<and> rc_inflight c \<le> 32 \<and>
    rc_charged_flops c = asum charge_of (rc_computes c) \<and>
    (fld (budgets c) ''max_flops'' \<noteq> JNull \<longrightarrow> rc_charged_flops c \<le> u_of (fld (budgets c) ''max_flops''))"
  using core_run_conforms(1) [OF assms]
  unfolding core_inv_def slots_ok_def inflight_ok_def flops_ok_def MAX_INFLIGHT_ACTIONS_def of_nat_numeral by blast

theorem run_accounting_witness:
  "int (length (rc_actions short_core)) = asum is_spent (rc_tokens short_core) \<and> rc_inflight short_core \<le> 32 \<and>
   rc_charged_flops short_core = asum charge_of (rc_computes short_core)"
  using run_accounting [OF short_run] by simp

text \<open>C23: a stop is final. Once a stop reason is latched, whatever follows keeps the reason and writes no event that
  arms, starts, admits or charges anything.\<close>

theorem stopped_admits_nothing:
  assumes "core_run r k cfg es c" "rc_stop_reason c = Some s" "core_steps c es' c'"
  shows "rc_stop_reason c' = Some s \<and> fst ` set es' \<inter> admission_kinds = {}"
  using core_steps_stop_reason [OF assms(3) core_run_conforms(1) [OF assms(1)] assms(2)]
    core_steps_stopped [OF assms(3) core_run_conforms(1) [OF assms(1)] assms(2)] by simp

theorem stopped_admits_nothing_witness:
  "rc_stop_reason (short_core\<lparr>rc_state := FINALIZING\<rparr>) = Some R_OPERATOR \<and>
   fst ` set [(K_ContainmentEmpty, JObj [(lit ''final_sample'', JNull), (lit ''root_exit'', JNull)])] \<inter> admission_kinds = {}"
proof -
  have reason: "rc_stop_reason short_core = Some R_OPERATOR" by (simp add: short_core_def)
  have "core_step short_core [(K_ContainmentEmpty, JObj [(lit ''final_sample'', JNull), (lit ''root_exit'', JNull)])]
      (short_core\<lparr>rc_state := FINALIZING\<rparr>)"
    using step_empty [of JNull JNull short_core] by (simp add: containment_empty_def short_core_def RunCore_def Let_def)
  from steps_snoc [OF steps_refl this]
  have "core_steps short_core [(K_ContainmentEmpty, JObj [(lit ''final_sample'', JNull), (lit ''root_exit'', JNull)])]
      (short_core\<lparr>rc_state := FINALIZING\<rparr>)" by simp
  from stopped_admits_nothing [OF short_run reason this] show ?thesis .
qed

text \<open>C24: a stop leads to the end, exactly when the last event can be written. From any reachable core that is armed, running,
  stopping or unconfirmed, a stop and the report that the containment is empty leave it finalizing, and \<open>finalize\<close> returns if and only
  if the charge is a protocol integer and the clock reading of the kill is not before that of the stop and no more than a protocol
  integer after it. If it returns the core is in the terminal state of the first stop reason; if it raises the core stays finalizing. The charge
  of a run with a FLOP cap that is a protocol integer is one.\<close>

theorem stop_leads_to_end:
  assumes "core_run r k cfg es c" "rc_state c \<in> {ARMING, RUNNING, STOPPING, UNCONFIRMED}"
    and "stop reason c = (o1, c1)" "containment_empty smp ex c1 = (o2, c2)" "finalize cov now c2 = (res, c3)"
    and "fin = final_state_for (case rc_stop_reason c of None \<Rightarrow> reason | Some s \<Rightarrow> s)"
  shows "rc_state c2 = FINALIZING \<and> fin \<in> set TERMINAL_STATES \<and>
    (is_ok res \<longleftrightarrow> rc_charged_flops c \<le> U_MAX \<and> latency_ok c) \<and> rc_state c3 = (if is_ok res then fin else FINALIZING) \<and>
    (fld (budgets c) ''max_flops'' \<noteq> JNull \<and> u_of (fld (budgets c) ''max_flops'') \<le> U_MAX \<longrightarrow> rc_charged_flops c \<le> U_MAX)"
proof -
  let ?q = "case rc_stop_reason c of None \<Rightarrow> reason | Some s \<Rightarrow> s"
  have inv: "core_inv c" by (rule core_run_conforms(1) [OF assms(1)])
  have energy: "rc_energy_uj c = None"
    using core_steps_energy [OF assms(1) [unfolded core_run_def]] by (simp add: RunCore_def)
  have charged: "0 \<le> rc_charged_flops c"
    using core_invD(5) [OF inv] by (simp add: flops_ok_def asum_nonneg charge_of_def)
  have cap: "fld (budgets c) ''max_flops'' \<noteq> JNull \<Longrightarrow> rc_charged_flops c \<le> u_of (fld (budgets c) ''max_flops'')"
    using core_invD(5) [OF inv] by (simp add: flops_ok_def)
  note s = stop_stops [OF inv assms(2,3)]
  note e = emptied [OF s(1) assms(4)]
  have q: "rc_stop_reason c2 = Some ?q" using s(2) e(2) by (simp split: option.splits)
  show ?thesis
  proof (cases "latency_ok c \<and> rc_charged_flops c \<le> U_MAX")
    case True
    then have "\<exists>d. finalize cov now c2 = (Inr (no_outcome\<lparr>oc_events := [(K_RunFinalized, d)]\<rparr>),
       c2\<lparr>rc_final_state := Some (final_state_for ?q), rc_state := final_state_for ?q\<rparr>)"
      by (intro finalized q) (use s e energy charged in auto)
    then show ?thesis using assms(5,6) e(1) cap True by (auto simp: final_state_terminal is_ok_iff)
  next
    case False
    then have "\<exists>x. finalize cov now c2 = (Inl x, c2\<lparr>rc_final_state := Some (final_state_for ?q)\<rparr>)"
      by (intro not_finalized q) (use s e in auto)
    then show ?thesis using assms(5,6) e(1) cap False by (auto simp: final_state_terminal is_ok_iff)
  qed
qed

theorem stop_leads_to_end_witness:
  "is_ok (fst (finalize JNull 0 (short_core\<lparr>rc_state := FINALIZING\<rparr>))) \<and>
   rc_state (snd (finalize JNull 0 (short_core\<lparr>rc_state := FINALIZING\<rparr>))) = KILLED"
proof -
  have 1: "rc_state short_core \<in> {ARMING, RUNNING, STOPPING, UNCONFIRMED}" "rc_charged_flops short_core \<le> U_MAX"
    "latency_ok short_core" by (simp_all add: short_core_def RunCore_def latency_ok_def U_MAX_def)
  have 2: "stop R_SIGNAL short_core = (no_outcome\<lparr>oc_result := stop_result short_core\<rparr>, short_core)"
    by (simp add: stop_def short_core_def)
  have 3: "containment_empty JNull JNull short_core =
      (no_outcome\<lparr>oc_events := [(K_ContainmentEmpty, JObj [(lit ''final_sample'', JNull), (lit ''root_exit'', JNull)])]\<rparr>,
       short_core\<lparr>rc_state := FINALIZING\<rparr>)"
    by (simp add: containment_empty_def short_core_def RunCore_def Let_def)
  have 4: "KILLED = final_state_for (case rc_stop_reason short_core of None \<Rightarrow> R_SIGNAL | Some s \<Rightarrow> s)"
    by (simp add: short_core_def final_state_for_def FAULT_REASONS_def)
  show ?thesis
    using stop_leads_to_end [OF short_run 1(1) 2 3 surjective_pairing 4, of JNull 0] 1(2,3) by simp
qed

text \<open>The final event of a run never reports energy: no use of the core by its engine sets the core's
  \<open>energy_uj\<close>, so \<open>RunFinalized\<close> carries null even for a measured run.\<close>

theorem final_event_without_energy:
  assumes "core_run r k cfg es c" "(K_RunFinalized, d) \<in> set es"
  shows "fld d ''energy_uj'' = JNull"
  using core_steps_final_energy [OF assms(1) [unfolded core_run_def] _ assms(2)] by (simp add: RunCore_def)

theorem final_event_without_energy_witness:
  "\<exists>d. finalize JNull 0 (short_core\<lparr>rc_state := FINALIZING\<rparr>) =
     (Inr (no_outcome\<lparr>oc_events := [(K_RunFinalized, d)]\<rparr>), short_core\<lparr>rc_state := KILLED, rc_final_state := Some KILLED\<rparr>) \<and>
   fld d ''energy_uj'' = JNull"
proof -
  let ?c = "short_core\<lparr>rc_state := FINALIZING\<rparr>"
  have "core_step short_core [(K_ContainmentEmpty, JObj [(lit ''final_sample'', JNull), (lit ''root_exit'', JNull)])] ?c"
    using step_empty [of JNull JNull short_core] by (simp add: containment_empty_def short_core_def RunCore_def Let_def)
  from steps_snoc [OF short_run [unfolded core_run_def] this]
  have run: "core_steps (RunCore [] [] JNull)
    (short_events @ [(K_ContainmentEmpty, JObj [(lit ''final_sample'', JNull), (lit ''root_exit'', JNull)])]) ?c" .
  have "\<exists>d. finalize JNull 0 ?c = (Inr (no_outcome\<lparr>oc_events := [(K_RunFinalized, d)]\<rparr>),
     ?c\<lparr>rc_final_state := Some (final_state_for R_OPERATOR), rc_state := final_state_for R_OPERATOR\<rparr>)"
    by (rule finalized) (simp_all add: short_core_def RunCore_def latency_ok_def U_MAX_def)
  then obtain d where d: "finalize JNull 0 ?c = (Inr (no_outcome\<lparr>oc_events := [(K_RunFinalized, d)]\<rparr>),
     short_core\<lparr>rc_state := KILLED, rc_final_state := Some KILLED\<rparr>)"
    by (auto simp: final_state_for_def FAULT_REASONS_def short_core_def)
  from steps_snoc [OF run step_finalize [OF d]] have "fld d ''energy_uj'' = JNull"
    by (intro final_event_without_energy [of "[]" "[]" JNull _ "short_core\<lparr>rc_state := KILLED, rc_final_state := Some KILLED\<rparr>"])
      (auto simp: core_run_def)
  with d show ?thesis by blast
qed

end
