(* ===== verification/Ed25519.thy ===== *)
theory Ed25519 imports Scalars begin

text \<open>
  Models \<open>src/lexwatt/ed25519.py\<close>, the wrapper around the third-party \<open>cryptography\<close> package. The package is
  a parameter: the record \<open>ed_lib\<close> holds the three calls the wrapper makes, and \<open>ed_correct\<close> states their
  documented behaviour (sizes, and that a signature verifies under the public key of its seed).
\<close>

text \<open>How \<open>Ed25519PublicKey.from_public_bytes(key).verify(signature, message)\<close> ends: it returns, or raises
  \<open>InvalidSignature\<close>, or raises \<open>ValueError\<close>.\<close>

datatype lib_verdict = Lib_Returns | Lib_InvalidSignature | Lib_ValueError

record ed_lib =
  lib_public :: "bytes \<Rightarrow> bytes"
  lib_sign :: "bytes \<Rightarrow> bytes \<Rightarrow> bytes"
  lib_verify :: "bytes \<Rightarrow> bytes \<Rightarrow> bytes \<Rightarrow> lib_verdict"

definition SEED_LEN :: nat where "SEED_LEN = 32"

definition public_key_from_seed :: "ed_lib \<Rightarrow> bytes \<Rightarrow> exn + bytes" where
  "public_key_from_seed lib seed =
    (if length seed \<noteq> SEED_LEN then Inl (Lex INVALID_INPUT) else Inr (lib_public lib seed))"

definition public_key_b64_from_seed :: "ed_lib \<Rightarrow> bytes \<Rightarrow> exn + pystr" where
  "public_key_b64_from_seed lib seed = bindE (public_key_from_seed lib seed) (\<lambda>p. Inr (encode_b64url p))"

definition ed_sign :: "ed_lib \<Rightarrow> bytes \<Rightarrow> bytes \<Rightarrow> exn + bytes" where
  "ed_sign lib seed message =
    (if length seed \<noteq> SEED_LEN then Inl (Lex INVALID_INPUT) else Inr (lib_sign lib seed message))"

definition sign_b64 :: "ed_lib \<Rightarrow> bytes \<Rightarrow> bytes \<Rightarrow> exn + pystr" where
  "sign_b64 lib seed message = bindE (ed_sign lib seed message) (\<lambda>s. Inr (encode_b64url s))"

definition ed_verify :: "ed_lib \<Rightarrow> bytes \<Rightarrow> bytes \<Rightarrow> bytes \<Rightarrow> bool" where
  "ed_verify lib public_key message signature =
    (if length public_key \<noteq> 32 \<or> length signature \<noteq> 64 then False
     else (case lib_verify lib public_key message signature of
             Lib_Returns \<Rightarrow> True | Lib_InvalidSignature \<Rightarrow> False | Lib_ValueError \<Rightarrow> False))"

definition ed_correct :: "ed_lib \<Rightarrow> bool" where
  "ed_correct lib \<longleftrightarrow> (\<forall>seed m. length seed = 32 \<longrightarrow>
     is_bytes (lib_public lib seed) \<and> length (lib_public lib seed) = 32 \<and>
     is_bytes (lib_sign lib seed m) \<and> length (lib_sign lib seed m) = 64 \<and>
     lib_verify lib (lib_public lib seed) m (lib_sign lib seed m) = Lib_Returns)"

text \<open>A package with these laws exists (one that signs nothing).\<close>

definition plain_lib :: ed_lib where
  "plain_lib = \<lparr>lib_public = (\<lambda>_. replicate 32 0), lib_sign = (\<lambda>_ _. replicate 64 0),
     lib_verify = (\<lambda>_ _ s. if s = replicate 64 0 then Lib_Returns else Lib_InvalidSignature)\<rparr>"

lemma plain_lib_correct: "ed_correct plain_lib"
  by (simp add: ed_correct_def plain_lib_def is_bytes_def)

text \<open>The text a signer writes decodes to a signature that verifies under its key.\<close>

lemma signed_text_verifies:
  assumes "ed_correct lib" "sign_b64 lib seed m = Inr s" "public_key_b64_from_seed lib seed = Inr p"
  obtains pub sig where "decode_signature (JStr s) = Inr sig" "decode_public_key (JStr p) = Inr pub"
    "ed_verify lib pub m sig"
proof -
  have len: "length seed = 32"
    using assms(2) by (auto simp: sign_b64_def ed_sign_def SEED_LEN_def split: if_splits)
  then have s: "s = encode_b64url (lib_sign lib seed m)" and p: "p = encode_b64url (lib_public lib seed)"
    using assms(2,3) by (simp_all add: sign_b64_def ed_sign_def public_key_b64_from_seed_def public_key_from_seed_def SEED_LEN_def)
  have laws: "is_bytes (lib_public lib seed)" "length (lib_public lib seed) = 32" "is_bytes (lib_sign lib seed m)"
    "length (lib_sign lib seed m) = 64" "lib_verify lib (lib_public lib seed) m (lib_sign lib seed m) = Lib_Returns"
    using assms(1) len unfolding ed_correct_def by blast+
  show thesis
    by (rule that [of "lib_sign lib seed m" "lib_public lib seed"])
      (use laws in \<open>simp_all add: s p decode_signature_iff decode_public_key_iff ed_verify_def\<close>)
qed

end
