(* ===== verification/Verify.thy ===== *)
theory Verify imports Replay Ed25519 begin

text \<open>
  Models \<open>src/lexwatt/verify.py\<close>, the eight steps of receipt verification, one definition per step. The
  signature check is the wrapper of the theory \<open>Ed25519\<close> over a package parameter.

  Results: exactly which bundles verify and with which answer; a receipt is complete exactly when its run
  is in a terminal state; and two verified receipts with the same head are the same journal up to key
  order, unless they exhibit a collision of SHA-256.
\<close>

definition ZERO_HASH :: pystr where "ZERO_HASH = replicate 64 48"

text \<open>\<open>p["key"]\<close> on a value that need not be a dict.\<close>

definition subscript :: "json \<Rightarrow> string \<Rightarrow> exn + json" where
  "subscript v k = (case v of JObj d \<Rightarrow> dict_item d (lit k) | _ \<Rightarrow> Inl (Py Type_Error))"

abbreviation body_at :: "json \<Rightarrow> json" where "body_at e \<equiv> fld e ''body''"

section \<open>The steps\<close>

text \<open>Step 1 for the pins\<close>

definition check_pins :: "json list \<Rightarrow> exn + unit" where
  "check_pins pins =
    bindE (eachE (\<lambda>p. bindE (subscript p ''key_id'') (\<lambda>k. bindE (check_id k ID_key) (\<lambda>_.
                       bindE (subscript p ''public_key'') check_public_key))) pins)
      (\<lambda>_. requireE (length pins \<le> 32) (Lex INVALID_INPUT))"

definition check_hashes :: "json list \<Rightarrow> exn + unit" where
  "check_hashes = eachE (\<lambda>e. bindE (event_hash (body_at e)) (\<lambda>h.
     requireE (JStr h = fld e ''hash'') (Lex HASH_MISMATCH)))"

text \<open>The comprehension: of two pins with one id the later wins.\<close>

definition keymap :: "json list \<Rightarrow> json \<Rightarrow> json option" where
  "keymap pins = map_of (rev (map (\<lambda>p. (fld p ''key_id'', fld p ''public_key'')) pins))"

definition check_keys :: "(json \<Rightarrow> json option) \<Rightarrow> json list \<Rightarrow> exn + unit" where
  "check_keys keys = eachE (\<lambda>e. requireE (keys (fld (body_at e) ''key_id'') \<noteq> None) (Lex UNTRUSTED_KEY))"

definition check_signed :: "ed_lib \<Rightarrow> (json \<Rightarrow> json option) \<Rightarrow> json \<Rightarrow> exn + unit" where
  "check_signed lib keys e =
    bindE (decode_public_key (case keys (fld (body_at e) ''key_id'') of None \<Rightarrow> JNull | Some k \<Rightarrow> k)) (\<lambda>pub.
    bindE (decode_signature (fld e ''sig'')) (\<lambda>sig.
    bindE (event_sign_message (str_of (fld e ''hash''))) (\<lambda>m.
      requireE (ed_verify lib pub m sig) (Lex SIGNATURE_INVALID))))"

text \<open>Step 5, the loop with its counter and accumulators\<close>

fun chain_loop :: "json \<Rightarrow> json \<Rightarrow> int \<Rightarrow> json \<Rightarrow> int \<Rightarrow> json list \<Rightarrow> exn + unit" where
  "chain_loop run_id key_id i prev last_t [] = Inr ()"
| "chain_loop run_id key_id i prev last_t (e # es) =
    (let b = body_at e; t = u_of (fld b ''t_us'')
     in if u_of (fld b ''seq'') \<noteq> i + 1 then Inl (Lex CHAIN_INVALID)
        else if fld b ''prev_hash'' \<noteq> prev then Inl (Lex CHAIN_INVALID)
        else if fld b ''run_id'' \<noteq> run_id \<or> fld b ''key_id'' \<noteq> key_id then Inl (Lex CHAIN_INVALID)
        else if t < last_t then Inl (Lex CHAIN_INVALID)
        else chain_loop run_id key_id (i + 1) (fld e ''hash'') t es)"

definition check_chain :: "json list \<Rightarrow> exn + unit" where
  "check_chain entries =
    (if entries = [] then Inr ()
     else chain_loop (fld (body_at (hd entries)) ''run_id'') (fld (body_at (hd entries)) ''key_id'') 0 (JStr ZERO_HASH) (-1) entries)"

definition replay_entries :: "json list \<Rightarrow> exn + json" where
  "replay_entries entries =
    (if entries = [] then Inr (JStr (lit ''CREATED'')) else replay_events (map body_at entries))"

definition bundle_head :: "json list \<Rightarrow> json" where
  "bundle_head entries =
    (if entries = [] then JObj [(lit ''seq'', JStr (lit ''0'')), (lit ''hash'', JStr ZERO_HASH)]
     else JObj [(lit ''seq'', fld (body_at (last entries)) ''seq''), (lit ''hash'', fld (last entries) ''hash'')])"

text \<open>\<open>==\<close> between an expected head, which has exactly these two keys, and the head.\<close>

definition same_head :: "json \<Rightarrow> json \<Rightarrow> bool" where
  "same_head a b \<longleftrightarrow> fld a ''seq'' = fld b ''seq'' \<and> fld a ''hash'' = fld b ''hash''"

definition is_complete :: "json list \<Rightarrow> bool" where
  "is_complete entries \<longleftrightarrow> entries \<noteq> [] \<and>
     fld (body_at (last entries)) ''kind'' \<in> {JStr (lit ''RunRejected''), JStr (lit ''RunFinalized'')}"

definition verify_result :: "json list \<Rightarrow> json \<Rightarrow> json" where
  "verify_result entries state =
    JObj [(lit ''integrity'', JStr (lit ''VALID'')),
          (lit ''completeness'', JStr (if is_complete entries then lit ''COMPLETE'' else lit ''PREFIX'')),
          (lit ''physical_truth'', JStr (lit ''NOT_ATTESTED'')), (lit ''head'', bundle_head entries),
          (lit ''state'', state)]"

definition verify_bundle :: "ed_lib \<Rightarrow> json \<Rightarrow> json list \<Rightarrow> bool \<Rightarrow> exn + json" where
  "verify_bundle lib bundle pins require_complete =
    bindE (check_bundle bundle) (\<lambda>_.
    (let entries = arr_of (fld bundle ''entries'')
     in bindE (check_pins pins) (\<lambda>_.
        bindE (check_hashes entries) (\<lambda>_.
        bindE (check_keys (keymap pins) entries) (\<lambda>_.
        bindE (eachE (check_signed lib (keymap pins)) entries) (\<lambda>_.
        bindE (check_chain entries) (\<lambda>_.
        bindE (replay_entries entries) (\<lambda>state.
        bindE (requireE (fld bundle ''expected_head'' = JNull \<or> same_head (fld bundle ''expected_head'') (bundle_head entries))
                 (Lex CHAIN_INVALID)) (\<lambda>_.
        bindE (requireE (\<not> require_complete \<or> is_complete entries) (Lex INCOMPLETE)) (\<lambda>_.
          Inr (verify_result entries state)))))))))))"

section \<open>The chain\<close>

text \<open>The specification of step 5: position, link, run, key and time of every entry.\<close>

definition linked :: "json list \<Rightarrow> bool" where
  "linked es \<longleftrightarrow> (\<forall>i < length es. u_of (fld (body_at (es ! i)) ''seq'') = int i + 1 \<and>
     fld (body_at (es ! i)) ''prev_hash'' = (if i = 0 then JStr ZERO_HASH else fld (es ! (i - 1)) ''hash'') \<and>
     fld (body_at (es ! i)) ''run_id'' = fld (body_at (es ! 0)) ''run_id'' \<and>
     fld (body_at (es ! i)) ''key_id'' = fld (body_at (es ! 0)) ''key_id'' \<and>
     (0 < i \<longrightarrow> u_of (fld (body_at (es ! (i - 1))) ''t_us'') \<le> u_of (fld (body_at (es ! i)) ''t_us'')))"

lemma u_of_minus_1: "-1 \<le> u_of v"
  by (simp add: u_of_def py_int_def)

lemma chain_loop_Cons:
  "chain_loop r k n prev t (e # es) = Inr () \<longleftrightarrow>
     u_of (fld (body_at e) ''seq'') = n + 1 \<and> fld (body_at e) ''prev_hash'' = prev \<and> fld (body_at e) ''run_id'' = r \<and>
     fld (body_at e) ''key_id'' = k \<and> t \<le> u_of (fld (body_at e) ''t_us'') \<and>
     chain_loop r k (n + 1) (fld e ''hash'') (u_of (fld (body_at e) ''t_us'')) es = Inr ()"
  by (auto simp: Let_def not_less)

lemma chain_loop_iff:
  "chain_loop r k n prev t es = Inr () \<longleftrightarrow>
     (\<forall>i < length es. u_of (fld (body_at (es ! i)) ''seq'') = n + int i + 1 \<and>
       fld (body_at (es ! i)) ''prev_hash'' = (if i = 0 then prev else fld (es ! (i - 1)) ''hash'') \<and>
       fld (body_at (es ! i)) ''run_id'' = r \<and> fld (body_at (es ! i)) ''key_id'' = k \<and>
       (if i = 0 then t else u_of (fld (body_at (es ! (i - 1))) ''t_us'')) \<le> u_of (fld (body_at (es ! i)) ''t_us''))"
proof (induction es arbitrary: n prev t)
  case (Cons e es)
  have shift: "(e # es) ! (Suc i - 1) = (if i = 0 then e else es ! (i - 1))" for i
    by (cases i) simp_all
  show ?case
    unfolding chain_loop_Cons Cons.IH length_Cons All_less_Suc2 shift by (auto simp: algebra_simps)
qed simp

lemma check_chain_iff: "check_chain es = Inr () \<longleftrightarrow> linked es"
  unfolding check_chain_def linked_def
  using u_of_minus_1 by (auto simp: chain_loop_iff hd_conv_nth)

lemma same_head_refl [simp]: "same_head h h"
  by (simp add: same_head_def)

section \<open>What verifies\<close>

definition hashed :: "json \<Rightarrow> bool" where
  "hashed e \<longleftrightarrow> (\<exists>h. event_hash (body_at e) = Inr h \<and> fld e ''hash'' = JStr h)"

definition authentic :: "ed_lib \<Rightarrow> json list \<Rightarrow> json \<Rightarrow> bool" where
  "authentic lib pins e \<longleftrightarrow> (\<exists>k pub sig m. keymap pins (fld (body_at e) ''key_id'') = Some k \<and> decode_public_key k = Inr pub \<and>
     decode_signature (fld e ''sig'') = Inr sig \<and> event_sign_message (str_of (fld e ''hash'')) = Inr m \<and>
     ed_verify lib pub m sig)"

lemma check_hashes_iff: "check_hashes es = Inr () \<longleftrightarrow> (\<forall>e \<in> set es. hashed e)"
  by (auto simp: check_hashes_def result_simps hashed_def)

lemma check_keys_iff: "check_keys keys es = Inr () \<longleftrightarrow> (\<forall>e \<in> set es. keys (fld (body_at e) ''key_id'') \<noteq> None)"
  by (auto simp: check_keys_def result_simps)

lemma check_signed_iff:
  "keymap pins (fld (body_at e) ''key_id'') \<noteq> None \<Longrightarrow> is_ok (check_signed lib (keymap pins) e) \<longleftrightarrow> authentic lib pins e"
  by (auto simp: check_signed_def authentic_def result_simps)

lemma authentic_known:
  "authentic lib pins e \<Longrightarrow> \<exists>k. keymap pins (fld (body_at e) ''key_id'') = Some k"
  "authentic lib pins e \<Longrightarrow> is_ok (check_signed lib (keymap pins) e)"
  by (auto simp: authentic_def check_signed_def result_simps)

lemma verify_bundle_iff:
  "verify_bundle lib bundle pins rc = Inr r \<longleftrightarrow>
     (let es = arr_of (fld bundle ''entries'')
      in check_bundle bundle = Inr () \<and> check_pins pins = Inr () \<and> (\<forall>e \<in> set es. hashed e \<and> authentic lib pins e) \<and>
         linked es \<and> (fld bundle ''expected_head'' = JNull \<or> same_head (fld bundle ''expected_head'') (bundle_head es)) \<and>
         (rc \<longrightarrow> is_complete es) \<and> (\<exists>st. replay_entries es = Inr st \<and> r = verify_result es st))"
  unfolding verify_bundle_def Let_def
  by (auto simp: result_simps check_hashes_iff check_keys_iff check_chain_iff check_signed_iff dest: authentic_known)

section \<open>Complete receipts\<close>

lemma RunRejected_terminal: "t \<in> set TERMINAL_STATES \<longleftrightarrow> t \<in> {REJECTED, COMPLETED, KILLED, FAILED}"
  by (auto simp: TERMINAL_STATES_def)

lemma post_state_terminal:
  "post_state k = Some st \<Longrightarrow> st \<in> set TERMINAL_STATES \<longleftrightarrow> k = K_RunRejected"
  by (cases k) (auto simp: TERMINAL_STATES_def)

lemma transition_from_terminal:
  fixes s :: replay_state
  shows "transition_ok k (rp_state s) \<Longrightarrow> rp_state s \<notin> set terminal_json"
  using terminal_no_transition
  by (auto simp: transition_ok_def terminal_json_def)

lemma replay_event_terminal:
  assumes "replay_event (k, d) s = Inr s'" "k = K_RunFinalized \<Longrightarrow> fld d ''state'' \<in> set terminal_json"
  shows "rp_state s' \<in> set terminal_json \<longleftrightarrow> k \<in> {K_RunRejected, K_RunFinalized}"
proof -
  have "transition_ok k (rp_state s)"
    using assms(1) by (auto simp: replay_event_def split: if_splits)
  note open_state = transition_from_terminal [OF this]
  show ?thesis
  proof (cases "k = K_RunFinalized")
    case False
    then show ?thesis
      using replay_event_state [OF assms(1)] open_state post_state_terminal [of k]
      by (auto simp: terminal_json_def split: option.splits)
  qed (use replay_event_state [OF assms(1)] assms(2) in simp)
qed

text \<open>A finalizing event of a checked bundle names a terminal state.\<close>

lemma check_entryD:
  assumes "check_entry e = Inr ()"
  shows "\<exists>k. kind_of (fld (body_at e) ''kind'') = Some k \<and> check_event_data k (fld (body_at e) ''data'') = Inr ()"
proof -
  have "check_event_body (body_at e) = Inr ()"
    using assms unfolding check_entry_def by (rule closed_fld) simp
  then show ?thesis
    by (auto simp: check_event_body_def result_simps split: if_splits option.splits)
qed

lemma enum_iff: "enum xs v = Inr () \<longleftrightarrow> (\<exists>s \<in> set xs. v = JStr s)"
  by (auto simp: enum_def result_simps split: json.splits)

lemma final_data_state:
  assumes "check_event_data K_RunFinalized d = Inr ()"
  shows "fld d ''state'' \<in> set terminal_json"
proof -
  have "enum [lit ''COMPLETED'', lit ''KILLED'', lit ''FAILED''] (fld d ''state'') = Inr ()"
    using assms unfolding check_event_data.simps by (rule closed_fld) simp
  then show ?thesis
    by (auto simp: enum_iff terminal_json_def TERMINAL_STATES_def state_json_def)
qed

lemma replay_step_terminal:
  assumes "replay_step b s = Inr s'" "kind_of (fld b ''kind'') = Some k" "check_event_data k (fld b ''data'') = Inr ()"
  shows "rp_state s' \<in> set terminal_json \<longleftrightarrow> k \<in> {K_RunRejected, K_RunFinalized}"
proof (cases "u_of (fld b ''seq'') = 1")
  case True
  then have "k = K_RunCreated" "rp_state s' = state_json CREATED"
    using assms(1,2) by (auto simp: replay_step_def replay_data_def replay_post_def split: if_splits)
  then show ?thesis by (auto simp: terminal_json_def TERMINAL_STATES_def)
next
  case False
  have "replay_event (k, fld b ''data'') s = Inr s'"
    using assms(1) replay_step_event [OF assms(2) False] by simp
  then show ?thesis using assms(3) final_data_state by (intro replay_event_terminal) auto
qed

lemma is_complete_kind:
  "es \<noteq> [] \<Longrightarrow> kind_of (fld (body_at (last es)) ''kind'') = Some k \<Longrightarrow>
     is_complete es \<longleftrightarrow> k \<in> {K_RunRejected, K_RunFinalized}"
  by (cases k) (auto simp: is_complete_def kind_of_iff)

lemma check_bundle_entries:
  assumes "check_bundle b = Inr ()"
  shows "\<forall>e \<in> set (arr_of (fld b ''entries'')). check_entry e = Inr ()"
  using assms by (auto simp: check_bundle_def result_simps is_ok_iff)

lemma replay_entries_terminal:
  assumes "replay_entries es = Inr st" "\<forall>e \<in> set es. check_entry e = Inr ()"
  shows "st \<in> set terminal_json \<longleftrightarrow> is_complete es"
proof (cases es rule: rev_cases)
  case Nil
  then have "st = state_json CREATED" "\<not> is_complete es"
    using assms(1) by (auto simp: replay_entries_def is_complete_def state_json_def)
  then show ?thesis by (auto simp: terminal_json_def TERMINAL_STATES_def)
next
  case (snoc ds e)
  then obtain s s' where s: "replay_step (body_at e) s = Inr s'" "st = rp_state s'"
    using assms(1) by (auto simp: replay_entries_def replay_events_def result_simps replay_loop_append)
  obtain k where k: "kind_of (fld (body_at e) ''kind'') = Some k" "check_event_data k (fld (body_at e) ''data'') = Inr ()"
    using check_entryD assms(2) snoc by force
  show ?thesis
    using replay_step_terminal [OF s(1) k] is_complete_kind [of es k] k(1) s(2) snoc by simp
qed

section \<open>One head, one journal\<close>

text \<open>
  A hash chain in general: entries whose hash binds them up to \<open>same\<close> (or clashes), where sameness fixes the
  position and the link. Two chains with the same tip are the same, or clash somewhere.
\<close>

locale hash_chain =
  fixes hash_of prev :: "'e \<Rightarrow> 'h" and pos :: "'e \<Rightarrow> nat" and good :: "'e \<Rightarrow> bool"
    and same clash :: "'e \<Rightarrow> 'e \<Rightarrow> bool"
  assumes binds: "good a \<Longrightarrow> good b \<Longrightarrow> hash_of a = hash_of b \<Longrightarrow> same a b \<or> clash a b"
    and same_prev: "good a \<Longrightarrow> good b \<Longrightarrow> same a b \<Longrightarrow> prev a = prev b"
    and same_pos: "good a \<Longrightarrow> good b \<Longrightarrow> same a b \<Longrightarrow> pos a = pos b"
begin

definition chained :: "'e list \<Rightarrow> bool" where
  "chained es \<longleftrightarrow> (\<forall>i < length es. good (es ! i) \<and> pos (es ! i) = Suc i \<and> (0 < i \<longrightarrow> prev (es ! i) = hash_of (es ! (i - 1))))"

lemma chained_snoc:
  "chained (es @ [e]) \<longleftrightarrow> chained es \<and> good e \<and> pos e = Suc (length es) \<and> (es \<noteq> [] \<longrightarrow> prev e = hash_of (last es))"
  unfolding chained_def length_append_singleton All_less_Suc
  by (auto simp: nth_append last_conv_nth)

lemma one_tip_one_chain:
  "chained es \<Longrightarrow> chained fs \<Longrightarrow> es \<noteq> [] \<Longrightarrow> fs \<noteq> [] \<Longrightarrow> hash_of (last es) = hash_of (last fs) \<Longrightarrow>
     list_all2 same es fs \<or> (\<exists>a \<in> set es. \<exists>b \<in> set fs. clash a b)"
proof (induction es arbitrary: fs rule: rev_induct)
  case (snoc a es)
  obtain gs b where fs: "fs = gs @ [b]" using snoc.prems(4) by (cases fs rule: rev_cases) auto
  have a: "chained es" "good a" "pos a = Suc (length es)" "es \<noteq> [] \<Longrightarrow> prev a = hash_of (last es)"
    and b: "chained gs" "good b" "pos b = Suc (length gs)" "gs \<noteq> [] \<Longrightarrow> prev b = hash_of (last gs)"
    using snoc.prems(1,2) by (auto simp: fs chained_snoc)
  have "same a b \<or> clash a b" using snoc.prems(5) a(2) b(2) by (intro binds) (simp_all add: fs)
  then show ?case
  proof
    assume same: "same a b"
    then have len: "length es = length gs" and pv: "prev a = prev b"
      using same_pos same_prev a b by (auto dest: same_pos)
    show ?thesis
    proof (cases "es = []")
      case False
      then have gs: "gs \<noteq> []" using len by auto
      have "hash_of (last es) = hash_of (last gs)" using pv a(4) [OF False] b(4) [OF gs] by simp
      with snoc.IH [OF a(1) b(1) False gs] show ?thesis using same by (auto simp: fs list_all2_appendI)
    qed (use len same in \<open>simp add: fs\<close>)
  qed (auto simp: fs)
qed simp

end

text \<open>Fields of a canonical value, and values inside a value of the wire profile.\<close>

lemma fld_canon:
  assumes "json_ok n v"
  shows "fld (canon v) k = canon (fld v k)"
proof (cases v)
  case (JObj d)
  then have d: "distinct (map fst d)" using assms by (simp add: distinct_keys_def)
  have s: "distinct (map fst (sorted_items d))" using d by (simp add: distinct_keys_def)
  have e: "map_of (sorted_items d) = map_of d"
    using d s by (simp add: map_of_inject_set)
  have m: "map_of (map (\<lambda>kv. (fst kv, canon (snd kv))) es) j = map_option canon (map_of es j)" for es j
    by (induction es) auto
  have "map_of (map (\<lambda>kv. (fst kv, canon (snd kv))) (sorted_items d)) (lit k) = map_option canon (map_of d (lit k))"
    unfolding m e ..
  then show ?thesis by (simp add: JObj fld_def dict_get_def split: option.split)
qed (simp_all add: fld_def)

lemma json_ok_fld: "json_ok n v \<Longrightarrow> json_ok n (fld v k)"
proof (cases v)
  case (JObj d)
  assume ok: "json_ok n v"
  show ?thesis
  proof (cases "map_of d (lit k)")
    case (Some x)
    then have "json_ok (n - 1) x" using ok by (auto simp: JObj dest!: map_of_SomeD)
    then show ?thesis using Some json_ok_mono [of "n - 1" x n] by (simp add: JObj fld_def dict_get_def)
  qed (simp add: JObj fld_def dict_get_def)
qed (simp_all add: fld_def)

lemma json_ok_elem: "json_ok n v \<Longrightarrow> x \<in> set (arr_of v) \<Longrightarrow> json_ok n x"
  using json_ok_mono [of "n - 1" x n] by (cases v) (auto simp: arr_of_def)

lemma u_of_canon [simp]: "u_of (canon v) = u_of v"
  by (cases v) (simp_all add: u_of_def str_of_def)

definition good_entry :: "json \<Rightarrow> bool" where
  "good_entry e \<longleftrightarrow> hashed e \<and> json_ok MAX_DEPTH (body_at e) \<and> (\<exists>p. fld (body_at e) ''prev_hash'' = JStr p)"

definition same_entry :: "json \<Rightarrow> json \<Rightarrow> bool" where
  "same_entry a b \<longleftrightarrow> canon (body_at a) = canon (body_at b) \<and> fld a ''hash'' = fld b ''hash''"

text \<open>Two bodies with different bytes and one digest.\<close>

definition clash :: "json \<Rightarrow> json \<Rightarrow> bool" where
  "clash a b \<longleftrightarrow> (\<exists>x y. dumps (body_at a) = Inr x \<and> dumps (body_at b) = Inr y \<and> x \<noteq> y \<and>
     sha256 (D_EVENT @ [0] @ x) = sha256 (D_EVENT @ [0] @ y))"

interpretation receipt: hash_chain "\<lambda>e. fld e ''hash''" "\<lambda>e. fld (body_at e) ''prev_hash''"
  "\<lambda>e. nat (u_of (fld (body_at e) ''seq''))" good_entry same_entry clash
proof unfold_locales
  fix a b assume g: "good_entry a" "good_entry b" and h: "fld a ''hash'' = fld b ''hash''"
  then have ok: "json_ok MAX_DEPTH (body_at a)" "json_ok MAX_DEPTH (body_at b)"
    and "event_hash (body_at a) = event_hash (body_at b)"
    by (auto simp: good_entry_def hashed_def)
  then have "canon (body_at a) = canon (body_at b) \<or> preimage D_EVENT (body_at a) \<noteq> preimage D_EVENT (body_at b) \<and>
      sha256 (preimage D_EVENT (body_at a)) = sha256 (preimage D_EVENT (body_at b))"
    using digest_binding [of D_EVENT D_EVENT "body_at a" "body_at b"] by (simp add: event_hash_def)
  then show "same_entry a b \<or> clash a b"
    using h dumps_bytes_ok [OF ok(1)] dumps_bytes_ok [OF ok(2)] by (auto simp: same_entry_def clash_def preimage_def)
next
  fix a b assume g: "good_entry a" "good_entry b" and s: "same_entry a b"
  then have ok: "json_ok MAX_DEPTH (body_at a)" "json_ok MAX_DEPTH (body_at b)" by (auto simp: good_entry_def)
  have same: "canon (fld (body_at a) k) = canon (fld (body_at b) k)" for k
    using s fld_canon [OF ok(1), of k] fld_canon [OF ok(2), of k] by (simp add: same_entry_def)
  show "fld (body_at a) ''prev_hash'' = fld (body_at b) ''prev_hash''"
    using same [of "''prev_hash''"] g by (auto simp: good_entry_def)
  show "nat (u_of (fld (body_at a) ''seq'')) = nat (u_of (fld (body_at b) ''seq''))"
    using same [of "''seq''"] u_of_canon by metis
qed

lemma linked_chained: "linked es \<Longrightarrow> \<forall>e \<in> set es. good_entry e \<Longrightarrow> receipt.chained es"
  by (auto simp: linked_def receipt.chained_def nat_add_distrib)

lemma verified_good:
  assumes "verify_bundle lib b pins rc = Inr r" "json_ok MAX_DEPTH b" "e \<in> set (arr_of (fld b ''entries''))"
  shows "good_entry e"
proof -
  have v: "check_bundle b = Inr ()" "hashed e" using assms(1,3) by (auto simp: verify_bundle_iff Let_def)
  have "check_event_body (body_at e) = Inr ()"
    using check_bundle_entries [OF v(1)] assms(3) unfolding check_entry_def by (intro closed_fld(1)) auto
  then have "closed event_fields (body_at e) = Inr ()"
    by (auto simp: check_event_body_def result_simps split: if_splits option.splits)
  then have "chk check_hash (fld (body_at e) ''prev_hash'') = Inr ()"
    by (rule closed_fld) (simp add: event_fields_def)
  then have "\<exists>p. fld (body_at e) ''prev_hash'' = JStr p"
    by (cases "fld (body_at e) ''prev_hash''") (simp_all add: chk_def check_hash_def)
  moreover have "json_ok MAX_DEPTH (body_at e)"
    by (rule json_ok_fld [OF json_ok_elem [OF json_ok_fld [OF assms(2)] assms(3)]])
  ultimately show ?thesis using v(2) by (simp add: good_entry_def)
qed

end
