(* ===== verification/VerifyProps.thy ===== *)
theory VerifyProps imports Verify Ids begin

text \<open>
  The properties of receipt verification, and a receipt with one entry that verifies, on which they are
  applied. The receipt's hash is left symbolic: it is the digest of its body.
\<close>

section \<open>A receipt that verifies\<close>

definition plain_id :: "id_kind \<Rightarrow> pystr" where
  "plain_id k = ID_PREFIXES k @ 95 # replicate 21 97"

definition created_body :: json where
  "created_body = JObj [(lit ''v'', JInt 1), (lit ''run_id'', JStr (plain_id ID_run)), (lit ''event_id'', JStr (plain_id ID_event)),
     (lit ''key_id'', JStr (plain_id ID_key)), (lit ''seq'', JStr (lit ''1'')), (lit ''prev_hash'', JStr ZERO_HASH),
     (lit ''t_us'', JStr (lit ''0'')), (lit ''kind'', JStr (lit ''RunCreated'')),
     (lit ''data'', JObj [(lit ''config_hash'', JStr ZERO_HASH)])]"

definition created_hash :: pystr where
  "created_hash = sha256_hex (preimage D_EVENT created_body)"

definition created_entry :: json where
  "created_entry = JObj [(lit ''body'', created_body), (lit ''hash'', JStr created_hash),
     (lit ''sig'', JStr (encode_b64url (replicate 64 0)))]"

definition created_bundle :: json where
  "created_bundle = JObj [(lit ''v'', JInt 1), (lit ''entries'', JArr [created_entry]), (lit ''expected_head'', JNull)]"

definition created_pin :: json where
  "created_pin = JObj [(lit ''key_id'', JStr (plain_id ID_key)), (lit ''public_key'', JStr (encode_b64url (replicate 32 0)))]"

lemma plain_id_checks: "check_id (JStr (plain_id k)) k = Inr (plain_id k)"
  unfolding plain_id_def by (rule check_id_prefixed) (simp_all add: is_id_char_def is_lower_def list_all_iff)

lemma plain_id_scalar: "is_scalar_text (plain_id k)"
  by (cases k) (simp_all add: plain_id_def lit_def is_scalar_text_def is_scalar_def is_code_point_def is_surrogate_def list_all_iff)

lemma lit_scalar: "is_scalar_text (lit s)"
proof -
  have "c < 256" if "c \<in> set (lit s)" for c using that is_bytes_lit [of s] by (auto simp: is_bytes_def)
  then show ?thesis by (force simp: is_scalar_text_def is_scalar_def is_code_point_def is_surrogate_def list_all_iff)
qed

lemma zero_hash_checks: "check_hash (JStr ZERO_HASH) = Inr ZERO_HASH" "is_scalar_text ZERO_HASH"
  by (simp_all add: check_hash_def ZERO_HASH_def dollar_def hash_re_def list_all_iff is_hex_lower_def is_digit_def
      is_scalar_text_def is_scalar_def is_code_point_def is_surrogate_def)

lemma small_u: "check_u (JStr (lit ''1'')) = Inr (lit ''1'')" "check_u (JStr (lit ''0'')) = Inr (lit ''0'')"
  "u_of (JStr (lit ''1'')) = 1" "u_of (JStr (lit ''0'')) = 0"
  by (simp_all add: check_u_def dollar_def u_re_def lit_def py_int_def dec_val_def U_MAX_def u_of_def str_of_def
      chop_newline_def is_digit_def)

lemma created_body_checks: "check_event_body created_body = Inr ()"
proof -
  have k: "kind_of (fld created_body ''kind'') = Some K_RunCreated"
    by (simp add: kind_of_iff created_body_def shape_defs)
  have "closed event_fields created_body = Inr ()"
    by (simp add: event_fields_def created_body_def shape_defs check_version_def id_of_def plain_id_checks small_u zero_hash_checks
        is_obj_or_str_def is_obj_def)
  moreover have "check_event_data K_RunCreated (fld created_body ''data'') = Inr ()"
    by (simp add: created_body_def shape_defs zero_hash_checks)
  ultimately show ?thesis
    using k by (simp add: check_event_body_def created_body_def is_obj_def dict_of_def)
qed

lemma created_body_ok: "json_ok 2 created_body"
  by (simp add: created_body_def distinct_keys_def plain_id_scalar lit_scalar zero_hash_checks MAX_JSON_INT_def)

lemma created_hash: "event_hash created_body = Inr created_hash" "check_hash (JStr created_hash) = Inr created_hash"
    "is_scalar_text created_hash" "\<exists>m. event_sign_message created_hash = Inr m"
proof -
  show h: "event_hash created_body = Inr created_hash"
    unfolding event_hash_def created_hash_def by (rule digest_preimage [OF _ created_body_ok]) simp
  note shape = digest_shape [OF h [unfolded event_hash_def]]
  show "check_hash (JStr created_hash) = Inr created_hash"
    using shape by (simp add: check_hash_def dollar_def hash_re_def)
  show "is_scalar_text created_hash"
    using shape by (force simp: is_scalar_text_def list_all_iff is_hex_lower_def is_digit_def is_scalar_def is_code_point_def
        is_surrogate_def)
  show "\<exists>m. event_sign_message created_hash = Inr m"
    using event_sign_message_hex [of "sha256 (preimage D_EVENT created_body)"] by (simp add: created_hash_def sha256_hex_def)
qed

lemma plain_decode: "0 < n \<Longrightarrow> b64url_decode_exact (JStr (encode_b64url (replicate n 0))) n = Inr (replicate n 0)"
  by (simp add: b64url_decode_exact_iff is_bytes_def)

lemma plain_signature:
  "decode_signature (JStr (encode_b64url (replicate 64 0))) = Inr (replicate 64 0)"
  "is_ok (check_signature (JStr (encode_b64url (replicate 64 0))))"
  "decode_public_key (JStr (encode_b64url (replicate 32 0))) = Inr (replicate 32 0)"
  "is_ok (check_public_key (JStr (encode_b64url (replicate 32 0))))"
  by (simp_all add: decode_signature_def decode_public_key_def check_signature_def check_public_key_def plain_decode)

lemma plain_signature_chk:
  "chk check_signature (JStr (encode_b64url (replicate 64 0))) = Inr ()"
  using plain_signature(2) by (auto simp: chk_def is_ok_iff)

lemma created_verifies:
  "verify_bundle plain_lib created_bundle [created_pin] False = Inr (verify_result [created_entry] (state_json CREATED))"
proof -
  have entry: "check_entry created_entry = Inr ()"
    by (simp add: check_entry_def closed_def created_entry_def created_body_checks plain_signature_chk)
      (simp add: chk_def created_hash)
  have whole: "check_bundle created_bundle = Inr ()"
    by (simp add: check_bundle_def created_bundle_def shape_defs check_version_def entry)
  have es: "arr_of (fld created_bundle ''entries'') = [created_entry]" "fld created_bundle ''expected_head'' = JNull"
    by (simp_all add: created_bundle_def shape_defs)
  have fields: "fld created_entry ''body'' = created_body" "fld created_entry ''hash'' = JStr created_hash"
    "fld created_entry ''sig'' = JStr (encode_b64url (replicate 64 0))" "fld created_body ''key_id'' = JStr (plain_id ID_key)"
    "fld created_body ''seq'' = JStr (lit ''1'')" "fld created_body ''prev_hash'' = JStr ZERO_HASH"
    "fld created_body ''kind'' = JStr (lit ''RunCreated'')"
    by (simp_all add: created_entry_def created_body_def shape_defs)
  have pins: "check_pins [created_pin] = Inr ()"
    using plain_signature(4)
    by (auto simp: check_pins_def created_pin_def subscript_def dict_item_def plain_id_checks is_ok_iff)
  have "keymap [created_pin] (JStr (plain_id ID_key)) = Some (JStr (encode_b64url (replicate 32 0)))"
    by (simp add: keymap_def created_pin_def shape_defs)
  then have "authentic plain_lib [created_pin] created_entry"
    using created_hash(4) by (auto simp: authentic_def fields plain_signature str_of_def ed_verify_def plain_lib_def)
  moreover have "hashed created_entry" by (simp add: hashed_def fields created_hash)
  moreover have "linked [created_entry]" by (simp add: linked_def fields small_u)
  moreover have "replay_entries [created_entry] = Inr (state_json CREATED)"
    by (simp add: replay_entries_def replay_events_def replay_step_def fields small_u kind_of_iff replay_data_def replay_post_def)
  ultimately show ?thesis
    by (simp add: verify_bundle_iff whole pins es)
qed

lemma bundle_head_hash: "es \<noteq> [] \<Longrightarrow> fld (bundle_head es) ''hash'' = fld (last es) ''hash''"
  by (simp add: bundle_head_def shape_defs)

lemma verify_result_head: "fld (verify_result es st) ''head'' = bundle_head es"
  by (simp add: verify_result_def shape_defs)

lemma encode_b64url_scalar: "is_scalar_text (encode_b64url raw)"
proof -
  have "is_scalar c" if "is_id_char c" for c
    using that by (auto simp: is_id_char_def is_lower_def is_upper_def is_digit_def is_scalar_def is_code_point_def is_surrogate_def)
  then show ?thesis using encode_b64url_chars [of raw] by (simp add: is_scalar_text_def list_all_iff)
qed

section \<open>Properties\<close>

text \<open>C13: what verification accepts. A bundle verifies exactly if it and the pins are well formed, every entry carries the
  hash of its body and a signature valid under the pinned key of its body, the entries form one chain from the zero
  hash with consecutive numbers and no time going back, the expected head (if any) is the last entry, the entry
  is complete if that was asked for, and the bodies replay; the answer is the head and the replayed state.\<close>

theorem verify_exact:
  "verify_bundle lib bundle pins rc = Inr r \<longleftrightarrow>
     (let es = arr_of (fld bundle ''entries'')
      in check_bundle bundle = Inr () \<and> check_pins pins = Inr () \<and> (\<forall>e \<in> set es. hashed e \<and> authentic lib pins e) \<and>
         linked es \<and> (fld bundle ''expected_head'' = JNull \<or> same_head (fld bundle ''expected_head'') (bundle_head es)) \<and>
         (rc \<longrightarrow> is_complete es) \<and> (\<exists>st. replay_entries es = Inr st \<and> r = verify_result es st))"
  by (rule verify_bundle_iff)

theorem verify_exact_witness:
  "check_pins [created_pin] = Inr () \<and> authentic plain_lib [created_pin] created_entry \<and> linked [created_entry]"
  using verify_exact [of plain_lib created_bundle "[created_pin]" False, THEN iffD1, OF created_verifies]
  by (simp add: created_bundle_def shape_defs Let_def)

text \<open>A verified receipt is complete exactly when its run is in a terminal state.\<close>

theorem complete_iff_terminal:
  assumes "verify_bundle lib bundle pins rc = Inr r"
  shows "fld r ''completeness'' = JStr (lit ''COMPLETE'') \<longleftrightarrow> fld r ''state'' \<in> state_json ` set TERMINAL_STATES"
proof -
  let ?es = "arr_of (fld bundle ''entries'')"
  obtain st where st: "check_bundle bundle = Inr ()" "replay_entries ?es = Inr st" "r = verify_result ?es st"
    using assms by (auto simp: verify_bundle_iff Let_def)
  have "st \<in> set terminal_json \<longleftrightarrow> is_complete ?es"
    using st(2) check_bundle_entries [OF st(1)] by (rule replay_entries_terminal)
  then show ?thesis by (simp add: st(3) verify_result_def shape_defs terminal_json_def)
qed

theorem complete_iff_terminal_witness:
  "fld (verify_result [created_entry] (state_json CREATED)) ''completeness'' = JStr (lit ''PREFIX'')"
  using complete_iff_terminal [OF created_verifies]
  by (auto simp: verify_result_def shape_defs TERMINAL_STATES_def split: if_splits)

text \<open>C14: tampering shows. Two verified receipts (values of the wire profile, as \<open>loads\<close> returns them) whose last entries
  have the same hash are the same journal, body by body up to key order, whatever pins they were verified with;
  otherwise two of their bodies are a collision of SHA-256.\<close>

theorem one_head_one_journal:
  assumes "verify_bundle lib b1 pins1 rc1 = Inr r1" "verify_bundle lib b2 pins2 rc2 = Inr r2"
    and "json_ok MAX_DEPTH b1" "json_ok MAX_DEPTH b2"
    and "es = arr_of (fld b1 ''entries'')" "fs = arr_of (fld b2 ''entries'')" "es \<noteq> []" "fs \<noteq> []"
    and "fld (fld r1 ''head'') ''hash'' = fld (fld r2 ''head'') ''hash''"
  shows "list_all2 (\<lambda>e f. canon (fld e ''body'') = canon (fld f ''body'') \<and> fld e ''hash'' = fld f ''hash'') es fs \<or>
    (\<exists>e \<in> set es. \<exists>f \<in> set fs. \<exists>x y. dumps (fld e ''body'') = Inr x \<and> dumps (fld f ''body'') = Inr y \<and> x \<noteq> y \<and>
       sha256 (D_EVENT @ [0] @ x) = sha256 (D_EVENT @ [0] @ y))"
proof -
  obtain st1 where 1: "linked es" "r1 = verify_result es st1"
    using assms(1) unfolding verify_bundle_iff Let_def assms(5) by blast
  obtain st2 where 2: "linked fs" "r2 = verify_result fs st2"
    using assms(2) unfolding verify_bundle_iff Let_def assms(6) by blast
  have g: "\<forall>e \<in> set es. good_entry e" "\<forall>f \<in> set fs. good_entry f"
    using verified_good [OF assms(1,3)] verified_good [OF assms(2,4)] unfolding assms(5,6) by blast+
  have "fld (last es) ''hash'' = fld (last fs) ''hash''"
    using assms(9) bundle_head_hash [OF assms(7)] bundle_head_hash [OF assms(8)] by (simp add: 1(2) 2(2) verify_result_head)
  with receipt.one_tip_one_chain [OF linked_chained [OF 1(1) g(1)] linked_chained [OF 2(1) g(2)] assms(7,8)]
  show ?thesis by (simp add: same_entry_def [abs_def] clash_def)
qed

theorem one_head_one_journal_witness:
  "list_all2 (\<lambda>e f. canon (fld e ''body'') = canon (fld f ''body'')) [created_entry] [created_entry]"
proof -
  have ok: "json_ok MAX_DEPTH created_bundle"
    using json_ok_mono [OF created_body_ok]
    by (simp add: created_bundle_def created_entry_def distinct_keys_def lit_scalar created_hash MAX_DEPTH_def MAX_JSON_INT_def
        encode_b64url_scalar)
  have es: "[created_entry] = arr_of (fld created_bundle ''entries'')" by (simp add: created_bundle_def shape_defs)
  show ?thesis
    using one_head_one_journal [OF created_verifies created_verifies ok ok es es] by (auto simp: clash_def)
qed

end
