(* ===== verification/Effects.thy ===== *)
theory Effects imports Errors begin

text \<open>
  Stateful code that may raise: an action takes the state and returns what the Python code returns or
  raises, together with the state as it is left; an exception keeps the assignments made before it.
  \<open>keeps\<close> says that an action preserves a property of the state on every path, \<open>yields\<close> what holds of the
  result and the state when it returns.
\<close>

type_synonym ('s, 'a) act = "'s \<Rightarrow> (exn + 'a) \<times> 's"

definition ret :: "'a \<Rightarrow> ('s, 'a) act" where "ret a s = (Inr a, s)"
definition raise :: "exn \<Rightarrow> ('s, 'a) act" where "raise e s = (Inl e, s)"
definition lift_r :: "exn + 'a \<Rightarrow> ('s, 'a) act" where "lift_r r s = (r, s)"
definition modify :: "('s \<Rightarrow> 's) \<Rightarrow> ('s, unit) act" where "modify f s = (Inr (), f s)"
definition reads :: "('s \<Rightarrow> 'a) \<Rightarrow> ('s, 'a) act" where "reads f s = (Inr (f s), s)"

definition andthen :: "('s, 'a) act \<Rightarrow> ('a \<Rightarrow> ('s, 'b) act) \<Rightarrow> ('s, 'b) act" where
  "andthen m f s = (case m s of (Inl e, s') \<Rightarrow> (Inl e, s') | (Inr a, s') \<Rightarrow> f a s')"

text \<open>\<open>try: m / except: h\<close>, the handler choosing which exceptions it catches.\<close>

definition handle_exn :: "('s, 'a) act \<Rightarrow> (exn \<Rightarrow> ('s, 'a) act) \<Rightarrow> ('s, 'a) act" where
  "handle_exn m h s = (case m s of (Inl e, s') \<Rightarrow> h e s' | (Inr a, s') \<Rightarrow> (Inr a, s'))"

definition when_act :: "bool \<Rightarrow> ('s, unit) act \<Rightarrow> ('s, unit) act" where
  "when_act b m = (if b then m else ret ())"

text \<open>A \<open>for\<close> loop that threads an accumulator through its body.\<close>

fun fold_act :: "('x \<Rightarrow> 'a \<Rightarrow> ('s, 'a) act) \<Rightarrow> 'x list \<Rightarrow> 'a \<Rightarrow> ('s, 'a) act" where
  "fold_act f [] a = ret a"
| "fold_act f (x # xs) a = andthen (f x a) (fold_act f xs)"

definition each_act :: "('x \<Rightarrow> ('s, unit) act) \<Rightarrow> 'x list \<Rightarrow> ('s, unit) act" where
  "each_act f xs = fold_act (\<lambda>x _. f x) xs ()"

named_theorems act_defs "the primitive actions"

lemmas act_prims [act_defs] = ret_def raise_def lift_r_def modify_def reads_def

lemma andthen_simps [simp]:
  "m s = (Inl e, s') \<Longrightarrow> andthen m f s = (Inl e, s')"
  "m s = (Inr a, s') \<Longrightarrow> andthen m f s = f a s'"
  by (simp_all add: andthen_def)

lemma andthen_eq_Inr:
  "andthen m f s = (Inr b, t) \<longleftrightarrow> (\<exists>a u. m s = (Inr a, u) \<and> f a u = (Inr b, t))"
  by (auto simp: andthen_def split: prod.splits sum.splits)

lemma andthen_eq_Inl:
  "andthen m f s = (Inl e, t) \<longleftrightarrow> m s = (Inl e, t) \<or> (\<exists>a u. m s = (Inr a, u) \<and> f a u = (Inl e, t))"
  by (auto simp: andthen_def split: prod.splits sum.splits)

lemma andthen_prims [simp]:
  "andthen (ret a) f = f a" "andthen (raise e) f = raise e"
  "andthen (modify g) f s = f () (g s)" "andthen (reads h) f s = f (h s) s"
  by (auto simp: andthen_def act_prims)

lemma andthen_lift_r: "andthen (lift_r r) f = (case r of Inl e \<Rightarrow> raise e | Inr a \<Rightarrow> f a)"
  by (auto simp: andthen_def act_prims split: sum.splits)

lemma andthen_assoc: "andthen (andthen m f) g = andthen m (\<lambda>a. andthen (f a) g)"
  by (rule ext) (auto simp: andthen_def split: prod.splits sum.splits)

section \<open>What actions keep\<close>

definition keeps :: "('s \<Rightarrow> bool) \<Rightarrow> ('s, 'a) act \<Rightarrow> bool" where
  "keeps I m \<longleftrightarrow> (\<forall>s. I s \<longrightarrow> I (snd (m s)))"

named_theorems keeps_intros "rules for preserved properties"

lemma keepsI: "(\<And>s. I s \<Longrightarrow> I (snd (m s))) \<Longrightarrow> keeps I m"
  by (simp add: keeps_def)

lemma keepsD: "keeps I m \<Longrightarrow> I s \<Longrightarrow> m s = (r, s') \<Longrightarrow> I s'"
  by (metis keeps_def snd_conv)

lemma keeps_prims [keeps_intros]: "keeps I (ret a)" "keeps I (raise e)" "keeps I (lift_r r)" "keeps I (reads f)"
  by (simp_all add: keeps_def act_prims)

lemma keeps_modify [keeps_intros]: "(\<And>s. I s \<Longrightarrow> I (f s)) \<Longrightarrow> keeps I (modify f)"
  by (simp add: keeps_def act_prims)

lemma keeps_andthen [keeps_intros]: "keeps I m \<Longrightarrow> (\<And>a. keeps I (f a)) \<Longrightarrow> keeps I (andthen m f)"
  by (auto simp: keeps_def andthen_def split: prod.splits sum.splits)

lemma keeps_handle [keeps_intros]: "keeps I m \<Longrightarrow> (\<And>e. keeps I (h e)) \<Longrightarrow> keeps I (handle_exn m h)"
  by (auto simp: keeps_def handle_exn_def split: prod.splits sum.splits)

lemma keeps_if [keeps_intros]: "keeps I a \<Longrightarrow> keeps I b \<Longrightarrow> keeps I (if c then a else b)"
  by simp

lemma keeps_when [keeps_intros]: "keeps I m \<Longrightarrow> keeps I (when_act b m)"
  by (simp add: when_act_def keeps_prims)

lemma keeps_fold [keeps_intros]: "(\<And>x a. x \<in> set xs \<Longrightarrow> keeps I (f x a)) \<Longrightarrow> keeps I (fold_act f xs a)"
  by (induction xs arbitrary: a) (auto intro: keeps_intros)

lemma keeps_each [keeps_intros]: "(\<And>x. x \<in> set xs \<Longrightarrow> keeps I (f x)) \<Longrightarrow> keeps I (each_act f xs)"
  by (auto simp: each_act_def intro: keeps_fold)

lemma keeps_case_option [keeps_intros]:
  "keeps I m \<Longrightarrow> (\<And>x. keeps I (f x)) \<Longrightarrow> keeps I (case p of None \<Rightarrow> m | Some x \<Rightarrow> f x)"
  by (simp split: option.split)

lemma keeps_case_prod [keeps_intros]: "(\<And>a b. keeps I (f a b)) \<Longrightarrow> keeps I (case p of (a, b) \<Rightarrow> f a b)"
  by (simp split: prod.split)

lemma keeps_Let [keeps_intros]: "keeps I (f x) \<Longrightarrow> keeps I (let y = x in f y)"
  by simp

lemmas flow_intros = keeps_prims keeps_andthen keeps_handle keeps_if keeps_when keeps_fold keeps_each keeps_case_option
  keeps_case_prod keeps_Let

text \<open>A property of the state that an action keeps may be assumed of its result state.\<close>

lemma keeps_result: "keeps I m \<Longrightarrow> I s \<Longrightarrow> I (snd (m s))"
  by (simp add: keeps_def)

end
