(* ===== verification/Ledger.thy ===== *)
theory Ledger imports Effects Schema "HOL-Library.AList" begin

text \<open>
  Models \<open>src/lexwatt/ledger.py\<close>: the tables of a run's journal and of the launch index, the statements the two
  classes execute, and SQLite's transactions around them. A table is the list of its rows by primary key;
  a statement that violates a constraint of the schema (a primary key, \<open>UNIQUE\<close>, the foreign key of the action
  table) raises. The storage itself may fail at any statement: \<open>db_fails\<close> says at which, counted from the
  opening of the database, and is a parameter of every run of the model.

  Results: a keyed table returns what was put and never loses a key; the event log only grows at its head;
  a transaction is installed as a whole or not at all.
\<close>

section \<open>Keyed tables\<close>

type_synonym ('k, 'v) table = "('k \<times> 'v) list"

definition tbl_get :: "('k, 'v) table \<Rightarrow> 'k \<Rightarrow> 'v option" where "tbl_get t k = map_of t k"

text \<open>\<open>INSERT\<close>, \<open>UPDATE ... WHERE id=?\<close> and \<open>INSERT OR REPLACE\<close>.\<close>

definition tbl_insert :: "'k \<Rightarrow> 'v \<Rightarrow> ('k, 'v) table \<Rightarrow> ('k, 'v) table option" where
  "tbl_insert k v t = (if k \<in> fst ` set t then None else Some (t @ [(k, v)]))"

definition tbl_update :: "'k \<Rightarrow> ('v \<Rightarrow> 'v) \<Rightarrow> ('k, 'v) table \<Rightarrow> ('k, 'v) table" where
  "tbl_update k f t = map (\<lambda>kv. if fst kv = k then (fst kv, f (snd kv)) else kv) t"

definition tbl_replace :: "'k \<Rightarrow> 'v \<Rightarrow> ('k, 'v) table \<Rightarrow> ('k, 'v) table" where
  "tbl_replace k v t = AList.update k v t"

text \<open>The contract of a table with a primary key.\<close>

locale keyed_table =
  fixes get :: "'t \<Rightarrow> 'k \<Rightarrow> 'v option" and put :: "'k \<Rightarrow> 'v \<Rightarrow> 't \<Rightarrow> 't option" and set_row :: "'k \<Rightarrow> ('v \<Rightarrow> 'v) \<Rightarrow> 't \<Rightarrow> 't"
  assumes put_get: "put k v t = Some t' \<Longrightarrow> get t' j = (if j = k then Some v else get t j)"
    and put_fresh: "put k v t = None \<longleftrightarrow> get t k \<noteq> None"
    and set_get: "get (set_row k f t) j = (if j = k then map_option f (get t j) else get t j)"
begin

lemma put_once: "put k v t = Some t' \<Longrightarrow> put k w t' = None"
  by (simp add: put_fresh put_get)

lemma put_other: "put k v t = Some t' \<Longrightarrow> j \<noteq> k \<Longrightarrow> get t' j = get t j"
  by (simp add: put_get)

lemma set_absent: "get t k = None \<Longrightarrow> get (set_row k f t) = get t"
  by (auto simp: set_get)

lemma set_keys: "get (set_row k f t) j = None \<longleftrightarrow> get t j = None"
  by (simp add: set_get)

lemma sets_keys: "get (fold (\<lambda>kf. set_row (fst kf) (snd kf)) kfs t) j = None \<longleftrightarrow> get t j = None"
  by (induction kfs arbitrary: t) (simp_all add: set_keys)

lemma put_after_sets: "get t k = None \<Longrightarrow> put k v (fold (\<lambda>kf. set_row (fst kf) (snd kf)) kfs t) \<noteq> None"
  by (simp add: put_fresh sets_keys)

end

lemma map_of_update_rows:
  "map_of (map (\<lambda>kv. if fst kv = k then (fst kv, f (snd kv)) else kv) t) j = (if j = k then map_option f (map_of t j) else map_of t j)"
  by (induction t) auto

interpretation tbl: keyed_table tbl_get tbl_insert tbl_update
proof unfold_locales
  show "tbl_insert k v t = Some t' \<Longrightarrow> tbl_get t' j = (if j = k then Some v else tbl_get t j)" for k v t t' j
    by (auto simp: tbl_insert_def tbl_get_def map_add_def split: if_splits option.split dest: map_of_SomeD)
      (force dest: map_of_SomeD)+
  show "tbl_insert k v t = None \<longleftrightarrow> tbl_get t k \<noteq> None" for k v t
    by (simp add: tbl_insert_def tbl_get_def map_of_eq_None_iff)
  show "tbl_get (tbl_update k f t) j = (if j = k then map_option f (tbl_get t j) else tbl_get t j)" for k f t j
    by (simp add: tbl_update_def tbl_get_def map_of_update_rows)
qed

section \<open>The journal\<close>

record run_record =
  rr_state :: pystr
  rr_config_hash :: pystr
  rr_projection :: bytes
  rr_last_seq :: int
  rr_last_hash :: pystr
  rr_stop_reason :: "pystr option"

record event_row =
  ev_seq :: int
  ev_id :: pystr
  ev_hash :: pystr
  ev_entry :: bytes

record token_record =
  tr_channel :: pystr
  tr_state :: pystr
  tr_action_hash :: pystr
  tr_expires :: pystr
  tr_token :: bytes
  tr_action :: bytes

record action_record =
  ar_token :: pystr
  ar_channel :: pystr
  ar_state :: pystr
  ar_view :: bytes

record compute_record =
  cr_channel :: pystr
  cr_reservation :: bytes

record journal =
  jn_run :: "(pystr, run_record) table"
  jn_event :: "event_row list"
  jn_request :: "(pystr \<times> pystr, pystr \<times> bytes) table"
  jn_token :: "(pystr, token_record) table"
  jn_action :: "(pystr, action_record) table"
  jn_compute :: "(pystr, compute_record) table"
  jn_meta :: "(pystr, bytes) table"

definition JOURNAL_SCHEMA :: journal where
  "JOURNAL_SCHEMA = \<lparr>jn_run = [], jn_event = [], jn_request = [], jn_token = [], jn_action = [], jn_compute = [], jn_meta = []\<rparr>"

section \<open>Connections and transactions\<close>

text \<open>A connection: the committed tables, those of the open transaction, the storage's failures and the number of
  statements so far. Without a transaction a statement commits by itself.\<close>

record 'j conn =
  db_main :: 'j
  db_txn :: "'j option"
  db_fails :: "nat \<Rightarrow> bool"
  db_count :: nat

definition db_view :: "'j conn \<Rightarrow> 'j" where
  "db_view d = (case db_txn d of None \<Rightarrow> db_main d | Some j \<Rightarrow> j)"

definition db_write :: "'j \<Rightarrow> 'j conn \<Rightarrow> 'j conn" where
  "db_write j d = (case db_txn d of None \<Rightarrow> d\<lparr>db_main := j\<rparr> | Some _ \<Rightarrow> d\<lparr>db_txn := Some j\<rparr>)"

definition counted :: "'j conn \<Rightarrow> 'j conn" where "counted d = d\<lparr>db_count := Suc (db_count d)\<rparr>"

definition failing :: "'j conn \<Rightarrow> bool" where "failing d = db_fails d (db_count d)"

text \<open>A query, and a statement that writes (\<open>None\<close>: a constraint is violated).\<close>

definition query :: "('j \<Rightarrow> 'a) \<Rightarrow> ('j conn, 'a) act" where
  "query f d = (if failing d then Inl (Py Sqlite_Error) else Inr (f (db_view d)), counted d)"

definition execute :: "('j \<Rightarrow> 'j option) \<Rightarrow> ('j conn, unit) act" where
  "execute f d =
    (if failing d then (Inl (Py Sqlite_Error), counted d)
     else (case f (db_view d) of
             None \<Rightarrow> (Inl (Py Sqlite_Error), counted d)
           | Some j \<Rightarrow> (Inr (), counted (db_write j d))))"

abbreviation AuditFault :: exn where "AuditFault \<equiv> Lex AUDIT_FAULT"

definition sql_begin :: "('j conn, unit) act" where
  "sql_begin d =
    (if failing d \<or> db_txn d \<noteq> None then (Inl (Py Sqlite_Error), counted d)
     else (Inr (), counted (d\<lparr>db_txn := Some (db_main d)\<rparr>)))"

definition sql_commit :: "('j conn, unit) act" where
  "sql_commit d =
    (if failing d then (Inl (Py Sqlite_Error), counted d)
     else (case db_txn d of
             None \<Rightarrow> (Inl (Py Sqlite_Error), counted d)
           | Some j \<Rightarrow> (Inr (), counted (d\<lparr>db_main := j, db_txn := None\<rparr>))))"

definition sql_rollback :: "('j conn, unit) act" where
  "sql_rollback d =
    (if failing d \<or> db_txn d = None then (Inl (Py Sqlite_Error), counted d) else (Inr (), counted (d\<lparr>db_txn := None\<rparr>)))"

text \<open>The journal's own methods translate the failures.\<close>

definition begin_txn :: "('j conn, unit) act" where "begin_txn = handle_exn sql_begin (\<lambda>_. raise AuditFault)"
definition commit_txn :: "('j conn, unit) act" where "commit_txn = handle_exn sql_commit (\<lambda>_. raise AuditFault)"
definition rollback_txn :: "('j conn, unit) act" where "rollback_txn = handle_exn sql_rollback (\<lambda>_. ret ())"

type_synonym 'a jact = "(journal conn, 'a) act"

section \<open>Statements of the journal\<close>

definition meta_set :: "pystr \<Rightarrow> bytes \<Rightarrow> unit jact" where
  "meta_set key v = execute (\<lambda>j. Some (j\<lparr>jn_meta := tbl_replace key v (jn_meta j)\<rparr>))"

definition meta_get :: "pystr \<Rightarrow> bytes option jact" where
  "meta_get key = query (\<lambda>j. tbl_get (jn_meta j) key)"

definition run_insert :: "pystr \<Rightarrow> pystr \<Rightarrow> pystr \<Rightarrow> bytes \<Rightarrow> unit jact" where
  "run_insert run_id state chash projection = execute (\<lambda>j.
     map_option (\<lambda>t. j\<lparr>jn_run := t\<rparr>)
       (tbl_insert run_id \<lparr>rr_state = state, rr_config_hash = chash, rr_projection = projection, rr_last_seq = 0,
          rr_last_hash = replicate 64 48, rr_stop_reason = None\<rparr> (jn_run j)))"

definition run_update :: "pystr \<Rightarrow> pystr \<Rightarrow> bytes \<Rightarrow> int \<Rightarrow> pystr \<Rightarrow> pystr option \<Rightarrow> unit jact" where
  "run_update run_id state projection last_seq last_hash stop_reason = execute (\<lambda>j.
     Some (j\<lparr>jn_run := tbl_update run_id (\<lambda>r. r\<lparr>rr_state := state, rr_projection := projection, rr_last_seq := last_seq,
       rr_last_hash := last_hash, rr_stop_reason := stop_reason\<rparr>) (jn_run j)\<rparr>))"

definition run_row :: "pystr \<Rightarrow> run_record option jact" where
  "run_row run_id = query (\<lambda>j. tbl_get (jn_run j) run_id)"

definition event_insert :: "event_row \<Rightarrow> journal \<Rightarrow> journal option" where
  "event_insert r j =
    (if ev_seq r \<in> ev_seq ` set (jn_event j) \<or> ev_id r \<in> ev_id ` set (jn_event j) \<or> ev_hash r \<in> ev_hash ` set (jn_event j)
     then None else Some (j\<lparr>jn_event := jn_event j @ [r]\<rparr>))"

definition event_append :: "int \<Rightarrow> pystr \<Rightarrow> pystr \<Rightarrow> bytes \<Rightarrow> unit jact" where
  "event_append seq event_id h entry =
    execute (event_insert \<lparr>ev_seq = seq, ev_id = event_id, ev_hash = h, ev_entry = entry\<rparr>)"

text \<open>\<open>ORDER BY seq\<close>\<close>

definition by_seq :: "journal \<Rightarrow> event_row list" where
  "by_seq j = sort_key ev_seq (jn_event j)"

definition head_of :: "journal \<Rightarrow> int \<times> pystr" where
  "head_of j = (if jn_event j = [] then (0, replicate 64 48) else (ev_seq (last (by_seq j)), ev_hash (last (by_seq j))))"

definition event_head :: "(int \<times> pystr) jact" where "event_head = query head_of"

definition events_from :: "int \<Rightarrow> nat \<Rightarrow> journal \<Rightarrow> bytes list" where
  "events_from after limit j = map ev_entry (take limit (filter (\<lambda>r. ev_seq r > after) (by_seq j)))"

definition events_after :: "int \<Rightarrow> nat \<Rightarrow> bytes list jact" where
  "events_after after limit = query (events_from after limit)"

definition event_count :: "nat jact" where "event_count = query (\<lambda>j. length (jn_event j))"

definition request_get :: "pystr \<Rightarrow> pystr \<Rightarrow> (pystr \<times> bytes) option jact" where
  "request_get who req_id = query (\<lambda>j. tbl_get (jn_request j) (who, req_id))"

definition request_insert :: "pystr \<times> pystr \<Rightarrow> pystr \<times> bytes \<Rightarrow> journal \<Rightarrow> journal option" where
  "request_insert k v j = map_option (\<lambda>t. j\<lparr>jn_request := t\<rparr>) (tbl_insert k v (jn_request j))"

definition request_put :: "pystr \<Rightarrow> pystr \<Rightarrow> pystr \<Rightarrow> bytes \<Rightarrow> unit jact" where
  "request_put who req_id dg response = execute (request_insert (who, req_id) (dg, response))"

definition token_put :: "json \<Rightarrow> pystr \<Rightarrow> bytes \<Rightarrow> bytes \<Rightarrow> unit jact" where
  "token_put token state canonical_token canonical_action = execute (\<lambda>j.
    (let body = fld token ''body''
     in map_option (\<lambda>t. j\<lparr>jn_token := t\<rparr>)
       (tbl_insert (str_of (fld body ''token_id''))
         \<lparr>tr_channel = str_of (fld body ''channel_id''), tr_state = state, tr_action_hash = str_of (fld body ''action_hash''),
          tr_expires = str_of (fld body ''expires_us''), tr_token = canonical_token, tr_action = canonical_action\<rparr> (jn_token j))))"

definition token_state_of :: "pystr \<Rightarrow> pystr option jact" where
  "token_state_of token_id = query (\<lambda>j. map_option tr_state (tbl_get (jn_token j) token_id))"

definition token_set_state :: "pystr \<Rightarrow> pystr \<Rightarrow> unit jact" where
  "token_set_state token_id state = execute (\<lambda>j. Some (j\<lparr>jn_token := tbl_update token_id (\<lambda>r. r\<lparr>tr_state := state\<rparr>) (jn_token j)\<rparr>))"

definition token_row :: "pystr \<Rightarrow> token_record option jact" where
  "token_row token_id = query (\<lambda>j. tbl_get (jn_token j) token_id)"

text \<open>\<open>token_id TEXT NOT NULL UNIQUE REFERENCES token(id)\<close>\<close>

definition action_put :: "pystr \<Rightarrow> pystr \<Rightarrow> pystr \<Rightarrow> pystr \<Rightarrow> bytes \<Rightarrow> unit jact" where
  "action_put action_id token_id channel_id state view = execute (\<lambda>j.
    (if tbl_get (jn_token j) token_id = None \<or> token_id \<in> (\<lambda>ka. ar_token (snd ka)) ` set (jn_action j) then None
     else map_option (\<lambda>t. j\<lparr>jn_action := t\<rparr>)
       (tbl_insert action_id \<lparr>ar_token = token_id, ar_channel = channel_id, ar_state = state, ar_view = view\<rparr> (jn_action j))))"

definition action_set :: "pystr \<Rightarrow> pystr \<Rightarrow> bytes \<Rightarrow> unit jact" where
  "action_set action_id state view = execute (\<lambda>j.
     Some (j\<lparr>jn_action := tbl_update action_id (\<lambda>r. r\<lparr>ar_state := state, ar_view := view\<rparr>) (jn_action j)\<rparr>))"

definition action_row :: "pystr \<Rightarrow> action_record option jact" where
  "action_row action_id = query (\<lambda>j. tbl_get (jn_action j) action_id)"

definition compute_put :: "pystr \<Rightarrow> pystr \<Rightarrow> bytes \<Rightarrow> unit jact" where
  "compute_put compute_id channel_id res = execute (\<lambda>j.
     map_option (\<lambda>t. j\<lparr>jn_compute := t\<rparr>) (tbl_insert compute_id \<lparr>cr_channel = channel_id, cr_reservation = res\<rparr> (jn_compute j)))"

definition compute_set :: "pystr \<Rightarrow> bytes \<Rightarrow> unit jact" where
  "compute_set compute_id res = execute (\<lambda>j.
     Some (j\<lparr>jn_compute := tbl_update compute_id (\<lambda>r. r\<lparr>cr_reservation := res\<rparr>) (jn_compute j)\<rparr>))"

definition compute_row :: "pystr \<Rightarrow> compute_record option jact" where
  "compute_row compute_id = query (\<lambda>j. tbl_get (jn_compute j) compute_id)"

section \<open>The launch index\<close>

record launch_row =
  lr_digest :: pystr
  lr_config_hash :: pystr
  lr_run_id :: pystr
  lr_response :: "bytes option"

type_synonym launches = "(int \<times> pystr, launch_row) table"
type_synonym 'a lact = "(launches conn, 'a) act"

definition launch_get :: "int \<Rightarrow> pystr \<Rightarrow> launch_row option lact" where
  "launch_get owner_uid request_id = query (\<lambda>t. tbl_get t (owner_uid, request_id))"

text \<open>\<open>run_id TEXT NOT NULL UNIQUE\<close>\<close>

definition launch_insert :: "int \<times> pystr \<Rightarrow> launch_row \<Rightarrow> launches \<Rightarrow> launches option" where
  "launch_insert k r t = (if lr_run_id r \<in> (\<lambda>kr. lr_run_id (snd kr)) ` set t then None else tbl_insert k r t)"

definition reserve :: "int \<Rightarrow> pystr \<Rightarrow> pystr \<Rightarrow> pystr \<Rightarrow> pystr \<Rightarrow> unit lact" where
  "reserve owner_uid request_id dg chash run_id = execute (launch_insert (owner_uid, request_id)
     \<lparr>lr_digest = dg, lr_config_hash = chash, lr_run_id = run_id, lr_response = None\<rparr>)"

definition store_response :: "int \<Rightarrow> pystr \<Rightarrow> bytes \<Rightarrow> unit lact" where
  "store_response owner_uid request_id response =
    execute (\<lambda>t. Some (tbl_update (owner_uid, request_id) (\<lambda>r. r\<lparr>lr_response := Some response\<rparr>) t))"

section \<open>Statements and transactions\<close>

lemma conn_sel [simp]:
  "db_main (counted d) = db_main d" "db_txn (counted d) = db_txn d" "db_view (counted d) = db_view d"
  by (simp_all add: counted_def db_view_def split: option.split)

lemma db_write_sel [simp]:
  "db_view (db_write j d) = j" "db_txn (db_write j d) = None \<longleftrightarrow> db_txn d = None"
  "db_txn d \<noteq> None \<Longrightarrow> db_main (db_write j d) = db_main d"
  by (auto simp: db_write_def db_view_def split: option.split)

text \<open>Inside a transaction no statement touches the committed tables.\<close>

definition in_txn :: "'j \<Rightarrow> 'j conn \<Rightarrow> bool" where
  "in_txn M d \<longleftrightarrow> db_main d = M \<and> db_txn d \<noteq> None"

lemma in_txn_query [keeps_intros]: "keeps (in_txn M) (query f)"
  by (auto simp: keeps_def query_def in_txn_def)

lemma in_txn_execute [keeps_intros]: "keeps (in_txn M) (execute f)"
  by (auto simp: keeps_def execute_def in_txn_def db_write_def split: option.split)

lemma execute_Inr:
  "execute f d = (Inr u, d') \<Longrightarrow> \<exists>j. f (db_view d) = Some j \<and> db_view d' = j \<and> (db_txn d' = None \<longleftrightarrow> db_txn d = None)"
  by (auto simp: execute_def split: if_splits option.splits)

lemma query_Inr: "query f d = (Inr x, d') \<Longrightarrow> x = f (db_view d) \<and> db_view d' = db_view d \<and> db_txn d' = db_txn d"
  by (auto simp: query_def split: if_splits)

lemma begin_txn_cases:
  assumes "begin_txn d = (r, d')"
  obtains "r = Inl AuditFault" "db_main d' = db_main d" "db_txn d' = db_txn d"
    | "r = Inr ()" "in_txn (db_main d) d'" "db_view d' = db_main d" "db_txn d = None"
  using assms by (auto simp: begin_txn_def handle_exn_def sql_begin_def raise_def in_txn_def db_view_def split: if_splits)

lemma commit_txn_cases:
  assumes "commit_txn d = (r, d')" "in_txn M d"
  obtains "r = Inl AuditFault" "in_txn M d'" | "r = Inr ()" "db_main d' = db_view d" "db_txn d' = None"
  using assms by (auto simp: commit_txn_def handle_exn_def sql_commit_def raise_def in_txn_def db_view_def split: if_splits)

lemma rollback_txn_main: "rollback_txn d = (r, d') \<Longrightarrow> r = Inr () \<and> db_main d' = db_main d"
  by (auto simp: rollback_txn_def handle_exn_def sql_rollback_def ret_def split: if_splits prod.splits)

section \<open>The event log\<close>

text \<open>The contract of an append-only log numbered from one: the head is the last row, and a row with the next number
  goes to the end.\<close>

locale event_log =
  fixes head :: "'j \<Rightarrow> int \<times> pystr" and append_row :: "event_row \<Rightarrow> 'j \<Rightarrow> 'j option" and rows :: "'j \<Rightarrow> event_row list"
    and log_good :: "'j \<Rightarrow> bool"
  assumes head_rows: "log_good j \<Longrightarrow>
      head j = (int (length (rows j)), if rows j = [] then replicate 64 48 else ev_hash (last (rows j)))"
    and append_rows: "log_good j \<Longrightarrow> ev_seq r = fst (head j) + 1 \<Longrightarrow> append_row r j = Some j' \<Longrightarrow>
      log_good j' \<and> rows j' = rows j @ [r]"
begin

lemma head_after: "log_good j \<Longrightarrow> ev_seq r = fst (head j) + 1 \<Longrightarrow> append_row r j = Some j' \<Longrightarrow> head j' = (ev_seq r, ev_hash r)"
  using append_rows [of j r j'] head_rows [of j] head_rows [of j'] by simp

lemma head_count: "log_good j \<Longrightarrow> fst (head j) = int (length (rows j))"
  by (simp add: head_rows)

end

definition log_ok :: "journal \<Rightarrow> bool" where
  "log_ok j \<longleftrightarrow> (\<forall>i < length (jn_event j). ev_seq (jn_event j ! i) = int i + 1)"

lemma log_ok_sorted: "log_ok j \<Longrightarrow> by_seq j = jn_event j"
  unfolding by_seq_def by (rule sort_key_id_if_sorted) (auto simp: log_ok_def sorted_iff_nth_mono)

lemma log_ok_head:
  assumes "log_ok j"
  shows "head_of j = (int (length (jn_event j)), if jn_event j = [] then replicate 64 48 else ev_hash (last (jn_event j)))"
proof (cases "jn_event j" rule: rev_cases)
  case (snoc rs r)
  then show ?thesis
    using assms [unfolded log_ok_def, rule_format, of "length rs"] by (simp add: head_of_def log_ok_sorted [OF assms])
qed (simp add: head_of_def)

lemma log_ok_append: "log_ok j \<Longrightarrow> ev_seq r = int (length (jn_event j)) + 1 \<Longrightarrow> log_ok (j\<lparr>jn_event := jn_event j @ [r]\<rparr>)"
  by (auto simp: log_ok_def nth_append less_Suc_eq)

interpretation log: event_log head_of event_insert jn_event log_ok
  by unfold_locales (auto simp: log_ok_head event_insert_def log_ok_append split: if_splits)

lemma log_ok_events_from: "log_ok j \<Longrightarrow> events_from (int n) limit j = map ev_entry (take limit (drop n (jn_event j)))"
proof -
  assume ok: "log_ok j"
  have "filter (\<lambda>r. ev_seq r > int n) (jn_event j) = drop n (jn_event j)"
    using ok unfolding log_ok_def
  proof (induction "jn_event j" arbitrary: j rule: rev_induct)
    case (snoc r rs)
    have j: "jn_event j = rs @ [r]" using snoc.hyps(2) by simp
    have "ev_seq r = int (length rs) + 1"
      using snoc.prems [rule_format, of "length rs"] by (simp add: j)
    moreover have "filter (\<lambda>r. ev_seq r > int n) rs = drop n rs"
      using snoc.hyps(1) [of "j\<lparr>jn_event := rs\<rparr>"] snoc.prems by (auto simp: j nth_append split: if_splits)
    ultimately show ?case by (auto simp: j)
  qed simp
  then show ?thesis by (simp add: events_from_def log_ok_sorted [OF ok])
qed

end
