(* ===== verification/Config.thy ===== *)
theory Config imports SchemaEvents IpaddrRoundtrip "HOL-Library.Product_Lexorder" begin

text \<open>
  Models \<open>src/lexwatt/config.py\<close>. A file is its content (\<open>None\<close>: it cannot be read); \<open>os.path.realpath\<close> and the
  hash of a model file are parameters, \<open>os.path.normpath\<close> is modelled.

  Results: the canonical form, and with it the configuration hash, does not depend on the order of the model
  catalog and of the destinations; budget overrides only tighten, and touch nothing but the budgets; a workspace
  root that resolves is one of the approved roots, reached without a symbolic link.
\<close>

section \<open>Files\<close>

definition load_json_file :: "bytes option \<Rightarrow> exn + json" where
  "load_json_file content = (case content of None \<Rightarrow> bad | Some data \<Rightarrow> loads data)"

definition load_config :: "bytes option \<Rightarrow> exn + json" where
  "load_config content = bindE (load_json_file content) check_config"

definition load_host_policy :: "bytes option \<Rightarrow> exn + json" where
  "load_host_policy content = bindE (load_json_file content) (\<lambda>hp. bindE (check_host_policy hp) (\<lambda>_. Inr hp))"

definition load_model_map :: "bytes option \<Rightarrow> exn + json" where
  "load_model_map content = bindE (load_json_file content) (\<lambda>mm. bindE (check_model_path_map mm) (\<lambda>_. Inr mm))"

section \<open>Canonical forms\<close>

definition by_text :: "string \<Rightarrow> json list \<Rightarrow> json list" where
  "by_text k = sort_key (\<lambda>v. str_of (fld v k))"

definition canonicalize_config :: "json \<Rightarrow> json" where
  "canonicalize_config cfg =
    JObj (set_item (set_item (dict_of cfg) ''model_catalog'' (JArr (by_text ''id'' (arr_of (fld cfg ''model_catalog'')))))
      ''network'' (JArr (sort_key (\<lambda>d. (str_of (fld d ''origin''), str_of (fld d ''path''))) (arr_of (fld cfg ''network'')))))"

definition effective_config_hash :: "json \<Rightarrow> exn + pystr" where
  "effective_config_hash cfg = config_hash (canonicalize_config cfg)"

definition canonicalize_host_policy :: "json \<Rightarrow> json" where
  "canonicalize_host_policy hp =
    JObj (set_item (set_item (dict_of hp) ''workspace_roots'' (JArr (sort_key str_of (arr_of (fld hp ''workspace_roots'')))))
      ''domains'' (JArr (by_text ''id'' (arr_of (fld hp ''domains'')))))"

section \<open>Overrides\<close>

definition tighten_u :: "json \<Rightarrow> json \<Rightarrow> exn + json" where
  "tighten_u cfg_val override =
    bindE (parse_u override) (\<lambda>ov.
      if cfg_val = JNull then Inr override
      else bindE (parse_u cfg_val) (\<lambda>c. if ov > c then bad else Inr override))"

definition tighten_budget :: "dict \<Rightarrow> string \<Rightarrow> dict \<Rightarrow> exn + dict" where
  "tighten_budget overrides k b =
    (case map_of overrides (lit k) of
       None \<Rightarrow> Inr b
     | Some x \<Rightarrow> bindE (tighten_u (fld (JObj b) k) x) (\<lambda>y. Inr (set_item b k y)))"

definition tighten_spawns :: "dict \<Rightarrow> dict \<Rightarrow> exn + dict" where
  "tighten_spawns overrides b =
    (case map_of overrides (lit ''spawns'') of
       None \<Rightarrow> Inr b
     | Some x \<Rightarrow> if int_of x > int_of (fld (JObj b) ''spawns'') then bad else Inr (set_item b ''spawns'' x))"

definition apply_overrides :: "json \<Rightarrow> dict \<Rightarrow> exn + json" where
  "apply_overrides cfg overrides =
    bindE (tighten_budget overrides ''max_flops'' (dict_of (fld cfg ''budgets''))) (\<lambda>b1.
    bindE (tighten_budget overrides ''max_energy_uj'' b1) (\<lambda>b2.
    bindE (tighten_spawns overrides b2) (\<lambda>b3.
    bindE (tighten_budget overrides ''max_wall_us'' b3) (\<lambda>b4.
      check_config (JObj (set_item (dict_of cfg) ''budgets'' (JObj b4)))))))"

section \<open>Workspace roots\<close>

text \<open>\<open>os.path.normpath\<close>: empty and \<open>.\<close> components vanish, \<open>..\<close> takes away the one before it.\<close>

fun norm_comps :: "bool \<Rightarrow> pystr list \<Rightarrow> pystr list \<Rightarrow> pystr list" where
  "norm_comps rooted acc [] = rev acc"
| "norm_comps rooted acc (c # cs) =
    (if c = [] \<or> c = [46] then norm_comps rooted acc cs
     else if c \<noteq> [46, 46] \<or> (\<not> rooted \<and> acc = []) \<or> (acc \<noteq> [] \<and> hd acc = [46, 46]) then norm_comps rooted (c # acc) cs
     else norm_comps rooted (tl acc) cs)"

fun join_slash :: "pystr list \<Rightarrow> pystr" where
  "join_slash [] = []"
| "join_slash [c] = c"
| "join_slash (c # cs) = c @ 47 # join_slash cs"

definition lead_slashes :: "pystr \<Rightarrow> nat" where
  "lead_slashes p = (if take 1 p \<noteq> [47] then 0 else if take 2 p = [47, 47] \<and> take 3 p \<noteq> [47, 47, 47] then 2 else 1)"

definition normpath :: "pystr \<Rightarrow> pystr" where
  "normpath p =
    (if p = [] then [46]
     else (let s = lead_slashes p; q = replicate s 47 @ join_slash (norm_comps (0 < s) [] (split_on 47 p))
           in if q = [] then [46] else q))"

text \<open>\<open>realpath\<close> of a path, \<open>None\<close> for an \<open>OSError\<close>.\<close>

definition resolve_workspace_root :: "(pystr \<Rightarrow> pystr option) \<Rightarrow> pystr \<Rightarrow> json \<Rightarrow> exn + pystr" where
  "resolve_workspace_root realpath workspace_root host_policy =
    (case realpath workspace_root of
       None \<Rightarrow> bad
     | Some real \<Rightarrow>
         (if normpath workspace_root \<noteq> real then Inl (Lex CONTAINMENT_FAULT)
          else if length (filter (\<lambda>r. normpath (str_of r) = real) (arr_of (fld host_policy ''workspace_roots''))) \<noteq> 1
          then Inl (Lex CONTAINMENT_FAULT)
          else Inr real))"

section \<open>Model files\<close>

definition verify_catalog_digests :: "(json \<Rightarrow> exn + pystr) \<Rightarrow> json \<Rightarrow> dict \<Rightarrow> exn + unit" where
  "verify_catalog_digests hash_file cfg model_map =
    (let cat = arr_of (fld cfg ''model_catalog'')
     in if set (map (\<lambda>kv. JStr (fst kv)) model_map) \<noteq> set (map (\<lambda>m. fld m ''id'') cat) then bad
        else eachE (\<lambda>m.
          (let paths = (case map_of model_map (str_of (fld m ''id'')) of None \<Rightarrow> JNull | Some p \<Rightarrow> p)
           in bindE (hash_file (fld paths ''artifact_path'')) (\<lambda>a.
              bindE (requireE (JStr a = fld m ''artifact_hash'') (Lex INVALID_INPUT)) (\<lambda>_.
              bindE (hash_file (fld paths ''tokenizer_path'')) (\<lambda>t.
                requireE (JStr t = fld m ''tokenizer_hash'') (Lex INVALID_INPUT)))))) cat)"

definition model_files_for :: "json \<Rightarrow> dict \<Rightarrow> exn + json" where
  "model_files_for cfg model_map =
    bindE (mapE (\<lambda>m.
      bindE (dict_item model_map (str_of (fld m ''id''))) (\<lambda>paths.
        Inr (JObj [(lit ''model_id'', fld m ''id''), (lit ''artifact_path'', fld paths ''artifact_path''),
                   (lit ''tokenizer_path'', fld paths ''tokenizer_path'')])))
      (arr_of (fld cfg ''model_catalog''))) (\<lambda>fs. Inr (JArr (by_text ''model_id'' fs)))"

section \<open>What overrides can do\<close>

definition within :: "json \<Rightarrow> json \<Rightarrow> bool" where
  "within new old \<longleftrightarrow> old = JNull \<or> (new \<noteq> JNull \<and> u_of new \<le> u_of old)"

lemma within_refl [simp]: "within x x"
  by (simp add: within_def)

lemma parse_u_not_null: "parse_u x = Inr n \<Longrightarrow> x \<noteq> JNull \<and> u_of x = n"
  by (cases x) (auto simp: parse_u_def check_u_def u_of_def str_of_def result_simps split: if_splits)

lemma tighten_u_within: "tighten_u old x = Inr y \<Longrightarrow> y = x \<and> within y old"
  by (auto simp: tighten_u_def within_def result_simps split: if_splits dest!: parse_u_not_null)

lemma tighten_budget_fields:
  assumes "tighten_budget ov k b = Inr b'"
  shows "within (fld (JObj b') k) (fld (JObj b) k)" "j \<noteq> k \<Longrightarrow> fld (JObj b') j = fld (JObj b) j"
proof -
  have "(\<exists>y. b' = set_item b k y \<and> within y (fld (JObj b) k)) \<or> b' = b"
    using assms by (auto simp: tighten_budget_def result_simps dest: tighten_u_within split: option.splits)
  then show "within (fld (JObj b') k) (fld (JObj b) k)" "j \<noteq> k \<Longrightarrow> fld (JObj b') j = fld (JObj b) j"
    by (auto simp: fld_set_item)
qed

lemma tighten_spawns_fields:
  assumes "tighten_spawns ov b = Inr b'"
  shows "int_of (fld (JObj b') ''spawns'') \<le> int_of (fld (JObj b) ''spawns'')" "j \<noteq> ''spawns'' \<Longrightarrow> fld (JObj b') j = fld (JObj b) j"
proof -
  have "(\<exists>y. b' = set_item b ''spawns'' y \<and> int_of y \<le> int_of (fld (JObj b) ''spawns'')) \<or> b' = b"
    using assms by (auto simp: tighten_spawns_def split: option.splits if_splits)
  then show "int_of (fld (JObj b') ''spawns'') \<le> int_of (fld (JObj b) ''spawns'')" "j \<noteq> ''spawns'' \<Longrightarrow> fld (JObj b') j = fld (JObj b) j"
    by (auto simp: fld_set_item)
qed

lemma set_item_keys: "fst ` set (set_item d k x) = fst ` set d"
  by (induction d) (simp_all add: set_item_def)

lemma tighten_budget_keys: "tighten_budget ov k b = Inr b' \<Longrightarrow> fst ` set b' = fst ` set b"
  by (clarsimp simp: tighten_budget_def result_simps set_item_keys split: option.splits)

lemma tighten_spawns_keys: "tighten_spawns ov b = Inr b' \<Longrightarrow> fst ` set b' = fst ` set b"
  by (clarsimp simp: tighten_spawns_def set_item_keys split: option.splits if_splits)

lemma tighten_budget_value:
  assumes "tighten_budget ov k b = Inr b'" "lit k \<in> fst ` set b"
  shows "fld (JObj b') k = (case map_of ov (lit k) of None \<Rightarrow> fld (JObj b) k | Some x \<Rightarrow> x)"
proof (cases "map_of ov (lit k)")
  case (Some x)
  then obtain y where "tighten_u (fld (JObj b) k) x = Inr y" "b' = set_item b k y" using assms(1) by (auto simp: tighten_budget_def result_simps)
  then show ?thesis using assms(2) Some tighten_u_within by (simp add: fld_set_item)
qed (use assms(1) in \<open>simp add: tighten_budget_def\<close>)

lemma tighten_spawns_value:
  assumes "tighten_spawns ov b = Inr b'" "lit ''spawns'' \<in> fst ` set b"
  shows "fld (JObj b') ''spawns'' = (case map_of ov (lit ''spawns'') of None \<Rightarrow> fld (JObj b) ''spawns'' | Some x \<Rightarrow> x)"
proof (cases "map_of ov (lit ''spawns'')")
  case (Some x)
  then have "b' = set_item b ''spawns'' x" using assms(1) by (simp add: tighten_spawns_def split: if_splits)
  then show ?thesis using assms(2) Some by (simp add: fld_set_item)
qed (use assms(1) in \<open>simp add: tighten_spawns_def\<close>)

lemma check_config_result: "check_config v = Inr v' \<Longrightarrow> k \<noteq> ''network'' \<Longrightarrow> fld v' k = fld v k"
  by (auto simp: check_config_def result_simps fld_set_item fld_dict_of)

section \<open>Order of the catalog and the destinations\<close>

lemma sort_key_perm:
  assumes "mset xs = mset ys" "distinct (map f xs)"
  shows "sort_key f xs = sort_key f ys"
proof (rule map_sorted_distinct_set_unique)
  have set_eq: "set ys = set xs" using assms(1) by (metis set_mset_mset)
  have dist: "distinct xs" "inj_on f (set xs)" using assms(2) by (simp_all add: distinct_map)
  then have "distinct ys" using assms(1) by (metis mset_eq_imp_distinct_iff)
  then show "distinct (map f (sort_key f xs))" "distinct (map f (sort_key f ys))"
    "inj_on f (set (sort_key f xs) \<union> set (sort_key f ys))"
    using dist by (simp_all add: distinct_map set_eq)
  show "set (sort_key f xs) = set (sort_key f ys)" by (simp add: set_eq)
qed simp_all

lemma set_item_twice: "set_item (set_item d k x) k y = set_item d k y"
  by (simp add: set_item_def)

lemma set_item_commute: "j \<noteq> k \<Longrightarrow> set_item (set_item d j x) k y = set_item (set_item d k y) j x"
  by (simp add: set_item_def)

lemma dict_of_JObj [simp]: "dict_of (JObj d) = d"
  by (simp add: dict_of_def)

lemma distinct_texts:
  assumes "distinct (map f xs)" "\<And>x. x \<in> set xs \<Longrightarrow> f x = JStr (str_of (f x))"
  shows "distinct (map (\<lambda>x. str_of (f x)) xs)"
  using assms by (auto simp: distinct_map inj_on_def) metis

lemma check_model_id: "check_model m = Inr () \<Longrightarrow> fld m ''id'' = JStr (str_of (fld m ''id''))"
proof -
  assume "check_model m = Inr ()"
  then have "chk check_model_name (fld m ''id'') = Inr ()"
    unfolding check_model_def by (auto simp: result_simps Let_def intro: closed_fld)
  then show ?thesis by (cases "fld m ''id''") (simp_all add: chk_def check_model_name_def str_of_def)
qed

definition dest_key :: "json \<Rightarrow> json \<times> json" where
  "dest_key d = (fld d ''origin'', fld d ''path'')"

lemma check_destination_key:
  assumes "check_destination n = Inr n'"
  shows "dest_key n' = dest_key n" "fst (dest_key n) = JStr (str_of (fst (dest_key n)))"
    "snd (dest_key n) = JStr (str_of (snd (dest_key n)))"
proof -
  have c: "closed [(''origin'', chk check_origin), (''path'', chk check_http_path), (''ips'', is_arr),
      (''max_response_bytes'', is_int)] n = Inr ()" and "\<exists>x. n' = JObj (set_item (dict_of n) ''ips'' x)"
    using assms by (auto simp: check_destination_def result_simps Let_def split: if_splits)
  then show "dest_key n' = dest_key n" by (auto simp: dest_key_def fld_set_item fld_dict_of)
  have "chk check_origin (fld n ''origin'') = Inr ()" "chk check_http_path (fld n ''path'') = Inr ()"
    using closed_fld(1) [OF c] by simp_all
  then show "fst (dest_key n) = JStr (str_of (fst (dest_key n)))" "snd (dest_key n) = JStr (str_of (snd (dest_key n)))"
    by (cases "fld n ''origin''"; cases "fld n ''path''";
        simp add: dest_key_def chk_def check_origin_def check_text_def check_text_max_def check_http_path_def str_of_def)+
qed

lemma check_network_keys:
  "check_network ns pairs = Inr net \<Longrightarrow> distinct (map dest_key net) \<and> set (map dest_key net) \<inter> set pairs = {} \<and>
     (\<forall>d \<in> set net. fst (dest_key d) = JStr (str_of (fst (dest_key d))) \<and> snd (dest_key d) = JStr (str_of (snd (dest_key d))))"
proof (induction ns pairs arbitrary: net rule: check_network.induct)
  case (2 n ns pairs)
  then obtain n' net' where n: "check_destination n = Inr n'" "dest_key n \<notin> set pairs"
      "check_network ns (dest_key n # pairs) = Inr net'" "net = n' # net'"
    by (auto simp: result_simps dest_key_def split: if_splits)
  note ih = "2.IH" [OF n(1) _ n(3) [unfolded dest_key_def]]
  have "distinct (map dest_key net') \<and> set (map dest_key net') \<inter> set (dest_key n # pairs) = {} \<and>
     (\<forall>d \<in> set net'. fst (dest_key d) = JStr (str_of (fst (dest_key d))) \<and> snd (dest_key d) = JStr (str_of (snd (dest_key d))))"
    using ih n(2) unfolding dest_key_def [symmetric] by simp
  then show ?case using n(2) check_destination_key [OF n(1)] by (simp add: n(4))
qed simp

lemma check_config_lists:
  assumes "check_config c0 = Inr cfg"
  shows "distinct (map (\<lambda>m. str_of (fld m ''id'')) (arr_of (fld cfg ''model_catalog'')))"
    "distinct (map (\<lambda>d. (str_of (fld d ''origin''), str_of (fld d ''path''))) (arr_of (fld cfg ''network'')))"
proof -
  obtain net where c: "closed config_fields c0 = Inr ()" "check_catalog (arr_of (fld c0 ''model_catalog'')) [] = Inr ()"
      "check_network (arr_of (fld c0 ''network'')) [] = Inr net" "cfg = JObj (set_item (dict_of c0) ''network'' (JArr net))"
    using assms by (auto simp: check_config_def result_simps)
  have "has_key c0 ''network''" by (rule closed_fld(2) [OF c(1)]) (simp add: config_fields_def)
  then have f: "fld cfg ''network'' = JArr net" "fld cfg ''model_catalog'' = fld c0 ''model_catalog''"
    unfolding c(4) fld_set_item fld_dict_of by (auto simp: has_key_def dest: map_of_key)
  have "distinct (map (\<lambda>m. fld m ''id'') (arr_of (fld c0 ''model_catalog'')))"
    using check_catalog_distinct [OF c(2)] by simp
  then show "distinct (map (\<lambda>m. str_of (fld m ''id'')) (arr_of (fld cfg ''model_catalog'')))"
    unfolding f using check_catalog_distinct [OF c(2)] check_model_id by (intro distinct_texts) auto
  have "inj_on (\<lambda>k. (str_of (fst k), str_of (snd k))) (dest_key ` set net)"
    using check_network_keys [OF c(3)] by (auto simp: inj_on_def prod_eq_iff) metis+
  then show "distinct (map (\<lambda>d. (str_of (fld d ''origin''), str_of (fld d ''path''))) (arr_of (fld cfg ''network'')))"
    using check_network_keys [OF c(3)]
    by (simp add: f arr_of_def distinct_map comp_inj_on_iff dest_key_def [abs_def] comp_def)
qed

section \<open>A validated configuration stays as it is\<close>

lemma public_ip_texts:
  assumes "mapE check_public_ip ips = Inr addrs" "mapE check_public_ip (map (\<lambda>i. JStr (ip_str i)) addrs) = Inr addrs'"
  shows "addrs' = addrs"
proof -
  have ok: "ip_ok i" if "check_public_ip v = Inr i" for v i
    using that ip_address_ok by (auto simp: check_public_ip_def split: json.splits option.splits if_splits)
  have stable: "ip_ok i \<Longrightarrow> check_public_ip (JStr (ip_str i)) = Inr i' \<Longrightarrow> i' = i" for i i'
    using ip_roundtrip by (auto simp: check_public_ip_def split: if_splits)
  show ?thesis using assms
  proof (induction ips arbitrary: addrs addrs')
    case (Cons v ips)
    obtain i iz where i: "check_public_ip v = Inr i" "mapE check_public_ip ips = Inr iz" "addrs = i # iz"
      using Cons.prems(1) by (auto simp: result_simps)
    then obtain i' iz' where i': "check_public_ip (JStr (ip_str i)) = Inr i'" "mapE check_public_ip (map (\<lambda>i. JStr (ip_str i)) iz) = Inr iz'" "addrs' = i' # iz'"
      using Cons.prems(2) by (auto simp: result_simps)
    show ?case using Cons.IH [OF i(2) i'(2)] stable [OF ok [OF i(1)] i'(1)] i(3) i'(3) by simp
  qed simp
qed

lemma check_destination_result:
  assumes "check_destination n = Inr n'"
  obtains addrs where "mapE check_public_ip (arr_of (fld n ''ips'')) = Inr addrs"
    "n' = JObj (set_item (dict_of n) ''ips'' (JArr (map (\<lambda>i. JStr (ip_str i)) addrs)))" "lit ''ips'' \<in> fst ` set (dict_of n)"
proof -
  obtain addrs where a: "closed [(''origin'', chk check_origin), (''path'', chk check_http_path), (''ips'', is_arr), (''max_response_bytes'', is_int)] n = Inr ()"
      "mapE check_public_ip (arr_of (fld n ''ips'')) = Inr addrs" "n' = JObj (set_item (dict_of n) ''ips'' (JArr (map (\<lambda>i. JStr (ip_str i)) addrs)))"
    using assms by (auto simp: check_destination_def result_simps Let_def comp_def split: if_splits)
  have "lit ''ips'' \<in> fst ` set (dict_of n)" unfolding closed_keys [OF a(1)] by simp
  with a(2,3) show thesis by (rule that)
qed

lemma check_destination_again:
  assumes "check_destination n = Inr n'" "check_destination n' = Inr n''"
  shows "n'' = n'"
proof -
  obtain addrs where a: "mapE check_public_ip (arr_of (fld n ''ips'')) = Inr addrs"
      "n' = JObj (set_item (dict_of n) ''ips'' (JArr (map (\<lambda>i. JStr (ip_str i)) addrs)))" "lit ''ips'' \<in> fst ` set (dict_of n)"
    by (rule check_destination_result [OF assms(1)])
  obtain addrs' where a': "mapE check_public_ip (arr_of (fld n' ''ips'')) = Inr addrs'"
      "n'' = JObj (set_item (dict_of n') ''ips'' (JArr (map (\<lambda>i. JStr (ip_str i)) addrs')))"
    by (rule check_destination_result [OF assms(2)])
  have "fld n' ''ips'' = JArr (map (\<lambda>i. JStr (ip_str i)) addrs)" using a(3) by (simp add: a(2) fld_set_item)
  then have "addrs' = addrs" using public_ip_texts [OF a(1)] a'(1) by (simp add: arr_of_def)
  then show ?thesis by (simp add: a'(2) a(2) set_item_twice)
qed

lemma check_network_again:
  "check_network ns pairs = Inr net \<Longrightarrow> check_network net pairs' = Inr net' \<Longrightarrow> net' = net"
proof (induction ns pairs arbitrary: net net' pairs' rule: check_network.induct)
  case (2 n ns pairs)
  then obtain n' nt where n: "check_destination n = Inr n'" "(fld n ''origin'', fld n ''path'') \<notin> set pairs"
      "check_network ns ((fld n ''origin'', fld n ''path'') # pairs) = Inr nt" "net = n' # nt"
    by (auto simp: result_simps split: if_splits)
  then obtain n'' nt' where n': "check_destination n' = Inr n''" "check_network nt ((fld n' ''origin'', fld n' ''path'') # pairs') = Inr nt'" "net' = n'' # nt'"
    using "2.prems"(2) by (auto simp: result_simps split: if_splits)
  show ?case using "2.IH" [OF n(1,2,3) n'(2)] check_destination_again [OF n(1) n'(1)] n(4) n'(3) by simp
qed simp

lemma check_config_network:
  assumes "check_config v = Inr v'"
  obtains net where "check_network (arr_of (fld v ''network'')) [] = Inr net" "fld v' ''network'' = JArr net"
    "closed config_fields v = Inr ()" "v' = JObj (set_item (dict_of v) ''network'' (JArr net))"
proof -
  obtain net where c: "closed config_fields v = Inr ()" "check_network (arr_of (fld v ''network'')) [] = Inr net"
      "v' = JObj (set_item (dict_of v) ''network'' (JArr net))"
    using assms by (auto simp: check_config_def result_simps)
  have "lit ''network'' \<in> fst ` set (dict_of v)" unfolding closed_keys [OF c(1)] by (simp add: config_fields_def)
  then have "fld v' ''network'' = JArr net" by (simp add: c(3) fld_set_item)
  with c show thesis by (intro that)
qed

section \<open>Properties\<close>

text \<open>C20: overrides only tighten. If a validated configuration accepts overrides, each of the four budgets of the result is the
  override where there is one and the configured budget where there is none, and is within the configured one (a null cap may be
  enabled, never lifted); and every field of the configuration but the budgets, the destinations included, is unchanged.\<close>

theorem overrides_only_tighten:
  assumes "check_config c0 = Inr cfg" "apply_overrides cfg ov = Inr out"
  shows "(\<forall>k \<in> set [''max_flops'', ''max_energy_uj'', ''spawns'', ''max_wall_us''].
      fld (fld out ''budgets'') k = (case map_of ov (lit k) of None \<Rightarrow> fld (fld cfg ''budgets'') k | Some x \<Rightarrow> x)) \<and>
    (\<forall>k \<in> {''max_flops'', ''max_energy_uj'', ''max_wall_us''}. within (fld (fld out ''budgets'') k) (fld (fld cfg ''budgets'') k)) \<and>
    int_of (fld (fld out ''budgets'') ''spawns'') \<le> int_of (fld (fld cfg ''budgets'') ''spawns'') \<and>
    (\<forall>k. k \<noteq> ''budgets'' \<longrightarrow> fld out k = fld cfg k)"
proof -
  let ?B = "fld cfg ''budgets''"
  obtain net where c: "check_network (arr_of (fld c0 ''network'')) [] = Inr net" "fld cfg ''network'' = JArr net" "closed config_fields c0 = Inr ()"
      "cfg = JObj (set_item (dict_of c0) ''network'' (JArr net))" by (rule check_config_network [OF assms(1)])
  obtain b1 b2 b3 b4 where b: "tighten_budget ov ''max_flops'' (dict_of ?B) = Inr b1"
      "tighten_budget ov ''max_energy_uj'' b1 = Inr b2" "tighten_spawns ov b2 = Inr b3" "tighten_budget ov ''max_wall_us'' b3 = Inr b4"
    and out: "check_config (JObj (set_item (dict_of cfg) ''budgets'' (JObj b4))) = Inr out"
    using assms(2) by (auto simp: apply_overrides_def result_simps)
  have keys: "fst ` set (dict_of ?B) = lit ` set [''max_flops'', ''max_energy_uj'', ''spawns'', ''max_wall_us'']"
  proof -
    have "check_budget (fld c0 ''budgets'') = Inr ()" by (rule closed_fld(1) [OF c(3)]) (simp add: config_fields_def)
    moreover have "?B = fld c0 ''budgets''" by (simp add: c(4) fld_set_item fld_dict_of)
    moreover have "check_budget x = Inr () \<Longrightarrow> fst ` set (dict_of x) = lit ` set [''max_flops'', ''max_energy_uj'', ''spawns'', ''max_wall_us'']" for x
      by (clarsimp simp: check_budget_def result_simps closed_keys)
    ultimately show ?thesis by simp
  qed
  note k1 = tighten_budget_keys [OF b(1)] and k2 = tighten_budget_keys [OF b(2)] and k3 = tighten_spawns_keys [OF b(3)]
  note f = tighten_budget_fields [OF b(1)] tighten_budget_fields [OF b(2)] tighten_spawns_fields [OF b(3)] tighten_budget_fields [OF b(4)]
  note e = tighten_budget_value [OF b(1)] tighten_budget_value [OF b(2)] tighten_spawns_value [OF b(3)] tighten_budget_value [OF b(4)]
  have key: "lit ''budgets'' \<in> fst ` set (dict_of cfg)"
    using closed_keys [OF c(3)] by (simp add: c(4) config_fields_def set_item_keys)
  have new: "fld out ''budgets'' = JObj b4"
    using check_config_result [OF out, of "''budgets''"] key by (simp add: fld_set_item)
  have other: "fld out k = fld cfg k" if "k \<noteq> ''budgets''" for k
  proof (cases "k = ''network''")
    case True
    obtain net' where n: "check_network (arr_of (fld (JObj (set_item (dict_of cfg) ''budgets'' (JObj b4))) ''network'')) [] = Inr net'" "fld out ''network'' = JArr net'"
      by (rule check_config_network [OF out])
    have "check_network net [] = Inr net'" using n(1) c(2) by (simp add: fld_set_item fld_dict_of arr_of_def)
    from check_network_again [OF c(1) this] show ?thesis using n(2) c(2) True by simp
  next
    case False
    then show ?thesis using check_config_result [OF out, of k] that by (simp add: fld_set_item fld_dict_of)
  qed
  have vals: "\<forall>k \<in> set [''max_flops'', ''max_energy_uj'', ''spawns'', ''max_wall_us''].
      fld (JObj b4) k = (case map_of ov (lit k) of None \<Rightarrow> fld ?B k | Some x \<Rightarrow> x)"
  proof -
    have "fld (JObj b4) ''max_flops'' = fld (JObj b1) ''max_flops''" "fld (JObj b4) ''max_energy_uj'' = fld (JObj b2) ''max_energy_uj''"
      "fld (JObj b4) ''spawns'' = fld (JObj b3) ''spawns''" "fld (JObj b1) ''max_energy_uj'' = fld ?B ''max_energy_uj''"
      "fld (JObj b2) ''spawns'' = fld ?B ''spawns''" "fld (JObj b3) ''max_wall_us'' = fld ?B ''max_wall_us''"
      using f(2,4,6,8) by (simp_all add: fld_dict_of)
    moreover have "lit ''max_flops'' \<in> fst ` set (dict_of ?B)" "lit ''max_energy_uj'' \<in> fst ` set b1" "lit ''spawns'' \<in> fst ` set b2"
      "lit ''max_wall_us'' \<in> fst ` set b3" unfolding k1 k2 k3 keys by simp_all
    ultimately show ?thesis using e by (simp add: fld_dict_of split: option.splits)
  qed
  show ?thesis
    unfolding new using f other vals by (simp add: fld_dict_of)
qed

theorem overrides_only_tighten_witness:
  "\<exists>cfg out. check_config example_config = Inr cfg \<and> apply_overrides cfg [(lit ''max_flops'', JStr (lit ''7'')), (lit ''spawns'', JInt 1)] = Inr out \<and>
     fld (fld out ''budgets'') ''max_flops'' = JStr (lit ''7'') \<and> fld (fld out ''budgets'') ''spawns'' = JInt 1 \<and>
     fld (fld out ''budgets'') ''max_wall_us'' = JStr (lit ''20000'') \<and> fld out ''network'' = fld cfg ''network''"
proof -
  let ?ov = "[(lit ''max_flops'', JStr (lit ''7'')), (lit ''spawns'', JInt 1)]"
  have c: "check_config example_config = Inr example_config"
    using example_config_checks by (simp add: example_config_def dict_of_def set_item_def)
  have "parse_u (JStr (lit ''7'')) = Inr 7" "parse_u (JStr (lit ''90'')) = Inr 90"
    by (simp_all add: parse_u_def check_u_def dollar_def u_re_def lit_def py_int_def dec_val_def U_MAX_def chop_newline_def is_digit_def bindE_def)
  then have t: "tighten_u (JStr (lit ''90'')) (JStr (lit ''7'')) = Inr (JStr (lit ''7''))" by (simp add: tighten_u_def bindE_def)
  let ?b = "JObj [(lit ''max_flops'', JStr (lit ''7'')), (lit ''max_energy_uj'', JNull), (lit ''spawns'', JInt 1), (lit ''max_wall_us'', JStr (lit ''20000''))]"
  have seven: "check_u (JStr (lit ''7'')) = Inr (lit ''7'')" "u_of (JStr (lit ''7'')) = 7"
    by (simp_all add: check_u_def dollar_def u_re_def lit_def py_int_def dec_val_def U_MAX_def u_of_def str_of_def chop_newline_def is_digit_def)
  obtain out where out: "apply_overrides example_config ?ov = Inr out"
  proof -
    let ?v = "JObj (set_item (dict_of example_config) ''budgets'' ?b)"
    have b: "check_budget ?b = Inr ()" by (simp add: check_budget_def shape_defs u_text seven)
    have m: "check_meter (fld ?v ''meter'') = Inr ()" "check_catalog (arr_of (fld ?v ''model_catalog'')) [] = Inr ()" "config_rules ?v = Inr ()"
      using example_model_checks
      by (simp_all add: check_meter_def config_rules_def example_config_def shape_defs u_text seven dict_of_def set_item_def)
    have p: "check_path (JStr (lit ''/w'')) = Inr (lit ''/w'')"
      by (simp add: check_path_def lit_def startswith_def utf8_encode_def utf8_bytes_def utf8_char_def is_surrogate_def)
    have "\<exists>out. check_config ?v = Inr out"
      using b m p by (simp add: check_config_def example_config_def shape_defs config_fields_def u_text check_version_def dict_of_def set_item_def)
    moreover have "apply_overrides example_config ?ov = check_config ?v"
      using t by (simp add: apply_overrides_def tighten_budget_def tighten_spawns_def example_config_def shape_defs dict_of_def set_item_def bindE_def)
    ultimately show thesis using that by auto
  qed
  from overrides_only_tighten [OF c out] c out show ?thesis
    by (intro exI [of _ example_config] exI [of _ out]) (simp add: example_config_def shape_defs)
qed

text \<open>The configuration hash does not depend on the order in which a validated configuration lists its models and
  destinations.\<close>

theorem config_hash_order_free:
  assumes "check_config c0 = Inr cfg" "mset ms = mset (arr_of (fld cfg ''model_catalog''))" "mset ns = mset (arr_of (fld cfg ''network''))"
    and "cfg' = JObj (set_item (set_item (dict_of cfg) ''model_catalog'' (JArr ms)) ''network'' (JArr ns))"
  shows "effective_config_hash cfg' = effective_config_hash cfg"
proof -
  note lists = check_config_lists [OF assms(1)]
  have cat: "by_text ''id'' ms = by_text ''id'' (arr_of (fld cfg ''model_catalog''))"
    unfolding by_text_def by (rule sort_key_perm [OF assms(2) [symmetric] lists(1), symmetric])
  have net: "sort_key (\<lambda>d. (str_of (fld d ''origin''), str_of (fld d ''path''))) ns =
      sort_key (\<lambda>d. (str_of (fld d ''origin''), str_of (fld d ''path''))) (arr_of (fld cfg ''network''))"
    by (rule sort_key_perm [OF assms(3) [symmetric] lists(2), symmetric])
  obtain net0 where c: "closed config_fields c0 = Inr ()" "cfg = JObj (set_item (dict_of c0) ''network'' (JArr net0))"
    using assms(1) by (auto simp: check_config_def result_simps)
  have keys: "has_key c0 ''network''" "has_key c0 ''model_catalog''"
    by (rule closed_fld(2) [OF c(1)], simp add: config_fields_def)+
  then have keys: "lit ''network'' \<in> fst ` set (dict_of cfg)" "lit ''model_catalog'' \<in> fst ` set (dict_of cfg)"
    by (auto simp: c(2) has_key_def dest: map_of_key)
  then have f: "fld cfg' ''network'' = JArr ns" "fld cfg' ''model_catalog'' = JArr ms"
    by (simp_all add: assms(4) fld_set_item)
  have "canonicalize_config cfg' = canonicalize_config cfg"
    unfolding canonicalize_config_def f by (simp add: arr_of_def [of "JArr _"] cat net assms(4) set_item_twice set_item_commute)
  then show ?thesis by (simp add: effective_config_hash_def)
qed

theorem config_hash_order_free_witness:
  "\<exists>cfg. check_config example_config = Inr cfg \<and> effective_config_hash
     (JObj (set_item (set_item (dict_of cfg) ''model_catalog'' (JArr [example_model])) ''network'' (JArr []))) =
   effective_config_hash cfg"
proof -
  have c: "check_config example_config = Inr example_config"
    using example_config_checks by (simp add: example_config_def dict_of_def set_item_def)
  have "mset [example_model] = mset (arr_of (fld example_config ''model_catalog''))" "mset [] = mset (arr_of (fld example_config ''network''))"
    by (simp_all add: example_config_def shape_defs)
  from config_hash_order_free [OF c this refl] c show ?thesis by blast
qed

end
