(* ===== verification/Cpulist.thy ===== *)
theory Cpulist imports SchemaEvents begin

text \<open>
  CPU lists: \<open>cpulist_to_set\<close> of \<open>src/lexwatt/host/linux.py\<close> and \<open>domain_cpus\<close> of \<open>src/lexwatt/engine.py\<close>, which
  prints the union of the domains' CPUs in compact form. A Python set of integers is an \<open>int set\<close>.
  Result: the printed list reads back as exactly that union.
\<close>

definition cpu_part_set :: "pystr \<Rightarrow> exn + int list" where
  "cpu_part_set part =
    (if 45 \<in> set part then
       (case split_on 45 part of
          [a, b] \<Rightarrow> bindE (digits_int a) (\<lambda>x. bindE (digits_int b) (\<lambda>y. Inr [x..y]))
        | _ \<Rightarrow> Inl (Py Value_Error))
     else bindE (digits_int part) (\<lambda>x. Inr [x]))"

definition cpulist_to_set :: "pystr \<Rightarrow> exn + int set" where
  "cpulist_to_set cpus = bindE (mapE cpu_part_set (split_on 44 cpus)) (\<lambda>ls. Inr (set (concat ls)))"

definition span :: "int \<Rightarrow> int \<Rightarrow> pystr" where
  "span start prev = (if start = prev then dec_str (nat start) else dec_str (nat start) @ 45 # dec_str (nat prev))"

fun compact_loop :: "int \<Rightarrow> int \<Rightarrow> int list \<Rightarrow> pystr list" where
  "compact_loop start prev [] = [span start prev]"
| "compact_loop start prev (c # cs) =
    (if c = prev + 1 then compact_loop start c cs else span start prev # compact_loop c c cs)"

definition compact_cpus :: "int set \<Rightarrow> pystr" where
  "compact_cpus out =
    (case sorted_list_of_set out of
       [] \<Rightarrow> []
     | c # cs \<Rightarrow> join_comma (compact_loop c c cs))"

definition domain_cpus :: "json \<Rightarrow> exn + pystr" where
  "domain_cpus host_policy =
    bindE (mapE (\<lambda>d. cpulist_to_set (str_of (fld d ''cpus''))) (arr_of (fld host_policy ''domains'')))
      (\<lambda>ss. Inr (compact_cpus (\<Union> (set ss))))"

section \<open>Reading the compact form\<close>

lemma split_on_join_comma:
  "ps \<noteq> [] \<Longrightarrow> (\<And>p. p \<in> set ps \<Longrightarrow> 44 \<notin> set p) \<Longrightarrow> split_on 44 (join_comma ps) = ps"
proof (induction ps rule: join_comma.induct)
  case (3 p q ps)
  then show ?case by (simp add: split_on_append)
qed (simp_all add: split_on_no_sep)

lemma dec_str_chars: "c \<in> set (dec_str n) \<Longrightarrow> 48 \<le> c \<and> c \<le> 57"
  using dec_str_digits [of n] by (auto simp: list_all_iff is_digit_def)

lemma digits_int_dec_str: "n < 10 ^ 18 \<Longrightarrow> digits_int (dec_str n) = Inr (int n)"
proof -
  assume "n < 10 ^ 18"
  then have "length (dec_str n) \<le> 18" by (rule dec_str_length_le) simp
  moreover have "chop_newline (dec_str n) = dec_str n" by (simp add: dec_str_canonical)
  ultimately show ?thesis by (simp add: digits_int_def INT_MAX_STR_DIGITS_def)
qed

lemma span_chars: "c \<in> set (span a b) \<Longrightarrow> c = 45 \<or> 48 \<le> c \<and> c \<le> 57"
  using dec_str_chars by (auto simp: span_def split: if_splits)

lemma cpu_part_span:
  assumes "0 \<le> a" "a \<le> b" "b < 10 ^ 18"
  shows "\<exists>l. cpu_part_set (span a b) = Inr l \<and> set l = {a..b}"
proof -
  have no: "45 \<notin> set (dec_str n)" for n using dec_str_chars by force
  have d: "digits_int (dec_str (nat a)) = Inr a" "digits_int (dec_str (nat b)) = Inr b"
    using digits_int_dec_str [of "nat a"] digits_int_dec_str [of "nat b"] assms by (simp_all add: nat_less_iff)
  show ?thesis
    using assms no d by (auto simp: cpu_part_set_def span_def split_on_append split_on_no_sep)
qed

lemma compact_loop_parts:
  "0 \<le> start \<Longrightarrow> start \<le> prev \<Longrightarrow> sorted_wrt (<) (prev # cs) \<Longrightarrow> (\<forall>c \<in> set (prev # cs). c < 10 ^ 18) \<Longrightarrow>
   \<exists>ls. mapE cpu_part_set (compact_loop start prev cs) = Inr ls \<and> set (concat ls) = {start..prev} \<union> set cs"
proof (induction cs arbitrary: start prev)
  case Nil
  then obtain l where "cpu_part_set (span start prev) = Inr l" "set l = {start..prev}"
    using cpu_part_span [of start prev] by auto
  then show ?case by simp
next
  case (Cons c cs)
  show ?case
  proof (cases "c = prev + 1")
    case True
    then obtain ls where "mapE cpu_part_set (compact_loop start c cs) = Inr ls" "set (concat ls) = {start..c} \<union> set cs"
      using Cons.IH [of start c] Cons.prems by auto
    moreover have "{start..c} \<union> set cs = {start..prev} \<union> set (c # cs)" using True Cons.prems by auto
    ultimately show ?thesis using True by simp
  next
    case False
    obtain l where l: "cpu_part_set (span start prev) = Inr l" "set l = {start..prev}"
      using cpu_part_span [of start prev] Cons.prems by auto
    obtain ls where "mapE cpu_part_set (compact_loop c c cs) = Inr ls" "set (concat ls) = {c..c} \<union> set cs"
      using Cons.IH [of c c] Cons.prems by auto
    with l False show ?thesis by auto
  qed
qed

lemma compact_loop_chars: "p \<in> set (compact_loop a b cs) \<Longrightarrow> 44 \<notin> set p"
  by (induction a b cs rule: compact_loop.induct) (use span_chars in \<open>force split: if_splits\<close>)+

lemma compact_loop_not_Nil: "compact_loop a b cs \<noteq> []"
  by (induction a b cs rule: compact_loop.induct) auto

lemma compact_cpus_reads:
  assumes "finite S" "S \<noteq> {}" "\<forall>c \<in> S. 0 \<le> c \<and> c < 10 ^ 18"
  shows "cpulist_to_set (compact_cpus S) = Inr S"
proof -
  obtain c cs where s: "sorted_list_of_set S = c # cs" using assms(1,2) by (cases "sorted_list_of_set S") auto
  have set: "set (c # cs) = S" using assms(1) s by (metis set_sorted_list_of_set)
  have "sorted_wrt (<) (c # cs)" using strict_sorted_list_of_set [of S] s by simp
  moreover have "0 \<le> c" "\<forall>x \<in> set (c # cs). x < 10 ^ 18" using assms(3) set by auto
  ultimately obtain ls where "mapE cpu_part_set (compact_loop c c cs) = Inr ls" "set (concat ls) = {c..c} \<union> set cs"
    using compact_loop_parts [of c c cs] by blast
  then show ?thesis
    using set by (simp add: cpulist_to_set_def compact_cpus_def s split_on_join_comma compact_loop_chars compact_loop_not_Nil)
qed

section \<open>Property\<close>

text \<open>What \<open>domain_cpus\<close> writes into the cpuset of a run is read back as exactly the union of the CPUs of the policy's
  domains (numbers below 10^18), or nothing if there are none.\<close>

theorem domain_cpus_exact:
  assumes "mapE (\<lambda>d. cpulist_to_set (str_of (fld d ''cpus''))) (arr_of (fld hp ''domains'')) = Inr ss"
    and "finite (\<Union> (set ss))" "\<forall>c \<in> \<Union> (set ss). 0 \<le> c \<and> c < 10 ^ 18"
  shows "\<exists>s. domain_cpus hp = Inr s \<and>
    (if \<Union> (set ss) = {} then s = [] else cpulist_to_set s = Inr (\<Union> (set ss)))"
proof (cases "\<Union> (set ss) = {}")
  case True
  then have c: "compact_cpus (\<Union> (set ss)) = []" by (simp only: compact_cpus_def True) simp
  show ?thesis unfolding domain_cpus_def assms(1) bindE_Inr c using True by simp
next
  case False
  then show ?thesis
    unfolding domain_cpus_def assms(1) bindE_Inr using compact_cpus_reads [OF assms(2) False assms(3)] by (simp only: if_False) blast
qed

theorem domain_cpus_exact_witness:
  "\<exists>s. domain_cpus (JObj [(lit ''domains'', JArr [JObj [(lit ''cpus'', JStr (lit ''0-2,5''))], JObj [(lit ''cpus'', JStr (lit ''3''))]])]) = Inr s \<and>
     cpulist_to_set s = Inr {0, 1, 2, 3, 5}"
proof -
  let ?hp = "JObj [(lit ''domains'', JArr [JObj [(lit ''cpus'', JStr (lit ''0-2,5''))], JObj [(lit ''cpus'', JStr (lit ''3''))]])]"
  have d: "cpulist_to_set (lit ''0-2,5'') = Inr {0, 1, 2, 5}" "cpulist_to_set (lit ''3'') = Inr {3}"
    by (auto simp: cpulist_to_set_def cpu_part_set_def lit_def digits_int_def chop_newline_def dec_val_def INT_MAX_STR_DIGITS_def)
  have parts: "mapE (\<lambda>d. cpulist_to_set (str_of (fld d ''cpus''))) (arr_of (fld ?hp ''domains'')) = Inr [{0, 1, 2, 5}, {3}]"
    by (simp add: shape_defs str_of_def d)
  have "\<Union> (set [{0, 1, 2, 5}, {3}]) = {0, 1, 2, 3, 5 :: int}" by auto
  with domain_cpus_exact [OF parts] show ?thesis by auto
qed

end
