(* ===== verification/Host.thy ===== *)
theory Host imports Effects Config Ids "HOL-Library.AList" begin

text \<open>
  The host boundary (\<open>src/lexwatt/host/base.py\<close>) and the simulated reference host (\<open>src/lexwatt/host/sim.py\<close>).
  \<open>env\<close> is the record of the calls the supervisor makes to its host and to its identifier generator, over a
  world of any type; a cgroup is named by its run, a process by a number. \<open>sim_env\<close> is the simulated host with
  the counter generator of \<open>src/lexwatt/ids.py\<close>; \<open>SimProc\<close> objects are the entries of \<open>sm_procs\<close>.

  The locale \<open>steady_env\<close> is what the journal needs of a host: its clock does not go back, and a fresh
  identifier is one. The simulated host provides it.
\<close>

section \<open>The interface\<close>

record 'w env =
  env_boottime_us :: "'w \<Rightarrow> int \<times> 'w"
  env_boot_id :: "'w \<Rightarrow> pystr"
  env_realpath :: "'w \<Rightarrow> pystr \<Rightarrow> pystr option"
  env_new_id :: "id_kind \<Rightarrow> (pystr \<Rightarrow> bool) \<Rightarrow> ('w, pystr) act"
  env_capabilities :: "json \<Rightarrow> ('w, json) act"
  env_task_uid_alloc :: "int \<Rightarrow> int \<Rightarrow> ('w, int) act"
  env_task_uid_free :: "int \<Rightarrow> ('w, unit) act"
  env_workspace_lease :: "pystr \<Rightarrow> pystr \<Rightarrow> ('w, unit) act"
  env_workspace_release :: "pystr \<Rightarrow> pystr \<Rightarrow> ('w, unit) act"
  env_cgroup_create :: "pystr \<Rightarrow> json \<Rightarrow> pystr \<Rightarrow> ('w, unit) act"
  env_cgroup_identity :: "pystr \<Rightarrow> ('w, int \<times> pystr) act"
  env_cgroup_usage_us :: "pystr \<Rightarrow> ('w, int) act"
  env_cgroup_populated :: "pystr \<Rightarrow> ('w, int) act"
  env_cgroup_kill :: "pystr \<Rightarrow> ('w, bool) act"
  env_group_kill :: "pystr \<Rightarrow> ('w, bool) act"
  env_cgroup_teardown :: "pystr \<Rightarrow> ('w, unit) act"
  env_open_domains :: "pystr list \<Rightarrow> ('w, pystr list) act"
  env_read_domain :: "pystr \<Rightarrow> ('w, int \<times> int \<times> int) act"
  env_spawn_root :: "pystr \<Rightarrow> int option \<Rightarrow> json \<Rightarrow> pystr \<Rightarrow> ('w, nat) act"
  env_spawn_child :: "pystr \<Rightarrow> int option \<Rightarrow> int \<Rightarrow> json \<Rightarrow> pystr \<Rightarrow> ('w, nat) act"
  env_proc_exited :: "nat \<Rightarrow> ('w, json) act"
  env_http_get :: "json \<Rightarrow> json \<Rightarrow> int \<Rightarrow> ('w, int \<times> bytes) act"
  env_create_file :: "pystr \<Rightarrow> ('w, unit) act"
  env_write_file :: "pystr \<Rightarrow> bytes \<Rightarrow> ('w, unit) act"
  env_read_file :: "pystr \<Rightarrow> ('w, bytes) act"
  env_unlink :: "pystr \<Rightarrow> ('w, unit) act"

text \<open>A step of the world is an action, and \<open>before w v\<close> says that no clock reading at \<open>w\<close> or earlier exceeds one at
  \<open>v\<close> or later.\<close>

locale steady_env =
  fixes E :: "'w env" and now :: "'w \<Rightarrow> int"
  assumes clock: "env_boottime_us E w = (t, w') \<Longrightarrow> now w \<le> t \<and> t \<le> now w'"
    and new_id_clock: "env_new_id E kind ex w = (r, w') \<Longrightarrow> now w \<le> now w'"
    and new_id_ok: "env_new_id E kind ex w = (Inr i, w') \<Longrightarrow> check_id (JStr i) kind = Inr i"
begin

lemma readings_ordered:
  "env_boottime_us E w = (t, w1) \<Longrightarrow> env_new_id E k ex w1 = (r, w2) \<Longrightarrow> env_boottime_us E w2 = (u, w3) \<Longrightarrow> t \<le> u"
  using clock [of w t w1] new_id_clock [of k ex w1 r w2] clock [of w2 u w3] by linarith

end

section \<open>The simulated host\<close>

record sim_domain =
  sd_range_uj :: int
  sd_counter :: int
  sd_enabled :: bool
  sd_trace :: "int list"

record sim_proc =
  sp_execv :: json
  sp_channel :: pystr
  sp_alive :: bool
  sp_exit :: json
  sp_unkillable :: bool

record sim_cgroup =
  sc_procs :: "nat list"
  sc_inode :: int
  sc_usage_us :: int
  sc_destroyed :: bool

record sim_host =
  sm_domains :: "(pystr \<times> sim_domain) list"
  sm_cgroup_kill_ok :: bool
  sm_namespace_ok :: bool
  sm_seccomp_ok :: bool
  sm_uids :: "int set"
  sm_cgroups :: "(pystr \<times> sim_cgroup) list"
  sm_leases :: "(pystr \<times> pystr) list"
  sm_now_us :: int
  sm_boot_id :: pystr
  sm_killable :: bool
  sm_procs :: "sim_proc list"
  sm_http :: "((json \<times> json) \<times> (int \<times> bytes)) list"
  sm_kill_calls :: nat
  sm_ids :: id_counters
  sm_files :: "(pystr \<times> bytes) list"

definition SimHost :: "(pystr \<times> int) list \<Rightarrow> bool \<Rightarrow> bool \<Rightarrow> bool \<Rightarrow> sim_host" where
  "SimHost domains cgroup_kill_ok namespace_ok seccomp_ok =
    \<lparr>sm_domains = map (\<lambda>d. (fst d, \<lparr>sd_range_uj = snd d, sd_counter = 0, sd_enabled = True, sd_trace = []\<rparr>)) domains,
     sm_cgroup_kill_ok = cgroup_kill_ok, sm_namespace_ok = namespace_ok, sm_seccomp_ok = seccomp_ok, sm_uids = {},
     sm_cgroups = [], sm_leases = [], sm_now_us = 0, sm_boot_id = lit ''00000000-0000-0000-0000-000000000000'',
     sm_killable = True, sm_procs = [], sm_http = [], sm_kill_calls = 0, sm_ids = (\<lambda>_. 0), sm_files = []\<rparr>"

definition SIGKILLED :: json where
  "SIGKILLED = JObj [(lit ''code'', JNull), (lit ''signal'', JInt 9)]"

definition sigkill :: "sim_proc \<Rightarrow> sim_proc" where
  "sigkill p = (if sp_alive p then p\<lparr>sp_alive := False, sp_exit := SIGKILLED\<rparr> else p)"

definition request_exit :: "json \<Rightarrow> sim_proc \<Rightarrow> sim_proc" where
  "request_exit exit_obj p = (if sp_alive p then p\<lparr>sp_alive := False, sp_exit := exit_obj\<rparr> else p)"

text \<open>\<open>SimDomain.read\<close>: a scripted trace is consumed one value per read.\<close>

definition domain_read :: "int \<Rightarrow> sim_domain \<Rightarrow> (exn + int \<times> int \<times> int) \<times> sim_domain" where
  "domain_read now_us d =
    (if \<not> sd_enabled d then (Inl (Lex SENSOR_FAULT), d)
     else (case sd_trace d of
             [] \<Rightarrow> (Inr (sd_counter d, sd_range_uj d, now_us), d)
           | v # vs \<Rightarrow> (Inr (v, sd_range_uj d, now_us), d\<lparr>sd_counter := v, sd_trace := vs\<rparr>)))"

definition sim_capabilities :: "json \<Rightarrow> sim_host \<Rightarrow> json" where
  "sim_capabilities profile h =
    (let domains = sort (map fst (sm_domains h));
         failures = (if \<not> sm_cgroup_kill_ok h then [lit ''UNSUPPORTED_PROFILE''] else []) @
           (if \<not> sm_namespace_ok h \<or> \<not> sm_seccomp_ok h then [lit ''UNSUPPORTED_PROFILE''] else []) @
           (if profile = JStr (lit ''linux-rapl-v1'') \<and> domains = [] then [lit ''SENSOR_UNAVAILABLE''] else [])
     in JObj [(lit ''profile'', profile), (lit ''cgroup_kill'', JBool (sm_cgroup_kill_ok h)),
              (lit ''task_uid_isolation'', JBool True), (lit ''seccomp'', JBool (sm_seccomp_ok h)),
              (lit ''namespaces'', JBool (sm_namespace_ok h)), (lit ''rapl_domains'', JArr (map JStr domains)),
              (lit ''failures'', JArr (map JStr failures))])"

definition sim_uid_alloc :: "int \<Rightarrow> int \<Rightarrow> (sim_host, int) act" where
  "sim_uid_alloc lo hi h =
    (case find (\<lambda>u. u \<notin> sm_uids h) [lo..hi] of
       None \<Rightarrow> (Inl (Lex BUSY), h)
     | Some u \<Rightarrow> (Inr u, h\<lparr>sm_uids := insert u (sm_uids h)\<rparr>))"

definition sim_uid_free :: "int \<Rightarrow> (sim_host, unit) act" where
  "sim_uid_free u = modify (\<lambda>h. h\<lparr>sm_uids := sm_uids h - {u}\<rparr>)"

definition sim_lease :: "pystr \<Rightarrow> pystr \<Rightarrow> (sim_host, unit) act" where
  "sim_lease path run_id h =
    (case map_of (sm_leases h) path of
       Some holder \<Rightarrow> if holder \<noteq> run_id then (Inl (Lex BUSY), h) else (Inr (), h)
     | None \<Rightarrow> (Inr (), h\<lparr>sm_leases := AList.update path run_id (sm_leases h)\<rparr>))"

definition sim_release :: "pystr \<Rightarrow> pystr \<Rightarrow> (sim_host, unit) act" where
  "sim_release path run_id = modify (\<lambda>h.
     if map_of (sm_leases h) path = Some run_id then h\<lparr>sm_leases := AList.delete path (sm_leases h)\<rparr> else h)"

definition sim_cgroup_create :: "pystr \<Rightarrow> pystr \<Rightarrow> (sim_host, unit) act" where
  "sim_cgroup_create run_id domain_cpus h =
    (if \<not> sm_cgroup_kill_ok h then (Inl (Lex CONTAINMENT_FAULT), h)
     else (Inr (), h\<lparr>sm_cgroups := AList.update run_id \<lparr>sc_procs = [], sc_inode = 71000 + int (length (sm_procs h)),
            sc_usage_us = 0, sc_destroyed = False\<rparr> (sm_cgroups h)\<rparr>))"

definition sim_procs_of :: "pystr \<Rightarrow> sim_host \<Rightarrow> nat list" where
  "sim_procs_of cg h = (case map_of (sm_cgroups h) cg of None \<Rightarrow> [] | Some c \<Rightarrow> sc_procs c)"

definition sim_alive :: "sim_host \<Rightarrow> nat \<Rightarrow> bool" where
  "sim_alive h p \<longleftrightarrow> p < length (sm_procs h) \<and> sp_alive (sm_procs h ! p)"

definition sim_usage :: "pystr \<Rightarrow> (sim_host, int) act" where
  "sim_usage cg = reads (\<lambda>h. case map_of (sm_cgroups h) cg of None \<Rightarrow> 0 | Some c \<Rightarrow> sc_usage_us c)"

definition sim_populated :: "pystr \<Rightarrow> (sim_host, int) act" where
  "sim_populated cg = reads (\<lambda>h. if list_ex (sim_alive h) (sim_procs_of cg h) then 1 else 0)"

definition map_proc :: "(sim_proc \<Rightarrow> sim_proc) \<Rightarrow> nat \<Rightarrow> sim_host \<Rightarrow> sim_host" where
  "map_proc f p h = (if p < length (sm_procs h) then h\<lparr>sm_procs := (sm_procs h)[p := f (sm_procs h ! p)]\<rparr> else h)"

definition sim_cgroup_kill :: "pystr \<Rightarrow> (sim_host, bool) act" where
  "sim_cgroup_kill cg h =
    (let h1 = h\<lparr>sm_kill_calls := Suc (sm_kill_calls h)\<rparr>;
         kill = (\<lambda>p. if sm_killable h1 \<or> \<not> sp_unkillable p then sigkill p else p)
     in (Inr True, fold (map_proc kill) (sim_procs_of cg h1) h1))"

definition sim_group_kill :: "pystr \<Rightarrow> (sim_host, bool) act" where
  "sim_group_kill cg h = (Inr True, fold (map_proc sigkill) (sim_procs_of cg h) h)"

definition sim_teardown :: "pystr \<Rightarrow> (sim_host, unit) act" where
  "sim_teardown cg = modify (\<lambda>h. h\<lparr>sm_cgroups := map (\<lambda>kc. if fst kc = cg then (fst kc, (snd kc)\<lparr>sc_destroyed := True\<rparr>) else kc) (sm_cgroups h)\<rparr>)"

definition sim_open_domains :: "pystr list \<Rightarrow> (sim_host, pystr list) act" where
  "sim_open_domains ids h = (if list_all (\<lambda>d. map_of (sm_domains h) d \<noteq> None) ids then Inr ids else Inl (Lex SENSOR_UNAVAILABLE), h)"

definition sim_read_domain :: "pystr \<Rightarrow> (sim_host, int \<times> int \<times> int) act" where
  "sim_read_domain d h =
    (case map_of (sm_domains h) d of
       None \<Rightarrow> (Inl (Py Key_Error), h)
     | Some dm \<Rightarrow> (case domain_read (sm_now_us h) dm of (r, dm') \<Rightarrow> (r, h\<lparr>sm_domains := AList.update d dm' (sm_domains h)\<rparr>)))"

definition sim_advance_domain :: "pystr \<Rightarrow> int \<Rightarrow> sim_host \<Rightarrow> sim_host" where
  "sim_advance_domain d delta h =
    (case map_of (sm_domains h) d of
       None \<Rightarrow> h
     | Some dm \<Rightarrow> h\<lparr>sm_domains := AList.update d (dm\<lparr>sd_counter := (sd_counter dm + delta) mod sd_range_uj dm\<rparr>) (sm_domains h)\<rparr>)"

definition sim_set_domain_counter :: "pystr \<Rightarrow> int \<Rightarrow> sim_host \<Rightarrow> sim_host" where
  "sim_set_domain_counter d v h =
    (case map_of (sm_domains h) d of
       None \<Rightarrow> h
     | Some dm \<Rightarrow> h\<lparr>sm_domains := AList.update d (dm\<lparr>sd_counter := v\<rparr>) (sm_domains h)\<rparr>)"

definition sim_set_usage :: "pystr \<Rightarrow> int \<Rightarrow> sim_host \<Rightarrow> sim_host" where
  "sim_set_usage cg usage h = h\<lparr>sm_cgroups := map (\<lambda>kc. if fst kc = cg then (fst kc, (snd kc)\<lparr>sc_usage_us := usage\<rparr>) else kc) (sm_cgroups h)\<rparr>"

definition sim_spawn :: "pystr \<Rightarrow> json \<Rightarrow> pystr \<Rightarrow> (sim_host, nat) act" where
  "sim_spawn cg execv channel h =
    (let p = length (sm_procs h);
         proc = \<lparr>sp_execv = execv, sp_channel = channel, sp_alive = True, sp_exit = JNull, sp_unkillable = False\<rparr>
     in (Inr p, h\<lparr>sm_procs := sm_procs h @ [proc],
          sm_cgroups := map (\<lambda>kc. if fst kc = cg then (fst kc, (snd kc)\<lparr>sc_procs := sc_procs (snd kc) @ [p]\<rparr>) else kc) (sm_cgroups h)\<rparr>))"

definition sim_spawn_child :: "pystr \<Rightarrow> int \<Rightarrow> json \<Rightarrow> pystr \<Rightarrow> (sim_host, nat) act" where
  "sim_spawn_child cg pids_max execv channel =
    andthen (sim_spawn cg execv channel) (\<lambda>p.
    andthen (reads (\<lambda>h. int (length (filter (sim_alive h) (sim_procs_of cg h))))) (\<lambda>n.
      if n > pids_max then andthen (modify (map_proc sigkill p)) (\<lambda>_. raise (Lex ACTION_FAILED)) else ret p))"

definition sim_proc_exited :: "nat \<Rightarrow> (sim_host, json) act" where
  "sim_proc_exited p = reads (\<lambda>h. if sim_alive h p then JNull else if p < length (sm_procs h) then sp_exit (sm_procs h ! p) else JNull)"

definition sim_http_get :: "json \<Rightarrow> json \<Rightarrow> int \<Rightarrow> (sim_host, int \<times> bytes) act" where
  "sim_http_get dest action deadline_us h =
    (case map_of (sm_http h) (fld dest ''origin'', fld dest ''path'') of
       None \<Rightarrow> (Inl (Lex ACTION_FAILED), h)
     | Some resp \<Rightarrow> (Inr resp, h))"

definition sim_cgroup_identity :: "pystr \<Rightarrow> (sim_host, int \<times> pystr) act" where
  "sim_cgroup_identity cg = reads (\<lambda>h. (case map_of (sm_cgroups h) cg of None \<Rightarrow> 0 | Some c \<Rightarrow> sc_inode c,
     lit ''/sys/fs/cgroup/lexwatt/'' @ cg))"

text \<open>Files by path relative to the state directory: \<open>os.open\<close> with \<open>O_CREAT | O_EXCL\<close>, \<open>os.write\<close>, \<open>os.unlink\<close>.\<close>

definition sim_create_file :: "pystr \<Rightarrow> (sim_host, unit) act" where
  "sim_create_file path h =
    (if map_of (sm_files h) path \<noteq> None then (Inl (Py OS_Error), h)
     else (Inr (), h\<lparr>sm_files := (path, []) # sm_files h\<rparr>))"

definition sim_write_file :: "pystr \<Rightarrow> bytes \<Rightarrow> (sim_host, unit) act" where
  "sim_write_file path content = modify (\<lambda>h. h\<lparr>sm_files := AList.update path content (sm_files h)\<rparr>)"

definition sim_read_file :: "pystr \<Rightarrow> (sim_host, bytes) act" where
  "sim_read_file path h = (case map_of (sm_files h) path of None \<Rightarrow> Inl (Py OS_Error) | Some b \<Rightarrow> Inr b, h)"

definition sim_unlink :: "pystr \<Rightarrow> (sim_host, unit) act" where
  "sim_unlink path h =
    (if map_of (sm_files h) path = None then (Inl (Py OS_Error), h)
     else (Inr (), h\<lparr>sm_files := AList.delete path (sm_files h)\<rparr>))"

definition sim_set_time :: "int \<Rightarrow> sim_host \<Rightarrow> sim_host" where
  "sim_set_time us h = h\<lparr>sm_now_us := us\<rparr>"

definition sim_advance :: "int \<Rightarrow> sim_host \<Rightarrow> sim_host" where
  "sim_advance us h = h\<lparr>sm_now_us := sm_now_us h + us\<rparr>"

text \<open>\<open>DeterministicIds.new\<close>; \<open>BUSY\<close> is raised after the counter has been left at its bound.\<close>

definition sim_new_id :: "id_kind \<Rightarrow> (pystr \<Rightarrow> bool) \<Rightarrow> (sim_host, pystr) act" where
  "sim_new_id kind ex h =
    (case DeterministicIds_new kind ex (sm_ids h) of
       Inl e \<Rightarrow> (Inl e, h\<lparr>sm_ids := (sm_ids h)(kind := max (sm_ids h kind) (10 ^ 21 - 1))\<rparr>)
     | Inr (i, counters) \<Rightarrow> (Inr i, h\<lparr>sm_ids := counters\<rparr>))"

definition sim_env :: "sim_host env" where
  "sim_env = \<lparr>env_boottime_us = (\<lambda>h. (sm_now_us h, h)), env_boot_id = sm_boot_id,
     env_realpath = (\<lambda>h p. Some (normpath p)), env_new_id = sim_new_id,
     env_capabilities = (\<lambda>profile. reads (sim_capabilities profile)), env_task_uid_alloc = sim_uid_alloc,
     env_task_uid_free = sim_uid_free, env_workspace_lease = sim_lease, env_workspace_release = sim_release,
     env_cgroup_create = (\<lambda>run_id cfg cpus. sim_cgroup_create run_id cpus), env_cgroup_identity = sim_cgroup_identity, env_cgroup_usage_us = sim_usage, env_cgroup_populated = sim_populated,
     env_cgroup_kill = sim_cgroup_kill, env_group_kill = sim_group_kill, env_cgroup_teardown = sim_teardown,
     env_open_domains = sim_open_domains, env_read_domain = sim_read_domain, env_spawn_root = (\<lambda>cg uid. sim_spawn cg),
     env_spawn_child = (\<lambda>cg uid. sim_spawn_child cg), env_proc_exited = sim_proc_exited, env_http_get = sim_http_get,
     env_create_file = sim_create_file, env_write_file = sim_write_file, env_read_file = sim_read_file, env_unlink = sim_unlink\<rparr>"

interpretation sim: steady_env sim_env sm_now_us
proof unfold_locales
  show "env_new_id sim_env kind ex w = (r, w') \<Longrightarrow> sm_now_us w \<le> sm_now_us w'" for kind ex w r w'
    by (auto simp: sim_env_def sim_new_id_def split: sum.splits prod.splits)
  show "env_new_id sim_env kind ex w = (Inr i, w') \<Longrightarrow> check_id (JStr i) kind = Inr i" for kind ex w i w'
    using counter_ids.new_shape by (auto simp: sim_env_def sim_new_id_def split: sum.splits prod.splits)
qed (auto simp: sim_env_def)

section \<open>Killing empties the group\<close>

lemma map_proc_sel [simp]: "sm_cgroups (map_proc f p h) = sm_cgroups h" "length (sm_procs (map_proc f p h)) = length (sm_procs h)"
  "sim_procs_of cg (map_proc f p h) = sim_procs_of cg h" "sm_killable (map_proc f p h) = sm_killable h"
  by (simp_all add: map_proc_def sim_procs_of_def)

lemma sim_alive_map_proc:
  "sim_alive (map_proc f p h) q \<longleftrightarrow>
     (if q = p then p < length (sm_procs h) \<and> sp_alive (f (sm_procs h ! p)) else sim_alive h q)"
  by (simp add: sim_alive_def map_proc_def nth_list_update)

text \<open>A function after which no process is alive kills every process it is mapped over, and raises none.\<close>

lemma fold_map_proc_dead:
  assumes f: "\<And>q. \<not> sp_alive (f q)"
  shows "sim_alive (fold (map_proc f) ps h) q \<longleftrightarrow> q \<notin> set ps \<and> sim_alive h q"
  by (induction ps arbitrary: h) (auto simp: sim_alive_map_proc f)

lemma fold_map_proc_procs [simp]: "sim_procs_of cg (fold (map_proc f) ps h) = sim_procs_of cg h"
  by (induction ps arbitrary: h) simp_all

end
