(* ===== verification/Engine.thy ===== *)
theory Engine imports CoreRun Ledger Host Config Verify Meter begin

text \<open>
  Models \<open>Run\<close> of \<open>src/lexwatt/engine.py\<close>, the supervisor of one run: time, the journal transaction \<open>_commit\<close>,
  the status projection and the coverage statement. The record \<open>run\<close> holds the object's attributes; the host
  and the identifier generator are the \<open>env\<close> over the world \<open>rn_world\<close>, the Ed25519 package is \<open>ed_lib\<close>, both
  arguments of the definitions that use them. The launcher's host policy is \<open>rn_policy\<close>.
\<close>

section \<open>The run object\<close>

record 'w run =
  rn_core :: run_core
  rn_db :: "journal conn"
  rn_world :: 'w
  rn_seed :: bytes
  rn_execv :: json
  rn_policy :: json
  rn_model_map :: dict
  rn_cgroup :: "pystr option"
  rn_domains :: "pystr list"
  rn_root_proc :: "nat option"
  rn_task_uid :: "int option"
  rn_workspace :: "pystr option"
  rn_origin_us :: int
  rn_started_us :: "int option"
  rn_prev_readings :: "(pystr \<times> (int \<times> int \<times> int)) list"
  rn_baseline_cpu_us :: int
  rn_sample_index :: int
  rn_energy_uj :: int
  rn_energy_valid :: bool
  rn_energy_complete :: bool
  rn_unchanged_since_us :: "int option"
  rn_unchanged_cpu_at_us :: int
  rn_last_cpu_us :: int
  rn_channels :: "pystr set"
  rn_kill_confirmed :: bool
  rn_containment_empty :: bool
  rn_rejected_code :: "code option"
  rn_root_channel :: "pystr option"
  rn_child_procs :: "(pystr \<times> nat) list"
  rn_child_channels :: "(pystr \<times> pystr) list"
  rn_exec_after_commit :: "(pystr \<times> json \<times> pystr) option"
  rn_pending_meta :: "(pystr \<times> bytes) list"
  rn_pending_token :: "(json \<times> json) option"
  rn_pending_dispatch :: "(pystr \<times> json \<times> pystr) option"
  rn_pending_reservation :: "(pystr \<times> json) option"

type_synonym ('w, 'a) eng = "('w run, 'a) act"

text \<open>\<open>Run.__init__\<close>\<close>

definition Run :: "pystr \<Rightarrow> pystr \<Rightarrow> bytes \<Rightarrow> json \<Rightarrow> json \<Rightarrow> journal conn \<Rightarrow> json \<Rightarrow> dict \<Rightarrow> 'w \<Rightarrow> 'w run" where
  "Run run_id key_id seed config execv db policy model_map w =
    \<lparr>rn_core = RunCore run_id key_id (canonicalize_config config), rn_db = db, rn_world = w, rn_seed = seed,
     rn_execv = execv, rn_policy = policy, rn_model_map = model_map, rn_cgroup = None, rn_domains = [], rn_root_proc = None, rn_task_uid = None,
     rn_workspace = None, rn_origin_us = 0, rn_started_us = None, rn_prev_readings = [], rn_baseline_cpu_us = 0,
     rn_sample_index = 0, rn_energy_uj = 0, rn_energy_valid = False, rn_energy_complete = False,
     rn_unchanged_since_us = None, rn_unchanged_cpu_at_us = 0, rn_last_cpu_us = 0, rn_channels = {},
     rn_kill_confirmed = False, rn_containment_empty = False, rn_rejected_code = None, rn_root_channel = None,
     rn_child_procs = [], rn_child_channels = [], rn_exec_after_commit = None, rn_pending_meta = [],
     rn_pending_token = None, rn_pending_dispatch = None, rn_pending_reservation = None\<rparr>"

text \<open>Calls to the parts of the object.\<close>

definition on_db :: "'a jact \<Rightarrow> ('w, 'a) eng" where
  "on_db m r = (case m (rn_db r) of (x, d) \<Rightarrow> (x, r\<lparr>rn_db := d\<rparr>))"

definition on_world :: "('w, 'a) act \<Rightarrow> ('w, 'a) eng" where
  "on_world m r = (case m (rn_world r) of (x, w) \<Rightarrow> (x, r\<lparr>rn_world := w\<rparr>))"

definition on_core :: "(run_core \<Rightarrow> (exn + 'a) \<times> run_core) \<Rightarrow> ('w, 'a) eng" where
  "on_core m r = (case m (rn_core r) of (x, c) \<Rightarrow> (x, r\<lparr>rn_core := c\<rparr>))"

definition total :: "(run_core \<Rightarrow> outcome \<times> run_core) \<Rightarrow> run_core \<Rightarrow> step" where
  "total f c = done_step (f c)"

definition config_of :: "'w run \<Rightarrow> json" where "config_of r = rc_config (rn_core r)"

definition profile_is :: "string \<Rightarrow> 'w run \<Rightarrow> bool" where
  "profile_is p r \<longleftrightarrow> fld (config_of r) ''profile'' = JStr (lit p)"

definition u_text_of :: "int \<Rightarrow> ('w, json) eng" where
  "u_text_of n = andthen (lift_r (u_str n)) (\<lambda>s. ret (JStr s))"

section \<open>Time\<close>

definition now_us :: "'w env \<Rightarrow> ('w, int) eng" where
  "now_us E r = (case env_boottime_us E (rn_world r) of (t, w) \<Rightarrow> (Inr t, r\<lparr>rn_world := w\<rparr>))"

definition t_us :: "'w env \<Rightarrow> ('w, int) eng" where
  "t_us E = andthen (now_us E) (\<lambda>n. reads (\<lambda>r. n - rn_origin_us r))"

definition elapsed_us :: "'w env \<Rightarrow> ('w, int) eng" where
  "elapsed_us E = andthen (reads rn_started_us) (\<lambda>st.
     case st of None \<Rightarrow> ret 0 | Some s \<Rightarrow> andthen (now_us E) (\<lambda>n. ret (n - s)))"

section \<open>Projection\<close>

definition policy_domains :: "'w run \<Rightarrow> json list" where
  "policy_domains r = arr_of (fld (rn_policy r) ''domains'')"

definition power_domain_of :: "json \<Rightarrow> power_domain" where
  "power_domain_of d = \<lparr>pd_id = str_of (fld d ''id''), pd_max_power_uw = u_of (fld d ''max_power_uw''),
     pd_margin_uj = u_of (fld d ''margin_uj'')\<rparr>"

definition run_reserve_uj :: "'w run \<Rightarrow> int" where
  "run_reserve_uj r =
    (if profile_is ''linux-ledger-v1'' r then 0
     else (let m = fld (config_of r) ''meter''
           in reserve_uj (map power_domain_of (policy_domains r)) (u_of (fld m ''stale_us'')) (u_of (fld m ''kill_deadline_us''))))"

definition power_entry :: "json \<Rightarrow> json" where
  "power_entry d = JObj [(lit ''domain'', fld d ''id''), (lit ''max_power_uw'', fld d ''max_power_uw''),
     (lit ''margin_uj'', fld d ''margin_uj'')]"

definition coverage :: "('w, json) eng" where
  "coverage = andthen (reads id) (\<lambda>r.
    (if profile_is ''linux-ledger-v1'' r then
       ret (JObj [(lit ''flops'', JStr (lit ''cooperative_estimate'')), (lit ''energy'', JStr (lit ''unavailable'')),
                  (lit ''domains'', JArr []), (lit ''energy_complete'', JBool False), (lit ''reserve_uj'', JStr (lit ''0'')),
                  (lit ''host_power_assumption'', JBool False), (lit ''assumptions'', JNull)])
     else
       andthen (u_text_of (run_reserve_uj r)) (\<lambda>reserve.
       ret (JObj [(lit ''flops'', JStr (lit ''cooperative_estimate'')), (lit ''energy'', JStr (lit ''package_measured'')),
                  (lit ''domains'', JArr (map JStr (sort (map (\<lambda>d. str_of (fld d ''id'')) (policy_domains r))))),
                  (lit ''energy_complete'', JBool (rn_energy_complete r)), (lit ''reserve_uj'', reserve),
                  (lit ''host_power_assumption'', JBool True),
                  (lit ''assumptions'', JObj [(lit ''meter'', fld (config_of r) ''meter''),
                     (lit ''power'', JArr (by_text ''domain'' (map power_entry (policy_domains r))))])]))))"

definition stop_reason_json :: "run_core \<Rightarrow> json" where
  "stop_reason_json c = (case rc_stop_reason c of None \<Rightarrow> JNull | Some s \<Rightarrow> JStr (reason_name s))"

definition head_json :: "int \<times> pystr \<Rightarrow> ('w, json) eng" where
  "head_json sh = andthen (u_text_of (fst sh)) (\<lambda>s. ret (JObj [(lit ''seq'', s), (lit ''hash'', JStr (snd sh))]))"

text \<open>The dict is built in the order of its keys; the text of a number may raise.\<close>

definition status_object :: "'w env \<Rightarrow> ('w, json) eng" where
  "status_object E =
    andthen (on_db event_head) (\<lambda>sh. andthen (head_json sh) (\<lambda>head.
    andthen coverage (\<lambda>cov.
    andthen (reads id) (\<lambda>r.
    andthen (u_text_of (rc_charged_flops (rn_core r))) (\<lambda>charged.
    andthen (if rn_energy_valid r then u_text_of (rn_energy_uj r) else ret JNull) (\<lambda>energy.
    andthen (andthen (elapsed_us E) u_text_of) (\<lambda>elapsed.
      ret (JObj [(lit ''run_id'', JStr (rc_run_id (rn_core r))), (lit ''state'', JStr (state_name (rc_state (rn_core r)))),
                 (lit ''budgets'', fld (config_of r) ''budgets''), (lit ''charged_flops'', charged), (lit ''energy_uj'', energy),
                 (lit ''spawn_tokens_issued'', JInt (rc_spawn_issued (rn_core r))), (lit ''elapsed_us'', elapsed),
                 (lit ''root_exit'', rc_root_exit (rn_core r)), (lit ''stop_reason'', stop_reason_json (rn_core r)),
                 (lit ''coverage'', cov), (lit ''head'', head)]))))))))"

section \<open>The journal transaction\<close>

definition event_body_obj :: "run_core \<Rightarrow> pystr \<Rightarrow> pystr \<Rightarrow> pystr \<Rightarrow> pystr \<Rightarrow> event \<Rightarrow> json" where
  "event_body_obj c eid seq prev t e =
    JObj [(lit ''v'', JInt 1), (lit ''run_id'', JStr (rc_run_id c)), (lit ''event_id'', JStr eid), (lit ''key_id'', JStr (rc_key_id c)),
          (lit ''seq'', JStr seq), (lit ''prev_hash'', JStr prev), (lit ''t_us'', JStr t), (lit ''kind'', JStr (kind_name (fst e))),
          (lit ''data'', snd e)]"

definition entry_obj :: "json \<Rightarrow> pystr \<Rightarrow> pystr \<Rightarrow> json" where
  "entry_obj body h sig = JObj [(lit ''body'', body), (lit ''hash'', JStr h), (lit ''sig'', JStr sig)]"

text \<open>The hash, the signature and the bytes of an entry.\<close>

definition seal :: "ed_lib \<Rightarrow> bytes \<Rightarrow> json \<Rightarrow> exn + pystr \<times> bytes" where
  "seal lib seed body =
    bindE (event_hash body) (\<lambda>h.
    bindE (event_sign_message h) (\<lambda>m.
    bindE (sign_b64 lib seed m) (\<lambda>sig.
    bindE (dumps (entry_obj body h sig)) (\<lambda>b. Inr (h, b)))))"

definition append_event :: "'w env \<Rightarrow> ed_lib \<Rightarrow> event \<Rightarrow> int \<times> pystr \<Rightarrow> ('w, int \<times> pystr) eng" where
  "append_event E lib e head =
    (let seq = fst head + 1
     in andthen (on_world (env_new_id E ID_event (\<lambda>_. False))) (\<lambda>eid.
        andthen (lift_r (u_str seq)) (\<lambda>s.
        andthen (t_us E) (\<lambda>t. andthen (lift_r (u_str t)) (\<lambda>ts.
        andthen (reads id) (\<lambda>r.
        andthen (lift_r (seal lib (rn_seed r) (event_body_obj (rn_core r) eid s (snd head) ts e))) (\<lambda>(h, b).
        andthen (on_db (event_append seq eid h b)) (\<lambda>_. ret (seq, h)))))))))"

definition view_of :: "pystr \<Rightarrow> action_rec \<Rightarrow> json" where
  "view_of aid a = JObj [(lit ''action_id'', JStr aid), (lit ''state'', JStr (action_state_name (ac_state a))),
     (lit ''result'', ac_result a), (lit ''error'', ac_error a)]"

fun token_state_name :: "token_state \<Rightarrow> pystr" where
  "token_state_name T_ISSUED = lit ''ISSUED''"
| "token_state_name T_EXPIRED = lit ''EXPIRED''"
| "token_state_name T_SPENT = lit ''SPENT''"

definition persist_token :: "('w, unit) eng" where
  "persist_token = andthen (reads rn_pending_token) (\<lambda>p. case p of
     None \<Rightarrow> ret ()
   | Some (token, action) \<Rightarrow>
       andthen (modify (\<lambda>r. r\<lparr>rn_pending_token := None\<rparr>)) (\<lambda>_.
       andthen (lift_r (dumps token)) (\<lambda>tb. andthen (lift_r (dumps action)) (\<lambda>ab.
         on_db (token_put token (lit ''ISSUED'') tb ab)))))"

definition persist_dispatch :: "('w, unit) eng" where
  "persist_dispatch = andthen (reads rn_pending_dispatch) (\<lambda>p. case p of
     None \<Rightarrow> ret ()
   | Some (action_id, action, channel_id) \<Rightarrow>
       andthen (modify (\<lambda>r. r\<lparr>rn_pending_dispatch := None\<rparr>)) (\<lambda>_.
       andthen (reads (\<lambda>r. map_of (rc_actions (rn_core r)) action_id)) (\<lambda>arec. case arec of
         None \<Rightarrow> raise (Py Key_Error)
       | Some a \<Rightarrow>
           andthen (lift_r (dumps (JObj [(lit ''action_id'', JStr action_id), (lit ''state'', JStr (lit ''DISPATCHED'')),
              (lit ''result'', JNull), (lit ''error'', JNull)]))) (\<lambda>v.
             on_db (action_put action_id (str_of (ac_token_id a)) channel_id (lit ''DISPATCHED'') v)))))"

definition persist_reservation :: "('w, unit) eng" where
  "persist_reservation = andthen (reads rn_pending_reservation) (\<lambda>p. case p of
     None \<Rightarrow> ret ()
   | Some (compute_id, res) \<Rightarrow>
       andthen (modify (\<lambda>r. r\<lparr>rn_pending_reservation := None\<rparr>)) (\<lambda>_.
       andthen (reads (\<lambda>r. map_of (rc_computes (rn_core r)) (str_of (fld res ''compute_id'')))) (\<lambda>crec. case crec of
         None \<Rightarrow> raise (Py Key_Error)
       | Some c \<Rightarrow> andthen (lift_r (dumps res)) (\<lambda>b. on_db (compute_put compute_id (cp_channel_id c) b)))))"

definition sync_token :: "pystr \<times> token_rec \<Rightarrow> ('w, unit) eng" where
  "sync_token kt = andthen (on_db (token_state_of (fst kt))) (\<lambda>cur.
     when_act (cur \<noteq> None \<and> cur \<noteq> Some (token_state_name (tk_state (snd kt))))
       (on_db (token_set_state (fst kt) (token_state_name (tk_state (snd kt))))))"

definition sync_action :: "pystr \<times> action_rec \<Rightarrow> ('w, unit) eng" where
  "sync_action ka = andthen (on_db (action_row (fst ka))) (\<lambda>row. case row of
     None \<Rightarrow> ret ()
   | Some x \<Rightarrow> when_act (ar_state x \<noteq> action_state_name (ac_state (snd ka)))
       (andthen (lift_r (dumps (view_of (fst ka) (snd ka)))) (\<lambda>v.
          on_db (action_set (fst ka) (action_state_name (ac_state (snd ka))) v))))"

definition sync_compute :: "pystr \<times> compute_rec \<Rightarrow> ('w, unit) eng" where
  "sync_compute kc = andthen (on_db (compute_row (fst kc))) (\<lambda>row. case row of
     None \<Rightarrow> ret ()
   | Some x \<Rightarrow> andthen (lift_r (loads (cr_reservation x))) (\<lambda>stored.
       when_act (canon stored \<noteq> canon (cp_reservation (snd kc)))
         (andthen (lift_r (dumps (cp_reservation (snd kc)))) (\<lambda>b. on_db (compute_set (fst kc) b)))))"

definition persist_side_effects :: "('w, unit) eng" where
  "persist_side_effects =
    andthen persist_token (\<lambda>_. andthen persist_dispatch (\<lambda>_. andthen persist_reservation (\<lambda>_.
    andthen (reads rn_core) (\<lambda>c.
    andthen (each_act sync_token (rc_tokens c)) (\<lambda>_.
    andthen (each_act sync_action (rc_actions c)) (\<lambda>_.
      each_act sync_compute (rc_computes c)))))))"

text \<open>The envelopes of \<open>_envelope\<close> and \<open>LexwattError.to_response\<close>.\<close>

definition error_response :: "code \<Rightarrow> pystr \<Rightarrow> json" where
  "error_response code req_id =
    JObj [(lit ''v'', JInt 1), (lit ''id'', JStr req_id), (lit ''ok'', JBool False),
          (lit ''error'', JObj [(lit ''code'', JStr (code_name code)), (lit ''retryable'', JBool (code = BUSY))])]"

definition envelope :: "pystr \<Rightarrow> json \<Rightarrow> code option \<Rightarrow> json" where
  "envelope req_id result error =
    (case error of
       Some code \<Rightarrow> error_response code req_id
     | None \<Rightarrow> JObj [(lit ''v'', JInt 1), (lit ''id'', JStr req_id), (lit ''ok'', JBool True), (lit ''result'', result)])"

definition store_reply :: "(pystr \<times> pystr \<times> pystr) option \<Rightarrow> json \<Rightarrow> code option \<Rightarrow> ('w, unit) eng" where
  "store_reply key result error = (case key of
     None \<Rightarrow> ret ()
   | Some (who, req_id, dg) \<Rightarrow>
       andthen (lift_r (dumps (envelope req_id result error))) (\<lambda>b. on_db (request_put who req_id dg b)))"

definition store_meta :: "('w, unit) eng" where
  "store_meta = andthen (reads rn_pending_meta) (\<lambda>kvs.
     andthen (each_act (\<lambda>kv. on_db (meta_set (fst kv) (snd kv))) kvs) (\<lambda>_. modify (\<lambda>r. r\<lparr>rn_pending_meta := []\<rparr>)))"

definition stamp_stop :: "'w env \<Rightarrow> event list \<Rightarrow> ('w, unit) eng" where
  "stamp_stop E es = when_act (K_StopLatched \<in> fst ` set es)
     (andthen (t_us E) (\<lambda>t. modify (\<lambda>r. r\<lparr>rn_core := (rn_core r)\<lparr>rc_stop_latched_us := Some t\<rparr>\<rparr>)))"

definition write_projection :: "'w env \<Rightarrow> int \<times> pystr \<Rightarrow> ('w, unit) eng" where
  "write_projection E head =
    andthen (status_object E) (\<lambda>st. andthen (lift_r (dumps st)) (\<lambda>proj. andthen (reads rn_core) (\<lambda>c.
      on_db (run_update (rc_run_id c) (state_name (rc_state c)) proj (fst head) (snd head) (map_option reason_name (rc_stop_reason c))))))"

definition commit_body :: "'w env \<Rightarrow> ed_lib \<Rightarrow> event list \<Rightarrow> (pystr \<times> pystr \<times> pystr) option \<Rightarrow> json \<Rightarrow> code option \<Rightarrow> ('w, unit) eng" where
  "commit_body E lib es key result error =
    andthen (on_db begin_txn) (\<lambda>_.
    andthen (on_db event_head) (\<lambda>head0.
    andthen (fold_act (append_event E lib) es head0) (\<lambda>head.
    andthen (stamp_stop E es) (\<lambda>_.
    andthen persist_side_effects (\<lambda>_.
    andthen store_meta (\<lambda>_.
    andthen (write_projection E head) (\<lambda>_.
    andthen (store_reply key result error) (\<lambda>_.
      on_db commit_txn))))))))"

text \<open>\<open>_commit\<close>: whatever is raised, the transaction is rolled back and the caller sees \<open>AuditFault\<close>.\<close>

definition commit :: "'w env \<Rightarrow> ed_lib \<Rightarrow> event list \<Rightarrow> (pystr \<times> pystr \<times> pystr) option \<Rightarrow> json \<Rightarrow> code option \<Rightarrow> ('w, unit) eng" where
  "commit E lib es key result error =
    handle_exn (commit_body E lib es key result error) (\<lambda>_. andthen (on_db rollback_txn) (\<lambda>_. raise AuditFault))"

abbreviation commit_events :: "'w env \<Rightarrow> ed_lib \<Rightarrow> event list \<Rightarrow> ('w, unit) eng" where
  "commit_events E lib es \<equiv> commit E lib es None JNull None"

end
