(* ===== verification/EngineCommit.thy ===== *)
theory EngineCommit imports Engine begin

text \<open>
  What \<open>Run._commit\<close> does to the journal, whatever statement of the storage fails and on whatever host whose
  clock does not go back: it either raises \<open>AuditFault\<close> and leaves the committed tables as they were, or
  extends the committed log by one sealed entry per event, in order, linked to the entries before.
\<close>

section \<open>Sealed logs\<close>

text \<open>A row of the event table and the entry it stores.\<close>

definition sealed :: "ed_lib \<Rightarrow> bytes \<Rightarrow> event_row \<Rightarrow> json \<Rightarrow> bool" where
  "sealed lib seed row e \<longleftrightarrow> (\<exists>body sig m. e = entry_obj body (ev_hash row) sig \<and> event_hash body = Inr (ev_hash row) \<and>
     event_sign_message (ev_hash row) = Inr m \<and> sign_b64 lib seed m = Inr sig \<and> dumps e = Inr (ev_entry row))"

definition owned :: "pystr \<Rightarrow> pystr \<Rightarrow> int \<Rightarrow> json \<Rightarrow> bool" where
  "owned rid kid limit e \<longleftrightarrow> fld (body_at e) ''run_id'' = JStr rid \<and> fld (body_at e) ''key_id'' = JStr kid \<and>
     u_of (fld (body_at e) ''t_us'') \<le> limit"

definition chain_inv :: "ed_lib \<Rightarrow> bytes \<Rightarrow> pystr \<Rightarrow> pystr \<Rightarrow> int \<Rightarrow> journal \<Rightarrow> json list \<Rightarrow> bool" where
  "chain_inv lib seed rid kid limit j es \<longleftrightarrow>
     log_ok j \<and> list_all2 (sealed lib seed) (jn_event j) es \<and> linked es \<and> (\<forall>e \<in> set es. owned rid kid limit e)"

text \<open>The entry carries the event.\<close>

definition carries :: "json \<Rightarrow> event \<Rightarrow> bool" where
  "carries e ev \<longleftrightarrow> fld (body_at e) ''kind'' = JStr (kind_name (fst ev)) \<and> fld (body_at e) ''data'' = snd ev"

lemma entry_fld [simp]:
  "fld (entry_obj b h s) ''body'' = b" "fld (entry_obj b h s) ''hash'' = JStr h" "fld (entry_obj b h s) ''sig'' = JStr s"
  by (simp_all add: entry_obj_def fld_JObj)

lemma body_fld [simp]:
  "fld (event_body_obj c eid s p t e) ''run_id'' = JStr (rc_run_id c)" "fld (event_body_obj c eid s p t e) ''key_id'' = JStr (rc_key_id c)"
  "fld (event_body_obj c eid s p t e) ''seq'' = JStr s" "fld (event_body_obj c eid s p t e) ''prev_hash'' = JStr p"
  "fld (event_body_obj c eid s p t e) ''t_us'' = JStr t" "fld (event_body_obj c eid s p t e) ''kind'' = JStr (kind_name (fst e))"
  "fld (event_body_obj c eid s p t e) ''data'' = snd e"
  by (simp_all add: event_body_obj_def fld_JObj)

lemma linked_snoc:
  "linked (es @ [e]) \<longleftrightarrow> linked es \<and> u_of (fld (body_at e) ''seq'') = int (length es) + 1 \<and>
     fld (body_at e) ''prev_hash'' = (if es = [] then JStr ZERO_HASH else fld (last es) ''hash'') \<and>
     (es \<noteq> [] \<longrightarrow> fld (body_at e) ''run_id'' = fld (body_at (hd es)) ''run_id'' \<and>
        fld (body_at e) ''key_id'' = fld (body_at (hd es)) ''key_id'' \<and>
        u_of (fld (body_at (last es)) ''t_us'') \<le> u_of (fld (body_at e) ''t_us''))"
proof -
  have old: "(es @ [e]) ! i = es ! i" "(es @ [e]) ! (i - 1) = es ! (i - 1)" "(es @ [e]) ! 0 = es ! 0" if "i < length es" for i
    using that by (auto simp: nth_append)
  show ?thesis
  proof (cases "es = []")
    case False
    then have z: "(es @ [e]) ! 0 = hd es" "es ! 0 = hd es" "(es @ [e]) ! (length es - 1) = last es"
      by (simp_all add: nth_append hd_conv_nth last_conv_nth)
    show ?thesis
      unfolding linked_def length_append_singleton All_less_Suc using False old z
      by (auto simp: nth_append)
  qed (simp add: linked_def)
qed

lemma chain_head:
  assumes "chain_inv lib seed rid kid limit j es"
  shows "head_of j = (int (length es), if es = [] then ZERO_HASH else str_of (fld (last es) ''hash''))"
    "es \<noteq> [] \<Longrightarrow> fld (last es) ''hash'' = JStr (snd (head_of j))"
proof -
  have l: "list_all2 (sealed lib seed) (jn_event j) es" and ok: "log_ok j" using assms by (simp_all add: chain_inv_def)
  have len: "length (jn_event j) = length es" using l by (rule list_all2_lengthD)
  have "fld (last es) ''hash'' = JStr (ev_hash (last (jn_event j)))" if "es \<noteq> []"
  proof -
    have "sealed lib seed (last (jn_event j)) (last es)"
      using l that len by (cases es rule: rev_cases; cases "jn_event j" rule: rev_cases) (auto simp: list_all2_append)
    then show ?thesis by (auto simp: sealed_def)
  qed
  then show "head_of j = (int (length es), if es = [] then ZERO_HASH else str_of (fld (last es) ''hash''))"
    "es \<noteq> [] \<Longrightarrow> fld (last es) ''hash'' = JStr (snd (head_of j))"
    using log_ok_head [OF ok] len by (auto simp: str_of_def ZERO_HASH_def)
qed

lemma sealI:
  assumes "seal lib seed body = Inr (h, b)"
  shows "\<exists>sig. sealed lib seed \<lparr>ev_seq = n, ev_id = i, ev_hash = h, ev_entry = b\<rparr> (entry_obj body h sig)"
  using assms by (auto simp: seal_def sealed_def result_simps)

text \<open>One more entry.\<close>

lemma chain_snoc:
  assumes inv: "chain_inv lib seed rid kid limit j es" and n: "n = int (length es) + 1"
    and ins: "event_insert \<lparr>ev_seq = n, ev_id = i, ev_hash = h, ev_entry = b\<rparr> j = Some j'"
    and seal: "seal lib seed body = Inr (h, b)"
    and body: "fld body ''run_id'' = JStr rid" "fld body ''key_id'' = JStr kid" "u_of (fld body ''seq'') = n"
      "fld body ''prev_hash'' = JStr (snd (head_of j))" "limit \<le> u_of (fld body ''t_us'')" "u_of (fld body ''t_us'') \<le> limit'"
  shows "\<exists>sig. chain_inv lib seed rid kid limit' j' (es @ [entry_obj body h sig])"
proof -
  let ?row = "\<lparr>ev_seq = n, ev_id = i, ev_hash = h, ev_entry = b\<rparr>"
  obtain sig where s: "sealed lib seed ?row (entry_obj body h sig)" using sealI [OF seal] by blast
  have l: "log_ok j" "list_all2 (sealed lib seed) (jn_event j) es" "linked es" "\<And>e. e \<in> set es \<Longrightarrow> owned rid kid limit e"
    using inv by (simp_all add: chain_inv_def)
  have "fst (head_of j) = int (length es)" using chain_head(1) [OF inv] by simp
  then have j': "log_ok j' \<and> jn_event j' = jn_event j @ [?row]"
    using log.append_rows [OF l(1) _ ins] n by simp
  have "\<forall>e \<in> set es. owned rid kid limit' e" using l(4) body(5,6) by (force simp: owned_def)
  moreover have "es \<noteq> [] \<Longrightarrow> owned rid kid limit (hd es) \<and> owned rid kid limit (last es)" using l(4) by simp
  then have "linked (es @ [entry_obj body h sig])"
    using l(3) body n chain_head [OF inv] by (auto simp: linked_snoc owned_def)
  moreover have "owned rid kid limit' (entry_obj body h sig)" using body by (simp add: owned_def)
  ultimately show ?thesis
    using j' l(2) s by (intro exI [of _ sig]) (simp add: chain_inv_def list_all2_appendI)
qed

section \<open>Inside the transaction\<close>

lemma on_db_eq: "on_db m r = (x, r') \<longleftrightarrow> (\<exists>d. m (rn_db r) = (x, d) \<and> r' = r\<lparr>rn_db := d\<rparr>)"
  by (auto simp: on_db_def split: prod.splits)

lemma on_world_eq: "on_world m r = (x, r') \<longleftrightarrow> (\<exists>w. m (rn_world r) = (x, w) \<and> r' = r\<lparr>rn_world := w\<rparr>)"
  by (auto simp: on_world_def split: prod.splits)

lemma t_us_eq: "t_us E r = (Inr t, r') \<longleftrightarrow> (\<exists>n w. env_boottime_us E (rn_world r) = (n, w) \<and> t = n - rn_origin_us r \<and> r' = r\<lparr>rn_world := w\<rparr>)"
  by (auto simp: t_us_def now_us_def andthen_def reads_def split: prod.splits)

lemma lift_r_eq: "lift_r x r = (y, r') \<longleftrightarrow> x = y \<and> r' = r"
  by (auto simp: lift_r_def)

lemmas eng_eqs = andthen_eq_Inr on_db_eq on_world_eq t_us_eq lift_r_eq ret_def reads_def modify_def

lemma execute_main: "execute f d = (x, d') \<Longrightarrow> in_txn M d \<Longrightarrow> in_txn M d'"
  using in_txn_execute [of M f] by (force simp: keeps_def)

text \<open>Nothing before the final statement touches the committed tables.\<close>

definition inside :: "journal \<Rightarrow> 'w run \<Rightarrow> bool" where
  "inside M r \<longleftrightarrow> in_txn M (rn_db r)"

lemma inside_prims:
  "keeps (inside M) (on_db (query f))" "keeps (inside M) (on_db (execute g))" "keeps (inside M) (on_world m)" "keeps (inside M) (now_us E)"
  using in_txn_query [of M f] in_txn_execute [of M g]
  by (auto simp: keeps_def inside_def on_db_def on_world_def now_us_def split: prod.splits)

lemma inside_modify: "(\<And>r. rn_db (f r) = rn_db r) \<Longrightarrow> keeps (inside M) (modify f)"
  by (rule keeps_modify) (simp add: inside_def)

lemmas statement_defs = meta_set_def meta_get_def run_update_def run_row_def event_head_def request_get_def request_put_def
  request_insert_def token_put_def token_state_of_def token_set_state_def action_put_def action_set_def action_row_def
  compute_put_def compute_set_def compute_row_def event_append_def

lemma inside_statements:
  "keeps (inside M) (on_db (meta_set k v))" "keeps (inside M) (on_db (run_update a b c n h s))"
  "keeps (inside M) (on_db event_head)" "keeps (inside M) (on_db (request_put w q dg rs))"
  "keeps (inside M) (on_db (token_put tok st tb ab))" "keeps (inside M) (on_db (token_state_of tid))"
  "keeps (inside M) (on_db (token_set_state tid st))" "keeps (inside M) (on_db (action_put aid tid ch st vw))"
  "keeps (inside M) (on_db (action_set aid st vw))" "keeps (inside M) (on_db (action_row aid))"
  "keeps (inside M) (on_db (compute_put cid ch rs))" "keeps (inside M) (on_db (compute_set cid rs))"
  "keeps (inside M) (on_db (compute_row cid))" "keeps (inside M) (on_db (event_append n i h b))"
  unfolding statement_defs by (rule inside_prims)+

lemmas inside_intros = flow_intros inside_statements inside_prims(3,4) inside_modify

lemma inside_parts:
  "keeps (inside M) (sync_token kt)" "keeps (inside M) (sync_action ka)" "keeps (inside M) (sync_compute kc)"
  "keeps (inside M) persist_token" "keeps (inside M) persist_dispatch" "keeps (inside M) persist_reservation"
  "keeps (inside M) (u_text_of n)" "keeps (inside M) (t_us E)" "keeps (inside M) (elapsed_us E)"
  unfolding sync_token_def sync_action_def sync_compute_def persist_token_def persist_dispatch_def persist_reservation_def
    u_text_of_def t_us_def elapsed_us_def by (intro inside_intros; simp)+

lemma inside_steps:
  "keeps (inside M) (append_event E lib ev head)" "keeps (inside M) (stamp_stop E evs)" "keeps (inside M) persist_side_effects"
  "keeps (inside M) store_meta" "keeps (inside M) (write_projection E head)" "keeps (inside M) (store_reply key result error)"
  unfolding append_event_def stamp_stop_def persist_side_effects_def store_meta_def write_projection_def store_reply_def
    status_object_def head_json_def coverage_def by (intro inside_intros inside_parts; simp)+

lemma begin_inside: "on_db begin_txn r = (Inr (), r') \<Longrightarrow> inside (db_main (rn_db r)) r'"
proof -
  assume "on_db begin_txn r = (Inr (), r')"
  then obtain d where d: "begin_txn (rn_db r) = (Inr (), d)" "r' = r\<lparr>rn_db := d\<rparr>" by (auto simp: on_db_eq)
  from d(1) show ?thesis by (cases rule: begin_txn_cases) (use d(2) in \<open>simp_all add: inside_def\<close>)
qed

text \<open>The committed log is a sealed chain of entries of this run, none later than now.\<close>

definition settled :: "('w \<Rightarrow> int) \<Rightarrow> ed_lib \<Rightarrow> json list \<Rightarrow> 'w run \<Rightarrow> bool" where
  "settled now lib es r \<longleftrightarrow> chain_inv lib (rn_seed r) (rc_run_id (rn_core r)) (rc_key_id (rn_core r))
     (now (rn_world r) - rn_origin_us r) (db_main (rn_db r)) es"

context steady_env
begin

definition writing :: "ed_lib \<Rightarrow> journal \<Rightarrow> json list \<Rightarrow> 'w run \<Rightarrow> bool" where
  "writing lib M es r \<longleftrightarrow> in_txn M (rn_db r) \<and> chain_inv lib (rn_seed r) (rc_run_id (rn_core r)) (rc_key_id (rn_core r))
     (now (rn_world r) - rn_origin_us r) (db_view (rn_db r)) es"

text \<open>What a transaction may change: the connection and the world.\<close>

definition frame :: "'w run \<Rightarrow> 'w run \<Rightarrow> bool" where
  "frame r r' \<longleftrightarrow> (\<exists>d w. r' = r\<lparr>rn_db := d, rn_world := w\<rparr>)"

lemma frame_refl: "frame r r"
  unfolding frame_def by (intro exI [of _ "rn_db r"] exI [of _ "rn_world r"]) (cases r, simp)

lemma frame_trans: "frame a b \<Longrightarrow> frame b c \<Longrightarrow> frame a c"
  unfolding frame_def by (elim exE) (simp, blast)

lemma append_event_writes:
  assumes w: "writing lib M es r" and h: "head = head_of (db_view (rn_db r))"
    and a: "append_event E lib ev head r = (Inr head', r')"
  shows "\<exists>e. writing lib M (es @ [e]) r' \<and> carries e ev \<and> head' = head_of (db_view (rn_db r')) \<and> frame r r'"
proof -
  let ?j = "db_view (rn_db r)" and ?n = "fst head + 1"
  have inv: "chain_inv lib (rn_seed r) (rc_run_id (rn_core r)) (rc_key_id (rn_core r)) (now (rn_world r) - rn_origin_us r) ?j es"
    and txn: "in_txn M (rn_db r)" using w by (simp_all add: writing_def)
  obtain eid w1 s m w2 ts hb b d where
      eid: "env_new_id E ID_event (\<lambda>_. False) (rn_world r) = (Inr eid, w1)" and s: "u_str ?n = Inr s"
    and clk: "env_boottime_us E w1 = (m, w2)" and ts: "u_str (m - rn_origin_us r) = Inr ts"
    and seal: "seal lib (rn_seed r) (event_body_obj (rn_core r) eid s (snd head) ts ev) = Inr (hb, b)"
    and app: "event_append ?n eid hb b (rn_db r) = (Inr (), d)"
    and r': "r' = r\<lparr>rn_world := w2, rn_db := d\<rparr>" and head': "head' = (?n, hb)"
    using a by (auto simp: append_event_def Let_def eng_eqs split: prod.splits)
  obtain j' where j': "event_insert \<lparr>ev_seq = ?n, ev_id = eid, ev_hash = hb, ev_entry = b\<rparr> ?j = Some j'" "db_view d = j'"
    using execute_Inr [OF app [unfolded event_append_def]] by blast
  have "now (rn_world r) \<le> now w1" using eid by (rule new_id_clock)
  then have times: "now (rn_world r) \<le> m" "m \<le> now w2" using clock [OF clk] by simp_all
  have len: "?n = int (length es) + 1" using chain_head(1) [OF inv] by (simp add: h)
  have "\<exists>sig. chain_inv lib (rn_seed r) (rc_run_id (rn_core r)) (rc_key_id (rn_core r)) (now w2 - rn_origin_us r) j'
      (es @ [entry_obj (event_body_obj (rn_core r) eid s (snd head) ts ev) hb sig])"
    by (rule chain_snoc [OF inv len j'(1) seal]) (use times u_of_u_str [OF s] u_of_u_str [OF ts] in \<open>simp_all add: h\<close>)
  then obtain sig where new: "chain_inv lib (rn_seed r) (rc_run_id (rn_core r)) (rc_key_id (rn_core r)) (now w2 - rn_origin_us r) j'
      (es @ [entry_obj (event_body_obj (rn_core r) eid s (snd head) ts ev) hb sig])" by blast
  moreover have "head' = head_of j'"
    using inv log.head_after [OF _ _ j'(1)] by (simp add: chain_inv_def h head')
  moreover have "in_txn M d" by (rule execute_main [OF app [unfolded event_append_def] txn])
  moreover have "frame r r'" unfolding frame_def r' by (intro exI [of _ d] exI [of _ w2]) (cases r, simp)
  ultimately show ?thesis
    by (intro exI [of _ "entry_obj (event_body_obj (rn_core r) eid s (snd head) ts ev) hb sig"])
      (simp add: writing_def r' j'(2) carries_def)
qed


lemma append_events_write:
  "writing lib M es r \<Longrightarrow> head = head_of (db_view (rn_db r)) \<Longrightarrow> fold_act (append_event E lib) evs head r = (Inr head', r') \<Longrightarrow>
   \<exists>new. writing lib M (es @ new) r' \<and> list_all2 carries new evs \<and> head' = head_of (db_view (rn_db r')) \<and> frame r r'"
proof (induction evs arbitrary: es head r)
  case Nil
  then show ?case by (intro exI [of _ "[]"]) (auto simp: ret_def frame_refl)
next
  case (Cons ev evs)
  then obtain h r1 where one: "append_event E lib ev head r = (Inr h, r1)" and rest: "fold_act (append_event E lib) evs h r1 = (Inr head', r')"
    by (auto simp: andthen_eq_Inr)
  obtain e where e: "writing lib M (es @ [e]) r1" "carries e ev" "h = head_of (db_view (rn_db r1))" "frame r r1"
    using append_event_writes [OF Cons.prems(1,2) one] by blast
  obtain new where "writing lib M ((es @ [e]) @ new) r'" "list_all2 carries new evs" "head' = head_of (db_view (rn_db r'))" "frame r1 r'"
    using Cons.IH [OF e(1,3) rest] by blast
  then show ?case using e frame_trans by (intro exI [of _ "e # new"]) auto
qed

lemma writing_cong:
  "writing lib M es r \<Longrightarrow> rn_seed r' = rn_seed r \<Longrightarrow> rc_run_id (rn_core r') = rc_run_id (rn_core r) \<Longrightarrow>
   rc_key_id (rn_core r') = rc_key_id (rn_core r) \<Longrightarrow> rn_origin_us r' = rn_origin_us r \<Longrightarrow> now (rn_world r) \<le> now (rn_world r') \<Longrightarrow>
   in_txn M (rn_db r') \<Longrightarrow> jn_event (db_view (rn_db r')) = jn_event (db_view (rn_db r)) \<Longrightarrow> writing lib M es r'"
  by (force simp: writing_def chain_inv_def log_ok_def owned_def)

lemma writing_modify: "(\<And>r. rn_seed (f r) = rn_seed r \<and> rc_run_id (rn_core (f r)) = rc_run_id (rn_core r) \<and>
    rc_key_id (rn_core (f r)) = rc_key_id (rn_core r) \<and> rn_origin_us (f r) = rn_origin_us r \<and> rn_world (f r) = rn_world r \<and>
    rn_db (f r) = rn_db r) \<Longrightarrow> keeps (writing lib M es) (modify f)"
  by (rule keeps_modify) (simp add: writing_def)

lemma writing_query: "keeps (writing lib M es) (on_db (query f))"
  by (rule keepsI, rule writing_cong, assumption) (auto simp: on_db_def query_def writing_def in_txn_def)

lemma writing_execute:
  "(\<And>j j'. f j = Some j' \<Longrightarrow> jn_event j' = jn_event j) \<Longrightarrow> keeps (writing lib M es) (on_db (execute f))"
  by (rule keepsI, rule writing_cong, assumption)
    (auto simp: on_db_def execute_def writing_def in_txn_def db_write_def db_view_def split: option.split)

lemma writing_now: "keeps (writing lib M es) (now_us E)"
proof (rule keepsI)
  fix r assume w: "writing lib M es r"
  obtain t v where tv: "env_boottime_us E (rn_world r) = (t, v)" by (cases "env_boottime_us E (rn_world r)")
  then have "now (rn_world r) \<le> now v" using clock [OF tv] by simp
  with w tv show "writing lib M es (snd (now_us E r))"
    by (intro writing_cong [OF w]) (auto simp: now_us_def writing_def)
qed

lemma writing_statements:
  "keeps (writing lib M es) (on_db (meta_set k v))" "keeps (writing lib M es) (on_db (run_update a b c n h s))"
  "keeps (writing lib M es) (on_db event_head)" "keeps (writing lib M es) (on_db (request_put w q dg rs))"
  "keeps (writing lib M es) (on_db (token_put tok st tb ab))" "keeps (writing lib M es) (on_db (token_state_of tid))"
  "keeps (writing lib M es) (on_db (token_set_state tid st))" "keeps (writing lib M es) (on_db (action_put aid tid ch st vw))"
  "keeps (writing lib M es) (on_db (action_set aid st vw))" "keeps (writing lib M es) (on_db (action_row aid))"
  "keeps (writing lib M es) (on_db (compute_put cid ch rs))" "keeps (writing lib M es) (on_db (compute_set cid rs))"
  "keeps (writing lib M es) (on_db (compute_row cid))"
  unfolding statement_defs by ((rule writing_query | rule writing_execute), (auto simp: Let_def split: if_splits)?)+

lemmas writing_intros = flow_intros writing_statements writing_now writing_modify

lemma writing_sync:
  "keeps (writing lib M es) (sync_token kt)" "keeps (writing lib M es) (sync_action ka)" "keeps (writing lib M es) (sync_compute kc)"
  unfolding sync_token_def sync_action_def sync_compute_def by (intro writing_intros)+

lemma writing_pending:
  "keeps (writing lib M es) persist_token" "keeps (writing lib M es) persist_dispatch" "keeps (writing lib M es) persist_reservation"
  unfolding persist_token_def persist_dispatch_def persist_reservation_def by (intro writing_intros; simp)+

lemma writing_text: "keeps (writing lib M es) (u_text_of n)" "keeps (writing lib M es) (t_us E)" "keeps (writing lib M es) (elapsed_us E)"
  unfolding u_text_of_def t_us_def elapsed_us_def by (intro writing_intros)+

lemma writing_status: "keeps (writing lib M es) (status_object E)"
  unfolding status_object_def head_json_def coverage_def by (intro writing_intros writing_text)

lemma writing_parts:
  "keeps (writing lib M es) (stamp_stop E evs)" "keeps (writing lib M es) persist_side_effects"
  "keeps (writing lib M es) store_meta" "keeps (writing lib M es) (write_projection E head)"
  "keeps (writing lib M es) (store_reply key result error)"
  unfolding stamp_stop_def persist_side_effects_def store_meta_def write_projection_def store_reply_def
  by (intro writing_intros writing_sync writing_pending writing_text writing_status; simp)+

section \<open>The transaction as a whole\<close>

lemma begin_writing:
  assumes "settled now lib es r" "on_db begin_txn r = (Inr (), r')"
  shows "writing lib (db_main (rn_db r)) es r'"
proof -
  obtain d where d: "begin_txn (rn_db r) = (Inr (), d)" "r' = r\<lparr>rn_db := d\<rparr>" using assms(2) by (auto simp: on_db_eq)
  from d(1) show ?thesis
    by (cases rule: begin_txn_cases) (use assms(1) d(2) in \<open>simp_all add: writing_def settled_def\<close>)
qed

lemma event_head_view: "on_db event_head r = (Inr h, r') \<Longrightarrow> h = head_of (db_view (rn_db r)) \<and> db_view (rn_db r') = db_view (rn_db r)"
  by (auto simp: on_db_eq event_head_def dest: query_Inr)

lemma writing_result: "keeps (writing lib M es) m \<Longrightarrow> writing lib M es r \<Longrightarrow> m r = (x, r') \<Longrightarrow> writing lib M es r'"
  by (rule keepsD)

lemma commit_body_settles:
  assumes s: "settled now lib es r" and c: "commit_body E lib evs key result error r = (Inr (), r')"
  shows "\<exists>new. settled now lib (es @ new) r' \<and> list_all2 carries new evs \<and> db_txn (rn_db r') = None"
proof -
  let ?M = "db_main (rn_db r)"
  obtain r1 h0 r2 h1 r3 r4 r5 r6 r7 r8 where
      1: "on_db begin_txn r = (Inr (), r1)" and 2: "on_db event_head r1 = (Inr h0, r2)"
    and 3: "fold_act (append_event E lib) evs h0 r2 = (Inr h1, r3)" and 4: "stamp_stop E evs r3 = (Inr (), r4)"
    and 5: "persist_side_effects r4 = (Inr (), r5)" and 6: "store_meta r5 = (Inr (), r6)"
    and 7: "write_projection E h1 r6 = (Inr (), r7)" and 8: "store_reply key result error r7 = (Inr (), r8)"
    and 9: "on_db commit_txn r8 = (Inr (), r')"
    using c by (auto simp: commit_body_def andthen_eq_Inr)
  have w1: "writing lib ?M es r1" by (rule begin_writing [OF s 1])
  have w2: "writing lib ?M es r2" by (rule writing_result [OF writing_statements(3) w1 2])
  obtain new where new: "writing lib ?M (es @ new) r3" "list_all2 carries new evs"
    using append_events_write [OF w2 _ 3] event_head_view [OF 2] by auto
  note w4 = writing_result [OF writing_parts(1) new(1) 4]
  note w5 = writing_result [OF writing_parts(2) w4 5]
  note w6 = writing_result [OF writing_parts(3) w5 6]
  note w7 = writing_result [OF writing_parts(4) w6 7]
  note w8 = writing_result [OF writing_parts(5) w7 8]
  obtain d where d: "commit_txn (rn_db r8) = (Inr (), d)" "r' = r8\<lparr>rn_db := d\<rparr>" using 9 by (auto simp: on_db_eq)
  have "in_txn ?M (rn_db r8)" using w8 by (simp add: writing_def)
  from d(1) this have "db_main d = db_view (rn_db r8) \<and> db_txn d = None"
    by (cases rule: commit_txn_cases) auto
  then show ?thesis using w8 new(2) d(2) by (auto simp: writing_def settled_def)
qed

end

lemma commit_body_fails:
  assumes "commit_body E lib evs key result error r = (Inl e, r')"
  shows "db_main (rn_db r') = db_main (rn_db r)"
proof -
  let ?M = "db_main (rn_db r)"
  let ?rest = "\<lambda>_. andthen (on_db event_head) (\<lambda>head0. andthen (fold_act (append_event E lib) evs head0) (\<lambda>head.
    andthen (stamp_stop E evs) (\<lambda>_. andthen persist_side_effects (\<lambda>_. andthen store_meta (\<lambda>_.
    andthen (write_projection E head) (\<lambda>_. store_reply key result error))))))"
  have split: "commit_body E lib evs key result error = andthen (andthen (on_db begin_txn) ?rest) (\<lambda>_. on_db commit_txn)"
    by (simp add: commit_body_def andthen_assoc)
  have rest: "keeps (inside ?M) (?rest ())"
    by (intro inside_intros inside_steps)
  consider (at_begin) "on_db begin_txn r = (Inl e, r')" | (middle) r1 where "on_db begin_txn r = (Inr (), r1)" "?rest () r1 = (Inl e, r')"
    | (last) r1 r2 where "on_db begin_txn r = (Inr (), r1)" "?rest () r1 = (Inr (), r2)" "on_db commit_txn r2 = (Inl e, r')"
    using assms unfolding split by (auto simp: andthen_eq_Inl andthen_eq_Inr)
  then show ?thesis
  proof cases
    case at_begin
    then obtain d where "begin_txn (rn_db r) = (Inl e, d)" "r' = r\<lparr>rn_db := d\<rparr>" by (auto simp: on_db_eq)
    from this(1) show ?thesis by (cases rule: begin_txn_cases) (use \<open>r' = _\<close> in auto)
  next
    case (middle r1)
    have "inside ?M r1" using begin_inside [OF middle(1)] .
    from keepsD [OF rest this middle(2)] show ?thesis by (simp add: inside_def in_txn_def)
  next
    case (last r1 r2)
    have "inside ?M r1" using begin_inside [OF last(1)] .
    from keepsD [OF rest this last(2)] have i: "in_txn ?M (rn_db r2)" by (simp add: inside_def)
    obtain d where d: "commit_txn (rn_db r2) = (Inl e, d)" "r' = r2\<lparr>rn_db := d\<rparr>" using last(3) by (auto simp: on_db_eq)
    from d(1) i have "in_txn ?M d" by (cases rule: commit_txn_cases) auto
    then show ?thesis by (simp add: d(2) in_txn_def)
  qed
qed

end
