(* ===== verification/EngineOps.thy ===== *)
theory EngineOps imports Engine Cpulist begin

text \<open>
  Models the rest of \<open>Run\<close> (\<open>src/lexwatt/engine.py\<close>): creation, arming, sampling and the energy guard, stop and
  containment, and the per-tick safety pass. Conventions are those of the theory \<open>Engine\<close>: one definition per
  method, its calls in the order of the code, its \<open>try\<close> blocks as \<open>handle_exn\<close>.
\<close>

section \<open>Handlers\<close>

text \<open>\<open>except LexwattError as e\<close> and \<open>except Exception\<close>.\<close>

definition catch_lexwatt :: "('s, 'a) act \<Rightarrow> (code \<Rightarrow> ('s, 'a) act) \<Rightarrow> ('s, 'a) act" where
  "catch_lexwatt m h = handle_exn m (\<lambda>e. case exn_code e of Some c \<Rightarrow> h c | None \<Rightarrow> raise e)"

definition catch_any :: "('s, 'a) act \<Rightarrow> ('s, 'a) act \<Rightarrow> ('s, 'a) act" where
  "catch_any m h = handle_exn m (\<lambda>_. h)"

definition catch_audit :: "('s, unit) act \<Rightarrow> ('s, unit) act" where
  "catch_audit m = handle_exn m (\<lambda>e. if e = AuditFault then ret () else raise e)"

definition the_cgroup :: "('w, pystr) eng" where
  "the_cgroup = andthen (reads rn_cgroup) (\<lambda>c. case c of None \<Rightarrow> raise (Py Attribute_Error) | Some cg \<Rightarrow> ret cg)"

text \<open>\<open>if out.events: self._commit(out, ...)\<close>\<close>

definition commit_some :: "'w env \<Rightarrow> ed_lib \<Rightarrow> outcome \<Rightarrow> ('w, unit) eng" where
  "commit_some E lib out = when_act (oc_events out \<noteq> []) (commit_events E lib (oc_events out))"

definition state_of :: "('w, run_state) eng" where "state_of = reads (\<lambda>r. rc_state (rn_core r))"

section \<open>Lifecycle\<close>

definition created :: "'w env \<Rightarrow> ed_lib \<Rightarrow> pystr \<Rightarrow> ('w, unit) eng" where
  "created E lib chash =
    andthen (now_us E) (\<lambda>n. andthen (modify (\<lambda>r. r\<lparr>rn_origin_us := n\<rparr>)) (\<lambda>_.
    andthen (reads id) (\<lambda>r.
    andthen (lift_r (utf8_encode (env_boot_id E (rn_world r)))) (\<lambda>boot.
    andthen (lift_r (utf8_encode (rc_key_id (rn_core r)))) (\<lambda>key.
    andthen (lift_r (dumps (config_of r))) (\<lambda>cfg. andthen (lift_r (dumps (rn_execv r))) (\<lambda>ex.
    andthen (lift_r (utf8_encode chash)) (\<lambda>ch.
    andthen (modify (\<lambda>r. r\<lparr>rn_pending_meta := [(lit ''storage_major'', lit ''1''), (lit ''boot_id'', boot), (lit ''key_id'', key),
        (lit ''config'', cfg), (lit ''exec'', ex), (lit ''config_hash'', ch)]\<rparr>)) (\<lambda>_.
      commit_events E lib [(K_RunCreated, JObj [(lit ''config_hash'', JStr chash)])])))))))))"

definition run_arming :: "'w env \<Rightarrow> ed_lib \<Rightarrow> ('w, unit) eng" where
  "run_arming E lib = andthen (on_core (\<lambda>c. case arming c of (es, c') \<Rightarrow> (Inr es, c'))) (commit_events E lib)"

definition run_reject :: "'w env \<Rightarrow> ed_lib \<Rightarrow> code \<Rightarrow> ('w, unit) eng" where
  "run_reject E lib code =
    andthen (modify (\<lambda>r. r\<lparr>rn_rejected_code := Some code\<rparr>)) (\<lambda>_.
    andthen (on_core (total (reject code))) (\<lambda>out. commit_events E lib (oc_events out)))"

section \<open>Samples\<close>

definition reading_obj :: "pystr \<Rightarrow> int \<Rightarrow> int \<Rightarrow> int \<Rightarrow> ('w, json) eng" where
  "reading_obj d counter rng t =
    andthen (u_text_of counter) (\<lambda>c. andthen (u_text_of rng) (\<lambda>g. andthen (u_text_of t) (\<lambda>s.
      ret (JObj [(lit ''domain'', JStr d), (lit ''counter_uj'', c), (lit ''range_uj'', g), (lit ''read_t_us'', s)]))))"

definition gap_of :: "json list \<Rightarrow> int" where
  "gap_of readings =
    (case map (\<lambda>x. u_of (fld x ''read_t_us'')) readings of
       t # t' # ts \<Rightarrow> fold max (t' # ts) t - fold min (t' # ts) t
     | _ \<Rightarrow> 0)"

definition sample_obj :: "int \<Rightarrow> int \<Rightarrow> int \<Rightarrow> json list \<Rightarrow> int \<Rightarrow> int \<Rightarrow> ('w, json) eng" where
  "sample_obj index t cpu readings delta total_uj =
    andthen (u_text_of index) (\<lambda>i. andthen (u_text_of t) (\<lambda>ts. andthen (u_text_of cpu) (\<lambda>c.
    andthen (u_text_of delta) (\<lambda>d. andthen (u_text_of total_uj) (\<lambda>e. andthen (u_text_of (gap_of readings)) (\<lambda>g.
      ret (JObj [(lit ''index'', i), (lit ''t_us'', ts), (lit ''cpu_us'', c), (lit ''readings'', JArr readings),
                 (lit ''delta_uj'', d), (lit ''total_uj'', e), (lit ''max_gap_us'', g)])))))))"

definition cpu_since_baseline :: "'w env \<Rightarrow> ('w, int) eng" where
  "cpu_since_baseline E =
    andthen the_cgroup (\<lambda>cg. andthen (on_world (env_cgroup_usage_us E cg)) (\<lambda>u. reads (\<lambda>r. u - rn_baseline_cpu_us r)))"

definition read_plain :: "'w env \<Rightarrow> pystr \<Rightarrow> json list \<Rightarrow> ('w, json list) eng" where
  "read_plain E d acc =
    andthen (on_world (env_read_domain E d)) (\<lambda>(counter, rng, rt).
    andthen (reads rn_origin_us) (\<lambda>o0. andthen (reading_obj d counter rng (rt - o0)) (\<lambda>x. ret (acc @ [x]))))"

text \<open>\<open>_read_sample\<close>, the baseline\<close>

definition read_sample :: "'w env \<Rightarrow> int \<Rightarrow> ('w, json) eng" where
  "read_sample E index =
    andthen (now_us E) (\<lambda>n. andthen (reads rn_domains) (\<lambda>ds.
    andthen (fold_act (read_plain E) ds []) (\<lambda>rs.
    andthen (cpu_since_baseline E) (\<lambda>cpu. andthen (reads id) (\<lambda>r.
      sample_obj index (n - rn_origin_us r) (max cpu 0) (by_text ''domain'' rs) 0 (rn_energy_uj r))))))"

definition domain_limit :: "string \<Rightarrow> pystr \<Rightarrow> 'w run \<Rightarrow> int" where
  "domain_limit k d r =
    (case find (\<lambda>x. fld x ''id'' = JStr d) (policy_domains r) of None \<Rightarrow> 0 | Some x \<Rightarrow> u_of (fld x k))"

text \<open>The loop body of \<open>_sample\<close>: accumulated delta, whether a counter moved, readings.\<close>

definition draw_since :: "pystr \<Rightarrow> int \<Rightarrow> int \<Rightarrow> int \<Rightarrow> int \<Rightarrow> 'w run \<Rightarrow> (int \<times> int \<times> int) \<Rightarrow> exn + int" where
  "draw_since d counter rng rt stale r prev =
    (case prev of (pa, prange, pt) \<Rightarrow>
       rapl_delta pa counter rng (rt - pt) stale (domain_limit ''max_power_uw'' d r) (domain_limit ''margin_uj'' d r))"

definition sample_domain :: "'w env \<Rightarrow> int \<Rightarrow> pystr \<Rightarrow> int \<times> bool \<times> json list \<Rightarrow> ('w, int \<times> bool \<times> json list) eng" where
  "sample_domain E stale d acc =
    andthen (on_world (env_read_domain E d)) (\<lambda>(counter, rng, rt).
    andthen (reads id) (\<lambda>r.
    andthen (case map_of (rn_prev_readings r) d of
               None \<Rightarrow> ret 0
             | Some prev \<Rightarrow> andthen (lift_r (draw_since d counter rng rt stale r prev)) (\<lambda>x.
                 if rng \<noteq> fst (snd prev) then raise (Lex SENSOR_FAULT) else ret x)) (\<lambda>x.
    andthen (modify (\<lambda>r. r\<lparr>rn_prev_readings := AList.update d (counter, rng, rt) (rn_prev_readings r)\<rparr>)) (\<lambda>_.
    andthen (reading_obj d counter rng (rt - rn_origin_us r)) (\<lambda>j.
      ret (fst acc + x, fst (snd acc) \<or> x \<noteq> 0, snd (snd acc) @ [j]))))))"

text \<open>The stuck-sensor test, lines 511 to 522; after the loop \<open>prev_readings\<close> is empty only without domains.\<close>

definition check_stuck :: "bool \<Rightarrow> int \<Rightarrow> int \<Rightarrow> ('w, unit) eng" where
  "check_stuck any_change n cpu =
    andthen (reads id) (\<lambda>r.
      if \<not> any_change \<and> rn_prev_readings r \<noteq> [] then
        (case rn_unchanged_since_us r of
           None \<Rightarrow> modify (\<lambda>r. r\<lparr>rn_unchanged_since_us := Some n, rn_unchanged_cpu_at_us := cpu\<rparr>)
         | Some s \<Rightarrow> if stuck_sensor (n - s) (cpu - rn_unchanged_cpu_at_us r) then raise (Lex SENSOR_FAULT) else ret ())
      else modify (\<lambda>r. r\<lparr>rn_unchanged_since_us := None\<rparr>))"

section \<open>Stop and kill\<close>

definition issue_kill :: "'w env \<Rightarrow> ed_lib \<Rightarrow> ('w, unit) eng" where
  "issue_kill E lib =
    andthen (catch_any (andthen the_cgroup (\<lambda>cg. on_world (env_cgroup_kill E cg))) (ret False)) (\<lambda>cg_ok.
    andthen (catch_any (andthen the_cgroup (\<lambda>cg. on_world (env_group_kill E cg))) (ret False)) (\<lambda>grp_ok.
    andthen (t_us E) (\<lambda>t.
    andthen (on_core (total (kill_issued cg_ok grp_ok t))) (\<lambda>out.
      catch_audit (commit_events E lib (oc_events out))))))"

definition kill_if_stopping :: "'w env \<Rightarrow> ed_lib \<Rightarrow> ('w, unit) eng" where
  "kill_if_stopping E lib = andthen state_of (\<lambda>s. when_act (s = STOPPING) (issue_kill E lib))"

definition run_latch :: "'w env \<Rightarrow> ed_lib \<Rightarrow> reason \<Rightarrow> json \<Rightarrow> ('w, unit) eng" where
  "run_latch E lib reason root_exit =
    andthen (on_core (total (stop reason))) (\<lambda>out.
    andthen (when_act (root_exit \<noteq> JNull) (modify (\<lambda>r. r\<lparr>rn_core := (rn_core r)\<lparr>rc_root_exit := root_exit\<rparr>\<rparr>))) (\<lambda>_.
    andthen (commit_some E lib out) (\<lambda>_. kill_if_stopping E lib)))"

definition run_fault :: "'w env \<Rightarrow> ed_lib \<Rightarrow> reason \<Rightarrow> ('w, unit) eng" where
  "run_fault E lib reason =
    andthen (on_core (total (fault reason))) (\<lambda>out.
    andthen (catch_audit (commit_some E lib out)) (\<lambda>_. kill_if_stopping E lib))"

text \<open>\<open>_sample\<close>: the reading, the record, the guard.\<close>

definition guard :: "'w env \<Rightarrow> ed_lib \<Rightarrow> ('w, unit) eng" where
  "guard E lib =
    andthen (reads id) (\<lambda>r.
      let cap = fld (fld (config_of r) ''budgets'') ''max_energy_uj''
      in if rc_state (rn_core r) = RUNNING \<and> cap \<noteq> JNull then
           (case guard_eval (rn_energy_uj r) (u_of cap) (run_reserve_uj r) of
              (STOPPING, Some reason) \<Rightarrow> run_latch E lib reason JNull
            | _ \<Rightarrow> ret ())
         else ret ())"

definition sample :: "'w env \<Rightarrow> ed_lib \<Rightarrow> int \<Rightarrow> int \<Rightarrow> ('w, unit) eng" where
  "sample E lib n stale =
    andthen (reads (\<lambda>r. (rn_sample_index r + 1, rn_domains r))) (\<lambda>(idx, ds).
    andthen (fold_act (sample_domain E stale) ds (0, False, [])) (\<lambda>(delta, any_change, rs).
    andthen (cpu_since_baseline E) (\<lambda>cpu.
    andthen (reads rn_last_cpu_us) (\<lambda>last.
    andthen (if cpu < last then raise (Lex SENSOR_FAULT) else ret ()) (\<lambda>_.
    andthen (check_stuck any_change n cpu) (\<lambda>_.
    andthen (modify (\<lambda>r. r\<lparr>rn_last_cpu_us := cpu, rn_energy_uj := rn_energy_uj r + delta, rn_energy_valid := True,
       rn_sample_index := idx\<rparr>)) (\<lambda>_.
    andthen (reads id) (\<lambda>r.
    andthen (sample_obj idx (n - rn_origin_us r) cpu (by_text ''domain'' rs) delta (rn_energy_uj r)) (\<lambda>smp.
    andthen (commit_events E lib (sampled smp)) (\<lambda>_. guard E lib))))))))))"

section \<open>Arming\<close>

definition the_world :: "('w \<Rightarrow> 'a) \<Rightarrow> ('w, 'a) eng" where "the_world f = reads (\<lambda>r. f (rn_world r))"

definition run_dir :: "pystr \<Rightarrow> pystr" where "run_dir rid = lit ''runs/'' @ rid"
definition seed_path :: "pystr \<Rightarrow> pystr" where "seed_path kid = lit ''keys/'' @ kid @ lit ''.seed''"
definition pub_path :: "pystr \<Rightarrow> pystr" where "pub_path kid = lit ''keys/'' @ kid @ lit ''.pub.json''"

definition manifest_obj :: "'w run \<Rightarrow> pystr \<Rightarrow> pystr \<Rightarrow> pystr \<Rightarrow> json \<Rightarrow> pystr \<Rightarrow> pystr \<Rightarrow> json \<Rightarrow> json" where
  "manifest_obj r chash phash boot inode path ehash files =
    JObj [(lit ''v'', JInt 1), (lit ''run_id'', JStr (rc_run_id (rn_core r))), (lit ''config_hash'', JStr chash),
          (lit ''host_policy_hash'', JStr phash), (lit ''boot_id'', JStr boot), (lit ''cgroup_inode'', inode),
          (lit ''cgroup_path'', JStr path), (lit ''task_uid'', JInt (case rn_task_uid r of None \<Rightarrow> 0 | Some u \<Rightarrow> u)),
          (lit ''owner_uid'', JInt 0), (lit ''root_exec_hash'', JStr ehash), (lit ''model_files'', files)]"

definition write_manifest :: "'w env \<Rightarrow> ('w, unit) eng" where
  "write_manifest E =
    andthen (reads id) (\<lambda>r.
    andthen (lift_r (effective_config_hash (config_of r))) (\<lambda>chash.
    andthen (lift_r (config_hash (canonicalize_host_policy (rn_policy r)))) (\<lambda>phash.
    andthen (case rn_cgroup r of None \<Rightarrow> ret (0, []) | Some cg \<Rightarrow> on_world (env_cgroup_identity E cg)) (\<lambda>(inode, path).
    andthen (u_text_of inode) (\<lambda>i.
    andthen (lift_r (dumps (rn_execv r))) (\<lambda>ex.
    andthen (if arr_of (fld (config_of r) ''model_catalog'') = [] then ret (JArr [])
             else lift_r (model_files_for (config_of r) (rn_model_map r))) (\<lambda>files.
    (let m = manifest_obj r chash phash (env_boot_id E (rn_world r)) i path (sha256_hex ex) files;
         file = run_dir (rc_run_id (rn_core r)) @ lit ''/launch-manifest.json''
     in andthen (lift_r (check_launch_manifest m)) (\<lambda>_.
        andthen (on_world (env_create_file E file)) (\<lambda>_.
        andthen (lift_r (dumps m)) (\<lambda>b. on_world (env_write_file E file b))))))))))))"

definition bootstrap_clean :: "'w env \<Rightarrow> ('w, bool) eng" where
  "bootstrap_clean E =
    catch_any (andthen the_cgroup (\<lambda>cg. andthen (on_world (env_cgroup_populated E cg)) (\<lambda>n. ret (n = 0)))) (ret False)"

definition try_kill :: "'w env \<Rightarrow> ('w, unit) eng" where
  "try_kill E = catch_any (andthen the_cgroup (\<lambda>cg. andthen (on_world (env_cgroup_kill E cg)) (\<lambda>_. ret ()))) (ret ())"

definition free_uid :: "'w env \<Rightarrow> ('w, unit) eng" where
  "free_uid E = andthen (reads rn_task_uid) (\<lambda>u. case u of None \<Rightarrow> ret () | Some n \<Rightarrow> on_world (env_task_uid_free E n))"

definition cleanup_arming :: "'w env \<Rightarrow> ('w, unit) eng" where
  "cleanup_arming E =
    andthen (reads id) (\<lambda>r.
    andthen (when_act (rn_cgroup r \<noteq> None) (try_kill E)) (\<lambda>_.
    andthen (case rn_workspace r of None \<Rightarrow> ret ()
             | Some p \<Rightarrow> when_act (p \<noteq> []) (on_world (env_workspace_release E p (rc_run_id (rn_core r))))) (\<lambda>_.
      free_uid E)))"

definition arm_resources :: "'w env \<Rightarrow> ('w, unit) eng" where
  "arm_resources E =
    andthen (reads id) (\<lambda>r. (let cfg = config_of r; hp = rn_policy r; rid = rc_run_id (rn_core r) in
    andthen (lift_r (resolve_workspace_root (env_realpath E (rn_world r)) (str_of (fld cfg ''workspace_root'')) hp)) (\<lambda>ws.
    andthen (modify (\<lambda>r. r\<lparr>rn_workspace := Some ws\<rparr>)) (\<lambda>_.
    andthen (on_world (env_workspace_lease E ws rid)) (\<lambda>_.
    andthen (on_world (env_task_uid_alloc E (int_of (fld hp ''task_uid_min'')) (int_of (fld hp ''task_uid_max'')))) (\<lambda>uid.
    andthen (modify (\<lambda>r. r\<lparr>rn_task_uid := Some uid\<rparr>)) (\<lambda>_.
    andthen (lift_r (domain_cpus hp)) (\<lambda>cpus.
    andthen (on_world (env_cgroup_create E rid cfg cpus)) (\<lambda>_.
    andthen (modify (\<lambda>r. r\<lparr>rn_cgroup := Some rid\<rparr>)) (\<lambda>_.
      if profile_is ''linux-rapl-v1'' r then
        andthen (on_world (env_open_domains E (sort (map (\<lambda>d. str_of (fld d ''id'')) (policy_domains r))))) (\<lambda>hs.
          modify (\<lambda>r. r\<lparr>rn_domains := hs\<rparr>))
      else ret ()))))))))))"

definition arm_started :: "'w env \<Rightarrow> ed_lib \<Rightarrow> ('w, unit) eng" where
  "arm_started E lib =
    andthen (read_sample E 0) (\<lambda>baseline.
    andthen the_cgroup (\<lambda>cg. andthen (on_world (env_cgroup_usage_us E cg)) (\<lambda>u.
    andthen (modify (\<lambda>r. r\<lparr>rn_baseline_cpu_us := u, rn_energy_valid := profile_is ''linux-rapl-v1'' r, rn_energy_uj := 0,
       rn_energy_complete := profile_is ''linux-rapl-v1'' r, rn_sample_index := 0\<rparr>)) (\<lambda>_.
    andthen coverage (\<lambda>cov.
    andthen (on_core (\<lambda>c. case started cov baseline c of (es, c') \<Rightarrow> (Inr es, c'))) (\<lambda>es.
    andthen (now_us E) (\<lambda>n. andthen (modify (\<lambda>r. r\<lparr>rn_started_us := Some n\<rparr>)) (\<lambda>_.
      commit_events E lib es))))))))"

definition release_root :: "'w env \<Rightarrow> ('w, unit) eng" where
  "release_root E =
    andthen (on_world (env_new_id E ID_channel (\<lambda>_. False))) (\<lambda>ch.
    andthen (modify (\<lambda>r. r\<lparr>rn_channels := insert ch (rn_channels r), rn_root_channel := Some ch\<rparr>)) (\<lambda>_.
    andthen the_cgroup (\<lambda>cg. andthen (reads rn_execv) (\<lambda>ex. andthen (reads rn_task_uid) (\<lambda>uid.
    andthen (on_world (env_spawn_root E cg uid ex ch)) (\<lambda>p.
    andthen (modify (\<lambda>r. r\<lparr>rn_root_proc := Some p\<rparr>)) (\<lambda>_. write_manifest E)))))))"

definition arm :: "'w env \<Rightarrow> ed_lib \<Rightarrow> ('w, unit) eng" where
  "arm E lib =
    catch_lexwatt (andthen (arm_resources E) (\<lambda>_. andthen (arm_started E lib) (\<lambda>_. release_root E)))
      (\<lambda>code. andthen (reads rn_cgroup) (\<lambda>cg.
         andthen (if cg = None then ret True else bootstrap_clean E) (\<lambda>clean.
           if clean then andthen (cleanup_arming E) (\<lambda>_. run_reject E lib code)
           else run_fault E lib R_CONTAINMENT_FAULT)))"

section \<open>Containment\<close>

text \<open>\<open>_check_empty\<close>: each action still dispatched is resolved; the accumulator is the merged list of events.\<close>

definition drained :: "pystr \<Rightarrow> json \<Rightarrow> bool \<Rightarrow> run_core \<Rightarrow> outcome \<times> run_core" where
  "drained aid ex released =
    (if ex \<noteq> JNull then
       action_finish aid (JObj [(lit ''kind'', JStr (lit ''spawn'')), (lit ''exit'', ex)]) (JStr (lit ''ACTION_FAILED'')) ex
     else if released then action_unknown aid ACTION_FAILED
     else action_finish aid JNull (JStr (lit ''ACTION_FAILED'')) JNull)"

definition is_dispatched :: "run_core \<Rightarrow> pystr \<Rightarrow> bool" where
  "is_dispatched c aid \<longleftrightarrow> (case map_of (rc_actions c) aid of None \<Rightarrow> False | Some a \<Rightarrow> ac_state a = A_DISPATCHED)"

definition exit_of :: "'w env \<Rightarrow> nat option \<Rightarrow> ('w, json) eng" where
  "exit_of E proc = (case proc of None \<Rightarrow> ret JNull | Some p \<Rightarrow> catch_any (on_world (env_proc_exited E p)) (ret JNull))"

definition drain_action :: "'w env \<Rightarrow> pystr \<Rightarrow> event list \<Rightarrow> ('w, event list) eng" where
  "drain_action E aid acc =
    andthen (reads id) (\<lambda>r.
      if \<not> is_dispatched (rn_core r) aid then ret acc
      else (let proc = map_of (rn_child_procs r) aid in
        andthen (modify (\<lambda>r. r\<lparr>rn_child_procs := AList.delete aid (rn_child_procs r)\<rparr>)) (\<lambda>_.
        andthen (exit_of E proc) (\<lambda>ex.
        andthen (on_core (total (drained aid ex (proc \<noteq> None)))) (\<lambda>out. ret (acc @ oc_events out))))))"

definition group_empty :: "'w env \<Rightarrow> pystr \<Rightarrow> ('w, bool) eng" where
  "group_empty E cg = catch_any (andthen (on_world (env_cgroup_populated E cg)) (\<lambda>n. ret (n = 0))) (ret False)"

definition check_empty :: "'w env \<Rightarrow> ed_lib \<Rightarrow> ('w, bool) eng" where
  "check_empty E lib =
    andthen (reads rn_cgroup) (\<lambda>cg. case cg of
      None \<Rightarrow> ret True
    | Some g \<Rightarrow>
        andthen (group_empty E g) (\<lambda>empty.
          if \<not> empty then ret False
          else
            andthen (reads (\<lambda>r. map fst (rc_actions (rn_core r)))) (\<lambda>aids.
            andthen (fold_act (drain_action E) aids []) (\<lambda>es.
            andthen (when_act (es \<noteq> []) (commit_events E lib es)) (\<lambda>_.
              reads (\<lambda>r. list_all (\<lambda>ka. ac_state (snd ka) \<noteq> A_DISPATCHED) (rc_actions (rn_core r))))))))"

definition final_domain :: "'w env \<Rightarrow> int \<Rightarrow> pystr \<Rightarrow> int \<times> json list \<Rightarrow> ('w, int \<times> json list) eng" where
  "final_domain E stale d acc =
    andthen (on_world (env_read_domain E d)) (\<lambda>(counter, rng, rt).
    andthen (reads id) (\<lambda>r.
    andthen (case map_of (rn_prev_readings r) d of
               None \<Rightarrow> ret 0 | Some prev \<Rightarrow> lift_r (draw_since d counter rng rt stale r prev)) (\<lambda>x.
    andthen (modify (\<lambda>r. r\<lparr>rn_prev_readings := AList.update d (counter, rng, rt) (rn_prev_readings r)\<rparr>)) (\<lambda>_.
    andthen (reading_obj d counter rng (rt - rn_origin_us r)) (\<lambda>j. ret (fst acc + x, snd acc @ [j]))))))"

definition read_final_sample :: "'w env \<Rightarrow> int \<Rightarrow> ('w, json) eng" where
  "read_final_sample E idx =
    andthen (now_us E) (\<lambda>n.
    andthen (reads (\<lambda>r. (rn_domains r, u_of (fld (fld (config_of r) ''meter'') ''stale_us'')))) (\<lambda>(ds, stale).
    andthen (fold_act (final_domain E stale) ds (0, [])) (\<lambda>(delta, rs).
    andthen (cpu_since_baseline E) (\<lambda>cpu.
    andthen (modify (\<lambda>r. r\<lparr>rn_energy_uj := rn_energy_uj r + delta\<rparr>)) (\<lambda>_.
    andthen (reads id) (\<lambda>r.
      sample_obj idx (n - rn_origin_us r) (max cpu 0) (by_text ''domain'' rs) delta (rn_energy_uj r)))))))"

definition destroy_seed :: "'w env \<Rightarrow> pystr \<Rightarrow> ('w, unit) eng" where
  "destroy_seed E kid =
    handle_exn (on_world (env_unlink E (seed_path kid))) (\<lambda>e. if e = Py OS_Error then ret () else raise e)"

definition run_finalize :: "'w env \<Rightarrow> ed_lib \<Rightarrow> ('w, unit) eng" where
  "run_finalize E lib =
    andthen coverage (\<lambda>cov. andthen (t_us E) (\<lambda>t.
    andthen (on_core (finalize cov t)) (\<lambda>out. andthen (commit_some E lib out) (\<lambda>_.
    andthen (modify (\<lambda>r. r\<lparr>rn_kill_confirmed := True\<rparr>)) (\<lambda>_.
    andthen (reads id) (\<lambda>r. andthen (destroy_seed E (rc_key_id (rn_core r))) (\<lambda>_.
    andthen (on_world (env_workspace_release E (case rn_workspace r of None \<Rightarrow> [] | Some p \<Rightarrow> p) (rc_run_id (rn_core r)))) (\<lambda>_.
    andthen (free_uid E) (\<lambda>_.
      case rn_cgroup r of None \<Rightarrow> ret () | Some cg \<Rightarrow> on_world (env_cgroup_teardown E cg))))))))))"

definition stamp_missing :: "int \<Rightarrow> ('w, unit) eng" where
  "stamp_missing n = modify (\<lambda>r. if rc_stop_latched_us (rn_core r) = None
     then r\<lparr>rn_core := (rn_core r)\<lparr>rc_stop_latched_us := Some (n - rn_origin_us r)\<rparr>\<rparr> else r)"

definition stop_elapsed :: "int \<Rightarrow> 'w run \<Rightarrow> int" where
  "stop_elapsed n r = n - (rn_origin_us r + (case rc_stop_latched_us (rn_core r) of None \<Rightarrow> 0 | Some s \<Rightarrow> s))"

definition final_sample :: "'w env \<Rightarrow> ed_lib \<Rightarrow> ('w, json) eng" where
  "final_sample E lib =
    andthen (reads id) (\<lambda>r.
      if profile_is ''linux-rapl-v1'' r \<and> rn_energy_valid r then
        catch_lexwatt (read_final_sample E (rn_sample_index r + 1)) (\<lambda>_.
          andthen (modify (\<lambda>r. r\<lparr>rn_energy_complete := False\<rparr>)) (\<lambda>_.
          andthen (on_core (total (fault R_SENSOR_FAULT))) (\<lambda>out.
          andthen (commit_events E lib (oc_events out)) (\<lambda>_. ret JNull))))
      else ret JNull)"

definition stop_progress :: "'w env \<Rightarrow> ed_lib \<Rightarrow> int \<Rightarrow> int \<Rightarrow> ('w, unit) eng" where
  "stop_progress E lib n kill_deadline =
    andthen (stamp_missing n) (\<lambda>_.
    andthen (check_empty E lib) (\<lambda>empty.
      if \<not> empty then
        andthen (reads id) (\<lambda>r.
          if rc_state (rn_core r) = STOPPING \<and> stop_elapsed n r \<ge> kill_deadline then
            andthen (on_core (kill_unconfirmed (stop_elapsed n r))) (\<lambda>out. commit_events E lib (oc_events out))
          else try_kill E)
      else
        andthen (final_sample E lib) (\<lambda>final.
        andthen (on_core (\<lambda>c. total (containment_empty final (rc_root_exit c)) c)) (\<lambda>out.
        andthen (commit_some E lib out) (\<lambda>_.
        andthen (modify (\<lambda>r. r\<lparr>rn_containment_empty := True\<rparr>)) (\<lambda>_. run_finalize E lib))))))"

section \<open>The safety pass\<close>

definition exit_ok :: "json \<Rightarrow> bool" where
  "exit_ok ex \<longleftrightarrow> fld ex ''signal'' = JNull \<and> fld ex ''code'' \<in> {JInt 0, JBool False}"

definition observe_child :: "'w env \<Rightarrow> ed_lib \<Rightarrow> pystr \<times> nat \<Rightarrow> ('w, unit) eng" where
  "observe_child E lib kp =
    andthen (exit_of E (Some (snd kp))) (\<lambda>ex. when_act (ex \<noteq> JNull)
      (andthen (modify (\<lambda>r. r\<lparr>rn_child_procs := AList.delete (fst kp) (rn_child_procs r)\<rparr>)) (\<lambda>_.
       andthen (on_core (total (action_finish (fst kp) (JObj [(lit ''kind'', JStr (lit ''spawn'')), (lit ''exit'', ex)])
          (if exit_ok ex then JNull else JStr (lit ''ACTION_FAILED'')) ex))) (commit_some E lib))))"

definition observe_children :: "'w env \<Rightarrow> ed_lib \<Rightarrow> ('w, unit) eng" where
  "observe_children E lib = andthen (reads rn_child_procs) (each_act (observe_child E lib))"

definition watch_root :: "'w env \<Rightarrow> ed_lib \<Rightarrow> ('w, unit) eng" where
  "watch_root E lib =
    andthen (reads id) (\<lambda>r. case rn_root_proc r of
      None \<Rightarrow> ret ()
    | Some p \<Rightarrow> when_act (rc_state (rn_core r) = RUNNING \<and> rc_stop_reason (rn_core r) = None)
        (andthen (on_world (env_proc_exited E p)) (\<lambda>ex. when_act (ex \<noteq> JNull) (run_latch E lib R_ROOT_EXIT ex))))"

definition watch_wall :: "'w env \<Rightarrow> ed_lib \<Rightarrow> int \<Rightarrow> ('w, unit) eng" where
  "watch_wall E lib n =
    andthen (reads id) (\<lambda>r. case rn_started_us r of
      None \<Rightarrow> ret ()
    | Some s \<Rightarrow> when_act (rc_state (rn_core r) = RUNNING \<and> n - s \<ge> u_of (fld (fld (config_of r) ''budgets'') ''max_wall_us''))
        (run_latch E lib R_WALL_CAP JNull))"

definition active_states :: "run_state set" where "active_states = {RUNNING, STOPPING, UNCONFIRMED}"

definition watch_energy :: "'w env \<Rightarrow> ed_lib \<Rightarrow> int \<Rightarrow> int \<Rightarrow> ('w, unit) eng" where
  "watch_energy E lib n stale =
    andthen (reads id) (\<lambda>r. when_act (profile_is ''linux-rapl-v1'' r \<and> rc_state (rn_core r) \<in> active_states)
      (catch_lexwatt (sample E lib n stale) (\<lambda>_. run_fault E lib R_SENSOR_FAULT)))"

definition watch_tokens :: "'w env \<Rightarrow> ed_lib \<Rightarrow> int \<Rightarrow> ('w, unit) eng" where
  "watch_tokens E lib n =
    andthen (reads id) (\<lambda>r. when_act (rc_state (rn_core r) = RUNNING)
      (andthen (on_core (total (expire_tokens (n - rn_origin_us r)))) (commit_some E lib)))"

definition safety_pass :: "'w env \<Rightarrow> ed_lib \<Rightarrow> ('w, unit) eng" where
  "safety_pass E lib =
    andthen (reads (\<lambda>r. fld (config_of r) ''meter'')) (\<lambda>m.
    andthen (now_us E) (\<lambda>n.
    andthen (watch_root E lib) (\<lambda>_.
    andthen (watch_wall E lib n) (\<lambda>_.
    andthen (watch_energy E lib n (u_of (fld m ''stale_us''))) (\<lambda>_.
    andthen (andthen (reads id) (\<lambda>r. when_act (rc_state (rn_core r) \<in> active_states \<and> rn_child_procs r \<noteq> []) (observe_children E lib))) (\<lambda>_.
    andthen (watch_tokens E lib n) (\<lambda>_.
    andthen state_of (\<lambda>s. when_act (s \<in> {STOPPING, UNCONFIRMED}) (stop_progress E lib n (u_of (fld m ''kill_deadline_us'')))))))))))"

definition tick :: "'w env \<Rightarrow> ed_lib \<Rightarrow> ('w, unit) eng" where
  "tick E lib = andthen state_of (\<lambda>s. when_act (s \<in> active_states) (safety_pass E lib))"

end
