(* ===== verification/EngineRpc.thy ===== *)
theory EngineRpc imports EngineOps begin

text \<open>
  Models the request handling of \<open>Run\<close> (\<open>src/lexwatt/engine.py\<close>): the surface check, the idempotent reply table,
  the dispatch of the eight methods, the single attempt at an admitted action, and the export of the receipt.
  The pair of principal and channel says who asks; a control connection has no channel.
\<close>

section \<open>Parameters\<close>

definition only_keys :: "string list \<Rightarrow> json \<Rightarrow> exn + unit" where
  "only_keys ks params = requireE (list_all (\<lambda>kv. fst kv \<in> set (map lit ks)) (dict_of params)) (Lex UNKNOWN_FIELD)"

definition with_result :: "json \<Rightarrow> outcome" where "with_result v = no_outcome\<lparr>oc_result := v\<rparr>"

definition with_error :: "code \<Rightarrow> outcome" where "with_error e = no_outcome\<lparr>oc_error := Some e\<rparr>"

definition chan :: "pystr option \<Rightarrow> pystr" where "chan ch = (case ch of None \<Rightarrow> [] | Some c \<Rightarrow> c)"

section \<open>Reading\<close>

text \<open>\<open>while entries and len(jcs.dumps(entries)) + 256 > 1048576: entries.pop()\<close>\<close>

function trim_entries :: "json list \<Rightarrow> exn + json list" where
  "trim_entries es =
    (if es = [] then Inr []
     else (case dumps (JArr es) of
             Inl e \<Rightarrow> Inl e
           | Inr b \<Rightarrow> if length b + 256 > 1048576 then trim_entries (butlast es) else Inr es))"
  by pat_completeness auto
termination trim_entries by (relation "measure length") auto

declare trim_entries.simps [simp del]

definition limit_of :: "json \<Rightarrow> exn + nat" where
  "limit_of v = (case v of
     JInt n \<Rightarrow> if 1 \<le> n \<and> n \<le> 128 then Inr (nat n) else bad
   | JBool b \<Rightarrow> if b then Inr 1 else bad
   | _ \<Rightarrow> bad)"

definition events_read :: "json \<Rightarrow> ('w, outcome) eng" where
  "events_read params =
    andthen (lift_r (only_keys [''run_id'', ''after_seq'', ''limit''] params)) (\<lambda>_.
    andthen (reads (\<lambda>r. rc_run_id (rn_core r))) (\<lambda>rid.
    andthen (lift_r (requireE (fld params ''run_id'' = JStr rid) (Lex NOT_FOUND))) (\<lambda>_.
    andthen (lift_r (parse_u (fld params ''after_seq''))) (\<lambda>aft.
    andthen (lift_r (limit_of (fld params ''limit''))) (\<lambda>limit.
    andthen (on_db event_head) (\<lambda>head.
    andthen (lift_r (requireE (aft \<le> fst head) (Lex INVALID_INPUT))) (\<lambda>_.
    andthen (on_db (events_after aft limit)) (\<lambda>raw.
    andthen (lift_r (mapE loads raw)) (\<lambda>all.
    andthen (lift_r (trim_entries all)) (\<lambda>es.
    andthen (head_json head) (\<lambda>h.
      ret (with_result (JObj [(lit ''entries'', JArr es), (lit ''head'', h),
        (lit ''more'', JBool (aft + int (length es) < fst head))])))))))))))))"

definition own_run :: "json \<Rightarrow> ('w, unit) eng" where
  "own_run params =
    andthen (lift_r (only_keys [''run_id''] params)) (\<lambda>_.
    andthen (reads (\<lambda>r. rc_run_id (rn_core r))) (\<lambda>rid.
      lift_r (requireE (fld params ''run_id'' = JStr rid) (Lex NOT_FOUND))))"

definition rpc_run_get :: "'w env \<Rightarrow> ('w, outcome) eng" where
  "rpc_run_get E = andthen (status_object E) (\<lambda>st. ret (with_result st))"

section \<open>Tokens and actions\<close>

definition token_issue_rpc :: "'w env \<Rightarrow> ed_lib \<Rightarrow> json \<Rightarrow> pystr \<Rightarrow> pystr \<Rightarrow> ('w, outcome) eng" where
  "token_issue_rpc E lib params ch req_id =
    andthen (lift_r (only_keys [''action''] params)) (\<lambda>_.
    andthen (lift_r (subscript params ''action'')) (\<lambda>action.
    andthen (lift_r (check_action action)) (\<lambda>_.
    andthen (reads (\<lambda>r i. map_of (rc_tokens (rn_core r)) i \<noteq> None)) (\<lambda>known.
    andthen (on_world (env_new_id E ID_token known)) (\<lambda>tid.
    andthen (t_us E) (\<lambda>t.
    andthen (on_core (token_issue ch action t tid req_id)) (\<lambda>out.
      if oc_error out \<noteq> None then ret out
      else
        (let body = fld (oc_result out) ''token_body'' in
         andthen (reads rn_seed) (\<lambda>seed.
         andthen (lift_r (token_sign_message body)) (\<lambda>m.
         andthen (lift_r (sign_b64 lib seed m)) (\<lambda>sig.
         (let token = JObj [(lit ''body'', body), (lit ''sig'', JStr sig)] in
          andthen (modify (\<lambda>r. r\<lparr>rn_core := sign_record tid (JStr sig) (rn_core r), rn_pending_token := Some (token, action)\<rparr>)) (\<lambda>_.
            ret (out\<lparr>oc_result := JObj [(lit ''token'', token),
              (lit ''remaining_spawns'', fld (oc_result out) ''remaining_spawns'')]\<rparr>))))))))))))))"

definition token_genuine :: "ed_lib \<Rightarrow> bytes \<Rightarrow> json \<Rightarrow> exn + bool" where
  "token_genuine lib seed token =
    bindE (public_key_from_seed lib seed) (\<lambda>pub.
    bindE (token_sign_message (fld token ''body'')) (\<lambda>m.
    bindE (decode_signature (fld token ''sig'')) (\<lambda>sig. Inr (ed_verify lib pub m sig))))"

text \<open>Key first, then the signature, which is only evaluated for the run's own key.\<close>

definition check_presented :: "ed_lib \<Rightarrow> json \<Rightarrow> 'w run \<Rightarrow> exn + unit" where
  "check_presented lib token r =
    (let body = fld token ''body'' in
     bindE (requireE (fld body ''run_id'' = JStr (rc_run_id (rn_core r))) (Lex TOKEN_BINDING)) (\<lambda>_.
     bindE (requireE (fld body ''key_id'' = JStr (rc_key_id (rn_core r))) (Lex TOKEN_INVALID)) (\<lambda>_.
     bindE (token_genuine lib (rn_seed r) token) (\<lambda>ok. requireE ok (Lex TOKEN_INVALID)))))"

definition action_dispatch_rpc :: "'w env \<Rightarrow> ed_lib \<Rightarrow> json \<Rightarrow> pystr \<Rightarrow> pystr \<Rightarrow> ('w, outcome) eng" where
  "action_dispatch_rpc E lib params ch req_id =
    andthen (lift_r (only_keys [''token'', ''action''] params)) (\<lambda>_.
    andthen (lift_r (subscript params ''token'')) (\<lambda>token.
    andthen (lift_r (subscript params ''action'')) (\<lambda>action.
    andthen (lift_r (check_token token)) (\<lambda>_.
    andthen (lift_r (check_action action)) (\<lambda>_.
    andthen (reads id) (\<lambda>r.
    andthen (lift_r (check_presented lib token r)) (\<lambda>_.
    andthen (on_world (env_new_id E ID_action (\<lambda>i. map_of (rc_actions (rn_core r)) i \<noteq> None))) (\<lambda>aid.
    andthen (t_us E) (\<lambda>t.
    andthen (on_core (dispatch ch token action t aid req_id)) (\<lambda>out.
      if oc_error out \<noteq> None then ret out
      else
        andthen (modify (\<lambda>r. r\<lparr>rn_pending_dispatch := Some (aid, action, ch), rn_exec_after_commit := Some (aid, action, ch)\<rparr>)) (\<lambda>_.
          ret (out\<lparr>oc_result := JObj [(lit ''action_id'', JStr aid), (lit ''state'', JStr (lit ''DISPATCHED''))]\<rparr>))))))))))))"

definition action_failed :: "'w env \<Rightarrow> ed_lib \<Rightarrow> pystr \<Rightarrow> ('w, unit) eng" where
  "action_failed E lib aid =
    andthen (on_core (total (action_finish aid JNull (JStr (lit ''ACTION_FAILED'')) JNull))) (\<lambda>out.
      commit_events E lib (oc_events out))"

definition spawn_once :: "'w env \<Rightarrow> ed_lib \<Rightarrow> pystr \<Rightarrow> json \<Rightarrow> ('w, unit) eng" where
  "spawn_once E lib aid action =
    andthen (on_world (env_new_id E ID_channel (\<lambda>_. False))) (\<lambda>child.
    andthen the_cgroup (\<lambda>cg.
    andthen (reads (\<lambda>r. (rn_task_uid r, int_of (fld (config_of r) ''pids_max'')))) (\<lambda>(uid, pids).
    andthen (catch_lexwatt (andthen (on_world (env_spawn_child E cg uid pids (fld action ''exec'') child)) (\<lambda>p. ret (Some p)))
              (\<lambda>_. ret None)) (\<lambda>proc.
      case proc of
        None \<Rightarrow> action_failed E lib aid
      | Some p \<Rightarrow> modify (\<lambda>r. r\<lparr>rn_channels := insert child (rn_channels r),
          rn_child_procs := AList.update aid p (rn_child_procs r), rn_child_channels := AList.update aid child (rn_child_channels r)\<rparr>)))))"

text \<open>The \<open>http_get\<close> branch ends at \<open>scalars.b64u\<close>, which does not exist.\<close>

definition http_once :: "'w env \<Rightarrow> ed_lib \<Rightarrow> pystr \<Rightarrow> json \<Rightarrow> ('w, unit) eng" where
  "http_once E lib aid action =
    andthen (reads (\<lambda>r. network (rn_core r) (fld action ''origin'', fld action ''path''))) (\<lambda>dest.
    andthen (elapsed_us E) (\<lambda>el.
    andthen (reads (\<lambda>r. u_of (fld (fld (config_of r) ''budgets'') ''max_wall_us'') - el)) (\<lambda>remaining.
    andthen (catch_lexwatt
       (andthen (on_world (env_http_get E (case dest of None \<Rightarrow> JNull | Some d \<Rightarrow> d) action (max (min remaining 10000000) 0)))
         (\<lambda>resp. ret (Some resp))) (\<lambda>_. ret None)) (\<lambda>resp.
      case resp of None \<Rightarrow> action_failed E lib aid | Some _ \<Rightarrow> raise (Py Attribute_Error)))))"

definition execute_action :: "'w env \<Rightarrow> ed_lib \<Rightarrow> pystr \<Rightarrow> json \<Rightarrow> ('w, unit) eng" where
  "execute_action E lib aid action =
    (if fld action ''kind'' = JStr (lit ''spawn'') then spawn_once E lib aid action else http_once E lib aid action)"

definition action_get_rpc :: "json \<Rightarrow> pystr \<Rightarrow> pystr \<Rightarrow> ('w, outcome) eng" where
  "action_get_rpc params ch req_id =
    andthen (lift_r (only_keys [''action_id''] params)) (\<lambda>_.
    andthen (lift_r (subscript params ''action_id'')) (\<lambda>a.
    andthen (lift_r (check_id a ID_action)) (\<lambda>aid.
      reads (\<lambda>r. action_view ch aid req_id (rn_core r)))))"

section \<open>Computes\<close>

definition compute_reserve_rpc :: "'w env \<Rightarrow> json \<Rightarrow> pystr \<Rightarrow> pystr \<Rightarrow> ('w, outcome) eng" where
  "compute_reserve_rpc E params ch req_id =
    andthen (lift_r (only_keys [''work''] params)) (\<lambda>_.
    andthen (lift_r (subscript params ''work'')) (\<lambda>work.
    andthen (lift_r (check_work work)) (\<lambda>_.
    andthen (reads (\<lambda>r i. map_of (rc_computes (rn_core r)) i \<noteq> None)) (\<lambda>known.
    andthen (on_world (env_new_id E ID_compute known)) (\<lambda>cid.
    andthen (t_us E) (\<lambda>t.
    andthen (on_core (compute_reserve ch work t cid req_id)) (\<lambda>out.
    andthen (when_act (oc_error out = None) (modify (\<lambda>r. r\<lparr>rn_pending_reservation := Some (cid, oc_result out)\<rparr>))) (\<lambda>_.
      ret out))))))))"

definition compute_finish_rpc :: "json \<Rightarrow> pystr \<Rightarrow> pystr \<Rightarrow> ('w, outcome) eng" where
  "compute_finish_rpc params ch req_id =
    andthen (lift_r (only_keys [''compute_id'', ''observed_output_tokens''] params)) (\<lambda>_.
    andthen (lift_r (subscript params ''compute_id'')) (\<lambda>c.
    andthen (lift_r (check_id c ID_compute)) (\<lambda>cid.
    andthen (lift_r (subscript params ''observed_output_tokens'')) (\<lambda>obs.
      on_core (compute_finish ch cid obs req_id)))))"

section \<open>Dispatch\<close>

definition is_method :: "json \<Rightarrow> rpc_method \<Rightarrow> bool" where
  "is_method m k \<longleftrightarrow> m = JStr (method_name k)"

definition settled_state :: "'w run \<Rightarrow> bool" where
  "settled_state r \<longleftrightarrow> rc_state (rn_core r) \<in> set TERMINAL_STATES \<or> rc_state (rn_core r) = FINALIZING"

definition dispatch_ended :: "'w env \<Rightarrow> json \<Rightarrow> json \<Rightarrow> ('w, outcome) eng" where
  "dispatch_ended E m params =
    (if is_method m M_run_get then rpc_run_get E
     else if is_method m M_run_stop then reads (\<lambda>r. with_result (stop_result (rn_core r)))
     else if is_method m M_events_read then events_read params
     else ret (with_error STOPPED))"

definition dispatch_live :: "'w env \<Rightarrow> ed_lib \<Rightarrow> json \<Rightarrow> json \<Rightarrow> pystr \<Rightarrow> pystr \<Rightarrow> ('w, outcome) eng" where
  "dispatch_live E lib m params ch req_id =
    (if is_method m M_run_get then andthen (own_run params) (\<lambda>_. rpc_run_get E)
     else if is_method m M_run_stop then andthen (own_run params) (\<lambda>_. on_core (total (stop R_OPERATOR)))
     else if is_method m M_events_read then events_read params
     else if is_method m M_token_issue then token_issue_rpc E lib params ch req_id
     else if is_method m M_action_dispatch then action_dispatch_rpc E lib params ch req_id
     else if is_method m M_action_get then action_get_rpc params ch req_id
     else if is_method m M_compute_reserve then compute_reserve_rpc E params ch req_id
     else if is_method m M_compute_finish then compute_finish_rpc params ch req_id
     else ret (with_error INVALID_INPUT))"

definition rpc_dispatch :: "'w env \<Rightarrow> ed_lib \<Rightarrow> json \<Rightarrow> json \<Rightarrow> pystr \<Rightarrow> pystr \<Rightarrow> ('w, outcome) eng" where
  "rpc_dispatch E lib m params ch req_id =
    andthen (reads id) (\<lambda>r.
      if settled_state r then dispatch_ended E m params
      else catch_lexwatt (dispatch_live E lib m params ch req_id)
        (\<lambda>code. reads (\<lambda>r. deny (rn_core r) req_id code)))"

section \<open>Requests\<close>

definition surface_ok :: "json \<Rightarrow> pystr option \<Rightarrow> bool" where
  "surface_ok m ch \<longleftrightarrow>
    (case ch of None \<Rightarrow> list_ex (is_method m) CONTROL_METHODS | Some _ \<Rightarrow> list_ex (is_method m) WORKLOAD_METHODS)"

definition execute_pending :: "'w env \<Rightarrow> ed_lib \<Rightarrow> ('w, unit) eng" where
  "execute_pending E lib =
    andthen (reads rn_exec_after_commit) (\<lambda>p. case p of
      None \<Rightarrow> ret ()
    | Some (aid, action, ch) \<Rightarrow>
        andthen (modify (\<lambda>r. r\<lparr>rn_exec_after_commit := None\<rparr>)) (\<lambda>_. execute_action E lib aid action))"

definition answer :: "'w env \<Rightarrow> ed_lib \<Rightarrow> pystr \<Rightarrow> pystr \<Rightarrow> pystr \<Rightarrow> outcome \<Rightarrow> ('w, json) eng" where
  "answer E lib who req_id dg out =
    (if oc_error out = Some BUSY then ret (envelope req_id JNull (Some BUSY))
     else
       andthen (commit E lib (oc_events out) (Some (who, req_id, dg)) (oc_result out) (oc_error out)) (\<lambda>_.
       andthen (when_act (K_StopLatched \<in> fst ` set (oc_events out)) (issue_kill E lib)) (\<lambda>_.
       andthen (execute_pending E lib) (\<lambda>_.
         ret (envelope req_id (oc_result out) (oc_error out))))))"

definition handle_checked :: "'w env \<Rightarrow> ed_lib \<Rightarrow> pystr \<Rightarrow> json \<Rightarrow> pystr option \<Rightarrow> ('w, json) eng" where
  "handle_checked E lib who req ch =
    (let req_id = str_of (fld req ''id''); m = fld req ''method''; params = fld req ''params'' in
     if \<not> surface_ok m ch then raise (Lex UNAUTHORIZED)
     else
       andthen (lift_r (request_digest (str_of m) params)) (\<lambda>dg.
       andthen (on_db (request_get who req_id)) (\<lambda>row. case row of
         Some (stored_digest, resp) \<Rightarrow> if stored_digest \<noteq> dg then raise (Lex CONFLICT) else lift_r (loads resp)
       | None \<Rightarrow> andthen (rpc_dispatch E lib m params (chan ch) req_id) (answer E lib who req_id dg))))"

definition run_handle :: "'w env \<Rightarrow> ed_lib \<Rightarrow> pystr \<Rightarrow> json \<Rightarrow> pystr option \<Rightarrow> ('w, json) eng" where
  "run_handle E lib who req ch =
    andthen (lift_r (check_request req)) (\<lambda>_.
      catch_lexwatt (handle_checked E lib who req ch)
        (\<lambda>code. ret (error_response code (str_of (fld req ''id'')))))"

section \<open>The receipt\<close>

definition bundle_obj :: "json list \<Rightarrow> json \<Rightarrow> json" where
  "bundle_obj es expected_head = JObj [(lit ''v'', JInt 1), (lit ''entries'', JArr es), (lit ''expected_head'', expected_head)]"

definition run_bundle :: "json \<Rightarrow> ('w, json) eng" where
  "run_bundle expected_head =
    andthen (on_db (events_after 0 1000000)) (\<lambda>raw.
    andthen (lift_r (mapE loads raw)) (\<lambda>es. ret (bundle_obj es expected_head)))"

end
