(* ===== verification/EngineSafe.thy ===== *)
theory EngineSafe imports EngineCommit EngineRpc begin

text \<open>
  The journal under the whole engine. The locale \<open>quiet_env\<close> adds to \<open>steady_env\<close> that no call to the host turns its
  clock back. \<open>run_invariant\<close> is the interface of a property of the run that time and transactions keep, and shows that
  then every method of \<open>Run\<close> keeps it, whatever it returns or raises. Its first instance is \<open>grown\<close>: whatever statement
  of the storage or call to the host fails, the committed log is the earlier one followed by sealed, linked
  entries of the same run.
\<close>

section \<open>Hosts that keep time\<close>

definition forward :: "('w \<Rightarrow> int) \<Rightarrow> ('w, 'a) act \<Rightarrow> bool" where
  "forward now m \<longleftrightarrow> (\<forall>w. now w \<le> now (snd (m w)))"

locale quiet_env = steady_env +
  assumes uid_forward: "forward now (env_task_uid_alloc E lo hi)" "forward now (env_task_uid_free E u)"
    and lease_forward: "forward now (env_workspace_lease E path rid)" "forward now (env_workspace_release E path rid)"
    and cgroup_forward: "forward now (env_cgroup_create E rid cfg cpus)" "forward now (env_cgroup_identity E cg)"
      "forward now (env_cgroup_usage_us E cg)" "forward now (env_cgroup_populated E cg)" "forward now (env_cgroup_teardown E cg)"
    and kill_forward: "forward now (env_cgroup_kill E cg)" "forward now (env_group_kill E cg)"
    and domain_forward: "forward now (env_open_domains E ids)" "forward now (env_read_domain E d)"
    and proc_forward: "forward now (env_spawn_root E cg uid ex ch)" "forward now (env_spawn_child E cg uid pids ex ch)"
      "forward now (env_proc_exited E p)"
    and net_forward: "forward now (env_http_get E dest action deadline)"
    and file_forward: "forward now (env_create_file E path)" "forward now (env_write_file E path b)"
      "forward now (env_read_file E path)" "forward now (env_unlink E path)"
    and probe_forward: "forward now (env_capabilities E profile)"
begin

lemma id_forward: "forward now (env_new_id E kind ex)"
  unfolding forward_def
proof
  fix w show "now w \<le> now (snd (env_new_id E kind ex w))"
    using new_id_clock [of kind ex w "fst (env_new_id E kind ex w)" "snd (env_new_id E kind ex w)"] by simp
qed

lemmas calls_forward = uid_forward lease_forward cgroup_forward kill_forward domain_forward proc_forward net_forward
  file_forward probe_forward id_forward

end

lemma fold_map_proc_now [simp]: "sm_now_us (fold (map_proc f) ps h) = sm_now_us h"
  by (induction ps arbitrary: h) (simp_all add: map_proc_def)

lemma map_proc_now [simp]: "sm_now_us (map_proc f p h) = sm_now_us h"
  by (simp add: map_proc_def)

lemma sim_spawn_child_now: "sm_now_us (snd (sim_spawn_child cg n ex ch h)) = sm_now_us h"
  by (simp add: sim_spawn_child_def andthen_def sim_spawn_def act_prims Let_def)

interpretation sim_quiet: quiet_env sim_env sm_now_us
  by unfold_locales
    (auto simp: forward_def sim_env_def sim_uid_alloc_def sim_uid_free_def sim_lease_def sim_release_def sim_cgroup_create_def
      sim_cgroup_identity_def sim_usage_def sim_populated_def sim_teardown_def sim_cgroup_kill_def sim_group_kill_def
      sim_open_domains_def sim_read_domain_def sim_spawn_def sim_spawn_child_now sim_proc_exited_def sim_http_get_def
      sim_create_file_def sim_write_file_def sim_read_file_def sim_unlink_def act_prims Let_def split: option.split prod.split)

section \<open>Core steps keep the identity of the run\<close>

definition stays :: "(run_core \<Rightarrow> (exn + 'a) \<times> run_core) \<Rightarrow> bool" where
  "stays f \<longleftrightarrow> (\<forall>c. rc_run_id (snd (f c)) = rc_run_id c \<and> rc_key_id (snd (f c)) = rc_key_id c)"

lemma stays_total: "(\<And>c. rc_run_id (snd (f c)) = rc_run_id c \<and> rc_key_id (snd (f c)) = rc_key_id c) \<Longrightarrow> stays (total f)"
  by (simp add: stays_def total_def done_step_def)

lemma latch_stays [simp]: "rc_run_id (snd (latch reason out c)) = rc_run_id c" "rc_key_id (snd (latch reason out c)) = rc_key_id c"
  by (simp_all add: latch_def)

lemma stays_reducers:
  "stays (total (reject code))" "stays (total (stop reason))" "stays (total (fault reason))"
  "stays (total (kill_issued a b t))" "stays (total (expire_tokens t))" "stays (total (action_finish aid res err ex))"
  "stays (total (action_unknown aid code))" "stays (\<lambda>c. total (containment_empty s (rc_root_exit c)) c)"
  by (auto simp: stays_def total_def done_step_def latch_def reject_def stop_def fault_def kill_issued_def expire_tokens_def action_finish_def
      action_unknown_def containment_empty_def Let_def split: prod.split option.split if_splits)

lemma stays_steps:
  "stays (kill_unconfirmed t)" "stays (finalize cov t)" "stays (token_issue ch action t tid rid)"
  "stays (dispatch ch token action t aid rid)" "stays (compute_reserve ch work t cid rid)" "stays (compute_finish ch cid obs rid)"
  by (auto simp: stays_def done_step_def kill_unconfirmed_def finalize_def token_issue_def dispatch_def compute_reserve_def
      compute_finish_def Let_def split: sum.split option.split exn.split if_splits prod.split)

lemma stays_engine:
  "stays (\<lambda>c. case arming c of (es, c') \<Rightarrow> (Inr es, c'))" "stays (\<lambda>c. case started cov b c of (es, c') \<Rightarrow> (Inr es, c'))"
  "stays (total (drained aid ex released))"
  using stays_reducers(6,7) by (auto simp: stays_def arming_def started_def drained_def)

lemma sign_record_stays [simp]:
  "rc_run_id (sign_record tid sig c) = rc_run_id c" "rc_key_id (sign_record tid sig c) = rc_key_id c"
  by (simp_all add: sign_record_def split: option.split)

section \<open>What a failed transaction leaves\<close>

text \<open>The identity of the run and its clock against an earlier state.\<close>

definition pinned :: "('w \<Rightarrow> int) \<Rightarrow> 'w run \<Rightarrow> 'w run \<Rightarrow> bool" where
  "pinned now r0 r \<longleftrightarrow> rn_seed r = rn_seed r0 \<and> rc_run_id (rn_core r) = rc_run_id (rn_core r0) \<and>
     rc_key_id (rn_core r) = rc_key_id (rn_core r0) \<and> rn_origin_us r = rn_origin_us r0 \<and> now (rn_world r0) \<le> now (rn_world r)"

definition grown :: "('w \<Rightarrow> int) \<Rightarrow> ed_lib \<Rightarrow> json list \<Rightarrow> 'w run \<Rightarrow> bool" where
  "grown now lib es r \<longleftrightarrow> (\<exists>new. settled now lib (es @ new) r)"

lemma pinned_refl: "pinned now r r"
  by (simp add: pinned_def)

lemma chain_inv_mono: "chain_inv lib seed rid kid limit j es \<Longrightarrow> limit \<le> limit' \<Longrightarrow> chain_inv lib seed rid kid limit' j es"
  by (force simp: chain_inv_def owned_def)

lemma settled_pinned: "settled now lib es r \<Longrightarrow> pinned now r r' \<Longrightarrow> db_main (rn_db r') = db_main (rn_db r) \<Longrightarrow> settled now lib es r'"
  by (auto simp: settled_def pinned_def elim: chain_inv_mono)

lemma pinned_prims:
  "keeps (pinned now r0) (on_db m)" "forward now w \<Longrightarrow> keeps (pinned now r0) (on_world w)"
  "(\<And>r. rn_seed (f r) = rn_seed r \<and> rc_run_id (rn_core (f r)) = rc_run_id (rn_core r) \<and> rc_key_id (rn_core (f r)) = rc_key_id (rn_core r) \<and>
     rn_origin_us (f r) = rn_origin_us r \<and> rn_world (f r) = rn_world r) \<Longrightarrow> keeps (pinned now r0) (modify f)"
  by (auto simp: keeps_def pinned_def on_db_def on_world_def forward_def modify_def split: prod.split elim: order_trans)
    (metis order_trans snd_conv)

lemma rollback_main: "rollback_txn d = (x, d') \<Longrightarrow> db_main d' = db_main d"
  by (auto simp: rollback_txn_def handle_exn_def sql_rollback_def ret_def counted_def split: if_splits)

context quiet_env
begin

lemma pinned_now: "keeps (pinned now r0) (now_us E)"
proof (rule keepsI)
  fix r assume p: "pinned now r0 r"
  obtain t w where tw: "env_boottime_us E (rn_world r) = (t, w)" by (cases "env_boottime_us E (rn_world r)")
  from clock [OF tw] p show "pinned now r0 (snd (now_us E r))" by (simp add: now_us_def tw pinned_def)
qed

lemmas pinned_intros = flow_intros pinned_prims pinned_now id_forward

lemma pinned_parts:
  "keeps (pinned now r0) (sync_token kt)" "keeps (pinned now r0) (sync_action ka)" "keeps (pinned now r0) (sync_compute kc)"
  "keeps (pinned now r0) persist_token" "keeps (pinned now r0) persist_dispatch" "keeps (pinned now r0) persist_reservation"
  "keeps (pinned now r0) (u_text_of n)" "keeps (pinned now r0) (t_us E)" "keeps (pinned now r0) (elapsed_us E)"
  unfolding sync_token_def sync_action_def sync_compute_def persist_token_def persist_dispatch_def persist_reservation_def
    u_text_of_def t_us_def elapsed_us_def by (intro pinned_intros; simp)+

lemma pinned_steps:
  "keeps (pinned now r0) (append_event E lib ev head)" "keeps (pinned now r0) (stamp_stop E evs)" "keeps (pinned now r0) persist_side_effects"
  "keeps (pinned now r0) store_meta" "keeps (pinned now r0) (status_object E)" "keeps (pinned now r0) (store_reply key result error)"
  unfolding append_event_def stamp_stop_def persist_side_effects_def store_meta_def store_reply_def
    status_object_def head_json_def coverage_def Let_def by (intro pinned_intros pinned_parts; simp)+

lemma pinned_commit: "keeps (pinned now r0) (commit_body E lib evs key result error)"
  unfolding commit_body_def write_projection_def by (intro pinned_intros pinned_steps)

section \<open>A transaction keeps the journal\<close>

lemma grown_commit: "keeps (grown now lib es) (commit E lib evs key result error)"
proof (rule keepsI)
  fix r assume "grown now lib es r"
  then obtain new where s: "settled now lib (es @ new) r" by (auto simp: grown_def)
  obtain x r1 where b: "commit_body E lib evs key result error r = (x, r1)" by (cases "commit_body E lib evs key result error r")
  show "grown now lib es (snd (commit E lib evs key result error r))"
  proof (cases x)
    case (Inr u)
    then obtain more where "settled now lib ((es @ new) @ more) r1"
      using commit_body_settles [OF s] b by (cases u) blast
    then show ?thesis using b Inr by (auto simp: commit_def handle_exn_def grown_def)
  next
    case (Inl e)
    have r1: "db_main (rn_db r1) = db_main (rn_db r)" using commit_body_fails b Inl by blast
    have p: "pinned now r r1" using keepsD [OF pinned_commit pinned_refl b] .
    obtain y d where d: "rollback_txn (rn_db r1) = (y, d)" by (cases "rollback_txn (rn_db r1)")
    have "snd (commit E lib evs key result error r) = r1\<lparr>rn_db := d\<rparr>"
      using b Inl d by (auto simp: commit_def handle_exn_def andthen_def on_db_def raise_def split: sum.split)
    moreover have "settled now lib (es @ new) (r1\<lparr>rn_db := d\<rparr>)"
      by (rule settled_pinned [OF s]) (use p r1 rollback_main [OF d] in \<open>simp_all add: pinned_def\<close>)
    ultimately show ?thesis by (auto simp: grown_def)
  qed
qed

end

section \<open>Invariants of a run\<close>

text \<open>A property of the run that survives the passage of time and every transaction survives every method of \<open>Run\<close>.\<close>

locale run_invariant = quiet_env +
  fixes lib :: ed_lib and I :: "'a run \<Rightarrow> bool"
  assumes drift: "I r \<Longrightarrow> pinned now r r' \<Longrightarrow> db_main (rn_db r') = db_main (rn_db r) \<Longrightarrow> I r'"
    and inv_commit: "keeps I (commit E lib evs key result error)"
begin

lemma inv_world: "forward now m \<Longrightarrow> keeps I (on_world m)"
  by (rule keepsI, erule drift) (auto simp: pinned_def on_world_def forward_def split: prod.split, metis snd_conv)

lemma inv_now: "keeps I (now_us E)"
proof (rule keepsI)
  fix r assume "I r"
  moreover have "pinned now r (snd (now_us E r))" using pinned_now pinned_refl by (auto simp: keeps_def)
  moreover have "db_main (rn_db (snd (now_us E r))) = db_main (rn_db r)" by (simp add: now_us_def split: prod.split)
  ultimately show "I (snd (now_us E r))" by (rule drift)
qed

lemma inv_query: "keeps I (on_db (query f))"
  by (rule keepsI, erule drift) (simp_all add: pinned_def on_db_def query_def counted_def)

lemma inv_modify: "(\<And>r. rn_seed (f r) = rn_seed r \<and> rc_run_id (rn_core (f r)) = rc_run_id (rn_core r) \<and>
    rc_key_id (rn_core (f r)) = rc_key_id (rn_core r) \<and> rn_origin_us (f r) = rn_origin_us r \<and> rn_world (f r) = rn_world r \<and>
    rn_db (f r) = rn_db r) \<Longrightarrow> keeps I (modify f)"
  by (rule keepsI, erule drift) (simp_all add: pinned_def modify_def)

lemma inv_core: "stays f \<Longrightarrow> keeps I (on_core f)"
  by (rule keepsI, erule drift) (simp_all add: pinned_def on_core_def stays_def split_beta)

lemma inv_catch:
  "keeps I m \<Longrightarrow> (\<And>c. keeps I (h c)) \<Longrightarrow> keeps I (catch_lexwatt m h)"
  "keeps I m \<Longrightarrow> keeps I m' \<Longrightarrow> keeps I (catch_any m m')"
  "keeps I n \<Longrightarrow> keeps I (catch_audit n)"
  unfolding catch_lexwatt_def catch_any_def catch_audit_def by (intro flow_intros; simp)+

lemmas inv_intros = flow_intros inv_commit inv_world inv_now inv_query inv_modify inv_core inv_catch
  calls_forward stays_reducers stays_steps stays_engine

lemma inv_events: "keeps I (on_db (events_after n k))" "keeps I (on_db event_head)"
  "keeps I (on_db (request_get who rid))"
  unfolding events_after_def event_head_def request_get_def by (rule inv_query)+

lemma inv_text: "keeps I (u_text_of n)" "keeps I (t_us E)" "keeps I (elapsed_us E)"
  "keeps I the_cgroup" "keeps I state_of" "keeps I coverage"
  "keeps I (head_json h)" "keeps I (commit_some E lib out)"
  unfolding u_text_of_def t_us_def elapsed_us_def the_cgroup_def state_of_def coverage_def head_json_def commit_some_def
  by (intro inv_intros)+

lemma inv_status: "keeps I (status_object E)"
  unfolding status_object_def by (intro inv_intros inv_text inv_events)

lemma inv_stop: "keeps I (issue_kill E lib)" "keeps I (kill_if_stopping E lib)"
  "keeps I (run_latch E lib reason ex)" "keeps I (run_fault E lib reason)"
  unfolding run_latch_def run_fault_def kill_if_stopping_def issue_kill_def by (intro inv_intros inv_text; simp)+

lemma inv_readings: "keeps I (reading_obj d a b c)" "keeps I (sample_obj i t c rs dl tot)"
  "keeps I (cpu_since_baseline E)" "keeps I (check_stuck any n c)"
  unfolding reading_obj_def sample_obj_def cpu_since_baseline_def check_stuck_def by (intro inv_intros inv_text; simp)+

lemma inv_read_loops: "keeps I (read_plain E d acc)" "keeps I (sample_domain E stale d acc')"
  "keeps I (final_domain E stale d acc'')"
  unfolding read_plain_def sample_domain_def final_domain_def by (intro inv_intros inv_readings; simp)+

lemma inv_samples: "keeps I (read_sample E i)" "keeps I (read_final_sample E i)"
  "keeps I (guard E lib)" "keeps I (sample E lib n stale)"
  unfolding read_sample_def read_final_sample_def sample_def guard_def Let_def
  by (intro inv_intros inv_read_loops inv_readings inv_stop; simp split: prod.split run_state.split option.split add: inv_stop keeps_prims)+

lemma inv_cleanup: "keeps I (bootstrap_clean E)" "keeps I (try_kill E)" "keeps I (free_uid E)"
  "keeps I (group_empty E cg)" "keeps I (exit_of E proc)" "keeps I (destroy_seed E kid)"
  unfolding bootstrap_clean_def try_kill_def free_uid_def group_empty_def exit_of_def destroy_seed_def
  by (intro inv_intros inv_text; simp)+

lemma inv_arming: "keeps I (run_arming E lib)" "keeps I (run_reject E lib code)"
  "keeps I (cleanup_arming E)" "keeps I (write_manifest E)"
  "keeps I (arm_resources E)" "keeps I (arm_started E lib)"
  unfolding run_arming_def run_reject_def cleanup_arming_def write_manifest_def arm_resources_def arm_started_def Let_def
  by (intro inv_intros inv_text inv_samples inv_cleanup; simp)+

lemma inv_release: "keeps I (release_root E)"
  unfolding release_root_def by (intro inv_intros inv_text inv_arming; simp)

lemma inv_arm: "keeps I (arm E lib)"
  unfolding arm_def by (intro inv_intros inv_arming inv_release inv_cleanup inv_stop)

lemma inv_drain: "keeps I (drain_action E aid acc)" "keeps I (observe_child E lib kp)"
  "keeps I (stamp_missing n)" "keeps I (final_sample E lib)"
  unfolding drain_action_def observe_child_def stamp_missing_def final_sample_def Let_def
  by (intro inv_intros inv_text inv_cleanup inv_samples; simp)+

lemma inv_containment: "keeps I (check_empty E lib)" "keeps I (run_finalize E lib)"
  "keeps I (observe_children E lib)"
  unfolding check_empty_def run_finalize_def observe_children_def
  by (intro inv_intros inv_text inv_cleanup inv_drain; simp)+

lemma inv_progress: "keeps I (stop_progress E lib n k)"
  unfolding stop_progress_def
  by (intro inv_intros inv_text inv_cleanup inv_drain inv_containment; simp)

lemma inv_watch: "keeps I (watch_root E lib)" "keeps I (watch_wall E lib n)"
  "keeps I (watch_energy E lib n stale)" "keeps I (watch_tokens E lib n)"
  unfolding watch_root_def watch_wall_def watch_energy_def watch_tokens_def
  by (intro inv_intros inv_text inv_stop inv_samples; simp)+

lemma inv_tick: "keeps I (tick E lib)"
  unfolding tick_def safety_pass_def by (intro inv_intros inv_text inv_watch inv_containment inv_progress)

section \<open>Requests\<close>

lemma inv_reads: "keeps I (events_read params)" "keeps I (own_run params)"
  "keeps I (rpc_run_get E)" "keeps I (run_bundle h)"
  unfolding events_read_def own_run_def rpc_run_get_def run_bundle_def
  by (intro inv_intros inv_text inv_events inv_status; simp)+

lemma inv_methods: "keeps I (token_issue_rpc E lib params ch rid)"
  "keeps I (action_dispatch_rpc E lib params ch rid)" "keeps I (action_get_rpc params ch rid)"
  "keeps I (compute_reserve_rpc E params ch rid)" "keeps I (compute_finish_rpc params ch rid)"
  unfolding token_issue_rpc_def action_dispatch_rpc_def action_get_rpc_def compute_reserve_rpc_def compute_finish_rpc_def Let_def
  by (intro inv_intros inv_text; simp)+

lemma inv_attempt: "keeps I (execute_action E lib aid action)"
  unfolding execute_action_def spawn_once_def http_once_def action_failed_def
  by (intro inv_intros inv_text; simp)

lemma inv_dispatch: "keeps I (rpc_dispatch E lib m params ch rid)"
  unfolding rpc_dispatch_def dispatch_ended_def dispatch_live_def by (intro inv_intros inv_reads inv_methods)

lemma inv_answer: "keeps I (answer E lib who rid dg out)"
  unfolding answer_def execute_pending_def by (intro inv_intros inv_stop inv_attempt; simp)

lemma inv_handle: "keeps I (run_handle E lib who req ch)"
  unfolding run_handle_def handle_checked_def Let_def
  by (intro inv_intros inv_events inv_dispatch inv_answer)

end

sublocale quiet_env \<subseteq> grown: run_invariant E now lib "grown now lib es" for lib es
proof unfold_locales
  show "grown now lib es r \<Longrightarrow> pinned now r r' \<Longrightarrow> db_main (rn_db r') = db_main (rn_db r) \<Longrightarrow> grown now lib es r'" for r r'
    by (auto simp: grown_def intro: settled_pinned)
qed (rule grown_commit)

end
