(* ===== verification/EngineReplies.thy ===== *)
theory EngineReplies imports EngineSafe JcsRoundtrip begin

text \<open>
  The table of idempotent replies: a row once committed stays as it is under every method of \<open>Run\<close> (the second
  instance of \<open>run_invariant\<close>), and the transaction of a request commits its reply.
\<close>

definition replied :: "pystr \<times> pystr \<Rightarrow> pystr \<times> bytes \<Rightarrow> journal \<Rightarrow> bool" where
  "replied k v j \<longleftrightarrow> tbl_get (jn_request j) k = Some v"

definition kept_reply :: "pystr \<times> pystr \<Rightarrow> pystr \<times> bytes \<Rightarrow> 'w run \<Rightarrow> bool" where
  "kept_reply k v r \<longleftrightarrow> replied k v (db_main (rn_db r))"

text \<open>Inside a transaction over the tables \<open>M\<close> that hold the row, so does what the transaction has written.\<close>

definition holding :: "journal \<Rightarrow> pystr \<times> pystr \<Rightarrow> pystr \<times> bytes \<Rightarrow> 'w run \<Rightarrow> bool" where
  "holding M k v r \<longleftrightarrow> in_txn M (rn_db r) \<and> replied k v (db_view (rn_db r))"

lemma holding_query: "keeps (holding M k v) (on_db (query f))"
  by (rule keepsI) (auto simp: on_db_def query_def holding_def in_txn_def)

lemma holding_execute:
  "(\<And>j j'. f j = Some j' \<Longrightarrow> replied k v j \<Longrightarrow> replied k v j') \<Longrightarrow> keeps (holding M k v) (on_db (execute f))"
  by (rule keepsI) (auto simp: on_db_def execute_def holding_def in_txn_def db_write_def db_view_def split: option.split)

lemma holding_modify: "(\<And>r. rn_db (f r) = rn_db r) \<Longrightarrow> keeps (holding M k v) (modify f)"
  by (rule keeps_modify) (simp add: holding_def)

lemma holding_world: "keeps (holding M k v) (on_world m)" "keeps (holding M k v) (now_us E)"
  by (auto simp: keeps_def holding_def on_world_def now_us_def split: prod.split)

lemma replied_insert: "request_insert k' v' j = Some j' \<Longrightarrow> replied k v j \<Longrightarrow> replied k v j'"
  by (auto simp: request_insert_def replied_def tbl_insert_def tbl_get_def split: if_splits)

lemma holding_statements:
  "keeps (holding M k v) (on_db (meta_set mk mv))" "keeps (holding M k v) (on_db (run_update a b c n h s))"
  "keeps (holding M k v) (on_db event_head)" "keeps (holding M k v) (on_db (request_put w q dg rs))"
  "keeps (holding M k v) (on_db (token_put tok st tb ab))" "keeps (holding M k v) (on_db (token_state_of tid))"
  "keeps (holding M k v) (on_db (token_set_state tid st))" "keeps (holding M k v) (on_db (action_put aid tid ch st vw))"
  "keeps (holding M k v) (on_db (action_set aid st vw))" "keeps (holding M k v) (on_db (action_row aid))"
  "keeps (holding M k v) (on_db (compute_put cid ch rs))" "keeps (holding M k v) (on_db (compute_set cid rs))"
  "keeps (holding M k v) (on_db (compute_row cid))" "keeps (holding M k v) (on_db (event_append n i h b))"
  unfolding meta_set_def run_update_def event_head_def request_put_def token_put_def token_state_of_def token_set_state_def
    action_put_def action_set_def action_row_def compute_put_def compute_set_def compute_row_def event_append_def
  by ((rule holding_query | rule holding_execute),
      (auto simp: Let_def replied_def event_insert_def split: if_splits dest: replied_insert [unfolded replied_def])?)+

lemmas holding_intros = flow_intros holding_statements holding_world holding_modify

lemma holding_parts:
  "keeps (holding M k v) (sync_token kt)" "keeps (holding M k v) (sync_action ka)" "keeps (holding M k v) (sync_compute kc)"
  "keeps (holding M k v) persist_token" "keeps (holding M k v) persist_dispatch" "keeps (holding M k v) persist_reservation"
  "keeps (holding M k v) (u_text_of n)" "keeps (holding M k v) (t_us E)" "keeps (holding M k v) (elapsed_us E)"
  unfolding sync_token_def sync_action_def sync_compute_def persist_token_def persist_dispatch_def persist_reservation_def
    u_text_of_def t_us_def elapsed_us_def by (intro holding_intros; simp)+

lemma holding_steps:
  "keeps (holding M k v) (append_event E lib ev head)" "keeps (holding M k v) (stamp_stop E evs)" "keeps (holding M k v) persist_side_effects"
  "keeps (holding M k v) store_meta" "keeps (holding M k v) (write_projection E head)" "keeps (holding M k v) (store_reply key result error)"
  unfolding append_event_def stamp_stop_def persist_side_effects_def store_meta_def write_projection_def store_reply_def
    status_object_def head_json_def coverage_def Let_def by (intro holding_intros holding_parts; simp)+

text \<open>The transaction up to its last statement.\<close>

definition commit_rest :: "'w env \<Rightarrow> ed_lib \<Rightarrow> event list \<Rightarrow> (pystr \<times> pystr \<times> pystr) option \<Rightarrow> json \<Rightarrow> code option \<Rightarrow> ('w, unit) eng" where
  "commit_rest E lib es key result error =
    andthen (on_db event_head) (\<lambda>head0. andthen (fold_act (append_event E lib) es head0) (\<lambda>head.
    andthen (stamp_stop E es) (\<lambda>_. andthen persist_side_effects (\<lambda>_. andthen store_meta (\<lambda>_.
    andthen (write_projection E head) (\<lambda>_. store_reply key result error))))))"

lemma commit_body_split:
  "commit_body E lib es key result error = andthen (on_db begin_txn) (\<lambda>_. andthen (commit_rest E lib es key result error) (\<lambda>_. on_db commit_txn))"
  by (simp add: commit_body_def commit_rest_def andthen_assoc)

lemma holding_rest: "keeps (holding M k v) (commit_rest E lib es key result error)"
  unfolding commit_rest_def by (intro holding_intros holding_steps)

lemma commit_body_returns:
  fixes E :: "'w env" and r r' :: "'w run"
  assumes "commit_body E lib es key result error r = (Inr (), r')"
  obtains r1 r2 :: "'w run" where "inside (db_main (rn_db r)) r1" "db_view (rn_db r1) = db_main (rn_db r)"
    "commit_rest E lib es key result error r1 = (Inr (), r2)" "db_main (rn_db r') = db_view (rn_db r2)"
proof -
  obtain r1 r2 where 1: "on_db begin_txn r = (Inr (), r1)" and 2: "commit_rest E lib es key result error r1 = (Inr (), r2)"
    and 3: "on_db commit_txn r2 = (Inr (), r')"
    using assms by (auto simp: commit_body_split andthen_eq_Inr)
  obtain d where d: "begin_txn (rn_db r) = (Inr (), d)" "r1 = r\<lparr>rn_db := d\<rparr>" using 1 by (auto simp: on_db_eq)
  from d(1) have v: "db_view (rn_db r1) = db_main (rn_db r)" by (cases rule: begin_txn_cases) (simp_all add: d(2))
  have i: "inside (db_main (rn_db r)) r1" by (rule begin_inside [OF 1])
  have "keeps (inside (db_main (rn_db r))) (commit_rest E lib es key result error)"
    unfolding commit_rest_def by (intro inside_intros inside_steps)
  from keepsD [OF this i 2] have i2: "in_txn (db_main (rn_db r)) (rn_db r2)" by (simp add: inside_def)
  obtain d' where d': "commit_txn (rn_db r2) = (Inr (), d')" "r' = r2\<lparr>rn_db := d'\<rparr>" using 3 by (auto simp: on_db_eq)
  from d'(1) i2 have "db_main d' = db_view (rn_db r2)" by (cases rule: commit_txn_cases) auto
  with that i v 2 show thesis by (simp add: d'(2))
qed

lemma commit_keeps_reply:
  fixes E :: "'w env"
  shows "keeps (kept_reply k v) (commit E lib es key result error)"
proof (rule keepsI)
  fix r :: "'w run" assume kept: "kept_reply k v r"
  obtain x r1 where b: "commit_body E lib es key result error r = (x, r1)" by (cases "commit_body E lib es key result error r")
  show "kept_reply k v (snd (commit E lib es key result error r))"
  proof (cases x)
    case (Inr u)
    then obtain r2 r3 where r: "inside (db_main (rn_db r)) r2" "db_view (rn_db r2) = db_main (rn_db r)"
        "commit_rest E lib es key result error r2 = (Inr (), r3)" "db_main (rn_db r1) = db_view (rn_db r3)"
      using b by (cases u) (auto elim: commit_body_returns)
    have "holding (db_main (rn_db r)) k v r2" using r(1,2) kept by (simp add: holding_def inside_def kept_reply_def)
    from keepsD [OF holding_rest this r(3)] show ?thesis
      using b Inr r(4) by (simp add: commit_def handle_exn_def kept_reply_def holding_def)
  next
    case (Inl e)
    have "db_main (rn_db r1) = db_main (rn_db r)" using commit_body_fails b Inl by blast
    moreover obtain y d where d: "rollback_txn (rn_db r1) = (y, d)" by (cases "rollback_txn (rn_db r1)")
    ultimately show ?thesis
      using b Inl kept rollback_main [OF d]
      by (auto simp: commit_def handle_exn_def andthen_def on_db_def raise_def kept_reply_def split: sum.split)
  qed
qed

sublocale quiet_env \<subseteq> replies: run_invariant E now lib "kept_reply k v" for lib k v
proof unfold_locales
  show "kept_reply k v r \<Longrightarrow> pinned now r r' \<Longrightarrow> db_main (rn_db r') = db_main (rn_db r) \<Longrightarrow> kept_reply k v r'" for r r'
    by (simp add: kept_reply_def)
qed (rule commit_keeps_reply)

section \<open>The reply of a request\<close>

text \<open>A returning transaction with a key has stored the envelope under it.\<close>

lemma commit_stores_reply:
  assumes "commit E lib es (Some (who, rid, dg)) result error r = (Inr (), r')"
  shows "\<exists>b. dumps (envelope rid result error) = Inr b \<and> kept_reply (who, rid) (dg, b) r'"
proof -
  have "commit_body E lib es (Some (who, rid, dg)) result error r = (Inr (), r')"
    using assms by (auto simp: commit_def handle_exn_def andthen_def raise_def split: sum.splits prod.splits)
  then obtain r1 r2 where r: "commit_rest E lib es (Some (who, rid, dg)) result error r1 = (Inr (), r2)"
    "db_main (rn_db r') = db_view (rn_db r2)" by (rule commit_body_returns)
  from r(1) obtain r3 where "store_reply (Some (who, rid, dg)) result error r3 = (Inr (), r2)"
    by (auto simp: commit_rest_def andthen_eq_Inr)
  then obtain b d where b: "dumps (envelope rid result error) = Inr b" and "request_put who rid dg b (rn_db r3) = (Inr (), d)"
    and d: "r2 = r3\<lparr>rn_db := d\<rparr>"
    by (auto simp: store_reply_def eng_eqs)
  then obtain j where "request_insert (who, rid) (dg, b) (db_view (rn_db r3)) = Some j" "db_view d = j"
    using execute_Inr by (auto simp: request_put_def)
  then obtain t where t: "tbl_insert (who, rid) (dg, b) (jn_request (db_view (rn_db r3))) = Some t"
      "db_view d = (db_view (rn_db r3))\<lparr>jn_request := t\<rparr>"
    by (auto simp: request_insert_def)
  then have "replied (who, rid) (dg, b) (db_view d)"
    using tbl.put_get [OF t(1), of "(who, rid)"] by (simp add: replied_def)
  then show ?thesis using b r(2) d by (auto simp: kept_reply_def)
qed

end
