(* ===== verification/EngineProps.thy ===== *)
theory EngineProps imports EngineReplies VerifyProps begin

text \<open>
  The properties of the supervisor engine: transactions, the journal over whole sessions, receipts made from it,
  replies of repeated requests, pages of events, and the kill.
\<close>

section \<open>Sessions\<close>

text \<open>The calls that the launcher and its connections make on one run, in any order and with any arguments.\<close>

datatype run_op = Op_arming | Op_arm | Op_reject code | Op_tick | Op_request pystr json "pystr option" | Op_bundle json

fun perform :: "'w env \<Rightarrow> ed_lib \<Rightarrow> run_op \<Rightarrow> 'w run \<Rightarrow> 'w run" where
  "perform E lib Op_arming r = snd (run_arming E lib r)"
| "perform E lib Op_arm r = snd (arm E lib r)"
| "perform E lib (Op_reject code) r = snd (run_reject E lib code r)"
| "perform E lib Op_tick r = snd (tick E lib r)"
| "perform E lib (Op_request who req ch) r = snd (run_handle E lib who req ch r)"
| "perform E lib (Op_bundle h) r = snd (run_bundle h r)"

definition session :: "'w env \<Rightarrow> ed_lib \<Rightarrow> run_op list \<Rightarrow> 'w run \<Rightarrow> 'w run" where
  "session E lib ops r = fold (perform E lib) ops r"

context run_invariant
begin

lemma perform_inv: "I r \<Longrightarrow> I (perform E lib op r)"
  using inv_arming(1,2) inv_arm inv_tick inv_handle inv_reads(4) by (cases op) (simp_all add: keeps_def)

lemma session_inv: "I r \<Longrightarrow> I (session E lib ops r)"
  unfolding session_def by (induction ops arbitrary: r) (simp_all add: perform_inv)

end

lemma fresh_settled: "jn_event (db_main (rn_db r)) = [] \<Longrightarrow> settled now lib [] r"
  by (simp add: settled_def chain_inv_def log_ok_def linked_def)

context quiet_env
begin

lemma created_settles:
  assumes "jn_event (db_main (rn_db r)) = []"
  shows "\<exists>es. settled now lib es (snd (created E lib ch r))"
proof -
  obtain t w where tw: "env_boottime_us E (rn_world r) = (t, w)" by (cases "env_boottime_us E (rn_world r)")
  let ?r = "r\<lparr>rn_world := w, rn_origin_us := t\<rparr>"
  let ?rest = "andthen (reads id) (\<lambda>r. andthen (lift_r (utf8_encode (env_boot_id E (rn_world r)))) (\<lambda>boot.
    andthen (lift_r (utf8_encode (rc_key_id (rn_core r)))) (\<lambda>key.
    andthen (lift_r (dumps (config_of r))) (\<lambda>cfg. andthen (lift_r (dumps (rn_execv r))) (\<lambda>ex.
    andthen (lift_r (utf8_encode ch)) (\<lambda>chb.
    andthen (modify (\<lambda>r. r\<lparr>rn_pending_meta := [(lit ''storage_major'', lit ''1''), (lit ''boot_id'', boot), (lit ''key_id'', key),
        (lit ''config'', cfg), (lit ''exec'', ex), (lit ''config_hash'', chb)]\<rparr>)) (\<lambda>_.
      commit_events E lib [(K_RunCreated, JObj [(lit ''config_hash'', JStr ch)])])))))))"
  have "created E lib ch r = ?rest ?r" by (simp add: created_def now_us_def tw andthen_def [of "now_us E"])
  moreover have "keeps (grown now lib []) ?rest" by (intro grown.inv_intros; simp)
  moreover have "grown now lib [] ?r" using fresh_settled [of ?r] assms by (force simp: grown_def)
  ultimately show ?thesis by (auto simp: keeps_def grown_def)
qed

lemma session_settles: "settled now lib es r \<Longrightarrow> \<exists>new. settled now lib (es @ new) (session E lib ops r)"
  using grown.session_inv [of lib es r ops] by (metis append_Nil2 grown_def)

lemma session_keeps_reply: "kept_reply k v r \<Longrightarrow> kept_reply k v (session E lib ops r)"
  by (rule replies.session_inv)

end

section \<open>Receipts\<close>

lemma json_ok_body: "json_ok n e \<Longrightarrow> fld (body_at (canon e)) k = canon (fld (body_at e) k)"
  by (metis fld_canon json_ok_fld)

lemma linked_prefix: "linked (xs @ ys) \<Longrightarrow> linked xs"
  by (induction ys rule: rev_induct) (simp_all add: linked_snoc flip: append_assoc)

lemma linked_take: "linked es \<Longrightarrow> linked (take k es)"
  by (rule linked_prefix [of _ "drop k es"]) simp

lemma linked_canon:
  assumes "\<forall>e \<in> set es. json_ok n e" "linked es"
  shows "linked (map canon es)"
proof -
  have b: "fld (body_at (canon (es ! i))) k = canon (fld (body_at (es ! i)) k)" "fld (canon (es ! i)) ''hash'' = canon (fld (es ! i) ''hash'')"
    if "i < length es" for i k
    using assms(1) that json_ok_body fld_canon by (metis nth_mem)+
  show ?thesis
    unfolding linked_def length_map
  proof (intro allI impI)
    fix i assume i: "i < length es"
    then have z: "0 < length es" "i - 1 < length es" by linarith+
    show "u_of (fld (body_at (map canon es ! i)) ''seq'') = int i + 1 \<and>
        fld (body_at (map canon es ! i)) ''prev_hash'' = (if i = 0 then JStr ZERO_HASH else fld (map canon es ! (i - 1)) ''hash'') \<and>
        fld (body_at (map canon es ! i)) ''run_id'' = fld (body_at (map canon es ! 0)) ''run_id'' \<and>
        fld (body_at (map canon es ! i)) ''key_id'' = fld (body_at (map canon es ! 0)) ''key_id'' \<and>
        (0 < i \<longrightarrow> u_of (fld (body_at (map canon es ! (i - 1))) ''t_us'') \<le> u_of (fld (body_at (map canon es ! i)) ''t_us''))"
      unfolding nth_map [OF i] nth_map [OF z(1)] nth_map [OF z(2)] b [OF i] b [OF z(1)] b [OF z(2)] u_of_canon
      using assms(2) [unfolded linked_def, rule_format, OF i] by auto
  qed
qed

definition run_pin :: "run_core \<Rightarrow> pystr \<Rightarrow> json" where
  "run_pin c pub = JObj [(lit ''key_id'', JStr (rc_key_id c)), (lit ''public_key'', JStr pub)]"

lemma sealed_good:
  assumes "sealed lib seed row e" "owned rid kid limit e" "json_ok MAX_DEPTH e" "ed_correct lib" "public_key_b64_from_seed lib seed = Inr pub"
    "rc_key_id c = kid"
  shows "loads (ev_entry row) = Inr (canon e) \<and> hashed (canon e) \<and> authentic lib [run_pin c pub] (canon e)"
proof -
  obtain body sig m where e: "e = entry_obj body (ev_hash row) sig" "event_hash body = Inr (ev_hash row)"
    "event_sign_message (ev_hash row) = Inr m" "sign_b64 lib seed m = Inr sig" "dumps e = Inr (ev_entry row)"
    using assms(1) by (auto simp: sealed_def)
  obtain pk sg where s: "decode_signature (JStr sig) = Inr sg" "decode_public_key (JStr pub) = Inr pk" "ed_verify lib pk m sg"
    by (rule signed_text_verifies [OF assms(4) e(4) assms(5)])
  have ok: "json_ok MAX_DEPTH body" using json_ok_fld [OF assms(3), of "''body''"] by (simp add: e(1))
  have f: "fld (canon e) ''body'' = canon body" "fld (canon e) ''hash'' = JStr (ev_hash row)" "fld (canon e) ''sig'' = JStr sig"
    using fld_canon [OF assms(3)] by (simp_all add: e(1))
  have k: "fld (canon body) ''key_id'' = JStr kid"
    using assms(2) fld_canon [OF ok, of "''key_id''"] by (simp add: owned_def e(1))
  have "loads (ev_entry row) = Inr (canon e)" using loads_after_dumps [OF assms(3)] e(5) by auto
  moreover have "hashed (canon e)"
    using e(2) digest_canon [OF ok] by (simp add: hashed_def f event_hash_def)
  moreover have "authentic lib [run_pin c pub] (canon e)"
    using s e(3) assms(6) by (auto simp: authentic_def f k keymap_def run_pin_def fld_JObj str_of_def)
  ultimately show ?thesis by blast
qed

lemma run_bundle_entries:
  assumes s: "settled now lib es r" and idle: "db_txn (rn_db r) = None" and wire: "\<forall>e \<in> set es. json_ok MAX_DEPTH e"
    and key: "ed_correct lib" "public_key_b64_from_seed lib (rn_seed r) = Inr pub"
    and b: "run_bundle h r = (Inr b, r')"
  shows "\<exists>xs. b = bundle_obj xs h \<and> xs = map canon (take 1000000 es) \<and> linked xs \<and>
    (\<forall>x \<in> set xs. hashed x \<and> authentic lib [run_pin (rn_core r) pub] x)"
proof -
  let ?rows = "jn_event (db_main (rn_db r))"
  have inv: "log_ok (db_main (rn_db r))" "list_all2 (sealed lib (rn_seed r)) ?rows es" "linked es"
    "\<forall>e \<in> set es. owned (rc_run_id (rn_core r)) (rc_key_id (rn_core r)) (now (rn_world r) - rn_origin_us r) e"
    using s by (auto simp: settled_def chain_inv_def)
  have good: "list_all2 (\<lambda>row e. loads (ev_entry row) = Inr (canon e) \<and> hashed (canon e) \<and> authentic lib [run_pin (rn_core r) pub] (canon e)) ?rows es"
    using inv(2) by (rule list.rel_mono_strong) (rule sealed_good [OF _ inv(4) [rule_format] wire [rule_format] key refl])
  have view: "db_view (rn_db r) = db_main (rn_db r)" using idle by (simp add: db_view_def)
  have part: "list_all2 (\<lambda>row e. loads (ev_entry row) = Inr (canon e) \<and> hashed (canon e) \<and> authentic lib [run_pin (rn_core r) pub] (canon e))
      (take 1000000 ?rows) (take 1000000 es)"
    using good by (rule list_all2_takeI)
  have load_all: "mapE loads (map ev_entry rows) = Inr (map canon xs)"
    if "list_all2 (\<lambda>row e. loads (ev_entry row) = Inr (canon e) \<and> P e) rows xs" for rows xs P
    using that by (induction rule: list_all2_induct) simp_all
  have loaded: "mapE loads (events_from 0 1000000 (db_main (rn_db r))) = Inr (map canon (take 1000000 es))"
    using load_all [OF part] log_ok_events_from [OF inv(1), where n = 0 and limit = 1000000] by simp
  have "query f (rn_db r) = (Inr raw, d) \<Longrightarrow> raw = f (db_main (rn_db r))" for f :: "journal \<Rightarrow> bytes list" and raw d
    by (auto simp: query_def view split: if_splits)
  then have "b = bundle_obj (map canon (take 1000000 es)) h"
    using b loaded unfolding run_bundle_def events_after_def andthen_eq_Inr on_db_eq lift_r_eq ret_def by fastforce
  moreover have "linked (map canon (take 1000000 es))"
    by (rule linked_canon [OF _ linked_take [OF inv(3)]]) (use wire in \<open>auto dest: in_set_takeD\<close>)
  moreover have "hashed x \<and> authentic lib [run_pin (rn_core r) pub] x" if "x \<in> set (map canon (take 1000000 es))" for x
    using part that by (auto simp: list_all2_conv_all_nth in_set_conv_nth)
  ultimately show ?thesis by blast
qed

section \<open>A concrete run\<close>

definition idle_conn :: "'j \<Rightarrow> 'j conn" where
  "idle_conn j = \<lparr>db_main = j, db_txn = None, db_fails = (\<lambda>_. False), db_count = 0\<rparr>"

definition demo_config :: json where
  "demo_config = JObj [(lit ''profile'', JStr (lit ''linux-ledger-v1'')), (lit ''model_catalog'', JArr []), (lit ''network'', JArr [])]"

definition demo_run :: "journal \<Rightarrow> sim_host run" where
  "demo_run j = Run (plain_id ID_run) (plain_id ID_key) (replicate 32 0) demo_config JNull (idle_conn j) JNull [] (SimHost [] True True True)"

lemma demo_run_sel [simp]: "rn_db (demo_run j) = idle_conn j" "rn_seed (demo_run j) = replicate 32 0"
  "rc_run_id (rn_core (demo_run j)) = plain_id ID_run" "rc_key_id (rn_core (demo_run j)) = plain_id ID_key"
  "rn_origin_us (demo_run j) = 0" "sm_now_us (rn_world (demo_run j)) = 0"
  by (simp_all add: demo_run_def Run_def RunCore_def SimHost_def)

lemma idle_conn_sel [simp]: "db_main (idle_conn j) = j" "db_txn (idle_conn j) = None" "db_view (idle_conn j) = j" "failing (idle_conn j) = False"
  by (simp_all add: idle_conn_def db_view_def failing_def)

lemma demo_fresh: "settled sm_now_us plain_lib [] (demo_run JOURNAL_SCHEMA)"
  by (rule fresh_settled) (simp add: JOURNAL_SCHEMA_def)

section \<open>Properties\<close>

text \<open>C3: a transaction is all or nothing. Whatever statement of the storage fails, whatever the host and the id generator
  do short of turning the clock back, \<open>_commit\<close> on a run whose journal is a sealed chain either returns, and the
  journal has grown by exactly one signed, linked entry per event, in order; or it raises \<open>AuditFault\<close>, and the
  committed tables are what they were.\<close>

theorem commit_all_or_nothing:
  assumes "steady_env E now" "settled now lib es r" "commit E lib evs key result error r = (res, r')"
  shows "(res = Inr () \<and> (\<exists>new. settled now lib (es @ new) r' \<and> list_all2 carries new evs \<and> db_txn (rn_db r') = None)) \<or>
    (res = Inl AuditFault \<and> db_main (rn_db r') = db_main (rn_db r))"
proof -
  obtain x r1 where b: "commit_body E lib evs key result error r = (x, r1)" by (cases "commit_body E lib evs key result error r")
  show ?thesis
  proof (cases x)
    case (Inr u)
    then show ?thesis
      using steady_env.commit_body_settles [OF assms(1,2)] assms(3) b by (auto simp: commit_def handle_exn_def)
  next
    case (Inl e)
    obtain y d where d: "rollback_txn (rn_db r1) = (y, d)" by (cases "rollback_txn (rn_db r1)")
    have "y = Inr ()" using d by (auto simp: rollback_txn_def handle_exn_def ret_def split: prod.splits sum.splits)
    moreover have "db_main (rn_db r1) = db_main (rn_db r)" using commit_body_fails b Inl by blast
    ultimately show ?thesis
      using assms(3) b Inl d rollback_main [OF d] by (auto simp: commit_def handle_exn_def andthen_def on_db_def raise_def)
  qed
qed

theorem commit_all_or_nothing_witness:
  "(\<exists>new. settled sm_now_us plain_lib new (snd (commit_events sim_env plain_lib [(K_RunCreated, JNull)] (demo_run JOURNAL_SCHEMA))) \<and>
      list_all2 carries new [(K_RunCreated, JNull)]) \<or>
   db_main (rn_db (snd (commit_events sim_env plain_lib [(K_RunCreated, JNull)] (demo_run JOURNAL_SCHEMA)))) = JOURNAL_SCHEMA"
  using commit_all_or_nothing [OF sim.steady_env_axioms demo_fresh, where evs = "[(K_RunCreated, JNull)]" and key = None and
      result = JNull and error = None, OF surjective_pairing] by auto

text \<open>C4: the journal is append-only over a whole session. Creating a run on an empty journal leaves a sealed chain, and
  every sequence of calls (arming, ticks, requests with arbitrary contents on any channel, receipts), with every
  failure of storage or host in between, leaves the earlier entries followed by sealed, linked entries of the run.\<close>

theorem journal_append_only:
  assumes "quiet_env E now"
  shows "(jn_event (db_main (rn_db r)) = [] \<longrightarrow> (\<exists>es. settled now lib es (snd (created E lib ch r)))) \<and>
    (settled now lib es r \<longrightarrow> (\<exists>new. settled now lib (es @ new) (session E lib ops r)))"
  using quiet_env.created_settles [OF assms] quiet_env.session_settles [OF assms] by blast

theorem journal_append_only_witness:
  "\<exists>es. settled sm_now_us plain_lib es (session sim_env plain_lib [Op_arming, Op_arm, Op_tick] (demo_run JOURNAL_SCHEMA))"
  using journal_append_only [OF sim_quiet.quiet_env_axioms, of "demo_run JOURNAL_SCHEMA" plain_lib] demo_fresh by fastforce

text \<open>C5: the receipt of a run verifies. If the committed journal is a sealed chain whose entries are values of the wire
  profile, the receipt that \<open>bundle\<close> exports passes every cryptographic and structural step of \<open>verify_bundle\<close> under the
  public key of the run's seed; verification succeeds as soon as the receipt is well formed and its events replay.\<close>

theorem receipt_verifies:
  assumes "settled now lib es r" "db_txn (rn_db r) = None" "\<forall>e \<in> set es. json_ok MAX_DEPTH e"
    and "ed_correct lib" "public_key_b64_from_seed lib (rn_seed r) = Inr pub" "check_pins [run_pin (rn_core r) pub] = Inr ()"
    and "run_bundle JNull r = (Inr b, r')" "check_bundle b = Inr ()" "replay_entries (arr_of (fld b ''entries'')) = Inr st"
  shows "verify_bundle lib b [run_pin (rn_core r) pub] False = Inr (verify_result (map canon (take 1000000 es)) st)"
proof -
  obtain xs where xs: "b = bundle_obj xs JNull" "xs = map canon (take 1000000 es)" "linked xs"
    "\<forall>x \<in> set xs. hashed x \<and> authentic lib [run_pin (rn_core r) pub] x"
    using run_bundle_entries [OF assms(1-5,7)] by blast
  have "arr_of (fld b ''entries'') = xs" "fld b ''expected_head'' = JNull" by (simp_all add: xs(1) bundle_obj_def shape_defs)
  then have "verify_bundle lib b [run_pin (rn_core r) pub] False = Inr (verify_result xs st)"
    using xs(3,4) assms(6,8,9) by (simp add: verify_bundle_iff Let_def)
  then show ?thesis by (simp only: xs(2))
qed

definition created_journal :: journal where
  "created_journal = JOURNAL_SCHEMA\<lparr>jn_event := [\<lparr>ev_seq = 1, ev_id = plain_id ID_event, ev_hash = created_hash,
     ev_entry = dumps_bytes created_entry\<rparr>]\<rparr>"

lemma created_entry_ok: "json_ok MAX_DEPTH created_entry"
  using json_ok_mono [OF created_body_ok]
  by (simp add: created_entry_def distinct_keys_def lit_scalar created_hash MAX_DEPTH_def MAX_JSON_INT_def encode_b64url_scalar)

lemma created_settled: "settled sm_now_us plain_lib [created_entry] (demo_run created_journal)"
proof -
  obtain m where m: "event_sign_message created_hash = Inr m" using created_hash(4) by blast
  have "created_entry = entry_obj created_body created_hash (encode_b64url (replicate 64 0))"
    by (simp add: created_entry_def entry_obj_def)
  moreover have "sign_b64 plain_lib (replicate 32 0) m = Inr (encode_b64url (replicate 64 0))"
    by (simp add: sign_b64_def ed_sign_def SEED_LEN_def plain_lib_def)
  ultimately have "sealed plain_lib (replicate 32 0) \<lparr>ev_seq = 1, ev_id = plain_id ID_event, ev_hash = created_hash,
      ev_entry = dumps_bytes created_entry\<rparr> created_entry"
    unfolding sealed_def using m created_hash(1) dumps_bytes_ok [OF created_entry_ok] by auto
  moreover have "owned (plain_id ID_run) (plain_id ID_key) 0 created_entry" "linked [created_entry]"
    by (simp_all add: owned_def linked_def created_entry_def created_body_def shape_defs small_u)
  ultimately show ?thesis
    by (simp add: settled_def chain_inv_def created_journal_def JOURNAL_SCHEMA_def log_ok_def)
qed

lemma canon_created: "canon created_entry = JObj [(lit ''body'', JObj [(lit ''data'', JObj [(lit ''config_hash'', JStr ZERO_HASH)]),
     (lit ''event_id'', JStr (plain_id ID_event)), (lit ''key_id'', JStr (plain_id ID_key)), (lit ''kind'', JStr (lit ''RunCreated'')),
     (lit ''prev_hash'', JStr ZERO_HASH), (lit ''run_id'', JStr (plain_id ID_run)), (lit ''seq'', JStr (lit ''1'')),
     (lit ''t_us'', JStr (lit ''0'')), (lit ''v'', JInt 1)]),
     (lit ''hash'', JStr created_hash), (lit ''sig'', JStr (encode_b64url (replicate 64 0)))]"
  by (simp add: created_entry_def created_body_def sorted_items_def utf16_key_def utf16_units_def lit_def)

lemma canon_created_checks: "check_entry (canon created_entry) = Inr ()"
proof -
  let ?b = "fld (canon created_entry) ''body''"
  have "closed event_fields ?b = Inr ()"
    by (simp add: event_fields_def canon_created shape_defs check_version_def id_of_def plain_id_checks small_u zero_hash_checks
        is_obj_or_str_def is_obj_def)
  moreover have "kind_of (fld ?b ''kind'') = Some K_RunCreated" by (simp add: kind_of_iff canon_created shape_defs)
  moreover have "check_event_data K_RunCreated (fld ?b ''data'') = Inr ()" by (simp add: canon_created shape_defs zero_hash_checks)
  ultimately have "check_event_body ?b = Inr ()"
    by (simp add: check_event_body_def canon_created shape_defs is_obj_def dict_of_def)
  moreover obtain s where "check_signature (JStr (encode_b64url (replicate 64 0))) = Inr s"
    using plain_signature(2) by (auto simp: is_ok_iff)
  ultimately show ?thesis
    by (simp add: check_entry_def closed_def canon_created shape_defs chk_def created_hash)
qed

lemma created_pins: "check_pins [run_pin (rn_core (demo_run j)) (encode_b64url (replicate 32 0))] = Inr ()"
  using plain_signature(4) by (auto simp: check_pins_def run_pin_def subscript_def dict_item_def plain_id_checks is_ok_iff)

theorem receipt_verifies_witness:
  "verify_bundle plain_lib (bundle_obj [canon created_entry] JNull)
     [run_pin (rn_core (demo_run created_journal)) (encode_b64url (replicate 32 0))] False =
   Inr (verify_result (map canon (take 1000000 [created_entry])) (state_json CREATED))"
proof -
  let ?r = "demo_run created_journal" and ?b = "bundle_obj [canon created_entry] JNull"
  have pub: "public_key_b64_from_seed plain_lib (rn_seed ?r) = Inr (encode_b64url (replicate 32 0))"
    by (simp add: public_key_b64_from_seed_def public_key_from_seed_def SEED_LEN_def plain_lib_def)
  have "events_from 0 1000000 created_journal = [dumps_bytes created_entry]"
    by (simp add: events_from_def by_seq_def created_journal_def JOURNAL_SCHEMA_def)
  moreover have "loads (dumps_bytes created_entry) = Inr (canon created_entry)" by (rule loads_dumps [OF created_entry_ok])
  ultimately have out: "\<exists>r'. run_bundle JNull ?r = (Inr ?b, r')"
    by (simp add: run_bundle_def andthen_def on_db_def events_after_def query_def lift_r_def ret_def)
  have es: "arr_of (fld ?b ''entries'') = [canon created_entry]" by (simp add: bundle_obj_def shape_defs)
  have "check_bundle ?b = Inr ()"
    by (simp add: check_bundle_def bundle_obj_def shape_defs check_version_def canon_created_checks)
  moreover have "replay_entries [canon created_entry] = Inr (state_json CREATED)"
    by (simp add: replay_entries_def replay_events_def replay_step_def canon_created shape_defs small_u kind_of_iff replay_data_def replay_post_def)
  ultimately show ?thesis
    using receipt_verifies [OF created_settled _ _ plain_lib_correct pub created_pins] out created_entry_ok by (auto simp: es)
qed

end
