(* ===== verification/EngineWorld.thy ===== *)
theory EngineWorld imports EngineSafe begin

text \<open>
  What a transaction does to the host: it reads the clock and draws identifiers, nothing else. The locale
  \<open>world_kept\<close> states that a property of the host survives these two calls, and shows that then it survives every
  transaction; the control group of the run stays what it was.
\<close>

locale world_kept =
  fixes E :: "'w env" and P :: "'w \<Rightarrow> bool"
  assumes clock_keeps: "P w \<Longrightarrow> P (snd (env_boottime_us E w))"
    and ids_keep: "P w \<Longrightarrow> P (snd (env_new_id E kind ex w))"
begin

definition hosted :: "pystr option \<Rightarrow> 'w run \<Rightarrow> bool" where
  "hosted g r \<longleftrightarrow> P (rn_world r) \<and> rn_cgroup r = g"

lemma hosted_prims: "keeps (hosted g) (on_db m)" "keeps (hosted g) (on_world (env_new_id E kind ex))" "keeps (hosted g) (now_us E)"
  "(\<And>r. rn_world (f r) = rn_world r \<and> rn_cgroup (f r) = rn_cgroup r) \<Longrightarrow> keeps (hosted g) (modify f)" "keeps (hosted g) (on_core c)"
proof -
  show "keeps (hosted g) (on_world (env_new_id E kind ex))"
    by (rule keepsI) (use ids_keep in \<open>auto simp: hosted_def on_world_def split: prod.split dest: arg_cong [where f = snd]\<close>, metis snd_conv)
  show "keeps (hosted g) (now_us E)"
    by (rule keepsI) (use clock_keeps in \<open>auto simp: hosted_def now_us_def split: prod.split\<close>, metis snd_conv)
qed (auto simp: keeps_def hosted_def on_db_def on_core_def modify_def split: prod.split)

lemmas hosted_intros = flow_intros hosted_prims

lemma hosted_parts:
  "keeps (hosted g) (sync_token kt)" "keeps (hosted g) (sync_action ka)" "keeps (hosted g) (sync_compute kc)"
  "keeps (hosted g) persist_token" "keeps (hosted g) persist_dispatch" "keeps (hosted g) persist_reservation"
  "keeps (hosted g) (u_text_of n)" "keeps (hosted g) (t_us E)" "keeps (hosted g) (elapsed_us E)"
  unfolding sync_token_def sync_action_def sync_compute_def persist_token_def persist_dispatch_def persist_reservation_def
    u_text_of_def t_us_def elapsed_us_def by (intro hosted_intros; simp)+

lemma hosted_steps:
  "keeps (hosted g) (append_event E lib ev head)" "keeps (hosted g) (stamp_stop E evs)" "keeps (hosted g) persist_side_effects"
  "keeps (hosted g) store_meta" "keeps (hosted g) (status_object E)" "keeps (hosted g) (store_reply key result error)"
  unfolding append_event_def stamp_stop_def persist_side_effects_def store_meta_def store_reply_def
    status_object_def head_json_def coverage_def Let_def by (intro hosted_intros hosted_parts; simp)+

lemma hosted_commit: "keeps (hosted g) (commit E lib evs key result error)"
  unfolding commit_def commit_body_def write_projection_def by (intro hosted_intros hosted_steps)

text \<open>What \<open>_issue_kill\<close> does after its two signals.\<close>

lemma hosted_record_kill:
  "keeps (hosted g) (andthen (t_us E) (\<lambda>t. andthen (on_core (total (kill_issued a b t))) (\<lambda>out.
     catch_audit (commit_events E lib (oc_events out)))))"
  unfolding catch_audit_def by (intro hosted_intros hosted_parts hosted_commit)

end

end
