(* ===== verification/EngineRequests.thy ===== *)
theory EngineRequests imports EngineProps EngineWorld begin

text \<open>
  Properties of requests: a repeated request gets its first reply and has no further effect; a page of
  events is the longest prefix that fits a frame; and the kill of a run leaves its group empty whatever the journal
  does.
\<close>

section \<open>Replies\<close>

lemma handled_ok:
  assumes h: "run_handle E lib who req ch r = (Inr reply, r1)" and ok: "fld reply ''ok'' = JBool True"
    and fresh: "tbl_get (jn_request (db_view (rn_db r))) (who, str_of (fld req ''id'')) = None"
  obtains dg r2 r3 r4 and out :: outcome where "check_request req = Inr ()" "surface_ok (fld req ''method'') ch"
    "request_digest (str_of (fld req ''method'')) (fld req ''params'') = Inr dg"
    "commit E lib (oc_events out) (Some (who, str_of (fld req ''id''), dg)) (oc_result out) None r2 = (Inr (), r3)"
    "when_act (K_StopLatched \<in> fst ` set (oc_events out)) (issue_kill E lib) r3 = (Inr (), r4)"
    "execute_pending E lib r4 = (Inr (), r1)" "reply = envelope (str_of (fld req ''id'')) (oc_result out) None"
proof -
  let ?rid = "str_of (fld req ''id'')"
  have bad: "fld (error_response c ?rid) ''ok'' = JBool False" for c by (simp add: error_response_def fld_JObj)
  have chk: "check_request req = Inr ()"
    using h by (cases "check_request req") (auto simp: run_handle_def andthen_def lift_r_def)
  then have "handle_checked E lib who req ch r = (Inr reply, r1)"
    using h ok bad by (auto simp: run_handle_def andthen_def lift_r_def catch_lexwatt_def handle_exn_def raise_def ret_def
        split: sum.splits prod.splits option.splits)
  then obtain dg r0 row where sf: "surface_ok (fld req ''method'') ch"
    and dg: "request_digest (str_of (fld req ''method'')) (fld req ''params'') = Inr dg"
    and get: "on_db (request_get who ?rid) r = (Inr row, r0)"
    and rest: "(case row of Some (sd, resp) \<Rightarrow> if sd \<noteq> dg then raise (Lex CONFLICT) else lift_r (loads resp)
       | None \<Rightarrow> andthen (rpc_dispatch E lib (fld req ''method'') (fld req ''params'') (chan ch) ?rid) (answer E lib who ?rid dg)) r0 = (Inr reply, r1)"
    unfolding handle_checked_def Let_def by (cases "surface_ok (fld req ''method'') ch") (auto simp: andthen_eq_Inr lift_r_eq raise_def)
  have "row = None" using get fresh by (auto simp: on_db_eq request_get_def dest!: query_Inr)
  then obtain out r2 where ans: "answer E lib who ?rid dg out r2 = (Inr reply, r1)"
    using rest by (auto simp: andthen_eq_Inr)
  have no: "oc_error out = None"
  proof (rule ccontr)
    assume "oc_error out \<noteq> None"
    then obtain c where "oc_error out = Some c" by blast
    with ans ok bad show False by (auto simp: answer_def envelope_def andthen_eq_Inr ret_def split: if_splits)
  qed
  then obtain r3 r4 where "commit E lib (oc_events out) (Some (who, ?rid, dg)) (oc_result out) None r2 = (Inr (), r3)"
    "when_act (K_StopLatched \<in> fst ` set (oc_events out)) (issue_kill E lib) r3 = (Inr (), r4)"
    "execute_pending E lib r4 = (Inr (), r1)" "reply = envelope ?rid (oc_result out) None"
    using ans by (auto simp: answer_def andthen_eq_Inr ret_def)
  then show thesis by (rule that [OF chk sf dg])
qed

context quiet_env
begin

lemma kept_by: "keeps (kept_reply k v) (issue_kill E lib)" "keeps (kept_reply k v) (execute_pending E lib)"
  "keeps (kept_reply k v) (when_act b (issue_kill E lib))"
proof -
  show k: "keeps (kept_reply k v) (issue_kill E lib)" by (rule replies.inv_stop(1))
  show "keeps (kept_reply k v) (execute_pending E lib)"
    unfolding execute_pending_def by (intro replies.inv_intros replies.inv_attempt; simp)
  show "keeps (kept_reply k v) (when_act b (issue_kill E lib))" using k by (rule keeps_when)
qed

lemma first_reply_kept:
  assumes "run_handle E lib who req ch r = (Inr reply, r1)" "fld reply ''ok'' = JBool True"
    and "tbl_get (jn_request (db_view (rn_db r))) (who, str_of (fld req ''id'')) = None"
  shows "\<exists>dg b. check_request req = Inr () \<and> surface_ok (fld req ''method'') ch \<and> dumps reply = Inr b \<and>
     request_digest (str_of (fld req ''method'')) (fld req ''params'') = Inr dg \<and>
     kept_reply (who, str_of (fld req ''id'')) (dg, b) (session E lib ops r1)"
proof (rule handled_ok [OF assms])
  fix dg r2 r3 r4 and out :: outcome
  assume a: "check_request req = Inr ()" "surface_ok (fld req ''method'') ch"
    "request_digest (str_of (fld req ''method'')) (fld req ''params'') = Inr dg"
    "commit E lib (oc_events out) (Some (who, str_of (fld req ''id''), dg)) (oc_result out) None r2 = (Inr (), r3)"
    "when_act (K_StopLatched \<in> fst ` set (oc_events out)) (issue_kill E lib) r3 = (Inr (), r4)"
    "execute_pending E lib r4 = (Inr (), r1)" "reply = envelope (str_of (fld req ''id'')) (oc_result out) None"
  obtain b where b: "dumps reply = Inr b" "kept_reply (who, str_of (fld req ''id'')) (dg, b) r3"
    using commit_stores_reply [OF a(4)] a(7) by auto
  have "kept_reply (who, str_of (fld req ''id'')) (dg, b) r1"
    by (rule keepsD [OF kept_by(2) keepsD [OF kept_by(3) b(2) a(5)] a(6)])
  then show ?thesis using a(1-3) b(1) session_keeps_reply by blast
qed

end

lemma stored_reply_returned:
  assumes "check_request req = Inr ()" "surface_ok (fld req ''method'') ch"
    and "request_digest (str_of (fld req ''method'')) (fld req ''params'') = Inr dg"
    and "kept_reply (who, str_of (fld req ''id'')) (dg, b) r" "db_txn (rn_db r) = None" "\<not> failing (rn_db r)" "loads b = Inr v"
  shows "run_handle E lib who req ch r = (Inr v, r\<lparr>rn_db := counted (rn_db r)\<rparr>)"
  using assms by (simp add: run_handle_def handle_checked_def Let_def andthen_def lift_r_def on_db_def request_get_def query_def
      kept_reply_def replied_def db_view_def catch_lexwatt_def handle_exn_def)

text \<open>A request on the demonstration run, with its reply.\<close>

definition stop_req :: json where
  "stop_req = JObj [(lit ''v'', JInt 1), (lit ''id'', JStr (plain_id ID_request)), (lit ''method'', JStr (method_name M_run_stop)),
  (lit ''params'', JObj [(lit ''run_id'', JStr (plain_id ID_run))])]"
lemma u0: "u_str 0 = Inr (lit ''0'')"
  by (simp add: u_str_def U_MAX_def lit_def py_str_int_def dec_str_less_10)

lemma demo_canon: "canonicalize_config demo_config = demo_config"
  by (simp add: canonicalize_config_def demo_config_def shape_defs set_item_def by_text_def)

definition demo_status :: json where
 "demo_status = JObj [(lit ''run_id'', JStr (plain_id ID_run)), (lit ''state'', JStr (lit ''CREATED'')), (lit ''budgets'', JNull), (lit ''charged_flops'', JStr (lit ''0'')),
   (lit ''energy_uj'', JNull), (lit ''spawn_tokens_issued'', JInt 0), (lit ''elapsed_us'', JStr (lit ''0'')), (lit ''root_exit'', JNull), (lit ''stop_reason'', JNull),
   (lit ''coverage'', JObj [(lit ''flops'', JStr (lit ''cooperative_estimate'')), (lit ''energy'', JStr (lit ''unavailable'')),
                  (lit ''domains'', JArr []), (lit ''energy_complete'', JBool False), (lit ''reserve_uj'', JStr (lit ''0'')),
                  (lit ''host_power_assumption'', JBool False), (lit ''assumptions'', JNull)]),
   (lit ''head'', JObj [(lit ''seq'', JStr (lit ''0'')), (lit ''hash'', JStr ZERO_HASH)])]"

lemma demo_fields: "rn_core (demo_run j) = RunCore (plain_id ID_run) (plain_id ID_key) demo_config" "rn_energy_valid (demo_run j) = False" "rn_started_us (demo_run j) = None"
 "rn_pending_token (demo_run j) = None" "rn_pending_dispatch (demo_run j) = None" "rn_pending_reservation (demo_run j) = None" "rn_pending_meta (demo_run j) = []"
 "rn_exec_after_commit (demo_run j) = None"
  by (simp_all add: demo_run_def Run_def demo_canon)

lemma status_demo: "failing d = False \<Longrightarrow> jn_event (db_view d) = [] \<Longrightarrow> status_object sim_env ((demo_run j)\<lparr>rn_db := d\<rparr>) = (Inr demo_status, (demo_run j)\<lparr>rn_db := counted d\<rparr>)"
  by (simp add: status_object_def event_head_def on_db_def query_def head_of_def head_json_def u_text_of_def andthen_def  lift_r_def ret_def reads_def coverage_def
   elapsed_us_def profile_is_def config_of_def demo_fields u0 RunCore_def demo_config_def shape_defs demo_status_def stop_reason_json_def ZERO_HASH_def)

lemma demo_meta: "(demo_run j)\<lparr>rn_db := d, rn_pending_meta := []\<rparr> = (demo_run j)\<lparr>rn_db := d\<rparr>"
  by (simp add: demo_run_def Run_def)

lemma demo_status_ok: "json_ok 3 demo_status"
  by (simp add: demo_status_def distinct_keys_def lit_scalar plain_id_scalar zero_hash_checks MAX_JSON_INT_def)

lemma demo_commit:
  assumes "json_ok MAX_DEPTH (envelope rid v None)"
  shows "\<exists>d. commit sim_env plain_lib [] (Some (who, rid, dg)) v None ((demo_run JOURNAL_SCHEMA)\<lparr>rn_db := counted (idle_conn JOURNAL_SCHEMA)\<rparr>) = (Inr (), (demo_run JOURNAL_SCHEMA)\<lparr>rn_db := d\<rparr>) \<and> db_txn d = None \<and> \<not> failing d"
  using dumps_bytes_ok [OF assms] dumps_bytes_ok [OF demo_status_ok]
  by (simp add: commit_def handle_exn_def commit_body_def andthen_def on_db_def begin_txn_def sql_begin_def idle_conn_def counted_def failing_def
    event_head_def query_def db_view_def JOURNAL_SCHEMA_def ret_def stamp_stop_def when_act_def persist_side_effects_def persist_token_def persist_dispatch_def
    persist_reservation_def reads_def demo_fields RunCore_def each_act_def store_meta_def modify_def write_projection_def status_demo demo_meta lift_r_def
    run_update_def execute_def tbl_update_def db_write_def store_reply_def request_put_def request_insert_def tbl_insert_def commit_txn_def sql_commit_def)
    (intro exI conjI, rule refl, simp_all)

lemma stop_req_checks: "check_request stop_req = Inr ()" "surface_ok (fld stop_req ''method'') None"
  by (simp_all add: stop_req_def check_request_def shape_defs check_version_def id_of_def plain_id_checks enum_def surface_ok_def CONTROL_METHODS_def is_method_def is_obj_def all_methods_def METHODS_def)

lemma stop_req_handled:
  "\<exists>d. run_handle sim_env plain_lib (lit ''owner'') stop_req None (demo_run JOURNAL_SCHEMA) =
     (Inr (envelope (plain_id ID_request) (stop_result (rn_core (demo_run JOURNAL_SCHEMA))) None), (demo_run JOURNAL_SCHEMA)\<lparr>rn_db := d\<rparr>) \<and>
     db_txn d = None \<and> \<not> failing d"
proof -
  let ?c = "rn_core (demo_run JOURNAL_SCHEMA)"
  have ok: "json_ok MAX_DEPTH (envelope (plain_id ID_request) (stop_result ?c) None)"
    by (simp add: envelope_def stop_result_def demo_fields RunCore_def distinct_keys_def lit_scalar plain_id_scalar MAX_JSON_INT_def MAX_DEPTH_def)
  have m: "json_ok MAX_DEPTH (JObj [(lit ''method'', JStr (lit ''run.stop'')), (lit ''params'', JObj [(lit ''run_id'', JStr (plain_id ID_run))])])"
    by (simp add: distinct_keys_def lit_scalar plain_id_scalar MAX_DEPTH_def)
  obtain dg where dg: "request_digest (lit ''run.stop'') (JObj [(lit ''run_id'', JStr (plain_id ID_run))]) = Inr dg"
    unfolding request_digest_def using digest_preimage [OF _ m, of D_REQUEST] by simp
  obtain d where d: "commit sim_env plain_lib [] (Some (lit ''owner'', plain_id ID_request, dg)) (stop_result ?c) None
      ((demo_run JOURNAL_SCHEMA)\<lparr>rn_db := counted (idle_conn JOURNAL_SCHEMA)\<rparr>) = (Inr (), (demo_run JOURNAL_SCHEMA)\<lparr>rn_db := d\<rparr>)"
      "db_txn d = None" "\<not> failing d"
    using demo_commit [OF ok] by blast
  have disp: "rpc_dispatch sim_env plain_lib (JStr (lit ''run.stop'')) (JObj [(lit ''run_id'', JStr (plain_id ID_run))]) [] (plain_id ID_request)
      ((demo_run JOURNAL_SCHEMA)\<lparr>rn_db := counted (idle_conn JOURNAL_SCHEMA)\<rparr>) =
      (Inr (no_outcome\<lparr>oc_result := stop_result ?c\<rparr>), (demo_run JOURNAL_SCHEMA)\<lparr>rn_db := counted (idle_conn JOURNAL_SCHEMA)\<rparr>)"
    by (simp add: rpc_dispatch_def settled_state_def demo_fields RunCore_def TERMINAL_STATES_def catch_lexwatt_def handle_exn_def dispatch_live_def
        is_method_def own_run_def only_keys_def shape_defs lift_r_def on_core_def total_def stop_def done_step_def andthen_def reads_def)
  have "jn_request JOURNAL_SCHEMA = []" by (simp add: JOURNAL_SCHEMA_def)
  then show ?thesis
    using d disp dg stop_req_checks
    by (simp add: run_handle_def handle_checked_def stop_req_def shape_defs str_of_def lift_r_def catch_lexwatt_def handle_exn_def andthen_def
        on_db_def request_get_def query_def answer_def ret_def when_act_def execute_pending_def reads_def demo_fields chan_def tbl_get_def Let_def) blast
qed

text \<open>C7: repeating a request is harmless. Once a request with an unused id has been answered with success, then after any
  session of further calls the same request gets the same reply (with its keys in canonical order), and
  handling it changes nothing: not the core, not the journal, not the world; no action is executed twice.\<close>

theorem reply_idempotent:
  assumes "quiet_env E now"
    and "tbl_get (jn_request (db_view (rn_db r))) (who, str_of (fld req ''id'')) = None"
    and "run_handle E lib who req ch r = (Inr reply, r1)" "fld reply ''ok'' = JBool True" "json_ok MAX_DEPTH reply"
    and "r2 = session E lib ops r1" "db_txn (rn_db r2) = None" "\<not> failing (rn_db r2)"
  shows "run_handle E lib who req ch r2 = (Inr (canon reply), r2\<lparr>rn_db := counted (rn_db r2)\<rparr>)"
proof -
  obtain dg b where "check_request req = Inr ()" "surface_ok (fld req ''method'') ch" "dumps reply = Inr b"
     "request_digest (str_of (fld req ''method'')) (fld req ''params'') = Inr dg"
     "kept_reply (who, str_of (fld req ''id'')) (dg, b) r2"
    using quiet_env.first_reply_kept [OF assms(1,3,4,2), of ops] assms(6) by blast
  moreover from this have "loads b = Inr (canon reply)" using loads_after_dumps [OF assms(5)] by auto
  ultimately show ?thesis using assms(7,8) by (intro stored_reply_returned)
qed

theorem reply_idempotent_witness:
  "\<exists>r. run_handle sim_env plain_lib (lit ''owner'') stop_req None r =
     (Inr (canon (envelope (plain_id ID_request) (stop_result (rn_core (demo_run JOURNAL_SCHEMA))) None)), r\<lparr>rn_db := counted (rn_db r)\<rparr>)"
proof -
  let ?v = "envelope (plain_id ID_request) (stop_result (rn_core (demo_run JOURNAL_SCHEMA))) None"
  obtain d where d: "run_handle sim_env plain_lib (lit ''owner'') stop_req None (demo_run JOURNAL_SCHEMA) = (Inr ?v, (demo_run JOURNAL_SCHEMA)\<lparr>rn_db := d\<rparr>)"
    "db_txn d = None" "\<not> failing d" using stop_req_handled by blast
  have v: "json_ok MAX_DEPTH ?v" "fld ?v ''ok'' = JBool True"
    by (simp_all add: envelope_def stop_result_def demo_fields RunCore_def distinct_keys_def lit_scalar plain_id_scalar MAX_JSON_INT_def MAX_DEPTH_def fld_JObj)
  have g: "tbl_get (jn_request (db_view (rn_db (demo_run JOURNAL_SCHEMA)))) (lit ''owner'', str_of (fld stop_req ''id'')) = None"
    by (simp add: tbl_get_def JOURNAL_SCHEMA_def)
  have s: "(demo_run JOURNAL_SCHEMA)\<lparr>rn_db := d\<rparr> = session sim_env plain_lib [] ((demo_run JOURNAL_SCHEMA)\<lparr>rn_db := d\<rparr>)"
    by (simp add: session_def)
  show ?thesis
    by (rule exI, rule reply_idempotent [OF sim_quiet.quiet_env_axioms g d(1) v(2,1) s]) (simp_all add: d(2,3))
qed

section \<open>Pages of events\<close>

definition page_fits :: "json list \<Rightarrow> bool" where
  "page_fits es \<longleftrightarrow> (case dumps (JArr es) of Inl _ \<Rightarrow> False | Inr b \<Rightarrow> length b + 256 \<le> 1048576)"

lemma trim_take:
  assumes "\<And>k. is_ok (dumps (JArr (take k es)))" "n \<le> length es"
  shows "\<exists>k \<le> n. trim_entries (take n es) = Inr (take k es) \<and> (k = 0 \<or> page_fits (take k es)) \<and>
    (\<forall>i. k < i \<and> i \<le> n \<longrightarrow> \<not> page_fits (take i es))"
  using assms(2)
proof (induction n)
  case (Suc n)
  obtain b where b: "dumps (JArr (take (Suc n) es)) = Inr b" using assms(1) [of "Suc n"] by (auto simp: is_ok_iff)
  have ne: "take (Suc n) es \<noteq> []" using Suc.prems by (cases es) auto
  have bl: "butlast (take (Suc n) es) = take n es" using Suc.prems by (simp add: butlast_take)
  show ?case
  proof (cases "page_fits (take (Suc n) es)")
    case True
    then have "trim_entries (take (Suc n) es) = Inr (take (Suc n) es)"
      using ne b by (subst trim_entries.simps) (auto simp: page_fits_def)
    then show ?thesis using True by (intro exI [of _ "Suc n"]) auto
  next
    case False
    then have "trim_entries (take (Suc n) es) = trim_entries (take n es)"
      using ne b bl by (subst trim_entries.simps) (auto simp: page_fits_def)
    then show ?thesis using Suc.IH Suc.prems False by (metis Suc_leD le_Suc_eq)
  qed
qed (simp add: trim_entries.simps)

text \<open>The loop that bounds a page of events ends, and the page is the longest prefix of the entries whose canonical
  bytes leave 256 bytes of a frame; it is empty only if not even one entry fits.\<close>

theorem events_page_longest:
  assumes "\<forall>e \<in> set es. json_ok (MAX_DEPTH - 1) e"
  shows "\<exists>k \<le> length es. trim_entries es = Inr (take k es) \<and> (k = 0 \<or> page_fits (take k es)) \<and>
    (\<forall>i. k < i \<and> i \<le> length es \<longrightarrow> \<not> page_fits (take i es))"
proof -
  have "json_ok MAX_DEPTH (JArr (take k es))" for k
    using assms by (auto simp: MAX_DEPTH_def dest: in_set_takeD)
  then have "is_ok (dumps (JArr (take k es)))" for k using dumps_bytes_ok by (fastforce simp: is_ok_iff)
  from trim_take [OF this, of "length es"] show ?thesis by simp
qed

theorem events_page_longest_witness:
  "\<exists>k \<le> 2. trim_entries [JNull, JInt 1] = Inr (take k [JNull, JInt 1]) \<and> (k = 0 \<or> page_fits (take k [JNull, JInt 1]))"
  using events_page_longest [of "[JNull, JInt 1]"] by (auto simp: MAX_DEPTH_def MAX_JSON_INT_def)

section \<open>The kill\<close>

text \<open>No process of the group is alive.\<close>

definition quenched :: "pystr \<Rightarrow> sim_host \<Rightarrow> bool" where
  "quenched cg h \<longleftrightarrow> (\<forall>p \<in> set (sim_procs_of cg h). \<not> sim_alive h p)"

lemma sim_group_kill_quenches: "quenched cg (snd (sim_group_kill cg h))"
proof -
  have "\<not> sp_alive (sigkill q)" for q by (simp add: sigkill_def)
  then show ?thesis by (simp add: quenched_def sim_group_kill_def fold_map_proc_dead)
qed

interpretation quench: world_kept sim_env "quenched cg" for cg
proof unfold_locales
  show "quenched cg h \<Longrightarrow> quenched cg (snd (env_boottime_us sim_env h))" for h by (simp add: sim_env_def)
  show "quenched cg h \<Longrightarrow> quenched cg (snd (env_new_id sim_env kind ex h))" for kind ex h
    by (auto simp: sim_env_def quenched_def sim_new_id_def sim_procs_of_def sim_alive_def split: sum.split prod.split)
qed

text \<open>C8: the kill does not wait for the audit. On the reference host, issuing the kill of a run leaves no live process in its
  group, whatever statement of the journal fails meanwhile, and the call does not raise \<open>AuditFault\<close>.\<close>

theorem kill_empties_group:
  assumes "rn_cgroup r = Some cg" "issue_kill sim_env lib r = (res, r')"
  shows "fst (sim_populated cg (rn_world r')) = Inr 0 \<and> res \<noteq> Inl AuditFault"
proof -
  let ?kill = "catch_any (andthen the_cgroup (\<lambda>g. on_world (env_cgroup_kill sim_env g))) (ret False)"
  let ?group = "catch_any (andthen the_cgroup (\<lambda>g. on_world (env_group_kill sim_env g))) (ret False)"
  let ?tail = "\<lambda>a b. andthen (t_us sim_env) (\<lambda>t. andthen (on_core (total (kill_issued a b t))) (\<lambda>out.
     catch_audit (commit_events sim_env lib (oc_events out))))"
  obtain w where k: "?kill r = (Inr True, r\<lparr>rn_world := w\<rparr>)"
    using assms(1) by (auto simp: catch_any_def handle_exn_def andthen_def the_cgroup_def reads_def ret_def on_world_def sim_env_def sim_cgroup_kill_def Let_def)
  have g: "?group (r\<lparr>rn_world := w\<rparr>) = (Inr True, r\<lparr>rn_world := snd (sim_group_kill cg w)\<rparr>)"
    using assms(1) by (auto simp: catch_any_def handle_exn_def andthen_def the_cgroup_def reads_def ret_def on_world_def sim_env_def sim_group_kill_def)
  have e: "?tail True True (r\<lparr>rn_world := snd (sim_group_kill cg w)\<rparr>) = (res, r')"
    using assms(2) k g by (simp add: issue_kill_def andthen_def)
  have "quench.hosted cg (Some cg) (r\<lparr>rn_world := snd (sim_group_kill cg w)\<rparr>)"
    using assms(1) by (simp add: quench.hosted_def sim_group_kill_quenches)
  from keepsD [OF quench.hosted_record_kill this e] have "quenched cg (rn_world r')" by (simp add: quench.hosted_def)
  moreover have "res \<noteq> Inl AuditFault"
    using e by (auto simp: andthen_def catch_audit_def handle_exn_def raise_def ret_def t_us_def now_us_def reads_def on_core_def
        total_def done_step_def sim_env_def split: sum.splits prod.splits if_splits)
  ultimately show ?thesis by (auto simp: sim_populated_def reads_def quenched_def list_ex_iff)
qed

definition busy_run :: "sim_host run" where
  "busy_run = (demo_run JOURNAL_SCHEMA)\<lparr>rn_cgroup := Some (lit ''g''), rn_world := (SimHost [] True True True)
     \<lparr>sm_procs := [\<lparr>sp_execv = JNull, sp_channel = [], sp_alive = True, sp_exit = JNull, sp_unkillable = True\<rparr>],
      sm_cgroups := [(lit ''g'', \<lparr>sc_procs = [0], sc_inode = 1, sc_usage_us = 0, sc_destroyed = False\<rparr>)]\<rparr>\<rparr>"

theorem kill_empties_group_witness:
  "fst (sim_populated (lit ''g'') (rn_world busy_run)) = Inr 1 \<and>
   fst (sim_populated (lit ''g'') (rn_world (snd (issue_kill sim_env plain_lib busy_run)))) = Inr 0"
proof -
  have "fst (sim_populated (lit ''g'') (rn_world busy_run)) = Inr 1"
    by (simp add: busy_run_def sim_populated_def sim_procs_of_def sim_alive_def reads_def)
  moreover have "rn_cgroup busy_run = Some (lit ''g'')" by (simp add: busy_run_def)
  ultimately show ?thesis using kill_empties_group [OF _ surjective_pairing] by blast
qed

end
