(* ===== verification/Launcher.thy ===== *)
theory Launcher imports EngineRpc begin

text \<open>
  Models \<open>Launcher\<close> of \<open>src/lexwatt/engine.py\<close>: the registry of runs over one host, \<open>run.start\<close> with its index of
  launches, the reopening of a run from its journal, the dispatch of control and workload requests, the tick of
  all runs and the four pure methods.

  The record \<open>launcher\<close> holds the object's attributes and what it owns on disk: \<open>la_runs\<close> is \<open>self.runs\<close> in insertion
  order, \<open>la_disk\<close> the run directories, each with its journal once the database exists. The journal of a run in
  memory is the connection of the run; \<open>restart\<close> writes it back. The host is shared: a run's method starts from
  the launcher's world and leaves its own (\<open>on_run\<close>). \<open>la_opens\<close> counts opened databases, and \<open>la_storage\<close> says what the
  storage does to each. Key generation and the hash of a file are arguments (\<open>seeds\<close>, \<open>hash_file\<close>).
\<close>

lemma andthen_reads [simp]: "andthen (reads f) g s = g (f s) s"
  by (simp add: andthen_def reads_def)

lemma andthen_ret [simp]: "andthen (ret a) g = g a" "andthen (raise e) g' = raise e"
  by (rule ext, simp add: andthen_def ret_def raise_def)+

section \<open>The launcher\<close>

text \<open>Opening a database succeeds, with the later failures of its statements, or raises, with or without a file left.\<close>

datatype db_open = Opened "nat \<Rightarrow> bool" | Refused bool

record 'w launcher =
  la_world :: 'w
  la_index :: "launches conn"
  la_runs :: "(pystr \<times> 'w run) list"
  la_seeds :: "(pystr \<times> bytes) list"
  la_disk :: "(pystr \<times> journal option) list"
  la_policy :: json
  la_model_map :: dict
  la_storage :: "nat \<Rightarrow> db_open"
  la_opens :: nat
  la_drawn :: nat

type_synonym ('w, 'a) lau = "('w launcher, 'a) act"

definition on_host :: "('w, 'a) act \<Rightarrow> ('w, 'a) lau" where
  "on_host m L = (case m (la_world L) of (x, w) \<Rightarrow> (x, L\<lparr>la_world := w\<rparr>))"

definition on_index :: "'a lact \<Rightarrow> ('w, 'a) lau" where
  "on_index m L = (case m (la_index L) of (x, d) \<Rightarrow> (x, L\<lparr>la_index := d\<rparr>))"

text \<open>A method of a run in memory. \<open>destroy_seed\<close>, which follows the confirmation of the kill, takes its key out of
  \<open>self.seeds\<close>.\<close>

definition on_run :: "pystr \<Rightarrow> ('w, 'a) eng \<Rightarrow> ('w, 'a) lau" where
  "on_run rid m L =
    (case map_of (la_runs L) rid of
       None \<Rightarrow> (Inl (Py Key_Error), L)
     | Some r \<Rightarrow>
         (case m (r\<lparr>rn_world := la_world L\<rparr>) of (x, r') \<Rightarrow>
            (x, L\<lparr>la_world := rn_world r', la_runs := AList.update rid r' (la_runs L),
                  la_seeds := (if rn_kill_confirmed r' then AList.delete (rc_key_id (rn_core r')) (la_seeds L) else la_seeds L)\<rparr>)))"

text \<open>\<open>Journal(path)\<close> over the tables \<open>j\<close> that the file holds.\<close>

definition open_journal :: "pystr \<Rightarrow> journal \<Rightarrow> ('w, journal conn) lau" where
  "open_journal rid j L =
    (let L' = L\<lparr>la_opens := Suc (la_opens L)\<rparr>
     in case la_storage L (la_opens L) of
          Opened fails \<Rightarrow> (Inr \<lparr>db_main = j, db_txn = None, db_fails = fails, db_count = 0\<rparr>, L'\<lparr>la_disk := AList.update rid (Some j) (la_disk L)\<rparr>)
        | Refused left \<Rightarrow> (Inl AuditFault, if left then L'\<lparr>la_disk := AList.update rid (Some j) (la_disk L)\<rparr> else L'))"

text \<open>\<open>os.makedirs(run_dir, mode=0o700)\<close>: an existing directory raises.\<close>

definition make_run_dir :: "pystr \<Rightarrow> ('w, unit) lau" where
  "make_run_dir rid L =
    (if map_of (la_disk L) rid \<noteq> None then (Inl (Py OS_Error), L) else (Inr (), L\<lparr>la_disk := (rid, None) # la_disk L\<rparr>))"

section \<open>Keys\<close>

definition new_key :: "'w env \<Rightarrow> ed_lib \<Rightarrow> (nat \<Rightarrow> bytes) \<Rightarrow> ('w, pystr \<times> bytes \<times> pystr) lau" where
  "new_key E lib seeds =
    andthen (reads (\<lambda>L. seeds (la_drawn L))) (\<lambda>seed.
    andthen (modify (\<lambda>L. L\<lparr>la_drawn := Suc (la_drawn L)\<rparr>)) (\<lambda>_.
    andthen (reads (\<lambda>L i. i \<in> fst ` set (la_seeds L))) (\<lambda>known.
    andthen (on_host (env_new_id E ID_key known)) (\<lambda>kid.
    andthen (lift_r (public_key_b64_from_seed lib seed)) (\<lambda>pub.
    andthen (on_host (env_create_file E (seed_path kid))) (\<lambda>_.
    andthen (on_host (env_write_file E (seed_path kid) seed)) (\<lambda>_.
    andthen (lift_r (dumps (JObj [(lit ''key_id'', JStr kid), (lit ''public_key'', JStr pub)]))) (\<lambda>b.
    andthen (on_host (env_write_file E (pub_path kid) b)) (\<lambda>_.
    andthen (modify (\<lambda>L. L\<lparr>la_seeds := AList.update kid seed (la_seeds L)\<rparr>)) (\<lambda>_.
      ret (kid, seed, pub)))))))))))"

definition public_key :: "'w env \<Rightarrow> pystr \<Rightarrow> ('w, json) lau" where
  "public_key E kid =
    andthen (on_host (env_read_file E (pub_path kid))) (\<lambda>b.
    andthen (lift_r (loads b)) (\<lambda>v. lift_r (subscript v ''public_key'')))"

section \<open>Reopening a run\<close>

definition state_named :: "json \<Rightarrow> run_state" where
  "state_named v = (case find (\<lambda>s. state_json s = v) STATES of None \<Rightarrow> CREATED | Some s \<Rightarrow> s)"

definition reason_named :: "json \<Rightarrow> reason option" where
  "reason_named v = find (\<lambda>s. JStr (reason_name s) = v) REASONS"

text \<open>The loop body of \<open>_rebuild\<close> over the validated entries of the journal.\<close>

definition rebuild_core :: "event_kind \<Rightarrow> json \<Rightarrow> int \<Rightarrow> run_core \<Rightarrow> run_core" where
  "rebuild_core k d t c =
    (case k of
       K_StopLatched \<Rightarrow> c\<lparr>rc_stop_reason := reason_named (fld d ''reason''), rc_stop_latched_us := Some t\<rparr>
     | K_TokenIssued \<Rightarrow> c\<lparr>rc_spawn_issued := rc_spawn_issued c + 1, rc_issue_seq := u_of (fld d ''issue_seq'')\<rparr>
     | K_ComputeReserved \<Rightarrow> c\<lparr>rc_charged_flops := rc_charged_flops c + u_of (fld (fld d ''reservation'') ''charged_flops'')\<rparr>
     | _ \<Rightarrow> c)"

definition rebuild_meter :: "event_kind \<Rightarrow> json \<Rightarrow> int \<Rightarrow> 'w run \<Rightarrow> 'w run" where
  "rebuild_meter k d t r =
    (case k of
       K_RunStarted \<Rightarrow> r\<lparr>rn_energy_valid := (fld (fld d ''coverage'') ''energy'' = JStr (lit ''package_measured'')),
         rn_energy_complete := (fld (fld d ''coverage'') ''energy_complete'' = JBool True), rn_energy_uj := 0, rn_started_us := Some t\<rparr>
     | K_SampleRecorded \<Rightarrow> r\<lparr>rn_energy_uj := u_of (fld (fld d ''sample'') ''total_uj'')\<rparr>
     | K_ContainmentEmpty \<Rightarrow> r\<lparr>rn_containment_empty := True\<rparr>
     | K_RunFinalized \<Rightarrow> r\<lparr>rn_kill_confirmed := True\<rparr>
     | _ \<Rightarrow> r)"

definition rebuild_step :: "json \<Rightarrow> 'w run \<Rightarrow> 'w run" where
  "rebuild_step b r =
    (case kind_of (fld b ''kind'') of
       None \<Rightarrow> r
     | Some k \<Rightarrow> (let d = fld b ''data''; t = u_of (fld b ''t_us'')
                 in (rebuild_meter k d t r)\<lparr>rn_core := rebuild_core k d t (rn_core r)\<rparr>))"

text \<open>The state is the replay of the bodies; a stored projection that disagrees is an integrity fault.\<close>

definition rebuild_from :: "json list \<Rightarrow> ('w, unit) eng" where
  "rebuild_from bodies =
    andthen (lift_r (replay_events bodies)) (\<lambda>st.
    andthen (modify (\<lambda>r. r\<lparr>rn_core := (rn_core r)\<lparr>rc_state := state_named st\<rparr>\<rparr>)) (\<lambda>_.
    andthen (reads (\<lambda>r. rc_run_id (rn_core r))) (\<lambda>rid.
    andthen (on_db (run_row rid)) (\<lambda>row.
    andthen (lift_r (requireE (row = None \<or> JStr (rr_state (the row)) = st \<or> state_named st \<in> set TERMINAL_STATES) (Lex CONTAINMENT_FAULT))) (\<lambda>_.
      modify (\<lambda>r. fold rebuild_step bodies (r\<lparr>rn_started_us := Some 0\<rparr>)))))))"

definition rebuild :: "('w, unit) eng" where
  "rebuild =
    andthen (on_db (events_after 0 1000000)) (\<lambda>raw.
    andthen (lift_r (mapE loads raw)) (\<lambda>es.
    andthen (lift_r (mapE (\<lambda>e. subscript e ''body'') es)) rebuild_from))"

definition no_exec :: json where
  "no_exec = JObj [(lit ''argv'', JArr []), (lit ''cwd'', JStr (lit ''/'')), (lit ''env'', JObj [])]"

text \<open>The object made from the metadata; its seed is 32 zero bytes. The statements run on the fresh connection.\<close>

definition stored_run :: "pystr \<Rightarrow> json \<Rightarrow> dict \<Rightarrow> 'w \<Rightarrow> 'w run jact" where
  "stored_run rid policy model_map w =
    andthen (meta_get (lit ''config'')) (\<lambda>c.
    andthen (lift_r (case c of None \<Rightarrow> Inl (Lex CONTAINMENT_FAULT) | Some b \<Rightarrow> loads b)) (\<lambda>cfg.
    andthen (meta_get (lit ''key_id'')) (\<lambda>k.
    andthen (lift_r (case k of None \<Rightarrow> Inl (Py Attribute_Error) | Some b \<Rightarrow> utf8_decode b)) (\<lambda>kid.
    andthen (meta_get (lit ''exec'')) (\<lambda>x.
    andthen (lift_r (case x of None \<Rightarrow> Inr no_exec | Some b \<Rightarrow> if b = [] then Inr no_exec else loads b)) (\<lambda>execv.
    andthen (reads id) (\<lambda>db.
      ret (Run rid kid (replicate 32 0) cfg execv db policy model_map w))))))))"

definition open_run :: "pystr \<Rightarrow> ('w, unit) lau" where
  "open_run rid =
    andthen (reads id) (\<lambda>L.
      if map_of (la_runs L) rid \<noteq> None then ret ()
      else
        andthen (lift_r (check_id (JStr rid) ID_run)) (\<lambda>_.
        (case map_of (la_disk L) rid of
           Some (Some j) \<Rightarrow>
             andthen (open_journal rid j) (\<lambda>d.
             (case stored_run rid (la_policy L) (la_model_map L) (la_world L) d of
                (Inl e, _) \<Rightarrow> raise e
              | (Inr r, d') \<Rightarrow>
                  (case rebuild (r\<lparr>rn_db := d'\<rparr>) of
                     (Inl e, _) \<Rightarrow> raise e
                   | (Inr _, r') \<Rightarrow> modify (\<lambda>L. L\<lparr>la_runs := AList.update rid r' (la_runs L)\<rparr>))))
         | _ \<Rightarrow> raise (Lex NOT_FOUND))))"

text \<open>A new process over the same state directory: the connections are gone, and so is what was not committed.\<close>

definition restart :: "'w launcher \<Rightarrow> 'w launcher" where
  "restart L = L\<lparr>la_index := (la_index L)\<lparr>db_txn := None\<rparr>, la_runs := [], la_seeds := [],
     la_disk := map (\<lambda>(rid, j). (rid, case map_of (la_runs L) rid of None \<Rightarrow> j | Some r \<Rightarrow> Some (db_main (rn_db r)))) (la_disk L)\<rparr>"

section \<open>\<open>run.start\<close>\<close>

definition launch_result :: "pystr \<Rightarrow> string \<Rightarrow> json \<Rightarrow> json" where
  "launch_result rid st err = JObj [(lit ''run_id'', JStr rid), (lit ''state'', JStr (lit st)), (lit ''error'', err)]"

text \<open>\<open>REJECTED\<close> with its code, or \<open>ARMING\<close>.\<close>

definition launch_report :: "pystr \<Rightarrow> ('w, json) lau" where
  "launch_report rid =
    on_run rid (reads (\<lambda>r. if rc_state (rn_core r) = REJECTED
      then launch_result rid ''REJECTED'' (case rn_rejected_code r of None \<Rightarrow> JNull | Some c \<Rightarrow> JStr (code_name c))
      else launch_result rid ''ARMING'' JNull))"

definition reconcile_launch :: "pystr \<Rightarrow> ('w, json) lau" where
  "reconcile_launch rid =
    andthen (reads id) (\<lambda>L.
      if map_of (la_runs L) rid \<noteq> None then launch_report rid
      else (case map_of (la_disk L) rid of
              Some (Some j) \<Rightarrow> andthen (open_run rid) (\<lambda>_. launch_report rid)
            | _ \<Rightarrow> ret (launch_result rid ''REJECTED'' (JStr (lit ''CONTAINMENT_FAULT'')))))"

text \<open>The checks that precede every allocation; the canonical configuration and its hash.\<close>

definition budget_covers_reserve :: "json \<Rightarrow> json \<Rightarrow> bool" where
  "budget_covers_reserve policy cfg \<longleftrightarrow>
    (let cap = fld (fld cfg ''budgets'') ''max_energy_uj''; m = fld cfg ''meter''
     in cap = JNull \<or> u_of cap > reserve_uj (map power_domain_of (arr_of (fld policy ''domains''))) (u_of (fld m ''stale_us'')) (u_of (fld m ''kill_deadline_us'')))"

definition launch_checks :: "'w env \<Rightarrow> (json \<Rightarrow> exn + pystr) \<Rightarrow> json \<Rightarrow> ('w, json \<times> json \<times> pystr \<times> pystr) lau" where
  "launch_checks E hash_file params =
    andthen (lift_r (only_keys [''config'', ''exec''] params)) (\<lambda>_.
    andthen (lift_r (bindE (subscript params ''config'') check_config)) (\<lambda>cfg0.
    andthen (lift_r (subscript params ''exec'')) (\<lambda>execv.
    andthen (lift_r (check_exec execv)) (\<lambda>_.
    (let cfg = canonicalize_config cfg0 in
    andthen (lift_r (effective_config_hash cfg)) (\<lambda>chash.
    andthen (reads id) (\<lambda>L.
    andthen (lift_r (requireE (budget_covers_reserve (la_policy L) cfg) (Lex BUDGET_TOO_SMALL))) (\<lambda>_.
    andthen (on_host (env_capabilities E (fld cfg ''profile''))) (\<lambda>caps.
    andthen (lift_r (requireE (JStr (lit ''UNSUPPORTED_PROFILE'') \<notin> set (arr_of (fld caps ''failures''))) (Lex UNSUPPORTED_PROFILE))) (\<lambda>_.
    andthen (if arr_of (fld cfg ''model_catalog'') = [] then ret ()
             else lift_r (verify_catalog_digests hash_file cfg (la_model_map L))) (\<lambda>_.
    andthen (lift_r (request_digest (lit ''run.start'') params)) (\<lambda>dg.
      ret (cfg, execv, chash, dg)))))))))))))"

text \<open>The index: an earlier launch, if any, else the reservation. A failing statement leaves the transaction open.\<close>

datatype index_answer = Reserved | Answered json | Unanswered pystr

definition index_launch :: "int \<Rightarrow> pystr \<Rightarrow> pystr \<Rightarrow> pystr \<Rightarrow> pystr \<Rightarrow> index_answer lact" where
  "index_launch owner_uid request_id dg chash rid =
    andthen sql_begin (\<lambda>_.
    andthen (launch_get owner_uid request_id) (\<lambda>row. case row of
      Some x \<Rightarrow>
        (if lr_digest x \<noteq> dg then andthen sql_rollback (\<lambda>_. raise (Lex CONFLICT))
         else (case lr_response x of
                 Some b \<Rightarrow> andthen (lift_r (loads b)) (\<lambda>resp. andthen sql_commit (\<lambda>_. lift_r (bindE (subscript resp ''result'') (\<lambda>v. Inr (Answered v)))))
               | None \<Rightarrow> andthen sql_commit (\<lambda>_. ret (Unanswered (lr_run_id x)))))
    | None \<Rightarrow> andthen (reserve owner_uid request_id dg chash rid) (\<lambda>_. andthen sql_commit (\<lambda>_. ret Reserved))))"

definition start_run :: "'w env \<Rightarrow> ed_lib \<Rightarrow> (nat \<Rightarrow> bytes) \<Rightarrow> pystr \<Rightarrow> json \<Rightarrow> json \<Rightarrow> pystr \<Rightarrow> ('w, unit) lau" where
  "start_run E lib seeds rid cfg execv chash =
    andthen (make_run_dir rid) (\<lambda>_.
    andthen (open_journal rid JOURNAL_SCHEMA) (\<lambda>db.
    andthen (new_key E lib seeds) (\<lambda>(kid, seed, _).
    andthen (modify (\<lambda>L. L\<lparr>la_runs := AList.update rid (Run rid kid seed cfg execv db (la_policy L) (la_model_map L) (la_world L)) (la_runs L)\<rparr>)) (\<lambda>_.
      on_run rid (andthen (created E lib chash) (\<lambda>_. andthen (run_arming E lib) (\<lambda>_. arm E lib)))))))"

definition store_launch :: "int \<Rightarrow> pystr \<Rightarrow> json \<Rightarrow> unit lact" where
  "store_launch owner_uid request_id res =
    andthen sql_begin (\<lambda>_.
      handle_exn
        (andthen (lift_r (dumps (envelope request_id res None))) (\<lambda>b.
         andthen (store_response owner_uid request_id b) (\<lambda>_. sql_commit)))
        (\<lambda>_. sql_rollback))"

text \<open>Lines 1178 to 1222, with the run id drawn.\<close>

definition launch_indexed :: "'w env \<Rightarrow> ed_lib \<Rightarrow> (nat \<Rightarrow> bytes) \<Rightarrow> pystr \<Rightarrow> int \<Rightarrow> json \<times> json \<times> pystr \<times> pystr \<Rightarrow> pystr \<Rightarrow> ('w, json) lau" where
  "launch_indexed E lib seeds request_id owner_uid checked rid =
    (case checked of (cfg, execv, chash, dg) \<Rightarrow>
      andthen (on_index (index_launch owner_uid request_id dg chash rid)) (\<lambda>ans. case ans of
        Answered v \<Rightarrow> ret v
      | Unanswered stored \<Rightarrow> reconcile_launch stored
      | Reserved \<Rightarrow>
          andthen (start_run E lib seeds rid cfg execv chash) (\<lambda>_.
          andthen (launch_report rid) (\<lambda>res.
          andthen (on_index (store_launch owner_uid request_id res)) (\<lambda>_. ret res)))))"

definition run_start :: "'w env \<Rightarrow> ed_lib \<Rightarrow> (nat \<Rightarrow> bytes) \<Rightarrow> (json \<Rightarrow> exn + pystr) \<Rightarrow> json \<Rightarrow> pystr \<Rightarrow> int \<Rightarrow> ('w, json) lau" where
  "run_start E lib seeds hash_file params request_id owner_uid =
    andthen (launch_checks E hash_file params) (\<lambda>checked.
    andthen (reads (\<lambda>L i. i \<in> fst ` set (la_runs L))) (\<lambda>known.
    andthen (on_host (env_new_id E ID_run known)) (launch_indexed E lib seeds request_id owner_uid checked)))"

section \<open>Requests\<close>

definition launch_reply :: "pystr \<Rightarrow> json \<Rightarrow> json" where
  "launch_reply req_id res = envelope req_id res None"

text \<open>\<open>self.runs.get(run_id)\<close>: a list or an object is not hashable.\<close>

definition control_run :: "json \<Rightarrow> ('w, pystr) lau" where
  "control_run run_id =
    (case run_id of
       JArr _ \<Rightarrow> raise (Py Type_Error)
     | JObj _ \<Rightarrow> raise (Py Type_Error)
     | JStr rid \<Rightarrow> andthen (catch_lexwatt (open_run rid) (\<lambda>_. raise (Lex NOT_FOUND))) (\<lambda>_. ret rid)
     | _ \<Rightarrow> raise (Lex NOT_FOUND))"

definition CONTROL_PRINCIPAL :: pystr where "CONTROL_PRINCIPAL = lit ''owner''"

definition control_checked :: "'w env \<Rightarrow> ed_lib \<Rightarrow> (nat \<Rightarrow> bytes) \<Rightarrow> (json \<Rightarrow> exn + pystr) \<Rightarrow> json \<Rightarrow> int \<Rightarrow> ('w, json) lau" where
  "control_checked E lib seeds hash_file req owner_uid =
    (let m = fld req ''method''; req_id = str_of (fld req ''id'') in
     if is_method m M_run_start then
       andthen (run_start E lib seeds hash_file (fld req ''params'') req_id owner_uid) (\<lambda>res. ret (launch_reply req_id res))
     else if \<not> list_ex (is_method m) CONTROL_METHODS then raise (Lex UNAUTHORIZED)
     else andthen (control_run (fld (fld req ''params'') ''run_id'')) (\<lambda>rid.
       on_run rid (run_handle E lib CONTROL_PRINCIPAL req None)))"

definition control :: "'w env \<Rightarrow> ed_lib \<Rightarrow> (nat \<Rightarrow> bytes) \<Rightarrow> (json \<Rightarrow> exn + pystr) \<Rightarrow> json \<Rightarrow> int \<Rightarrow> ('w, json) lau" where
  "control E lib seeds hash_file req owner_uid =
    andthen (lift_r (check_request req)) (\<lambda>_.
      catch_lexwatt (control_checked E lib seeds hash_file req owner_uid)
        (\<lambda>code. ret (error_response code (str_of (fld req ''id'')))))"

definition run_for_channel :: "pystr \<Rightarrow> 'w launcher \<Rightarrow> pystr option" where
  "run_for_channel ch L = map_option fst (find (\<lambda>kr. ch \<in> rn_channels (snd kr)) (la_runs L))"

definition workload_checked :: "'w env \<Rightarrow> ed_lib \<Rightarrow> pystr \<Rightarrow> json \<Rightarrow> ('w, json) lau" where
  "workload_checked E lib ch req =
    andthen (reads (run_for_channel ch)) (\<lambda>found. case found of
      None \<Rightarrow> raise (Lex NOT_FOUND)
    | Some rid \<Rightarrow> on_run rid (run_handle E lib (lit ''ch:'' @ ch) req (Some ch)))"

definition workload :: "'w env \<Rightarrow> ed_lib \<Rightarrow> pystr \<Rightarrow> json \<Rightarrow> ('w, json) lau" where
  "workload E lib ch req =
    andthen (lift_r (check_request req)) (\<lambda>_.
      catch_lexwatt (workload_checked E lib ch req)
        (\<lambda>code. ret (error_response code (str_of (fld req ''id'')))))"

definition tick_all :: "'w env \<Rightarrow> ed_lib \<Rightarrow> ('w, unit) lau" where
  "tick_all E lib = andthen (reads (\<lambda>L. map fst (la_runs L))) (each_act (\<lambda>rid. on_run rid (tick E lib)))"

section \<open>The pure methods\<close>

definition estimate_json :: "estimate \<Rightarrow> json" where
  "estimate_json e =
    JObj [(lit ''estimator'', JStr (est_estimator e)), (lit ''base_flops'', JStr (est_base_flops e)),
          (lit ''attention_flops'', JStr (est_attention_flops e)), (lit ''charged_flops'', JStr (est_charged_flops e)),
          (lit ''coverage'', JStr (est_coverage e))]"

definition route_json :: "(json \<times> estimate) option \<Rightarrow> json" where
  "route_json r =
    (case r of
       None \<Rightarrow> JObj [(lit ''model_id'', JNull), (lit ''estimate'', JNull)]
     | Some (m, e) \<Rightarrow> JObj [(lit ''model_id'', m), (lit ''estimate'', estimate_json e)])"

definition list_param :: "json \<Rightarrow> exn + json list" where
  "list_param v = (case v of JArr xs \<Rightarrow> if length xs > 32 then bad else Inr xs | _ \<Rightarrow> bad)"

definition pure_estimate :: "json \<Rightarrow> exn + json" where
  "pure_estimate params =
    bindE (only_keys [''model'', ''work''] params) (\<lambda>_.
    bindE (subscript params ''model'') (\<lambda>m. bindE (subscript params ''work'') (\<lambda>w.
    bindE (estimate_for_model_work m w) (\<lambda>e. Inr (estimate_json e)))))"

definition pure_route :: "json \<Rightarrow> exn + json" where
  "pure_route params =
    bindE (only_keys [''models'', ''input_tokens'', ''max_output_tokens'', ''batch'', ''remaining_flops''] params) (\<lambda>_.
    bindE (bindE (subscript params ''models'') list_param) (\<lambda>models.
    bindE (eachE check_model models) (\<lambda>_.
    bindE (subscript params ''batch'') (\<lambda>batch.
    bindE (requireE (case batch of JInt _ \<Rightarrow> True | _ \<Rightarrow> False) (Lex INVALID_INPUT)) (\<lambda>_.
    bindE (bindE (subscript params ''input_tokens'') check_u) (\<lambda>i.
    bindE (bindE (subscript params ''max_output_tokens'') check_u) (\<lambda>u.
    bindE (bindE (subscript params ''remaining_flops'') parse_u) (\<lambda>remaining.
    bindE (choose_route models (JObj [(lit ''input_tokens'', JStr i), (lit ''max_output_tokens'', JStr u), (lit ''batch'', batch)]) remaining) (\<lambda>r.
      Inr (route_json r))))))))))"

definition pure_verify :: "ed_lib \<Rightarrow> json \<Rightarrow> exn + json" where
  "pure_verify lib params =
    bindE (only_keys [''bundle'', ''pins'', ''require_complete''] params) (\<lambda>_.
    bindE (subscript params ''bundle'') (\<lambda>b. bindE (check_bundle b) (\<lambda>_.
    bindE (bindE (subscript params ''pins'') list_param) (\<lambda>pins.
    bindE (eachE check_pin pins) (\<lambda>_.
    bindE (subscript params ''require_complete'') (\<lambda>rc. case rc of
      JBool complete \<Rightarrow> verify_bundle lib b pins complete
    | _ \<Rightarrow> bad))))))"

definition pure_capabilities :: "'w env \<Rightarrow> json \<Rightarrow> ('w, json) lau" where
  "pure_capabilities E params =
    andthen (lift_r (only_keys [''profile''] params)) (\<lambda>_.
      if fld params ''profile'' \<in> JStr ` lit ` {''linux-rapl-v1'', ''linux-ledger-v1'', ''offline-v1''}
      then on_host (env_capabilities E (fld params ''profile'')) else raise (Lex INVALID_INPUT))"

definition pure_method :: "'w env \<Rightarrow> ed_lib \<Rightarrow> json \<Rightarrow> json \<Rightarrow> ('w, json) lau" where
  "pure_method E lib m params =
    (if is_method m M_capabilities_get then pure_capabilities E params
     else if is_method m M_estimate_compute then lift_r (pure_estimate params)
     else if is_method m M_route_choose then lift_r (pure_route params)
     else if is_method m M_receipt_verify then lift_r (pure_verify lib params)
     else raise (Lex INVALID_INPUT))"

definition pure_call :: "'w env \<Rightarrow> ed_lib \<Rightarrow> json \<Rightarrow> ('w, json) lau" where
  "pure_call E lib req =
    andthen (lift_r (check_request req)) (\<lambda>_.
      if \<not> list_ex (is_method (fld req ''method'')) PURE_METHODS then raise (Lex UNAUTHORIZED)
      else andthen (pure_method E lib (fld req ''method'') (fld req ''params'')) (\<lambda>v.
        ret (envelope (str_of (fld req ''id'')) v None)))"

end
