(* ===== verification/LauncherSafe.thy ===== *)
theory LauncherSafe imports EngineReplies Launcher begin

text \<open>
  The launcher over its runs. \<open>later\<close> is a third instance of \<open>run_invariant\<close>: no method of a run turns the clock
  back. With it the locale \<open>fleet_invariant\<close> lifts a property of one run to the whole launcher: while any calls go
  to any of the runs, to \<open>run.start\<close> or to the host, the property of each run in memory is kept.
\<close>

section \<open>Time passes for every run\<close>

definition later :: "('w \<Rightarrow> int) \<Rightarrow> 'w \<Rightarrow> 'w run \<Rightarrow> bool" where
  "later now w0 r \<longleftrightarrow> now w0 \<le> now (rn_world r)"

context quiet_env
begin

lemma later_commit: "keeps (later now w0) (commit E lib evs key result error)"
proof (rule keepsI)
  fix r :: "'a run" assume l: "later now w0 r"
  have "keeps (pinned now r) (commit E lib evs key result error)"
    unfolding commit_def by (intro pinned_intros pinned_commit)
  from keeps_result [OF this pinned_refl] have "pinned now r (snd (commit E lib evs key result error r))" .
  then show "later now w0 (snd (commit E lib evs key result error r))" using l by (simp add: pinned_def later_def)
qed

end

sublocale quiet_env \<subseteq> clocked: run_invariant E now lib "later now w0" for lib w0
proof unfold_locales
  show "later now w0 r \<Longrightarrow> pinned now r r' \<Longrightarrow> db_main (rn_db r') = db_main (rn_db r) \<Longrightarrow> later now w0 r'" for r r'
    by (simp add: later_def pinned_def)
qed (rule later_commit)

context quiet_env
begin

lemma created_later: "keeps (later now w0) (created E lib ch)"
  unfolding created_def by (intro clocked.inv_intros keeps_modify; simp add: later_def)

lemma launched_later: "keeps (later now w0) (andthen (created E lib ch) (\<lambda>_. andthen (run_arming E lib) (\<lambda>_. arm E lib)))"
  by (intro flow_intros created_later clocked.inv_arming clocked.inv_arm)

end

section \<open>Properties of one run among many\<close>

definition alive :: "('w run \<Rightarrow> bool) \<Rightarrow> pystr \<Rightarrow> 'w launcher \<Rightarrow> bool" where
  "alive I rid L \<longleftrightarrow> (\<exists>r. map_of (la_runs L) rid = Some r \<and> I (r\<lparr>rn_world := la_world L\<rparr>))"

text \<open>Every run in memory has its directory.\<close>

definition dirs :: "'w launcher \<Rightarrow> pystr set" where
  "dirs L = dom (map_of (la_disk L))"

definition homed :: "'w launcher \<Rightarrow> bool" where
  "homed L \<longleftrightarrow> dom (map_of (la_runs L)) \<subseteq> dirs L"

text \<open>The calls that connections and the command line make, in any order.\<close>

datatype launcher_op =
    L_control json int
  | L_workload pystr json
  | L_tick
  | L_open pystr
  | L_bundle pystr json

fun drive :: "'w env \<Rightarrow> ed_lib \<Rightarrow> (nat \<Rightarrow> bytes) \<Rightarrow> (json \<Rightarrow> exn + pystr) \<Rightarrow> launcher_op \<Rightarrow> 'w launcher \<Rightarrow> 'w launcher" where
  "drive E lib seeds hash_file (L_control req uid) L = snd (control E lib seeds hash_file req uid L)"
| "drive E lib seeds hash_file (L_workload ch req) L = snd (workload E lib ch req L)"
| "drive E lib seeds hash_file L_tick L = snd (tick_all E lib L)"
| "drive E lib seeds hash_file (L_open rid) L = snd (open_run rid L)"
| "drive E lib seeds hash_file (L_bundle rid h) L = snd (on_run rid (run_bundle h) L)"

definition operate :: "'w env \<Rightarrow> ed_lib \<Rightarrow> (nat \<Rightarrow> bytes) \<Rightarrow> (json \<Rightarrow> exn + pystr) \<Rightarrow> launcher_op list \<Rightarrow> 'w launcher \<Rightarrow> 'w launcher" where
  "operate E lib seeds hash_file ops L = fold (drive E lib seeds hash_file) ops L"

lemma map_of_update_run [simp]: "map_of (AList.update k v al) = (map_of al)(k \<mapsto> v)"
  by (rule update_conv')

context run_invariant
begin

text \<open>The run \<open>rid\<close> is in memory with the property, and the directories \<open>ds\<close> exist.\<close>

definition safe :: "pystr \<Rightarrow> pystr set \<Rightarrow> 'a launcher \<Rightarrow> bool" where
  "safe rid ds L \<longleftrightarrow> alive I rid L \<and> homed L \<and> ds \<subseteq> dirs L"

lemma alive_later: "alive I rid L \<Longrightarrow> now (la_world L) \<le> now w \<Longrightarrow> \<exists>r. map_of (la_runs L) rid = Some r \<and> I (r\<lparr>rn_world := w\<rparr>)"
  using drift [of "r\<lparr>rn_world := la_world L\<rparr>" "r\<lparr>rn_world := w\<rparr>" for r] by (force simp: alive_def pinned_def)

lemma safe_host: "forward now m \<Longrightarrow> keeps (safe rid ds) (on_host m)"
proof (rule keepsI)
  fix L assume f: "forward now m" and s: "safe rid ds L"
  have "now (la_world L) \<le> now (snd (m (la_world L)))" using f by (simp add: forward_def)
  moreover have "alive I rid L" using s by (simp add: safe_def)
  ultimately obtain r where "map_of (la_runs L) rid = Some r" "I (r\<lparr>rn_world := snd (m (la_world L))\<rparr>)"
    using alive_later by blast
  then show "safe rid ds (snd (on_host m L))"
    using s by (auto simp: on_host_def safe_def alive_def homed_def dirs_def split: prod.split)
qed

lemma safe_on_run:
  assumes m: "rid = rid' \<Longrightarrow> keeps I m" and t: "\<And>w. keeps (later now w) m"
  shows "keeps (safe rid ds) (on_run rid' m)"
proof (rule keepsI)
  fix L assume s: "safe rid ds L"
  show "safe rid ds (snd (on_run rid' m L))"
  proof (cases "map_of (la_runs L) rid'")
    case (Some r')
    obtain x r1 where x: "m (r'\<lparr>rn_world := la_world L\<rparr>) = (x, r1)" by (cases "m (r'\<lparr>rn_world := la_world L\<rparr>)")
    have "later now (la_world L) r1" by (rule keepsD [OF t _ x]) (simp add: later_def)
    then obtain r where r: "map_of (la_runs L) rid = Some r" "I (r\<lparr>rn_world := rn_world r1\<rparr>)"
      using alive_later [of rid L] s by (auto simp: later_def safe_def)
    have own: "I (r1\<lparr>rn_world := rn_world r1\<rparr>)" if "rid = rid'"
      using keepsD [OF m _ x] s Some that by (simp add: safe_def alive_def)
    show ?thesis using s r own Some x by (auto simp: on_run_def safe_def alive_def homed_def dirs_def)
  qed (use s in \<open>simp add: on_run_def\<close>)
qed

lemma safe_same:
  "(\<And>L. la_world (f L) = la_world L \<and> la_runs (f L) = la_runs L \<and> la_disk (f L) = la_disk L) \<Longrightarrow> keeps (safe rid ds) (modify f)"
  "keeps (safe rid ds) (on_index i)"
  by (auto simp: keeps_def modify_def on_index_def safe_def alive_def homed_def dirs_def split: prod.split)

lemma safe_disk: "keeps (safe rid ds) (open_journal rid' j)" "keeps (safe rid ds) (make_run_dir rid')"
  by (auto simp: keeps_def open_journal_def make_run_dir_def safe_def alive_def homed_def dirs_def Let_def split: db_open.split)

lemmas safe_intros = flow_intros safe_host safe_same safe_disk calls_forward inv_catch

end

section \<open>Reopening\<close>

lemma open_journal_frame:
  "open_journal rid j L = (x, L') \<Longrightarrow> la_world L' = la_world L \<and> la_runs L' = la_runs L \<and> la_index L' = la_index L \<and>
    dirs L \<subseteq> dirs L' \<and> (rid \<in> dirs L \<longrightarrow> dirs L' = dirs L)"
  by (auto simp: open_journal_def Let_def dirs_def split: db_open.splits if_splits)

lemma open_run_cases:
  assumes "open_run rid L = (x, L')"
  obtains "L' = L"
    | j y L1 where "map_of (la_runs L) rid = None" "map_of (la_disk L) rid = Some (Some j)" "open_journal rid j L = (y, L1)"
        "L' = L1 \<or> (\<exists>r. L' = L1\<lparr>la_runs := AList.update rid r (la_runs L1)\<rparr>)"
proof (cases "map_of (la_runs L) rid = None \<and> (\<exists>i. check_id (JStr rid) ID_run = Inr i) \<and> (\<exists>j. map_of (la_disk L) rid = Some (Some j))")
  case True
  then obtain i j where k: "map_of (la_runs L) rid = None" "check_id (JStr rid) ID_run = Inr i" "map_of (la_disk L) rid = Some (Some j)"
    by blast
  obtain y L1 where o: "open_journal rid j L = (y, L1)" by (cases "open_journal rid j L")
  have e: "(x, L') = andthen (open_journal rid j) (\<lambda>d. case stored_run rid (la_policy L) (la_model_map L) (la_world L) d of
        (Inl e, _) \<Rightarrow> raise e
      | (Inr r, d') \<Rightarrow> (case rebuild (r\<lparr>rn_db := d'\<rparr>) of (Inl e, _) \<Rightarrow> raise e
         | (Inr _, r') \<Rightarrow> modify (\<lambda>L. L\<lparr>la_runs := AList.update rid r' (la_runs L)\<rparr>))) L"
    using k assms by (simp add: open_run_def reads_def lift_r_def andthen_def)
  have "L' = L1 \<or> (\<exists>r. L' = L1\<lparr>la_runs := AList.update rid r (la_runs L1)\<rparr>)"
  proof (cases y)
    case (Inr d)
    then show ?thesis
      using e o by (auto simp: andthen_def raise_def modify_def split: prod.splits sum.splits)
  qed (use e o in simp)
  with k(1,3) o show thesis by (rule that(2))
next
  case False
  then have "L' = L" using assms
    by (auto simp: open_run_def reads_def lift_r_def andthen_def ret_def raise_def split: if_splits sum.splits option.splits)
  then show thesis by (rule that(1))
qed

lemma open_run_frame:
  assumes "open_run rid L = (x, L')"
  shows "la_world L' = la_world L \<and> la_index L' = la_index L \<and> dirs L' = dirs L \<and>
    (la_runs L' = la_runs L \<or> map_of (la_runs L) rid = None \<and> rid \<in> dirs L \<and> (\<exists>r. la_runs L' = AList.update rid r (la_runs L)))"
  using assms
proof (cases rule: open_run_cases)
  case (2 j y L1)
  have h: "rid \<in> dirs L" using 2(2) by (auto simp: dirs_def)
  note f = open_journal_frame [OF 2(3)]
  from 2(4) show ?thesis
  proof
    assume "L' = L1" then show ?thesis using f h by simp
  next
    assume "\<exists>r. L' = L1\<lparr>la_runs := AList.update rid r (la_runs L1)\<rparr>"
    then obtain r where "L' = L1\<lparr>la_runs := AList.update rid r (la_runs L1)\<rparr>" by blast
    then show ?thesis using f h 2(1) by (auto simp: dirs_def)
  qed
qed simp

context run_invariant
begin

text \<open>A change of the registry that adds a run of another name.\<close>

lemma safe_add:
  assumes "safe rid ds L" "rid \<noteq> rid'" "rid' \<in> dirs L'" "la_world L' = la_world L" "dirs L \<subseteq> dirs L'"
    "la_runs L' = AList.update rid' r (la_runs L)"
  shows "safe rid ds L'"
  using assms by (auto simp: safe_def alive_def homed_def)

lemma safe_cong: "safe rid ds L \<Longrightarrow> la_world L' = la_world L \<Longrightarrow> dirs L \<subseteq> dirs L' \<Longrightarrow> la_runs L' = la_runs L \<Longrightarrow> safe rid ds L'"
  by (auto simp: safe_def alive_def homed_def)

lemma safe_open: "keeps (safe rid ds) (open_run rid')"
proof (rule keepsI)
  fix L assume s: "safe rid ds L"
  obtain x L' where o: "open_run rid' L = (x, L')" by (cases "open_run rid' L")
  note f = open_run_frame [OF o]
  have "safe rid ds L'"
  proof (cases "la_runs L' = la_runs L")
    case True then show ?thesis using f by (intro safe_cong [OF s]) auto
  next
    case False
    then obtain r where r: "map_of (la_runs L) rid' = None" "rid' \<in> dirs L" "la_runs L' = AList.update rid' r (la_runs L)"
      using f by blast
    have "rid \<noteq> rid'" using s r(1) by (auto simp: safe_def alive_def)
    then show ?thesis using f r by (intro safe_add [OF s]) auto
  qed
  then show "safe rid ds (snd (open_run rid' L))" by (simp add: o)
qed

lemma safe_key: "keeps (safe rid ds) (new_key E lib seeds)"
  unfolding new_key_def by (intro safe_intros; simp)

lemma safe_new_run:
  assumes "rid \<noteq> rid'" "rid' \<in> ds"
  shows "keeps (safe rid ds) (modify (\<lambda>L. L\<lparr>la_runs := AList.update rid' (f L) (la_runs L)\<rparr>))"
proof (rule keeps_modify)
  fix L assume s: "safe rid ds L"
  then have "rid' \<in> dirs L" using assms(2) by (auto simp: safe_def)
  then show "safe rid ds (L\<lparr>la_runs := AList.update rid' (f L) (la_runs L)\<rparr>)"
    by (intro safe_add [OF s assms(1), where r = "f L"]) (auto simp: dirs_def)
qed

text \<open>A run is started under a directory that did not exist, so it is another run.\<close>

lemma safe_start: "keeps (safe rid ds) (start_run E lib seeds rid' cfg execv chash)"
proof (rule keepsI)
  fix L assume s: "safe rid ds L"
  let ?new = "\<lambda>db kid seed. modify (\<lambda>L. L\<lparr>la_runs := AList.update rid' (Run rid' kid seed cfg execv db (la_policy L) (la_model_map L) (la_world L)) (la_runs L)\<rparr>)"
  let ?rest = "andthen (open_journal rid' JOURNAL_SCHEMA) (\<lambda>db. andthen (new_key E lib seeds) (\<lambda>(kid, seed, _). andthen (?new db kid seed)
     (\<lambda>_. on_run rid' (andthen (created E lib chash) (\<lambda>_. andthen (run_arming E lib) (\<lambda>_. arm E lib))))))"
  show "safe rid ds (snd (start_run E lib seeds rid' cfg execv chash L))"
  proof (cases "rid' \<in> dirs L")
    case False
    let ?L = "L\<lparr>la_disk := (rid', None) # la_disk L\<rparr>"
    have "map_of (la_runs L) rid' = None"
      using False s by (auto simp: safe_def homed_def)
    then have ne: "rid \<noteq> rid'" using s by (auto simp: safe_def alive_def)
    have "keeps (safe rid (insert rid' ds)) ?rest"
      by (intro flow_intros safe_disk safe_key safe_new_run [OF ne] safe_on_run launched_later) (use ne in auto)
    moreover have "safe rid (insert rid' ds) ?L" using s by (auto simp: safe_def homed_def alive_def dirs_def)
    ultimately have "safe rid (insert rid' ds) (snd (?rest ?L))" by (rule keeps_result)
    moreover have "start_run E lib seeds rid' cfg execv chash L = ?rest ?L"
      using False by (simp add: dirs_def domIff start_run_def make_run_dir_def andthen_def [of "make_run_dir rid'"])
    ultimately show ?thesis by (simp add: safe_def)
  qed (use s in \<open>auto simp: dirs_def start_run_def make_run_dir_def andthen_def\<close>)
qed

lemma safe_checks: "keeps (safe rid ds) (launch_checks E hash_file params)"
  unfolding launch_checks_def Let_def by (intro safe_intros)

lemma safe_report: "keeps (safe rid ds) (launch_report rid')"
  unfolding launch_report_def by (intro safe_on_run flow_intros)

lemma safe_reconcile: "keeps (safe rid ds) (reconcile_launch rid')"
  unfolding reconcile_launch_def by (intro safe_intros safe_report safe_open)

lemma safe_answer:
  "keeps (safe rid ds) a \<Longrightarrow> (\<And>v. keeps (safe rid ds) (b v)) \<Longrightarrow> (\<And>s. keeps (safe rid ds) (c s)) \<Longrightarrow>
   keeps (safe rid ds) (case ans of Reserved \<Rightarrow> a | Answered v \<Rightarrow> b v | Unanswered s \<Rightarrow> c s)"
  by (simp split: index_answer.split)

lemma safe_launch: "keeps (safe rid ds) (run_start E lib seeds hash_file params req_id uid)"
  unfolding run_start_def launch_indexed_def
  by (intro safe_intros safe_checks safe_answer safe_start safe_report safe_reconcile)

lemma safe_catch: "keeps (safe rid ds) m \<Longrightarrow> (\<And>c. keeps (safe rid ds) (h c)) \<Longrightarrow> keeps (safe rid ds) (catch_lexwatt m h)"
  unfolding catch_lexwatt_def by (intro flow_intros)

lemma safe_control: "keeps (safe rid ds) (control E lib seeds hash_file req uid)"
  unfolding control_def control_checked_def Let_def control_run_def
  by (intro safe_intros safe_catch safe_launch; simp split: json.split add: keeps_prims)
    (auto intro!: safe_intros safe_catch safe_open safe_on_run inv_handle clocked.inv_handle)

lemma safe_workload: "keeps (safe rid ds) (workload E lib ch req)"
  unfolding workload_def workload_checked_def
  by (intro safe_intros safe_catch safe_on_run inv_handle clocked.inv_handle)

lemma safe_tick: "keeps (safe rid ds) (tick_all E lib)"
  unfolding tick_all_def by (intro safe_intros safe_on_run inv_tick clocked.inv_tick)

lemma drive_safe: "safe rid ds L \<Longrightarrow> safe rid ds (drive E lib seeds hash_file op L)"
  using safe_control safe_workload safe_tick safe_open safe_on_run [OF inv_reads(4) clocked.inv_reads(4)]
  by (cases op) (simp_all add: keeps_def)

lemma operate_safe: "safe rid ds L \<Longrightarrow> safe rid ds (operate E lib seeds hash_file ops L)"
  unfolding operate_def by (induction ops arbitrary: L) (simp_all add: drive_safe)

text \<open>A property of a run in memory holds whatever the launcher does for this or any other run.\<close>

lemma operate_alive: "alive I rid L \<Longrightarrow> homed L \<Longrightarrow> alive I rid (operate E lib seeds hash_file ops L)"
  using operate_safe [of rid "{}" L] by (simp add: safe_def)

end

context quiet_env
begin

lemma operate_settles:
  assumes "homed L" "map_of (la_runs L) rid = Some r" "settled now lib es (r\<lparr>rn_world := la_world L\<rparr>)"
  shows "\<exists>r' new. map_of (la_runs (operate E lib seeds hash_file ops L)) rid = Some r' \<and>
    settled now lib (es @ new) (r'\<lparr>rn_world := la_world (operate E lib seeds hash_file ops L)\<rparr>)"
proof -
  have "alive (grown now lib es) rid L" using assms(2,3) by (auto simp: alive_def grown_def intro: exI [of _ "[]"])
  from grown.operate_alive [OF this assms(1)] show ?thesis by (auto simp: alive_def grown_def)
qed

end

end
