(* ===== verification/LauncherIndex.thy ===== *)
theory LauncherIndex imports LauncherSafe begin

text \<open>
  The index of launches. A row, once committed, keeps its run; two rows never share one; every run directory belongs
  to a row. Hence a launch request creates at most one run, over any number of processes, and a repeated one starts
  nothing. A statement that fails inside the transaction of the index leaves it open, which no later call repairs.
\<close>

section \<open>Rows\<close>

definition unique_runs :: "launches \<Rightarrow> bool" where
  "unique_runs t \<longleftrightarrow> (\<forall>k k' x x'. tbl_get t k = Some x \<and> tbl_get t k' = Some x' \<and> lr_run_id x = lr_run_id x' \<longrightarrow> k = k')"

definition runs_kept :: "launches \<Rightarrow> launches \<Rightarrow> bool" where
  "runs_kept t t' \<longleftrightarrow> (\<forall>k x. tbl_get t k = Some x \<longrightarrow> (\<exists>x'. tbl_get t' k = Some x' \<and> lr_run_id x' = lr_run_id x))"

definition has_run :: "pystr \<Rightarrow> launches \<Rightarrow> bool" where
  "has_run rid t \<longleftrightarrow> (\<exists>k x. tbl_get t k = Some x \<and> lr_run_id x = rid)"

lemma runs_kept_refl [simp]: "runs_kept t t"
  by (simp add: runs_kept_def)

lemma has_run_kept: "runs_kept t t' \<Longrightarrow> has_run rid t \<Longrightarrow> has_run rid t'"
  by (force simp: runs_kept_def has_run_def)

lemma unique_runsD: "unique_runs t \<Longrightarrow> tbl_get t k = Some x \<Longrightarrow> tbl_get t k' = Some x' \<Longrightarrow> lr_run_id x = lr_run_id x' \<Longrightarrow> k = k'"
  unfolding unique_runs_def by blast

lemma launch_insert_rows:
  assumes "launch_insert k r t = Some t'"
  shows "unique_runs t \<Longrightarrow> unique_runs t'" "runs_kept t t'" "has_run (lr_run_id r) t'"
proof -
  have i: "tbl_insert k r t = Some t'" and n: "lr_run_id r \<notin> (\<lambda>kr. lr_run_id (snd kr)) ` set t"
    using assms by (simp_all add: launch_insert_def split: if_splits)
  have k: "tbl_get t' k = Some r" using tbl.put_get [OF i, of k] by simp
  have g: "tbl_get t' j = tbl_get t j" if "j \<noteq> k" for j using tbl.put_other [OF i that] .
  have fresh: "lr_run_id x \<noteq> lr_run_id r" if "tbl_get t j = Some x" for j x
  proof
    assume "lr_run_id x = lr_run_id r"
    moreover have "(j, x) \<in> set t" using that by (simp add: tbl_get_def map_of_SomeD)
    ultimately show False using n by (metis image_eqI snd_conv)
  qed
  have new: "tbl_get t k = None" using i tbl.put_fresh [of k r t] by simp
  show "has_run (lr_run_id r) t'" unfolding has_run_def using k by blast
  show "runs_kept t t'" unfolding runs_kept_def using new g by (metis option.distinct(1))
  show "unique_runs t'" if u: "unique_runs t"
    unfolding unique_runs_def
  proof (intro allI impI, elim conjE)
    fix k1 k2 x1 x2
    assume a: "tbl_get t' k1 = Some x1" "tbl_get t' k2 = Some x2" "lr_run_id x1 = lr_run_id x2"
    consider "k1 = k" "k2 = k" | "k1 = k" "k2 \<noteq> k" | "k1 \<noteq> k" "k2 = k" | "k1 \<noteq> k" "k2 \<noteq> k" by blast
    then show "k1 = k2"
    proof cases
      case 2 then show ?thesis using a k g [of k2] fresh [of k2 x2] by simp
    next
      case 3 then show ?thesis using a k g [of k1] fresh [of k1 x1] by simp
    next
      case 4 then show ?thesis using a g [of k1] g [of k2] unique_runsD [OF u, of k1 x1 k2 x2] by simp
    qed simp
  qed
qed

lemma response_row:
  "tbl_get (tbl_update k (\<lambda>r. r\<lparr>lr_response := b\<rparr>) t) j = Some x \<Longrightarrow> \<exists>y. tbl_get t j = Some y \<and> lr_run_id x = lr_run_id y"
  by (auto simp: tbl.set_get split: if_splits)

lemma response_rows: "unique_runs t \<Longrightarrow> unique_runs (tbl_update k (\<lambda>r. r\<lparr>lr_response := b\<rparr>) t)"
  "runs_kept t (tbl_update k (\<lambda>r. r\<lparr>lr_response := b\<rparr>) t)"
proof -
  show "unique_runs (tbl_update k (\<lambda>r. r\<lparr>lr_response := b\<rparr>) t)" if u: "unique_runs t"
    unfolding unique_runs_def
  proof (intro allI impI, elim conjE)
    fix k1 k2 x1 x2
    assume a: "tbl_get (tbl_update k (\<lambda>r. r\<lparr>lr_response := b\<rparr>) t) k1 = Some x1" "tbl_get (tbl_update k (\<lambda>r. r\<lparr>lr_response := b\<rparr>) t) k2 = Some x2"
      and e: "lr_run_id x1 = lr_run_id x2"
    obtain y1 y2 where "tbl_get t k1 = Some y1" "tbl_get t k2 = Some y2" "lr_run_id y1 = lr_run_id y2"
      using response_row [OF a(1)] response_row [OF a(2)] e by auto
    then show "k1 = k2" by (rule unique_runsD [OF u])
  qed
  show "runs_kept t (tbl_update k (\<lambda>r. r\<lparr>lr_response := b\<rparr>) t)"
    unfolding runs_kept_def by (simp add: tbl.set_get)
qed

section \<open>Transactions of the index\<close>

text \<open>What every statement keeps of a connection: unique runs, before and inside a transaction, and the rows of \<open>t0\<close>.\<close>

definition index_ok :: "launches \<Rightarrow> launches conn \<Rightarrow> bool" where
  "index_ok t0 d \<longleftrightarrow> unique_runs (db_main d) \<and> runs_kept t0 (db_main d) \<and>
     (\<forall>t. db_txn d = Some t \<longrightarrow> unique_runs t \<and> runs_kept (db_main d) t)"

lemma runs_kept_trans: "runs_kept a b \<Longrightarrow> runs_kept b c \<Longrightarrow> runs_kept a c"
  by (force simp: runs_kept_def)

lemma index_query: "keeps (index_ok t0) (query f)"
  by (auto simp: keeps_def query_def index_ok_def)

lemma index_execute:
  "(\<And>t t'. f t = Some t' \<Longrightarrow> (unique_runs t \<longrightarrow> unique_runs t') \<and> runs_kept t t') \<Longrightarrow> keeps (index_ok t0) (execute f)"
  by (auto simp: keeps_def execute_def index_ok_def db_write_def db_view_def split: option.splits) (blast intro: runs_kept_trans)+

lemma index_transactions: "keeps (index_ok t0) sql_begin" "keeps (index_ok t0) sql_commit" "keeps (index_ok t0) sql_rollback"
  by (auto simp: keeps_def sql_begin_def sql_commit_def sql_rollback_def index_ok_def split: option.split dest: runs_kept_trans)

lemma index_statements: "keeps (index_ok t0) (launch_get uid req)" "keeps (index_ok t0) (reserve uid req dg ch rid)"
  "keeps (index_ok t0) (store_response uid req b)"
  unfolding launch_get_def reserve_def store_response_def
  using launch_insert_rows response_rows by (intro index_query index_execute; auto)+

lemmas index_intros = flow_intros index_transactions index_statements

lemma index_answer_intro:
  "keeps I a \<Longrightarrow> (\<And>b. keeps I (f b)) \<Longrightarrow> keeps I (case r of None \<Rightarrow> a | Some b \<Rightarrow> f b)"
  by (simp split: option.split)

lemma index_launch_ok: "keeps (index_ok t0) (index_launch uid req dg ch rid)"
  unfolding index_launch_def by (intro index_intros)

lemma store_launch_ok: "keeps (index_ok t0) (store_launch uid req res)"
  unfolding store_launch_def by (intro index_intros)

text \<open>A reservation that was committed is in the index, and only one that was not there before.\<close>

lemma sql_begin_Inr: "sql_begin d = (Inr u, d') \<Longrightarrow> db_txn d = None \<and> db_txn d' = Some (db_main d) \<and> db_main d' = db_main d"
  by (auto simp: sql_begin_def counted_def split: if_splits)

lemma execute_Inr_txn: "execute f d = (Inr u, d') \<Longrightarrow> db_txn d = Some t \<Longrightarrow> \<exists>t'. f t = Some t' \<and> db_txn d' = Some t'"
  by (auto simp: execute_def db_view_def db_write_def counted_def split: if_splits option.splits)

lemma sql_commit_Inr: "sql_commit d = (Inr u, d') \<Longrightarrow> db_txn d = Some t \<Longrightarrow> db_main d' = t \<and> db_txn d' = None"
  by (auto simp: sql_commit_def counted_def split: if_splits option.splits)

lemma reserved_row:
  assumes "index_launch uid req dg ch rid d = (Inr Reserved, d')"
  shows "tbl_get (db_main d) (uid, req) = None \<and> has_run rid (db_main d')"
proof -
  obtain u d1 row d2 where 1: "sql_begin d = (Inr u, d1)" "launch_get uid req d1 = (Inr row, d2)"
    and 3: "(case row of None \<Rightarrow> andthen (reserve uid req dg ch rid) (\<lambda>_. andthen sql_commit (\<lambda>_. ret Reserved))
      | Some x \<Rightarrow> (if lr_digest x \<noteq> dg then andthen sql_rollback (\<lambda>_. raise (Lex CONFLICT))
         else (case lr_response x of
                 Some b \<Rightarrow> andthen (lift_r (loads b)) (\<lambda>resp. andthen sql_commit (\<lambda>_. lift_r (bindE (subscript resp ''result'') (\<lambda>v. Inr (Answered v)))))
               | None \<Rightarrow> andthen sql_commit (\<lambda>_. ret (Unanswered (lr_run_id x)))))) d2 = (Inr Reserved, d')"
    using assms unfolding index_launch_def andthen_eq_Inr by blast
  note b = sql_begin_Inr [OF 1(1)]
  have r: "row = tbl_get (db_main d) (uid, req)" "db_txn d2 = Some (db_main d)"
    using 1(2) b by (auto simp: launch_get_def query_def db_view_def split: if_splits)
  have none: "row = None"
    using 3 by (cases row) (auto simp: andthen_eq_Inr raise_def lift_r_def ret_def result_simps split: if_splits option.splits)
  then obtain d3 where 4: "reserve uid req dg ch rid d2 = (Inr (), d3)" "sql_commit d3 = (Inr (), d')"
    using 3 by (auto simp: andthen_eq_Inr ret_def)
  obtain t' where t': "launch_insert (uid, req) \<lparr>lr_digest = dg, lr_config_hash = ch, lr_run_id = rid, lr_response = None\<rparr> (db_main d) = Some t'"
    "db_txn d3 = Some t'" using execute_Inr_txn [OF 4(1) [unfolded reserve_def] r(2)] by blast
  have "has_run rid t'" using launch_insert_rows(3) [OF t'(1)] by simp
  then show ?thesis using sql_commit_Inr [OF 4(2) t'(2)] none r by simp
qed

section \<open>Every directory has its launch\<close>

definition booked :: "launches \<Rightarrow> pystr set \<Rightarrow> 'w launcher \<Rightarrow> bool" where
  "booked t0 ds L \<longleftrightarrow> index_ok t0 (la_index L) \<and> (\<forall>rid \<in> dirs L \<union> ds. has_run rid (db_main (la_index L)))"

lemma booked_cong: "booked t0 ds L \<Longrightarrow> la_index L' = la_index L \<Longrightarrow> dirs L' \<subseteq> dirs L \<union> ds \<Longrightarrow> booked t0 ds L'"
  by (auto simp: booked_def)

lemma index_ok_self: "index_ok t0 d \<Longrightarrow> index_ok (db_main d) d"
  by (simp add: index_ok_def)

lemma booked_index:
  assumes i: "\<And>t0. keeps (index_ok t0) i"
  shows "keeps (booked t0 ds) (on_index i)"
proof (rule keepsI)
  fix L :: "'w launcher" assume b: "booked t0 ds L"
  obtain x d where x: "i (la_index L) = (x, d)" by (cases "i (la_index L)")
  have ok: "index_ok t0 (la_index L)" using b by (simp add: booked_def)
  have "index_ok t0 d" "index_ok (db_main (la_index L)) d"
    using keepsD [OF i ok x] keepsD [OF i index_ok_self [OF ok] x] .
  then show "booked t0 ds (snd (on_index i L))"
    using b x has_run_kept by (auto simp: on_index_def booked_def dirs_def index_ok_def)
qed

lemma booked_prims:
  "keeps (booked t0 ds) (on_host m)"
  "(\<And>L. la_index (f L) = la_index L \<and> la_disk (f L) = la_disk L) \<Longrightarrow> keeps (booked t0 ds) (modify f)"
  "keeps (booked t0 ds) (on_run rid rm)" "keeps (booked t0 ds) (open_run rid)"
  "rid \<in> ds \<Longrightarrow> keeps (booked t0 ds) (make_run_dir rid)" "rid \<in> ds \<Longrightarrow> keeps (booked t0 ds) (open_journal rid j)"
proof -
  show "keeps (booked t0 ds) (on_host m)"
    by (rule keepsI, erule booked_cong) (auto simp: on_host_def dirs_def split: prod.split)
  show "keeps (booked t0 ds) (modify f)" if "\<And>L. la_index (f L) = la_index L \<and> la_disk (f L) = la_disk L"
    by (rule keepsI, erule booked_cong) (use that in \<open>auto simp: modify_def dirs_def\<close>)
  show "keeps (booked t0 ds) (on_run rid rm)"
    by (rule keepsI, erule booked_cong) (auto simp: on_run_def dirs_def split: prod.split option.split)
  show "keeps (booked t0 ds) (open_run rid)"
    by (rule keepsI, erule booked_cong) (use open_run_frame surjective_pairing in \<open>blast+\<close>)
  show "keeps (booked t0 ds) (make_run_dir rid)" if "rid \<in> ds"
    by (rule keepsI, erule booked_cong) (use that in \<open>auto simp: make_run_dir_def dirs_def\<close>)
  show "keeps (booked t0 ds) (open_journal rid j)" if "rid \<in> ds"
    by (rule keepsI, erule booked_cong) (use that in \<open>auto simp: open_journal_def dirs_def Let_def split: db_open.split\<close>)
qed

lemmas booked_intros = flow_intros booked_prims booked_index

lemma booked_start: "rid \<in> ds \<Longrightarrow> keeps (booked t0 ds) (start_run E lib seeds rid cfg execv chash)"
  unfolding start_run_def new_key_def by (intro booked_intros; simp)

lemma booked_report: "keeps (booked t0 ds) (launch_report rid)" "keeps (booked t0 ds) (reconcile_launch rid)"
  unfolding reconcile_launch_def launch_report_def by (intro booked_intros)+

lemma booked_reserved:
  assumes "booked t0 ds L" "on_index (index_launch uid req dg ch rid) L = (Inr Reserved, L')"
  shows "booked t0 (insert rid ds) L'"
proof -
  obtain d where d: "index_launch uid req dg ch rid (la_index L) = (Inr Reserved, d)" "L' = L\<lparr>la_index := d\<rparr>"
    using assms(2) by (auto simp: on_index_def split: prod.splits)
  have "booked t0 ds L'"
    using keepsD [OF booked_index [of "index_launch uid req dg ch rid", OF index_launch_ok] assms] .
  then show ?thesis using reserved_row [OF d(1)] d(2) by (simp add: booked_def)
qed

lemma booked_indexed: "keeps (booked t0 ds) (launch_indexed E lib seeds req uid checked rid)"
proof (rule keepsI)
  fix L :: "'a launcher" assume b: "booked t0 ds L"
  obtain cfg execv chash dg where c: "checked = (cfg, execv, chash, dg)" by (rule prod_cases4)
  obtain x L' where x: "on_index (index_launch uid req dg chash rid) L = (x, L')" by (cases "on_index (index_launch uid req dg chash rid) L")
  have b': "booked t0 ds L'" using keepsD [OF booked_index [OF index_launch_ok] b x] .
  consider e where "x = Inl e" | "x = Inr Reserved" | v where "x = Inr (Answered v)" | s where "x = Inr (Unanswered s)"
    by (metis index_answer.exhaust sum.exhaust)
  then show "booked t0 ds (snd (launch_indexed E lib seeds req uid checked rid L))"
  proof cases
    case 2
    let ?more = "andthen (start_run E lib seeds rid cfg execv chash) (\<lambda>_. andthen (launch_report rid) (\<lambda>res.
      andthen (on_index (store_launch uid req res)) (\<lambda>_. ret res)))"
    have "booked t0 (insert rid ds) L'" using booked_reserved b x 2 by blast
    moreover have "keeps (booked t0 (insert rid ds)) ?more"
      by (intro booked_intros booked_start booked_report store_launch_ok) simp
    ultimately have "booked t0 (insert rid ds) (snd (?more L'))" by (rule keeps_result [rotated])
    then show ?thesis using x 2 c by (simp add: launch_indexed_def booked_def)
  next
    case 4
    then show ?thesis using x c keeps_result [OF booked_report(2) b'] by (simp add: launch_indexed_def)
  qed (use x b' c in \<open>simp_all add: launch_indexed_def ret_def\<close>)
qed

lemma booked_launch: "keeps (booked t0 ds) (run_start E lib seeds hash_file params req uid)"
  unfolding run_start_def launch_checks_def Let_def by (intro booked_intros booked_indexed)

lemma booked_control: "keeps (booked t0 ds) (control E lib seeds hash_file req uid)"
  unfolding control_def control_checked_def Let_def control_run_def catch_lexwatt_def
  by (intro booked_intros booked_launch; simp split: json.split option.split add: keeps_prims)
    (auto intro!: booked_intros)

lemma booked_calls: "keeps (booked t0 ds) (workload E lib ch req)" "keeps (booked t0 ds) (tick_all E lib)"
  unfolding workload_def workload_checked_def catch_lexwatt_def tick_all_def by (intro booked_intros)+

lemma booked_drive: "booked t0 ds L \<Longrightarrow> booked t0 ds (drive E lib seeds hash_file op L)"
  by (cases op) (simp_all add: keeps_result [OF booked_control] keeps_result [OF booked_calls(1)] keeps_result [OF booked_calls(2)]
      keeps_result [OF booked_prims(3)] keeps_result [OF booked_prims(4)])

lemma booked_operate: "booked t0 ds L \<Longrightarrow> booked t0 ds (operate E lib seeds hash_file ops L)"
  unfolding operate_def by (induction ops arbitrary: L) (simp_all add: booked_drive)

text \<open>Processes one after the other over the same state directory.\<close>

definition lifetimes :: "'w env \<Rightarrow> ed_lib \<Rightarrow> (nat \<Rightarrow> bytes) \<Rightarrow> (json \<Rightarrow> exn + pystr) \<Rightarrow> launcher_op list list \<Rightarrow> 'w launcher \<Rightarrow> 'w launcher" where
  "lifetimes E lib seeds hash_file opss L = fold (\<lambda>ops L. restart (operate E lib seeds hash_file ops L)) opss L"

lemma restart_dirs [simp]: "dirs (restart L) = dirs L"
proof -
  have "fst ` set (la_disk (restart L)) = fst ` set (la_disk L)" by (force simp: restart_def)
  then show ?thesis by (simp add: dirs_def dom_map_of_conv_image_fst)
qed

lemma booked_restart: "booked t0 ds L \<Longrightarrow> booked t0 ds (restart L)"
proof -
  have "la_index (restart L) = (la_index L)\<lparr>db_txn := None\<rparr>" by (simp add: restart_def)
  then show "booked t0 ds L \<Longrightarrow> booked t0 ds (restart L)" by (simp add: booked_def index_ok_def)
qed

lemma booked_lifetimes: "booked t0 ds L \<Longrightarrow> booked t0 ds (lifetimes E lib seeds hash_file opss L)"
  unfolding lifetimes_def by (induction opss arbitrary: L) (simp_all add: booked_operate booked_restart)

end
