(* ===== verification/LauncherProps.thy ===== *)
theory LauncherProps imports LauncherIndex EngineRequests begin

text \<open>
  The properties of the launcher: journals grow whatever happens to other runs, a launch request creates at most one
  run over all processes, a repeated one starts nothing, and a failed reservation blocks all later launches.
\<close>

definition demo_launcher :: "sim_host launcher" where
  "demo_launcher =
    \<lparr>la_world = SimHost [] True True True,
     la_index = idle_conn [((0, lit ''a''), \<lparr>lr_digest = lit ''d'', lr_config_hash = [], lr_run_id = lit ''r'', lr_response = None\<rparr>)],
     la_runs = [(lit ''r'', demo_run JOURNAL_SCHEMA)], la_seeds = [], la_disk = [(lit ''r'', Some JOURNAL_SCHEMA)],
     la_policy = JNull, la_model_map = [], la_storage = (\<lambda>_. Opened (\<lambda>_. False)), la_opens = 0, la_drawn = 0\<rparr>"

section \<open>Journals of a fleet\<close>

text \<open>C9: whatever the launcher does, for this run, for others, for new ones, and whatever storage or host call fails, a run in
  memory stays there, and its journal is the earlier one followed by sealed, linked entries of the same run.\<close>

theorem launcher_journals_grow:
  assumes "quiet_env E now" "homed L" "map_of (la_runs L) rid = Some r" "settled now lib es (r\<lparr>rn_world := la_world L\<rparr>)"
    and "L' = operate E lib seeds hash_file ops L"
  shows "\<exists>r' new. map_of (la_runs L') rid = Some r' \<and> settled now lib (es @ new) (r'\<lparr>rn_world := la_world L'\<rparr>)"
  using quiet_env.operate_settles [OF assms(1-4)] assms(5) by simp

theorem launcher_journals_grow_witness:
  "\<exists>r' new. map_of (la_runs (operate sim_env plain_lib (\<lambda>_. []) (\<lambda>_. bad) [L_tick, L_open (lit ''x'')] demo_launcher)) (lit ''r'') = Some r' \<and>
     settled sm_now_us plain_lib ([] @ new) (r'\<lparr>rn_world := la_world (operate sim_env plain_lib (\<lambda>_. []) (\<lambda>_. bad) [L_tick, L_open (lit ''x'')] demo_launcher)\<rparr>)"
  by (rule launcher_journals_grow [OF sim_quiet.quiet_env_axioms, where L = demo_launcher and r = "demo_run JOURNAL_SCHEMA"])
    (simp_all add: demo_launcher_def homed_def dirs_def fresh_settled JOURNAL_SCHEMA_def)

section \<open>Launches\<close>

text \<open>C10: a launch request creates at most one run. Over any sequence of processes on one state directory, with any calls
  and failures, each run directory belongs to exactly one row of the launch index, that is to one pair of owner and
  request id, and a committed row never changes its run.\<close>

theorem launch_at_most_once:
  assumes "unique_runs (db_main (la_index L))" "db_txn (la_index L) = None" "\<forall>rid \<in> dirs L. has_run rid (db_main (la_index L))"
    and "L' = lifetimes E lib seeds hash_file opss L"
  shows "\<exists>owner. inj_on owner (dirs L') \<and> (\<forall>rid \<in> dirs L'. \<exists>x. tbl_get (db_main (la_index L')) (owner rid) = Some x \<and> lr_run_id x = rid) \<and>
    unique_runs (db_main (la_index L')) \<and> runs_kept (db_main (la_index L)) (db_main (la_index L'))"
proof -
  have "booked (db_main (la_index L)) {} L" using assms(1-3) by (simp add: booked_def index_ok_def)
  then have b: "booked (db_main (la_index L)) {} L'" using booked_lifetimes assms(4) by blast
  then have "\<forall>rid \<in> dirs L'. \<exists>k. \<exists>x. tbl_get (db_main (la_index L')) k = Some x \<and> lr_run_id x = rid"
    by (simp add: booked_def has_run_def)
  then obtain owner where o: "\<forall>rid \<in> dirs L'. \<exists>x. tbl_get (db_main (la_index L')) (owner rid) = Some x \<and> lr_run_id x = rid"
    by (rule bchoice [THEN exE])
  have "inj_on owner (dirs L')" by (rule inj_onI) (use o in \<open>metis option.inject\<close>)
  then show ?thesis using o b by (auto simp: booked_def index_ok_def)
qed

theorem launch_at_most_once_witness:
  "has_run (lit ''r'') (db_main (la_index (lifetimes sim_env plain_lib (\<lambda>_. []) (\<lambda>_. bad) [[L_tick], [L_open (lit ''r'')]] demo_launcher))) \<and>
   (\<exists>owner :: pystr \<Rightarrow> int \<times> pystr. inj_on owner (dirs (lifetimes sim_env plain_lib (\<lambda>_. []) (\<lambda>_. bad) [[L_tick], [L_open (lit ''r'')]] demo_launcher)))"
proof -
  let ?T = "db_main (la_index demo_launcher)"
  have a: "unique_runs ?T" "db_txn (la_index demo_launcher) = None" "\<forall>rid \<in> dirs demo_launcher. has_run rid ?T"
    by (auto simp: demo_launcher_def unique_runs_def has_run_def tbl_get_def dirs_def split: if_splits)
  have "has_run (lit ''r'') ?T" using a(3) by (simp add: demo_launcher_def dirs_def)
  moreover obtain owner where "inj_on (owner :: pystr \<Rightarrow> int \<times> pystr) (dirs (lifetimes sim_env plain_lib (\<lambda>_. []) (\<lambda>_. bad) [[L_tick], [L_open (lit ''r'')]] demo_launcher))"
    "runs_kept ?T (db_main (la_index (lifetimes sim_env plain_lib (\<lambda>_. []) (\<lambda>_. bad) [[L_tick], [L_open (lit ''r'')]] demo_launcher)))"
    using launch_at_most_once [OF a refl] by blast
  ultimately show ?thesis using has_run_kept by blast
qed

section \<open>Repeated launches\<close>

lemma index_launch_known:
  assumes "tbl_get (db_main d) (uid, req) = Some x" "index_launch uid req dg ch rid d = (Inr ans, d')"
  shows "lr_digest x = dg \<and> (case lr_response x of None \<Rightarrow> ans = Unanswered (lr_run_id x)
     | Some b \<Rightarrow> \<exists>resp v. ans = Answered v \<and> loads b = Inr resp \<and> subscript resp ''result'' = Inr v)"
proof -
  obtain u d1 row d2 where 1: "sql_begin d = (Inr u, d1)" "launch_get uid req d1 = (Inr row, d2)"
    and 2: "(case row of None \<Rightarrow> andthen (reserve uid req dg ch rid) (\<lambda>_. andthen sql_commit (\<lambda>_. ret Reserved))
      | Some x \<Rightarrow> (if lr_digest x \<noteq> dg then andthen sql_rollback (\<lambda>_. raise (Lex CONFLICT))
         else (case lr_response x of
                 Some b \<Rightarrow> andthen (lift_r (loads b)) (\<lambda>resp. andthen sql_commit (\<lambda>_. lift_r (bindE (subscript resp ''result'') (\<lambda>v. Inr (Answered v)))))
               | None \<Rightarrow> andthen sql_commit (\<lambda>_. ret (Unanswered (lr_run_id x)))))) d2 = (Inr ans, d')"
    using assms(2) unfolding index_launch_def andthen_eq_Inr by blast
  have "row = Some x"
    using 1(2) sql_begin_Inr [OF 1(1)] assms(1) by (auto simp: launch_get_def query_def db_view_def split: if_splits)
  then show ?thesis
    using 2 by (auto simp: andthen_eq_Inr raise_def lift_r_def ret_def result_simps split: if_splits option.splits)
qed

text \<open>Reading the report of a run and reopening one start nothing.\<close>

lemma report_frame:
  "launch_report rid L = (res, L') \<Longrightarrow> la_world L' = la_world L \<and> dirs L' = dirs L \<and> (\<forall>v. res = Inr v \<longrightarrow> fld v ''run_id'' = JStr rid)"
  by (auto simp: launch_report_def on_run_def reads_def dirs_def launch_result_def fld_JObj split: option.splits)

lemma reconcile_frame:
  assumes "reconcile_launch rid L = (res, L')"
  shows "la_world L' = la_world L \<and> dirs L' = dirs L \<and> (\<forall>v. res = Inr v \<longrightarrow> fld v ''run_id'' = JStr rid)"
proof -
  consider "launch_report rid L = (res, L')" | "(res, L') = (Inr (launch_result rid ''REJECTED'' (JStr (lit ''CONTAINMENT_FAULT''))), L)"
    | "andthen (open_run rid) (\<lambda>_. launch_report rid) L = (res, L')"
    using assms by (auto simp: reconcile_launch_def ret_def split: if_splits option.splits)
  then show ?thesis
  proof cases
    case 1 then show ?thesis by (rule report_frame)
  next
    case 3
    obtain y L1 where o: "open_run rid L = (y, L1)" by (cases "open_run rid L")
    note f = open_run_frame [OF o]
    show ?thesis
    proof (cases y)
      case (Inl e)
      then have "res = Inl e" "L' = L1" using 3 o by simp_all
      then show ?thesis using f by simp
    next
      case (Inr u)
      then have "launch_report rid L1 = (res, L')" using 3 o by simp
      from report_frame [OF this] show ?thesis using f by simp
    qed
  qed (simp add: launch_result_def fld_JObj)
qed

text \<open>The world satisfies \<open>P\<close>, and directories and index are as given.\<close>

definition before_launch :: "('w \<Rightarrow> bool) \<Rightarrow> pystr set \<Rightarrow> launches conn \<Rightarrow> 'w launcher \<Rightarrow> bool" where
  "before_launch P D i L \<longleftrightarrow> P (la_world L) \<and> dirs L = D \<and> la_index L = i"

lemma before_host: "keeps P m \<Longrightarrow> keeps (before_launch P D i) (on_host m)"
  by (auto simp: keeps_def before_launch_def on_host_def dirs_def split: prod.split)

lemma before_checks:
  assumes "\<And>p. keeps P (env_capabilities E p)"
  shows "keeps (before_launch P D i) (launch_checks E hash_file params)"
  unfolding launch_checks_def Let_def by (intro flow_intros before_host assms)

lemma checks_digest: "launch_checks E hash_file params L = (Inr (cfg, execv, chash, dg), L') \<Longrightarrow> request_digest (lit ''run.start'') params = Inr dg"
  by (auto simp: launch_checks_def andthen_eq_Inr Let_def lift_r_def ret_def)

text \<open>C11: a repeated launch starts nothing. If the index holds a row for the request, then \<open>run.start\<close> creates no run directory and
  leaves the host as its capability probe and the identifier generator do; if it answers, then the request is the
  recorded one and the answer is the recorded result, or, when none was recorded, a report on the recorded run.\<close>

theorem launch_retry_starts_nothing:
  assumes "tbl_get (db_main (la_index L)) (uid, req) = Some x"
    and "\<And>p. keeps P (env_capabilities E p)" "\<And>k ex. keeps P (env_new_id E k ex)" "P (la_world L)"
    and "run_start E lib seeds hash_file params req uid L = (res, L')"
  shows "dirs L' = dirs L \<and> P (la_world L') \<and> (\<forall>v. res = Inr v \<longrightarrow> request_digest (lit ''run.start'') params = Inr (lr_digest x) \<and>
    (case lr_response x of None \<Rightarrow> fld v ''run_id'' = JStr (lr_run_id x)
     | Some b \<Rightarrow> \<exists>resp. loads b = Inr resp \<and> subscript resp ''result'' = Inr v))"
proof -
  let ?B = "before_launch P (dirs L) (la_index L)"
  have b0: "?B L" using assms(4) by (simp add: before_launch_def)
  obtain c L1 where c: "launch_checks E hash_file params L = (c, L1)" by (cases "launch_checks E hash_file params L")
  have b1: "?B L1" by (rule keepsD [OF before_checks [OF assms(2)] b0 c])
  let ?id = "on_host (env_new_id E ID_run (\<lambda>i. i \<in> fst ` set (la_runs L1)))"
  obtain i L2 where i: "?id L1 = (i, L2)" by (cases "?id L1")
  have b2: "?B L2" by (rule keepsD [OF before_host [OF assms(3)] b1 i])
  show ?thesis
  proof (cases "c = Inl (projl c) \<or> i = Inl (projl i)")
    case True
    then show ?thesis using assms(5) c i b1 b2
      by (cases c; cases i) (auto simp: run_start_def before_launch_def)
  next
    case False
    then obtain cfg execv chash dg rid where r: "c = Inr (cfg, execv, chash, dg)" "i = Inr rid"
      by (cases c; cases i) auto
    note dg = checks_digest [OF c [unfolded r]]
    have s: "launch_indexed E lib seeds req uid (cfg, execv, chash, dg) rid L2 = (res, L')"
      using assms(5) c i r by (simp add: run_start_def)
    obtain ans d where a: "index_launch uid req dg chash rid (la_index L2) = (ans, d)" by (cases "index_launch uid req dg chash rid (la_index L2)")
    have x: "tbl_get (db_main (la_index L2)) (uid, req) = Some x" using b2 assms(1) by (simp add: before_launch_def)
    have L2: "dirs (L2\<lparr>la_index := d\<rparr>) = dirs L" "P (la_world (L2\<lparr>la_index := d\<rparr>))" using b2 by (auto simp: before_launch_def dirs_def)
    show ?thesis
    proof (cases ans)
      case (Inl e)
      then have "res = Inl e" "L' = L2\<lparr>la_index := d\<rparr>" using s a by (simp_all add: launch_indexed_def on_index_def andthen_def)
      then show ?thesis using L2 by simp
    next
      case (Inr an)
      note k = index_launch_known [OF x a [unfolded Inr]]
      show ?thesis
      proof (cases "lr_response x")
        case None
        then have "reconcile_launch (lr_run_id x) (L2\<lparr>la_index := d\<rparr>) = (res, L')"
          using s a k Inr by (simp add: launch_indexed_def on_index_def andthen_def)
        from reconcile_frame [OF this] show ?thesis using L2 k dg None by simp
      next
        case (Some b)
        with k obtain resp v where v: "an = Answered v" "loads b = Inr resp" "subscript resp ''result'' = Inr v" "lr_digest x = dg" by auto
        then have "res = Inr v" "L' = L2\<lparr>la_index := d\<rparr>"
          using s a Inr by (simp_all add: launch_indexed_def on_index_def andthen_def ret_def)
        then show ?thesis using L2 dg v Some by simp
      qed
    qed
  qed
qed

theorem launch_retry_starts_nothing_witness:
  "dirs (snd (run_start sim_env plain_lib (\<lambda>_. []) (\<lambda>_. bad) (JObj []) (lit ''a'') 0 demo_launcher)) = {lit ''r''} \<and>
   sm_procs (la_world (snd (run_start sim_env plain_lib (\<lambda>_. []) (\<lambda>_. bad) (JObj []) (lit ''a'') 0 demo_launcher))) = []"
proof -
  let ?x = "\<lparr>lr_digest = lit ''d'', lr_config_hash = [], lr_run_id = lit ''r'', lr_response = None\<rparr>"
  let ?P = "\<lambda>h. sm_procs h = []"
  have x: "tbl_get (db_main (la_index demo_launcher)) (0, lit ''a'') = Some ?x" by (simp add: demo_launcher_def tbl_get_def)
  have c: "keeps ?P (env_capabilities sim_env p)" for p by (simp add: sim_env_def keeps_def reads_def)
  have n: "keeps ?P (env_new_id sim_env k ex)" for k ex
    by (auto simp: sim_env_def keeps_def sim_new_id_def split: sum.split prod.split)
  have w: "?P (la_world demo_launcher)" by (simp add: demo_launcher_def SimHost_def)
  show ?thesis
    using launch_retry_starts_nothing [OF x c n w surjective_pairing] by (simp add: dirs_def demo_launcher_def)
qed

section \<open>A failed reservation\<close>

text \<open>The transaction of the index is open.\<close>

definition stuck :: "pystr set \<Rightarrow> 'w launcher \<Rightarrow> bool" where
  "stuck D L \<longleftrightarrow> db_txn (la_index L) \<noteq> None \<and> dirs L = D"

lemma sql_begin_stuck: "db_txn d \<noteq> None \<Longrightarrow> sql_begin d = (Inl (Py Sqlite_Error), counted d)"
  by (simp add: sql_begin_def)

lemma launch_stuck: "stuck D L \<Longrightarrow> on_index (index_launch uid req dg ch rid) L = (Inl (Py Sqlite_Error), L\<lparr>la_index := counted (la_index L)\<rparr>)"
  "stuck D L \<Longrightarrow> on_index (store_launch uid req v) L = (Inl (Py Sqlite_Error), L\<lparr>la_index := counted (la_index L)\<rparr>)"
  by (simp_all add: stuck_def on_index_def index_launch_def store_launch_def andthen_def sql_begin_stuck)

lemma stuck_count: "stuck D L \<Longrightarrow> stuck D (L\<lparr>la_index := counted (la_index L)\<rparr>)"
  by (simp add: stuck_def dirs_def)

lemma stuck_prims:
  "keeps (stuck D) (on_host m)" "keeps (stuck D) (on_run rid rm)" "keeps (stuck D) (open_run rid)"
  "keeps (stuck D) (on_index (store_launch uid req v))"
proof -
  show "keeps (stuck D) (open_run rid)"
    by (rule keepsI) (simp add: stuck_def open_run_frame [OF surjective_pairing])
qed (auto simp: keeps_def stuck_def dirs_def on_host_def on_run_def on_index_def store_launch_def andthen_def sql_begin_stuck
    split: prod.split option.split)

lemma stuck_indexed: "stuck D L \<Longrightarrow> launch_indexed E lib seeds req uid checked rid L = (Inl (Py Sqlite_Error), L\<lparr>la_index := counted (la_index L)\<rparr>)"
  by (cases checked) (simp add: launch_indexed_def andthen_def launch_stuck)

lemma stuck_launch: "keeps (stuck D) (run_start E lib seeds hash_file params req uid)"
proof -
  have "keeps (stuck D) (launch_indexed E lib seeds req uid checked rid)" for checked rid
    by (rule keepsI) (simp add: stuck_indexed stuck_count)
  then show ?thesis
    unfolding run_start_def launch_checks_def Let_def by (intro flow_intros stuck_prims)
qed

lemma stuck_drive: "stuck D L \<Longrightarrow> stuck D (drive E lib seeds hash_file op L)"
proof -
  assume s: "stuck D L"
  have "keeps (stuck D) (control E lib seeds hash_file req uid)" for req uid
    unfolding control_def control_checked_def Let_def control_run_def catch_lexwatt_def
    by (intro flow_intros stuck_prims stuck_launch; simp split: json.split option.split add: keeps_prims)
      (auto intro!: flow_intros stuck_prims)
  moreover have "keeps (stuck D) (workload E lib ch req)" for ch req
    unfolding workload_def workload_checked_def catch_lexwatt_def by (intro flow_intros stuck_prims)
  moreover have "keeps (stuck D) (tick_all E lib)" unfolding tick_all_def by (intro flow_intros stuck_prims)
  ultimately show ?thesis using s by (cases op) (simp_all add: keeps_result keeps_result [OF stuck_prims(2)] keeps_result [OF stuck_prims(3)])
qed

lemma stuck_operate: "stuck D L \<Longrightarrow> stuck D (operate E lib seeds hash_file ops L)"
  unfolding operate_def by (induction ops arbitrary: L) (simp_all add: stuck_drive)

lemma stuck_never_starts:
  assumes "stuck D L"
  shows "\<exists>e. fst (run_start E lib seeds hash_file params req uid L) = Inl e"
proof -
  obtain c L1 where c: "launch_checks E hash_file params L = (c, L1)" by (cases "launch_checks E hash_file params L")
  have k: "keeps (stuck D) (launch_checks E hash_file params)"
    unfolding launch_checks_def Let_def by (intro flow_intros stuck_prims)
  have s1: "stuck D L1" using keepsD [OF k assms c] .
  let ?id = "on_host (env_new_id E ID_run (\<lambda>i. i \<in> fst ` set (la_runs L1)))"
  obtain i L2 where i: "?id L1 = (i, L2)" by (cases "?id L1")
  have s2: "stuck D L2" using keepsD [OF stuck_prims(1) s1 i] .
  show ?thesis
    using c i stuck_indexed [OF s2] by (cases c; cases i) (simp_all add: run_start_def)
qed

text \<open>A statement of the launch index that fails between \<open>BEGIN IMMEDIATE\<close> and \<open>COMMIT\<close> blocks the launcher: the transaction is never
  closed, so whatever calls follow in this process no run directory is created any more and \<open>run.start\<close> always raises.\<close>

theorem failed_reservation_blocks_launches:
  assumes "db_txn (la_index L) = None" "\<not> db_fails (la_index L) (db_count (la_index L))"
    and "\<not> db_fails (la_index L) (db_count (la_index L) + 1)" "db_fails (la_index L) (db_count (la_index L) + 2)"
    and "tbl_get (db_main (la_index L)) (uid, req) = None"
    and "on_index (index_launch uid req dg ch rid) L = (res, L1)" "L2 = operate E lib seeds hash_file ops L1"
  shows "res = Inl (Py Sqlite_Error) \<and> dirs L2 = dirs L \<and> (\<exists>e. fst (run_start E lib seeds hash_file params req' uid' L2) = Inl e)"
proof -
  have "res = Inl (Py Sqlite_Error) \<and> db_txn (la_index L1) \<noteq> None \<and> dirs L1 = dirs L"
    using assms(1-6)
    by (auto simp: on_index_def index_launch_def andthen_def sql_begin_def failing_def counted_def launch_get_def query_def reserve_def
        execute_def db_view_def dirs_def)
  then have "res = Inl (Py Sqlite_Error)" "stuck (dirs L) L1" by (simp_all add: stuck_def)
  then have s: "stuck (dirs L) L2" using assms(7) by (simp add: stuck_operate)
  then show ?thesis using stuck_never_starts [OF s] \<open>res = _\<close> by (simp add: stuck_def)
qed

theorem failed_reservation_blocks_launches_witness:
  "dirs (operate sim_env plain_lib (\<lambda>_. []) (\<lambda>_. bad) [L_tick] (snd (on_index (index_launch 0 (lit ''b'') [] [] (lit ''s''))
     (demo_launcher\<lparr>la_index := (idle_conn [])\<lparr>db_fails := (\<lambda>n. n = 2)\<rparr>\<rparr>)))) = {lit ''r''}"
proof -
  let ?L = "demo_launcher\<lparr>la_index := (idle_conn [])\<lparr>db_fails := (\<lambda>n. n = 2)\<rparr>\<rparr>"
  have "db_txn (la_index ?L) = None" "\<not> db_fails (la_index ?L) (db_count (la_index ?L))" "\<not> db_fails (la_index ?L) (db_count (la_index ?L) + 1)"
    "db_fails (la_index ?L) (db_count (la_index ?L) + 2)" "tbl_get (db_main (la_index ?L)) (0, lit ''b'') = None"
    by (simp_all add: idle_conn_def tbl_get_def)
  from failed_reservation_blocks_launches [OF this surjective_pairing refl] show ?thesis by (simp add: dirs_def demo_launcher_def)
qed

end
