(* ===== verification/Rebuild.thy ===== *)
theory Rebuild imports LauncherProps CoreProps EngineWorld begin

text \<open>
  What reopening a run restores. Over the journal of any run of the core, the loop of \<open>_rebuild\<close>
  (\<open>src/lexwatt/engine.py\<close>) finds the state, the stop reason and the charge of the object that wrote it; the count of
  issued tokens may fall behind, because a slot charged by an issue that raised is not in the journal. What it does
  not restore is the control group, so the kill of a reopened run signals nothing and its group counts as empty.
\<close>

lemma state_named_json [simp]: "state_named (state_json s) = s"
  by (cases s) (simp_all add: state_named_def state_json_def STATES_def)

lemma reason_named_name [simp]: "reason_named (JStr (reason_name s)) = Some s"
  by (cases s) (simp_all add: reason_named_def REASONS_def)

section \<open>The core of the loop\<close>

definition rebuild_one :: "json \<Rightarrow> run_core \<Rightarrow> run_core" where
  "rebuild_one b c = (case kind_of (fld b ''kind'') of None \<Rightarrow> c | Some k \<Rightarrow> rebuild_core k (fld b ''data'') (u_of (fld b ''t_us'')) c)"

lemma rebuild_step_core: "rn_core (rebuild_step b r) = rebuild_one b (rn_core r)"
  by (simp add: rebuild_step_def rebuild_one_def Let_def split: option.split)

lemma rebuild_steps_core: "rn_core (fold rebuild_step bs r) = fold rebuild_one bs (rn_core r)"
  by (induction bs arbitrary: r) (simp_all add: rebuild_step_core)

definition rebuilt_kinds :: "event_kind set" where "rebuilt_kinds = {K_StopLatched, K_TokenIssued, K_ComputeReserved}"

lemma rebuild_other: "k \<notin> rebuilt_kinds \<Longrightarrow> rebuild_core k d t c = c"
  by (auto simp: rebuild_core_def rebuilt_kinds_def split: event_kind.split)

lemma rebuild_state [simp]: "rc_state (rebuild_one b c) = rc_state c"
  by (auto simp: rebuild_one_def rebuild_core_def split: option.split event_kind.split)

lemma rebuilds_state [simp]: "rc_state (fold rebuild_one bs c) = rc_state c"
  by (induction bs arbitrary: c) simp_all

section \<open>Agreement with the live object\<close>

definition agrees :: "run_core \<Rightarrow> run_core \<Rightarrow> bool" where
  "agrees c z \<longleftrightarrow> rc_stop_reason z = rc_stop_reason c \<and> rc_charged_flops z = rc_charged_flops c \<and> rc_spawn_issued z \<le> rc_spawn_issued c"

text \<open>Events that carry a rebuilt object along with the live one.\<close>

definition tracks :: "event list \<Rightarrow> run_core \<Rightarrow> run_core \<Rightarrow> bool" where
  "tracks es c c' \<longleftrightarrow> (\<forall>z bs. list_all2 body_of bs es \<longrightarrow> agrees c z \<longrightarrow> agrees c' (fold rebuild_one bs z))"

definition plain_events :: "event list \<Rightarrow> bool" where
  "plain_events es \<longleftrightarrow> list_all (\<lambda>e. fst e \<notin> rebuilt_kinds) es"

lemma plain_rebuild: "list_all2 body_of bs es \<Longrightarrow> plain_events es \<Longrightarrow> fold rebuild_one bs z = z"
  by (induction arbitrary: z rule: list_all2_induct)
    (auto simp: plain_events_def body_of_def rebuild_one_def rebuild_other)

lemma tracks_plain:
  "plain_events es \<Longrightarrow> rc_stop_reason c' = rc_stop_reason c \<Longrightarrow> rc_charged_flops c' = rc_charged_flops c \<Longrightarrow>
   rc_spawn_issued c \<le> rc_spawn_issued c' \<Longrightarrow> tracks es c c'"
  by (auto simp: tracks_def plain_rebuild agrees_def)

lemma tracks_trans: "tracks es a b \<Longrightarrow> tracks fs b c \<Longrightarrow> tracks (es @ fs) a c"
  by (fastforce simp: tracks_def list_all2_append2)

lemma tracks_one:
  "(\<And>z t. agrees c z \<Longrightarrow> agrees c' (rebuild_core k d t z)) \<Longrightarrow> tracks [(k, d)] c c'"
  by (auto simp: tracks_def list_all2_Cons2 body_of_def rebuild_one_def)

lemma plain_deny: "plain_events (oc_events (deny c rid code))"
  by (simp add: plain_events_def deny_def rebuilt_kinds_def)

lemma tracks_latch:
  assumes "latch r out c = (out', c')" "plain_events (oc_events out)"
  shows "tracks (oc_events out') c c'"
proof (cases "rc_state c \<in> {ARMING, RUNNING} \<and> rc_stop_reason c = None")
  case True
  have 1: "tracks (oc_events out) c c" using assms(2) by (rule tracks_plain) simp_all
  have 2: "tracks [(K_StopLatched, reason_data r)] c c'"
    using assms(1) True by (intro tracks_one) (auto simp: latch_def agrees_def rebuild_core_def reason_data_def fld_JObj)
  have "oc_events out' = oc_events out @ [(K_StopLatched, reason_data r)]"
    using assms(1) True by (auto simp: latch_def add_event_def)
  with tracks_trans [OF 1 2] show ?thesis by simp
qed (use assms in \<open>auto simp: latch_def split: if_splits intro: tracks_plain\<close>)

lemma expire_loop_plain: "expire_loop n al = (al', es) \<Longrightarrow> plain_events es"
  by (induction n al arbitrary: al' es rule: expire_loop.induct)
    (auto simp: plain_events_def rebuilt_kinds_def Let_def split: prod.splits if_splits)

lemma core_step_tracks: "core_step c es c' \<Longrightarrow> core_inv c \<Longrightarrow> tracks es c c'"
proof (induction rule: core_step.induct)
  case (step_issue ch action now tid rid c out c')
  from step_issue(1) show ?case
  proof (cases rule: token_issue_cases)
    case (issued h issued expires seq)
    then show ?thesis by (auto simp: agrees_def rebuild_core_def intro: tracks_one)
  qed (auto intro: tracks_plain tracks_latch plain_deny simp: plain_events_def)
next
  case (step_issue_raised ch action now tid rid c code c')
  then show ?case unfolding token_issue_def Let_def done_step_def
    by (auto split: if_splits sum.splits exn.splits intro!: tracks_plain plain_deny)
next
  case (step_dispatch ch token action now aid rid c out c')
  from step_dispatch(1) show ?case
    by (cases rule: dispatch_cases) (auto intro!: tracks_plain plain_deny simp: plain_events_def rebuilt_kinds_def deny_def)
next
  case (step_reserve ch work now cid rid c out c')
  from step_reserve(1) show ?case
  proof (cases rule: compute_reserve_cases)
    case (reserved charge charged)
    then show ?thesis
      by (auto simp: agrees_def rebuild_core_def reservation_data_def reservation_def fld_JObj u_of_u_str intro!: tracks_one)
  qed (auto intro: tracks_plain tracks_latch plain_deny simp: plain_events_def)
next
  case (step_compute_finish ch cid obs rid c out c')
  from compute_finish_outcome [OF step_compute_finish(1)] show ?case unfolding finish_outcome_def
    by (auto intro: tracks_plain tracks_latch plain_deny simp: plain_events_def rebuilt_kinds_def)
next
  case (step_stop reason c out c')
  obtain o1 c1 where l: "latch reason no_outcome c = (o1, c1)" by (cases "latch reason no_outcome c")
  have t: "tracks (oc_events o1) c c1" "tracks [] c c"
    using tracks_latch [OF l] by (auto intro: tracks_plain simp: plain_events_def)
  show ?case using step_stop(1) l t by (auto simp: stop_def Let_def split: if_splits)
next
  case (step_fault reason c out c')
  then show ?case
    by (auto simp: fault_def plain_events_def rebuilt_kinds_def add_event_def split: if_splits intro: tracks_plain tracks_latch)
next
  case (step_finish aid result error exit_info c out c')
  then show ?case
    by (auto simp: action_finish_def Let_def plain_events_def rebuilt_kinds_def split: option.splits if_splits intro!: tracks_plain)
next
  case (step_unknown aid code c out c')
  then show ?case
    by (auto simp: action_unknown_def plain_events_def rebuilt_kinds_def split: option.splits if_splits intro!: tracks_plain)
next
  case (step_expire now c out c')
  then show ?case
    by (auto simp: expire_tokens_def plain_events_def split: if_splits prod.splits intro!: tracks_plain dest: expire_loop_plain)
qed (auto simp: arming_def started_def sampled_def sign_record_def kill_issued_def kill_unconfirmed_def containment_empty_def finalize_def
    reject_def done_step_def plain_deny Let_def plain_events_def rebuilt_kinds_def deny_def split: option.splits if_splits sum.splits prod.splits intro!: tracks_plain)

lemma core_steps_tracks: "core_steps c es c' \<Longrightarrow> core_inv c \<Longrightarrow> tracks es c c'"
proof (induction rule: core_steps.induct)
  case (steps_refl c)
  then show ?case by (simp add: tracks_plain plain_events_def)
next
  case (steps_snoc a es b fs c)
  have "core_inv b" using core_steps_conforms [OF steps_snoc.hyps(1) steps_snoc.prems] by (simp add: conforms_def)
  then show ?case using steps_snoc by (blast intro: tracks_trans core_step_tracks)
qed

lemma core_run_tracks: "core_run r k cfg es c \<Longrightarrow> tracks es (RunCore r k cfg) c"
  unfolding core_run_def by (erule core_steps_tracks) (rule core_inv_init)

section \<open>The property\<close>

text \<open>C12: reopening restores the run. Over the journal that a run of the core wrote, \<open>_rebuild\<close> ends with the state, the stop
  reason and the charged operations of the object that wrote it, and never with more issued tokens.\<close>

theorem rebuild_restores:
  assumes "core_run r k cfg es c" "kind_of (fld b ''kind'') = Some K_RunCreated" "u_of (fld b ''seq'') = 1" "list_all2 body_of bs es"
    and "rn_core r0 = RunCore r k cfg" "rebuild_from (b # bs) r0 = (Inr (), r1)"
  shows "rc_state (rn_core r1) = rc_state c \<and> rc_stop_reason (rn_core r1) = rc_stop_reason c \<and>
    rc_charged_flops (rn_core r1) = rc_charged_flops c \<and> rc_spawn_issued (rn_core r1) \<le> rc_spawn_issued c"
proof -
  let ?z = "(RunCore r k cfg)\<lparr>rc_state := rc_state c\<rparr>"
  have st: "replay_events (b # bs) = Inr (state_json (rc_state c))" 
    using core_run_conforms(2) [OF assms(1)] replay_created [OF assms(2,3)] replay_bodies [OF assms(4)] by (simp add: replay_events_def)
  have "rn_core r1 = fold rebuild_one (b # bs) ?z"
    using assms(5,6) st
    by (auto simp: rebuild_from_def eng_eqs andthen_eq_Inr reads_def modify_def lift_r_def on_db_def rebuild_steps_core rebuild_step_core split: prod.splits)
  moreover have "rebuild_one b ?z = ?z"
    by (simp add: rebuild_one_def assms(2) rebuild_core_def)
  moreover have "agrees c (fold rebuild_one bs ?z)"
    using core_run_tracks [OF assms(1)] assms(4) by (simp add: tracks_def agrees_def)
  ultimately show ?thesis by (simp add: agrees_def)
qed

theorem rebuild_restores_witness:
  "\<exists>r0 r1 :: sim_host run. rc_state (rn_core r0) = CREATED \<and>
     rebuild_from (event_body ''RunCreated'' ''1'' JNull # map2 (\<lambda>k e. event_body k ''2'' (snd e)) [''RunArming'', ''RunStarted'', ''StopLatched''] short_events)
       r0 = (Inr (), r1) \<and> rc_state (rn_core r1) = STOPPING \<and> rc_stop_reason (rn_core r1) = Some R_OPERATOR"
proof -
  let ?b = "event_body ''RunCreated'' ''1'' JNull"
  let ?bs = "map2 (\<lambda>k e. event_body k ''2'' (snd e)) [''RunArming'', ''RunStarted'', ''StopLatched''] short_events"
  let ?r0 = "(demo_run JOURNAL_SCHEMA)\<lparr>rn_core := RunCore [] [] JNull\<rparr>"
  have seqs: "u_of (JStr (lit ''1'')) = 1" "u_of (JStr (lit ''2'')) = 2"
    by (simp_all add: u_of_def str_of_def py_int_def dec_val_def lit_def chop_newline_def)
  have kinds: "kind_of (JStr (lit ''RunCreated'')) = Some K_RunCreated" "kind_of (JStr (lit ''RunArming'')) = Some K_RunArming"
    "kind_of (JStr (lit ''RunStarted'')) = Some K_RunStarted" "kind_of (JStr (lit ''StopLatched'')) = Some K_StopLatched"
    by (simp_all add: kind_of_iff)
  have h: "kind_of (fld ?b ''kind'') = Some K_RunCreated" "u_of (fld ?b ''seq'') = 1" "list_all2 body_of ?bs short_events"
    "rn_core ?r0 = RunCore [] [] JNull"
    by (simp_all add: body_of_def short_events_def kinds seqs)
  have st: "replay_events (?b # ?bs) = Inr (state_json STOPPING)"
    using core_run_conforms(2) [OF short_run] replay_created [OF h(1,2)] replay_bodies [OF h(3)] by (simp add: replay_events_def short_core_def)
  obtain r1 where r1: "rebuild_from (?b # ?bs) ?r0 = (Inr (), r1)"
    using st by (simp add: rebuild_from_def andthen_def lift_r_def modify_def reads_def on_db_def run_row_def query_def failing_def
        idle_conn_def tbl_get_def JOURNAL_SCHEMA_def requireE_def db_view_def)
  from rebuild_restores [OF short_run h this] r1 show ?thesis
    by (intro exI [of _ ?r0] exI [of _ r1]) (simp add: short_core_def RunCore_def)
qed

section \<open>The control group of a reopened run\<close>

definition groupless :: "'w run \<Rightarrow> bool" where "groupless r \<longleftrightarrow> rn_cgroup r = None"

lemma rebuild_step_groupless: "groupless r \<Longrightarrow> groupless (rebuild_step b r)"
  by (simp add: groupless_def rebuild_step_def rebuild_meter_def Let_def split: option.split event_kind.split)

lemma rebuild_steps_groupless: "groupless r \<Longrightarrow> groupless (fold rebuild_step bs r)"
  by (induction bs arbitrary: r) (simp_all add: rebuild_step_groupless)

lemma db_groupless: "keeps groupless (on_db m)"
  by (auto simp: keeps_def groupless_def on_db_def split: prod.split)

lemma rebuild_groupless: "keeps groupless rebuild"
  unfolding rebuild_def rebuild_from_def
  by (intro flow_intros db_groupless keeps_modify rebuild_steps_groupless) (simp_all add: groupless_def)

lemma stored_run_groupless: "stored_run rid policy mm w d = (Inr r, d') \<Longrightarrow> groupless r"
  by (auto simp: stored_run_def andthen_eq_Inr reads_def ret_def lift_r_def groupless_def Run_def)

lemma open_run_groupless:
  assumes "map_of (la_runs L) rid = None" "open_run rid L = (Inr (), L')"
  shows "\<exists>r. map_of (la_runs L') rid = Some r \<and> groupless r"
proof -
  obtain j d L1 where o: "open_journal rid j L = (Inr d, L1)"
    and e: "(Inr (), L') = (case stored_run rid (la_policy L) (la_model_map L) (la_world L) d of
        (Inl e, _) \<Rightarrow> raise e
      | (Inr r, d') \<Rightarrow> (case rebuild (r\<lparr>rn_db := d'\<rparr>) of (Inl e, _) \<Rightarrow> raise e
         | (Inr _, r') \<Rightarrow> modify (\<lambda>L. L\<lparr>la_runs := AList.update rid r' (la_runs L)\<rparr>))) L1"
    using assms by (auto simp: open_run_def lift_r_def andthen_eq_Inr ret_def raise_def split: option.splits)
  obtain r d' where s: "stored_run rid (la_policy L) (la_model_map L) (la_world L) d = (Inr r, d')"
    using e by (auto simp: raise_def split: prod.splits sum.splits)
  obtain u r' where b: "rebuild (r\<lparr>rn_db := d'\<rparr>) = (Inr u, r')"
    using e s by (auto simp: raise_def split: prod.splits sum.splits)
  have "groupless (r\<lparr>rn_db := d'\<rparr>)" using stored_run_groupless [OF s] by (simp add: groupless_def)
  from keepsD [OF rebuild_groupless this b] have "groupless r'" .
  moreover have "map_of (la_runs L') rid = Some r'" using e s b by (auto simp: modify_def)
  ultimately show ?thesis by blast
qed

text \<open>The kill of a reopened run is vacuous. A run that \<open>open_run\<close> brings back has no control group, so \<open>_issue_kill\<close> makes no
  call to the host but those of its journal entry (whatever the clock and the identifier generator keep of the host, the
  processes included, it keeps), and \<open>_check_empty\<close> reports the run empty without looking.\<close>

theorem reopened_kill_is_vacuous:
  assumes "map_of (la_runs L) rid = None" "open_run rid L = (Inr (), L')" "world_kept E P"
  shows "\<exists>r. map_of (la_runs L') rid = Some r \<and> check_empty E lib r = (Inr True, r) \<and>
    (P (rn_world r) \<longrightarrow> P (rn_world (snd (issue_kill E lib r))))"
proof -
  obtain r where r: "map_of (la_runs L') rid = Some r" "rn_cgroup r = None"
    using open_run_groupless [OF assms(1,2)] by (auto simp: groupless_def)
  have "check_empty E lib r = (Inr True, r)" by (simp add: check_empty_def r(2) ret_def)
  moreover have "P (rn_world (snd (issue_kill E lib r)))" if "P (rn_world r)"
  proof -
    let ?tail = "andthen (t_us E) (\<lambda>t. andthen (on_core (total (kill_issued False False t))) (\<lambda>out.
       catch_audit (commit_events E lib (oc_events out))))"
    have k: "issue_kill E lib r = ?tail r"
      by (simp add: issue_kill_def catch_any_def handle_exn_def the_cgroup_def andthen_def r(2) raise_def reads_def ret_def)
    have "world_kept.hosted P None r" using that r(2) by (simp add: world_kept.hosted_def [OF assms(3)])
    from keeps_result [OF world_kept.hosted_record_kill [OF assms(3)] this]
    show ?thesis unfolding k by (simp add: world_kept.hosted_def [OF assms(3)])
  qed
  ultimately show ?thesis using r(1) by blast
qed

text \<open>A run whose journal is on disk but not in memory, with one live process of its group.\<close>

definition stored_journal :: "bytes \<Rightarrow> journal" where
  "stored_journal cfg = JOURNAL_SCHEMA\<lparr>jn_meta := [(lit ''config'', cfg), (lit ''key_id'', lit ''k'')]\<rparr>"

definition stored_conn :: "bytes \<Rightarrow> nat \<Rightarrow> journal conn" where
  "stored_conn cfg n = (idle_conn (stored_journal cfg))\<lparr>db_count := n\<rparr>"

lemma stored_conn_query: "query f (stored_conn cfg n) = (Inr (f (stored_journal cfg)), stored_conn cfg (Suc n))"
  by (simp add: query_def failing_def stored_conn_def idle_conn_def counted_def db_view_def)

lemma stored_conn_reads: "rn_db r = stored_conn cfg n \<Longrightarrow> on_db (query f) r = (Inr (f (stored_journal cfg)), r\<lparr>rn_db := stored_conn cfg (Suc n)\<rparr>)"
  by (simp add: on_db_def stored_conn_query)

lemma rebuild_stored: "rn_db r = stored_conn cfg n \<Longrightarrow> \<exists>r'. rebuild r = (Inr (), r')"
  by (simp add: rebuild_def rebuild_from_def events_after_def run_row_def andthen_def lift_r_def modify_def reads_def stored_conn_reads
      events_from_def by_seq_def stored_journal_def JOURNAL_SCHEMA_def replay_events_def replay_init_def tbl_get_def requireE_def)

lemma stored_run_stored:
  assumes "loads cfg = Inr v"
  shows "\<exists>r. stored_run rid policy mm w (stored_conn cfg n) = (Inr r, stored_conn cfg (n + 3))"
proof -
  have "utf8_decode (lit ''k'') = Inr (lit ''k'')" by (simp add: lit_def utf8_decode.simps)
  then show ?thesis using assms
    by (simp add: stored_run_def meta_get_def andthen_def lift_r_def ret_def stored_conn_query stored_journal_def tbl_get_def reads_def numeral_3_eq_3 lit_def)
qed

theorem reopened_kill_is_vacuous_witness:
  "\<exists>cfg r. map_of (la_runs (snd (open_run (plain_id ID_run) (demo_launcher\<lparr>la_disk := [(plain_id ID_run, Some (stored_journal cfg))]\<rparr>)))) (plain_id ID_run) = Some r \<and>
     check_empty sim_env plain_lib r = (Inr True, r)"
proof -
  have ok: "json_ok MAX_DEPTH (JObj [])" by (simp add: distinct_keys_def MAX_DEPTH_def)
  then obtain cfg v where cfg: "loads cfg = Inr v" using loads_after_dumps by blast
  let ?id = "plain_id ID_run"
  let ?L = "demo_launcher\<lparr>la_disk := [(?id, Some (stored_journal cfg))]\<rparr>"
  have new: "map_of (la_runs ?L) ?id = None" by (simp add: demo_launcher_def plain_id_def lit_def)
  have j: "open_journal ?id (stored_journal cfg) ?L = (Inr (stored_conn cfg 0), ?L\<lparr>la_opens := Suc 0\<rparr>)"
    by (simp add: open_journal_def demo_launcher_def stored_conn_def idle_conn_def)
  obtain r where r: "stored_run ?id (la_policy ?L) (la_model_map ?L) (la_world ?L) (stored_conn cfg 0) = (Inr r, stored_conn cfg 3)"
    using stored_run_stored [OF cfg, where n = 0] by (metis add_0)
  obtain r' where r': "rebuild (r\<lparr>rn_db := stored_conn cfg 3\<rparr>) = (Inr (), r')" using rebuild_stored by force
  have o: "open_run ?id ?L = (Inr (), ?L\<lparr>la_opens := Suc 0, la_runs := AList.update ?id r' (la_runs ?L)\<rparr>)"
    using new j r r' by (simp add: open_run_def andthen_def lift_r_def reads_def plain_id_checks modify_def)
  have w: "world_kept sim_env (\<lambda>_. True)" by (unfold_locales) simp_all
  obtain r where "map_of (la_runs (snd (open_run ?id ?L))) ?id = Some r" "check_empty sim_env plain_lib r = (Inr True, r)"
    using reopened_kill_is_vacuous [OF new o w] unfolding o snd_conv by blast
  then show ?thesis by blast
qed

end
