(* ===== verification/Server.thy ===== *)
theory Server imports LauncherProps EngineRequests begin

text \<open>
  Models \<open>src/lexwatt/server.py\<close>: the frame format and the loop that serves a connection. A socket is the list of what its
  \<open>recv\<close> calls will meet (\<open>arrival\<close>): pieces of bytes cut in any way, and connection errors; the end of the list is the end of
  the stream. The accept loop, the peer's user id and the threads are the operating system's.

  Results: reading does not depend on how the bytes are cut; a frame that was written is read back, and the rest of the
  stream is left; what is no complete frame reaches no handler.
\<close>

section \<open>Sockets\<close>

datatype arrival = Piece bytes | Reset

type_synonym stream = "arrival list"

text \<open>\<open>sock.recv(n)\<close>: at most \<open>n\<close> bytes of the next piece; nothing at the end of the stream.\<close>

definition recv :: "nat \<Rightarrow> (stream, bytes) act" where
  "recv n s =
    (case s of
       [] \<Rightarrow> (Inr [], [])
     | Reset # s' \<Rightarrow> (Inl (Py OS_Error), s')
     | Piece b # s' \<Rightarrow> (Inr (take n b), if length b \<le> n then s' else Piece (drop n b) # s'))"

section \<open>Frames\<close>

definition MAX_REQUEST_BYTES :: nat where "MAX_REQUEST_BYTES = 65536"
definition MAX_RESPONSE_BYTES :: nat where "MAX_RESPONSE_BYTES = 1048576"

text \<open>\<open>struct.pack(">I", n)\<close> and \<open>struct.unpack\<close>\<close>

definition pack_u32 :: "nat \<Rightarrow> bytes" where
  "pack_u32 n = [n div 16777216 mod 256, n div 65536 mod 256, n div 256 mod 256, n mod 256]"

definition unpack_u32 :: "bytes \<Rightarrow> nat" where
  "unpack_u32 b = fold (\<lambda>x acc. acc * 256 + x) b 0"

text \<open>The loop of \<open>_read_exactly\<close>; \<open>None\<close> is the clean end of the stream.\<close>

function read_loop :: "nat \<Rightarrow> bytes \<Rightarrow> stream \<Rightarrow> (exn + bytes option) \<times> stream" where
  "read_loop n buf s =
    (if length buf < n then
       (case recv (n - length buf) s of
          (Inl _, s') \<Rightarrow> (bad, s')
        | (Inr chunk, s') \<Rightarrow>
            if chunk = [] then (if buf = [] then Inr None else bad, s') else read_loop n (buf @ chunk) s')
     else (Inr (Some buf), s))"
  by pat_completeness auto
termination by (relation "measure (\<lambda>(n, buf, s). n - length buf)") (auto simp: neq_Nil_conv)

declare read_loop.simps [simp del]

definition read_exactly :: "nat \<Rightarrow> (stream, bytes option) act" where
  "read_exactly n = read_loop n []"

definition read_frame :: "nat \<Rightarrow> (stream, bytes option) act" where
  "read_frame max_bytes =
    andthen (read_exactly 4) (\<lambda>hdr. case hdr of
      None \<Rightarrow> ret None
    | Some h \<Rightarrow>
        (let declared = unpack_u32 h
         in if declared > max_bytes then raise (Lex INVALID_INPUT)
            else andthen (read_exactly declared) (\<lambda>payload. case payload of
                   None \<Rightarrow> raise (Lex INVALID_INPUT)
                 | Some p \<Rightarrow> ret (Some p))))"

text \<open>\<open>write_frame\<close>: the bytes sent.\<close>

definition write_frame :: "bytes \<Rightarrow> exn + bytes" where
  "write_frame payload =
    (if length payload > MAX_RESPONSE_BYTES then Inl (Lex OUTPUT_LIMIT) else Inr (pack_u32 (length payload) @ payload))"

section \<open>Serving a connection\<close>

text \<open>A connection: what arrives, what was sent, and whether a send fails (counted).\<close>

record connection =
  cn_in :: stream
  cn_out :: bytes
  cn_broken :: "nat \<Rightarrow> bool"
  cn_sends :: nat

definition on_stream :: "(stream, 'a) act \<Rightarrow> (connection, 'a) act" where
  "on_stream m c = (case m (cn_in c) of (x, s) \<Rightarrow> (x, c\<lparr>cn_in := s\<rparr>))"

definition sendall :: "bytes \<Rightarrow> (connection, unit) act" where
  "sendall b c =
    (if cn_broken c (cn_sends c) then (Inl (Py OS_Error), c\<lparr>cn_sends := Suc (cn_sends c)\<rparr>)
     else (Inr (), c\<lparr>cn_out := cn_out c @ b, cn_sends := Suc (cn_sends c)\<rparr>))"

definition send_frame :: "bytes \<Rightarrow> (connection, unit) act" where
  "send_frame payload = andthen (lift_r (write_frame payload)) sendall"

definition respond :: "json \<Rightarrow> (connection, unit) act" where
  "respond resp = andthen (lift_r (dumps resp)) send_frame"

text \<open>A request read from the wire: one that fails to parse or to validate closes the connection.\<close>

definition read_request :: "bytes \<Rightarrow> exn + json" where
  "read_request payload = bindE (loads payload) (\<lambda>req. bindE (check_request req) (\<lambda>_. Inr req))"

text \<open>The answer to a request: what the handler raises as a \<open>LexwattError\<close> becomes its response.\<close>

definition answer_request :: "(json \<Rightarrow> ('s, json) act) \<Rightarrow> json \<Rightarrow> ('s, json) act" where
  "answer_request h req = catch_lexwatt (h req) (\<lambda>code. ret (error_response code (str_of (fld req ''id''))))"

text \<open>\<open>_serve\<close> of both servers over a handler: how the loop ends (\<open>None\<close>: by \<open>break\<close>), with the state of the handler and
  of the connection, which is closed. Every round consumes the header of a frame.\<close>

definition stream_size :: "stream \<Rightarrow> nat" where
  "stream_size s = sum_list (map (\<lambda>a. case a of Piece b \<Rightarrow> length b + 1 | Reset \<Rightarrow> 1) s)"

lemma stream_size_simps [simp]:
  "stream_size [] = 0" "stream_size (Piece b # s) = length b + 1 + stream_size s" "stream_size (Reset # s) = 1 + stream_size s"
  by (simp_all add: stream_size_def)

lemma recv_size: "recv n s = (x, s') \<Longrightarrow> stream_size s' \<le> stream_size s"
  by (auto simp: recv_def split: list.splits arrival.splits if_splits)

lemma recv_shrinks: "recv n s = (Inr b, s') \<Longrightarrow> b \<noteq> [] \<Longrightarrow> stream_size s' < stream_size s"
  by (auto simp: recv_def split: list.splits arrival.splits if_splits)

lemma read_loop_size: "read_loop n buf s = (x, s') \<Longrightarrow> stream_size s' \<le> stream_size s"
proof (induction n buf s arbitrary: x s' rule: read_loop.induct)
  case (1 n buf s)
  show ?case
  proof (cases "length buf < n")
    case True
    obtain y s1 where r: "recv (n - length buf) s = (y, s1)" by (cases "recv (n - length buf) s")
    show ?thesis
    proof (cases y)
      case (Inl e)
      then show ?thesis using 1(2) True r recv_size [OF r] by (simp add: read_loop.simps [of n buf])
    next
      case (Inr b)
      show ?thesis
      proof (cases "b = []")
        case False
        have "read_loop n (buf @ b) s1 = (x, s')" using 1(2) True r Inr False by (simp add: read_loop.simps [of n buf])
        from 1(1) [OF True r [symmetric] Inr False this] recv_size [OF r] show ?thesis by simp
      qed (use 1(2) True r Inr recv_size [OF r] in \<open>simp add: read_loop.simps [of n buf]\<close>)
    qed
  qed (use 1(2) in \<open>simp add: read_loop.simps [of n buf]\<close>)
qed

lemma read_loop_shrinks: "read_loop n [] s = (Inr (Some b), s') \<Longrightarrow> 0 < n \<Longrightarrow> stream_size s' < stream_size s"
proof -
  assume a: "read_loop n [] s = (Inr (Some b), s')" "0 < n"
  obtain y s1 where r: "recv n s = (y, s1)" by (cases "recv n s")
  obtain c where c: "y = Inr c" "c \<noteq> []" "read_loop n c s1 = (Inr (Some b), s')"
    using a r by (cases y) (auto simp: read_loop.simps [of n "[]"] split: if_splits)
  show ?thesis using recv_shrinks [OF r [unfolded c(1)] c(2)] read_loop_size [OF c(3)] by simp
qed

lemma read_frame_shrinks: "read_frame m s = (Inr (Some p), s') \<Longrightarrow> stream_size s' < stream_size s"
proof -
  assume a: "read_frame m s = (Inr (Some p), s')"
  then obtain h s1 where h: "read_loop 4 [] s = (Inr (Some h), s1)" and q: "read_loop (unpack_u32 h) [] s1 = (Inr (Some p), s')"
    by (auto simp: read_frame_def read_exactly_def andthen_eq_Inr Let_def ret_def raise_def split: option.splits if_splits)
  show ?thesis using read_loop_shrinks [OF h] read_loop_size [OF q] by simp
qed

function serve :: "(json \<Rightarrow> ('s, json) act) \<Rightarrow> 's \<Rightarrow> connection \<Rightarrow> exn option \<times> 's \<times> connection" where
  "serve h st c =
    (case read_frame MAX_REQUEST_BYTES (cn_in c) of
       (Inl e, s') \<Rightarrow> (if exn_code e = None then Some e else None, st, c\<lparr>cn_in := s'\<rparr>)
     | (Inr None, s') \<Rightarrow> (None, st, c\<lparr>cn_in := s'\<rparr>)
     | (Inr (Some payload), s') \<Rightarrow>
         (case read_request payload of
            Inl e \<Rightarrow> (if exn_code e = None then Some e else None, st, c\<lparr>cn_in := s'\<rparr>)
          | Inr req \<Rightarrow>
              (case answer_request h req st of
                 (Inl e, st') \<Rightarrow> (Some e, st', c\<lparr>cn_in := s'\<rparr>)
               | (Inr resp, st') \<Rightarrow>
                   (case respond resp (c\<lparr>cn_in := s'\<rparr>) of
                      (Inl e, c') \<Rightarrow> (Some e, st', c')
                    | (Inr _, c') \<Rightarrow> serve h st' (c'\<lparr>cn_in := s'\<rparr>)))))"
  by pat_completeness auto
termination
proof (relation "measure (\<lambda>(h, st, c). stream_size (cn_in c))", goal_cases)
  case (2 h st c x s' y p)
  then show ?case using read_frame_shrinks [of MAX_REQUEST_BYTES "cn_in c" p s'] by simp
qed simp

declare serve.simps [simp del]

text \<open>The two servers: a control stream (its peer has user id 0) and a workload channel, both over the launcher.\<close>

definition serve_control :: "'w env \<Rightarrow> ed_lib \<Rightarrow> (nat \<Rightarrow> bytes) \<Rightarrow> (json \<Rightarrow> exn + pystr) \<Rightarrow> 'w launcher \<Rightarrow> connection
    \<Rightarrow> exn option \<times> 'w launcher \<times> connection" where
  "serve_control E lib seeds hash_file = serve (\<lambda>req. control E lib seeds hash_file req 0)"

definition serve_channel :: "'w env \<Rightarrow> ed_lib \<Rightarrow> pystr \<Rightarrow> 'w launcher \<Rightarrow> connection \<Rightarrow> exn option \<times> 'w launcher \<times> connection" where
  "serve_channel E lib ch = serve (workload E lib ch)"

section \<open>Reading does not depend on how the bytes are cut\<close>

definition flat :: "stream \<Rightarrow> bytes" where
  "flat s = concat (map (\<lambda>a. case a of Piece b \<Rightarrow> b | Reset \<Rightarrow> []) s)"

text \<open>No error arrives, and no piece is empty (\<open>recv\<close> returns nothing only at the end).\<close>

definition smooth :: "stream \<Rightarrow> bool" where
  "smooth s \<longleftrightarrow> list_all (\<lambda>a. case a of Piece b \<Rightarrow> b \<noteq> [] | Reset \<Rightarrow> False) s"

lemma flat_simps [simp]: "flat [] = []" "flat (Piece b # s) = b @ flat s"
  by (simp_all add: flat_def)

lemma smooth_simps [simp]: "smooth []" "smooth (Piece b # s) \<longleftrightarrow> b \<noteq> [] \<and> smooth s" "\<not> smooth (Reset # s)"
  by (simp_all add: smooth_def)

lemma smooth_cases:
  assumes "smooth s"
  obtains "s = []" | b s' where "s = Piece b # s'" "b \<noteq> []" "smooth s'"
  using assms by (cases s; cases "hd s") auto

lemma recv_smooth:
  assumes "smooth s" "0 < n"
  shows "\<exists>b s'. recv n s = (Inr b, s') \<and> smooth s' \<and> b @ flat s' = flat s \<and> length b \<le> n \<and> (b = [] \<longleftrightarrow> flat s = [])"
  using assms(1) by (cases rule: smooth_cases) (use assms(2) in \<open>auto simp: recv_def\<close>)

text \<open>The same on the bytes of the whole stream.\<close>

definition cut_exactly :: "nat \<Rightarrow> bytes \<Rightarrow> exn + bytes option" where
  "cut_exactly n bs = (if n \<le> length bs then Inr (Some (take n bs)) else if bs = [] then Inr None else bad)"

lemma read_loop_flat:
  assumes "smooth s" "length buf \<le> n"
  shows "\<exists>s'. read_loop n buf s = (cut_exactly n (buf @ flat s), s') \<and> smooth s' \<and> flat s' = drop (n - length buf) (flat s)"
  using assms
proof (induction n buf s rule: read_loop.induct)
  case (1 n buf s)
  show ?case
  proof (cases "length buf < n")
    case True
    then have "0 < n - length buf" by simp
    from recv_smooth [OF 1(2) this] obtain b s1 where r: "recv (n - length buf) s = (Inr b, s1)" "smooth s1" "b @ flat s1 = flat s"
      "length b \<le> n - length buf" "b = [] \<longleftrightarrow> flat s = []" by blast
    show ?thesis
    proof (cases "b = []")
      case b: True
      then have "read_loop n buf s = (if buf = [] then Inr None else bad, s1)"
        using True r by (simp add: read_loop.simps [of n buf])
      then show ?thesis using b r True by (auto simp: cut_exactly_def)
    next
      case b: False
      have "length (buf @ b) \<le> n" using r(4) True by simp
      from 1(1) [OF True r(1) [symmetric] refl b r(2) this] obtain s' where s': "read_loop n (buf @ b) s1 = (cut_exactly n (buf @ flat s), s')"
        "smooth s'" "flat s' = drop (n - (length buf + length b)) (flat s1)" using r(3) by auto
      have "drop (n - length buf) (flat s) = drop (n - (length buf + length b)) (flat s1)"
        using r(4) by (subst r(3) [symmetric]) (simp add: drop_append)
      moreover have "read_loop n buf s = read_loop n (buf @ b) s1"
        using True r b by (simp add: read_loop.simps [of n buf])
      ultimately show ?thesis using s' by auto
    qed
  next
    case False
    then show ?thesis using 1(2,3) by (auto simp: read_loop.simps [of n buf] cut_exactly_def)
  qed
qed

definition cut_frame :: "nat \<Rightarrow> bytes \<Rightarrow> exn + bytes option" where
  "cut_frame max_bytes bs =
    bindE (cut_exactly 4 bs) (\<lambda>hdr. case hdr of
      None \<Rightarrow> Inr None
    | Some h \<Rightarrow>
        if unpack_u32 h > max_bytes then bad
        else bindE (cut_exactly (unpack_u32 h) (drop 4 bs)) (\<lambda>p. case p of None \<Rightarrow> bad | Some x \<Rightarrow> Inr (Some x)))"

lemma read_frame_flat:
  assumes "smooth s"
  shows "\<exists>s'. read_frame m s = (cut_frame m (flat s), s') \<and>
    (\<forall>p. cut_frame m (flat s) = Inr (Some p) \<longrightarrow> smooth s' \<and> flat s' = drop (4 + length p) (flat s))"
proof -
  obtain s1 where h: "read_loop 4 [] s = (cut_exactly 4 (flat s), s1)" "smooth s1" "flat s1 = drop 4 (flat s)"
    using read_loop_flat [OF assms, of "[]" 4] by auto
  show ?thesis
  proof (cases "cut_exactly 4 (flat s)")
    case (Inr hdr)
    show ?thesis
    proof (cases hdr)
      case (Some x)
      let ?n = "unpack_u32 x"
      obtain s2 where q: "read_loop ?n [] s1 = (cut_exactly ?n (drop 4 (flat s)), s2)" "smooth s2" "flat s2 = drop ?n (drop 4 (flat s))"
        using read_loop_flat [OF h(2), of "[]" ?n] h(3) by auto
      have len: "cut_exactly ?n bs = Inr (Some p) \<Longrightarrow> length p = ?n" for bs p by (auto simp: cut_exactly_def split: if_splits)
      show ?thesis
        using h Inr Some q len
        by (auto simp: read_frame_def cut_frame_def read_exactly_def andthen_def ret_def raise_def add.commute split: option.split sum.split)
    qed (use h Inr in \<open>auto simp: read_frame_def cut_frame_def read_exactly_def andthen_def ret_def\<close>)
  qed (use h in \<open>auto simp: read_frame_def cut_frame_def read_exactly_def andthen_def\<close>)
qed

section \<open>Written frames are read back\<close>

lemma length_pack_u32 [simp]: "length (pack_u32 n) = 4"
  by (simp add: pack_u32_def)

lemma pack_small: "n < 256 \<Longrightarrow> pack_u32 n = [0, 0, 0, n]"
  by (simp add: pack_u32_def)

lemma unpack_pack: "n < 4294967296 \<Longrightarrow> unpack_u32 (pack_u32 n) = n"
proof -
  assume n: "n < 4294967296"
  have d: "n div 65536 = n div 256 div 256" "n div 16777216 = n div 256 div 256 div 256"
    by (simp_all add: div_mult2_eq [symmetric])
  have "n div 256 div 256 div 256 < 256" using n by (simp add: div_mult2_eq [symmetric] less_mult_imp_div_less)
  then show ?thesis by (simp add: unpack_u32_def pack_u32_def d)
qed

lemma cut_framed: "length p \<le> m \<Longrightarrow> m < 4294967296 \<Longrightarrow> cut_frame m (pack_u32 (length p) @ p @ rest) = Inr (Some p)"
proof -
  assume a: "length p \<le> m" "m < 4294967296"
  have "cut_exactly 4 (pack_u32 (length p) @ p @ rest) = Inr (Some (pack_u32 (length p)))"
    by (simp add: cut_exactly_def)
  then show ?thesis using a by (simp add: cut_frame_def unpack_pack cut_exactly_def)
qed

text \<open>A frame that was written is read back, however the bytes are cut, and the bytes after it are left.\<close>

lemma read_back:
  assumes "write_frame p = Inr b" "smooth s" "flat s = b @ rest" "length p \<le> m" "m \<le> MAX_RESPONSE_BYTES"
  shows "\<exists>s'. read_frame m s = (Inr (Some p), s') \<and> smooth s' \<and> flat s' = rest"
proof -
  have b: "b = pack_u32 (length p) @ p" using assms(1) by (auto simp: write_frame_def split: if_splits)
  have "cut_frame m (flat s) = Inr (Some p)" using cut_framed [of p m rest] assms(3-5) b by (simp add: MAX_RESPONSE_BYTES_def)
  moreover have "drop (4 + length p) (flat s) = rest" by (simp add: assms(3) b drop_append)
  ultimately show ?thesis using read_frame_flat [OF assms(2), of m] by auto
qed

section \<open>A connection is served as its bytes say\<close>

text \<open>What the loop does, on the bytes of the whole stream: the payloads of the frames, in order, up to the first that fails.\<close>

lemma serve_smooth:
  assumes "smooth (cn_in c)"
  obtains s' where "read_frame MAX_REQUEST_BYTES (cn_in c) = (cut_frame MAX_REQUEST_BYTES (flat (cn_in c)), s')"
    and "\<And>p. cut_frame MAX_REQUEST_BYTES (flat (cn_in c)) = Inr (Some p) \<Longrightarrow> smooth s' \<and> flat s' = drop (4 + length p) (flat (cn_in c))"
  using read_frame_flat [OF assms, of MAX_REQUEST_BYTES] by blast

text \<open>Sending looks only at what a connection has sent.\<close>

definition sends_alike :: "connection \<Rightarrow> connection \<Rightarrow> bool" where
  "sends_alike c d \<longleftrightarrow> cn_out c = cn_out d \<and> cn_broken c = cn_broken d \<and> cn_sends c = cn_sends d"

lemma respond_alike:
  assumes "sends_alike c d"
  shows "fst (respond r c) = fst (respond r d) \<and> sends_alike (snd (respond r c)) (snd (respond r d))"
  using assms by (auto simp: respond_def send_frame_def sendall_def sends_alike_def andthen_def lift_r_def split: sum.split)

lemma serve_alike:
  assumes "smooth (cn_in c)" "smooth (cn_in d)" "flat (cn_in c) = flat (cn_in d)" "sends_alike c d"
  shows "fst (serve h st c) = fst (serve h st d) \<and> fst (snd (serve h st c)) = fst (snd (serve h st d))
    \<and> sends_alike (snd (snd (serve h st c))) (snd (snd (serve h st d)))"
  using assms
proof (induction h st c arbitrary: d rule: serve.induct)
  case (1 h st c)
  let ?f = "cut_frame MAX_REQUEST_BYTES (flat (cn_in d))"
  have al: "sends_alike (c\<lparr>cn_in := s\<rparr>) (d\<lparr>cn_in := s'\<rparr>)" for s s' using 1(5) by (simp add: sends_alike_def)
  obtain s1 where s1: "read_frame MAX_REQUEST_BYTES (cn_in c) = (?f, s1)" "\<And>p. ?f = Inr (Some p) \<Longrightarrow> smooth s1 \<and> flat s1 = drop (4 + length p) (flat (cn_in d))"
    using serve_smooth [OF 1(2)] 1(4) by metis
  obtain s2 where s2: "read_frame MAX_REQUEST_BYTES (cn_in d) = (?f, s2)" "\<And>p. ?f = Inr (Some p) \<Longrightarrow> smooth s2 \<and> flat s2 = drop (4 + length p) (flat (cn_in d))"
    using serve_smooth [OF 1(3)] by metis
  note unroll = serve.simps [of h st c] serve.simps [of h st d]
  show ?case
  proof (cases "\<exists>p req resp st'. ?f = Inr (Some p) \<and> read_request p = Inr req \<and> answer_request h req st = (Inr resp, st')")
    case False
    then show ?thesis using al s1(1) s2(1) by (auto simp: unroll split: sum.split option.split prod.split)
  next
    case True
    then obtain p req resp st' where t: "?f = Inr (Some p)" "read_request p = Inr req" "answer_request h req st = (Inr resp, st')" by blast
    obtain x c' where c': "respond resp (c\<lparr>cn_in := s1\<rparr>) = (x, c')" by (cases "respond resp (c\<lparr>cn_in := s1\<rparr>)")
    obtain d' where d': "respond resp (d\<lparr>cn_in := s2\<rparr>) = (x, d')" "sends_alike c' d'"
      using respond_alike [OF al, of resp s1 s2] c' by (cases "respond resp (d\<lparr>cn_in := s2\<rparr>)") auto
    show ?thesis
    proof (cases x)
      case (Inl e)
      then show ?thesis using s1(1) s2(1) t c' d' by (simp add: unroll)
    next
      case (Inr u)
      have "sends_alike (c'\<lparr>cn_in := s1\<rparr>) (d'\<lparr>cn_in := s2\<rparr>)" using d'(2) by (simp add: sends_alike_def)
      note ih = 1(1) [OF s1(1) [symmetric] t(1) refl t(2) t(3) [symmetric] refl c' [symmetric] Inr, of "d'\<lparr>cn_in := s2\<rparr>"]
      show ?thesis using ih s1 s2 t c' d' Inr by (simp add: unroll sends_alike_def)
    qed
  qed
qed

section \<open>Requests are answered in order\<close>

text \<open>The conversation without a socket: every payload is a request, is answered, and the answer fits a frame; the frames sent and
  the state of the handler at the end.\<close>

fun exchange :: "(json \<Rightarrow> ('s, json) act) \<Rightarrow> 's \<Rightarrow> bytes list \<Rightarrow> (bytes \<times> 's) option" where
  "exchange h st [] = Some ([], st)"
| "exchange h st (p # ps) =
    (case read_request p of
       Inl _ \<Rightarrow> None
     | Inr req \<Rightarrow>
         (case answer_request h req st of
            (Inl _, _) \<Rightarrow> None
          | (Inr resp, st') \<Rightarrow>
              (case bindE (dumps resp) write_frame of
                 Inl _ \<Rightarrow> None
               | Inr b \<Rightarrow> map_option (\<lambda>(out, s). (b @ out, s)) (exchange h st' ps))))"

definition framed :: "bytes \<Rightarrow> bytes" where "framed p = pack_u32 (length p) @ p"

lemma serve_exchange:
  assumes "smooth (cn_in c)" "flat (cn_in c) = concat (map framed ps)" "list_all (\<lambda>p. length p \<le> MAX_REQUEST_BYTES) ps"
    and "\<And>n. \<not> cn_broken c n" "exchange h st ps = Some (out, st')"
  shows "\<exists>c'. serve h st c = (None, st', c') \<and> cn_out c' = cn_out c @ out"
  using assms
proof (induction ps arbitrary: c st out)
  case Nil
  obtain s' where "read_frame MAX_REQUEST_BYTES (cn_in c) = (cut_frame MAX_REQUEST_BYTES [], s')" using serve_smooth [OF Nil(1)] Nil(2) by auto
  then have "serve h st c = (None, st, c\<lparr>cn_in := s'\<rparr>)" by (simp add: serve.simps [of h st c] cut_frame_def cut_exactly_def bindE_def)
  then show ?case using Nil(5) by auto
next
  case (Cons p ps)
  have fl: "flat (cn_in c) = pack_u32 (length p) @ p @ concat (map framed ps)" using Cons.prems(2) by (simp add: framed_def [of p])
  have cut: "cut_frame MAX_REQUEST_BYTES (flat (cn_in c)) = Inr (Some p)"
    using Cons.prems(3) unfolding fl by (intro cut_framed) (simp_all add: MAX_REQUEST_BYTES_def)
  obtain s' where s': "read_frame MAX_REQUEST_BYTES (cn_in c) = (Inr (Some p), s')" "smooth s'" "flat s' = concat (map framed ps)"
    using serve_smooth [OF Cons.prems(1)] cut fl by (auto simp: drop_append)
  obtain req resp st1 r b out' where e: "read_request p = Inr req" "answer_request h req st = (Inr resp, st1)"
    "dumps resp = Inr r" "write_frame r = Inr b" "exchange h st1 ps = Some (out', st')" "out = b @ out'"
    using Cons.prems(5) by (auto simp: bindE_def split: sum.splits prod.splits)
  obtain d where d: "respond resp (c\<lparr>cn_in := s'\<rparr>) = (Inr (), d)" "cn_out d = cn_out c @ b" "cn_broken d = cn_broken c"
    using e(3,4) Cons.prems(4) by (simp add: respond_def send_frame_def sendall_def andthen_def lift_r_def)
  have "serve h st c = serve h st1 (d\<lparr>cn_in := s'\<rparr>)" using s'(1) e(1,2) d(1) by (simp add: serve.simps [of h st c])
  moreover have "\<exists>c'. serve h st1 (d\<lparr>cn_in := s'\<rparr>) = (None, st', c') \<and> cn_out c' = cn_out (d\<lparr>cn_in := s'\<rparr>) @ out'"
    by (rule Cons.IH) (use s'(2,3) e(5) d Cons.prems(3,4) in simp_all)
  ultimately show ?case using e(6) d(2) by auto
qed

text \<open>How a stream is cut into pieces does not matter: two connections with the same bytes to read and the same past of
  sends end the same way, leave the handler in the same state, and send the same bytes.\<close>

theorem serving_ignores_cuts:
  assumes "smooth (cn_in c)" "smooth (cn_in d)" "flat (cn_in c) = flat (cn_in d)" "sends_alike c d"
    and "serve h st c = (e, st', c')" "serve h st d = (e', st'', d')"
  shows "e = e' \<and> st' = st'' \<and> sends_alike c' d'"
  using serve_alike [OF assms(1-4), of h st] assms(5,6) by simp

definition plain_conn :: "stream \<Rightarrow> connection" where
  "plain_conn s = \<lparr>cn_in = s, cn_out = [], cn_broken = (\<lambda>_. False), cn_sends = 0\<rparr>"

definition stop_bytes :: bytes where
  "stop_bytes = lit ''{\"id\":\"lwq_aaaaaaaaaaaaaaaaaaaaa\",\"method\":\"run.stop\",\"params\":{\"run_id\":\"lwr_aaaaaaaaaaaaaaaaaaaaa\"},\"v\":1}''"

text \<open>A handler that counts its calls.\<close>

definition counting :: "json \<Rightarrow> (nat, json) act" where
  "counting req n = (Inr (JArr [JInt (int n), fld req ''method'']), Suc n)"


lemma plain_escape: "list_all (\<lambda>c. 32 \<le> c \<and> c < 127 \<and> c \<noteq> 34 \<and> c \<noteq> 92) s \<Longrightarrow> mapE escape_char s = Inr (map (\<lambda>c. [c]) s)"
  by (induction s) (auto simp: escape_char_def is_surrogate_def bindE_def)

lemma plain_string: "list_all (\<lambda>c. 32 \<le> c \<and> c < 127 \<and> c \<noteq> 34 \<and> c \<noteq> 92) s \<Longrightarrow> escape_string s = Inr (34 # s @ [34])"
  by (simp add: escape_string_def plain_escape bindE_def comp_def)

lemma stop_sorted: "canon stop_req = JObj [(lit ''id'', JStr (plain_id ID_request)), (lit ''method'', JStr (method_name M_run_stop)),
  (lit ''params'', JObj [(lit ''run_id'', JStr (plain_id ID_run))]), (lit ''v'', JInt 1)]"
  by (simp add: stop_req_def sorted_items_def utf16_key_def utf16_units_def lit_def)

lemma stop_json: "json_ok MAX_DEPTH stop_req"
  by (simp add: stop_req_def MAX_DEPTH_def distinct_keys_def lit_scalar plain_id_scalar MAX_JSON_INT_def)

lemma stop_written: "dumps_bytes stop_req = stop_bytes"
proof -
  have as: "replicate 21 (97 :: nat) = lit ''aaaaaaaaaaaaaaaaaaaaa''" by (simp add: lit_def numeral_eq_Suc)
  have "write_json stop_req = Inr stop_bytes"
    by (simp add: stop_req_def sorted_items_def utf16_key_def utf16_units_def lit_def plain_string bindE_def plain_id_def
      py_str_int_def dec_str_less_10 INT_MAX_STR_DIGITS_def Let_def as stop_bytes_def)
  moreover have "utf8_encode stop_bytes = Inr stop_bytes"
    by (simp add: utf8_encode_def stop_bytes_def lit_def is_surrogate_def)
  ultimately show ?thesis using dumps_bytes_ok [OF stop_json] by (simp add: dumps_def bindE_def)
qed

lemma stop_bytes_read: "read_request stop_bytes = Inr (canon stop_req)"
proof -
  have "check_request (canon stop_req) = Inr ()"
    by (simp add: stop_sorted check_request_def shape_defs check_version_def id_of_def plain_id_checks enum_def is_obj_def all_methods_def METHODS_def)
  then show ?thesis using loads_dumps [OF stop_json] by (simp add: read_request_def stop_written bindE_def)
qed

definition cut_one_way :: stream where
  "cut_one_way = [Piece (framed stop_bytes @ [0, 0]), Piece (drop 2 (framed stop_bytes))]"

definition cut_another_way :: stream where
  "cut_another_way = [Piece (take 3 (framed stop_bytes)), Piece (drop 3 (framed stop_bytes) @ framed stop_bytes)]"

lemma length_stop: "length stop_bytes = 108"
  by (simp add: stop_bytes_def lit_def)

lemma framed_stop: "framed stop_bytes = [0, 0, 0, 108] @ stop_bytes" "stop_bytes \<noteq> []"
  using length_stop by (auto simp: framed_def pack_small)

lemma cuts_smooth: "smooth cut_one_way" "smooth cut_another_way"
  by (simp_all add: cut_one_way_def cut_another_way_def framed_stop)

lemma cuts_flat: "flat cut_one_way = concat (map framed [stop_bytes, stop_bytes])" "flat cut_another_way = concat (map framed [stop_bytes, stop_bytes])"
  by (simp_all add: cut_one_way_def cut_another_way_def framed_stop numeral_eq_Suc)

theorem serving_ignores_cuts_witness:
  "fst (serve counting 0 (plain_conn cut_one_way)) = fst (serve counting 0 (plain_conn cut_another_way)) \<and>
   fst (snd (serve counting 0 (plain_conn cut_one_way))) = fst (snd (serve counting 0 (plain_conn cut_another_way))) \<and>
   sends_alike (snd (snd (serve counting 0 (plain_conn cut_one_way)))) (snd (snd (serve counting 0 (plain_conn cut_another_way))))"
  by (rule serving_ignores_cuts [where c = "plain_conn cut_one_way" and d = "plain_conn cut_another_way" and h = counting and st = 0])
    (simp_all add: plain_conn_def cuts_smooth cuts_flat sends_alike_def)

text \<open>C25: requests are answered one by one and in order: if the bytes of a connection are the frames of payloads which the
  handler, asked in that order, all answers with responses that fit a frame, then the loop sends exactly these responses in
  that order, leaves the handler in the state after the last, and ends at the end of the stream.\<close>

theorem answers_in_order:
  assumes "smooth (cn_in c)" "flat (cn_in c) = concat (map framed ps)" "list_all (\<lambda>p. length p \<le> MAX_REQUEST_BYTES) ps"
    and "\<And>n. \<not> cn_broken c n" "exchange h st ps = Some (out, st')"
  shows "\<exists>c'. serve h st c = (None, st', c') \<and> cn_out c' = cn_out c @ out"
  using assms by (rule serve_exchange)

definition counted_reply :: "nat \<Rightarrow> bytes" where
  "counted_reply n = [0, 0, 0, 14] @ lit ''['' @ dec_str n @ lit '',\"run.stop\"]''"

lemma counting_replies:
  assumes "n < 10"
  shows "bindE (dumps (JArr [JInt (int n), JStr (lit ''run.stop'')])) write_frame = Inr (counted_reply n)"
proof -
  have d: "dec_str n = [48 + n]" using assms by (simp add: dec_str_less_10)
  have "dumps (JArr [JInt (int n), JStr (lit ''run.stop'')]) = Inr (lit ''['' @ dec_str n @ lit '',\"run.stop\"]'')"
    using assms by (simp add: dumps_def bindE_def py_str_int_def INT_MAX_STR_DIGITS_def Let_def d plain_string lit_def utf8_encode_def is_surrogate_def)
  then show ?thesis using d by (simp add: bindE_def write_frame_def MAX_RESPONSE_BYTES_def pack_small counted_reply_def lit_def)
qed

lemma counting_exchange: "exchange counting 0 [stop_bytes, stop_bytes] = Some (counted_reply 0 @ counted_reply 1, 2)"
proof -
  have f: "fld (canon stop_req) ''method'' = JStr (lit ''run.stop'')" by (simp add: stop_sorted shape_defs)
  have a: "answer_request counting (canon stop_req) n = (Inr (JArr [JInt (int n), JStr (lit ''run.stop'')]), Suc n)" for n
    by (simp add: answer_request_def catch_lexwatt_def handle_exn_def counting_def f)
  show ?thesis using counting_replies [of 0] counting_replies [of 1] by (simp add: stop_bytes_read a)
qed

theorem answers_in_order_witness:
  "\<exists>c'. serve counting 0 (plain_conn cut_one_way) = (None, 2, c') \<and> cn_out c' = cn_out (plain_conn cut_one_way) @ counted_reply 0 @ counted_reply 1"
  by (rule answers_in_order [OF _ _ _ _ counting_exchange])
    (simp_all add: plain_conn_def cuts_smooth cuts_flat length_stop MAX_REQUEST_BYTES_def)

section \<open>The bytes of a channel and the journals\<close>

lemma served_requests:
  "serve h st c = (e, st', c') \<Longrightarrow> \<exists>reqs. st' = fold (\<lambda>req s. snd (answer_request h req s)) reqs st"
proof (induction h st c arbitrary: e st' c' rule: serve.induct)
  case (1 h st c)
  note unroll = serve.simps [of h st c]
  let ?after = "\<lambda>reqs s. fold (\<lambda>req s. snd (answer_request h req s)) reqs s"
  have none: "\<exists>reqs. s = ?after reqs s" for s by (rule exI [of _ "[]"]) simp
  have one: "answer_request h req st = (x, s) \<Longrightarrow> \<exists>reqs. s = ?after reqs st" for req x s by (rule exI [of _ "[req]"]) simp
  show ?case
  proof (cases "\<exists>p s' req resp st1 u c1. read_frame MAX_REQUEST_BYTES (cn_in c) = (Inr (Some p), s') \<and> read_request p = Inr req \<and>
      answer_request h req st = (Inr resp, st1) \<and> respond resp (c\<lparr>cn_in := s'\<rparr>) = (Inr u, c1)")
    case False
    then show ?thesis using 1(2) none one by (force simp: unroll split: sum.splits option.splits prod.splits)
  next
    case True
    then obtain p s' req resp st1 u c1 where t: "read_frame MAX_REQUEST_BYTES (cn_in c) = (Inr (Some p), s')" "read_request p = Inr req"
      "answer_request h req st = (Inr resp, st1)" "respond resp (c\<lparr>cn_in := s'\<rparr>) = (Inr u, c1)" by blast
    have "serve h st1 (c1\<lparr>cn_in := s'\<rparr>) = (e, st', c')" using 1(2) t by (simp add: unroll)
    from 1(1) [OF t(1) [symmetric] refl refl t(2) t(3) [symmetric] refl t(4) [symmetric] refl this] obtain reqs where "st' = ?after reqs st1" by blast
    then have "st' = ?after (req # reqs) st" using t(3) by simp
    then show ?thesis by blast
  qed
qed

lemma asked: "snd (answer_request h req s) = snd (h req s)"
  by (cases "h req s") (auto simp: answer_request_def catch_lexwatt_def handle_exn_def ret_def raise_def split: sum.split option.split)

lemma served_operate:
  assumes "serve_channel E lib ch L c = (e, L', c') \<or> serve_control E lib seeds hash_file L c = (e, L', c')"
  obtains ops where "L' = operate E lib seeds hash_file ops L"
proof -
  have w: "fold (\<lambda>req s. snd (answer_request (workload E lib ch) req s)) reqs L = operate E lib seeds hash_file (map (L_workload ch) reqs) L" for reqs L
    by (induction reqs arbitrary: L) (simp_all add: operate_def asked)
  have k: "fold (\<lambda>req s. snd (answer_request (\<lambda>req. control E lib seeds hash_file req 0) req s)) reqs L =
      operate E lib seeds hash_file (map (\<lambda>req. L_control req 0) reqs) L" for reqs L
    by (induction reqs arbitrary: L) (simp_all add: operate_def asked)
  from assms show thesis
  proof
    assume "serve_channel E lib ch L c = (e, L', c')"
    from served_requests [OF this [unfolded serve_channel_def]] show thesis using that by (auto simp: w)
  next
    assume "serve_control E lib seeds hash_file L c = (e, L', c')"
    from served_requests [OF this [unfolded serve_control_def]] show thesis using that by (auto simp: k)
  qed
qed

text \<open>No bytes on a socket damage a journal: after a workload channel or a control stream has been served, whatever arrived
  and however it ended, every run in memory has its old journal followed by sealed, linked entries of the same run.\<close>

theorem socket_bytes_keep_journals:
  assumes "quiet_env E now" "homed L" "map_of (la_runs L) rid = Some r" "settled now lib es (r\<lparr>rn_world := la_world L\<rparr>)"
    and "serve_channel E lib ch L c = (e, L', c') \<or> serve_control E lib seeds hash_file L c = (e, L', c')"
  shows "\<exists>r' new. map_of (la_runs L') rid = Some r' \<and> settled now lib (es @ new) (r'\<lparr>rn_world := la_world L'\<rparr>)"
  using served_operate [OF assms(5)] quiet_env.operate_settles [OF assms(1-4)] by metis

theorem socket_bytes_keep_journals_witness:
  "\<exists>r' new. map_of (la_runs (fst (snd (serve_channel sim_env plain_lib (lit ''c'') demo_launcher (plain_conn cut_one_way))))) (lit ''r'') = Some r' \<and>
     settled sm_now_us plain_lib ([] @ new)
       (r'\<lparr>rn_world := la_world (fst (snd (serve_channel sim_env plain_lib (lit ''c'') demo_launcher (plain_conn cut_one_way))))\<rparr>)"
  by (rule socket_bytes_keep_journals [OF sim_quiet.quiet_env_axioms, where L = demo_launcher and r = "demo_run JOURNAL_SCHEMA"
        and ch = "lit ''c''" and c = "plain_conn cut_one_way" and e = "fst (serve_channel sim_env plain_lib (lit ''c'') demo_launcher (plain_conn cut_one_way))"
        and c' = "snd (snd (serve_channel sim_env plain_lib (lit ''c'') demo_launcher (plain_conn cut_one_way)))"])
    (simp_all add: demo_launcher_def homed_def dirs_def fresh_settled JOURNAL_SCHEMA_def)

end
