(* ===== verification/Sdk.thy ===== *)
theory Sdk imports Server begin

text \<open>
  Models \<open>src/lexwatt/sdk.py\<close>: \<open>Client.request\<close> over the sockets of \<open>Server\<close>. The waiting between attempts is not modelled.

  Results: every attempt sends the same frame, and there are at most \<open>retries\<close> of them; a request to the server's loop has the outcome
  of calling the handler directly, again as long as it says \<open>BUSY\<close>, whether the last answer is a response or an error. The response that
  is read first is returned whatever its id.
\<close>

section \<open>Client.request\<close>

text \<open>The code of the \<open>LexwattError\<close> made of an error reply, or \<open>None\<close> for a reply that is no error.\<close>

definition reply_code :: "json \<Rightarrow> exn + code option" where
  "reply_code resp =
    (case resp of
       JObj d \<Rightarrow>
         (if dict_get d (lit ''ok'') = JBool False then
            bindE (subscript resp ''error'') (\<lambda>err. bindE (subscript err ''code'') (\<lambda>c.
              case find (\<lambda>x. JStr (code_name x) = c) CODES of Some x \<Rightarrow> Inr (Some x) | None \<Rightarrow> Inl (Py Value_Error)))
          else Inr None)
     | _ \<Rightarrow> Inl (Py Attribute_Error))"

text \<open>One attempt: the frame out, a frame in.\<close>

definition attempt :: "bytes \<Rightarrow> (connection, json) act" where
  "attempt payload =
    andthen (send_frame payload) (\<lambda>_.
    andthen (on_stream (read_frame MAX_RESPONSE_BYTES)) (\<lambda>raw. case raw of
       None \<Rightarrow> raise (Lex INVALID_INPUT)
     | Some b \<Rightarrow> lift_r (loads b)))"

fun request_loop :: "bytes \<Rightarrow> nat \<Rightarrow> exn option \<Rightarrow> (connection, json) act" where
  "request_loop payload 0 last_err c = raise (case last_err of Some e \<Rightarrow> e | None \<Rightarrow> Lex INVALID_INPUT) c"
| "request_loop payload (Suc k) last_err c =
    (case attempt payload c of
       (Inl e, c') \<Rightarrow> (if exn_code e = None then (Inl e, c') else request_loop payload k (Some e) c')
     | (Inr resp, c') \<Rightarrow>
         (case reply_code resp of
            Inl e \<Rightarrow> (Inl e, c')
          | Inr None \<Rightarrow> (Inr resp, c')
          | Inr (Some code) \<Rightarrow>
              if code = BUSY then request_loop payload k (Some (Lex code)) c' else (Inl (Lex code), c')))"

definition request_object :: "pystr \<Rightarrow> pystr \<Rightarrow> dict \<Rightarrow> json" where
  "request_object rid meth params =
    JObj [(lit ''v'', JInt 1), (lit ''id'', JStr rid), (lit ''method'', JStr meth), (lit ''params'', JObj params)]"

text \<open>\<open>new_id\<close> is what \<open>self.ids.new("request")\<close> returns.\<close>

definition named :: "exn + pystr \<Rightarrow> pystr option \<Rightarrow> exn + pystr" where
  "named new_id request_id = (case request_id of Some r \<Rightarrow> if r = [] then new_id else Inr r | None \<Rightarrow> new_id)"

definition client_request :: "exn + pystr \<Rightarrow> pystr \<Rightarrow> dict \<Rightarrow> pystr option \<Rightarrow> nat \<Rightarrow> (connection, json) act" where
  "client_request new_id meth params request_id retries =
    andthen (lift_r (named new_id request_id)) (\<lambda>rid.
    andthen (lift_r (dumps (request_object rid meth params))) (\<lambda>payload.
      request_loop payload retries None))"

section \<open>One frame per attempt\<close>

lemma attempt_sends:
  assumes "attempt p c = (x, c')"
  shows "\<exists>n. n \<le> 1 \<and> cn_out c' = cn_out c @ concat (replicate n (framed p))"
proof -
  have none: "cn_out c' = cn_out c \<Longrightarrow> ?thesis" by (rule exI [of _ 0]) simp
  have one: "cn_out c' = cn_out c @ framed p \<Longrightarrow> ?thesis" by (rule exI [of _ 1]) simp
  have "cn_out c' = cn_out c \<or> cn_out c' = cn_out c @ framed p"
    using assms by (auto simp: attempt_def send_frame_def sendall_def write_frame_def on_stream_def andthen_def lift_r_def raise_def framed_def
      split: sum.splits option.splits prod.splits if_splits)
  then show ?thesis using none one by blast
qed

lemma request_loop_sends:
  "request_loop p k last_err c = (x, c') \<Longrightarrow> \<exists>n\<le>k. cn_out c' = cn_out c @ concat (replicate n (framed p))"
proof (induction k arbitrary: last_err c)
  case 0
  then show ?case by (simp add: raise_def)
next
  case (Suc k)
  obtain y c1 where a: "attempt p c = (y, c1)" by (cases "attempt p c")
  obtain n where n: "n \<le> 1" "cn_out c1 = cn_out c @ concat (replicate n (framed p))" using attempt_sends [OF a] by blast
  have "c' = c1 \<or> (\<exists>l. request_loop p k l c1 = (x, c'))"
    using Suc.prems a by (auto split: sum.splits option.splits if_splits)
  then show ?case
  proof
    assume "c' = c1"
    then show ?thesis using n by (intro exI [of _ n]) simp
  next
    assume "\<exists>l. request_loop p k l c1 = (x, c')"
    then obtain m where "m \<le> k" "cn_out c' = cn_out c1 @ concat (replicate m (framed p))" using Suc.IH by blast
    then show ?thesis using n by (intro exI [of _ "n + m"]) (simp add: replicate_add)
  qed
qed

text \<open>C28: a logical call keeps its request: whatever the other side answers and whichever attempts fail, all that the client
  sends is one frame, that of the request under its one id, at most \<open>retries\<close> times. (A send that fails is taken to have sent nothing.)\<close>

theorem retries_repeat_one_frame:
  assumes "client_request new_id meth params request_id retries c = (x, c')"
  shows "\<exists>rid p n. n \<le> retries \<and> cn_out c' = cn_out c @ concat (replicate n (framed p)) \<and>
    (n = 0 \<or> named new_id request_id = Inr rid \<and> dumps (request_object rid meth params) = Inr p)"
proof (cases "named new_id request_id")
  case (Inl e)
  then show ?thesis using assms by (auto simp: client_request_def andthen_def lift_r_def)
next
  case (Inr rid)
  show ?thesis
  proof (cases "dumps (request_object rid meth params)")
    case (Inl e)
    then show ?thesis using assms Inr by (auto simp: client_request_def andthen_def lift_r_def)
  next
    case d: (Inr p)
    then have "request_loop p retries None c = (x, c')" using assms Inr by (simp add: client_request_def andthen_def lift_r_def)
    then show ?thesis using request_loop_sends Inr d by blast
  qed
qed

text \<open>A connection whose other side has hung up, and a request to it.\<close>

definition stop_params :: dict where "stop_params = [(lit ''run_id'', JStr (plain_id ID_run))]"

lemma stop_object: "request_object (plain_id ID_request) (method_name M_run_stop) stop_params = stop_req"
  by (simp add: request_object_def stop_params_def stop_req_def)

theorem retries_repeat_one_frame_witness:
  "\<exists>rid p n. n \<le> 3 \<and>
    cn_out (snd (client_request (Inr (plain_id ID_request)) (method_name M_run_stop) stop_params None 3 (plain_conn []))) =
      cn_out (plain_conn []) @ concat (replicate n (framed p)) \<and>
    (n = 0 \<or> named (Inr (plain_id ID_request)) None = Inr rid \<and> dumps (request_object rid (method_name M_run_stop) stop_params) = Inr p)"
  by (rule retries_repeat_one_frame [where x = "fst (client_request (Inr (plain_id ID_request)) (method_name M_run_stop) stop_params None 3 (plain_conn []))"])
    simp

section \<open>A call over the wire\<close>

lemma framed_small: "length p \<le> MAX_RESPONSE_BYTES \<Longrightarrow> write_frame p = Inr (framed p)"
  by (simp add: write_frame_def framed_def)

text \<open>One attempt against the reply that is next on the stream.\<close>

lemma attempt_replied:
  assumes "smooth (cn_in c)" "flat (cn_in c) = framed (dumps_bytes resp) @ rest" "\<not> cn_broken c (cn_sends c)"
    and "json_ok MAX_DEPTH resp" "length (dumps_bytes resp) \<le> MAX_RESPONSE_BYTES" "length p \<le> MAX_RESPONSE_BYTES"
  shows "\<exists>c'. attempt p c = (Inr (canon resp), c') \<and> cn_out c' = cn_out c @ framed p \<and> smooth (cn_in c') \<and> flat (cn_in c') = rest \<and>
    cn_broken c' = cn_broken c"
proof -
  obtain s' where s': "read_frame MAX_RESPONSE_BYTES (cn_in c) = (Inr (Some (dumps_bytes resp)), s')" "smooth s'" "flat s' = rest"
    using read_back [OF framed_small [OF assms(5)] assms(1,2,5)] by auto
  then show ?thesis
    using assms(3) loads_dumps [OF assms(4)] framed_small [OF assms(6)]
    by (simp add: attempt_def send_frame_def sendall_def on_stream_def andthen_def lift_r_def)
qed

lemma attempt_sent:
  assumes "attempt p c = (x, c')" "\<not> cn_broken c (cn_sends c)" "length p \<le> MAX_RESPONSE_BYTES"
  shows "cn_out c' = cn_out c @ framed p"
  using assms framed_small [OF assms(3)]
  by (auto simp: attempt_def send_frame_def sendall_def on_stream_def andthen_def lift_r_def raise_def split: sum.splits option.splits prod.splits)

lemma request_loop_extends: "request_loop p k l c = (x, c') \<Longrightarrow> \<exists>more. cn_out c' = cn_out c @ more"
  using request_loop_sends by blast

text \<open>One round of the server's loop, its end, and what it adds to the bytes sent.\<close>

lemma serve_one:
  assumes "smooth (cn_in s)" "flat (cn_in s) = framed p @ rest" "length p \<le> MAX_REQUEST_BYTES" "read_request p = Inr req"
    and "answer_request h req st = (Inr resp, st')" "json_ok MAX_DEPTH resp" "length (dumps_bytes resp) \<le> MAX_RESPONSE_BYTES" "\<not> cn_broken s (cn_sends s)"
  shows "\<exists>s2. serve h st s = serve h st' s2 \<and> cn_out s2 = cn_out s @ framed (dumps_bytes resp) \<and> smooth (cn_in s2) \<and> flat (cn_in s2) = rest \<and>
    cn_broken s2 = cn_broken s"
proof -
  have "length p \<le> MAX_RESPONSE_BYTES" using assms(3) by (simp add: MAX_REQUEST_BYTES_def MAX_RESPONSE_BYTES_def)
  then obtain s' where s': "read_frame MAX_REQUEST_BYTES (cn_in s) = (Inr (Some p), s')" "smooth s'" "flat s' = rest"
    using read_back [OF framed_small assms(1,2,3)] by (auto simp: MAX_REQUEST_BYTES_def MAX_RESPONSE_BYTES_def)
  obtain d where d: "respond resp (s\<lparr>cn_in := s'\<rparr>) = (Inr (), d)" "cn_out d = cn_out s @ framed (dumps_bytes resp)" "cn_broken d = cn_broken s"
    using dumps_bytes_ok [OF assms(6)] framed_small [OF assms(7)] assms(8) by (simp add: respond_def send_frame_def sendall_def andthen_def lift_r_def)
  have "serve h st s = serve h st' (d\<lparr>cn_in := s'\<rparr>)" using s'(1) assms(4,5) d(1) by (simp add: serve.simps [of h st s])
  then show ?thesis using d s' by (intro exI [of _ "d\<lparr>cn_in := s'\<rparr>"]) simp
qed

lemma serve_none:
  assumes "smooth (cn_in s)" "flat (cn_in s) = []" "serve h st s = (e, st1, s')"
  shows "e = None \<and> st1 = st \<and> cn_out s' = cn_out s"
proof -
  obtain r where "read_frame MAX_REQUEST_BYTES (cn_in s) = (cut_frame MAX_REQUEST_BYTES [], r)" using serve_smooth [OF assms(1)] assms(2) by auto
  then show ?thesis using assms(3) by (auto simp: serve.simps [of h st s] cut_frame_def cut_exactly_def bindE_def)
qed

lemma serve_extends: "serve h st s = (e, st1, s') \<Longrightarrow> \<exists>more. cn_out s' = cn_out s @ more"
proof (induction h st s arbitrary: e st1 s' rule: serve.induct)
  case (1 h st s)
  have sent: "\<exists>more. cn_out d = cn_out c @ more" if "respond resp c = (x, d)" for resp c x d
    using that by (auto simp: respond_def send_frame_def sendall_def andthen_def lift_r_def split: sum.splits prod.splits if_splits)
  note step = 1(2) [unfolded serve.simps [of h st s]]
  show ?case
  proof (cases "\<exists>p r req resp st2 u d. read_frame MAX_REQUEST_BYTES (cn_in s) = (Inr (Some p), r) \<and> read_request p = Inr req \<and>
      answer_request h req st = (Inr resp, st2) \<and> respond resp (s\<lparr>cn_in := r\<rparr>) = (Inr u, d)")
    case False
    then show ?thesis using step sent by (fastforce split: sum.splits option.splits prod.splits)
  next
    case True
    then obtain p r req resp st2 u d where t: "read_frame MAX_REQUEST_BYTES (cn_in s) = (Inr (Some p), r)" "read_request p = Inr req"
      "answer_request h req st = (Inr resp, st2)" "respond resp (s\<lparr>cn_in := r\<rparr>) = (Inr u, d)" by blast
    have "serve h st2 (d\<lparr>cn_in := r\<rparr>) = (e, st1, s')" using step t by simp
    from 1(1) [OF t(1) [symmetric] refl refl t(2) t(3) [symmetric] refl t(4) [symmetric] refl this] sent [OF t(4)] show ?thesis by auto
  qed
qed

text \<open>The outcome of calling a handler directly with a request, at most \<open>k\<close> times, as long as it says \<open>BUSY\<close>: what the caller gets, the
  state of the handler, and how often it was called. It is \<open>None\<close> if the handler raises what is no \<open>LexwattError\<close> or answers what
  does not fit a frame.\<close>

fun direct_call :: "(json \<Rightarrow> ('s, json) act) \<Rightarrow> json \<Rightarrow> nat \<Rightarrow> exn \<Rightarrow> 's \<Rightarrow> ((exn + json) \<times> 's \<times> nat) option" where
  "direct_call h req 0 last_err st = Some (Inl last_err, st, 0)"
| "direct_call h req (Suc k) last_err st =
    (case answer_request h req st of
       (Inl e, st') \<Rightarrow> None
     | (Inr resp, st') \<Rightarrow>
         if \<not> json_ok MAX_DEPTH resp \<or> MAX_RESPONSE_BYTES < length (dumps_bytes resp) then None
         else (case reply_code (canon resp) of
                 Inl e \<Rightarrow> Some (Inl e, st', 1)
               | Inr None \<Rightarrow> Some (Inr (canon resp), st', 1)
               | Inr (Some code) \<Rightarrow>
                   if code = BUSY then map_option (\<lambda>(x, s, n). (x, s, Suc n)) (direct_call h req k (Lex code) st')
                   else Some (Inl (Lex code), st', 1)))"

lemma loop_refines:
  assumes "direct_call h req k (case l of Some e \<Rightarrow> e | None \<Rightarrow> Lex INVALID_INPUT) st = Some (x0, st0, m)"
    and "length p \<le> MAX_REQUEST_BYTES" "read_request p = Inr req"
    and "smooth (cn_in s)" "\<And>n. \<not> cn_broken s n" "smooth (cn_in c)" "\<And>n. \<not> cn_broken c n"
    and "serve h st s = (e, st1, s')" "cn_out s' = cn_out s @ flat (cn_in c)"
    and "request_loop p k l c = (x, c')" "cn_out c' = cn_out c @ flat (cn_in s)"
  shows "x = x0 \<and> st1 = st0 \<and> e = None \<and> flat (cn_in s) = concat (replicate m (framed p))"
  using assms
proof (induction k arbitrary: l st s c x0 st0 m)
  case 0
  then have "flat (cn_in s) = []" "x = x0" "st0 = st" "m = 0" by (auto simp: raise_def)
  then show ?case using serve_none [OF 0(4) _ 0(8)] by simp
next
  case (Suc k)
  have small: "length p \<le> MAX_RESPONSE_BYTES" using Suc.prems(2) by (simp add: MAX_REQUEST_BYTES_def MAX_RESPONSE_BYTES_def)
  obtain y c1 where a: "attempt p c = (y, c1)" by (cases "attempt p c")
  have out: "cn_out c1 = cn_out c @ framed p" using attempt_sent [OF a Suc.prems(7) small] .
  have after: "c' = c1 \<or> (\<exists>l. request_loop p k l c1 = (x, c'))" using Suc.prems(10) a by (auto split: sum.splits option.splits if_splits)
  then obtain more where "cn_out c' = cn_out c1 @ more" using request_loop_extends [of p k _ c1 x c'] by auto
  then have in_s: "flat (cn_in s) = framed p @ more" using Suc.prems(11) out by simp
  obtain resp st2 where r: "answer_request h req st = (Inr resp, st2)" "json_ok MAX_DEPTH resp" "length (dumps_bytes resp) \<le> MAX_RESPONSE_BYTES"
    using Suc.prems(1) by (auto split: prod.splits sum.splits if_splits)
  obtain s2 where s2: "serve h st s = serve h st2 s2" "cn_out s2 = cn_out s @ framed (dumps_bytes resp)" "smooth (cn_in s2)"
    "flat (cn_in s2) = more" "cn_broken s2 = cn_broken s"
    using serve_one [OF Suc.prems(4) in_s Suc.prems(2,3) r Suc.prems(5)] by blast
  have sv: "serve h st2 s2 = (e, st1, s')" using Suc.prems(8) s2(1) by simp
  obtain rest where rest: "cn_out s' = cn_out s2 @ rest" using serve_extends [OF sv] by blast
  then have in_c: "flat (cn_in c) = framed (dumps_bytes resp) @ rest" using Suc.prems(9) s2(2) by simp
  from attempt_replied [OF Suc.prems(6) in_c Suc.prems(7) r(2,3) small] a
  have c1: "y = Inr (canon resp)" "smooth (cn_in c1)" "flat (cn_in c1) = rest" "cn_broken c1 = cn_broken c" by auto
  show ?case
  proof (cases "reply_code (canon resp) = Inr (Some BUSY)")
    case True
    then obtain m' where m': "direct_call h req k (Lex BUSY) st2 = Some (x0, st0, m')" "m = Suc m'" using Suc.prems(1) r by auto
    have "request_loop p k (Some (Lex BUSY)) c1 = (x, c')" using Suc.prems(10) a c1(1) True by simp
    from Suc.IH [of "Some (Lex BUSY)" st2 x0 st0 m' s2 c1, OF _ Suc.prems(2,3) s2(3) _ c1(2) _ sv _ this] m'(1) rest c1(3,4) s2(4,5) Suc.prems(5,7,11) out in_s
    show ?thesis by (simp add: in_s m'(2))
  next
    case False
    then have f: "c' = c1" "x = x0" "st0 = st2" "m = 1" using Suc.prems(1,10) a c1(1) r by (auto split: sum.splits option.splits if_splits)
    then have "more = []" using Suc.prems(11) out in_s by simp
    then show ?thesis using serve_none [OF s2(3) _ sv] s2(4) f in_s by simp
  qed
qed

text \<open>C27: a call over the wire is a call of the handler. When the server's loop reads what the client sent and the client reads what the
  loop sent, each cut into any pieces, then what the client's \<open>request\<close> returns or raises, the state of the handler, and the number of frames
  on the wire are those of calling the handler directly with the client's request, its keys in canonical order: once, and again as long as it
  says \<open>BUSY\<close>, at most \<open>retries\<close> times; a response is returned with its keys in canonical order, and an error reply, the handler's own or
  of a \<open>LexwattError\<close> that it raised, is raised with its code.\<close>

theorem call_roundtrip:
  assumes "req = request_object rid meth params" "rid \<noteq> []"
    and "json_ok MAX_DEPTH req" "length (dumps_bytes req) \<le> MAX_REQUEST_BYTES" "check_request (canon req) = Inr ()"
    and "direct_call h (canon req) retries (Lex INVALID_INPUT) st = Some (x0, st0, n)"
    and "smooth (cn_in s)" "\<And>n. \<not> cn_broken s n" "smooth (cn_in c)" "\<And>n. \<not> cn_broken c n" "cn_out s = []" "cn_out c = []"
    and "serve h st s = (e, st1, s')" "client_request new_id meth params (Some rid) retries c = (x, c')"
    and "flat (cn_in c) = cn_out s'" "flat (cn_in s) = cn_out c'"
  shows "x = x0 \<and> st1 = st0 \<and> e = None \<and> cn_out c' = concat (replicate n (framed (dumps_bytes req)))"
proof -
  have "read_request (dumps_bytes req) = Inr (canon req)" using assms(5) loads_dumps [OF assms(3)] by (simp add: read_request_def bindE_def)
  moreover have "request_loop (dumps_bytes req) retries None c = (x, c')"
    using assms(14) dumps_bytes_ok [OF assms(3)] assms(1,2) by (simp add: client_request_def named_def andthen_def lift_r_def)
  ultimately show ?thesis
    using loop_refines [of h "canon req" retries None st x0 st0 n "dumps_bytes req" s c e st1 s' x c'] assms by simp
qed

text \<open>A handler that is busy at first and then says yes, a cut request to it, and the bytes of its answers.\<close>

definition busy_once :: "json \<Rightarrow> (nat, json) act" where
  "busy_once req n = (if n = 0 then (Inl (Lex BUSY), 1) else (Inr (JObj [(lit ''ok'', JBool True)]), Suc n))"

definition yes_bytes :: bytes where "yes_bytes = lit ''{\"ok\":true}''"

definition busy_reply :: json where "busy_reply = error_response BUSY (plain_id ID_request)"

definition busy_bytes :: bytes where
  "busy_bytes = lit ''{\"error\":{\"code\":\"BUSY\",\"retryable\":true},\"id\":\"lwq_aaaaaaaaaaaaaaaaaaaaa\",\"ok\":false,\"v\":1}''"

definition two_stops :: stream where
  "two_stops = [Piece (take 9 (framed stop_bytes)), Piece (drop 9 (framed stop_bytes) @ framed stop_bytes)]"

lemma yes_written: "dumps_bytes (JObj [(lit ''ok'', JBool True)]) = yes_bytes" "json_ok MAX_DEPTH (JObj [(lit ''ok'', JBool True)])"
  "canon (JObj [(lit ''ok'', JBool True)]) = JObj [(lit ''ok'', JBool True)]"
proof -
  show ok: "json_ok MAX_DEPTH (JObj [(lit ''ok'', JBool True)])" by (simp add: MAX_DEPTH_def distinct_keys_def lit_scalar)
  have "write_json (JObj [(lit ''ok'', JBool True)]) = Inr yes_bytes"
    by (simp add: sorted_items_def bindE_def plain_string lit_def yes_bytes_def)
  moreover have "utf8_encode yes_bytes = Inr yes_bytes" by (simp add: utf8_encode_def yes_bytes_def lit_def is_surrogate_def)
  ultimately show "dumps_bytes (JObj [(lit ''ok'', JBool True)]) = yes_bytes"
    using dumps_bytes_ok [OF ok] by (simp add: dumps_def bindE_def)
  show "canon (JObj [(lit ''ok'', JBool True)]) = JObj [(lit ''ok'', JBool True)]" by (simp add: sorted_items_def)
qed

lemma length_yes: "length yes_bytes = 11"
  by (simp add: yes_bytes_def lit_def)

lemma two_stops_props: "smooth two_stops" "flat two_stops = framed stop_bytes @ framed stop_bytes"
  by (simp_all add: two_stops_def framed_stop length_stop)

lemma busy_json: "json_ok MAX_DEPTH busy_reply"
  by (simp add: busy_reply_def error_response_def MAX_DEPTH_def distinct_keys_def lit_scalar plain_id_scalar MAX_JSON_INT_def)

lemma busy_sorted: "canon busy_reply =
    JObj [(lit ''error'', JObj [(lit ''code'', JStr (lit ''BUSY'')), (lit ''retryable'', JBool True)]), (lit ''id'', JStr (plain_id ID_request)),
      (lit ''ok'', JBool False), (lit ''v'', JInt 1)]"
  by (simp add: busy_reply_def error_response_def sorted_items_def utf16_key_def utf16_units_def lit_def)

lemma busy_written: "dumps_bytes busy_reply = busy_bytes"
proof -
  have as: "replicate 21 (97 :: nat) = lit ''aaaaaaaaaaaaaaaaaaaaa''" by (simp add: lit_def numeral_eq_Suc)
  have "write_json busy_reply = Inr busy_bytes"
    by (simp add: busy_reply_def error_response_def sorted_items_def utf16_key_def utf16_units_def lit_def plain_string bindE_def plain_id_def
      py_str_int_def dec_str_less_10 INT_MAX_STR_DIGITS_def Let_def as busy_bytes_def)
  moreover have "utf8_encode busy_bytes = Inr busy_bytes" by (simp add: utf8_encode_def busy_bytes_def lit_def is_surrogate_def)
  ultimately show ?thesis using dumps_bytes_ok [OF busy_json] by (simp add: dumps_def bindE_def)
qed

lemma busy_small: "length (dumps_bytes busy_reply) \<le> MAX_RESPONSE_BYTES"
  by (simp add: busy_written busy_bytes_def lit_def MAX_RESPONSE_BYTES_def)

lemma reply_codes: "reply_code (canon busy_reply) = Inr (Some BUSY)" "reply_code (canon (JObj [(lit ''ok'', JBool True)])) = Inr None"
proof -
  have "find (\<lambda>x. JStr (code_name x) = JStr (code_name BUSY)) CODES = Some BUSY" by (simp add: CODES_def)
  then show "reply_code (canon busy_reply) = Inr (Some BUSY)"
    unfolding busy_sorted by (simp add: reply_code_def dict_get_def subscript_def dict_item_def bindE_def lit_def)
  show "reply_code (canon (JObj [(lit ''ok'', JBool True)])) = Inr None" by (simp only: yes_written(3)) (simp add: reply_code_def dict_get_def)
qed

lemma busy_answers: "answer_request busy_once (canon stop_req) 0 = (Inr busy_reply, 1)"
  "answer_request busy_once (canon stop_req) (Suc n) = (Inr (JObj [(lit ''ok'', JBool True)]), Suc (Suc n))"
  by (simp_all add: answer_request_def catch_lexwatt_def handle_exn_def busy_once_def busy_reply_def stop_sorted shape_defs ret_def str_of_def)

lemma busy_direct: "direct_call busy_once (canon stop_req) 3 (Lex INVALID_INPUT) 0 = Some (Inr (JObj [(lit ''ok'', JBool True)]), 2, 2)"
  using busy_small busy_json reply_codes yes_written(2)
  by (simp add: numeral_3_eq_3 busy_answers yes_written(1,3) length_yes MAX_RESPONSE_BYTES_def numeral_2_eq_2 del: canon.simps)

theorem call_roundtrip_witness:
  "\<exists>e st1 s' x c'. serve busy_once 0 (plain_conn two_stops) = (e, st1, s') \<and>
     client_request (Inr []) (method_name M_run_stop) stop_params (Some (plain_id ID_request)) 3 (plain_conn [Piece (framed busy_bytes @ framed yes_bytes)]) = (x, c') \<and>
     x = Inr (JObj [(lit ''ok'', JBool True)]) \<and> st1 = 2 \<and> e = None \<and> cn_out c' = concat (replicate 2 (framed (dumps_bytes stop_req)))"
proof -
  let ?yes = "JObj [(lit ''ok'', JBool True)]" and ?c = "plain_conn [Piece (framed busy_bytes @ framed yes_bytes)]"
  have n: "plain_id ID_request \<noteq> []" by (simp add: plain_id_def)
  have dm: "dumps (request_object (plain_id ID_request) (method_name M_run_stop) stop_params) = Inr stop_bytes"
    using dumps_bytes_ok [OF stop_json] by (simp only: stop_object stop_written)
  have small: "length stop_bytes \<le> MAX_RESPONSE_BYTES" by (simp add: length_stop MAX_RESPONSE_BYTES_def)
  have "exchange busy_once 0 [stop_bytes, stop_bytes] = Some (framed busy_bytes @ framed yes_bytes, 2)"
    using busy_answers dumps_bytes_ok [OF yes_written(2)] dumps_bytes_ok [OF busy_json] framed_small [of yes_bytes] framed_small [OF busy_small] length_yes
    by (simp add: stop_bytes_read bindE_def yes_written(1) busy_written MAX_RESPONSE_BYTES_def)
  from serve_exchange [OF _ _ _ _ this, of "plain_conn two_stops"] obtain s' where
    s': "serve busy_once 0 (plain_conn two_stops) = (None, 2, s')" "cn_out s' = framed busy_bytes @ framed yes_bytes"
    by (auto simp: plain_conn_def two_stops_props length_stop MAX_REQUEST_BYTES_def)
  obtain c1 where c1: "attempt stop_bytes ?c = (Inr (canon busy_reply), c1)" "cn_out c1 = framed stop_bytes" "smooth (cn_in c1)"
    "flat (cn_in c1) = framed yes_bytes" "cn_broken c1 = cn_broken ?c"
    using attempt_replied [OF _ _ _ busy_json busy_small small, of ?c "framed yes_bytes"]
    by (auto simp: plain_conn_def busy_written framed_def [of busy_bytes] pack_u32_def)
  obtain c2 where c2: "attempt stop_bytes c1 = (Inr (canon ?yes), c2)" "cn_out c2 = framed stop_bytes @ framed stop_bytes"
    using attempt_replied [OF c1(3) _ _ yes_written(2) _ small, of "[]"] c1(2,4,5) by (auto simp: plain_conn_def yes_written(1) length_yes MAX_RESPONSE_BYTES_def)
  have "request_loop stop_bytes 3 None ?c = (Inr (canon ?yes), c2)" using c1(1) c2(1) reply_codes by (simp add: numeral_3_eq_3 del: canon.simps)
  then have c': "client_request (Inr []) (method_name M_run_stop) stop_params (Some (plain_id ID_request)) 3 ?c = (Inr (canon ?yes), c2)"
    using n dm by (simp add: client_request_def named_def andthen_def lift_r_def del: method_name.simps canon.simps)
  have "(Inr (canon ?yes) :: exn + json) = Inr ?yes \<and> (2::nat) = 2 \<and> (None :: exn option) = None \<and> cn_out c2 = concat (replicate 2 (framed (dumps_bytes stop_req)))"
  proof (rule call_roundtrip [OF stop_object [symmetric] _ stop_json _ _ busy_direct _ _ _ _ _ _ s'(1) c'])
    show "check_request (canon stop_req) = Inr ()" using stop_bytes_read loads_dumps [OF stop_json]
      by (simp add: read_request_def stop_written bindE_def split: sum.splits)
  qed (simp_all add: plain_id_def plain_conn_def stop_written length_stop MAX_REQUEST_BYTES_def two_stops_props s'(2) c2(2) framed_def [of busy_bytes] pack_u32_def)
  then show ?thesis using s'(1) c' by blast
qed

end
