(* ===== verification/Recovery.thy ===== *)
theory Recovery imports Rebuild begin

text \<open>
  Models \<open>src/lexwatt/recovery.py\<close>: the recovery of one run directory and of all of them. A directory (\<open>place\<close>) has its
  journal, which may fail to open or to be read, and its manifest; the state is the list of control groups whose \<open>cgroup.kill\<close>
  was written. \<open>os.stat\<close> and the write are arguments (\<open>inode\<close>, \<open>kill_write\<close>), and may raise.

  Results: a kill is only written for the pinned group of a run of this boot whose journal replays to a nonterminal state; over
  the journal of any run of the reducer the answer follows the state of the object; one directory that fails stops the
  recovery of all that follow; a kill that failed is reported as containment.
\<close>

section \<open>One run directory\<close>

datatype manifest_file = Missing | Unreadable | Holds bytes

record place =
  pl_is_dir :: bool
  pl_journal :: "journal option"
  pl_open :: db_open
  pl_manifest :: manifest_file

record rescue =
  rs_kills :: "pystr list"

record recovery_env =
  inode :: "json \<Rightarrow> exn + int"
  kill_write :: "pystr \<Rightarrow> exn + unit"

type_synonym 'a rec = "(rescue, 'a) act"

definition report :: "pystr \<Rightarrow> string \<Rightarrow> json \<Rightarrow> json" where
  "report name res head = JObj [(lit ''run_id'', JStr name), (lit ''result'', JStr (lit res)), (lit ''head'', head)]"

definition recovered_head :: "int \<times> pystr \<Rightarrow> exn + json" where
  "recovered_head sh = bindE (py_str_int (fst sh)) (\<lambda>s. Inr (JObj [(lit ''seq'', JStr s), (lit ''hash'', JStr (snd sh))]))"

text \<open>What the journal says: the bodies of its entries, the replayed state and the head; the stored projection must agree.\<close>

definition read_back_journal :: "pystr \<Rightarrow> (json list \<times> json \<times> json) jact" where
  "read_back_journal name =
    andthen (events_after 0 1000000) (\<lambda>raw.
    andthen (lift_r (mapE loads raw)) (\<lambda>es.
    andthen (lift_r (mapE (\<lambda>e. subscript e ''body'') es)) (\<lambda>bodies.
    andthen (lift_r (if bodies = [] then Inr (state_json CREATED) else replay_events bodies)) (\<lambda>st.
    andthen event_head (\<lambda>sh.
    andthen (lift_r (recovered_head sh)) (\<lambda>head.
    andthen (run_row name) (\<lambda>row.
    andthen (lift_r (requireE (row = None \<or> JStr (rr_state (the row)) = st) (Lex CONTAINMENT_FAULT))) (\<lambda>_.
      ret (bodies, st, head)))))))))"

definition read_place :: "pystr \<Rightarrow> journal \<Rightarrow> db_open \<Rightarrow> exn + (json list \<times> json \<times> json)" where
  "read_place name j op =
    (case op of
       Refused _ \<Rightarrow> Inl AuditFault
     | Opened fails \<Rightarrow> fst (read_back_journal name \<lparr>db_main = j, db_txn = None, db_fails = fails, db_count = 0\<rparr>))"

text \<open>A manifest file that holds \<open>null\<close> is like none: the code asks \<open>manifest is not None\<close>.\<close>

definition read_manifest :: "manifest_file \<Rightarrow> exn + json option" where
  "read_manifest f =
    (case f of Missing \<Rightarrow> Inr None | Unreadable \<Rightarrow> Inl (Py OS_Error) | Holds b \<Rightarrow> bindE (loads b) (\<lambda>m. Inr (if m = JNull then None else Some m)))"

text \<open>\<open>with open(os.path.join(cgroup_path, "cgroup.kill"), "w")\<close>, \<open>OSError\<close> passed over.\<close>

definition kill_group :: "recovery_env \<Rightarrow> json \<Rightarrow> unit rec" where
  "kill_group E path =
    (case path of
       JStr p \<Rightarrow>
         (case kill_write E p of
            Inr _ \<Rightarrow> modify (\<lambda>s. s\<lparr>rs_kills := rs_kills s @ [p]\<rparr>)
          | Inl e \<Rightarrow> if e = Py OS_Error then ret () else raise e)
     | _ \<Rightarrow> raise (Py Type_Error))"

text \<open>A run of this boot that has not ended: its pinned group, if it is still there.\<close>

definition rescue_orphan :: "recovery_env \<Rightarrow> pystr \<Rightarrow> json list \<Rightarrow> json \<Rightarrow> json \<Rightarrow> json rec" where
  "rescue_orphan E name bodies head manifest =
    andthen (lift_r (subscript manifest ''cgroup_path'')) (\<lambda>path.
    (case inode E path of
       Inr n \<Rightarrow>
         andthen (lift_r (py_str_int n)) (\<lambda>s.
         andthen (lift_r (subscript manifest ''cgroup_inode'')) (\<lambda>pinned.
           if JStr s \<noteq> pinned then ret (report name ''UNCONFIRMED'' head)
           else andthen (kill_group E path) (\<lambda>_. ret (report name ''CONTAINED'' head))))
     | Inl e \<Rightarrow>
         if e = Py OS_Error then
           ret (report name (if list_ex (\<lambda>b. fld b ''kind'' = JStr (lit ''ContainmentEmpty'')) bodies then ''CONTAINED'' else ''INCOMPLETE'') head)
         else raise e))"

definition same_boot :: "json option \<Rightarrow> json \<Rightarrow> exn + bool" where
  "same_boot manifest boot =
    (case manifest of None \<Rightarrow> Inr False | Some m \<Rightarrow> bindE (subscript m ''boot_id'') (\<lambda>b. Inr (b = boot)))"

definition recover_run :: "recovery_env \<Rightarrow> pystr \<Rightarrow> pystr \<Rightarrow> place \<Rightarrow> json rec" where
  "recover_run E boot name pl =
    andthen (lift_r (check_id (JStr name) ID_run)) (\<lambda>_.
    (case pl_journal pl of
       None \<Rightarrow> ret (report name ''CONTAINED'' JNull)
     | Some j \<Rightarrow>
         andthen (lift_r (read_place name j (pl_open pl))) (\<lambda>(bodies, st, head).
         andthen (lift_r (read_manifest (pl_manifest pl))) (\<lambda>manifest.
         andthen (lift_r (same_boot manifest (JStr boot))) (\<lambda>same.
           if st \<in> set (map state_json TERMINAL_STATES) then ret (report name ''CONTAINED'' head)
           else if \<not> same then ret (report name ''INCOMPLETE'' head)
           else (case manifest of Some m \<Rightarrow> rescue_orphan E name bodies head m | None \<Rightarrow> ret (report name ''UNCONFIRMED'' head)))))))"

section \<open>Actions and budgets\<close>

definition recover_action :: "pystr \<Rightarrow> bool \<Rightarrow> bool \<Rightarrow> bool \<Rightarrow> json" where
  "recover_action action_state result_recorded boot_matches cgroup_matches =
    (let kill = (boot_matches \<and> cgroup_matches);
         st = (if action_state = lit ''DISPATCHED'' \<and> \<not> result_recorded then lit ''UNKNOWN'' else action_state)
     in JObj [(lit ''action_state'', JStr st), (lit ''release_count'', JInt 0), (lit ''kill_requested'', JBool kill)])"

definition resume_run :: "run_state \<Rightarrow> bool \<Rightarrow> pystr \<Rightarrow> int \<Rightarrow> json" where
  "resume_run persisted_state boot_matches charged spawn_tokens_issued =
    (let kept = [(lit ''resumed'', JBool False), (lit ''charged_flops'', JStr charged),
                 (lit ''spawn_tokens_issued'', JInt spawn_tokens_issued), (lit ''new_tokens_issued'', JInt 0)]
     in if persisted_state \<in> set TERMINAL_STATES then JObj kept
        else if \<not> boot_matches then JObj ((lit ''error'', JStr (lit ''INCOMPLETE'')) # kept)
        else JObj kept)"

section \<open>All runs\<close>

text \<open>The loop over the sorted names, with the reports so far.\<close>

fun recover_each :: "recovery_env \<Rightarrow> pystr \<Rightarrow> (pystr \<times> place) list \<Rightarrow> json list rec" where
  "recover_each E boot [] = ret []"
| "recover_each E boot ((name, pl) # ps) =
    andthen (recover_run E boot name pl) (\<lambda>r. andthen (recover_each E boot ps) (\<lambda>rs. ret (r # rs)))"

definition recover_all :: "recovery_env \<Rightarrow> pystr \<Rightarrow> (pystr \<times> place) list \<Rightarrow> pystr option \<Rightarrow> json rec" where
  "recover_all E boot runs only_run =
    (let wrap = (\<lambda>rs. JObj [(lit ''v'', JInt 1), (lit ''runs'', JArr rs)])
     in case only_run of
          Some name \<Rightarrow>
            andthen (lift_r (check_id (JStr name) ID_run)) (\<lambda>_.
            (case map_of runs name of
               Some pl \<Rightarrow> if pl_is_dir pl then andthen (recover_run E boot name pl) (\<lambda>r. ret (wrap [r])) else raise (Lex NOT_FOUND)
             | None \<Rightarrow> raise (Lex NOT_FOUND)))
        | None \<Rightarrow> andthen (recover_each E boot (sort_key fst runs)) (\<lambda>rs. ret (wrap rs)))"

section \<open>What is killed\<close>

text \<open>What a recovery must have seen to write \<open>cgroup.kill\<close> of a group.\<close>

definition pinned_orphan :: "recovery_env \<Rightarrow> pystr \<Rightarrow> pystr \<Rightarrow> place \<Rightarrow> pystr \<Rightarrow> bool" where
  "pinned_orphan E boot name pl p \<longleftrightarrow>
    (\<exists>j bodies st head b m n s. pl_journal pl = Some j \<and> read_place name j (pl_open pl) = Inr (bodies, st, head) \<and>
      st \<notin> set (map state_json TERMINAL_STATES) \<and> pl_manifest pl = Holds b \<and> loads b = Inr m \<and>
      fld m ''boot_id'' = JStr boot \<and> fld m ''cgroup_path'' = JStr p \<and> inode E (JStr p) = Inr n \<and> py_str_int n = Inr s \<and>
      fld m ''cgroup_inode'' = JStr s)"

lemma subscript_fld: "subscript v k = Inr x \<Longrightarrow> fld v k = x"
  by (auto simp: subscript_def fld_def dict_item_def dict_get_def split: json.splits option.splits)

lemma subscript_not_null: "subscript v k = Inr x \<Longrightarrow> v \<noteq> JNull"
  by (auto simp: subscript_def)

lemma kill_group_logs: "kill_group E path s = (x, s') \<Longrightarrow> s' = s \<or> (\<exists>p. path = JStr p \<and> s' = s\<lparr>rs_kills := rs_kills s @ [p]\<rparr>)"
  by (auto simp: kill_group_def modify_def ret_def raise_def split: json.splits sum.splits if_splits)

lemma rescue_kills:
  assumes "rescue_orphan E name bodies head m s = (x, s')"
  shows "s' = s \<or> (\<exists>p n t. fld m ''cgroup_path'' = JStr p \<and> inode E (JStr p) = Inr n \<and> py_str_int n = Inr t \<and>
    fld m ''cgroup_inode'' = JStr t \<and> s' = s\<lparr>rs_kills := rs_kills s @ [p]\<rparr>)"
proof (rule disjCI)
  assume no: "\<not> (\<exists>p n t. fld m ''cgroup_path'' = JStr p \<and> inode E (JStr p) = Inr n \<and> py_str_int n = Inr t \<and>
    fld m ''cgroup_inode'' = JStr t \<and> s' = s\<lparr>rs_kills := rs_kills s @ [p]\<rparr>)"
  show "s' = s"
  proof (cases "\<exists>path n t. subscript m ''cgroup_path'' = Inr path \<and> inode E path = Inr n \<and> py_str_int n = Inr t \<and> subscript m ''cgroup_inode'' = Inr (JStr t)")
    case False
    then show ?thesis using assms
      by (auto simp: rescue_orphan_def andthen_def lift_r_def ret_def raise_def split: sum.splits if_splits)
  next
    case True
    then obtain path n t where t: "subscript m ''cgroup_path'' = Inr path" "inode E path = Inr n" "py_str_int n = Inr t"
      "subscript m ''cgroup_inode'' = Inr (JStr t)" by blast
    obtain y s1 where k: "kill_group E path s = (y, s1)" by (cases "kill_group E path s")
    then have "s' = s1" using assms t by (auto simp: rescue_orphan_def andthen_def lift_r_def ret_def split: sum.splits)
    then show ?thesis using kill_group_logs [OF k] no t subscript_fld by blast
  qed
qed

lemma recover_run_kills:
  assumes "recover_run E boot name pl s = (x, s')"
  shows "s' = s \<or> (\<exists>p. pinned_orphan E boot name pl p \<and> s' = s\<lparr>rs_kills := rs_kills s @ [p]\<rparr>)"
proof (cases "\<exists>i j bodies st head b m. check_id (JStr name) ID_run = Inr i \<and> pl_journal pl = Some j \<and> read_place name j (pl_open pl) = Inr (bodies, st, head) \<and>
    st \<notin> set (map state_json TERMINAL_STATES) \<and> pl_manifest pl = Holds b \<and> loads b = Inr m \<and> subscript m ''boot_id'' = Inr (JStr boot)")
  case False
  then show ?thesis using assms
    by (auto simp: recover_run_def read_manifest_def same_boot_def bindE_def andthen_def lift_r_def ret_def
      split: option.splits sum.splits manifest_file.splits prod.splits if_splits)
next
  case True
  then obtain i j bodies st head b m where h: "check_id (JStr name) ID_run = Inr i" "pl_journal pl = Some j" "read_place name j (pl_open pl) = Inr (bodies, st, head)"
    "st \<notin> set (map state_json TERMINAL_STATES)" "pl_manifest pl = Holds b" "loads b = Inr m" "subscript m ''boot_id'' = Inr (JStr boot)" by blast
  then have "rescue_orphan E name bodies head m s = (x, s')"
    using assms subscript_not_null [OF h(7)] by (simp add: recover_run_def read_manifest_def same_boot_def bindE_def andthen_def lift_r_def)
  from rescue_kills [OF this] show ?thesis
    using h(2-6) subscript_fld [OF h(7)] unfolding pinned_orphan_def by blast
qed

lemma recover_run_logs:
  assumes "recover_run E boot name pl s = (x, s')"
  shows "\<exists>qs. s' = s\<lparr>rs_kills := rs_kills s @ qs\<rparr> \<and> list_all (pinned_orphan E boot name pl) qs"
  using recover_run_kills [OF assms]
proof
  assume "s' = s"
  then show ?thesis by (intro exI [of _ "[]"]) simp
next
  assume "\<exists>p. pinned_orphan E boot name pl p \<and> s' = s\<lparr>rs_kills := rs_kills s @ [p]\<rparr>"
  then obtain p where "pinned_orphan E boot name pl p" "s' = s\<lparr>rs_kills := rs_kills s @ [p]\<rparr>" by blast
  then show ?thesis by (intro exI [of _ "[p]"]) simp
qed

lemma recover_each_kills:
  assumes "recover_each E boot runs s = (x, s')"
  shows "\<exists>ps. s' = s\<lparr>rs_kills := rs_kills s @ ps\<rparr> \<and> list_all (\<lambda>p. \<exists>(name, pl) \<in> set runs. pinned_orphan E boot name pl p) ps"
  using assms
proof (induction runs arbitrary: s x)
  case Nil
  then show ?case by (intro exI [of _ "[]"]) (simp add: ret_def)
next
  case (Cons np runs)
  obtain name pl where np: "np = (name, pl)" by (cases np)
  obtain y s1 where r: "recover_run E boot name pl s = (y, s1)" by (cases "recover_run E boot name pl s")
  obtain qs where qs: "s1 = s\<lparr>rs_kills := rs_kills s @ qs\<rparr>" "list_all (pinned_orphan E boot name pl) qs"
    using recover_run_logs [OF r] by blast
  have "s' = s1 \<or> (\<exists>z. recover_each E boot runs s1 = (z, s'))"
    using Cons.prems r np by (auto simp: andthen_def ret_def split: sum.splits prod.splits)
  then show ?case
  proof
    assume "s' = s1"
    then show ?thesis using qs np by (intro exI [of _ qs]) (auto simp: list_all_iff)
  next
    assume "\<exists>z. recover_each E boot runs s1 = (z, s')"
    then obtain ps where ps: "s' = s1\<lparr>rs_kills := rs_kills s1 @ ps\<rparr>" "list_all (\<lambda>p. \<exists>(name, pl) \<in> set runs. pinned_orphan E boot name pl p) ps"
      using Cons.IH by blast
    show ?thesis using qs ps np by (intro exI [of _ "qs @ ps"]) (auto simp: list_all_iff)
  qed
qed

text \<open>Every kill of a recovery is the one of a pinned orphan.\<close>

lemma recover_all_logs:
  assumes "recover_all E boot runs only_run s = (x, s')"
  shows "\<exists>ps. s' = s\<lparr>rs_kills := rs_kills s @ ps\<rparr> \<and> (\<forall>i < length ps. \<exists>(name, pl) \<in> set runs. pinned_orphan E boot name pl (ps ! i))"
proof -
  show ?thesis
  proof (cases only_run)
    case None
    obtain y where "recover_each E boot (sort_key fst runs) s = (y, s')"
      using assms None by (auto simp: recover_all_def andthen_def ret_def split: prod.splits sum.splits)
    from recover_each_kills [OF this] show ?thesis by (simp add: list_all_length)
  next
    case (Some name)
    have "s' = s \<or> (\<exists>pl y. map_of runs name = Some pl \<and> recover_run E boot name pl s = (y, s'))"
      using assms Some by (auto simp: recover_all_def andthen_def lift_r_def ret_def raise_def split: sum.splits option.splits prod.splits if_splits)
    then show ?thesis
    proof (elim disjE exE conjE)
      fix pl y assume m: "map_of runs name = Some pl" and r: "recover_run E boot name pl s = (y, s')"
      obtain qs where "s' = s\<lparr>rs_kills := rs_kills s @ qs\<rparr>" "list_all (pinned_orphan E boot name pl) qs" using recover_run_logs [OF r] by blast
      then show ?thesis using map_of_SomeD [OF m] by (intro exI [of _ qs]) (auto simp: list_all_length)
    next
      assume "s' = s"
      then show ?thesis by (intro exI [of _ "[]"]) simp
    qed
  qed
qed

text \<open>C29: recovery kills nothing but orphans: whatever the directories and the file system hold, each group whose
  \<open>cgroup.kill\<close> a recovery writes is the one named in the manifest of a run of this boot, has the inode the manifest pinned,
  and belongs to a journal that replays to a nonterminal state.\<close>

theorem recovery_kills_only_pinned_orphans:
  assumes "recover_all E boot runs only_run s = (x, s')"
  shows "\<exists>ps. s' = s\<lparr>rs_kills := rs_kills s @ ps\<rparr> \<and> (\<forall>i < length ps. \<exists>(name, pl) \<in> set runs. pinned_orphan E boot name pl (ps ! i))"
  by (rule recover_all_logs [OF assms])

section \<open>A failing directory\<close>

lemma recover_each_append:
  "recover_each E boot (xs @ ys) = andthen (recover_each E boot xs) (\<lambda>rs. andthen (recover_each E boot ys) (\<lambda>rs'. ret (rs @ rs')))"
proof (induction xs)
  case Nil
  then show ?case by (auto simp: andthen_def ret_def fun_eq_iff split: sum.splits prod.splits)
next
  case (Cons np xs)
  then show ?case by (cases np) (auto simp: andthen_def ret_def fun_eq_iff split: sum.splits prod.splits)
qed

lemma fld_subscript: "fld m k = JStr x \<Longrightarrow> subscript m k = Inr (JStr x)"
  by (auto simp: subscript_def fld_def dict_item_def dict_get_def split: json.splits option.splits)

lemma orphan_reached:
  assumes "recover_run E boot name pl s = (Inr v, s')" "pinned_orphan E boot name pl p"
  shows "\<exists>bodies head m. rescue_orphan E name bodies head m s = (Inr v, s') \<and> subscript m ''cgroup_path'' = Inr (JStr p) \<and>
    (\<exists>n t. inode E (JStr p) = Inr n \<and> py_str_int n = Inr t \<and> subscript m ''cgroup_inode'' = Inr (JStr t))"
proof -
  obtain j bodies st head b m n t where h: "pl_journal pl = Some j" "read_place name j (pl_open pl) = Inr (bodies, st, head)"
    "st \<notin> set (map state_json TERMINAL_STATES)" "pl_manifest pl = Holds b" "loads b = Inr m" "fld m ''boot_id'' = JStr boot"
    "fld m ''cgroup_path'' = JStr p" "inode E (JStr p) = Inr n" "py_str_int n = Inr t" "fld m ''cgroup_inode'' = JStr t"
    using assms(2) unfolding pinned_orphan_def by blast
  have "rescue_orphan E name bodies head m s = (Inr v, s')"
    using assms(1) h fld_subscript [OF h(6)] subscript_not_null [OF fld_subscript [OF h(6)]] by (auto simp: recover_run_def read_manifest_def same_boot_def bindE_def andthen_def lift_r_def split: sum.splits)
  then show ?thesis using h(8,9) fld_subscript [OF h(7)] fld_subscript [OF h(10)] by blast
qed

lemma recover_run_reaches:
  assumes "recover_run E boot name pl s = (Inr v, s')" "pinned_orphan E boot name pl p" "kill_write E p = Inr ()"
  shows "s' = s\<lparr>rs_kills := rs_kills s @ [p]\<rparr>"
proof -
  obtain bodies head m n t where "rescue_orphan E name bodies head m s = (Inr v, s')" "subscript m ''cgroup_path'' = Inr (JStr p)"
    "inode E (JStr p) = Inr n" "py_str_int n = Inr t" "subscript m ''cgroup_inode'' = Inr (JStr t)"
    using orphan_reached [OF assms(1,2)] by blast
  then show ?thesis using assms(3) by (simp add: rescue_orphan_def kill_group_def modify_def andthen_def lift_r_def ret_def)
qed

text \<open>C30: recovery of all runs misses no orphan: if it ends without an error, then for every directory that pins a group of this
  boot with the right inode and whose journal replays to a nonterminal state, the group's \<open>cgroup.kill\<close> was written, unless
  that write failed.\<close>

theorem recovery_reaches_every_orphan:
  assumes "recover_all E boot runs None s = (Inr v, s')" "(name, pl) \<in> set runs" "pinned_orphan E boot name pl p" "kill_write E p = Inr ()"
  shows "p \<in> set (rs_kills s')"
proof -
  obtain rs where all: "recover_each E boot (sort_key fst runs) s = (Inr rs, s')"
    using assms(1) by (auto simp: recover_all_def andthen_def ret_def split: prod.splits sum.splits)
  obtain xs ys where split: "sort_key fst runs = xs @ (name, pl) # ys"
    using assms(2) split_list [of "(name, pl)" "sort_key fst runs"] by auto
  obtain s1 s2 v1 r1 r2 where 1: "recover_run E boot name pl s1 = (Inr v1, s2)" "recover_each E boot ys s2 = (Inr r2, s')"
    using all unfolding split recover_each_append by (auto simp: andthen_def ret_def split: prod.splits sum.splits)
  have "p \<in> set (rs_kills s2)" using recover_run_reaches [OF 1(1) assms(3,4)] by simp
  then show ?thesis using recover_each_kills [OF 1(2)] by auto
qed

text \<open>One bad directory stops the recovery: if the recovery of a directory raises, whatever was killed before, then recovery
  of all runs raises the same, and the directories after it are never looked at: the groups killed are those of the ones
  before.\<close>

theorem one_failing_run_stops_recovery:
  assumes "sort_key fst runs = xs @ (name, pl) # ys" "recover_each E boot xs s = (Inr rs, s1)" "recover_run E boot name pl s1 = (Inl e, s2)"
  shows "recover_all E boot runs None s = (Inl e, s2)"
  using assms by (simp add: recover_all_def recover_each_append andthen_def)

text \<open>A kill that failed is reported as containment: for an orphan whose \<open>cgroup.kill\<close> cannot be written, the recovery of its
  directory answers \<open>CONTAINED\<close> all the same, and nothing was killed.\<close>

theorem failed_kill_reported_contained:
  assumes "recover_run E boot name pl s = (Inr v, s')" "pinned_orphan E boot name pl p" "kill_write E p = Inl (Py OS_Error)"
  shows "fld v ''result'' = JStr (lit ''CONTAINED'') \<and> s' = s"
proof -
  obtain bodies head m where m: "rescue_orphan E name bodies head m s = (Inr v, s')" "subscript m ''cgroup_path'' = Inr (JStr p)"
    and n: "\<exists>n t. inode E (JStr p) = Inr n \<and> py_str_int n = Inr t \<and> subscript m ''cgroup_inode'' = Inr (JStr t)"
    using orphan_reached [OF assms(1,2)] by blast
  then show ?thesis using assms(3)
    by (auto simp: rescue_orphan_def kill_group_def andthen_def lift_r_def ret_def report_def shape_defs)
qed

section \<open>Recovery follows the object\<close>

text \<open>C31: the answer follows the state of the object that wrote the journal: over the journal of any run of the reducer, the
  directory of a run that ended is \<open>CONTAINED\<close>, that of a run that had not ended and belongs to another boot is \<open>INCOMPLETE\<close>,
  and neither kills anything.\<close>

theorem recovery_follows_the_object:
  assumes "core_run r k cfg es c" "kind_of (fld b ''kind'') = Some K_RunCreated" "u_of (fld b ''seq'') = 1" "list_all2 body_of bs es"
    and "pl_journal pl = Some j" "mapE loads (events_from 0 1000000 j) = Inr entries" "mapE (\<lambda>e. subscript e ''body'') entries = Inr (b # bs)"
    and "read_manifest (pl_manifest pl) = Inr man" "same_boot man (JStr boot) = Inr same" "rc_state c \<in> set TERMINAL_STATES \<or> \<not> same"
    and "recover_run E boot name pl s = (Inr v, s')"
  shows "s' = s \<and> fld v ''result'' = JStr (lit (if rc_state c \<in> set TERMINAL_STATES then ''CONTAINED'' else ''INCOMPLETE''))"
proof -
  have st: "replay_events (b # bs) = Inr (state_json (rc_state c))"
    using core_run_conforms(2) [OF assms(1)] replay_created [OF assms(2,3)] replay_bodies [OF assms(4)] by (simp add: replay_events_def)
  obtain i where i: "check_id (JStr name) ID_run = Inr i" using assms(11) by (auto simp: recover_run_def andthen_eq_Inr lift_r_def)
  obtain bodies z head where pl: "read_place name j (pl_open pl) = Inr (bodies, z, head)"
    using assms(5,11) by (auto simp: recover_run_def andthen_eq_Inr lift_r_def)
  have z: "z = state_json (rc_state c)"
    using pl st assms(6,7) by (auto simp: read_place_def read_back_journal_def events_after_def query_def db_view_def andthen_def lift_r_def ret_def
      split: db_open.splits if_splits sum.splits prod.splits)
  have "state_json (rc_state c) \<in> set (map state_json TERMINAL_STATES) \<longleftrightarrow> rc_state c \<in> set TERMINAL_STATES"
    by auto
  then show ?thesis using assms(5,8-11) i pl z
    by (auto simp: recover_run_def andthen_def lift_r_def ret_def report_def shape_defs split: if_splits)
qed

section \<open>Witnesses\<close>

text \<open>A run of this boot whose group has the pinned inode, next to a stray directory.\<close>

definition orphan_manifest :: json where
  "orphan_manifest = JObj [(lit ''boot_id'', JStr (lit ''b'')), (lit ''cgroup_inode'', JStr (lit ''7'')), (lit ''cgroup_path'', JStr (lit ''/g''))]"

definition orphan_env :: recovery_env where
  "orphan_env = \<lparr>inode = (\<lambda>_. Inr 7), kill_write = (\<lambda>_. Inr ())\<rparr>"

definition orphan_place :: place where
  "orphan_place = \<lparr>pl_is_dir = True, pl_journal = Some JOURNAL_SCHEMA, pl_open = Opened (\<lambda>_. False), pl_manifest = Holds (dumps_bytes orphan_manifest)\<rparr>"

definition nothing_killed :: rescue where "nothing_killed = \<lparr>rs_kills = []\<rparr>"

lemma orphan_manifest_read: "loads (dumps_bytes orphan_manifest) = Inr orphan_manifest"
proof -
  have "json_ok MAX_DEPTH orphan_manifest" by (simp add: orphan_manifest_def MAX_DEPTH_def distinct_keys_def lit_scalar)
  moreover have "canon orphan_manifest = orphan_manifest"
    by (simp add: orphan_manifest_def sorted_items_def utf16_key_def utf16_units_def lit_def)
  ultimately show ?thesis using loads_dumps by metis
qed

lemma empty_journal_read:
  "read_place name JOURNAL_SCHEMA (Opened (\<lambda>_. False)) = Inr ([], state_json CREATED, JObj [(lit ''seq'', JStr (lit ''0'')), (lit ''hash'', JStr ZERO_HASH)])"
  by (simp add: read_place_def read_back_journal_def events_after_def event_head_def run_row_def query_def failing_def db_view_def counted_def
    andthen_def lift_r_def ret_def events_from_def by_seq_def head_of_def recovered_head_def JOURNAL_SCHEMA_def bindE_def py_str_int_def
    dec_str_less_10 INT_MAX_STR_DIGITS_def Let_def tbl_get_def requireE_def lit_def ZERO_HASH_def)

lemma orphan_fields: "fld orphan_manifest ''boot_id'' = JStr (lit ''b'')" "fld orphan_manifest ''cgroup_path'' = JStr (lit ''/g'')"
  "fld orphan_manifest ''cgroup_inode'' = JStr (lit ''7'')"
  by (simp_all add: orphan_manifest_def shape_defs)

lemma seven: "py_str_int 7 = Inr (lit ''7'')"
  by (simp add: py_str_int_def dec_str_less_10 INT_MAX_STR_DIGITS_def Let_def lit_def)

lemma orphan_pinned: "pinned_orphan (orphan_env\<lparr>kill_write := k\<rparr>) (lit ''b'') name orphan_place (lit ''/g'')"
  unfolding pinned_orphan_def
  by (intro exI [of _ JOURNAL_SCHEMA] exI [of _ "[]"] exI [of _ "state_json CREATED"] exI [of _ "JObj [(lit ''seq'', JStr (lit ''0'')), (lit ''hash'', JStr ZERO_HASH)]"]
      exI [of _ "dumps_bytes orphan_manifest"] exI [of _ orphan_manifest] exI [of _ 7] exI [of _ "lit ''7''"])
    (simp add: orphan_place_def empty_journal_read orphan_manifest_read orphan_fields orphan_env_def seven TERMINAL_STATES_def)

lemma orphan_run:
  "recover_run (orphan_env\<lparr>kill_write := k\<rparr>) (lit ''b'') (plain_id ID_run) orphan_place s =
    (case k (lit ''/g'') of
       Inr _ \<Rightarrow> (Inr (report (plain_id ID_run) ''CONTAINED'' (JObj [(lit ''seq'', JStr (lit ''0'')), (lit ''hash'', JStr ZERO_HASH)])), s\<lparr>rs_kills := rs_kills s @ [lit ''/g'']\<rparr>)
     | Inl e \<Rightarrow> if e = Py OS_Error then (Inr (report (plain_id ID_run) ''CONTAINED'' (JObj [(lit ''seq'', JStr (lit ''0'')), (lit ''hash'', JStr ZERO_HASH)])), s) else (Inl e, s))"
  using fld_subscript [OF orphan_fields(1)] fld_subscript [OF orphan_fields(2)] fld_subscript [OF orphan_fields(3)]
    subscript_not_null [OF fld_subscript [OF orphan_fields(1)]]
  by (simp add: recover_run_def orphan_place_def empty_journal_read read_manifest_def orphan_manifest_read same_boot_def bindE_def andthen_def lift_r_def ret_def raise_def
    plain_id_checks TERMINAL_STATES_def rescue_orphan_def orphan_env_def seven kill_group_def modify_def split: sum.split)

lemma orphan_env_id: "orphan_env\<lparr>kill_write := \<lambda>_. Inr ()\<rparr> = orphan_env"
  by (simp add: orphan_env_def)

lemmas orphan_run_kills = orphan_run [of "\<lambda>_. Inr ()", unfolded orphan_env_id, simplified]

lemma orphan_recovered:
  "\<exists>v. recover_all orphan_env (lit ''b'') [(plain_id ID_run, orphan_place)] None nothing_killed = (Inr v, \<lparr>rs_kills = [lit ''/g'']\<rparr>)"
  by (simp add: recover_all_def orphan_run_kills andthen_def ret_def nothing_killed_def)

theorem recovery_kills_only_pinned_orphans_witness:
  "\<exists>ps. rs_kills (snd (recover_all orphan_env (lit ''b'') [(plain_id ID_run, orphan_place)] None nothing_killed)) = rs_kills nothing_killed @ ps \<and> length ps = 1 \<and>
    pinned_orphan orphan_env (lit ''b'') (plain_id ID_run) orphan_place (ps ! 0)"
proof -
  obtain v where v: "recover_all orphan_env (lit ''b'') [(plain_id ID_run, orphan_place)] None nothing_killed = (Inr v, \<lparr>rs_kills = [lit ''/g'']\<rparr>)"
    using orphan_recovered by blast
  from recovery_kills_only_pinned_orphans [OF v] v show ?thesis by (auto simp: nothing_killed_def)
qed

theorem recovery_reaches_every_orphan_witness:
  "lit ''/g'' \<in> set (rs_kills (snd (recover_all orphan_env (lit ''b'') [(plain_id ID_run, orphan_place)] None nothing_killed)))"
proof -
  obtain v where v: "recover_all orphan_env (lit ''b'') [(plain_id ID_run, orphan_place)] None nothing_killed = (Inr v, \<lparr>rs_kills = [lit ''/g'']\<rparr>)"
    using orphan_recovered by blast
  have "lit ''/g'' \<in> set (rs_kills (\<lparr>rs_kills = [lit ''/g'']\<rparr> :: rescue))"
    by (rule recovery_reaches_every_orphan [OF v, of "plain_id ID_run" orphan_place])
      (use orphan_pinned [of "\<lambda>_. Inr ()" "plain_id ID_run", unfolded orphan_env_id] in \<open>simp_all add: orphan_env_def\<close>)
  then show ?thesis by (simp only: v snd_conv)
qed

theorem one_failing_run_stops_recovery_witness:
  "\<exists>e. recover_all orphan_env (lit ''b'') [(plain_id ID_run, orphan_place), (lit ''bad'', orphan_place)] None nothing_killed = (Inl e, nothing_killed)"
proof -
  have bad: "recover_run orphan_env (lit ''b'') (lit ''bad'') orphan_place nothing_killed = (Inl (Lex INVALID_INPUT), nothing_killed)"
    by (simp add: recover_run_def check_id_def lit_def Let_def startswith_def andthen_def lift_r_def)
  have "sort_key fst [(plain_id ID_run, orphan_place), (lit ''bad'', orphan_place)] = [] @ (lit ''bad'', orphan_place) # [(plain_id ID_run, orphan_place)]"
    by (simp add: plain_id_def lit_def)
  from one_failing_run_stops_recovery [OF this _ bad] show ?thesis by (simp add: ret_def)
qed

theorem failed_kill_reported_contained_witness:
  "\<exists>v. recover_run (orphan_env\<lparr>kill_write := \<lambda>_. Inl (Py OS_Error)\<rparr>) (lit ''b'') (plain_id ID_run) orphan_place nothing_killed = (Inr v, nothing_killed) \<and>
     fld v ''result'' = JStr (lit ''CONTAINED'')"
proof -
  obtain v where v: "recover_run (orphan_env\<lparr>kill_write := \<lambda>_. Inl (Py OS_Error)\<rparr>) (lit ''b'') (plain_id ID_run) orphan_place nothing_killed = (Inr v, nothing_killed)"
    using orphan_run [of "\<lambda>_. Inl (Py OS_Error)" nothing_killed] by simp
  from failed_kill_reported_contained [OF v orphan_pinned] v show ?thesis by simp
qed

text \<open>The journal of a run that was created and no more.\<close>

theorem recovery_follows_the_object_witness:
  "\<exists>v. recover_run orphan_env (lit ''b'') (plain_id ID_run) \<lparr>pl_is_dir = True, pl_journal = Some created_journal, pl_open = Opened (\<lambda>_. False), pl_manifest = Missing\<rparr>
       nothing_killed = (Inr v, nothing_killed) \<and> fld v ''result'' = JStr (lit ''INCOMPLETE'')"
proof -
  let ?pl = "\<lparr>pl_is_dir = True, pl_journal = Some created_journal, pl_open = Opened (\<lambda>_. False), pl_manifest = Missing\<rparr>"
  let ?b = "fld (canon created_entry) ''body''"
  have raw: "events_from 0 1000000 created_journal = [dumps_bytes created_entry]"
    by (simp add: events_from_def by_seq_def created_journal_def JOURNAL_SCHEMA_def)
  have l: "mapE loads [dumps_bytes created_entry] = Inr [canon created_entry]" by (simp add: loads_dumps [OF created_entry_ok] bindE_def)
  have s: "mapE (\<lambda>e. subscript e ''body'') [canon created_entry] = Inr [?b]"
    by (simp add: canon_created shape_defs subscript_def dict_item_def bindE_def)
  have b: "subscript (canon created_entry) ''body'' = Inr ?b" by (simp add: canon_created shape_defs subscript_def dict_item_def)
  have jr: "jn_run created_journal = []" "head_of created_journal = (1, created_hash)"
    by (simp_all add: created_journal_def JOURNAL_SCHEMA_def head_of_def by_seq_def)
  have k: "kind_of (fld ?b ''kind'') = Some K_RunCreated" "u_of (fld ?b ''seq'') = 1"
    by (simp_all add: canon_created shape_defs small_u kind_of_iff)
  have run: "core_run [] [] JNull [] (RunCore [] [] JNull)" by (simp add: core_run_def core_steps.steps_refl)
  have rp: "replay_events [?b] = Inr (state_json CREATED)" using replay_created [OF k] by (simp add: replay_events_def bindE_def) (simp add: replay_init_def)
  have "\<exists>v. recover_run orphan_env (lit ''b'') (plain_id ID_run) ?pl nothing_killed = (Inr v, nothing_killed)"
    using rp by (simp add: recover_run_def read_place_def read_back_journal_def events_after_def event_head_def run_row_def query_def failing_def db_view_def
      counted_def raw loads_dumps [OF created_entry_ok] b jr andthen_def lift_r_def ret_def plain_id_checks read_manifest_def same_boot_def recovered_head_def bindE_def
      tbl_get_def requireE_def TERMINAL_STATES_def py_str_int_def dec_str_less_10 INT_MAX_STR_DIGITS_def Let_def)
  then obtain v where v: "recover_run orphan_env (lit ''b'') (plain_id ID_run) ?pl nothing_killed = (Inr v, nothing_killed)" ..
  from recovery_follows_the_object [OF run k, of "[]" ?pl created_journal "[canon created_entry]" None "lit ''b''" False, OF _ _ _ s _ _ _ v]
  show ?thesis using v by (simp add: raw loads_dumps [OF created_entry_ok] bindE_def read_manifest_def same_boot_def RunCore_def TERMINAL_STATES_def)
qed

end
