(* ===== verification/Cli.thy ===== *)
theory Cli imports Units Recovery Sdk begin

text \<open>
  Models the first half of \<open>src/lexwatt/cli.py\<close>: the parser of flags, the state of a command, the building of a launcher, and the
  commands \<open>doctor\<close>, \<open>estimate\<close>, \<open>verify\<close>, \<open>config validate\<close>, \<open>recover\<close> and \<open>version\<close>. The commands that run or reopen a
  run are in \<open>CliRuns\<close>.

  A command is a function of its arguments that either is a usage error or an action on \<open>cli\<close>, the process with the files it
  can read, the launcher over the state directory, what it printed and what it exported. A line of JSON is \<open>Line\<close>; of the
  text for people only the value it is made of is kept (\<open>Human\<close>, \<open>Usage\<close> and \<open>Complaint\<close> for usage errors).
\<close>

section \<open>Flags\<close>

datatype usage_error = Help | Misuse

datatype flag_value = On | Text pystr | Texts "pystr list"

type_synonym flags = "(pystr \<times> flag_value) list"
type_synonym flag_spec = "(pystr \<times> bool \<times> bool) list"

text \<open>\<open>s.partition("=")\<close>\<close>

definition partition_eq :: "pystr \<Rightarrow> pystr \<times> bool \<times> pystr" where
  "partition_eq s = (let n = takeWhile (\<lambda>c. c \<noteq> 61) s in (n, 61 \<in> set s, drop (Suc (length n)) s))"

definition put_value :: "bool \<Rightarrow> pystr \<Rightarrow> pystr \<Rightarrow> flags \<Rightarrow> flags" where
  "put_value repeatable name val fs =
    (if \<not> repeatable then AList.update name (Text val) fs
     else (case map_of fs name of
             Some (Texts vs) \<Rightarrow> AList.update name (Texts (vs @ [val])) fs
           | _ \<Rightarrow> AList.update name (Texts [val]) fs))"

text \<open>The loop of \<open>_parse_flags\<close>, with the flags and the positional arguments so far.\<close>

function parse_loop :: "flag_spec \<Rightarrow> pystr list \<Rightarrow> flags \<Rightarrow> pystr list \<Rightarrow> usage_error + flags \<times> pystr list" where
  "parse_loop spec args fs pos =
    (case args of
       [] \<Rightarrow> Inr (fs, pos)
     | a # as \<Rightarrow>
         if a = lit ''--help'' \<or> a = lit ''-h'' then Inl Help
         else if a = lit ''--'' then Inr (fs, pos @ as)
         else if startswith a (lit ''--'') then
           (case partition_eq (drop 2 a) of (name, eq, val) \<Rightarrow>
             (case map_of spec name of
                None \<Rightarrow> Inl Misuse
              | Some (takes, repeatable) \<Rightarrow>
                  if map_of fs name \<noteq> None \<and> \<not> repeatable then Inl Misuse
                  else if takes then
                    (if eq then parse_loop spec as (put_value repeatable name val fs) pos
                     else (case as of [] \<Rightarrow> Inl Misuse | v # as' \<Rightarrow> parse_loop spec as' (put_value repeatable name v fs) pos))
                  else if eq then Inl Misuse
                  else parse_loop spec as (AList.update name On fs) pos))
         else parse_loop spec as fs (pos @ [a]))"
  by pat_completeness auto
termination by (relation "measure (\<lambda>(spec, args, fs, pos). length args)") auto

declare parse_loop.simps [simp del]

definition parse_flags :: "pystr list \<Rightarrow> flag_spec \<Rightarrow> nat \<Rightarrow> usage_error + flags \<times> pystr list" where
  "parse_flags args spec allow_positionals =
    bindE (parse_loop spec args [] []) (\<lambda>(fs, pos). if length pos > allow_positionals then Inl Misuse else Inr (fs, pos))"

definition has_flag :: "flags \<Rightarrow> string \<Rightarrow> bool" where "has_flag fs k \<longleftrightarrow> map_of fs (lit k) \<noteq> None"

definition flag_text :: "flags \<Rightarrow> string \<Rightarrow> pystr" where
  "flag_text fs k = (case map_of fs (lit k) of Some (Text v) \<Rightarrow> v | _ \<Rightarrow> [])"

definition takes_value :: "string \<Rightarrow> pystr \<times> bool \<times> bool" where "takes_value k = (lit k, True, False)"
definition is_switch :: "string \<Rightarrow> pystr \<times> bool \<times> bool" where "is_switch k = (lit k, False, False)"

definition json_mode :: "flags \<Rightarrow> bool" where "json_mode fs = has_flag fs ''json''"

section \<open>The process\<close>

datatype emission = Line json | Human json | Raw bytes | Usage | Complaint

text \<open>\<open>cl_file\<close> reads a file; \<open>cl_policy\<close> and \<open>cl_models\<close> are the paths of the environment; \<open>cl_launcher\<close> is the state directory
  as the last process left it; \<open>cl_clock\<close> are the readings of the monotonic clock, \<open>cl_signal\<close> tells before which tick SIGINT arrives. Of the
  file system, \<open>cl_creatable\<close> tells which free names a file can be made or linked under, \<open>cl_writes\<close> how many bytes of so many a call
  of \<open>os.write\<close> takes (\<open>None\<close> is an \<open>OSError\<close>), \<open>cl_syncs\<close> and \<open>cl_unlinks\<close> whether \<open>fsync\<close> with \<open>close\<close>, and \<open>unlink\<close>, succeed;
  \<open>cl_exports\<close> are the files there.\<close>

record 'w cli =
  cl_root :: bool
  cl_file :: "pystr \<Rightarrow> exn + bytes"
  cl_policy :: pystr
  cl_models :: pystr
  cl_index_opens :: bool
  cl_launcher :: "'w launcher"
  cl_place :: "pystr \<Rightarrow> db_open \<times> manifest_file"
  cl_rescue :: rescue
  cl_renv :: recovery_env
  cl_clock :: "nat \<Rightarrow> int"
  cl_reads :: nat
  cl_signal :: "nat \<Rightarrow> bool"
  cl_ticks :: nat
  cl_creatable :: "pystr \<Rightarrow> bool"
  cl_writes :: "nat \<Rightarrow> nat option"
  cl_syncs :: bool
  cl_unlinks :: bool
  cl_exports :: "(pystr \<times> bytes) list"
  cl_out :: "emission list"

type_synonym ('w, 'a) cla = "('w cli, 'a) act"

definition print_out :: "emission \<Rightarrow> ('w, unit) cla" where
  "print_out e = modify (\<lambda>c. c\<lparr>cl_out := cl_out c @ [e]\<rparr>)"

definition emit :: "json \<Rightarrow> bool \<Rightarrow> ('w, unit) cla" where
  "emit v jm = (if jm then andthen (lift_r (write_json v)) (\<lambda>_. print_out (Line v)) else print_out (Human v))"

definition cli_error :: "json \<Rightarrow> json" where
  "cli_error code = JObj [(lit ''v'', JInt 1), (lit ''error'', JObj [(lit ''code'', code), (lit ''retryable'', JBool False)])]"

definition fail_with :: "json \<Rightarrow> bool \<Rightarrow> int \<Rightarrow> ('w, int) cla" where
  "fail_with code jm status =
    (if jm then andthen (emit (cli_error code) True) (\<lambda>_. ret status) else andthen (print_out (Human code)) (\<lambda>_. ret status))"

definition fail_code :: "code \<Rightarrow> bool \<Rightarrow> ('w, int) cla" where
  "fail_code c jm = fail_with (JStr (code_name c)) jm (exit_code_for c)"

text \<open>\<open>try: body / except LexwattError / except OSError\<close> with the two \<open>return _fail\<close>; a return inside the body is \<open>Inl\<close>.\<close>

definition guarded :: "bool \<Rightarrow> bool \<Rightarrow> (code \<Rightarrow> int) \<Rightarrow> ('w, int + 'a) cla \<Rightarrow> ('w, int + 'a) cla" where
  "guarded jm os status body =
    handle_exn body (\<lambda>e.
      case exn_code e of
        Some c \<Rightarrow> andthen (fail_with (JStr (code_name c)) jm (status c)) (\<lambda>s. ret (Inl s))
      | None \<Rightarrow> if os \<and> e = Py OS_Error then andthen (fail_with (JStr (code_name INVALID_INPUT)) jm 74) (\<lambda>s. ret (Inl s)) else raise e)"

definition tried :: "bool \<Rightarrow> bool \<Rightarrow> (code \<Rightarrow> int) \<Rightarrow> ('w, int + 'a) cla \<Rightarrow> ('a \<Rightarrow> ('w, int) cla) \<Rightarrow> ('w, int) cla" where
  "tried jm os status body rest = andthen (guarded jm os status body) (\<lambda>r. case r of Inl s \<Rightarrow> ret s | Inr x \<Rightarrow> rest x)"

definition require_root :: "('w, unit) cla" where
  "require_root = andthen (reads cl_root) (\<lambda>b. if b then ret () else raise (Lex UNSUPPORTED_PROFILE))"

text \<open>\<open>open(path, "rb").read()\<close>, and the same inside \<open>load_json_file\<close>.\<close>

definition read_json :: "pystr \<Rightarrow> ('w, json) cla" where
  "read_json path = andthen (reads (\<lambda>c. cl_file c path)) (\<lambda>r. lift_r (bindE r loads))"

definition loading :: "(bytes option \<Rightarrow> exn + 'a) \<Rightarrow> exn + bytes \<Rightarrow> exn + 'a" where
  "loading f r = (case r of Inr b \<Rightarrow> f (Some b) | Inl e \<Rightarrow> if e = Py OS_Error then f None else Inl e)"

definition on_launcher :: "('w, 'a) lau \<Rightarrow> ('w, 'a) cla" where
  "on_launcher m c = (case m (cl_launcher c) of (x, L) \<Rightarrow> (x, c\<lparr>cl_launcher := L\<rparr>))"

text \<open>\<open>_launcher\<close>: a new launcher over the state directory.\<close>

definition make_launcher :: "('w, unit) cla" where
  "make_launcher =
    andthen (reads id) (\<lambda>c.
    andthen (lift_r (catch_lex (loading load_host_policy (cl_file c (cl_policy c))) (\<lambda>_. Inl (Lex UNSUPPORTED_PROFILE)))) (\<lambda>hp.
    andthen (lift_r (catch_lex (loading load_model_map (cl_file c (cl_models c))) (\<lambda>_. Inr (JObj [])))) (\<lambda>mm.
      if \<not> cl_index_opens c then raise AuditFault
      else modify (\<lambda>c. c\<lparr>cl_launcher := (restart (cl_launcher c))\<lparr>la_policy := hp, la_model_map := dict_of mm\<rparr>\<rparr>))))"

section \<open>Commands without a run\<close>

type_synonym 'w command = "pystr list \<Rightarrow> usage_error + ('w, int) cla"

definition profile_names :: "pystr list" where "profile_names = [lit ''linux-rapl-v1'', lit ''linux-ledger-v1'', lit ''offline-v1'']"

definition offline_caps :: json where
  "offline_caps = JObj [(lit ''profile'', JStr (lit ''offline-v1'')), (lit ''cgroup_kill'', JBool False), (lit ''task_uid_isolation'', JBool False),
     (lit ''seccomp'', JBool False), (lit ''namespaces'', JBool False), (lit ''rapl_domains'', JArr []), (lit ''failures'', JArr [])]"

definition cmd_doctor :: "'w env \<Rightarrow> 'w command" where
  "cmd_doctor E args =
    bindE (parse_flags args [takes_value ''profile'', is_switch ''json''] 0) (\<lambda>(fs, pos). Inr
      (let profile = (if has_flag fs ''profile'' then flag_text fs ''profile'' else lit ''linux-rapl-v1''); jm = json_mode fs
       in if profile \<notin> set profile_names then fail_code INVALID_INPUT jm
          else andthen (if profile = lit ''offline-v1'' then ret offline_caps else on_launcher (on_host (env_capabilities E (JStr profile)))) (\<lambda>caps.
            andthen (emit caps jm) (\<lambda>_. ret (if arr_of (fld caps ''failures'') = [] then 0 else 65)))))"

text \<open>The first entry of the catalog with the given id\<close>

definition pick_model :: "pystr \<Rightarrow> json list \<Rightarrow> json option" where
  "pick_model name = find (\<lambda>m. case m of JObj d \<Rightarrow> dict_get d (lit ''id'') = JStr name | _ \<Rightarrow> False)"

definition estimate_flags :: flag_spec where
  "estimate_flags = [takes_value ''model-file'', takes_value ''model'', takes_value ''input-tokens'', takes_value ''output-tokens'', takes_value ''batch'', is_switch ''json'']"

definition estimate_body :: "flags \<Rightarrow> ('w, int + json) cla" where
  "estimate_body fs =
    andthen (read_json (flag_text fs ''model-file'')) (\<lambda>catalog.
    andthen (lift_r (case catalog of JArr xs \<Rightarrow> if length xs > 32 then bad else Inr xs | _ \<Rightarrow> bad)) (\<lambda>xs.
    (case pick_model (flag_text fs ''model'') xs of
       None \<Rightarrow> andthen (fail_code UNSUPPORTED_MODEL (json_mode fs)) (\<lambda>s. ret (Inl s))
     | Some model \<Rightarrow>
         andthen (lift_r (if has_flag fs ''batch'' then parse_int_range (flag_text fs ''batch'') 1 256 else Inr 1)) (\<lambda>batch.
         andthen (lift_r (estimate_for_model_work model
           (JObj [(lit ''model_id'', fld model ''id''), (lit ''input_tokens'', JStr (flag_text fs ''input-tokens'')),
                  (lit ''max_output_tokens'', JStr (flag_text fs ''output-tokens'')), (lit ''batch'', JInt batch)]))) (\<lambda>est.
           ret (Inr (estimate_json est)))))))"

definition cmd_estimate :: "'w command" where
  "cmd_estimate args =
    bindE (parse_flags args estimate_flags 0) (\<lambda>(fs, pos).
      if list_ex (\<lambda>k. \<not> has_flag fs k) [''model-file'', ''model'', ''input-tokens'', ''output-tokens''] then Inl Misuse
      else Inr (tried (json_mode fs) True exit_code_for (estimate_body fs) (\<lambda>est. andthen (emit est (json_mode fs)) (\<lambda>_. ret 0))))"

definition INTEGRITY_CODES :: "code list" where
  "INTEGRITY_CODES = [HASH_MISMATCH, SIGNATURE_INVALID, UNTRUSTED_KEY, CHAIN_INVALID, TRANSITION_INVALID, INCOMPLETE]"

definition pin_of :: "pystr \<Rightarrow> json option" where
  "pin_of kv = (case partition_eq kv of (kid, eq, pub) \<Rightarrow> if eq then Some (JObj [(lit ''key_id'', JStr kid), (lit ''public_key'', JStr pub)]) else None)"

definition key_flags :: "flags \<Rightarrow> pystr list" where
  "key_flags fs = (case map_of fs (lit ''key'') of Some (Texts vs) \<Rightarrow> vs | _ \<Rightarrow> [])"

definition verify_flags :: flag_spec where
  "verify_flags = [(lit ''key'', True, True), is_switch ''require-complete'', is_switch ''allow-prefix'', is_switch ''json'']"

definition cmd_verify :: "ed_lib \<Rightarrow> 'w command" where
  "cmd_verify lib args =
    bindE (parse_flags args verify_flags 1) (\<lambda>(fs, pos).
      if pos = [] then Inl Misuse
      else Inr
        (let jm = json_mode fs; pins = map pin_of (key_flags fs)
         in if has_flag fs ''require-complete'' \<and> has_flag fs ''allow-prefix'' then fail_code INVALID_INPUT jm
            else if None \<in> set pins then fail_code INVALID_INPUT jm
            else tried jm True (\<lambda>c. if c \<in> set INTEGRITY_CODES then 76 else exit_code_for c)
              (andthen (read_json (hd pos)) (\<lambda>bundle.
               andthen (lift_r (verify_bundle lib bundle (map the pins) (\<not> has_flag fs ''allow-prefix''))) (\<lambda>res. ret (Inr res))))
              (\<lambda>res. andthen (emit res jm) (\<lambda>_. ret 0))))"

definition config_body :: "flags \<Rightarrow> pystr \<Rightarrow> ('w, int + json) cla" where
  "config_body fs path =
    andthen (reads (\<lambda>c. cl_file c path)) (\<lambda>r.
    andthen (lift_r (loading load_config r)) (\<lambda>cfg.
    andthen (if \<not> has_flag fs ''host-policy'' then ret ''NOT_RUN''
             else
               andthen require_root (\<lambda>_.
               andthen (reads (\<lambda>c. cl_file c (flag_text fs ''host-policy''))) (\<lambda>r.
               andthen (lift_r (loading load_host_policy r)) (\<lambda>hp.
               andthen (lift_r (requireE (budget_covers_reserve hp cfg) (Lex BUDGET_TOO_SMALL))) (\<lambda>_. ret ''PASSED''))))) (\<lambda>preflight.
    andthen (lift_r (effective_config_hash cfg)) (\<lambda>h.
      ret (Inr (JObj [(lit ''v'', JInt 1), (lit ''valid'', JBool True), (lit ''config_hash'', JStr h), (lit ''preflight'', JStr (lit preflight))]))))))"

definition cmd_config :: "'w command" where
  "cmd_config args =
    (case args of
       [] \<Rightarrow> Inl Misuse
     | a # as \<Rightarrow>
         if a \<noteq> lit ''validate'' then Inl Misuse
         else bindE (parse_flags as [takes_value ''host-policy'', is_switch ''json''] 1) (\<lambda>(fs, pos).
           if pos = [] then Inl Misuse
           else Inr (tried (json_mode fs) True exit_code_for (config_body fs (hd pos)) (\<lambda>out. andthen (emit out (json_mode fs)) (\<lambda>_. ret 0)))))"

text \<open>\<open>recover_all\<close> over the run directories of the state directory\<close>

definition places :: "'w cli \<Rightarrow> (pystr \<times> place) list" where
  "places c = map (\<lambda>(rid, j). (rid, \<lparr>pl_is_dir = True, pl_journal = j, pl_open = fst (cl_place c rid), pl_manifest = snd (cl_place c rid)\<rparr>)) (la_disk (cl_launcher c))"

definition recover_state :: "'w env \<Rightarrow> pystr option \<Rightarrow> ('w, json) cla" where
  "recover_state E only_run c =
    (case recover_all (cl_renv c) (env_boot_id E (la_world (cl_launcher c))) (places c) only_run (cl_rescue c) of (x, s) \<Rightarrow> (x, c\<lparr>cl_rescue := s\<rparr>))"

definition cmd_recover :: "'w env \<Rightarrow> 'w command" where
  "cmd_recover E args =
    bindE (parse_flags args [takes_value ''run'', is_switch ''all'', is_switch ''json''] 0) (\<lambda>(fs, pos).
      if has_flag fs ''run'' = has_flag fs ''all'' then Inl Misuse
      else Inr (tried (json_mode fs) False exit_code_for
        (andthen require_root (\<lambda>_. andthen make_launcher (\<lambda>_.
         andthen (recover_state E (if has_flag fs ''run'' then Some (flag_text fs ''run'') else None)) (\<lambda>r. ret (Inr r)))))
        (\<lambda>r. andthen (emit r (json_mode fs)) (\<lambda>_. ret 0))))"

definition version_info :: json where
  "version_info = JObj [(lit ''v'', JInt 1), (lit ''cli'', JStr (lit ''1.0.0'')), (lit ''protocol'', JInt 1), (lit ''storage'', JInt 1),
     (lit ''estimator'', JStr (lit ''dense-v1'')), (lit ''profiles'', JArr (map JStr profile_names))]"

definition cmd_version :: "'w command" where
  "cmd_version args = bindE (parse_flags args [is_switch ''json''] 0) (\<lambda>(fs, pos). Inr (andthen (emit version_info (json_mode fs)) (\<lambda>_. ret 0)))"

end
