(* ===== verification/CliRuns.thy ===== *)
theory CliRuns imports Cli begin

text \<open>
  Models the second half of \<open>src/lexwatt/cli.py\<close>: the outcome of a run and its exit status, the export of a receipt, the
  foreground loop of \<open>agent-cap run\<close>, \<open>meter\<close>, \<open>kill\<close>, \<open>receipt\<close>, and \<open>main\<close>. A loop that may not end is a partial function
  into options: \<open>None\<close> is not returning. SIGINT arrives between two ticks; \<open>rounds\<close> is the number of waits that the
  shutdown deadline allows.
\<close>

section \<open>The outcome of a run\<close>

text \<open>The status for the four terminal states and for \<open>UNCONFIRMED\<close>\<close>

definition outcome_exit :: "run_core \<Rightarrow> code option \<Rightarrow> int" where
  "outcome_exit c rejected_code =
    (let re = rc_root_exit c in
     case rc_state c of
       COMPLETED \<Rightarrow>
         (if truthy_dict re \<and> fld re ''code'' \<noteq> JNull then int_of (fld re ''code'')
          else if truthy_dict re \<and> fld re ''signal'' \<noteq> JNull then 128 + int_of (fld re ''signal'')
          else 0)
     | KILLED \<Rightarrow>
         (case rc_stop_reason c of
            Some r \<Rightarrow> if r \<in> set BUDGET_REASONS then 124 else if r = R_OPERATOR then 125 else if r = R_SIGNAL then 130 else 124
          | None \<Rightarrow> 124)
     | FAILED \<Rightarrow> 70
     | REJECTED \<Rightarrow> exit_code_for (case rejected_code of Some x \<Rightarrow> x | None \<Rightarrow> CONTAINMENT_FAULT)
     | _ \<Rightarrow> 70)"

definition run_outcome :: "('w, json \<times> int) eng" where
  "run_outcome =
    andthen (on_db event_head) (\<lambda>sh.
    andthen (lift_r (recovered_head sh)) (\<lambda>head.
    andthen (reads id) (\<lambda>r.
      (let c = rn_core r; st = rc_state c; status = outcome_exit c (rn_rejected_code r)
       in ret (JObj [(lit ''v'', JInt 1), (lit ''run_id'', JStr (rc_run_id c)), (lit ''state'', JStr (state_name st)), (lit ''exit_code'', JInt status),
            (lit ''root_exit'', rc_root_exit c), (lit ''head'', head),
            (lit ''completeness'', JStr (lit (if st \<in> {COMPLETED, KILLED, FAILED, REJECTED} then ''COMPLETE'' else ''PREFIX''))),
            (lit ''confirmed'', JBool (rn_containment_empty r \<or> st \<in> {COMPLETED, KILLED, REJECTED}))], status)))))"

section \<open>Receipts\<close>

text \<open>\<open>_export_receipt\<close>: a file is made under a second name that must be free, its bytes written with one call of \<open>os.write\<close>, whose
  count is not looked at, and synced; then it is linked to its name, which must be free, and the second name removed.\<close>

definition open_excl :: "pystr \<Rightarrow> ('w, unit) cla" where
  "open_excl path =
    andthen (reads id) (\<lambda>c.
      if \<not> cl_creatable c path \<or> map_of (cl_exports c) path \<noteq> None then raise (Py OS_Error)
      else modify (\<lambda>c. c\<lparr>cl_exports := (path, []) # cl_exports c\<rparr>))"

definition os_write :: "pystr \<Rightarrow> bytes \<Rightarrow> ('w, unit) cla" where
  "os_write path data =
    andthen (reads id) (\<lambda>c.
      case cl_writes c (length data) of
        None \<Rightarrow> raise (Py OS_Error)
      | Some n \<Rightarrow> modify (\<lambda>c. c\<lparr>cl_exports := AList.update path (take n data) (cl_exports c)\<rparr>))"

definition sync_close :: "('w, unit) cla" where
  "sync_close = andthen (reads cl_syncs) (\<lambda>ok. if ok then ret () else raise (Py OS_Error))"

definition create_file :: "pystr \<Rightarrow> bytes \<Rightarrow> ('w, unit) cla" where
  "create_file path data = andthen (open_excl path) (\<lambda>_. andthen (os_write path data) (\<lambda>_. sync_close))"

definition link_file :: "pystr \<Rightarrow> pystr \<Rightarrow> ('w, unit) cla" where
  "link_file old new =
    andthen (reads id) (\<lambda>c.
      case map_of (cl_exports c) old of
        None \<Rightarrow> raise (Py OS_Error)
      | Some data \<Rightarrow>
          if \<not> cl_creatable c new \<or> map_of (cl_exports c) new \<noteq> None then raise (Py OS_Error)
          else modify (\<lambda>c. c\<lparr>cl_exports := (new, data) # cl_exports c\<rparr>))"

definition unlink_file :: "pystr \<Rightarrow> ('w, unit) cla" where
  "unlink_file path =
    andthen (reads cl_unlinks) (\<lambda>ok. if ok then modify (\<lambda>c. c\<lparr>cl_exports := AList.delete path (cl_exports c)\<rparr>) else raise (Py OS_Error))"

definition export_receipt :: "pystr \<Rightarrow> pystr \<Rightarrow> ('w, unit) cla" where
  "export_receipt rid out_path =
    andthen (on_launcher (on_run rid (run_bundle JNull))) (\<lambda>bundle.
    andthen (lift_r (dumps bundle)) (\<lambda>data.
      if out_path = lit ''-'' then print_out (Raw data)
      else
        (let tmp = out_path @ lit ''.tmp''
         in andthen (create_file tmp data) (\<lambda>_. andthen (link_file tmp out_path) (\<lambda>_. unlink_file tmp)))))"

section \<open>The loops\<close>

definition terminal_core :: "run_core \<Rightarrow> bool" where "terminal_core c \<longleftrightarrow> rc_state c \<in> {COMPLETED, KILLED, FAILED, REJECTED}"

text \<open>The state of the run object, once it is in memory.\<close>

definition core_of :: "pystr \<Rightarrow> 'w cli \<Rightarrow> run_core" where
  "core_of rid c = (case map_of (la_runs (cl_launcher c)) rid of Some r \<Rightarrow> rn_core r | None \<Rightarrow> RunCore rid [] JNull)"

text \<open>One tick of all runs, after the handler of a pending SIGINT.\<close>

definition tick_step :: "'w env \<Rightarrow> ed_lib \<Rightarrow> pystr \<Rightarrow> ('w, unit) cla" where
  "tick_step E lib rid =
    andthen (reads (\<lambda>c. cl_signal c (cl_ticks c))) (\<lambda>sig.
    andthen (modify (\<lambda>c. c\<lparr>cl_ticks := Suc (cl_ticks c)\<rparr>)) (\<lambda>_.
    andthen (when_act sig (on_launcher (on_run rid (run_latch E lib R_SIGNAL JNull)))) (\<lambda>_.
      on_launcher (tick_all E lib))))"

fun shutdown_wait :: "('w, unit) cla \<Rightarrow> pystr \<Rightarrow> nat \<Rightarrow> ('w, unit) cla" where
  "shutdown_wait step rid 0 c = (Inr (), c)"
| "shutdown_wait step rid (Suc k) c =
    (if rc_state (core_of rid c) = UNCONFIRMED then andthen step (\<lambda>_. shutdown_wait step rid k) c else (Inr (), c))"

partial_function (option) drive_loop :: "('w, unit) cla \<Rightarrow> pystr \<Rightarrow> nat \<Rightarrow> 'w cli \<Rightarrow> ((exn + unit) \<times> 'w cli) option" where
  "drive_loop step rid rounds c =
    (case step c of
       (Inl e, c') \<Rightarrow> Some (Inl e, c')
     | (Inr _, c') \<Rightarrow>
         if terminal_core (core_of rid c') then Some (Inr (), c')
         else if rc_state (core_of rid c') = UNCONFIRMED then Some (shutdown_wait step rid rounds c')
         else drive_loop step rid rounds c')"

text \<open>\<open>_drive_run\<close>\<close>

definition drive_run :: "'w env \<Rightarrow> ed_lib \<Rightarrow> pystr \<Rightarrow> nat \<Rightarrow> bool \<Rightarrow> 'w cli \<Rightarrow> ((exn + int) \<times> 'w cli) option" where
  "drive_run E lib rid rounds jm c =
    map_option (\<lambda>(x, c'). andthen (lift_r x) (\<lambda>_. andthen (on_launcher (on_run rid run_outcome)) (\<lambda>(out, status). andthen (emit out jm) (\<lambda>_. ret status))) c')
      (drive_loop (tick_step E lib rid) rid rounds c)"

text \<open>\<open>while time.monotonic() < deadline and the run has not ended\<close>\<close>

partial_function (option) kill_loop :: "('w, unit) cla \<Rightarrow> pystr \<Rightarrow> int \<Rightarrow> 'w cli \<Rightarrow> ((exn + unit) \<times> 'w cli) option" where
  "kill_loop step rid deadline c =
    (let t = cl_clock c (cl_reads c); c1 = c\<lparr>cl_reads := Suc (cl_reads c)\<rparr>
     in if t < deadline \<and> \<not> terminal_core (core_of rid c1) then
          (case step c1 of
             (Inl e, c') \<Rightarrow> Some (Inl e, c')
           | (Inr _, c') \<Rightarrow> kill_loop step rid deadline c')
        else Some (Inr (), c1))"

section \<open>Commands over the launcher\<close>

text \<open>A command that may not return, with the handlers of \<open>tried\<close>\<close>

type_synonym 'w run_command = "pystr list \<Rightarrow> usage_error + ('w cli \<Rightarrow> ((exn + int) \<times> 'w cli) option)"

definition returning :: "'w command \<Rightarrow> 'w run_command" where
  "returning cmd args = bindE (cmd args) (\<lambda>m. Inr (\<lambda>c. Some (m c)))"

text \<open>\<open>except LexwattError as e: return _fail(e.code, jm)\<close> around what a loop leaves\<close>

definition caught :: "bool \<Rightarrow> (exn + int) \<times> 'w cli \<Rightarrow> (exn + int) \<times> 'w cli" where
  "caught jm r =
    (case r of
       (Inl e, c) \<Rightarrow> (case exn_code e of Some k \<Rightarrow> fail_code k jm c | None \<Rightarrow> r)
     | (Inr _, _) \<Rightarrow> r)"

definition run_flags :: flag_spec where
  "run_flags = [takes_value ''config'', takes_value ''max-flops'', takes_value ''max-joules'', takes_value ''spawns'', takes_value ''max-wall-ms'',
     takes_value ''cwd'', takes_value ''env-file'', takes_value ''receipt'', is_switch ''json'']"

text \<open>The overrides, in the order in which the flags are looked at.\<close>

definition override :: "flags \<Rightarrow> string \<Rightarrow> string \<Rightarrow> (pystr \<Rightarrow> exn + json) \<Rightarrow> dict \<Rightarrow> exn + dict" where
  "override fs flag k reader d = (if has_flag fs flag then bindE (reader (flag_text fs flag)) (\<lambda>v. Inr (d @ [(lit k, v)])) else Inr d)"

definition as_text :: "exn + int \<Rightarrow> exn + json" where
  "as_text r = bindE r (\<lambda>n. bindE (py_str_int n) (\<lambda>s. Inr (JStr s)))"

definition overrides_of :: "flags \<Rightarrow> exn + dict" where
  "overrides_of fs =
    bindE (override fs ''max-flops'' ''max_flops'' (\<lambda>t. as_text (parse_flops t)) []) (\<lambda>d.
    bindE (override fs ''max-joules'' ''max_energy_uj'' (\<lambda>t. as_text (parse_joules t)) d) (\<lambda>d.
    bindE (override fs ''spawns'' ''spawns'' (\<lambda>t. bindE (parse_int_range t 0 1024) (\<lambda>n. Inr (JInt n))) d) (\<lambda>d.
      override fs ''max-wall-ms'' ''max_wall_us'' (\<lambda>t. as_text (wall_ms_to_us t)) d)))"

definition run_env :: "flags \<Rightarrow> ('w, json) cla" where
  "run_env fs =
    (if \<not> has_flag fs ''env-file'' then ret (JObj [(lit ''LANG'', JStr (lit ''C.UTF-8''))])
     else andthen (read_json (flag_text fs ''env-file'')) (\<lambda>v. case v of JObj d \<Rightarrow> ret (JObj d) | _ \<Rightarrow> raise (Lex INVALID_INPUT)))"

definition run_body :: "'w env \<Rightarrow> ed_lib \<Rightarrow> (nat \<Rightarrow> bytes) \<Rightarrow> (json \<Rightarrow> exn + pystr) \<Rightarrow> flags \<Rightarrow> pystr list \<Rightarrow> ('w, int + json) cla" where
  "run_body E lib seeds hash_file fs cmd =
    andthen (reads (\<lambda>c. cl_file c (flag_text fs ''config''))) (\<lambda>r.
    andthen (lift_r (loading load_config r)) (\<lambda>cfg0.
    andthen (lift_r (overrides_of fs)) (\<lambda>ov.
    andthen (lift_r (if ov = [] then Inr cfg0 else apply_overrides cfg0 ov)) (\<lambda>cfg.
    andthen (run_env fs) (\<lambda>env.
    (let cwd = (if has_flag fs ''cwd'' then flag_text fs ''cwd'' else lit ''/work'')
     in andthen (lift_r (requireE (startswith cwd (lit ''/'')) (Lex INVALID_INPUT))) (\<lambda>_.
        andthen require_root (\<lambda>_.
        andthen make_launcher (\<lambda>_.
        andthen (on_launcher (on_host (env_new_id E ID_request (\<lambda>_. False)))) (\<lambda>req_id.
        andthen (on_launcher (run_start E lib seeds hash_file
          (JObj [(lit ''config'', cfg), (lit ''exec'', JObj [(lit ''argv'', JArr (map JStr cmd)), (lit ''cwd'', JStr cwd), (lit ''env'', env)])]) req_id 0)) (\<lambda>res.
          ret (Inr res))))))))))))"

text \<open>After the launch: a rejected run, or the foreground loop and the receipt, whose \<open>OSError\<close> is passed over.\<close>

definition run_foreground :: "'w env \<Rightarrow> ed_lib \<Rightarrow> nat \<Rightarrow> flags \<Rightarrow> json \<Rightarrow> 'w cli \<Rightarrow> ((exn + int) \<times> 'w cli) option" where
  "run_foreground E lib rounds fs res c =
    (let jm = json_mode fs; rid = str_of (fld res ''run_id'')
     in if fld res ''state'' = JStr (lit ''REJECTED'') then
          Some (fail_with (fld res ''error'') jm (case find (\<lambda>x. JStr (code_name x) = fld res ''error'') CODES of Some x \<Rightarrow> exit_code_for x | None \<Rightarrow> 64) c)
        else if map_of (la_runs (cl_launcher c)) rid = None then Some (Inl (Py Key_Error), c)
        else
          map_option (\<lambda>(x, c'). andthen (lift_r x) (\<lambda>status.
              if has_flag fs ''receipt'' then
                andthen (handle_exn (export_receipt rid (flag_text fs ''receipt'')) (\<lambda>e. if e = Py OS_Error then ret () else raise e)) (\<lambda>_. ret status)
              else ret status) c')
            (drive_run E lib rid rounds jm c))"

text \<open>A body whose value is a status, or goes on to a loop.\<close>

definition then_loop :: "('w, int + 'a) cla \<Rightarrow> ('a \<Rightarrow> 'w cli \<Rightarrow> ((exn + int) \<times> 'w cli) option) \<Rightarrow> 'w cli \<Rightarrow> ((exn + int) \<times> 'w cli) option" where
  "then_loop m k c = (case m c of (Inl e, c') \<Rightarrow> Some (Inl e, c') | (Inr (Inl s), c') \<Rightarrow> Some (Inr s, c') | (Inr (Inr x), c') \<Rightarrow> k x c')"

definition cmd_run :: "'w env \<Rightarrow> ed_lib \<Rightarrow> (nat \<Rightarrow> bytes) \<Rightarrow> (json \<Rightarrow> exn + pystr) \<Rightarrow> nat \<Rightarrow> 'w run_command" where
  "cmd_run E lib seeds hash_file rounds args =
    (if lit ''--'' \<notin> set args then Inl Misuse
     else
       (let flag_args = takeWhile (\<lambda>a. a \<noteq> lit ''--'') args; cmd = drop (Suc (length flag_args)) args
        in if cmd = [] then Inl Misuse
           else bindE (parse_flags flag_args run_flags 0) (\<lambda>(fs, pos).
             if \<not> has_flag fs ''config'' then Inl Misuse
             else Inr (then_loop (guarded (json_mode fs) True exit_code_for (run_body E lib seeds hash_file fs cmd)) (run_foreground E lib rounds fs)))))"

text \<open>\<open>meter\<close>: the interval is parsed outside the \<open>try\<close>, so its error is not caught.\<close>

definition meter_step :: "'w env \<Rightarrow> ed_lib \<Rightarrow> bool \<Rightarrow> pystr \<Rightarrow> ('w, unit) cla" where
  "meter_step E lib jm rid =
    andthen (on_launcher (tick_all E lib)) (\<lambda>_.
    andthen (on_launcher (open_run rid)) (\<lambda>_.
    andthen (on_launcher (on_run rid (status_object E))) (\<lambda>st. emit st jm)))"

partial_function (option) meter_loop :: "('w, unit) cla \<Rightarrow> pystr \<Rightarrow> bool \<Rightarrow> 'w cli \<Rightarrow> ((exn + int) \<times> 'w cli) option" where
  "meter_loop step rid again c =
    (case step c of
       (Inl e, c') \<Rightarrow> Some (Inl e, c')
     | (Inr _, c') \<Rightarrow> if \<not> again \<or> terminal_core (core_of rid c') then Some (Inr 0, c') else meter_loop step rid again c')"

definition bounded_flag :: "flags \<Rightarrow> string \<Rightarrow> int \<Rightarrow> int \<Rightarrow> int \<Rightarrow> exn + int" where
  "bounded_flag fs k dflt lo hi = (if has_flag fs k then parse_int_range (flag_text fs k) lo hi else Inr dflt)"

definition cmd_meter :: "'w env \<Rightarrow> ed_lib \<Rightarrow> 'w run_command" where
  "cmd_meter E lib args =
    bindE (parse_flags args [is_switch ''follow'', takes_value ''interval-ms'', is_switch ''json''] 1) (\<lambda>(fs, pos).
      if pos = [] then Inl Misuse
      else Inr (\<lambda>c.
        (case bounded_flag fs ''interval-ms'' 1000 100 60000 of
           Inl e \<Rightarrow> Some (Inl e, c)
         | Inr _ \<Rightarrow>
             then_loop (guarded (json_mode fs) False exit_code_for (andthen require_root (\<lambda>_. andthen make_launcher (\<lambda>_. ret (Inr ())))))
               (\<lambda>_ c. map_option (caught (json_mode fs)) (meter_loop (meter_step E lib (json_mode fs) (hd pos)) (hd pos) (has_flag fs ''follow'') c)) c)))"

text \<open>\<open>kill\<close>\<close>

definition kill_body :: "'w env \<Rightarrow> ed_lib \<Rightarrow> pystr \<Rightarrow> ('w, int + json) cla" where
  "kill_body E lib rid =
    andthen require_root (\<lambda>_.
    andthen make_launcher (\<lambda>_.
    andthen (on_launcher (open_run rid)) (\<lambda>_.
    andthen (on_launcher (on_host (env_new_id E ID_request (\<lambda>_. False)))) (\<lambda>req_id.
    andthen (on_launcher (on_run rid (run_handle E lib (lit ''owner'') (request_object req_id (lit ''run.stop'') [(lit ''run_id'', JStr rid)]) None))) (\<lambda>resp.
      ret (Inr resp))))))"

definition kill_report :: "bool \<Rightarrow> pystr \<Rightarrow> int \<Rightarrow> json \<Rightarrow> ('w, int) cla" where
  "kill_report jm rid wait_ms resp =
    andthen (on_launcher (on_run rid (reads id))) (\<lambda>r.
      (let c = rn_core r; confirmed = (rn_containment_empty r \<or> terminal_core c)
       in andthen (emit (JObj [(lit ''v'', JInt 1), (lit ''run_id'', JStr rid), (lit ''state'', JStr (state_name (rc_state c))),
              (lit ''confirmed'', JBool confirmed), (lit ''stop_reason'', stop_reason_json c)]) jm) (\<lambda>_.
          ret (if fld resp ''ok'' = JBool True \<and> (confirmed \<or> wait_ms = 0) then 0 else if confirmed then 0 else 70))))"

definition kill_wait :: "'w env \<Rightarrow> ed_lib \<Rightarrow> bool \<Rightarrow> pystr \<Rightarrow> int \<Rightarrow> json \<Rightarrow> 'w cli \<Rightarrow> ((exn + int) \<times> 'w cli) option" where
  "kill_wait E lib jm rid wait_ms resp c =
    map_option (\<lambda>(x, c'). caught jm (andthen (lift_r x) (\<lambda>_. kill_report jm rid wait_ms resp) c'))
      (kill_loop (on_launcher (tick_all E lib)) rid (cl_clock c (cl_reads c) + wait_ms * 1000) (c\<lparr>cl_reads := Suc (cl_reads c)\<rparr>))"

definition cmd_kill :: "'w env \<Rightarrow> ed_lib \<Rightarrow> 'w run_command" where
  "cmd_kill E lib args =
    bindE (parse_flags args [takes_value ''wait-ms'', is_switch ''json''] 1) (\<lambda>(fs, pos).
      if pos = [] then Inl Misuse
      else Inr (\<lambda>c.
        (case bounded_flag fs ''wait-ms'' 1000 0 60000 of
           Inl e \<Rightarrow> Some (Inl e, c)
         | Inr wait_ms \<Rightarrow>
             then_loop (guarded (json_mode fs) False exit_code_for (kill_body E lib (hd pos)))
               (kill_wait E lib (json_mode fs) (hd pos) wait_ms) c)))"

text \<open>\<open>receipt\<close>: the bundle is made once for the bytes, and again by the export.\<close>

definition receipt_body :: "flags \<Rightarrow> pystr \<Rightarrow> ('w, int + unit) cla" where
  "receipt_body fs rid =
    andthen require_root (\<lambda>_.
    andthen make_launcher (\<lambda>_.
    andthen (on_launcher (open_run rid)) (\<lambda>_.
    andthen (on_launcher (on_run rid (run_bundle JNull))) (\<lambda>bundle.
    andthen (lift_r (dumps bundle)) (\<lambda>data.
    andthen (if has_flag fs ''output'' then export_receipt rid (flag_text fs ''output'') else print_out (Raw data)) (\<lambda>_. ret (Inr ())))))))"

definition cmd_receipt :: "'w command" where
  "cmd_receipt args =
    bindE (parse_flags args [takes_value ''output'', is_switch ''json''] 1) (\<lambda>(fs, pos).
      if pos = [] then Inl Misuse
      else Inr (tried (json_mode fs) True exit_code_for (receipt_body fs (hd pos)) (\<lambda>_. ret 0)))"

section \<open>\<open>main\<close>\<close>

definition COMMANDS :: "'w env \<Rightarrow> ed_lib \<Rightarrow> (nat \<Rightarrow> bytes) \<Rightarrow> (json \<Rightarrow> exn + pystr) \<Rightarrow> nat \<Rightarrow> (pystr \<times> 'w run_command) list" where
  "COMMANDS E lib seeds hash_file rounds =
    [(lit ''doctor'', returning (cmd_doctor E)), (lit ''estimate'', returning cmd_estimate), (lit ''run'', cmd_run E lib seeds hash_file rounds),
     (lit ''meter'', cmd_meter E lib), (lit ''kill'', cmd_kill E lib), (lit ''receipt'', returning cmd_receipt), (lit ''verify'', returning (cmd_verify lib)),
     (lit ''config'', returning cmd_config), (lit ''recover'', returning (cmd_recover E)), (lit ''version'', returning cmd_version)]"

definition main :: "'w env \<Rightarrow> ed_lib \<Rightarrow> (nat \<Rightarrow> bytes) \<Rightarrow> (json \<Rightarrow> exn + pystr) \<Rightarrow> nat \<Rightarrow> pystr list \<Rightarrow> 'w cli \<Rightarrow> ((exn + int) \<times> 'w cli) option" where
  "main E lib seeds hash_file rounds args c =
    (case args of
       [] \<Rightarrow> Some (andthen (print_out Usage) (\<lambda>_. ret 64) c)
     | cmd # rest \<Rightarrow>
         if cmd \<in> set [lit ''--help'', lit ''-h'', lit ''help''] then Some (andthen (print_out Usage) (\<lambda>_. ret 0) c)
         else (case map_of (COMMANDS E lib seeds hash_file rounds) cmd of
                 None \<Rightarrow> Some (andthen (print_out Complaint) (\<lambda>_. ret 64) c)
               | Some f \<Rightarrow>
                   (case f rest of
                      Inl Help \<Rightarrow> Some (andthen (print_out Usage) (\<lambda>_. ret 0) c)
                    | Inl Misuse \<Rightarrow> Some (andthen (print_out Complaint) (\<lambda>_. ret 64) c)
                    | Inr m \<Rightarrow> m c)))"

end
