(* ===== verification/CliProps.thy ===== *)
theory CliProps imports CliRuns begin

text \<open>
  Properties of the command line: parsing reads back what was written with flags; without root no command touches the state
  directory, a control group or an export; the exit status of a run tells its stop reason; when the loops return; and a receipt
  never overwrites a file.
\<close>

section \<open>Flags are read back\<close>

text \<open>One option as it can be written: a switch, \<open>--name=value\<close>, or \<open>--name value\<close>.\<close>

datatype option_text = Switch pystr | Joined pystr pystr | Apart pystr pystr

fun option_name :: "option_text \<Rightarrow> pystr" where
  "option_name (Switch n) = n" | "option_name (Joined n v) = n" | "option_name (Apart n v) = n"

fun written :: "option_text \<Rightarrow> pystr list" where
  "written (Switch n) = [lit ''--'' @ n]"
| "written (Joined n v) = [lit ''--'' @ n @ [61] @ v]"
| "written (Apart n v) = [lit ''--'' @ n, v]"

text \<open>The values that options of a name give, in order.\<close>

fun option_value :: "option_text \<Rightarrow> pystr list" where
  "option_value (Switch n) = []" | "option_value (Joined n v) = [v]" | "option_value (Apart n v) = [v]"

definition values_of :: "pystr \<Rightarrow> option_text list \<Rightarrow> pystr list" where
  "values_of n ps = concat (map option_value (filter (\<lambda>p. option_name p = n) ps))"

text \<open>What a flag is to be, given the options written.\<close>

definition flag_meant :: "flag_spec \<Rightarrow> option_text list \<Rightarrow> pystr \<Rightarrow> flag_value option" where
  "flag_meant spec ps n =
    (if n \<notin> option_name ` set ps then None
     else (case map_of spec n of
             Some (True, True) \<Rightarrow> Some (Texts (values_of n ps))
           | Some (True, False) \<Rightarrow> Some (Text (hd (values_of n ps)))
           | _ \<Rightarrow> Some On))"

text \<open>The options that a specification allows: each has a name of its own and a value exactly if the specification says so, and only
  the options that may be repeated are.\<close>

definition repeats :: "flag_spec \<Rightarrow> pystr \<Rightarrow> bool" where
  "repeats spec n \<longleftrightarrow> (case map_of spec n of Some (takes, repeatable) \<Rightarrow> repeatable | None \<Rightarrow> False)"

definition option_fits :: "flag_spec \<Rightarrow> option_text \<Rightarrow> bool" where
  "option_fits spec p \<longleftrightarrow>
    (case map_of spec (option_name p) of Some (takes, repeatable) \<Rightarrow> takes = (option_value p \<noteq> []) | None \<Rightarrow> False) \<and>
    option_name p \<noteq> [] \<and> option_name p \<noteq> lit ''help'' \<and> 61 \<notin> set (option_name p)"

definition allowed :: "flag_spec \<Rightarrow> option_text list \<Rightarrow> bool" where
  "allowed spec ps \<longleftrightarrow> list_all (option_fits spec) ps \<and> distinct (filter (\<lambda>n. \<not> repeats spec n) (map option_name ps))"

text \<open>One step of the parser.\<close>

fun collect :: "flag_spec \<Rightarrow> option_text \<Rightarrow> flags \<Rightarrow> flags" where
  "collect spec (Switch n) fs = AList.update n On fs"
| "collect spec (Joined n v) fs = put_value (repeats spec n) n v fs"
| "collect spec (Apart n v) fs = put_value (repeats spec n) n v fs"

lemma takeWhile_no_eq: "61 \<notin> set n \<Longrightarrow> takeWhile (\<lambda>c. c \<noteq> 61) n = n" "61 \<notin> set n \<Longrightarrow> takeWhile (\<lambda>c. c \<noteq> 61) (n @ 61 # v) = n"
  by (auto simp: takeWhile_tail intro!: takeWhile_eq_all_conv [THEN iffD2])

lemma partition_eq_plain: "61 \<notin> set n \<Longrightarrow> partition_eq n = (n, False, [])" "61 \<notin> set n \<Longrightarrow> partition_eq (n @ 61 # v) = (n, True, v)"
  by (simp_all add: partition_eq_def takeWhile_no_eq)

lemma dashed: "drop 2 (lit ''--'' @ n) = n" "startswith (lit ''--'' @ n) (lit ''--'')" "lit ''--'' @ n = lit ''--'' \<longleftrightarrow> n = []"
  "lit ''--'' @ n = lit ''--help'' \<longleftrightarrow> n = lit ''help''" "lit ''--'' @ n \<noteq> lit ''-h''"
  by (auto simp: lit_def startswith_def)

lemma parse_written:
  assumes "option_fits spec p" "repeats spec (option_name p) \<or> map_of fs (option_name p) = None"
  shows "parse_loop spec (written p @ rest) fs pos = parse_loop spec rest (collect spec p fs) pos"
proof -
  obtain takes where s: "map_of spec (option_name p) = Some (takes, repeats spec (option_name p))" "takes = (option_value p \<noteq> [])"
    using assms(1) by (auto simp: option_fits_def repeats_def split: option.splits)
  have n: "option_name p \<noteq> []" "option_name p \<noteq> lit ''help''" "61 \<notin> set (option_name p)" using assms(1) by (auto simp: option_fits_def)
  have l: "(n @ 61 # v) = lit ''help'' \<longleftrightarrow> False" for n v by (auto simp: lit_def append_eq_Cons_conv)
  show ?thesis
  proof (cases p)
    case (Switch m)
    show ?thesis using s n assms(2) unfolding Switch
      by (subst parse_loop.simps) (auto simp: dashed partition_eq_plain)
  next
    case (Joined m v)
    show ?thesis using s n assms(2) unfolding Joined
      by (subst parse_loop.simps) (auto simp: dashed partition_eq_plain l)
  next
    case (Apart m v)
    show ?thesis using s n assms(2) unfolding Apart
      by (subst parse_loop.simps) (auto simp: dashed partition_eq_plain)
  qed
qed

lemma values_of_snoc: "values_of n (ps @ [p]) = values_of n ps @ (if option_name p = n then option_value p else [])"
  by (simp add: values_of_def)

lemma values_of_absent: "n \<notin> option_name ` set ps \<Longrightarrow> values_of n ps = []"
  by (auto simp: values_of_def)

text \<open>After each option the flags are what the options so far mean.\<close>

lemma collected:
  assumes "option_fits spec p" "\<forall>n. map_of fs n = flag_meant spec qs n" "repeats spec (option_name p) \<or> option_name p \<notin> option_name ` set qs"
  shows "map_of (collect spec p fs) n = flag_meant spec (qs @ [p]) n"
proof (cases "option_name p = n")
  case False
  then have "map_of (collect spec p fs) n = map_of fs n" by (cases p) (auto simp: put_value_def update_conv' split: option.splits flag_value.splits)
  moreover have "values_of n (qs @ [p]) = values_of n qs" "n \<in> option_name ` set (qs @ [p]) \<longleftrightarrow> n \<in> option_name ` set qs"
    using False by (auto simp: values_of_snoc)
  then have "flag_meant spec (qs @ [p]) n = flag_meant spec qs n" by (simp only: flag_meant_def)
  ultimately show ?thesis using assms(2) by simp
next
  case True
  obtain takes where s: "map_of spec n = Some (takes, repeats spec n)" "takes = (option_value p \<noteq> [])"
    using assms(1) True by (auto simp: option_fits_def repeats_def split: option.splits)
  note old = assms(2) [rule_format, of n] values_of_absent [of n qs]
  show ?thesis
  proof (cases p)
    case (Switch m)
    then show ?thesis using True s by (simp add: flag_meant_def update_conv')
  next
    case (Joined m v)
    then show ?thesis using True s assms(3) old by (auto simp: flag_meant_def values_of_snoc put_value_def update_conv')
  next
    case (Apart m v)
    then show ?thesis using True s assms(3) old by (auto simp: flag_meant_def values_of_snoc put_value_def update_conv')
  qed
qed

lemma parse_options:
  "allowed spec (qs @ ps) \<Longrightarrow> \<forall>n. map_of fs n = flag_meant spec qs n \<Longrightarrow>
     \<exists>fs'. (\<forall>rest acc. parse_loop spec (concat (map written ps) @ rest) fs acc = parse_loop spec rest fs' acc) \<and>
       (\<forall>n. map_of fs' n = flag_meant spec (qs @ ps) n)"
proof (induction ps arbitrary: fs qs)
  case Nil
  then show ?case by auto
next
  case (Cons p ps)
  have p: "option_fits spec p" "repeats spec (option_name p) \<or> option_name p \<notin> option_name ` set qs"
    using Cons.prems(1) by (auto simp: allowed_def)
  then have "repeats spec (option_name p) \<or> map_of fs (option_name p) = None" using Cons.prems(2) by (auto simp: flag_meant_def)
  note step = parse_written [OF p(1) this]
  have "allowed spec ((qs @ [p]) @ ps)" using Cons.prems(1) by simp
  from Cons.IH [OF this] collected [OF p(1) Cons.prems(2) p(2)] show ?case by (simp add: step)
qed

lemma parse_allowed:
  assumes "allowed spec ps"
  shows "\<exists>fs. (\<forall>rest acc. parse_loop spec (concat (map written ps) @ rest) [] acc = parse_loop spec rest fs acc) \<and>
    (\<forall>n. map_of fs n = flag_meant spec ps n)"
  using parse_options [of spec "[]" ps "[]"] assms by (simp add: flag_meant_def)

text \<open>C32: the flag parser reads back what was written: options that a specification allows, each written as a switch, as
  \<open>--name=value\<close> or as \<open>--name value\<close> (whatever the value looks like), followed by \<open>--\<close> and any arguments, parse to these arguments and
  to flags that hold, for each name, exactly what was written: nothing if there was no such option, the value of an option that takes one,
  and all the values in order of one that may be repeated.\<close>

theorem flags_roundtrip:
  assumes "allowed spec ps" "length pos \<le> n"
  shows "\<exists>fs. parse_flags (concat (map written ps) @ [lit ''--''] @ pos) spec n = Inr (fs, pos) \<and> (\<forall>k. map_of fs k = flag_meant spec ps k)"
proof -
  obtain fs where fs: "\<forall>rest acc. parse_loop spec (concat (map written ps) @ rest) [] acc = parse_loop spec rest fs acc"
    "\<forall>k. map_of fs k = flag_meant spec ps k" using parse_allowed [OF assms(1)] by blast
  have "parse_loop spec ([lit ''--''] @ pos) fs [] = Inr (fs, pos)" by (subst parse_loop.simps) (simp add: lit_def)
  then show ?thesis using fs assms(2) by (intro exI [of _ fs]) (simp add: parse_flags_def bindE_def)
qed

theorem flags_roundtrip_witness:
  "\<exists>fs. parse_flags (concat (map written [Joined (lit ''key'') (lit ''k=p''), Switch (lit ''allow-prefix''), Apart (lit ''key'') (lit ''--json'')]) @ [lit ''--''] @ [lit ''--help'']) verify_flags 1 =
     Inr (fs, [lit ''--help'']) \<and> map_of fs (lit ''key'') = Some (Texts [lit ''k=p'', lit ''--json'']) \<and> map_of fs (lit ''allow-prefix'') = Some On \<and>
     map_of fs (lit ''json'') = None"
proof -
  let ?ps = "[Joined (lit ''key'') (lit ''k=p''), Switch (lit ''allow-prefix''), Apart (lit ''key'') (lit ''--json'')]"
  have "allowed verify_flags ?ps" by (simp add: allowed_def option_fits_def repeats_def verify_flags_def is_switch_def lit_def)
  then obtain fs where fs: "parse_flags (concat (map written ?ps) @ [lit ''--''] @ [lit ''--help'']) verify_flags 1 = Inr (fs, [lit ''--help''])"
    "\<forall>k. map_of fs k = flag_meant verify_flags ?ps k" using flags_roundtrip [of verify_flags ?ps "[lit ''--help'']" 1] by auto
  have "flag_meant verify_flags ?ps (lit ''key'') = Some (Texts [lit ''k=p'', lit ''--json''])"
    "flag_meant verify_flags ?ps (lit ''allow-prefix'') = Some On" "flag_meant verify_flags ?ps (lit ''json'') = None"
    by (simp_all add: flag_meant_def values_of_def verify_flags_def is_switch_def lit_def)
  with fs show ?thesis by (intro exI [of _ fs]) simp
qed

section \<open>The exit status of a run\<close>

definition settled_by_reason :: "run_core \<Rightarrow> bool" where
  "settled_by_reason c \<longleftrightarrow>
    (rc_state c \<in> {COMPLETED, KILLED, FAILED} \<longrightarrow> (\<exists>q. rc_stop_reason c = Some q \<and> rc_state c = final_state_for q))"

lemma settled_by_reasonI: "rc_state c \<notin> {COMPLETED, KILLED, FAILED} \<Longrightarrow> settled_by_reason c"
  by (simp add: settled_by_reason_def)

lemma latch_not_terminal: "latch r out c = (out', c') \<Longrightarrow> c' = c \<or> rc_state c' = STOPPING"
  by (auto simp: latch_def split: if_splits)

lemma settled_same: "settled_by_reason c \<Longrightarrow> rc_state c' = rc_state c \<Longrightarrow> rc_stop_reason c' = rc_stop_reason c \<Longrightarrow> settled_by_reason c'"
  by (simp add: settled_by_reason_def)

lemma settled_latch: "settled_by_reason c \<Longrightarrow> latch r out c = (out', c') \<Longrightarrow> settled_by_reason c'"
  using latch_not_terminal [of r out c out' c'] by (auto intro: settled_by_reasonI)

lemma core_step_settled: "core_step c es c' \<Longrightarrow> core_inv c \<Longrightarrow> settled_by_reason c \<Longrightarrow> settled_by_reason c'"
proof (induction rule: core_step.induct)
  case (step_issue ch action now tid rid c out c')
  then show ?case by (cases rule: token_issue_cases) (auto dest: settled_latch elim: settled_same)
next
  case (step_issue_raised ch action now tid rid c code c')
  have "rc_state c' = RUNNING" using token_issue_raised [OF step_issue_raised.prems(1) step_issue_raised.hyps] by simp
  then show ?case by (intro settled_by_reasonI) simp
next
  case (step_dispatch ch token action now aid rid c out c')
  then show ?case by (cases rule: dispatch_cases) (auto elim: settled_same)
next
  case (step_reserve ch work now cid rid c out c')
  then show ?case by (cases rule: compute_reserve_cases) (auto dest: settled_latch elim: settled_same)
next
  case (step_compute_finish ch cid obs rid c out c')
  from compute_finish_outcome [OF step_compute_finish.hyps] step_compute_finish.prems(2) show ?case
    unfolding finish_outcome_def by (auto dest: settled_latch elim: settled_same)
next
  case (step_finish aid result error exit_info c out c')
  then show ?case by (auto simp: action_finish_def Let_def split: option.splits if_splits elim: settled_same)
next
  case (step_unknown aid code c out c')
  then show ?case by (auto simp: action_unknown_def split: option.splits if_splits elim: settled_same)
next
  case (step_finalize coverage now c out c')
  then show ?case
  proof (cases "rc_state c = FINALIZING")
    case True
    then obtain q where "rc_stop_reason c = Some q" using step_finalize.prems(1) by (auto simp: core_inv_def phase_ok_def)
    then show ?thesis using step_finalize.hyps True
      by (auto simp: finalize_def Let_def settled_by_reason_def split: sum.splits)
  qed (simp add: finalize_def)
next
  case (step_stop reason c out c')
  then show ?case by (auto simp: stop_def dest: settled_latch split: if_splits prod.splits)
next
  case (step_fault reason c out c')
  then show ?case by (auto simp: fault_def dest: settled_latch split: if_splits)
qed (auto simp: arming_def started_def sign_record_def expire_tokens_def kill_issued_def
    kill_unconfirmed_def containment_empty_def reject_def Let_def settled_by_reason_def split: option.splits if_splits sum.splits prod.splits)

lemma core_steps_settled: "core_steps c es c' \<Longrightarrow> core_inv c \<Longrightarrow> settled_by_reason c \<Longrightarrow> settled_by_reason c'"
proof (induction rule: core_steps.induct)
  case (steps_snoc a es b fs c)
  have "core_inv b" using core_steps_conforms [OF steps_snoc.hyps(1) steps_snoc.prems(1)] by (simp add: conforms_def)
  then show ?case using steps_snoc core_step_settled by blast
qed

text \<open>The status of the workload's root process: its exit code, 128 and its signal, or 0.\<close>

definition root_status :: "json \<Rightarrow> int" where
  "root_status re =
    (if fld re ''code'' \<noteq> JNull then int_of (fld re ''code'') else if fld re ''signal'' \<noteq> JNull then 128 + int_of (fld re ''signal'') else 0)"

lemma truthy_field: "fld re k \<noteq> JNull \<Longrightarrow> truthy_dict re"
  by (cases re) (auto simp: truthy_dict_def fld_def dict_get_def)

text \<open>C33: the stop reason decides how a run ends and its exit status. The core of any run that has completed, was killed or failed, with
  stop reason \<open>q\<close>, has completed if its root exited, failed for a fault, and was killed otherwise; and the status is 124 for an
  exhausted budget, 125 for the operator, 130 for a signal, 70 for a fault, and that of the workload's root for its exit. (The status
  alone does not tell the reason: a root may itself exit with any of these codes.)\<close>

theorem exit_status_tells_reason:
  assumes "core_run r k cfg es c" "rc_state c \<in> {COMPLETED, KILLED, FAILED}" "rc_stop_reason c = Some q"
  shows "rc_state c = (if q = R_ROOT_EXIT then COMPLETED else if q \<in> set FAULT_REASONS then FAILED else KILLED) \<and>
    outcome_exit c rejected =
    (if q \<in> set BUDGET_REASONS then 124 else if q = R_OPERATOR then 125 else if q = R_SIGNAL then 130 else if q \<in> set FAULT_REASONS then 70
     else root_status (rc_root_exit c))"
proof -
  have "settled_by_reason (RunCore r k cfg)" by (simp add: settled_by_reason_def RunCore_def)
  then have "settled_by_reason c"
    using core_steps_settled [OF assms(1) [unfolded core_run_def] core_inv_init] by simp
  then have f: "rc_state c = final_state_for q" using assms(2,3) by (auto simp: settled_by_reason_def)
  show ?thesis using f assms(3) truthy_field [of "rc_root_exit c" "''code''"] truthy_field [of "rc_root_exit c" "''signal''"]
    by (cases q) (simp_all add: outcome_exit_def root_status_def final_state_for_def BUDGET_REASONS_def FAULT_REASONS_def Let_def)
qed

theorem exit_status_tells_reason_witness:
  "\<exists>es c. core_run [] [] JNull es c \<and> rc_state c = KILLED \<and> outcome_exit c None = 125"
proof -
  let ?f = "short_core\<lparr>rc_state := FINALIZING\<rparr>"
  have "containment_empty JNull JNull short_core =
      (no_outcome\<lparr>oc_events := [(K_ContainmentEmpty, JObj [(lit ''final_sample'', JNull), (lit ''root_exit'', JNull)])]\<rparr>, ?f)"
    by (simp add: containment_empty_def short_core_def RunCore_def Let_def)
  from steps_snoc [OF short_run [unfolded core_run_def] step_empty [OF this]] obtain es where es: "core_steps (RunCore [] [] JNull) es ?f" by blast
  obtain d where "finalize JNull 0 ?f = (Inr (no_outcome\<lparr>oc_events := [(K_RunFinalized, d)]\<rparr>), ?f\<lparr>rc_final_state := Some KILLED, rc_state := KILLED\<rparr>)"
    using finalized [of ?f R_OPERATOR JNull 0] by (auto simp: short_core_def RunCore_def latency_ok_def U_MAX_def final_state_for_def FAULT_REASONS_def)
  from steps_snoc [OF es step_finalize [OF this]] obtain fs where
    fs: "core_run [] [] JNull fs (?f\<lparr>rc_final_state := Some KILLED, rc_state := KILLED\<rparr>)" unfolding core_run_def by blast
  have "outcome_exit (?f\<lparr>rc_final_state := Some KILLED, rc_state := KILLED\<rparr>) None = 125"
    using exit_status_tells_reason [OF fs, of R_OPERATOR None] by (simp add: short_core_def BUDGET_REASONS_def)
  then show ?thesis using fs by (intro exI conjI) (assumption, simp_all)
qed

section \<open>When the loops return\<close>

text \<open>One more tick ends the loop: it raises, or leaves the run ended or unconfirmed.\<close>

definition ends :: "('w, unit) cla \<Rightarrow> pystr \<Rightarrow> 'w cli \<Rightarrow> bool" where
  "ends step rid c \<longleftrightarrow>
    (case step c of (Inl e, c') \<Rightarrow> True | (Inr _, c') \<Rightarrow> terminal_core (core_of rid c') \<or> rc_state (core_of rid c') = UNCONFIRMED)"

fun ticked :: "('w, unit) cla \<Rightarrow> nat \<Rightarrow> 'w cli \<Rightarrow> 'w cli" where
  "ticked step 0 c = c"
| "ticked step (Suc n) c = ticked step n (snd (step c))"

lemma drive_loop_ends: "ends step rid c \<Longrightarrow> drive_loop step rid rounds c \<noteq> None"
  by (subst drive_loop.simps) (auto simp: ends_def split: prod.splits sum.splits)

lemma drive_loop_goes_on: "\<not> ends step rid c \<Longrightarrow> drive_loop step rid rounds c = drive_loop step rid rounds (snd (step c))"
  by (subst drive_loop.simps) (auto simp: ends_def split: prod.splits sum.splits)

lemma drive_loop_returns: "ends step rid (ticked step n c) \<Longrightarrow> drive_loop step rid rounds c \<noteq> None"
proof (induction n arbitrary: c)
  case (Suc n)
  then show ?case using drive_loop_goes_on [of step rid c rounds] drive_loop_ends [of step rid c rounds] by (cases "ends step rid c") auto
qed (simp add: drive_loop_ends)

lemma drive_loop_returned: "drive_loop step rid rounds c = Some r \<Longrightarrow> \<exists>n. ends step rid (ticked step n c)"
proof (induction rule: drive_loop.raw_induct [rotated, consumes 1, case_names step])
  case (step f step rid rounds c r)
  show ?case
  proof (cases "ends step rid c")
    case True
    then show ?thesis by (intro exI [of _ 0]) simp
  next
    case False
    then have "f step rid rounds (snd (step c)) = Some r"
      using step(2) by (auto simp: ends_def split: prod.splits sum.splits if_splits)
    from step(1) [OF this] obtain n where "ends step rid (ticked step n (snd (step c)))" by blast
    then show ?thesis by (intro exI [of _ "Suc n"]) simp
  qed
qed

text \<open>The foreground command returns exactly when the run ends: \<open>_drive_run\<close> comes back if and only if, after some number of
  ticks, the next one raises or leaves the run in a terminal state or unconfirmed.\<close>

theorem drive_run_returns_iff:
  "(\<exists>r. drive_run E lib rid rounds jm c = Some r) \<longleftrightarrow> (\<exists>n. ends (tick_step E lib rid) rid (ticked (tick_step E lib rid) n c))"
proof -
  have "(\<exists>r. drive_run E lib rid rounds jm c = Some r) \<longleftrightarrow> drive_loop (tick_step E lib rid) rid rounds c \<noteq> None"
    by (cases "drive_loop (tick_step E lib rid) rid rounds c") (auto simp: drive_run_def)
  then show ?thesis using drive_loop_returns [of "tick_step E lib rid" rid _ c rounds] drive_loop_returned [of "tick_step E lib rid" rid rounds c]
    by blast
qed

text \<open>The deadline of \<open>kill\<close>: each round reads the clock once.\<close>

definition clock_kept :: "('w, unit) cla \<Rightarrow> bool" where
  "clock_kept step \<longleftrightarrow> (\<forall>c. cl_clock (snd (step c)) = cl_clock c \<and> cl_reads (snd (step c)) = cl_reads c)"

lemma on_launcher_clock: "clock_kept (on_launcher m)"
  by (simp add: clock_kept_def on_launcher_def split: prod.split)

lemma kill_loop_returns:
  assumes "clock_kept step" "deadline \<le> cl_clock c (cl_reads c + n)"
  shows "kill_loop step rid deadline c \<noteq> None"
  using assms(2)
proof (induction n arbitrary: c)
  case 0
  then show ?case by (subst kill_loop.simps) simp
next
  case (Suc n)
  let ?c = "c\<lparr>cl_reads := Suc (cl_reads c)\<rparr>"
  have "kill_loop step rid deadline (snd (step ?c)) \<noteq> None"
    using Suc assms(1) by (simp add: clock_kept_def)
  then show ?case
    by (subst kill_loop.simps) (auto simp: Let_def split: prod.splits sum.splits)
qed

text \<open>What printing keeps, and what calls of the launcher keep.\<close>

definition print_free :: "('w cli \<Rightarrow> bool) \<Rightarrow> bool" where
  "print_free I \<longleftrightarrow> (\<forall>c out. I c \<longrightarrow> I (c\<lparr>cl_out := out\<rparr>))"

lemma keeps_print: "print_free I \<Longrightarrow> keeps I (print_out e)"
  by (simp add: print_out_def print_free_def keeps_modify)

lemma keeps_emit: "print_free I \<Longrightarrow> keeps I (emit v jm)"
  unfolding emit_def by (intro flow_intros keeps_print)

lemma keeps_fail: "print_free I \<Longrightarrow> keeps I (fail_with code jm status)" "print_free I \<Longrightarrow> keeps I (fail_code k jm)"
  unfolding fail_with_def fail_code_def by (intro flow_intros keeps_print keeps_emit; assumption)+

lemma keeps_guarded: "print_free I \<Longrightarrow> keeps I m \<Longrightarrow> keeps I (guarded jm os status m)"
  unfolding guarded_def by (intro flow_intros keeps_fail)

lemma keeps_require_root: "keeps I require_root"
  unfolding require_root_def by (intro flow_intros)

lemma keeps_on_launcher: "(\<And>c L. I c \<Longrightarrow> I (c\<lparr>cl_launcher := L\<rparr>)) \<Longrightarrow> keeps I (on_launcher m)"
  by (auto simp: keeps_def on_launcher_def split: prod.split)

lemma keeps_make_launcher: "(\<And>c L. I c \<Longrightarrow> I (c\<lparr>cl_launcher := L\<rparr>)) \<Longrightarrow> keeps I make_launcher"
  unfolding make_launcher_def by (intro flow_intros keeps_modify) simp_all

lemma clock_of_kill: "keeps (\<lambda>c. cl_clock c = k) (guarded jm False exit_code_for (kill_body E lib rid))"
  unfolding kill_body_def
  by (intro keeps_guarded flow_intros keeps_require_root keeps_make_launcher keeps_on_launcher) (simp_all add: print_free_def)

text \<open>C34: \<open>agent-cap kill\<close> always returns: whatever its arguments, the state directory, the journal and the host, and even if the
  run never ends, the command comes back with a status or an exception, as long as the monotonic clock passes every bound.\<close>

theorem kill_always_returns:
  assumes "\<And>t. \<exists>n. \<forall>m \<ge> n. t \<le> cl_clock c m"
  shows "main E lib seeds hash_file rounds (lit ''kill'' # args) c \<noteq> None"
proof -
  have loop: "kill_wait E lib jm rid w resp d \<noteq> None" if "cl_clock d = cl_clock c" for jm rid w resp d
  proof -
    let ?t = "cl_clock d (cl_reads d) + w * 1000"
    obtain n where "\<forall>m \<ge> n. ?t \<le> cl_clock c m" using assms by blast
    then have "?t \<le> cl_clock d (Suc (cl_reads d) + n)" using that by simp
    then show ?thesis
      using kill_loop_returns [OF on_launcher_clock, of ?t "d\<lparr>cl_reads := Suc (cl_reads d)\<rparr>" n "tick_all E lib" rid] by (simp add: kill_wait_def)
  qed
  have whole: "then_loop (guarded jm False exit_code_for (kill_body E lib rid)) (kill_wait E lib jm rid w) c \<noteq> None" for jm rid w
    using keeps_result [OF clock_of_kill, of c "cl_clock c" jm E lib rid] loop
    by (cases "guarded jm False exit_code_for (kill_body E lib rid) c") (auto simp: then_loop_def split: sum.split)
  have other: "lit ''kill'' \<notin> set [lit ''--help'', lit ''-h'', lit ''help'']" "map_of (COMMANDS E lib seeds hash_file rounds) (lit ''kill'') = Some (cmd_kill E lib)"
    by (simp_all add: COMMANDS_def lit_def)
  have "(case cmd_kill E lib args of Inl u \<Rightarrow> True | Inr m \<Rightarrow> m c \<noteq> None)"
    using whole by (auto simp: cmd_kill_def bindE_def split: sum.splits prod.splits)
  then show ?thesis using other by (auto simp: main_def split: sum.splits usage_error.splits)
qed

text \<open>A process over the demonstration launcher, without root, whose clock ticks once a microsecond.\<close>

definition demo_cli :: "sim_host cli" where
  "demo_cli = \<lparr>cl_root = False, cl_file = (\<lambda>_. Inl (Py OS_Error)), cl_policy = [], cl_models = [], cl_index_opens = True, cl_launcher = demo_launcher,
     cl_place = (\<lambda>_. (Refused False, Missing)), cl_rescue = nothing_killed, cl_renv = orphan_env, cl_clock = int, cl_reads = 0, cl_signal = (\<lambda>_. False),
     cl_ticks = 0, cl_creatable = (\<lambda>_. True), cl_writes = Some, cl_syncs = True, cl_unlinks = True, cl_exports = [], cl_out = []\<rparr>"

theorem kill_always_returns_witness:
  "main sim_env plain_lib (\<lambda>_. []) (\<lambda>_. bad) 0 (lit ''kill'' # [lit ''r'']) (demo_cli\<lparr>cl_root := True\<rparr>) \<noteq> None"
proof (rule kill_always_returns)
  fix t :: int
  show "\<exists>n. \<forall>m \<ge> n. t \<le> cl_clock (demo_cli\<lparr>cl_root := True\<rparr>) m"
    by (intro exI [of _ "nat t"]) (auto simp: demo_cli_def)
qed

section \<open>Without root\<close>

text \<open>Nothing of the launcher, the recovered groups and the exported files has changed, but for a world in \<open>W\<close>.\<close>

definition untouched :: "'w set \<Rightarrow> 'w cli \<Rightarrow> 'w cli \<Rightarrow> bool" where
  "untouched W c0 c \<longleftrightarrow> \<not> cl_root c \<and> (\<exists>w \<in> W. cl_launcher c = (cl_launcher c0)\<lparr>la_world := w\<rparr>) \<and> cl_rescue c = cl_rescue c0 \<and> cl_exports c = cl_exports c0"

text \<open>The world as it was, and as one probe leaves it.\<close>

definition probed :: "'w env \<Rightarrow> 'w cli \<Rightarrow> 'w set" where
  "probed E c0 = (let w = la_world (cl_launcher c0) in insert w (range (\<lambda>p. snd (env_capabilities E p w))))"

lemma untouched_print: "print_free (untouched W c0)"
  by (simp add: print_free_def untouched_def)

lemma untouched_probe:
  "untouched {la_world (cl_launcher c0)} c0 c \<Longrightarrow> untouched (probed E c0) c0 (snd (on_launcher (on_host (env_capabilities E p)) c))"
  by (auto simp: on_launcher_def on_host_def untouched_def probed_def Let_def image_iff split: prod.split) (metis snd_conv)

lemma untouched_more: "untouched {la_world (cl_launcher c0)} c0 c \<Longrightarrow> untouched (probed E c0) c0 c"
  by (auto simp: untouched_def probed_def Let_def)

lemmas untouched_keeps = keeps_guarded [OF untouched_print] keeps_emit [OF untouched_print] keeps_fail [OF untouched_print] keeps_require_root

text \<open>An action that raises before it does anything.\<close>

definition barred :: "'w set \<Rightarrow> 'w cli \<Rightarrow> ('w, 'a) cla \<Rightarrow> bool" where
  "barred W c0 m \<longleftrightarrow> keeps (untouched W c0) m \<and> (\<forall>c x. untouched W c0 c \<longrightarrow> fst (m c) \<noteq> Inr x)"

lemma barred_root: "barred W c0 (andthen require_root f)"
  by (auto simp: barred_def keeps_def untouched_def require_root_def raise_def)

lemma barred_andthen: "keeps (untouched W c0) m \<Longrightarrow> (\<And>a. barred W c0 (f a)) \<Longrightarrow> barred W c0 (andthen m f)"
  by (auto simp: barred_def keeps_andthen) (auto simp: keeps_def andthen_def split: prod.splits sum.splits)

lemma barred_guarded:
  assumes "barred W c0 m" "untouched W c0 c"
  obtains x c' where "guarded jm os status m c = (x, c')" "untouched W c0 c'" "\<And>y. x \<noteq> Inr (Inr y)"
proof -
  have k: "keeps (untouched W c0) (guarded jm os status m)" using assms(1) by (intro untouched_keeps) (simp add: barred_def)
  obtain x c' where g: "guarded jm os status m c = (x, c')" by (cases "guarded jm os status m c")
  obtain z c1 where z: "m c = (z, c1)" by (cases "m c")
  obtain e where m: "m c = (Inl e, c1)" using assms z by (cases z) (force simp: barred_def)+
  have "x \<noteq> Inr (Inr y)" for y
    using g m by (auto simp: guarded_def handle_exn_def andthen_def ret_def raise_def split: option.splits sum.splits prod.splits if_splits)
  then show thesis using that g keepsD [OF k assms(2) g] by blast
qed

text \<open>What a command does without root: it returns, and leaves everything untouched.\<close>

definition harmless :: "'w set \<Rightarrow> 'w cli \<Rightarrow> usage_error + ('w cli \<Rightarrow> ((exn + int) \<times> 'w cli) option) \<Rightarrow> bool" where
  "harmless W c0 r \<longleftrightarrow> (case r of Inl _ \<Rightarrow> True | Inr m \<Rightarrow> \<forall>c. untouched W c0 c \<longrightarrow> (\<exists>x c'. m c = Some (x, c') \<and> untouched W c0 c'))"

lemma harmless_bind: "(\<And>a. harmless W c0 (f a)) \<Longrightarrow> harmless W c0 (bindE m f)"
  by (cases m) (simp_all add: bindE_def harmless_def)

lemma harmless_returning: "(\<And>m. cmd args = Inr m \<Longrightarrow> keeps (untouched W c0) m) \<Longrightarrow> harmless W c0 (returning cmd args)"
  by (auto simp: harmless_def returning_def bindE_def keeps_def split: sum.split) (metis prod.collapse)

lemma harmless_loop: "barred W c0 m \<Longrightarrow> harmless W c0 (Inr (then_loop (guarded jm os status m) k))"
  unfolding harmless_def sum.case
proof (intro allI impI)
  fix c assume b: "barred W c0 m" "untouched W c0 c"
  obtain x c' where "guarded jm os status m c = (x, c')" "untouched W c0 c'" "\<And>y. x \<noteq> Inr (Inr y)" using barred_guarded [OF b] by blast
  then show "\<exists>x c'. then_loop (guarded jm os status m) k c = Some (x, c') \<and> untouched W c0 c'"
    by (cases x; cases "projr x") (auto simp: then_loop_def)
qed

lemma barred_tried: "barred W c0 m \<Longrightarrow> keeps (untouched W c0) (tried jm os status m k)"
proof (rule keepsI)
  fix c assume b: "barred W c0 m" "untouched W c0 c"
  obtain x c' where "guarded jm os status m c = (x, c')" "untouched W c0 c'" "\<And>y. x \<noteq> Inr (Inr y)" using barred_guarded [OF b] by blast
  then show "untouched W c0 (snd (tried jm os status m k c))"
    by (cases x; cases "projr x") (auto simp: tried_def andthen_def ret_def)
qed

lemma untouched_case_json: "(\<And>xs. keeps I (f xs)) \<Longrightarrow> (\<And>d. keeps I (g d)) \<Longrightarrow> keeps I m \<Longrightarrow>
    keeps I (case v of JArr xs \<Rightarrow> f xs | JObj d \<Rightarrow> g d | _ \<Rightarrow> m)"
  by (simp split: json.split)

lemma keeps_read_json: "keeps I (read_json path)"
  unfolding read_json_def by (intro flow_intros)

lemma keeps_tried: "print_free I \<Longrightarrow> keeps I m \<Longrightarrow> (\<And>x. keeps I (k x)) \<Longrightarrow> keeps I (tried jm os status m k)"
  unfolding tried_def by (intro keeps_andthen keeps_guarded) (auto intro: flow_intros split: sum.split)

text \<open>\<open>doctor\<close> probes the host once.\<close>

lemma doctor_probes:
  assumes "cmd_doctor E args = Inr m" "untouched {la_world (cl_launcher c0)} c0 c"
  shows "untouched (probed E c0) c0 (snd (m c))"
proof -
  let ?W = "probed E c0"
  obtain fs pos where fs: "parse_flags args [takes_value ''profile'', is_switch ''json''] 0 = Inr (fs, pos)"
    using assms(1) by (auto simp: cmd_doctor_def bindE_def split: sum.splits)
  have k: "keeps (untouched ?W c0) (andthen (emit caps jm) (\<lambda>_. ret (s :: int)))" for caps jm s
    by (intro flow_intros keeps_emit untouched_print)
  have f: "keeps (untouched ?W c0) (fail_code x jm)" for x jm by (intro keeps_fail untouched_print)
  define p where "p = (if has_flag fs ''profile'' then flag_text fs ''profile'' else lit ''linux-rapl-v1'')"
  let ?probe = "on_launcher (on_host (env_capabilities E (JStr p)))"
  have pr: "untouched ?W c0 (snd (?probe c))" by (rule untouched_probe [OF assms(2)])
  have m: "m = (if p \<notin> set profile_names then fail_code INVALID_INPUT (json_mode fs)
      else andthen (if p = lit ''offline-v1'' then ret offline_caps else ?probe) (\<lambda>caps.
        andthen (emit caps (json_mode fs)) (\<lambda>_. ret (if arr_of (fld caps ''failures'') = [] then 0 else 65))))"
  proof -
    have "cmd_doctor E args = Inr (if p \<notin> set profile_names then fail_code INVALID_INPUT (json_mode fs)
      else andthen (if p = lit ''offline-v1'' then ret offline_caps else ?probe) (\<lambda>caps.
        andthen (emit caps (json_mode fs)) (\<lambda>_. ret (if arr_of (fld caps ''failures'') = [] then 0 else 65))))"
      unfolding cmd_doctor_def fs p_def Let_def by (simp only: bindE_def sum.case prod.case)
    then show ?thesis using assms(1) by simp
  qed
  obtain x d where d: "?probe c = (x, d)" by (cases "?probe c")
  show ?thesis
    using keeps_result [OF k untouched_more [OF assms(2)]] keeps_result [OF f untouched_more [OF assms(2)]] keeps_result [OF k] pr d
    unfolding m by (cases x) (auto simp: andthen_def ret_def)
qed

lemma open_commands:
  "cmd_estimate args = Inr m \<Longrightarrow> keeps (untouched W c0) m"
  "cmd_verify lib args = Inr m \<Longrightarrow> keeps (untouched W c0) m"
  "cmd_version args = Inr m \<Longrightarrow> keeps (untouched W c0) m"
proof -
  have e: "keeps (untouched W c0) (estimate_body fs)" for fs
    unfolding estimate_body_def by (intro flow_intros untouched_keeps keeps_read_json)
  show "cmd_estimate args = Inr m \<Longrightarrow> keeps (untouched W c0) m"
    using e by (auto simp: cmd_estimate_def bindE_def split: sum.splits prod.splits if_splits intro!: keeps_tried untouched_print flow_intros untouched_keeps)
  show "cmd_verify lib args = Inr m \<Longrightarrow> keeps (untouched W c0) m"
    by (auto simp: cmd_verify_def bindE_def Let_def split: sum.splits prod.splits if_splits
      intro!: keeps_tried untouched_print flow_intros untouched_keeps keeps_read_json)
  show "cmd_version args = Inr m \<Longrightarrow> keeps (untouched W c0) m"
    by (auto simp: cmd_version_def bindE_def split: sum.splits prod.splits intro!: flow_intros untouched_keeps)
qed

lemma config_harmless: "cmd_config args = Inr m \<Longrightarrow> keeps (untouched W c0) m"
proof -
  have "keeps (untouched W c0) (config_body fs path)" for fs path
    unfolding config_body_def by (intro flow_intros untouched_keeps)
  then show "cmd_config args = Inr m \<Longrightarrow> keeps (untouched W c0) m"
    by (auto simp: cmd_config_def bindE_def split: sum.splits prod.splits if_splits list.splits
      intro!: keeps_tried untouched_print flow_intros untouched_keeps)
qed

lemma root_commands:
  "cmd_recover E args = Inr m \<Longrightarrow> keeps (untouched W c0) m"
  "cmd_receipt args = Inr m \<Longrightarrow> keeps (untouched W c0) m"
proof -
  show "cmd_recover E args = Inr m \<Longrightarrow> keeps (untouched W c0) m"
    by (auto simp: cmd_recover_def bindE_def split: sum.splits prod.splits if_splits intro!: barred_tried barred_root)
  show "cmd_receipt args = Inr m \<Longrightarrow> keeps (untouched W c0) m"
    by (auto simp: cmd_receipt_def receipt_body_def bindE_def split: sum.splits prod.splits if_splits intro!: barred_tried barred_root)
qed

lemma run_barred: "barred W c0 (run_body E lib seeds hash_file fs cmd)"
  unfolding run_body_def run_env_def Let_def
  by (intro barred_andthen barred_root flow_intros untouched_case_json keeps_read_json)

lemma loop_commands: "harmless W c0 (cmd_run E lib seeds hash_file rounds args)" "harmless W c0 (cmd_meter E lib args)" "harmless W c0 (cmd_kill E lib args)"
proof -
  show "harmless W c0 (cmd_run E lib seeds hash_file rounds args)"
    using harmless_loop [OF run_barred] by (auto simp: cmd_run_def Let_def harmless_def [of _ _ "Inl _"] intro!: harmless_bind)
  have m: "barred W c0 (andthen require_root (\<lambda>_. andthen make_launcher (\<lambda>_. ret (Inr ()))))" by (rule barred_root)
  show "harmless W c0 (cmd_meter E lib args)"
    using harmless_loop [OF m] unfolding cmd_meter_def
    by (intro harmless_bind) (auto simp: harmless_def split: sum.splits if_splits)
  have k: "barred W c0 (kill_body E lib rid)" for rid unfolding kill_body_def by (rule barred_root)
  show "harmless W c0 (cmd_kill E lib args)"
    using harmless_loop [OF k] unfolding cmd_kill_def
    by (intro harmless_bind) (auto simp: harmless_def split: sum.splits if_splits)
qed

lemma plain_commands:
  "harmless W c0 (returning cmd_estimate args)" "harmless W c0 (returning (cmd_verify lib) args)"
  "harmless W c0 (returning cmd_version args)" "harmless W c0 (returning cmd_config args)" "harmless W c0 (returning (cmd_recover E) args)"
  "harmless W c0 (returning cmd_receipt args)"
  by (rule harmless_returning, erule open_commands config_harmless root_commands)+

text \<open>C35: without root the command line changes nothing. Whatever the arguments, \<open>main\<close> returns; nothing was exported or recovered, and the
  launcher (its index, its runs and their journals, its run directories, and the world with its control groups and processes) is
  what it was, but that \<open>doctor\<close> may have probed the host once for its capabilities.\<close>

theorem main_without_root:
  assumes "\<not> cl_root c"
  shows "\<exists>x c'. main E lib seeds hash_file rounds args c = Some (x, c') \<and> cl_exports c' = cl_exports c \<and> cl_rescue c' = cl_rescue c \<and>
    (cl_launcher c' = cl_launcher c \<or>
     (take 1 args = [lit ''doctor''] \<and> (\<exists>p. cl_launcher c' = (cl_launcher c)\<lparr>la_world := snd (env_capabilities E p (la_world (cl_launcher c)))\<rparr>)))"
proof -
  let ?W = "{la_world (cl_launcher c)}"
  have c: "untouched ?W c c" using assms by (simp add: untouched_def)
  let ?done = "\<lambda>W r. \<exists>x c'. r = Some (x, c') \<and> untouched W c c'"
  have printed: "?done ?W (Some (andthen (print_out e) (\<lambda>_. ret s) c))" for e and s :: int
  proof -
    have "keeps (untouched ?W c) (andthen (print_out e) (\<lambda>_. ret s))" by (intro flow_intros keeps_print untouched_print)
    from keeps_result [OF this c] show ?thesis by (metis prod.collapse)
  qed
  have "list_all (\<lambda>(n, f). n \<noteq> lit ''doctor'' \<longrightarrow> (\<forall>args. harmless ?W c (f args))) (COMMANDS E lib seeds hash_file rounds)"
    by (simp add: COMMANDS_def plain_commands loop_commands)
  then have h: "harmless ?W c (f as)" if "map_of (COMMANDS E lib seeds hash_file rounds) cmd = Some f" "cmd \<noteq> lit ''doctor''" for cmd f as
    using map_of_SomeD [OF that(1)] that(2) by (auto simp: list_all_iff)
  have "if take 1 args = [lit ''doctor''] then ?done (probed E c) (main E lib seeds hash_file rounds args c) else ?done ?W (main E lib seeds hash_file rounds args c)"
  proof (cases args)
    case (Cons cmd as)
    show ?thesis
    proof (cases "cmd = lit ''doctor''")
      case False
      then show ?thesis
        using h [of cmd _ as] c printed unfolding main_def Cons list.case
        by (auto simp: harmless_def split: option.split sum.splits usage_error.split)
    next
      case True
      have d: "map_of (COMMANDS E lib seeds hash_file rounds) cmd = Some (returning (cmd_doctor E))" "cmd \<notin> set [lit ''--help'', lit ''-h'', lit ''help'']"
        by (simp_all add: True COMMANDS_def lit_def)
      have "?done (probed E c) (main E lib seeds hash_file rounds args c)"
      proof (cases "cmd_doctor E as")
        case (Inl u)
        then show ?thesis using printed d untouched_more unfolding Cons main_def by (cases u) (auto simp: returning_def bindE_def, blast+)
      next
        case (Inr m)
        then show ?thesis using doctor_probes [OF Inr c] d unfolding Cons main_def
          by (auto simp: returning_def bindE_def) (metis prod.collapse)
      qed
      then show ?thesis using True Cons by simp
    qed
  qed (use printed in \<open>simp add: main_def\<close>)
  then show ?thesis by (auto simp: untouched_def probed_def Let_def split: if_splits)
qed

theorem main_without_root_witness:
  "\<exists>x c'. main sim_env plain_lib (\<lambda>_. []) (\<lambda>_. bad) 0 [lit ''kill'', lit ''r''] demo_cli = Some (x, c') \<and> cl_exports c' = [] \<and>
     cl_launcher c' = demo_launcher"
  using main_without_root [of demo_cli sim_env plain_lib "\<lambda>_. []" "\<lambda>_. bad" 0 "[lit ''kill'', lit ''r'']"] by (auto simp: demo_cli_def lit_def)

section \<open>Receipts overwrite nothing\<close>

text \<open>What the calls on files can have done between two states: only the name \<open>p\<close> differs, and it was not there before.\<close>

definition only_new :: "pystr \<Rightarrow> 'w cli \<Rightarrow> 'w cli \<Rightarrow> bool" where
  "only_new p c c' \<longleftrightarrow> cl_writes c' = cl_writes c \<and> (\<forall>q. q \<noteq> p \<longrightarrow> map_of (cl_exports c') q = map_of (cl_exports c) q) \<and>
    (map_of (cl_exports c) p \<noteq> None \<longrightarrow> map_of (cl_exports c') p = map_of (cl_exports c) p)"

lemma only_new_both:
  assumes "only_new p c c1" "only_new r c1 c2" "q \<notin> {r, p} \<or> map_of (cl_exports c) q \<noteq> None"
  shows "map_of (cl_exports c2) q = map_of (cl_exports c) q"
  using assms unfolding only_new_def by (cases "q = p"; cases "q = r") auto

lemma created_new: "create_file p data c = (x, c') \<Longrightarrow> only_new p c c'"
  by (auto simp: create_file_def open_excl_def os_write_def sync_close_def andthen_def reads_def modify_def ret_def raise_def only_new_def update_conv'
    split: if_splits option.splits)

lemma created_file:
  "create_file p data c = (Inr u, c') \<Longrightarrow>
     \<exists>n. cl_writes c (length data) = Some n \<and> map_of (cl_exports c) p = None \<and> map_of (cl_exports c') p = Some (take n data)"
  by (auto simp: create_file_def open_excl_def os_write_def sync_close_def andthen_def reads_def modify_def ret_def raise_def update_conv'
    split: if_splits option.splits)

lemma linked_new: "link_file o' p c = (x, c') \<Longrightarrow> only_new p c c'"
  by (auto simp: link_file_def andthen_def reads_def modify_def raise_def only_new_def split: if_splits option.splits)

lemma linked_file: "link_file o' p c = (Inr u, c') \<Longrightarrow> map_of (cl_exports c) p = None \<and> map_of (cl_exports c') p = map_of (cl_exports c) o'"
  by (auto simp: link_file_def andthen_def reads_def modify_def raise_def split: if_splits option.splits)

lemma unlinked: "unlink_file p c = (x, c') \<Longrightarrow> map_of (cl_exports c') q = (if q = p \<and> x = Inr () then None else map_of (cl_exports c) q)"
  by (auto simp: unlink_file_def andthen_def reads_def modify_def raise_def delete_conv split: if_splits)

lemma launcher_exports: "on_launcher m c = (x, c') \<Longrightarrow> cl_exports c' = cl_exports c \<and> cl_writes c' = cl_writes c"
  by (auto simp: on_launcher_def split: prod.splits)

text \<open>The three steps of the export: what it leaves of the other files, and what it has made when it succeeds.\<close>

lemma installed:
  assumes "andthen (create_file tmp data) (\<lambda>_. andthen (link_file tmp out) (\<lambda>_. unlink_file tmp)) c = (x, c')" "tmp \<noteq> out"
  shows "(\<forall>q. q \<notin> {out, tmp} \<or> map_of (cl_exports c) q \<noteq> None \<longrightarrow> map_of (cl_exports c') q = map_of (cl_exports c) q) \<and>
    (x = Inr () \<longrightarrow> map_of (cl_exports c) out = None \<and> map_of (cl_exports c') tmp = None \<and>
      (\<exists>n. cl_writes c (length data) = Some n \<and> map_of (cl_exports c') out = Some (take n data)))"
proof -
  obtain y c1 where 1: "create_file tmp data c = (y, c1)" by (cases "create_file tmp data c")
  note n1 = created_new [OF 1]
  show ?thesis
  proof (cases y)
    case (Inl e)
    then show ?thesis using assms 1 n1 by (auto simp: andthen_def only_new_def)
  next
    case y: (Inr u)
    note f1 = created_file [OF 1 [unfolded y]]
    obtain z c2 where 2: "link_file tmp out c1 = (z, c2)" by (cases "link_file tmp out c1")
    note n2 = linked_new [OF 2]
    show ?thesis
    proof (cases z)
      case (Inl e)
      then have "x = Inl e \<and> c' = c2" using assms(1) 1 2 y by (simp add: andthen_def)
      then show ?thesis using only_new_both [OF n1 n2] by blast
    next
      case z: (Inr u)
      then have 3: "unlink_file tmp c2 = (x, c')" using assms(1) 1 2 y by (simp add: andthen_def)
      show ?thesis
        using unlinked [OF 3] only_new_both [OF n1 n2] linked_file [OF 2 [unfolded z]] n1 f1 assms(2) unfolding only_new_def
        by (auto split: if_splits)
    qed
  qed
qed

lemma export_steps:
  assumes "export_receipt rid path c = (x, c')" "on_launcher (on_run rid (run_bundle JNull)) c = (Inr bd, c1)" "dumps bd = Inr data" "path \<noteq> lit ''-''"
  shows "andthen (create_file (path @ lit ''.tmp'') data) (\<lambda>_. andthen (link_file (path @ lit ''.tmp'') path) (\<lambda>_. unlink_file (path @ lit ''.tmp''))) c1 = (x, c')"
  using assms by (simp add: export_receipt_def andthen_def lift_r_def Let_def)

lemma export_effects:
  assumes "export_receipt rid path c = (x, c')"
  shows "(\<forall>q. q \<notin> {path, path @ lit ''.tmp''} \<or> map_of (cl_exports c) q \<noteq> None \<longrightarrow> map_of (cl_exports c') q = map_of (cl_exports c) q) \<and>
    (path = lit ''-'' \<longrightarrow> cl_exports c' = cl_exports c) \<and>
    (x = Inr () \<and> path \<noteq> lit ''-'' \<longrightarrow> map_of (cl_exports c) path = None \<and> map_of (cl_exports c') (path @ lit ''.tmp'') = None \<and>
      (\<exists>bundle data n. fst (on_launcher (on_run rid (run_bundle JNull)) c) = Inr bundle \<and> dumps bundle = Inr data \<and>
         cl_writes c (length data) = Some n \<and> map_of (cl_exports c') path = Some (take n data)))"
proof -
  obtain y c1 where b: "on_launcher (on_run rid (run_bundle JNull)) c = (y, c1)" by (cases "on_launcher (on_run rid (run_bundle JNull)) c")
  note e1 = launcher_exports [OF b]
  show ?thesis
  proof (cases "\<exists>bundle data. y = Inr bundle \<and> dumps bundle = Inr data \<and> path \<noteq> lit ''-''")
    case False
    then show ?thesis using assms b e1
      by (cases y) (auto simp: export_receipt_def andthen_def lift_r_def print_out_def modify_def split: sum.splits if_splits)
  next
    case True
    then obtain bd data where d: "y = Inr bd" "dumps bd = Inr data" "path \<noteq> lit ''-''" by blast
    have "path @ lit ''.tmp'' \<noteq> path" by (simp add: lit_def)
    from installed [OF export_steps [OF assms b [unfolded d(1)] d(2,3)] this] e1 b d show ?thesis by auto
  qed
qed

text \<open>C36: exporting a receipt never overwrites a file. Whatever the run, the path and the errors on the way, every file that existed
  holds what it held, and no file but the one named and the one under its second name is made; an export that succeeds to a path has made
  that file anew, has left nothing under the second name, and the file holds as much of the bytes of the run's bundle as the one call of
  \<open>os.write\<close> took.\<close>

theorem receipts_never_overwrite:
  assumes "export_receipt rid path c = (x, c')"
  shows "(\<forall>q. q \<notin> {path, path @ lit ''.tmp''} \<or> map_of (cl_exports c) q \<noteq> None \<longrightarrow> map_of (cl_exports c') q = map_of (cl_exports c) q) \<and>
    (path = lit ''-'' \<longrightarrow> cl_exports c' = cl_exports c) \<and>
    (x = Inr () \<and> path \<noteq> lit ''-'' \<longrightarrow> map_of (cl_exports c) path = None \<and> map_of (cl_exports c') (path @ lit ''.tmp'') = None \<and>
      (\<exists>bundle data n. fst (on_launcher (on_run rid (run_bundle JNull)) c) = Inr bundle \<and> dumps bundle = Inr data \<and>
         cl_writes c (length data) = Some n \<and> map_of (cl_exports c') path = Some (take n data)))"
  by (rule export_effects [OF assms])

theorem receipts_never_overwrite_witness:
  "\<exists>x c'. export_receipt (lit ''r'') (lit ''old'') (demo_cli\<lparr>cl_exports := [(lit ''old'', [1])]\<rparr>) = (x, c') \<and>
     map_of (cl_exports c') (lit ''old'') = Some [1] \<and> x \<noteq> Inr ()"
proof -
  let ?c = "demo_cli\<lparr>cl_exports := [(lit ''old'', [1])]\<rparr>"
  obtain x c' where e: "export_receipt (lit ''r'') (lit ''old'') ?c = (x, c')" by (cases "export_receipt (lit ''r'') (lit ''old'') ?c")
  have "lit ''old'' \<noteq> lit ''-''" by (simp add: lit_def)
  then show ?thesis using receipts_never_overwrite [OF e] e by auto
qed

end
