(* ===== verification/CliReceipt.thy ===== *)
theory CliReceipt imports CliProps begin

text \<open>
  The receipt from the journal to the exit status: what \<open>receipt export\<close> writes of a run with a settled journal, read by \<open>verify\<close> in
  another process, whatever the rest of that process is, is accepted under the key of the run.
\<close>

lemma bundle_profile: "\<forall>e \<in> set es. json_ok (MAX_DEPTH - 2) e \<Longrightarrow> json_ok MAX_DEPTH (bundle_obj es JNull)"
  by (auto simp: bundle_obj_def distinct_keys_def lit_scalar MAX_JSON_INT_def MAX_DEPTH_def numeral_2_eq_2)

lemma canon_bundle:
  assumes "json_ok MAX_DEPTH (bundle_obj es JNull)"
  shows "fld (canon (bundle_obj es JNull)) ''v'' = JInt 1" "fld (canon (bundle_obj es JNull)) ''entries'' = JArr (map canon es)"
    "fld (canon (bundle_obj es JNull)) ''expected_head'' = JNull"
  using fld_canon [OF assms] by (simp_all add: bundle_obj_def shape_defs)

lemma canon_bundle_checks:
  assumes "length es \<le> 1000000"
  shows "check_bundle (canon (bundle_obj es JNull)) = Inr () \<longleftrightarrow> (\<forall>e \<in> set es. check_entry (canon e) = Inr ())"
proof -
  have c: "canon (bundle_obj es JNull) = JObj [(lit ''entries'', JArr (map canon es)), (lit ''expected_head'', JNull), (lit ''v'', JInt 1)]"
    by (simp add: bundle_obj_def sorted_items_def utf16_key_def utf16_units_def lit_def)
  have "eachE check_entry (map canon es) = Inr () \<longleftrightarrow> (\<forall>e \<in> set es. check_entry (canon e) = Inr ())"
    by (induction es) (auto simp: bindE_eq_Inr)
  then show ?thesis using assms by (simp add: check_bundle_def c shape_defs check_version_def)
qed

lemma on_run_result: "on_run rid m L = (Inr b, L') \<Longrightarrow> map_of (la_runs L) rid = Some r \<Longrightarrow> \<exists>r'. m (r\<lparr>rn_world := la_world L\<rparr>) = (Inr b, r')"
  by (auto simp: on_run_def split: prod.splits)

text \<open>What the verifier says of the bundle, when all its cryptographic steps pass.\<close>

lemma verify_bundle_says:
  assumes "check_pins pins = Inr ()" "linked xs" "\<forall>x \<in> set xs. hashed x \<and> authentic lib pins x" "arr_of (fld b ''entries'') = xs"
    and "fld b ''expected_head'' = JNull" "check_bundle b = Inr () \<longleftrightarrow> (\<forall>x \<in> set xs. check_entry x = Inr ())"
  shows "verify_bundle lib b pins rc = Inr res \<longleftrightarrow>
      (\<forall>x \<in> set xs. check_entry x = Inr ()) \<and> (rc \<longrightarrow> is_complete xs) \<and> (\<exists>st. replay_entries xs = Inr st \<and> res = verify_result xs st)"
    and "\<forall>x \<in> set xs. check_entry x = Inr () \<Longrightarrow> replay_entries xs = Inr st \<Longrightarrow> \<not> is_complete xs \<Longrightarrow> verify_bundle lib b pins True = Inl (Lex INCOMPLETE)"
proof -
  show iff: "verify_bundle lib b pins rc = Inr res \<longleftrightarrow>
      (\<forall>x \<in> set xs. check_entry x = Inr ()) \<and> (rc \<longrightarrow> is_complete xs) \<and> (\<exists>st. replay_entries xs = Inr st \<and> res = verify_result xs st)" for rc res
    using assms by (auto simp: verify_bundle_iff Let_def)
  assume e: "\<forall>x \<in> set xs. check_entry x = Inr ()" "replay_entries xs = Inr st" "\<not> is_complete xs"
  have "verify_bundle lib b pins False = Inr (verify_result xs st)" using iff e by blast
  then show "verify_bundle lib b pins True = Inl (Lex INCOMPLETE)"
    using e(3) assms(4) by (auto simp: verify_bundle_def Let_def bindE_def requireE_def split: sum.splits if_splits)
qed

text \<open>The bytes that the export leaves, if \<open>os.write\<close> takes all of them, are those of the committed entries.\<close>

definition complete_writes :: "'w cli \<Rightarrow> bool" where
  "complete_writes c \<longleftrightarrow> (\<forall>n m. cl_writes c n = Some m \<longrightarrow> n \<le> m)"

lemma exported_bytes:
  assumes "export_receipt rid path c = (Inr (), c')" "path \<noteq> lit ''-''" "map_of (cl_exports c') path = Some data" "complete_writes c"
    and "map_of (la_runs (cl_launcher c)) rid = Some r" "settled now lib es (r\<lparr>rn_world := la_world (cl_launcher c)\<rparr>)" "db_txn (rn_db r) = None"
    and "\<forall>e \<in> set es. json_ok (MAX_DEPTH - 2) e" "ed_correct lib" "public_key_b64_from_seed lib (rn_seed r) = Inr pub"
    and "xs = map canon (take 1000000 es)"
  obtains b where "loads data = Inr b" "linked xs" "\<forall>x \<in> set xs. hashed x \<and> authentic lib [run_pin (rn_core r) pub] x" "arr_of (fld b ''entries'') = xs"
    "fld b ''expected_head'' = JNull" "check_bundle b = Inr () \<longleftrightarrow> (\<forall>x \<in> set xs. check_entry x = Inr ())"
proof -
  let ?r = "r\<lparr>rn_world := la_world (cl_launcher c)\<rparr>"
  obtain bd n where b: "fst (on_launcher (on_run rid (run_bundle JNull)) c) = Inr bd" "dumps bd = Inr (data :: bytes)"
    using export_effects [OF assms(1)] assms(2,3,4) by (auto simp: complete_writes_def)
  then obtain L where "on_run rid (run_bundle JNull) (cl_launcher c) = (Inr bd, L)" by (auto simp: on_launcher_def split: prod.splits)
  from on_run_result [OF this assms(5)] obtain r' where run: "run_bundle JNull ?r = (Inr bd, r')" by blast
  have wire: "\<forall>e \<in> set es. json_ok MAX_DEPTH e" using assms(8) json_ok_mono [of "MAX_DEPTH - 2"] by auto
  have e: "bd = bundle_obj xs JNull" "linked xs" "\<forall>x \<in> set xs. hashed x \<and> authentic lib [run_pin (rn_core r) pub] x"
    using run_bundle_entries [OF assms(6) _ wire assms(9) _ run, of pub] assms(7,10,11) by auto
  have ok: "json_ok MAX_DEPTH bd"
    unfolding e(1) assms(11) by (rule bundle_profile) (use assms(8) in \<open>auto intro: json_ok_canon dest: in_set_takeD\<close>)
  have same: "map canon xs = xs" by (simp add: assms(11) comp_def)
  have l: "loads data = Inr (canon bd)" using loads_dumps [OF ok] dumps_bytes_ok [OF ok] b(2) by simp
  have c: "check_bundle (canon bd) = Inr () \<longleftrightarrow> (\<forall>x \<in> set xs. check_entry x = Inr ())"
    unfolding e(1) using canon_bundle_checks [of xs] same by (simp add: assms(11))
  show thesis
    using that [OF l e(2,3) _ _ c] canon_bundle [OF ok [unfolded e(1)]] same by (simp add: e(1) arr_of_def)
qed

text \<open>The answer can be printed as JSON.\<close>

lemma state_json_ok: "json_ok n (state_json x)"
  by (cases x) (simp_all add: state_json_def lit_scalar)

lemma replay_data_state:
  assumes "replay_data k d s = Inr s'"
  shows "rp_state s' = fld d ''state'' \<or> rp_state s' = rp_state s \<or> (\<exists>st. rp_state s' = state_json st)"
proof -
  obtain s1 where s1: "replay_lifecycle k d s = Inr s1" "s' = replay_post k d s1" using assms by (auto simp: replay_data_def bindE_eq_Inr)
  then show ?thesis using replay_lifecycle_state [OF s1(1)] by (auto simp: replay_post_def split: option.splits)
qed

lemma replay_step_state:
  assumes "replay_step b s = Inr s'"
  shows "rp_state s' = fld (fld b ''data'') ''state'' \<or> rp_state s' = rp_state s \<or> (\<exists>st. rp_state s' = state_json st)"
proof -
  obtain k where "replay_data k (fld b ''data'') s = Inr s'" using assms by (auto simp: replay_step_def Let_def split: if_splits option.splits)
  then show ?thesis by (rule replay_data_state)
qed

lemma replayed_json: "replay_loop bs s = Inr s' \<Longrightarrow> json_ok n (rp_state s) \<Longrightarrow> \<forall>b \<in> set bs. json_ok n b \<Longrightarrow> json_ok n (rp_state s')"
proof (induction bs s rule: replay_loop.induct)
  case (2 b bs s)
  then obtain s1 where s1: "replay_step b s = Inr s1" "replay_loop bs s1 = Inr s'" by (auto simp: bindE_eq_Inr)
  have "json_ok n (fld (fld b ''data'') ''state'')" using 2(4) by (auto intro!: json_ok_fld)
  then have "json_ok n (rp_state s1)" using replay_step_state [OF s1(1)] 2(3) state_json_ok by fastforce
  then show ?case using 2(1) [OF s1(1)] s1(2) 2(4) by simp
qed simp

lemma result_written:
  assumes "replay_entries xs = Inr st" "\<forall>x \<in> set xs. json_ok (MAX_DEPTH - 2) x"
  shows "\<exists>t. write_json (verify_result xs st) = Inr t"
proof -
  have b: "json_ok (MAX_DEPTH - 2) (body_at x)" if "x \<in> set xs" for x using assms(2) that by (auto intro!: json_ok_fld)
  have "json_ok (MAX_DEPTH - 2) st"
    using assms(1) replayed_json [of "map body_at xs" replay_init _ "MAX_DEPTH - 2"] b state_json_ok [of "MAX_DEPTH - 2" CREATED]
    by (auto simp: replay_entries_def replay_events_def bindE_eq_Inr replay_init_def state_json_def split: if_splits)
  then have s: "json_ok (MAX_DEPTH - 1) st" by (rule json_ok_mono) simp
  have h: "json_ok (MAX_DEPTH - 1) (bundle_head xs)"
  proof (cases "xs = []")
    case False
    then have "json_ok (MAX_DEPTH - 2) (fld (body_at (last xs)) ''seq'')" "json_ok (MAX_DEPTH - 2) (fld (last xs) ''hash'')"
      using b [OF last_in_set] assms(2) by (auto intro!: json_ok_fld)
    then show ?thesis using False by (simp add: bundle_head_def distinct_keys_def lit_scalar MAX_DEPTH_def)
  qed (simp add: bundle_head_def distinct_keys_def lit_scalar MAX_DEPTH_def zero_hash_checks(2))
  have "json_ok MAX_DEPTH (verify_result xs st)"
    using s h by (simp add: verify_result_def distinct_keys_def lit_scalar MAX_DEPTH_def)
  from write_json_total [OF this] show ?thesis by blast
qed

section \<open>The command\<close>

lemma pin_of_run: "61 \<notin> set (rc_key_id k) \<Longrightarrow> pin_of (rc_key_id k @ lit ''='' @ pub) = Some (run_pin k pub)"
  by (simp add: pin_of_def partition_eq_plain lit_def run_pin_def)

text \<open>\<open>verify\<close> with any options that it allows.\<close>

lemma verify_arguments:
  assumes "\<not> startswith path (lit ''-'')" "allowed verify_flags ps"
  shows "\<exists>fs. parse_flags ([path] @ concat (map written ps)) verify_flags 1 = Inr (fs, [path]) \<and> (\<forall>k. map_of fs k = flag_meant verify_flags ps k)"
proof -
  have p: "path \<noteq> lit ''--help''" "path \<noteq> lit ''-h''" "path \<noteq> lit ''--''" "\<not> startswith path (lit ''--'')"
    using assms(1) by (cases path; auto simp: startswith_def lit_def)+
  obtain fs where fs: "\<forall>rest acc. parse_loop verify_flags (concat (map written ps) @ rest) [] acc = parse_loop verify_flags rest fs acc"
    "\<forall>k. map_of fs k = flag_meant verify_flags ps k" using parse_allowed [OF assms(2)] by blast
  have "parse_loop verify_flags (path # rest) [] [] = parse_loop verify_flags rest [] [path]" for rest
    by (subst parse_loop.simps) (use p in simp)
  moreover have "parse_loop verify_flags (concat (map written ps)) [] [path] = parse_loop verify_flags [] fs [path]" using fs(1) [rule_format, of "[]" "[path]"] by simp
  moreover have "parse_loop verify_flags [] fs [path] = Inr (fs, [path])" by (simp add: parse_loop.simps)
  ultimately show ?thesis using fs(2) by (intro exI [of _ fs]) (simp add: parse_flags_def bindE_def)
qed

definition asked_for :: "string \<Rightarrow> option_text list \<Rightarrow> bool" where
  "asked_for k ps \<longleftrightarrow> lit k \<in> option_name ` set ps"

lemma asked_flag: "\<forall>k. map_of fs k = flag_meant verify_flags ps k \<Longrightarrow> has_flag fs k \<longleftrightarrow> asked_for k ps"
  by (simp add: has_flag_def flag_meant_def asked_for_def split: option.split bool.split)

lemma keys_asked:
  assumes "\<forall>k. map_of fs k = flag_meant verify_flags ps k"
  shows "key_flags fs = values_of (lit ''key'') ps"
proof -
  have "map_of verify_flags (lit ''key'') = Some (True, True)" by (simp add: verify_flags_def)
  then show ?thesis using assms values_of_absent [of "lit ''key''" ps] by (simp add: key_flags_def flag_meant_def)
qed

definition shown :: "option_text list \<Rightarrow> json \<Rightarrow> emission" where
  "shown ps v = (if asked_for ''json'' ps then Line v else Human v)"

lemma verify_command:
  fixes d :: "'w cli"
  assumes "\<not> startswith path (lit ''-'')" "allowed verify_flags ps" "values_of (lit ''key'') ps = [kv]" "pin_of kv = Some pin"
    and "\<not> (asked_for ''require-complete'' ps \<and> asked_for ''allow-prefix'' ps)" "cl_file d path = Inr data" "loads data = Inr b"
  shows "main E lib seeds hash_file rounds ([lit ''verify'', path] @ concat (map written ps)) d =
    Some (tried (asked_for ''json'' ps) True (\<lambda>c. if c \<in> set INTEGRITY_CODES then 76 else exit_code_for c)
      (andthen (lift_r (verify_bundle lib b [pin] (\<not> asked_for ''allow-prefix'' ps))) (\<lambda>res. ret (Inr res)))
      (\<lambda>res. andthen (emit res (asked_for ''json'' ps)) (\<lambda>_. ret 0)) d)"
proof -
  obtain fs where fs: "parse_flags ([path] @ concat (map written ps)) verify_flags 1 = Inr (fs, [path])" "\<forall>k. map_of fs k = flag_meant verify_flags ps k"
    using verify_arguments [OF assms(1,2)] by blast
  note f = asked_flag [OF fs(2)] keys_asked [OF fs(2)]
  have "map_of (COMMANDS E lib seeds hash_file rounds) (lit ''verify'') = Some (returning (cmd_verify lib))" by (simp add: COMMANDS_def lit_def)
  moreover have "lit ''verify'' \<notin> set [lit ''--help'', lit ''-h'', lit ''help'']" by (simp add: lit_def)
  moreover have "(cmd_verify lib ([path] @ concat (map written ps)) :: usage_error + ('w, int) cla) =
    Inr (tried (asked_for ''json'' ps) True (\<lambda>c. if c \<in> set INTEGRITY_CODES then 76 else exit_code_for c)
      (andthen (read_json path) (\<lambda>b. andthen (lift_r (verify_bundle lib b [pin] (\<not> asked_for ''allow-prefix'' ps))) (\<lambda>res. ret (Inr res))))
      (\<lambda>res. andthen (emit res (asked_for ''json'' ps)) (\<lambda>_. ret 0)))"
    using assms(5) by (auto simp: cmd_verify_def fs(1) [unfolded One_nat_def, simplified] f json_mode_def assms(3,4) Let_def)
  ultimately show ?thesis
    by (simp add: main_def returning_def bindE_def tried_def guarded_def handle_exn_def read_json_def reads_def andthen_def lift_r_def assms(6,7))
qed

text \<open>The end of a command whose body is one check: the result is printed, or the failure is.\<close>

abbreviation checked :: "bool \<Rightarrow> (code \<Rightarrow> int) \<Rightarrow> exn + json \<Rightarrow> ('w, int) cla" where
  "checked jm status v \<equiv> tried jm True status (andthen (lift_r v) (\<lambda>res. ret (Inr res))) (\<lambda>res. andthen (emit res jm) (\<lambda>_. ret 0))"

lemma code_written: "\<exists>t. write_json (cli_error (JStr (code_name c))) = Inr t"
proof -
  have "is_scalar_text (code_name c)" by (cases c) simp_all
  then have "json_ok MAX_DEPTH (cli_error (JStr (code_name c)))"
    by (simp add: cli_error_def distinct_keys_def lit_scalar MAX_DEPTH_def MAX_JSON_INT_def)
  from write_json_total [OF this] show ?thesis by blast
qed

lemma checked_passes: "write_json res = Inr t \<Longrightarrow>
    checked jm status (Inr res) d = (Inr 0, d\<lparr>cl_out := cl_out d @ [if jm then Line res else Human res]\<rparr>)"
  by (simp add: tried_def guarded_def handle_exn_def andthen_def lift_r_def ret_def emit_def print_out_def modify_def)

lemma checked_fails: "fst (checked jm status (Inl e) d) = (case exn_code e of Some c \<Rightarrow> Inr (status c) | None \<Rightarrow> if e = Py OS_Error then Inr 74 else Inl e)"
  using code_written [of INVALID_INPUT] code_written [of "the (exn_code e)"]
  by (auto simp: tried_def guarded_def handle_exn_def andthen_def lift_r_def ret_def raise_def fail_with_def emit_def print_out_def modify_def split: option.splits)

text \<open>The entries whose schema holds and which replay.\<close>

definition replayable :: "json list \<Rightarrow> bool" where
  "replayable xs \<longleftrightarrow> (\<forall>x \<in> set xs. check_entry x = Inr ()) \<and> (\<exists>st. replay_entries xs = Inr st)"

lemma checked_verify:
  assumes "check_pins pins = Inr ()" "linked xs" "\<forall>x \<in> set xs. hashed x \<and> authentic lib pins x" "arr_of (fld b ''entries'') = xs"
    and "fld b ''expected_head'' = JNull" "check_bundle b = Inr () \<longleftrightarrow> (\<forall>x \<in> set xs. check_entry x = Inr ())"
    and "\<forall>x \<in> set xs. json_ok (MAX_DEPTH - 2) x" "\<forall>c. status c \<noteq> 0" "status INCOMPLETE = 76"
  shows "\<exists>x d'. checked jm status (verify_bundle lib b pins rc) d = (x, d') \<and> (x = Inr 0 \<longleftrightarrow> replayable xs \<and> (rc \<longrightarrow> is_complete xs)) \<and>
    (x = Inr 0 \<longrightarrow> (\<exists>st. replay_entries xs = Inr st \<and>
       d' = d\<lparr>cl_out := cl_out d @ [if jm then Line (verify_result xs st) else Human (verify_result xs st)]\<rparr>)) \<and>
    (replayable xs \<and> rc \<and> \<not> is_complete xs \<longrightarrow> x = Inr 76)"
proof (cases "replayable xs \<and> (rc \<longrightarrow> is_complete xs)")
  case True
  then obtain st where st: "replay_entries xs = Inr st" "verify_bundle lib b pins rc = Inr (verify_result xs st)"
    using verify_bundle_says(1) [OF assms(1-6)] by (auto simp: replayable_def)
  obtain t where "write_json (verify_result xs st) = Inr t" using result_written [OF st(1) assms(7)] by blast
  from checked_passes [OF this, of jm status d] show ?thesis using True st by simp
next
  case False
  then obtain e where e: "verify_bundle lib b pins rc = Inl e"
    using verify_bundle_says(1) [OF assms(1-6)] by (cases "verify_bundle lib b pins rc") (auto simp: replayable_def)
  have "fst (checked jm status (Inl e) d) \<noteq> Inr 0" using checked_fails [of jm status e d] assms(8) by (auto split: option.splits)
  moreover have "e = Lex INCOMPLETE" if "replayable xs" "rc" "\<not> is_complete xs"
    using that e verify_bundle_says(2) [OF assms(1-6)] by (auto simp: replayable_def)
  then have "replayable xs \<and> rc \<and> \<not> is_complete xs \<longrightarrow> fst (checked jm status (Inl e) d) = Inr 76"
    using checked_fails [of jm status e d] assms(9) by auto
  ultimately show ?thesis using False e by (cases "checked jm status (Inl e) d") auto
qed

text \<open>C6: an exported receipt verifies. Let \<open>receipt export\<close> have written a run in memory, whose committed journal is a sealed chain, to
  a file system that takes all bytes it is given, and let \<open>verify\<close> be started in any other process, on a file with those bytes, with the
  key of the run as its pin and any other options of its own that do not contradict each other. It ends with status 0 exactly if the
  entries hold to the schema and replay, and, unless \<open>--allow-prefix\<close> is among the options, the run has ended; then all it does is print
  the head and the replayed state, as JSON if that is asked for. A run that has not ended, without \<open>--allow-prefix\<close>, is status 76.\<close>

theorem exported_receipt_verifies:
  fixes d :: "'w cli"
  assumes "export_receipt rid path c = (Inr (), c')" "path \<noteq> lit ''-''" "map_of (cl_exports c') path = Some data" "complete_writes c"
    and "map_of (la_runs (cl_launcher c)) rid = Some r" "settled now lib es (r\<lparr>rn_world := la_world (cl_launcher c)\<rparr>)" "db_txn (rn_db r) = None"
    and "\<forall>e \<in> set es. json_ok (MAX_DEPTH - 2) e" "ed_correct lib" "public_key_b64_from_seed lib (rn_seed r) = Inr pub"
    and "xs = map canon (take 1000000 es)" "check_pins [run_pin (rn_core r) pub] = Inr ()" "61 \<notin> set (rc_key_id (rn_core r))"
    and "cl_file d copy = Inr data" "\<not> startswith copy (lit ''-'')"
    and "allowed verify_flags ps" "values_of (lit ''key'') ps = [rc_key_id (rn_core r) @ lit ''='' @ pub]"
    and "\<not> (asked_for ''require-complete'' ps \<and> asked_for ''allow-prefix'' ps)"
  shows "\<exists>x d'. main E lib seeds hash_file rounds ([lit ''verify'', copy] @ concat (map written ps)) d = Some (x, d') \<and>
    (x = Inr 0 \<longleftrightarrow> replayable xs \<and> (asked_for ''allow-prefix'' ps \<or> is_complete xs)) \<and>
    (x = Inr 0 \<longrightarrow> (\<exists>st. replay_entries xs = Inr st \<and> d' = d\<lparr>cl_out := cl_out d @ [shown ps (verify_result xs st)]\<rparr>)) \<and>
    (replayable xs \<and> \<not> asked_for ''allow-prefix'' ps \<and> \<not> is_complete xs \<longrightarrow> x = Inr 76)"
proof -
  obtain b where b: "loads data = Inr b" "linked xs" "\<forall>x \<in> set xs. hashed x \<and> authentic lib [run_pin (rn_core r) pub] x"
    "arr_of (fld b ''entries'') = xs" "fld b ''expected_head'' = JNull" "check_bundle b = Inr () \<longleftrightarrow> (\<forall>x \<in> set xs. check_entry x = Inr ())"
    by (rule exported_bytes [OF assms(1-11)])
  have wire: "\<forall>x \<in> set xs. json_ok (MAX_DEPTH - 2) x" using assms(8,11) by (auto intro: json_ok_canon dest: in_set_takeD)
  let ?status = "\<lambda>c. if c \<in> set INTEGRITY_CODES then 76 else exit_code_for c"
  have "exit_code_for c \<noteq> 0" for c using exit_code_nonzero [of c] by auto
  then have "\<forall>c. ?status c \<noteq> 0" "?status INCOMPLETE = 76" by (simp_all add: INTEGRITY_CODES_def)
  from checked_verify [OF assms(12) b(2-6) wire this, of "asked_for ''json'' ps" "\<not> asked_for ''allow-prefix'' ps" d]
  show ?thesis
    unfolding verify_command [OF assms(15-17) pin_of_run [OF assms(13)] assms(18,14) b(1)] option.inject not_not shown_def
    by blast
qed

text \<open>The process that has the created run in memory, with any count of \<open>os.write\<close>.\<close>

definition exporting_cli :: "(nat \<Rightarrow> nat option) \<Rightarrow> sim_host cli" where
  "exporting_cli w = demo_cli\<lparr>cl_writes := w, cl_launcher := demo_launcher\<lparr>la_runs := [(lit ''r'', demo_run created_journal)]\<rparr>\<rparr>"

lemma created_entry_shallow: "json_ok (MAX_DEPTH - 2) created_entry"
  using json_ok_mono [OF created_body_ok]
  by (simp add: created_entry_def distinct_keys_def lit_scalar created_hash MAX_DEPTH_def MAX_JSON_INT_def encode_b64url_scalar)

lemma created_replays: "replay_entries [canon created_entry] = Inr (state_json CREATED)"
  by (simp add: replay_entries_def replay_events_def replay_step_def canon_created shape_defs small_u kind_of_iff replay_data_def replay_post_def)

lemma created_replayable: "replayable [canon created_entry]" "\<not> is_complete [canon created_entry]"
  using canon_created_checks created_replays
  by (simp_all add: replayable_def is_complete_def canon_created shape_defs)

lemma exporting_run:
  "(demo_run created_journal)\<lparr>rn_world := la_world (cl_launcher (exporting_cli w))\<rparr> = demo_run created_journal"
  "map_of (la_runs (cl_launcher (exporting_cli w))) (lit ''r'') = Some (demo_run created_journal)"
  by (simp_all add: exporting_cli_def demo_cli_def demo_launcher_def demo_run_def Run_def)

lemma created_exported:
  assumes "w (length (dumps_bytes (bundle_obj [canon created_entry] JNull))) = Some n"
  shows "\<exists>c'. export_receipt (lit ''r'') (lit ''out'') (exporting_cli w) = (Inr (), c') \<and>
    map_of (cl_exports c') (lit ''out'') = Some (take n (dumps_bytes (bundle_obj [canon created_entry] JNull)))"
proof -
  let ?r = "demo_run created_journal" and ?b = "bundle_obj [canon created_entry] JNull"
  have "events_from 0 1000000 created_journal = [dumps_bytes created_entry]"
    by (simp add: events_from_def by_seq_def created_journal_def JOURNAL_SCHEMA_def)
  then have "\<exists>r'. run_bundle JNull ?r = (Inr ?b, r')"
    by (simp add: run_bundle_def andthen_def on_db_def events_after_def query_def lift_r_def ret_def loads_dumps [OF created_entry_ok])
  then obtain L where L: "on_run (lit ''r'') (run_bundle JNull) (cl_launcher (exporting_cli w)) = (Inr ?b, L)"
    using exporting_run [of w] by (auto simp: on_run_def)
  have "json_ok MAX_DEPTH ?b" by (rule bundle_profile) (use json_ok_canon [OF created_entry_shallow] in simp)
  then have "dumps ?b = Inr (dumps_bytes ?b)" by (rule dumps_bytes_ok)
  then show ?thesis
    using L assms
    by (simp add: export_receipt_def andthen_def on_launcher_def lift_r_def Let_def create_file_def open_excl_def os_write_def sync_close_def
        link_file_def unlink_file_def modify_def ret_def reads_def lit_def exporting_cli_def demo_cli_def)
qed

text \<open>The created run, exported, is a prefix: \<open>verify\<close> ends with 0 under \<open>--allow-prefix\<close>, and with 76 without it.\<close>

theorem exported_receipt_verifies_witness:
  "\<exists>c' data. export_receipt (lit ''r'') (lit ''out'') (exporting_cli Some) = (Inr (), c') \<and> map_of (cl_exports c') (lit ''out'') = Some data \<and>
    (\<exists>d'. main sim_env plain_lib (\<lambda>_. []) (\<lambda>_. bad) 0
      ([lit ''verify'', lit ''copy''] @ concat (map written [Apart (lit ''key'') (plain_id ID_key @ lit ''='' @ encode_b64url (replicate 32 0)), Switch (lit ''json''), Switch (lit ''allow-prefix'')]))
      (demo_cli\<lparr>cl_file := (\<lambda>_. Inr data)\<rparr>) = Some (Inr 0, d') \<and>
      d' = demo_cli\<lparr>cl_file := (\<lambda>_. Inr data), cl_out := [Line (verify_result [canon created_entry] (state_json CREATED))]\<rparr>) \<and>
    (\<exists>d'. main sim_env plain_lib (\<lambda>_. []) (\<lambda>_. bad) 0
      ([lit ''verify'', lit ''copy''] @ concat (map written [Joined (lit ''key'') (plain_id ID_key @ lit ''='' @ encode_b64url (replicate 32 0))]))
      (demo_cli\<lparr>cl_file := (\<lambda>_. Inr data)\<rparr>) = Some (Inr 76, d'))"
proof -
  let ?r = "demo_run created_journal" and ?b = "bundle_obj [canon created_entry] JNull" and ?data = "dumps_bytes (bundle_obj [canon created_entry] JNull)"
  have pub: "public_key_b64_from_seed plain_lib (rn_seed ?r) = Inr (encode_b64url (replicate 32 0))"
    by (simp add: public_key_b64_from_seed_def public_key_from_seed_def SEED_LEN_def plain_lib_def)
  have cw: "complete_writes (exporting_cli Some)" by (simp add: complete_writes_def exporting_cli_def)
  obtain c' where e: "export_receipt (lit ''r'') (lit ''out'') (exporting_cli Some) = (Inr (), c')" "map_of (cl_exports c') (lit ''out'') = Some ?data"
    using created_exported [of Some "length ?data"] by auto
  have o: "lit ''out'' \<noteq> lit ''-''" "\<not> startswith (lit ''copy'') (lit ''-'')" by (simp_all add: startswith_def lit_def)
  have k: "61 \<notin> set (rc_key_id (rn_core ?r))" by (simp add: plain_id_def lit_def)
  let ?d = "demo_cli\<lparr>cl_file := (\<lambda>_. Inr ?data)\<rparr>" and ?kv = "plain_id ID_key @ lit ''='' @ encode_b64url (replicate 32 0)"
  have f: "cl_file ?d (lit ''copy'') = Inr ?data" by simp
  note run = exported_receipt_verifies [OF e(1) o(1) e(2) cw exporting_run(2) _ _ _ plain_lib_correct pub _ created_pins k f o(2), where now = sm_now_us and
      es = "[created_entry]" and xs = "[canon created_entry]" and E = sim_env and seeds = "\<lambda>_. []" and hash_file = "\<lambda>_. bad" and rounds = 0]
  let ?p1 = "[Apart (lit ''key'') ?kv, Switch (lit ''json''), Switch (lit ''allow-prefix'')]" and ?p2 = "[Joined (lit ''key'') ?kv]"
  have p: "allowed verify_flags ?p1" "allowed verify_flags ?p2" "values_of (lit ''key'') ?p1 = [?kv]" "values_of (lit ''key'') ?p2 = [?kv]"
    "asked_for ''json'' ?p1" "asked_for ''allow-prefix'' ?p1" "\<not> asked_for ''require-complete'' ?p1" "\<not> asked_for ''allow-prefix'' ?p2"
    by (simp_all add: allowed_def option_fits_def repeats_def verify_flags_def is_switch_def values_of_def asked_for_def lit_def)
  have s: "settled sm_now_us plain_lib [created_entry] (?r\<lparr>rn_world := la_world (cl_launcher (exporting_cli Some))\<rparr>)"
    using created_settled exporting_run(1) by simp
  have t: "db_txn (rn_db ?r) = None" by (simp add: idle_conn_def)
  have out: "cl_out ?d = []" by (simp add: demo_cli_def)
  have x: "\<forall>e \<in> set [created_entry]. json_ok (MAX_DEPTH - 2) e" "[canon created_entry] = map canon (take 1000000 [created_entry])"
    using created_entry_shallow by simp_all
  have "\<exists>d'. main sim_env plain_lib (\<lambda>_. []) (\<lambda>_. bad) 0 ([lit ''verify'', lit ''copy''] @ concat (map written ?p1)) ?d = Some (Inr 0, d') \<and>
      d' = ?d\<lparr>cl_out := cl_out ?d @ [Line (verify_result [canon created_entry] (state_json CREATED))]\<rparr>"
    using run [OF s t x p(1)] p(3,5-7) created_replayable(1) created_replays unfolding demo_run_sel shown_def by fastforce
  moreover have "\<exists>d'. main sim_env plain_lib (\<lambda>_. []) (\<lambda>_. bad) 0 ([lit ''verify'', lit ''copy''] @ concat (map written ?p2)) ?d = Some (Inr 76, d')"
    using run [OF s t x p(2)] p(4,8) created_replayable unfolding demo_run_sel by blast
  ultimately show ?thesis using e out by (intro exI [of _ c'] exI [of _ ?data]) simp
qed

text \<open>The count that \<open>os.write\<close> returns is not looked at: an export whose write takes nothing succeeds and leaves an empty receipt.\<close>

theorem short_write_is_success:
  "\<exists>c'. export_receipt (lit ''r'') (lit ''out'') (exporting_cli (\<lambda>_. Some 0)) = (Inr (), c') \<and> map_of (cl_exports c') (lit ''out'') = Some []"
  using created_exported [of "\<lambda>_. Some 0" 0] by simp

end
