(* ===== verification/Linux.thy ===== *)
theory Linux imports EngineSafe begin

text \<open>
  Models \<open>src/lexwatt/host/linux.py\<close> but for the launch of a process and the network (\<open>LinuxSpawn\<close>): text files of the kernel, the
  control group of a run, its processes, the power domains, the locks of task users and workspaces, and the report of
  capabilities.

  The kernel is a parameter: \<open>kernel\<close> is the record of the system calls that the class makes, each an action on a state of the
  kernel of any type. What a call may answer is not restricted, except that the ASCII file of the boot id is always there
  (\<open>k_boot_id\<close> is its text); \<open>Py OS_Error\<close> stands for every \<open>OSError\<close>. The object \<open>LinuxHost\<close>
  with the handles it has given out is the record \<open>linux\<close>.
\<close>

section \<open>Text\<close>

text \<open>Python's \<open>int\<close> of a text in base ten: surrounding blanks, a sign, single underscores between digits.\<close>

fun int_digits :: "bool \<Rightarrow> nat \<Rightarrow> pystr \<Rightarrow> nat option" where
  "int_digits after_digit acc [] = (if after_digit then Some acc else None)"
| "int_digits after_digit acc (c # cs) =
    (if c = 95 then (if after_digit then int_digits False acc cs else None)
     else if is_digit c then int_digits True (acc * 10 + (c - 48)) cs
     else None)"

definition is_blank :: "nat \<Rightarrow> bool" where "is_blank c \<longleftrightarrow> is_c_space c \<or> (28 \<le> c \<and> c \<le> 31)"

definition strip_by :: "(nat \<Rightarrow> bool) \<Rightarrow> pystr \<Rightarrow> pystr" where
  "strip_by p s = rev (dropWhile p (rev (dropWhile p s)))"

definition parse_int :: "pystr \<Rightarrow> exn + int" where
  "parse_int s =
    (let neg = (take 1 s = lit ''-''); ds = (if neg \<or> take 1 s = lit ''+'' then drop 1 s else s)
     in if length (filter is_digit ds) > INT_MAX_STR_DIGITS then Inl (Py Value_Error)
        else (case int_digits False 0 ds of None \<Rightarrow> Inl (Py Value_Error) | Some n \<Rightarrow> Inr (if neg then - int n else int n)))"

text \<open>\<open>int(text)\<close> and \<open>int(data)\<close> for bytes, which differ in what is blank.\<close>

definition int_of_text :: "pystr \<Rightarrow> exn + int" where "int_of_text s = parse_int (strip_by is_blank s)"
definition int_of_bytes :: "bytes \<Rightarrow> exn + int" where "int_of_bytes b = parse_int (strip_by is_c_space b)"

text \<open>\<open>split()\<close> without an argument, for text and for bytes\<close>

definition words_by :: "(nat \<Rightarrow> bool) \<Rightarrow> pystr \<Rightarrow> pystr list" where
  "words_by p s = filter (\<lambda>w. w \<noteq> []) (split_on 32 (map (\<lambda>c. if p c then 32 else c) s))"

definition nth_item :: "'a list \<Rightarrow> nat \<Rightarrow> exn + 'a" where
  "nth_item xs i = (if i < length xs then Inr (xs ! i) else Inl (Py Index_Error))"

text \<open>A file opened with \<open>encoding="ascii"\<close>, with universal newlines, and the walk over its lines.\<close>

fun newlines :: "pystr \<Rightarrow> pystr" where
  "newlines [] = []"
| "newlines (c # cs) = (if c = 13 then 10 # newlines (if take 1 cs = [10] then drop 1 cs else cs) else c # newlines cs)"

definition decode_ascii :: "bytes \<Rightarrow> exn + pystr" where
  "decode_ascii b = (if list_all (\<lambda>x. x < 128) b then Inr (newlines b) else Inl (Py Unicode_Error))"

definition file_lines :: "pystr \<Rightarrow> pystr list" where
  "file_lines s = (let ls = split_on 10 s in if last ls = [] then butlast ls else ls)"

section \<open>The kernel\<close>

datatype child_call =
    Unshare nat
  | Second_fork
  | Join_group pystr
  | Setsid
  | Drop_groups
  | Setgid int
  | Setuid int
  | Chdir pystr
  | Dup2 nat nat
  | Close_fd nat
  | No_core
  | No_new_privs
  | Install_filter bytes
  | Execve "pystr list" json

datatype wait_status = Exited nat | Signaled nat | Other_status

datatype net_event = Chunk bytes | Timeout | Broken

record 'k kernel =
  k_boottime :: "'k \<Rightarrow> int \<times> 'k"
  k_boot_id :: "'k \<Rightarrow> pystr"
  k_euid :: "'k \<Rightarrow> int"
  k_machine :: "'k \<Rightarrow> pystr"
  k_hash :: "'k \<Rightarrow> pystr \<Rightarrow> int"
  k_random :: "'k \<Rightarrow> (nat \<Rightarrow> nat) \<times> 'k"
  k_exists :: "'k \<Rightarrow> pystr \<Rightarrow> bool"
  k_isdir :: "'k \<Rightarrow> pystr \<Rightarrow> bool"
  k_realpath :: "'k \<Rightarrow> pystr \<Rightarrow> pystr option"
  k_resolve :: "'k \<Rightarrow> pystr \<Rightarrow> pystr"
  k_listdir :: "pystr \<Rightarrow> ('k, pystr list) act"
  k_read :: "pystr \<Rightarrow> ('k, bytes) act"
  k_write :: "pystr \<Rightarrow> bytes \<Rightarrow> ('k, unit) act"
  k_mkdir :: "pystr \<Rightarrow> ('k, unit) act"
  k_makedirs :: "pystr \<Rightarrow> ('k, unit) act"
  k_rmdir :: "pystr \<Rightarrow> ('k, unit) act"
  k_create :: "pystr \<Rightarrow> ('k, unit) act"
  k_store :: "pystr \<Rightarrow> bytes \<Rightarrow> ('k, unit) act"
  k_unlink :: "pystr \<Rightarrow> ('k, unit) act"
  k_open_lock :: "pystr \<Rightarrow> ('k, nat) act"
  k_flock :: "nat \<Rightarrow> ('k, unit) act"
  k_unlock :: "nat \<Rightarrow> ('k, unit) act"
  k_close :: "nat \<Rightarrow> ('k, unit) act"
  k_killpg :: "nat \<Rightarrow> ('k, unit) act"
  k_kill :: "nat \<Rightarrow> ('k, unit) act"
  k_wait4 :: "nat \<Rightarrow> ('k, wait_status option) act"
  k_pipe :: "('k, nat \<times> nat) act"
  k_fork :: "('k, nat) act"
  k_waitpid :: "nat \<Rightarrow> ('k, unit) act"
  k_pidfd :: "nat \<Rightarrow> ('k, int) act"
  k_child :: "child_call \<Rightarrow> ('k, unit) act"
  k_socket :: "bool \<Rightarrow> ('k, unit) act"
  k_connect :: "pystr \<Rightarrow> pystr \<Rightarrow> int \<Rightarrow> ('k, unit) act"
  k_send :: "bytes \<Rightarrow> ('k, net_event list) act"

section \<open>The object\<close>

record linux_cgroup =
  lc_path :: pystr
  lc_procs :: "nat list"

record linux_proc =
  lp_pid :: nat
  lp_pgid :: nat
  lp_pidfd :: int
  lp_alive :: bool
  lp_exit :: json

record linux_domain =
  ld_sysfs_dir :: pystr
  ld_cpus :: "int set"

text \<open>A control group is given out as the identifier of its run, a power domain as its own, a process as its place in the list.\<close>

record 'k linux =
  lx_kernel :: 'k
  lx_workspace_locks :: "(pystr \<times> nat) list"
  lx_uid_locks :: "(int \<times> nat) list"
  lx_cgroups :: "(pystr \<times> linux_cgroup) list"
  lx_domains :: "(pystr \<times> linux_domain) list"
  lx_procs :: "linux_proc list"

definition LinuxHost :: "'k \<Rightarrow> 'k linux" where
  "LinuxHost k = \<lparr>lx_kernel = k, lx_workspace_locks = [], lx_uid_locks = [], lx_cgroups = [], lx_domains = [], lx_procs = []\<rparr>"

definition sys :: "('k, 'a) act \<Rightarrow> ('k linux, 'a) act" where
  "sys m h = (case m (lx_kernel h) of (x, k) \<Rightarrow> (x, h\<lparr>lx_kernel := k\<rparr>))"

definition CGROUP_ROOT :: pystr where "CGROUP_ROOT = lit ''/sys/fs/cgroup''"
definition LEXWATT_CGROUP_PARENT :: pystr where "LEXWATT_CGROUP_PARENT = lit ''/sys/fs/cgroup/lexwatt''"
definition POWERCAP_ROOT :: pystr where "POWERCAP_ROOT = lit ''/sys/class/powercap''"

definition in_dir :: "pystr \<Rightarrow> string \<Rightarrow> pystr" where "in_dir dir name = dir @ lit ''/'' @ lit name"

definition read_text :: "'k kernel \<Rightarrow> pystr \<Rightarrow> ('k linux, pystr) act" where
  "read_text K path = andthen (sys (k_read K path)) (\<lambda>b. lift_r (decode_ascii b))"

definition write_text :: "'k kernel \<Rightarrow> pystr \<Rightarrow> pystr \<Rightarrow> ('k linux, unit) act" where
  "write_text K path value = sys (k_write K path value)"

definition on_os_error :: "('s, 'a) act \<Rightarrow> ('s, 'a) act \<Rightarrow> ('s, 'a) act" where
  "on_os_error m h = handle_exn m (\<lambda>e. if e = Py OS_Error then h else raise e)"

definition linux_boottime_us :: "'k kernel \<Rightarrow> 'k linux \<Rightarrow> int \<times> 'k linux" where
  "linux_boottime_us K h = (case k_boottime K (lx_kernel h) of (t, k) \<Rightarrow> (t, h\<lparr>lx_kernel := k\<rparr>))"

definition lower_ascii :: "pystr \<Rightarrow> pystr" where "lower_ascii = map (\<lambda>c. if is_upper c then c + 32 else c)"

definition linux_boot_id :: "'k kernel \<Rightarrow> 'k linux \<Rightarrow> pystr" where
  "linux_boot_id K h = lower_ascii (strip_by is_blank (k_boot_id K (lx_kernel h)))"

section \<open>Control groups and processes\<close>

definition cgroup_of :: "pystr \<Rightarrow> ('k linux, linux_cgroup) act" where
  "cgroup_of cg = andthen (reads (\<lambda>h. map_of (lx_cgroups h) cg)) (\<lambda>c. case c of None \<Rightarrow> raise (Py Attribute_Error) | Some c \<Rightarrow> ret c)"

text \<open>The number after a key of a flat keyed file, and what is answered without such a line\<close>

definition keyed_value :: "string \<Rightarrow> int \<Rightarrow> pystr \<Rightarrow> exn + int" where
  "keyed_value key dflt text =
    (case find (\<lambda>l. startswith l (lit key)) (file_lines text) of
       None \<Rightarrow> Inr dflt
     | Some l \<Rightarrow> bindE (nth_item (words_by is_blank l) 1) int_of_text)"

definition linux_populated :: "'k kernel \<Rightarrow> pystr \<Rightarrow> ('k linux, int) act" where
  "linux_populated K cg =
    andthen (cgroup_of cg) (\<lambda>c.
      on_os_error (andthen (read_text K (in_dir (lc_path c) ''cgroup.events'')) (\<lambda>t. lift_r (keyed_value ''populated'' 1 t))) (ret 1))"

definition linux_usage_us :: "'k kernel \<Rightarrow> pystr \<Rightarrow> ('k linux, int) act" where
  "linux_usage_us K cg =
    andthen (cgroup_of cg) (\<lambda>c.
      andthen (read_text K (in_dir (lc_path c) ''cpu.stat'')) (\<lambda>t. lift_r (keyed_value ''usage_usec'' 0 t)))"

definition linux_cgroup_kill :: "'k kernel \<Rightarrow> pystr \<Rightarrow> ('k linux, bool) act" where
  "linux_cgroup_kill K cg =
    andthen (cgroup_of cg) (\<lambda>c.
      on_os_error (andthen (write_text K (in_dir (lc_path c) ''cgroup.kill'') (lit ''1'')) (\<lambda>_. ret True)) (ret False))"

text \<open>\<open>killpg\<close> and \<open>kill\<close> with signal 9 fail only with \<open>ESRCH\<close> and \<open>EPERM\<close>.\<close>

definition kill_proc :: "'k kernel \<Rightarrow> linux_proc \<Rightarrow> bool \<Rightarrow> ('k linux, bool) act" where
  "kill_proc K p ok =
    on_os_error (andthen (sys (k_killpg K (lp_pgid p))) (\<lambda>_. ret True))
      (on_os_error (andthen (sys (k_kill K (lp_pid p))) (\<lambda>_. ret True)) (ret ok))"

definition linux_group_kill :: "'k kernel \<Rightarrow> pystr \<Rightarrow> ('k linux, bool) act" where
  "linux_group_kill K cg =
    andthen (cgroup_of cg) (\<lambda>c.
    andthen (reads (\<lambda>h. map (nth (lx_procs h)) (lc_procs c))) (\<lambda>ps. fold_act (kill_proc K) ps False))"

definition exit_json :: "int option \<Rightarrow> int option \<Rightarrow> json" where
  "exit_json code sig = (let j = (\<lambda>x. case x of None \<Rightarrow> JNull | Some n \<Rightarrow> JInt n) in JObj [(lit ''code'', j code), (lit ''signal'', j sig)])"

definition status_exit :: "wait_status \<Rightarrow> json" where
  "status_exit st = (case st of Exited n \<Rightarrow> exit_json (Some (int n)) None | Signaled n \<Rightarrow> exit_json None (Some (int n)) | Other_status \<Rightarrow> exit_json None (Some 9))"

definition proc_ended :: "nat \<Rightarrow> json \<Rightarrow> ('k linux, json) act" where
  "proc_ended p ex = andthen (modify (\<lambda>h. h\<lparr>lx_procs := (lx_procs h)[p := (lx_procs h ! p)\<lparr>lp_alive := False, lp_exit := ex\<rparr>]\<rparr>)) (\<lambda>_. ret ex)"

text \<open>\<open>LinuxProc.poll\<close>: \<open>JNull\<close> while the process runs; the \<open>ChildProcessError\<close> of \<open>wait4\<close> is read as a kill.\<close>

definition linux_poll :: "'k kernel \<Rightarrow> nat \<Rightarrow> ('k linux, json) act" where
  "linux_poll K p =
    andthen (reads lx_procs) (\<lambda>ps.
      if p \<ge> length ps then raise (Py Attribute_Error)
      else if \<not> lp_alive (ps ! p) then ret (lp_exit (ps ! p))
      else
        andthen (on_os_error (sys (k_wait4 K (lp_pid (ps ! p)))) (ret (Some (Signaled 9)))) (\<lambda>w.
          case w of None \<Rightarrow> ret JNull | Some st \<Rightarrow> proc_ended p (status_exit st)))"

definition linux_proc_alive :: "'k kernel \<Rightarrow> nat \<Rightarrow> ('k linux, bool) act" where
  "linux_proc_alive K p =
    andthen (reads (\<lambda>h. lp_alive (lx_procs h ! p))) (\<lambda>a.
    andthen (if a then andthen (linux_poll K p) (\<lambda>_. ret ()) else ret ()) (\<lambda>_.
      reads (\<lambda>h. lp_alive (lx_procs h ! p))))"

definition linux_teardown :: "'k kernel \<Rightarrow> pystr \<Rightarrow> ('k linux, unit) act" where
  "linux_teardown K cg = andthen (cgroup_of cg) (\<lambda>c. on_os_error (sys (k_rmdir K (lc_path c))) (ret ()))"

section \<open>Capabilities\<close>

text \<open>\<open>any(line.split()[1] == CGROUP_ROOT and line.split()[2] == "cgroup2" for line in f)\<close>\<close>

fun mounted :: "pystr list \<Rightarrow> exn + bool" where
  "mounted [] = Inr False"
| "mounted (l # ls) =
    bindE (nth_item (words_by is_blank l) 1) (\<lambda>dir.
      if dir \<noteq> CGROUP_ROOT then mounted ls
      else bindE (nth_item (words_by is_blank l) 2) (\<lambda>kind. if kind = lit ''cgroup2'' then Inr True else mounted ls))"

definition cgroup_support :: "'k kernel \<Rightarrow> ('k linux, bool \<times> bool) act" where
  "cgroup_support K =
    on_os_error
      (andthen (read_text K (lit ''/proc/mounts'')) (\<lambda>t.
       andthen (lift_r (mounted (file_lines t))) (\<lambda>v2.
       andthen (reads (\<lambda>h. k_exists K (lx_kernel h) (in_dir CGROUP_ROOT ''cgroup.subtree_control''))) (\<lambda>ctl. ret (v2, v2 \<and> ctl)))))
      (ret (False, False))"

definition check_namespaces :: "'k kernel \<Rightarrow> 'k linux \<Rightarrow> bool" where
  "check_namespaces K h = list_all (\<lambda>ns. k_exists K (lx_kernel h) (lit ''/proc/self/ns/'' @ lit ns)) [''mnt'', ''pid'', ''ipc'', ''uts'', ''net'']"

definition check_seccomp :: "'k kernel \<Rightarrow> ('k linux, bool) act" where
  "check_seccomp K =
    on_os_error (andthen (read_text K (lit ''/proc/self/status'')) (\<lambda>t. ret (list_ex (\<lambda>l. startswith l (lit ''Seccomp:'')) (file_lines t)))) (ret False)"

text \<open>The names that are package domains, and the files whose presence makes one usable: the second is not the name
  that the powercap driver uses.\<close>

definition RAPL_PREFIX :: pystr where "RAPL_PREFIX = lit ''intel-rapl:''"

definition is_package :: "pystr \<Rightarrow> bool" where
  "is_package name \<longleftrightarrow> startswith name RAPL_PREFIX \<and> 58 \<notin> set (drop (length RAPL_PREFIX) name)"

definition usable_domain :: "'k kernel \<Rightarrow> 'k linux \<Rightarrow> pystr \<Rightarrow> bool" where
  "usable_domain K h name =
    (let d = POWERCAP_ROOT @ lit ''/'' @ name; there = k_exists K (lx_kernel h)
     in k_isdir K (lx_kernel h) d \<and> is_package name \<and> there (in_dir d ''energy_uj'') \<and> there (in_dir d ''max_energy_uj_range_uj''))"

definition discover_rapl :: "'k kernel \<Rightarrow> ('k linux, pystr list) act" where
  "discover_rapl K =
    on_os_error
      (andthen (sys (k_listdir K POWERCAP_ROOT)) (\<lambda>names.
       andthen (reads id) (\<lambda>h. ret (map (\<lambda>n. lit ''package-'' @ drop (length RAPL_PREFIX) n) (filter (usable_domain K h) (sort names))))))
      (ret [])"

definition linux_capabilities :: "'k kernel \<Rightarrow> json \<Rightarrow> ('k linux, json) act" where
  "linux_capabilities K profile =
    andthen (reads (\<lambda>h. k_machine K (lx_kernel h) = lit ''x86_64'')) (\<lambda>arch_ok.
    andthen (cgroup_support K) (\<lambda>(cgroup_v2, cgroup_kill).
    andthen (reads (\<lambda>h. k_euid K (lx_kernel h) = 0)) (\<lambda>euid0.
    andthen (reads (\<lambda>h. cgroup_v2 \<and> euid0 \<and> check_namespaces K h)) (\<lambda>namespaces.
    andthen (check_seccomp K) (\<lambda>seccomp.
    andthen (discover_rapl K) (\<lambda>domains.
      (let unsupported = \<not> (cgroup_v2 \<and> arch_ok \<and> euid0) \<or> \<not> cgroup_kill \<or> \<not> namespaces \<or> \<not> seccomp \<or> \<not> euid0;
           failures = (if unsupported then [lit ''UNSUPPORTED_PROFILE''] else []) @
             (if profile = JStr (lit ''linux-rapl-v1'') \<and> domains = [] then [lit ''SENSOR_UNAVAILABLE''] else [])
       in ret (JObj [(lit ''profile'', profile), (lit ''cgroup_kill'', JBool cgroup_kill), (lit ''task_uid_isolation'', JBool euid0),
            (lit ''seccomp'', JBool seccomp), (lit ''namespaces'', JBool namespaces), (lit ''rapl_domains'', JArr (map JStr domains)),
            (lit ''failures'', JArr (map JStr failures))]))))))))"

section \<open>Locks\<close>

definition uid_lock_path :: "int \<Rightarrow> pystr" where "uid_lock_path uid = lit ''/run/lexwatt/uid-'' @ int_str uid @ lit ''.lock''"

text \<open>The loop over the range: a user whose lock is held elsewhere is passed over.\<close>

fun uid_loop :: "'k kernel \<Rightarrow> int set \<Rightarrow> int list \<Rightarrow> ('k linux, int) act" where
  "uid_loop K in_use [] = raise (Lex BUSY)"
| "uid_loop K in_use (u # us) =
    (if u \<in> in_use then uid_loop K in_use us
     else
       andthen (on_os_error (sys (k_open_lock K (uid_lock_path u))) (raise (Lex CONTAINMENT_FAULT))) (\<lambda>fd.
       andthen (on_os_error (andthen (sys (k_flock K fd)) (\<lambda>_. ret True)) (andthen (sys (k_close K fd)) (\<lambda>_. ret False))) (\<lambda>got.
         if \<not> got then uid_loop K in_use us
         else andthen (modify (\<lambda>h. h\<lparr>lx_uid_locks := AList.update u fd (lx_uid_locks h)\<rparr>)) (\<lambda>_. ret u))))"

definition linux_uid_alloc :: "'k kernel \<Rightarrow> int \<Rightarrow> int \<Rightarrow> int set \<Rightarrow> ('k linux, int) act" where
  "linux_uid_alloc K lo hi in_use = uid_loop K in_use [lo..hi]"

text \<open>\<open>try: flock(fd, LOCK_UN) finally: os.close(fd)\<close>\<close>

definition unlock_close :: "'k kernel \<Rightarrow> nat \<Rightarrow> ('k linux, unit) act" where
  "unlock_close K fd =
    andthen (handle_exn (sys (k_unlock K fd)) (\<lambda>e. andthen (sys (k_close K fd)) (\<lambda>_. raise e))) (\<lambda>_. sys (k_close K fd))"

definition linux_uid_free :: "'k kernel \<Rightarrow> int \<Rightarrow> ('k linux, unit) act" where
  "linux_uid_free K u =
    andthen (reads (\<lambda>h. map_of (lx_uid_locks h) u)) (\<lambda>fd. case fd of
      None \<Rightarrow> ret ()
    | Some fd \<Rightarrow> andthen (modify (\<lambda>h. h\<lparr>lx_uid_locks := AList.delete u (lx_uid_locks h)\<rparr>)) (\<lambda>_. unlock_close K fd))"

definition workspace_lock_path :: "int \<Rightarrow> pystr" where
  "workspace_lock_path hash = lit ''/run/lexwatt/ws-'' @ int_str \<bar>hash\<bar> @ lit ''.lock''"

definition linux_lease :: "'k kernel \<Rightarrow> pystr \<Rightarrow> ('k linux, unit) act" where
  "linux_lease K path =
    andthen (sys (k_makedirs K (lit ''/run/lexwatt''))) (\<lambda>_.
    andthen (reads (\<lambda>h. workspace_lock_path (k_hash K (lx_kernel h) path))) (\<lambda>lock.
    andthen (sys (k_open_lock K lock)) (\<lambda>fd.
    andthen (on_os_error (sys (k_flock K fd)) (andthen (sys (k_close K fd)) (\<lambda>_. raise (Lex BUSY)))) (\<lambda>_.
      modify (\<lambda>h. h\<lparr>lx_workspace_locks := AList.update path fd (lx_workspace_locks h)\<rparr>)))))"

definition linux_release :: "'k kernel \<Rightarrow> pystr \<Rightarrow> ('k linux, unit) act" where
  "linux_release K path =
    andthen (reads (\<lambda>h. map_of (lx_workspace_locks h) path)) (\<lambda>fd. case fd of
      None \<Rightarrow> ret ()
    | Some fd \<Rightarrow> andthen (modify (\<lambda>h. h\<lparr>lx_workspace_locks := AList.delete path (lx_workspace_locks h)\<rparr>)) (\<lambda>_. unlock_close K fd))"

section \<open>Creating the control group\<close>

definition or_containment_fault :: "('s, unit) act \<Rightarrow> ('s, unit) act" where
  "or_containment_fault m = on_os_error m (raise (Lex CONTAINMENT_FAULT))"

definition cgroup_limits :: "json \<Rightarrow> pystr \<Rightarrow> (pystr \<times> pystr) list" where
  "cgroup_limits cfg cpus =
    [(lit ''pids.max'', int_str (int_of (fld cfg ''pids_max''))), (lit ''memory.max'', int_str (u_of (fld cfg ''memory_max_bytes''))),
     (lit ''memory.swap.max'', lit ''0''), (lit ''memory.oom.group'', lit ''1'')] @ (if cpus = [] then [] else [(lit ''cpuset.cpus'', cpus)])"

definition linux_cgroup_create :: "'k kernel \<Rightarrow> pystr \<Rightarrow> json \<Rightarrow> pystr \<Rightarrow> ('k linux, unit) act" where
  "linux_cgroup_create K run_id cfg cpus =
    andthen (linux_capabilities K (JStr (lit ''linux-ledger-v1''))) (\<lambda>caps.
    andthen (reads (\<lambda>h. fld caps ''cgroup_kill'' \<noteq> JBool True \<and> \<not> k_exists K (lx_kernel h) (in_dir CGROUP_ROOT ''cgroup.kill''))) (\<lambda>missing.
      if missing then raise (Lex CONTAINMENT_FAULT)
      else
        andthen (or_containment_fault (andthen (sys (k_makedirs K LEXWATT_CGROUP_PARENT)) (\<lambda>_.
          write_text K (in_dir LEXWATT_CGROUP_PARENT ''cgroup.subtree_control'') (lit ''+cpu +cpuset +pids +memory'')))) (\<lambda>_.
        (let path = LEXWATT_CGROUP_PARENT @ lit ''/'' @ run_id
         in andthen (or_containment_fault (andthen (sys (k_mkdir K path)) (\<lambda>_.
              each_act (\<lambda>(name, value). write_text K (path @ lit ''/'' @ name) value) (cgroup_limits cfg cpus)))) (\<lambda>_.
            modify (\<lambda>h. h\<lparr>lx_cgroups := AList.update run_id \<lparr>lc_path = path, lc_procs = []\<rparr> (lx_cgroups h)\<rparr>))))))"

text \<open>What the manifest reads of the group with \<open>getattr\<close>: there is no attribute \<open>inode\<close>.\<close>

definition linux_cgroup_identity :: "pystr \<Rightarrow> ('k linux, int \<times> pystr) act" where
  "linux_cgroup_identity cg = andthen (cgroup_of cg) (\<lambda>c. ret (0, lc_path c))"

section \<open>Power domains\<close>

definition cpu_range :: "pystr \<Rightarrow> exn + int list" where
  "cpu_range part =
    (if 45 \<in> set part then
       (case split_on 45 part of
          [a, b] \<Rightarrow> bindE (int_of_text a) (\<lambda>x. bindE (int_of_text b) (\<lambda>y. Inr [x..y]))
        | _ \<Rightarrow> Inl (Py Value_Error))
     else bindE (int_of_text part) (\<lambda>x. Inr [x]))"

definition kernel_cpus :: "pystr \<Rightarrow> exn + int set" where
  "kernel_cpus cpus = bindE (mapE cpu_range (split_on 44 cpus)) (\<lambda>ls. Inr (set (concat ls)))"

definition open_domain :: "'k kernel \<Rightarrow> pystr \<Rightarrow> ('k linux, unit) act" where
  "open_domain K dom_id =
    andthen (lift_r (if 45 \<in> set dom_id then Inr (drop (Suc (length (takeWhile (\<lambda>c. c \<noteq> 45) dom_id))) dom_id) else Inl (Py Index_Error))) (\<lambda>idx.
    andthen (reads (\<lambda>h. k_resolve K (lx_kernel h) (POWERCAP_ROOT @ lit ''/intel-rapl:'' @ idx))) (\<lambda>real.
        if \<not> startswith real (lit ''/sys/devices'') then raise (Lex SENSOR_UNAVAILABLE)
        else
          andthen (on_os_error (andthen (read_text K (in_dir real ''cpulist'')) (\<lambda>t. lift_r (kernel_cpus (strip_by is_blank t)))) (ret {})) (\<lambda>cpus.
            modify (\<lambda>h. h\<lparr>lx_domains := AList.update dom_id \<lparr>ld_sysfs_dir = real, ld_cpus = cpus\<rparr> (lx_domains h)\<rparr>))))"

definition linux_open_domains :: "'k kernel \<Rightarrow> pystr list \<Rightarrow> ('k linux, pystr list) act" where
  "linux_open_domains K ids = andthen (each_act (open_domain K) ids) (\<lambda>_. ret ids)"

text \<open>\<open>LinuxDomain.read\<close>: the counter, the range, then the time.\<close>

definition read_counter :: "'k kernel \<Rightarrow> pystr \<Rightarrow> ('k linux, int) act" where
  "read_counter K path = andthen (sys (k_read K path)) (\<lambda>b. lift_r (int_of_bytes (take 64 b)))"

definition domain_sample :: "'k kernel \<Rightarrow> linux_domain \<Rightarrow> ('k linux, int \<times> int \<times> int) act" where
  "domain_sample K d =
    andthen (read_counter K (in_dir (ld_sysfs_dir d) ''energy_uj'')) (\<lambda>counter.
    andthen (read_counter K (in_dir (ld_sysfs_dir d) ''max_energy_uj_range_uj'')) (\<lambda>range_uj.
    andthen (\<lambda>h. case linux_boottime_us K h of (t, h') \<Rightarrow> (Inr t, h')) (\<lambda>t. ret (counter, range_uj, t))))"

definition linux_read_domain :: "'k kernel \<Rightarrow> pystr \<Rightarrow> ('k linux, int \<times> int \<times> int) act" where
  "linux_read_domain K d =
    andthen (reads (\<lambda>h. map_of (lx_domains h) d)) (\<lambda>dm. case dm of
      None \<Rightarrow> raise (Py Attribute_Error)
    | Some dm \<Rightarrow> handle_exn (domain_sample K dm) (\<lambda>e. if e \<in> {Py OS_Error, Py Value_Error} then raise (Lex SENSOR_FAULT) else raise e))"

end
