(* ===== verification/LinuxSpawn.thy ===== *)
theory LinuxSpawn imports Seccomp Linux begin

text \<open>
  Models the rest of \<open>src/lexwatt/host/linux.py\<close> and \<open>install\<close> of \<open>seccomp.py\<close>: the launch of a process in its own namespaces and
  the brokered HTTPS request; and the host as the record \<open>linux_env\<close> of the calls that the engine makes.

  A launched child is the list of the calls it has made, with the file descriptors it has closed. The supervisor reads the
  error pipe until a message or the end of the last writer, the reaper among them, so the child's steps come before its own.
  \<open>http_get\<close> sees the reply as the list of what its \<open>recv\<close> calls will meet.
\<close>

unbundle bit_operations_syntax

section \<open>The child\<close>

definition CLONE_NEWNS :: nat where "CLONE_NEWNS = 0x00020000"
definition CLONE_NEWUTS :: nat where "CLONE_NEWUTS = 0x04000000"
definition CLONE_NEWIPC :: nat where "CLONE_NEWIPC = 0x08000000"
definition CLONE_NEWPID :: nat where "CLONE_NEWPID = 0x20000000"
definition CLONE_NEWNET :: nat where "CLONE_NEWNET = 0x40000000"

text \<open>What the caller passes as the channel: an object with a descriptor, or the identifier that the engine passes.\<close>

datatype channel = Chan_socket nat | Chan_id pystr

record 'k child =
  ch_kernel :: 'k
  ch_calls :: "child_call list"
  ch_closed :: "nat list"

definition child_sys :: "'k kernel \<Rightarrow> child_call \<Rightarrow> ('k child, unit) act" where
  "child_sys K call c =
    (case k_child K call (ch_kernel c) of (x, k) \<Rightarrow> (x, c\<lparr>ch_kernel := k, ch_calls := ch_calls c @ [call]\<rparr>))"

definition close_fd :: "'k kernel \<Rightarrow> nat \<Rightarrow> ('k child, unit) act" where
  "close_fd K fd = andthen (child_sys K (Close_fd fd)) (\<lambda>_. modify (\<lambda>c. c\<lparr>ch_closed := fd # ch_closed c\<rparr>))"

text \<open>Descriptor 3 becomes the broker channel.\<close>

definition pass_channel :: "'k kernel \<Rightarrow> channel option \<Rightarrow> ('k child, unit) act" where
  "pass_channel K ch =
    (case ch of
       None \<Rightarrow> ret ()
     | Some (Chan_id _) \<Rightarrow> raise (Py Attribute_Error)
     | Some (Chan_socket fd) \<Rightarrow> andthen (when_act (fd \<noteq> 3) (child_sys K (Dup2 fd 3))) (\<lambda>_. close_fd K fd))"

definition close_others :: "'k kernel \<Rightarrow> ('k child, unit) act" where
  "close_others K = each_act (\<lambda>fd. on_os_error (close_fd K fd) (ret ())) [4..<1024]"

definition with_lang :: "json \<Rightarrow> json" where
  "with_lang env =
    (let d = dict_of env in JObj (if map_of d (lit ''LANG'') = None then d @ [(lit ''LANG'', JStr (lit ''C.UTF-8''))] else d))"

text \<open>\<open>seccomp.install\<close>: the program is built, and counted, before the process gives up privileges.\<close>

definition install :: "'k kernel \<Rightarrow> exn + bytes \<Rightarrow> ('k child, unit) act" where
  "install K prog =
    andthen (lift_r prog) (\<lambda>b.
    andthen (child_sys K No_new_privs) (\<lambda>_. child_sys K (Install_filter b)))"

definition drop_privileges :: "'k kernel \<Rightarrow> int option \<Rightarrow> ('k child, unit) act" where
  "drop_privileges K uid =
    andthen (child_sys K Drop_groups) (\<lambda>_. case uid of
      None \<Rightarrow> raise (Py Type_Error)
    | Some u \<Rightarrow> andthen (child_sys K (Setgid u)) (\<lambda>_. child_sys K (Setuid u)))"

text \<open>The second child, up to the program it becomes.\<close>

definition workload_program :: "'k kernel \<Rightarrow> exn + bytes \<Rightarrow> pystr option \<Rightarrow> int option \<Rightarrow> json \<Rightarrow> channel option \<Rightarrow> ('k child, unit) act" where
  "workload_program K prog grp uid execv ch =
    andthen (case grp of None \<Rightarrow> raise (Py Attribute_Error) | Some path \<Rightarrow> child_sys K (Join_group path)) (\<lambda>_.
    andthen (child_sys K Setsid) (\<lambda>_.
    andthen (drop_privileges K uid) (\<lambda>_.
    andthen (child_sys K (Chdir (str_of (fld execv ''cwd'')))) (\<lambda>_.
    andthen (pass_channel K ch) (\<lambda>_.
    andthen (close_others K) (\<lambda>_.
    andthen (child_sys K No_core) (\<lambda>_.
    andthen (install K prog) (\<lambda>_.
      child_sys K (Execve (map str_of (arr_of (fld execv ''argv''))) (with_lang (fld execv ''env'')))))))))))"

definition child_program :: "'k kernel \<Rightarrow> exn + bytes \<Rightarrow> pystr option \<Rightarrow> int option \<Rightarrow> json \<Rightarrow> channel option \<Rightarrow> nat \<Rightarrow> ('k child, unit) act" where
  "child_program K prog grp uid execv ch err_r =
    andthen (close_fd K err_r) (\<lambda>_.
    andthen (child_sys K (Unshare (CLONE_NEWNS OR CLONE_NEWUTS OR CLONE_NEWIPC OR CLONE_NEWPID OR CLONE_NEWNET))) (\<lambda>_.
    andthen (child_sys K Second_fork) (\<lambda>_.
      workload_program K prog grp uid execv ch)))"

text \<open>\<open>except BaseException\<close>: the message reaches the pipe if its write end is still open.\<close>

definition reported :: "nat \<Rightarrow> (exn + unit) \<times> 'k child \<Rightarrow> bool" where
  "reported err_w r = (case r of (Inl _, c) \<Rightarrow> err_w \<notin> set (ch_closed c) | (Inr _, _) \<Rightarrow> False)"

section \<open>The supervisor\<close>

text \<open>\<open>_spawn\<close>; the descriptors of the pipe are the two that the kernel gives.\<close>

definition kill_child :: "'k kernel \<Rightarrow> nat \<Rightarrow> ('k linux, unit) act" where
  "kill_child K pid = andthen (on_os_error (sys (k_kill K pid)) (ret ())) (\<lambda>_. sys (k_waitpid K pid))"

definition add_proc :: "pystr \<Rightarrow> linux_proc \<Rightarrow> ('k linux, nat) act" where
  "add_proc cg p h =
    (let n = length (lx_procs h)
     in (Inr n, h\<lparr>lx_procs := lx_procs h @ [p],
          lx_cgroups := map (\<lambda>kc. if fst kc = cg then (fst kc, (snd kc)\<lparr>lc_procs := lc_procs (snd kc) @ [n]\<rparr>) else kc) (lx_cgroups h)\<rparr>))"

definition run_child :: "('k child, unit) act \<Rightarrow> nat \<Rightarrow> ('k linux, bool) act" where
  "run_child m err_w h =
    (let r = m \<lparr>ch_kernel = lx_kernel h, ch_calls = [], ch_closed = []\<rparr>
     in (Inr (reported err_w r), h\<lparr>lx_kernel := ch_kernel (snd r)\<rparr>))"

definition linux_spawn :: "'k kernel \<Rightarrow> exn + bytes \<Rightarrow> pystr \<Rightarrow> int option \<Rightarrow> json \<Rightarrow> channel option \<Rightarrow> ('k linux, nat) act" where
  "linux_spawn K prog cg uid execv ch =
    andthen (sys (k_pipe K)) (\<lambda>(err_r, err_w).
    andthen (sys (k_fork K)) (\<lambda>pid.
    andthen (reads (\<lambda>h. map_option lc_path (map_of (lx_cgroups h) cg))) (\<lambda>grp.
    andthen (run_child (child_program K prog grp uid execv ch err_r) err_w) (\<lambda>failed.
      if failed then andthen (kill_child K pid) (\<lambda>_. raise (Lex ACTION_FAILED))
      else
        andthen (on_os_error (sys (k_pidfd K pid)) (ret (- 1))) (\<lambda>pidfd.
          add_proc cg \<lparr>lp_pid = pid, lp_pgid = pid, lp_pidfd = pidfd, lp_alive = True, lp_exit = JNull\<rparr>)))))"

text \<open>\<open>_reap\<close>: the status of the first child among what \<open>wait4\<close> answers until no child is left.\<close>

definition reap :: "nat \<Rightarrow> (nat \<times> wait_status) list \<Rightarrow> nat" where
  "reap first_child rs = (case fold (\<lambda>(pid, st) s. if pid = first_child then st else s) rs (Exited 0) of Exited n \<Rightarrow> n | _ \<Rightarrow> 125)"

section \<open>The brokered request\<close>

fun net_recv :: "nat \<Rightarrow> net_event list \<Rightarrow> net_event \<times> net_event list" where
  "net_recv n [] = (Chunk [], [])"
| "net_recv n (Chunk b # es) = (Chunk (take n b), if length b \<le> n then es else Chunk (drop n b) # es)"
| "net_recv n (e # es) = (e, es)"

fun net_size :: "net_event list \<Rightarrow> nat" where
  "net_size [] = 0"
| "net_size (Chunk b # es) = length b + 1 + net_size es"
| "net_size (e # es) = 1 + net_size es"

lemma net_recv_size: "net_recv n es = (Chunk (x # xs), es') \<Longrightarrow> net_size es' < net_size es"
proof (induction n es rule: net_recv.induct)
  case (2 n b es)
  then show ?case by (cases b; cases n) (auto split: if_splits)
qed auto

fun find_sub :: "bytes \<Rightarrow> bytes \<Rightarrow> (bytes \<times> bytes) option" where
  "find_sub pat [] = (if pat = [] then Some ([], []) else None)"
| "find_sub pat (c # cs) =
    (if take (length pat) (c # cs) = pat then Some ([], drop (length pat) (c # cs))
     else map_option (\<lambda>(a, b). (c # a, b)) (find_sub pat cs))"

definition CRLF :: bytes where "CRLF = [13, 10]"
definition BLANK_LINE :: bytes where "BLANK_LINE = [13, 10, 13, 10]"

function head_loop :: "bytes \<Rightarrow> net_event list \<Rightarrow> exn + bytes \<times> net_event list" where
  "head_loop head es =
    (if find_sub BLANK_LINE head \<noteq> None \<or> length head > 16384 then Inr (head, es)
     else (case net_recv 4096 es of
             (Chunk [], es') \<Rightarrow> Inr (head, es')
           | (Chunk (x # xs), es') \<Rightarrow> head_loop (head @ x # xs) es'
           | (_, es') \<Rightarrow> Inl (Py OS_Error)))"
  by pat_completeness auto
termination by (relation "measure (\<lambda>(head, es). net_size es)") (auto dest!: net_recv_size [OF sym])

declare head_loop.simps [simp del]

text \<open>The loop of the body: a timeout ends it like the end of the stream.\<close>

function body_loop :: "nat \<Rightarrow> bytes \<Rightarrow> net_event list \<Rightarrow> exn + bytes" where
  "body_loop limit body es =
    (if length body < limit + 1 then
       (case net_recv (min 65536 (limit + 1 - length body)) es of
          (Chunk [], es') \<Rightarrow> Inr body
        | (Chunk (x # xs), es') \<Rightarrow> body_loop limit (body @ x # xs) es'
        | (Timeout, es') \<Rightarrow> Inr body
        | (Broken, es') \<Rightarrow> Inl (Py OS_Error))
     else Inr body)"
  by pat_completeness auto
termination by (relation "measure (\<lambda>(limit, body, es). net_size es)") (auto dest!: net_recv_size [OF sym])

declare body_loop.simps [simp del]

definition status_of :: "bytes \<Rightarrow> exn + int" where
  "status_of head =
    bindE (nth_item (words_by is_c_space (case find_sub CRLF head of Some (l, _) \<Rightarrow> l | None \<Rightarrow> head)) 1) int_of_bytes"

definition read_reply :: "nat \<Rightarrow> net_event list \<Rightarrow> exn + int \<times> bytes" where
  "read_reply limit es =
    bindE (head_loop [] es) (\<lambda>(head, es').
      (case find_sub BLANK_LINE head of
         None \<Rightarrow> Inl (Lex ACTION_FAILED)
       | Some (_, start) \<Rightarrow>
           bindE (status_of head) (\<lambda>status.
             if \<not> (100 \<le> status \<and> status \<le> 599) then Inl (Lex ACTION_FAILED)
             else bindE (body_loop limit start es') (\<lambda>body.
               if length body > limit then Inl (Lex OUTPUT_LIMIT) else Inr (status, body)))))"

definition request_text :: "pystr \<Rightarrow> pystr \<Rightarrow> exn + bytes" where
  "request_text path host =
    (let t = lit ''GET '' @ path @ lit '' HTTP/1.1'' @ CRLF @ lit ''Host: '' @ host @ CRLF @ lit ''Connection: close'' @ CRLF @
         lit ''Accept-Encoding: identity'' @ BLANK_LINE
     in if list_all (\<lambda>c. c < 128) t then Inr t else Inl (Py Unicode_Error))"

definition or_action_failed :: "('s, 'a) act \<Rightarrow> ('s, 'a) act" where
  "or_action_failed m = handle_exn m (\<lambda>e. if e \<in> {Py OS_Error, Py Value_Error, Py Unicode_Error} then raise (Lex ACTION_FAILED) else raise e)"

definition http_get :: "'k kernel \<Rightarrow> json \<Rightarrow> json \<Rightarrow> int \<Rightarrow> ('k linux, json) act" where
  "http_get K dest action deadline_us =
    (let host = drop 8 (str_of (fld dest ''origin'')); ip = str_of (hd (arr_of (fld dest ''ips'')))
     in andthen (sys (k_socket K (58 \<in> set ip))) (\<lambda>_.
        or_action_failed
          (andthen (sys (k_connect K ip host deadline_us)) (\<lambda>_.
           andthen (lift_r (request_text (str_of (fld action ''path'')) host)) (\<lambda>req.
           andthen (sys (k_send K req)) (\<lambda>es.
           andthen (lift_r (read_reply (nat (int_of (fld action ''max_response_bytes''))) es)) (\<lambda>(status, body).
             ret (JObj [(lit ''kind'', JStr (lit ''http_get'')), (lit ''status'', JInt status), (lit ''body_b64'', JStr (encode_b64url body)),
               (lit ''body_hash'', JStr (sha256_hex body)), (lit ''truncated'', JBool False)])))))) ))"

section \<open>The host of the engine\<close>

text \<open>The engine passes the identifier of a channel where a socket is expected, calls \<open>workspace_release\<close> with an argument too
  many, reads the key \<open>body\<close> of an answer that has none, and draws identifiers from the system's random source.\<close>

definition linux_new_id :: "'k kernel \<Rightarrow> id_kind \<Rightarrow> (pystr \<Rightarrow> bool) \<Rightarrow> ('k linux, pystr) act" where
  "linux_new_id K kind ex h =
    (case k_random K (lx_kernel h) of (rng, k) \<Rightarrow>
      (case IdGenerator_new rng kind ex 0 of Inl e \<Rightarrow> Inl e | Inr (i, _) \<Rightarrow> Inr i, h\<lparr>lx_kernel := k\<rparr>))"

definition linux_env :: "'k kernel \<Rightarrow> 'k linux env" where
  "linux_env K = \<lparr>env_boottime_us = linux_boottime_us K, env_boot_id = linux_boot_id K,
     env_realpath = (\<lambda>h. k_realpath K (lx_kernel h)), env_new_id = linux_new_id K,
     env_capabilities = linux_capabilities K, env_task_uid_alloc = (\<lambda>lo hi. linux_uid_alloc K lo hi {}),
     env_task_uid_free = linux_uid_free K, env_workspace_lease = (\<lambda>path run_id. linux_lease K path),
     env_workspace_release = (\<lambda>path run_id. raise (Py Type_Error)),
     env_cgroup_create = linux_cgroup_create K, env_cgroup_identity = linux_cgroup_identity,
     env_cgroup_usage_us = linux_usage_us K, env_cgroup_populated = linux_populated K,
     env_cgroup_kill = linux_cgroup_kill K, env_group_kill = linux_group_kill K, env_cgroup_teardown = linux_teardown K,
     env_open_domains = linux_open_domains K, env_read_domain = linux_read_domain K,
     env_spawn_root = (\<lambda>cg uid ex ch. linux_spawn K build_filter cg uid ex (Some (Chan_id ch))),
     env_spawn_child = (\<lambda>cg uid pids ex ch. linux_spawn K build_filter cg uid ex (Some (Chan_id ch))),
     env_proc_exited = linux_poll K,
     env_http_get = (\<lambda>dest action dl. andthen (http_get K dest action dl) (\<lambda>r. ret (int_of (fld r ''status''), []))),
     env_create_file = (\<lambda>p. sys (k_create K p)), env_write_file = (\<lambda>p b. sys (k_store K p b)),
     env_read_file = (\<lambda>p. sys (k_read K p)), env_unlink = (\<lambda>p. sys (k_unlink K p))\<rparr>"

end
