(* ===== verification/LinuxProps.thy ===== *)
theory LinuxProps imports LinuxSpawn EngineProps Recovery "HOL-Library.Sublist" begin

text \<open>
  The Linux host under the engine. A kernel none of whose calls turns the boot clock back (\<open>calm_kernel\<close>) makes \<open>linux_env\<close> a
  \<open>quiet_env\<close>, so what is proved of the engine holds on Linux; then what the program cannot do there: no workload is ever
  executed, no process is ever given out, nothing is ever cleaned up, and no orphan is ever killed.
\<close>

section \<open>Time\<close>

definition calm_kernel :: "'k kernel \<Rightarrow> ('k \<Rightarrow> int) \<Rightarrow> bool" where
  "calm_kernel K now \<longleftrightarrow>
    (\<forall>k. case k_boottime K k of (t, k') \<Rightarrow> now k \<le> t \<and> t \<le> now k') \<and> (\<forall>k. now k \<le> now (snd (k_random K k))) \<and>
    (\<forall>p. forward now (k_listdir K p)) \<and> (\<forall>p. forward now (k_read K p)) \<and> (\<forall>p b. forward now (k_write K p b)) \<and>
    (\<forall>p. forward now (k_mkdir K p)) \<and> (\<forall>p. forward now (k_makedirs K p)) \<and> (\<forall>p. forward now (k_rmdir K p)) \<and>
    (\<forall>p. forward now (k_create K p)) \<and> (\<forall>p b. forward now (k_store K p b)) \<and> (\<forall>p. forward now (k_unlink K p)) \<and>
    (\<forall>p. forward now (k_open_lock K p)) \<and> (\<forall>fd. forward now (k_flock K fd)) \<and> (\<forall>fd. forward now (k_unlock K fd)) \<and>
    (\<forall>fd. forward now (k_close K fd)) \<and> (\<forall>p. forward now (k_killpg K p)) \<and> (\<forall>p. forward now (k_kill K p)) \<and>
    (\<forall>p. forward now (k_wait4 K p)) \<and> forward now (k_pipe K) \<and> forward now (k_fork K) \<and> (\<forall>p. forward now (k_waitpid K p)) \<and>
    (\<forall>p. forward now (k_pidfd K p)) \<and> (\<forall>c. forward now (k_child K c)) \<and> (\<forall>v. forward now (k_socket K v)) \<and>
    (\<forall>i h t. forward now (k_connect K i h t)) \<and> (\<forall>b. forward now (k_send K b))"

lemma forward_iff_keeps: "forward now m \<longleftrightarrow> (\<forall>t. keeps (\<lambda>w. t \<le> now w) m)"
  by (auto simp: forward_def keeps_def intro: order_trans)

abbreviation after :: "('k \<Rightarrow> int) \<Rightarrow> int \<Rightarrow> 'k linux \<Rightarrow> bool" where "after now t \<equiv> \<lambda>h. t \<le> now (lx_kernel h)"

lemma keeps_sys: "forward now m \<Longrightarrow> keeps (after now t) (sys m)"
  by (rule keepsI) (auto simp: forward_def sys_def split: prod.split, metis order_trans snd_conv)

lemma keeps_bookkeeping: "(\<And>h. lx_kernel (f h) = lx_kernel h) \<Longrightarrow> keeps (after now t) (modify f)"
  by (simp add: keeps_modify)

lemma keeps_on_os_error: "keeps I m \<Longrightarrow> keeps I h \<Longrightarrow> keeps I (on_os_error m h)"
  unfolding on_os_error_def by (intro flow_intros)

lemmas host_intros = flow_intros keeps_sys keeps_bookkeeping keeps_on_os_error

lemma calm_calls:
  assumes "calm_kernel K now"
  shows "forward now (k_listdir K p)" "forward now (k_read K p)" "forward now (k_write K p b)" "forward now (k_mkdir K p)"
    "forward now (k_makedirs K p)" "forward now (k_rmdir K p)" "forward now (k_create K p)" "forward now (k_store K p b)"
    "forward now (k_unlink K p)" "forward now (k_open_lock K p)" "forward now (k_flock K fd)" "forward now (k_unlock K fd)"
    "forward now (k_close K fd)" "forward now (k_killpg K pid)" "forward now (k_kill K pid)" "forward now (k_wait4 K pid)"
    "forward now (k_pipe K)" "forward now (k_fork K)" "forward now (k_waitpid K pid)" "forward now (k_pidfd K pid)"
    "forward now (k_child K c)" "forward now (k_socket K v)" "forward now (k_connect K i h d)" "forward now (k_send K b)"
  using assms by (simp_all add: calm_kernel_def)

lemma calm_time: "calm_kernel K now \<Longrightarrow> k_boottime K k = (t, k') \<Longrightarrow> now k \<le> t \<and> t \<le> now k'"
  by (auto simp: calm_kernel_def split: prod.splits)

lemma calm_random: "calm_kernel K now \<Longrightarrow> now k \<le> now (snd (k_random K k))"
  by (simp add: calm_kernel_def)

lemma calm_files:
  assumes "calm_kernel K now"
  shows "keeps (after now t) (read_text K p)" "keeps (after now t) (write_text K p v)" "keeps (after now t) (cgroup_of cg)"
  unfolding read_text_def write_text_def cgroup_of_def by (intro host_intros calm_calls [OF assms])+

lemma calm_groups:
  assumes "calm_kernel K now"
  shows "keeps (after now t) (linux_populated K cg)" "keeps (after now t) (linux_usage_us K cg)"
    "keeps (after now t) (linux_cgroup_kill K cg)" "keeps (after now t) (linux_group_kill K cg)" "keeps (after now t) (linux_teardown K cg)"
    "keeps (after now t) (linux_poll K n)" "keeps (after now t) (linux_cgroup_identity cg)"
  unfolding linux_populated_def linux_usage_us_def linux_cgroup_kill_def linux_group_kill_def kill_proc_def linux_teardown_def
    linux_poll_def proc_ended_def linux_cgroup_identity_def
  by (intro host_intros calm_files [OF assms] calm_calls [OF assms]; simp)+

lemma calm_capabilities:
  assumes "calm_kernel K now"
  shows "keeps (after now t) (linux_capabilities K profile)"
  unfolding linux_capabilities_def cgroup_support_def check_seccomp_def discover_rapl_def
  by (intro host_intros calm_files [OF assms] calm_calls [OF assms])

lemma calm_uid_loop:
  assumes "calm_kernel K now"
  shows "keeps (after now t) (uid_loop K in_use us)"
  by (induction us) (auto intro!: host_intros calm_calls [OF assms])

lemma calm_locks:
  assumes "calm_kernel K now"
  shows "keeps (after now t) (linux_uid_alloc K lo hi in_use)" "keeps (after now t) (linux_uid_free K u)" "keeps (after now t) (linux_lease K path)"
  unfolding linux_uid_alloc_def linux_uid_free_def linux_lease_def unlock_close_def
  by (intro host_intros calm_uid_loop [OF assms] calm_calls [OF assms]; simp)+

lemma calm_create:
  assumes "calm_kernel K now"
  shows "keeps (after now t) (linux_cgroup_create K rid cfg cpus)"
  unfolding linux_cgroup_create_def or_containment_fault_def Let_def
  by (intro host_intros calm_capabilities [OF assms] calm_files [OF assms] calm_calls [OF assms]; simp)

lemma calm_domains:
  assumes "calm_kernel K now"
  shows "keeps (after now t) (linux_open_domains K ids)" "keeps (after now t) (linux_read_domain K d)"
proof -
  have "keeps (after now t) (\<lambda>h. case linux_boottime_us K h of (t, h') \<Rightarrow> (Inr t, h'))"
    by (rule keepsI) (auto simp: linux_boottime_us_def split: prod.splits dest!: calm_time [OF assms])
  then show "keeps (after now t) (linux_read_domain K d)"
    unfolding linux_read_domain_def domain_sample_def read_counter_def by (intro host_intros calm_calls [OF assms])
  show "keeps (after now t) (linux_open_domains K ids)"
    unfolding linux_open_domains_def open_domain_def
    by (intro host_intros calm_files [OF assms] calm_calls [OF assms]; simp)
qed

abbreviation child_after :: "('k \<Rightarrow> int) \<Rightarrow> int \<Rightarrow> 'k child \<Rightarrow> bool" where "child_after now t \<equiv> \<lambda>c. t \<le> now (ch_kernel c)"

lemma calm_child:
  assumes "calm_kernel K now"
  shows "keeps (child_after now t) (child_program K prog grp uid execv ch err_r)"
proof -
  have call: "keeps (child_after now t) (child_sys K c)" for c
    using calm_calls(21) [OF assms, of c]
    by (intro keepsI) (auto simp: forward_def child_sys_def split: prod.split, metis order_trans snd_conv)
  have fd: "keeps (child_after now t) (close_fd K n)" for n
    unfolding close_fd_def by (intro flow_intros call keeps_modify; simp)
  have ch: "keeps (child_after now t) (pass_channel K ch)"
    unfolding pass_channel_def by (intro flow_intros call fd) (auto split: option.split channel.split intro!: flow_intros call fd)
  show ?thesis
    unfolding child_program_def workload_program_def drop_privileges_def install_def close_others_def
    by (intro flow_intros keeps_on_os_error call fd ch)
qed

lemma calm_spawn:
  assumes "calm_kernel K now"
  shows "keeps (after now t) (linux_spawn K prog cg uid execv ch)"
proof -
  have child: "keeps (after now t) (run_child (child_program K prog grp uid execv ch r) w)" for grp r w
    using keeps_result [OF calm_child [OF assms, of t prog grp uid execv ch r]] by (auto intro!: keepsI simp: run_child_def Let_def)
  have add: "keeps (after now t) (add_proc cg p)" for p by (auto intro!: keepsI simp: add_proc_def Let_def)
  show ?thesis
    unfolding linux_spawn_def kill_child_def by (intro host_intros child add calm_calls [OF assms])
qed

lemma calm_http:
  assumes "calm_kernel K now"
  shows "keeps (after now t) (http_get K dest action dl)"
  unfolding http_get_def or_action_failed_def Let_def by (intro host_intros calm_calls [OF assms])

lemma calm_new_id:
  assumes "calm_kernel K now"
  shows "keeps (after now t) (linux_new_id K kind ex)"
  by (rule keepsI) (use calm_random [OF assms] in \<open>auto simp: linux_new_id_def split: prod.splits, metis order_trans snd_conv\<close>)

lemma calm_linux_quiet:
  assumes "calm_kernel K now"
  shows "quiet_env (linux_env K) (\<lambda>h. now (lx_kernel h))"
proof unfold_locales
  fix w w' :: "'a linux" and t
  assume "env_boottime_us (linux_env K) w = (t, w')"
  then show "now (lx_kernel w) \<le> t \<and> t \<le> now (lx_kernel w')"
    using calm_time [OF assms] by (auto simp: linux_env_def linux_boottime_us_def split: prod.splits)
next
  fix kind ex w and r :: "exn + pystr" and w' :: "'a linux"
  assume "env_new_id (linux_env K) kind ex w = (r, w')"
  then show "now (lx_kernel w) \<le> now (lx_kernel w')"
    using calm_new_id [OF assms, of "now (lx_kernel w)" kind ex] by (auto simp: linux_env_def dest: keepsD)
next
  fix kind ex w i and w' :: "'a linux"
  assume "env_new_id (linux_env K) kind ex w = (Inr i, w')"
  then show "check_id (JStr i) kind = Inr i"
    using random_ids.new_shape by (fastforce simp: linux_env_def linux_new_id_def split: prod.splits sum.splits)
qed (auto simp: linux_env_def forward_iff_keeps intro!: flow_intros keeps_sys calm_groups [OF assms] calm_capabilities [OF assms]
      calm_locks [OF assms] calm_create [OF assms] calm_domains [OF assms] calm_spawn [OF assms] calm_http [OF assms] calm_calls [OF assms])

section \<open>What a launched process has done\<close>

lemma child_sys_calls: "child_sys K x c = (r, c') \<Longrightarrow> ch_calls c' = ch_calls c @ [x]"
  by (auto simp: child_sys_def split: prod.splits)

text \<open>The calls made before the last one.\<close>

definition preparation :: "'k kernel \<Rightarrow> exn + bytes \<Rightarrow> pystr option \<Rightarrow> int option \<Rightarrow> json \<Rightarrow> channel option \<Rightarrow> nat \<Rightarrow> ('k child, unit) act" where
  "preparation K prog grp uid execv ch err_r =
    andthen (close_fd K err_r) (\<lambda>_. andthen (child_sys K (Unshare 0x6C020000)) (\<lambda>_. andthen (child_sys K Second_fork) (\<lambda>_.
    andthen (case grp of None \<Rightarrow> raise (Py Attribute_Error) | Some path \<Rightarrow> child_sys K (Join_group path)) (\<lambda>_.
    andthen (child_sys K Setsid) (\<lambda>_. andthen (drop_privileges K uid) (\<lambda>_. andthen (child_sys K (Chdir (str_of (fld execv ''cwd'')))) (\<lambda>_.
    andthen (pass_channel K ch) (\<lambda>_. andthen (close_others K) (\<lambda>_. andthen (child_sys K No_core) (\<lambda>_. install K prog))))))))))"

lemma namespaces: "CLONE_NEWNS OR CLONE_NEWUTS OR CLONE_NEWIPC OR CLONE_NEWPID OR CLONE_NEWNET = 0x6C020000"
  by (simp add: CLONE_NEWNS_def CLONE_NEWUTS_def CLONE_NEWIPC_def CLONE_NEWPID_def CLONE_NEWNET_def)

lemma child_program_prepares:
  "child_program K prog grp uid execv ch err_r =
    andthen (preparation K prog grp uid execv ch err_r)
      (\<lambda>_. child_sys K (Execve (map str_of (arr_of (fld execv ''argv''))) (with_lang (fld execv ''env''))))"
  by (simp add: child_program_def workload_program_def preparation_def andthen_assoc namespaces)

definition no_exec :: "'k child \<Rightarrow> bool" where "no_exec c \<longleftrightarrow> (\<forall>argv env. Execve argv env \<notin> set (ch_calls c))"

lemma keeps_child_sys: "(\<And>k c. I c \<Longrightarrow> I (c\<lparr>ch_kernel := k, ch_calls := ch_calls c @ [x]\<rparr>)) \<Longrightarrow> keeps I (child_sys K x)"
  by (rule keepsI) (auto simp: child_sys_def split: prod.split)

lemma no_exec_calls: "(\<And>argv env. x \<noteq> Execve argv env) \<Longrightarrow> keeps no_exec (child_sys K x)"
  by (rule keeps_child_sys) (auto simp: no_exec_def)

lemma no_exec_close: "keeps no_exec (close_fd K n)"
  unfolding close_fd_def by (intro flow_intros no_exec_calls keeps_modify) (simp_all add: no_exec_def)

lemma no_exec_channel: "keeps no_exec (pass_channel K ch)"
  unfolding pass_channel_def by (intro flow_intros) (auto split: channel.split intro!: flow_intros no_exec_calls no_exec_close)

lemma preparation_no_exec: "keeps no_exec (preparation K prog grp uid execv ch err_r)"
  unfolding preparation_def drop_privileges_def install_def close_others_def
  by (intro flow_intros keeps_on_os_error no_exec_calls no_exec_close no_exec_channel; simp)

text \<open>What has been called in order stays so.\<close>

lemma done_calls: "keeps (\<lambda>c. subseq L (ch_calls c)) (child_sys K x)"
  by (rule keeps_child_sys) auto

lemma done_rest: "keeps (\<lambda>c. subseq L (ch_calls c)) (close_fd K n)" "keeps (\<lambda>c. subseq L (ch_calls c)) (pass_channel K ch)"
    "keeps (\<lambda>c. subseq L (ch_calls c)) (close_others K)"
proof -
  show f: "keeps (\<lambda>c. subseq L (ch_calls c)) (close_fd K n)" for n
    unfolding close_fd_def by (intro flow_intros done_calls keeps_modify) simp
  show "keeps (\<lambda>c. subseq L (ch_calls c)) (pass_channel K ch)"
    unfolding pass_channel_def by (intro flow_intros) (auto split: channel.split intro!: flow_intros done_calls f)
  show "keeps (\<lambda>c. subseq L (ch_calls c)) (close_others K)"
    unfolding close_others_def by (intro flow_intros keeps_on_os_error f)
qed

lemma call_done: "child_sys K x c = (r, c') \<Longrightarrow> subseq L (ch_calls c) \<Longrightarrow> subseq (L @ [x]) (ch_calls c')"
  by (simp add: child_sys_calls list_emb_append_mono)

lemma prepared:
  assumes "preparation K prog grp uid execv ch err_r c = (Inr (), c')"
  shows "\<exists>path u b pre. grp = Some path \<and> uid = Some u \<and> prog = Inr b \<and> ch_calls c' = pre @ [No_new_privs, Install_filter b] \<and>
    subseq [Unshare 0x6C020000, Second_fork, Join_group path, Setsid, Drop_groups, Setgid u, Setuid u] pre"
proof -
  from assms obtain path u b c1 c2 c3 c4 c5 c6 c7 c8 c9 c10 c11 c12 c13
    where g: "grp = Some path" "uid = Some u" "prog = Inr b"
      and s: "close_fd K err_r c = (Inr (), c1)" "child_sys K (Unshare 0x6C020000) c1 = (Inr (), c2)" "child_sys K Second_fork c2 = (Inr (), c3)"
        "child_sys K (Join_group path) c3 = (Inr (), c4)" "child_sys K Setsid c4 = (Inr (), c5)" "child_sys K Drop_groups c5 = (Inr (), c6)"
        "child_sys K (Setgid u) c6 = (Inr (), c7)" "child_sys K (Setuid u) c7 = (Inr (), c8)"
        "child_sys K (Chdir (str_of (fld execv ''cwd''))) c8 = (Inr (), c9)" "pass_channel K ch c9 = (Inr (), c10)"
        "close_others K c10 = (Inr (), c11)" "child_sys K No_core c11 = (Inr (), c12)"
        "child_sys K No_new_privs c12 = (Inr (), c13)" "child_sys K (Install_filter b) c13 = (Inr (), c')"
    by (auto simp: preparation_def drop_privileges_def install_def andthen_eq_Inr lift_r_def raise_def split: option.splits)
  have "subseq [] (ch_calls c1)" by simp
  from call_done [OF s(8) call_done [OF s(7) call_done [OF s(6) call_done [OF s(5) call_done [OF s(4) call_done [OF s(3) call_done [OF s(2) this]]]]]]]
  have "subseq [Unshare 0x6C020000, Second_fork, Join_group path, Setsid, Drop_groups, Setgid u, Setuid u] (ch_calls c8)" by simp
  from keepsD [OF done_calls keepsD [OF done_rest(3) keepsD [OF done_rest(2) keepsD [OF done_calls this s(9)] s(10)] s(11)] s(12)]
  have "subseq [Unshare 0x6C020000, Second_fork, Join_group path, Setsid, Drop_groups, Setgid u, Setuid u] (ch_calls c12)" .
  then show ?thesis using g child_sys_calls [OF s(14)] child_sys_calls [OF s(13)] by auto
qed

text \<open>C38: a workload is executed only contained. Whatever the kernel answers and whatever filter program is used, if the launched child
  has made the call that executes a program, then the program is the one asked for, the child had before entered its own
  mount, UTS, IPC, process and network namespaces (\<open>0x6C020000\<close> is the five flags), joined the control group of the run, left its session and groups and become the user of the task, in this order, and
  the last two calls before were the renunciation of new privileges and the installation of the filter.\<close>

theorem exec_only_contained:
  assumes "child_program K prog grp uid execv ch err_r \<lparr>ch_kernel = k, ch_calls = [], ch_closed = []\<rparr> = (x, c)" "Execve argv env \<in> set (ch_calls c)"
  shows "\<exists>path u b pre. grp = Some path \<and> uid = Some u \<and> prog = Inr b \<and>
    ch_calls c = pre @ [No_new_privs, Install_filter b, Execve argv env] \<and>
    subseq [Unshare 0x6C020000, Second_fork, Join_group path, Setsid, Drop_groups, Setgid u, Setuid u] pre \<and>
    argv = map str_of (arr_of (fld execv ''argv'')) \<and> env = with_lang (fld execv ''env'')"
proof -
  let ?c = "\<lparr>ch_kernel = k, ch_calls = [], ch_closed = []\<rparr>"
  obtain y c1 where p: "preparation K prog grp uid execv ch err_r ?c = (y, c1)" by (cases "preparation K prog grp uid execv ch err_r ?c")
  have no: "no_exec c1" by (rule keepsD [OF preparation_no_exec _ p]) (simp add: no_exec_def)
  show ?thesis
  proof (cases y)
    case (Inl e)
    then show ?thesis using assms p no by (auto simp: child_program_prepares no_exec_def)
  next
    case (Inr u)
    then have q: "preparation K prog grp uid execv ch err_r ?c = (Inr (), c1)" using p by simp
    then have "child_sys K (Execve (map str_of (arr_of (fld execv ''argv''))) (with_lang (fld execv ''env''))) c1 = (x, c)"
      using assms(1) by (simp add: child_program_prepares)
    from child_sys_calls [OF this] assms(2) no prepared [OF q] show ?thesis by (auto simp: no_exec_def)
  qed
qed

text \<open>A kernel for examples: every call succeeds, and no file can be read.\<close>

definition demo_kernel :: "int kernel" where
  "demo_kernel = \<lparr>k_boottime = (\<lambda>k. (k, k)), k_boot_id = (\<lambda>_. []), k_euid = (\<lambda>_. 0), k_machine = (\<lambda>_. lit ''x86_64''),
     k_hash = (\<lambda>_ _. 0), k_random = (\<lambda>k. (\<lambda>_. 0, k)), k_exists = (\<lambda>_ _. False), k_isdir = (\<lambda>_ _. False),
     k_realpath = (\<lambda>_ _. None), k_resolve = (\<lambda>_ p. p), k_listdir = (\<lambda>_. raise (Py OS_Error)), k_read = (\<lambda>_. raise (Py OS_Error)),
     k_write = (\<lambda>_ _. ret ()), k_mkdir = (\<lambda>_. ret ()), k_makedirs = (\<lambda>_. ret ()), k_rmdir = (\<lambda>_. ret ()), k_create = (\<lambda>_. ret ()),
     k_store = (\<lambda>_ _. ret ()), k_unlink = (\<lambda>_. ret ()), k_open_lock = (\<lambda>_. ret 7), k_flock = (\<lambda>_. ret ()), k_unlock = (\<lambda>_. ret ()),
     k_close = (\<lambda>_. ret ()), k_killpg = (\<lambda>_. ret ()), k_kill = (\<lambda>_. ret ()), k_wait4 = (\<lambda>_. ret None), k_pipe = ret (5, 6),
     k_fork = ret 42, k_waitpid = (\<lambda>_. ret ()), k_pidfd = (\<lambda>_. ret 8), k_child = (\<lambda>_. ret ()), k_socket = (\<lambda>_. ret ()),
     k_connect = (\<lambda>_ _ _. ret ()), k_send = (\<lambda>_. ret [])\<rparr>"

lemma demo_child [simp]: "child_sys demo_kernel x c = (Inr (), c\<lparr>ch_calls := ch_calls c @ [x]\<rparr>)"
  by (simp add: child_sys_def demo_kernel_def ret_def)

lemma demo_close [simp]: "close_fd demo_kernel n c = (Inr (), c\<lparr>ch_calls := ch_calls c @ [Close_fd n], ch_closed := n # ch_closed c\<rparr>)"
  by (simp add: close_fd_def andthen_def modify_def)

lemma demo_others: "\<exists>c'. close_others demo_kernel c = (Inr (), c')"
  unfolding close_others_def each_act_def
proof -
  have "\<exists>c'. fold_act (\<lambda>fd _. on_os_error (close_fd demo_kernel fd) (ret ())) fds () c = (Inr (), c')" for fds
    by (induction fds arbitrary: c) (simp_all add: ret_def on_os_error_def handle_exn_def andthen_def)
  then show "\<exists>c'. fold_act (\<lambda>fd _. on_os_error (close_fd demo_kernel fd) (ret ())) [4..<1024] () c = (Inr (), c')" .
qed

lemma demo_others_then [simp]: "andthen (close_others demo_kernel) f c = f () (snd (close_others demo_kernel c))"
  using demo_others [of c] by (auto simp: andthen_def)

lemma demo_child_then [simp]: "andthen (child_sys demo_kernel x) f c = f () (c\<lparr>ch_calls := ch_calls c @ [x]\<rparr>)"
  "andthen (close_fd demo_kernel n) f c = f () (c\<lparr>ch_calls := ch_calls c @ [Close_fd n], ch_closed := n # ch_closed c\<rparr>)"
  by (simp_all add: andthen_def)

lemma demo_prepared: "fst (preparation demo_kernel (Inr b) (Some g) (Some u) execv None err_r c) = Inr ()"
  by (simp add: preparation_def drop_privileges_def install_def pass_channel_def andthen_lift_r)

lemma subseq_set: "subseq xs ys \<Longrightarrow> x \<in> set xs \<Longrightarrow> x \<in> set ys"
  by (induction rule: list_emb.induct) auto

theorem exec_only_contained_witness:
  "\<exists>c pre b. child_program demo_kernel (Inr [0]) (Some (lit ''/g'')) (Some 1000) JNull None 5 \<lparr>ch_kernel = 0, ch_calls = [], ch_closed = []\<rparr> = (Inr (), c) \<and>
     ch_calls c = pre @ [No_new_privs, Install_filter b, Execve [] (with_lang JNull)] \<and> Setuid 1000 \<in> set pre"
proof -
  let ?c = "\<lparr>ch_kernel = 0 :: int, ch_calls = [], ch_closed = []\<rparr>"
  let ?m = "child_program demo_kernel (Inr [0]) (Some (lit ''/g'')) (Some 1000) JNull None 5 ?c"
  let ?p = "preparation demo_kernel (Inr [0]) (Some (lit ''/g'')) (Some 1000) JNull None 5 ?c"
  have "fst ?p = Inr ()" by (rule demo_prepared)
  then obtain c1 where "?p = (Inr (), c1)" by (cases ?p) simp
  then have c: "?m = (Inr (), c1\<lparr>ch_calls := ch_calls c1 @ [Execve [] (with_lang JNull)]\<rparr>)"
    by (simp add: child_program_prepares fld_def arr_of_def)
  have "Execve [] (with_lang JNull) \<in> set (ch_calls (c1\<lparr>ch_calls := ch_calls c1 @ [Execve [] (with_lang JNull)]\<rparr>))" by simp
  from exec_only_contained [OF c this] obtain path u b pre where e: "Some (1000 :: int) = Some u"
    "ch_calls (c1\<lparr>ch_calls := ch_calls c1 @ [Execve [] (with_lang JNull)]\<rparr>) = pre @ [No_new_privs, Install_filter b, Execve [] (with_lang JNull)]"
    "subseq [Unshare 0x6C020000, Second_fork, Join_group path, Setsid, Drop_groups, Setgid u, Setuid u] pre" by (elim exE conjE)
  have "Setuid u \<in> set pre" using subseq_set [OF e(3)] by auto
  then have "Setuid 1000 \<in> set pre" using e(1) by simp
  with c e(2) show ?thesis by (intro exI conjI)
qed

section \<open>What the engine's call makes of it\<close>

text \<open>With the identifier of a channel the child ends before it closes the error pipe.\<close>

definition before_channel :: "'k kernel \<Rightarrow> pystr option \<Rightarrow> int option \<Rightarrow> json \<Rightarrow> nat \<Rightarrow> ('k child, unit) act" where
  "before_channel K grp uid execv err_r =
    andthen (close_fd K err_r) (\<lambda>_. andthen (child_sys K (Unshare 0x6C020000)) (\<lambda>_. andthen (child_sys K Second_fork) (\<lambda>_.
    andthen (case grp of None \<Rightarrow> raise (Py Attribute_Error) | Some path \<Rightarrow> child_sys K (Join_group path)) (\<lambda>_.
    andthen (child_sys K Setsid) (\<lambda>_. andthen (drop_privileges K uid) (\<lambda>_. child_sys K (Chdir (str_of (fld execv ''cwd'')))))))))"

lemma child_program_of_id:
  "child_program K prog grp uid execv (Some (Chan_id s)) err_r = andthen (before_channel K grp uid execv err_r) (\<lambda>_. raise (Py Attribute_Error))"
  by (simp add: child_program_def workload_program_def before_channel_def pass_channel_def andthen_assoc namespaces)

lemma before_channel_closes: "keeps (\<lambda>c. set (ch_closed c) \<subseteq> {err_r}) (before_channel K grp uid execv err_r)"
proof -
  have s: "keeps (\<lambda>c. set (ch_closed c) \<subseteq> {err_r}) (child_sys K x)" for x by (rule keeps_child_sys) simp
  have "keeps (\<lambda>c. set (ch_closed c) \<subseteq> {err_r}) (close_fd K err_r)"
    unfolding close_fd_def by (intro flow_intros s keeps_modify) simp
  then show ?thesis unfolding before_channel_def drop_privileges_def by (intro flow_intros s)
qed

lemma id_is_reported: "err_w \<noteq> err_r \<Longrightarrow> ch_closed c = [] \<Longrightarrow> reported err_w (child_program K prog grp uid execv (Some (Chan_id s)) err_r c)"
  using keeps_result [OF before_channel_closes, of c err_r K grp uid execv]
  by (auto simp: reported_def child_program_of_id andthen_def raise_def split: prod.split sum.split)

lemma spawn_of_id_raises:
  assumes "\<And>k r w k'. k_pipe K k = (Inr (r, w), k') \<Longrightarrow> r \<noteq> w"
  shows "linux_spawn K prog cg uid ex (Some (Chan_id s)) h \<noteq> (Inr p, h')"
proof
  assume "linux_spawn K prog cg uid ex (Some (Chan_id s)) h = (Inr p, h')"
  then obtain r w h1 h2 grp h3 where "sys (k_pipe K) h = (Inr (r, w), h1)"
    "run_child (child_program K prog grp uid ex (Some (Chan_id s)) r) w h2 = (Inr False, h3)"
    by (auto simp: linux_spawn_def andthen_eq_Inr raise_def split: if_splits)
  moreover from this(1) have "w \<noteq> r" using assms by (auto simp: sys_def split: prod.splits)
  ultimately show False
    using id_is_reported [of w r "\<lparr>ch_kernel = lx_kernel h2, ch_calls = [], ch_closed = []\<rparr>" K prog grp uid ex s] by (simp add: run_child_def Let_def)
qed

lemma no_filter_no_exec:
  assumes "child_program K build_filter grp uid execv ch err_r \<lparr>ch_kernel = k, ch_calls = [], ch_closed = []\<rparr> = (x, c)"
  shows "Execve argv env \<notin> set (ch_calls c)"
proof
  assume "Execve argv env \<in> set (ch_calls c)"
  obtain y c1 where p: "preparation K build_filter grp uid execv ch err_r \<lparr>ch_kernel = k, ch_calls = [], ch_closed = []\<rparr> = (y, c1)"
    by (cases "preparation K build_filter grp uid execv ch err_r \<lparr>ch_kernel = k, ch_calls = [], ch_closed = []\<rparr>")
  have no: "no_exec c1" by (rule keepsD [OF preparation_no_exec _ p]) (simp add: no_exec_def)
  show False
  proof (cases y)
    case (Inr u)
    then have "preparation K build_filter grp uid execv ch err_r \<lparr>ch_kernel = k, ch_calls = [], ch_closed = []\<rparr> = (Inr (), c1)" using p by simp
    from prepared [OF this] show False using build_filter_any_order [OF refl] by (auto simp: build_filter_def)
  next
    case (Inl e)
    then show False using assms p no \<open>Execve argv env \<in> set (ch_calls c)\<close> by (auto simp: child_program_prepares no_exec_def)
  qed
qed

text \<open>C39: on the Linux host no workload is ever executed and none is ever thought to run: whatever the kernel answers and whatever
  channel is passed, a launched child never makes the call that executes a program, because the filter program cannot be built;
  and the release of the root process, which passes the identifier of a channel where a socket is expected, always raises and leaves the
  run without a root process.\<close>

theorem linux_runs_nothing:
  assumes "\<forall>k r w k'. k_pipe K k = (Inr (r, w), k') \<longrightarrow> r \<noteq> w"
  shows "Execve argv env \<notin> set (ch_calls (snd (child_program K build_filter grp uid execv ch err_r \<lparr>ch_kernel = k, ch_calls = [], ch_closed = []\<rparr>))) \<and>
    (\<exists>e. fst (release_root (linux_env K) r) = Inl e) \<and> rn_root_proc (snd (release_root (linux_env K) r)) = rn_root_proc r"
proof (intro conjI)
  let ?c = "\<lparr>ch_kernel = k, ch_calls = [], ch_closed = []\<rparr>"
  show "Execve argv env \<notin> set (ch_calls (snd (child_program K build_filter grp uid execv ch err_r ?c)))"
    by (rule no_filter_no_exec [OF surjective_pairing])
  let ?E = "linux_env K"
  let ?front = "andthen (on_world (env_new_id ?E ID_channel (\<lambda>_. False))) (\<lambda>ch.
    andthen (modify (\<lambda>r. r\<lparr>rn_channels := insert ch (rn_channels r), rn_root_channel := Some ch\<rparr>)) (\<lambda>_.
    andthen the_cgroup (\<lambda>cg. andthen (reads rn_execv) (\<lambda>ex. andthen (reads rn_task_uid) (\<lambda>uid. on_world (env_spawn_root ?E cg uid ex ch))))))"
  have eq: "release_root ?E = andthen ?front (\<lambda>p. andthen (modify (\<lambda>r. r\<lparr>rn_root_proc := Some p\<rparr>)) (\<lambda>_. write_manifest ?E))"
    by (simp add: release_root_def andthen_assoc)
  have world: "keeps (\<lambda>r'. rn_root_proc r' = rn_root_proc r) (on_world m)" for m :: "('a linux, 'c) act"
    by (rule keepsI) (simp add: on_world_def split: prod.split)
  have front: "keeps (\<lambda>r'. rn_root_proc r' = rn_root_proc r) ?front"
    unfolding the_cgroup_def by (intro flow_intros world keeps_modify) simp
  have "?front r \<noteq> (Inr p, r')" for p r'
    using spawn_of_id_raises [of K] assms by (auto simp: andthen_eq_Inr on_world_def linux_env_def split: prod.splits)
  then obtain e r' where f: "?front r = (Inl e, r')" by (cases "?front r"; cases "fst (?front r)") auto
  then show "\<exists>e. fst (release_root ?E r) = Inl e" by (simp add: eq)
  show "rn_root_proc (snd (release_root ?E r)) = rn_root_proc r"
    using keeps_result [OF front, of r] f by (simp add: eq)
qed

theorem linux_runs_nothing_witness:
  "rn_root_proc (snd (release_root (linux_env demo_kernel) (Run [] [] [] JNull JNull (idle_conn JOURNAL_SCHEMA) JNull [] (LinuxHost 0)))) = None"
proof -
  have "\<forall>k r w k'. k_pipe demo_kernel k = (Inr (r, w), k') \<longrightarrow> r \<noteq> w" by (simp add: demo_kernel_def ret_def)
  note linux_runs_nothing [OF this, of "[]" JNull None None JNull None 0 0]
  then show ?thesis by (metis (no_types, lifting) Run_def run.select_convs(10))
qed

text \<open>C37: the engine on Linux. On every kernel none of whose calls turns the boot clock back, over any session of a run (arming, ticks,
  requests, receipts), whatever the calls to the kernel answer and whatever statement of the storage fails, the committed journal is the earlier
  one followed by sealed, linked entries of the run.\<close>

theorem linux_journal_append_only:
  assumes "calm_kernel K now" "settled (\<lambda>h. now (lx_kernel h)) lib es r"
  shows "\<exists>new. settled (\<lambda>h. now (lx_kernel h)) lib (es @ new) (session (linux_env K) lib ops r)"
  using quiet_env.session_settles [OF calm_linux_quiet [OF assms(1)] assms(2)] by blast

lemma demo_calm: "calm_kernel demo_kernel (\<lambda>k. k)"
  by (simp add: calm_kernel_def demo_kernel_def forward_def ret_def raise_def)

theorem linux_journal_append_only_witness:
  "\<exists>es. settled lx_kernel plain_lib es (session (linux_env demo_kernel) plain_lib [Op_arming, Op_arm, Op_tick]
     (Run (plain_id ID_run) (plain_id ID_key) (replicate 32 0) demo_config JNull (idle_conn JOURNAL_SCHEMA) JNull [] (LinuxHost 0)))"
proof -
  have "settled lx_kernel plain_lib [] (Run (plain_id ID_run) (plain_id ID_key) (replicate 32 0) demo_config JNull (idle_conn JOURNAL_SCHEMA) JNull [] (LinuxHost 0))"
    by (rule fresh_settled) (simp add: JOURNAL_SCHEMA_def Run_def)
  from linux_journal_append_only [OF demo_calm this] show ?thesis by simp
qed

section \<open>Clean-up, energy and orphans on Linux\<close>

text \<open>The clean-up after a failed arming raises before the lock of the task user is given back.\<close>

theorem linux_cleanup_raises:
  assumes "rn_workspace r = Some p" "p \<noteq> []"
  shows "\<exists>r'. cleanup_arming (linux_env K) r = (Inl (Py Type_Error), r') \<and> lx_uid_locks (rn_world r') = lx_uid_locks (rn_world r)"
proof -
  let ?I = "\<lambda>r' :: 'a linux run. lx_uid_locks (rn_world r') = lx_uid_locks (rn_world r)"
  have sys: "keeps (\<lambda>h. lx_uid_locks h = l) (sys m)" for l and m :: "('a, 'c) act"
    by (rule keepsI) (simp add: sys_def split: prod.split)
  have "keeps (\<lambda>h. lx_uid_locks h = l) (linux_cgroup_kill K cg)" for l cg
    unfolding linux_cgroup_kill_def cgroup_of_def write_text_def by (intro flow_intros keeps_on_os_error sys)
  then have kill: "keeps ?I (on_world (linux_cgroup_kill K cg))" for cg
    by (intro keepsI) (auto simp: on_world_def split: prod.split dest: keepsD)
  have "keeps ?I (when_act (rn_cgroup r \<noteq> None) (try_kill (linux_env K)))"
    unfolding try_kill_def catch_any_def the_cgroup_def by (intro flow_intros) (simp_all add: linux_env_def kill)
  note kept = keeps_result [OF this refl]
  let ?m = "when_act (rn_cgroup r \<noteq> None) (try_kill (linux_env K))"
  have "\<exists>r'. try_kill (linux_env K) r = (Inr (), r')"
    unfolding try_kill_def catch_any_def handle_exn_def by (cases "andthen the_cgroup (\<lambda>cg. andthen (on_world (env_cgroup_kill (linux_env K) cg)) (\<lambda>_. ret ())) r")
      (simp add: ret_def split: sum.split)
  then obtain r' where m: "?m r = (Inr (), r')" by (cases "rn_cgroup r = None") (auto simp: when_act_def ret_def)
  then have "?I r'" using kept by simp
  moreover have "env_workspace_release (linux_env K) p rid = raise (Py Type_Error)" for rid by (simp add: linux_env_def)
  then have "cleanup_arming (linux_env K) r = (Inl (Py Type_Error), r')"
    using m assms unfolding cleanup_arming_def by (simp add: reads_def andthen_def on_world_def raise_def when_act_def [of True] split del: if_split)
  ultimately show ?thesis by blast
qed

text \<open>On a kernel whose powercap driver has no file of the name that the code uses, no domain is found and no sample can be read.\<close>

theorem linux_without_energy:
  assumes "\<And>k d. \<not> k_exists K k (in_dir d ''max_energy_uj_range_uj'')"
    and "\<And>k d. fst (k_read K (in_dir d ''max_energy_uj_range_uj'') k) = Inl (Py OS_Error)"
  shows "discover_rapl K h = (Inr ds, h') \<Longrightarrow> ds = []" "linux_read_domain K d h \<noteq> (Inr s, h')"
proof -
  have "\<not> usable_domain K g n" for g n using assms(1) by (simp add: usable_domain_def Let_def)
  then show "discover_rapl K h = (Inr ds, h') \<Longrightarrow> ds = []"
    by (auto simp: discover_rapl_def on_os_error_def handle_exn_def andthen_def ret_def raise_def reads_def sys_def split: prod.splits sum.splits if_splits)
  have "read_counter K (in_dir d ''max_energy_uj_range_uj'') g \<noteq> (Inr n, g')" for d g n g'
    using assms(2) [of d "lx_kernel g"] by (auto simp: read_counter_def andthen_eq_Inr sys_def split: prod.splits)
  then show "linux_read_domain K d h \<noteq> (Inr s, h')"
    by (auto simp: linux_read_domain_def domain_sample_def andthen_eq_Inr handle_exn_def reads_def raise_def split: option.splits prod.splits sum.splits if_splits)
qed

text \<open>A manifest as \<open>_write_manifest\<close> makes it on the Linux host\<close>

definition linux_manifest :: "'k kernel \<Rightarrow> json \<Rightarrow> bool" where
  "linux_manifest K m \<longleftrightarrow> (\<exists>(r :: 'k linux run) ch ph boot cg h inode path h' i ex files.
     env_cgroup_identity (linux_env K) cg h = (Inr (inode, path), h') \<and> u_str inode = Inr i \<and> m = manifest_obj r ch ph boot (JStr i) path ex files)"

text \<open>On Linux recovery kills no orphan. The manifests written there pin the inode 0, because the group has no attribute
  \<open>inode\<close>; so if every manifest of the state directory was written on the Linux host and no control group has inode 0, a recovery writes
  \<open>cgroup.kill\<close> for no group at all, whatever the journals say.\<close>

theorem linux_orphans_survive:
  assumes "recover_all E boot runs only_run s = (x, s')"
    and "\<And>name pl b m. (name, pl) \<in> set runs \<Longrightarrow> pl_manifest pl = Holds b \<Longrightarrow> loads b = Inr m \<Longrightarrow> linux_manifest K m"
    and "\<And>p n. inode E p = Inr n \<Longrightarrow> 0 < n"
  shows "s' = s"
proof -
  obtain ps where ps: "s' = s\<lparr>rs_kills := rs_kills s @ ps\<rparr>" "\<forall>i < length ps. \<exists>(name, pl) \<in> set runs. pinned_orphan E boot name pl (ps ! i)"
    using recover_all_logs [OF assms(1)] by blast
  have "\<not> pinned_orphan E boot name pl p" if here: "(name, pl) \<in> set runs" for name pl p
  proof
    assume "pinned_orphan E boot name pl p"
    then obtain b m n t where m: "pl_manifest pl = Holds b" "loads b = Inr m" "inode E (JStr p) = Inr n" "py_str_int n = Inr t"
      "fld m ''cgroup_inode'' = JStr t" by (auto simp: pinned_orphan_def)
    obtain r :: "'a linux run" and ch ph boot cg h inode path h' i ex files where
      l: "env_cgroup_identity (linux_env K) cg h = (Inr (inode, path), h')" "u_str inode = Inr i" "m = manifest_obj r ch ph boot (JStr i) path ex files"
      using assms(2) [OF here m(1,2)] unfolding linux_manifest_def by blast
    have "inode = 0" using l(1) by (auto simp: linux_env_def linux_cgroup_identity_def andthen_eq_Inr ret_def)
    then have "i = dec_str 0" using l(2) by (simp add: u_str_def U_MAX_def)
    moreover have "fld m ''cgroup_inode'' = JStr i" using l(3) by (simp add: manifest_obj_def fld_def dict_get_def lit_def)
    ultimately have "t = dec_str 0" using m(5) by simp
    moreover have "t = dec_str (nat n)" using m(4) assms(3) [OF m(3)] by (simp add: py_str_int_def Let_def split: if_splits)
    ultimately have "nat n = 0" by (simp only: dec_str_inject)
    then show False using assms(3) [OF m(3)] by simp
  qed
  then have "ps = []" using ps(2) by (cases ps) fastforce+
  then show ?thesis using ps(1) by simp
qed

section \<open>Reports and locks\<close>

text \<open>A report without \<open>UNSUPPORTED_PROFILE\<close> has every isolation flag set, and the energy profile reports a missing domain.\<close>

theorem capability_report_consistent:
  assumes "linux_capabilities K profile h = (Inr caps, h')" "JStr (lit ''UNSUPPORTED_PROFILE'') \<notin> set (arr_of (fld caps ''failures''))"
  shows "(\<forall>k \<in> {''cgroup_kill'', ''task_uid_isolation'', ''seccomp'', ''namespaces''}. fld caps k = JBool True) \<and>
    (profile = JStr (lit ''linux-rapl-v1'') \<longrightarrow>
      (fld caps ''rapl_domains'' = JArr [] \<longleftrightarrow> JStr (lit ''SENSOR_UNAVAILABLE'') \<in> set (arr_of (fld caps ''failures''))))"
proof -
  obtain v2 ck u sc ua ds where s: "cgroup_support K h = (Inr (v2, ck), u)" "check_seccomp K u = (Inr sc, ua)" "discover_rapl K ua = (Inr ds, h')"
    using assms(1) unfolding linux_capabilities_def by (auto simp: andthen_eq_Inr reads_def ret_def)
  let ?euid = "k_euid K (lx_kernel u) = 0"
  let ?ns = "v2 \<and> ?euid \<and> check_namespaces K u"
  define un where "un \<longleftrightarrow> \<not> (v2 \<and> k_machine K (lx_kernel h) = lit ''x86_64'' \<and> ?euid) \<or> \<not> ck \<or> \<not> ?ns \<or> \<not> sc \<or> \<not> ?euid"
  have caps: "caps = JObj [(lit ''profile'', profile), (lit ''cgroup_kill'', JBool ck), (lit ''task_uid_isolation'', JBool ?euid),
      (lit ''seccomp'', JBool sc), (lit ''namespaces'', JBool ?ns), (lit ''rapl_domains'', JArr (map JStr ds)),
      (lit ''failures'', JArr (map JStr ((if un then [lit ''UNSUPPORTED_PROFILE''] else []) @
             (if profile = JStr (lit ''linux-rapl-v1'') \<and> ds = [] then [lit ''SENSOR_UNAVAILABLE''] else []))))]"
    using assms(1) s unfolding linux_capabilities_def un_def by (auto simp: reads_def ret_def Let_def split del: if_split) (intro arg_cong [of _ _ "map JStr"] if_cong; blast)
  have failures: "arr_of (fld caps ''failures'') = map JStr ((if un then [lit ''UNSUPPORTED_PROFILE''] else []) @
      (if profile = JStr (lit ''linux-rapl-v1'') \<and> ds = [] then [lit ''SENSOR_UNAVAILABLE''] else []))"
    by (simp add: caps fld_def dict_get_def arr_of_def lit_def)
  then have "\<not> un" using assms(2) by (auto split: if_splits)
  then show ?thesis unfolding failures
    by (auto simp: caps fld_def dict_get_def lit_def un_def)
qed

text \<open>The user given out is one of the range, is not in use, and its lock is held by the host.\<close>

lemma uid_loop_gives:
  "uid_loop K in_use us h = (Inr u, h') \<Longrightarrow> u \<in> set us \<and> u \<notin> in_use \<and> map_of (lx_uid_locks h') u \<noteq> None"
proof (induction us arbitrary: h)
  case (Cons v us)
  show ?case
  proof (cases "v \<in> in_use")
    case False
    let ?lock = "on_os_error (sys (k_open_lock K (uid_lock_path v))) (raise (Lex CONTAINMENT_FAULT))"
    let ?got = "\<lambda>fd. on_os_error (andthen (sys (k_flock K fd)) (\<lambda>_. ret True)) (andthen (sys (k_close K fd)) (\<lambda>_. ret False))"
    obtain fd got h1 h2 where "?lock h = (Inr fd, h1)" "?got fd h1 = (Inr got, h2)"
      "(if \<not> got then uid_loop K in_use us else andthen (modify (\<lambda>h. h\<lparr>lx_uid_locks := AList.update v fd (lx_uid_locks h)\<rparr>)) (\<lambda>_. ret v)) h2 = (Inr u, h')"
      using Cons.prems False by (auto simp: andthen_eq_Inr)
    then show ?thesis using Cons.IH [of h2] False by (cases got) (auto simp: ret_def update_conv')
  qed (use Cons in auto)
qed (simp add: raise_def)

theorem uid_alloc_in_range:
  assumes "linux_uid_alloc K lo hi in_use h = (Inr u, h')"
  shows "lo \<le> u \<and> u \<le> hi \<and> u \<notin> in_use \<and> map_of (lx_uid_locks h') u \<noteq> None"
  using uid_loop_gives [OF assms [unfolded linux_uid_alloc_def]] by simp

text \<open>An exit that was observed is the answer of every later poll, which makes no call to the kernel.\<close>

theorem exit_observed_once:
  assumes "linux_poll K p h = (Inr ex, h')" "ex \<noteq> JNull" "lx_procs g ! p = lx_procs h' ! p" "length (lx_procs g) = length (lx_procs h')"
  shows "linux_poll K p g = (Inr ex, g)"
proof -
  have p: "p < length (lx_procs h)" using assms(1) by (auto simp: linux_poll_def reads_def raise_def split: if_splits)
  have "p < length (lx_procs h') \<and> \<not> lp_alive (lx_procs h' ! p) \<and> lp_exit (lx_procs h' ! p) = ex"
    using assms(1,2) p
    by (auto simp: linux_poll_def on_os_error_def handle_exn_def sys_def proc_ended_def andthen_def reads_def ret_def raise_def modify_def
      split: if_splits prod.splits sum.splits option.splits)
  then show ?thesis using assms(3,4) by (simp add: linux_poll_def ret_def)
qed

end
