(* ===== verification/LinuxHttp.thy ===== *)
theory LinuxHttp imports LinuxSpawn begin

text \<open>
  The reader of a reply in \<open>http_get\<close> against the reply as a whole: the incremental loops find the same head, status and body as a
  parse of all the bytes at once, however these are cut into pieces.
\<close>

section \<open>Finding a separator\<close>

lemma take_drop_Cons_append:
  assumes "n \<le> length (c # cs)"
  shows "take n (c # cs @ t) = take n (c # cs)" "drop n (c # cs @ t) = drop n (c # cs) @ t"
proof -
  show "take n (c # cs @ t) = take n (c # cs)" using assms take_append [of n "c # cs" t] by (simp del: take_append)
  show "drop n (c # cs @ t) = drop n (c # cs) @ t" using assms drop_append [of n "c # cs" t] by (simp del: drop_append)
qed

lemma take_eq_length: "take (length pat) s = pat \<Longrightarrow> length pat \<le> length s"
  by (metis length_take min.cobounded1 min.commute)

lemma find_sub_split: "find_sub pat s = Some (a, b) \<Longrightarrow> s = a @ pat @ b"
proof (induction pat s arbitrary: a b rule: find_sub.induct)
  case (2 pat c cs)
  show ?case
  proof (cases "take (length pat) (c # cs) = pat")
    case True
    have "c # cs = take (length pat) (c # cs) @ drop (length pat) (c # cs)" by (rule append_take_drop_id [symmetric])
    then show ?thesis using True 2(2) by simp
  qed (use 2 in auto)
qed (auto split: if_splits)

lemma find_sub_append: "find_sub pat s = Some (a, b) \<Longrightarrow> find_sub pat (s @ t) = Some (a, b @ t)"
proof (induction pat s arbitrary: a b rule: find_sub.induct)
  case (1 pat)
  then show ?case by (cases t) (auto split: if_splits)
next
  case (2 pat c cs)
  have "length pat \<le> length (c # cs)" using find_sub_split [OF 2(2)] by (metis length_append le_add1 le_add2 le_trans)
  note same = take_drop_Cons_append [OF this, of t]
  show ?case
  proof (cases "take (length pat) (c # cs) = pat")
    case False
    then obtain a' where a: "find_sub pat cs = Some (a', b)" "a = c # a'" using 2(2) by auto
    then show ?thesis using 2(1) [OF False a(1)] False same by simp
  qed (use 2(2) same in simp)
qed

lemma find_sub_prefix:
  "find_sub pat (s @ t) = Some (a, b) \<Longrightarrow> length a + length pat \<le> length s \<Longrightarrow> \<exists>b'. find_sub pat s = Some (a, b') \<and> b = b' @ t"
proof (induction s arbitrary: a)
  case Nil
  then show ?case by (cases t) auto
next
  case (Cons c s)
  have "length pat \<le> length (c # s)" using Cons.prems by simp
  note same = take_drop_Cons_append [OF this, of t]
  show ?case
  proof (cases "take (length pat) (c # s) = pat")
    case True
    then show ?thesis using Cons.prems(1) same by auto
  next
    case False
    then obtain a' where "find_sub pat (s @ t) = Some (a', b)" "a = c # a'" using Cons.prems(1) same by auto
    then show ?thesis using Cons.IH [of a'] Cons.prems(2) False by auto
  qed
qed

lemma find_sub_there: "find_sub pat (a @ pat @ b) \<noteq> None"
proof (induction a)
  case Nil
  have "take (length pat) (pat @ b) = pat" by simp
  then show ?case by (cases "pat @ b") auto
qed auto

section \<open>The loops\<close>

abbreviation pieces :: "bytes list \<Rightarrow> net_event list \<Rightarrow> net_event list" where "pieces cs tail \<equiv> map Chunk cs @ tail"

text \<open>What one \<open>recv\<close> takes of a nonempty piece\<close>

lemma recv_piece:
  assumes "[] \<notin> set cs" "cs \<noteq> []" "0 < n"
  shows "\<exists>x xs cs'. net_recv n (pieces cs tail) = (Chunk (x # xs), pieces cs' tail) \<and> x # xs @ concat cs' = concat cs \<and> [] \<notin> set cs' \<and> length (x # xs) \<le> n"
proof -
  obtain c cs0 where cs: "cs = c # cs0" "c \<noteq> []" using assms by (cases cs) auto
  let ?cs' = "if length c \<le> n then cs0 else drop n c # cs0"
  obtain x xs where t: "take n c = x # xs" using cs(2) assms(3) by (cases "take n c") auto
  have l: "length (x # xs) \<le> n" using t by (metis length_take min.cobounded2)
  have "take n c @ drop n c = c" by simp
  then have c: "x # xs @ drop n c = c" using t by (metis append_Cons)
  have "net_recv n (pieces cs tail) = (Chunk (x # xs), pieces ?cs' tail)" using cs t by simp
  moreover have "x # xs @ concat ?cs' = concat cs"
  proof -
    have "concat ?cs' = drop n c @ concat cs0" by simp
    then have "x # xs @ concat ?cs' = (x # xs @ drop n c) @ concat cs0" by simp
    also have "\<dots> = concat cs" using c cs(1) by simp
    finally show ?thesis .
  qed
  moreover have "[] \<notin> set ?cs'" using assms(1) cs by auto
  ultimately show ?thesis using l by blast
qed

lemma head_loop_finds:
  "[] \<notin> set cs \<Longrightarrow> find_sub BLANK_LINE (hd0 @ concat cs) = Some (h, b) \<Longrightarrow> length h + 4 \<le> 16384 \<Longrightarrow>
   \<exists>head cs'. head_loop hd0 (pieces cs tail) = Inr (head, pieces cs' tail) \<and> [] \<notin> set cs' \<and> head @ concat cs' = hd0 @ concat cs \<and>
     (\<exists>b'. find_sub BLANK_LINE head = Some (h, b') \<and> b = b' @ concat cs')"
proof (induction "length (concat cs)" arbitrary: hd0 cs rule: less_induct)
  case less
  show ?case
  proof (cases "find_sub BLANK_LINE hd0")
    case (Some p)
    then obtain a b' where "find_sub BLANK_LINE hd0 = Some (a, b')" by (cases p) auto
    then show ?thesis using less.prems find_sub_append [of BLANK_LINE hd0 a b' "concat cs"]
      by (intro exI [of _ hd0] exI [of _ cs]) (simp add: head_loop.simps [of hd0])
  next
    case None
    then have short: "length hd0 < length h + 4"
      using find_sub_prefix [OF less.prems(2)] by (force simp: BLANK_LINE_def not_less)
    have "cs \<noteq> []" using None less.prems(2) by auto
    from recv_piece [OF less.prems(1) this, of 4096 tail] obtain x xs cs' where
      r: "net_recv 4096 (pieces cs tail) = (Chunk (x # xs), pieces cs' tail)" "x # xs @ concat cs' = concat cs" "[] \<notin> set cs'" by auto
    have eq: "hd0 @ concat cs = (hd0 @ x # xs) @ concat cs'" using r(2) by simp
    have "length (concat cs') < length (concat cs)" using arg_cong [OF r(2), of length] by simp
    from less.hyps [OF this r(3), of "hd0 @ x # xs"] less.prems(2,3) eq
    obtain head cs'' where "head_loop (hd0 @ x # xs) (pieces cs' tail) = Inr (head, pieces cs'' tail)" "[] \<notin> set cs''"
      "head @ concat cs'' = hd0 @ concat cs" "\<exists>b'. find_sub BLANK_LINE head = Some (h, b') \<and> b = b' @ concat cs''" by auto
    moreover have "head_loop hd0 (pieces cs tail) = head_loop (hd0 @ x # xs) (pieces cs' tail)"
      using None short less.prems(3) r(1) by (simp add: head_loop.simps [of hd0])
    ultimately show ?thesis by auto
  qed
qed

definition stream_ends :: "net_event list \<Rightarrow> bool" where "stream_ends tail \<longleftrightarrow> tail = [] \<or> hd tail = Timeout"

lemma body_loop_reads:
  "[] \<notin> set cs \<Longrightarrow> stream_ends tail \<Longrightarrow>
   \<exists>body'. body_loop limit body (pieces cs tail) = Inr body' \<and>
     (if length (body @ concat cs) \<le> limit then body' = body @ concat cs else limit < length body')"
proof (induction "length (concat cs)" arbitrary: body cs rule: less_induct)
  case less
  show ?case
  proof (cases "length body < limit + 1")
    case False
    then show ?thesis by (simp add: body_loop.simps [of limit body])
  next
    case True
    show ?thesis
    proof (cases "cs = []")
      case True
      then show ?thesis using less.prems(2) \<open>length body < limit + 1\<close>
        by (cases tail) (auto simp: body_loop.simps [of limit body] stream_ends_def)
    next
      case False
      from recv_piece [OF less.prems(1) False, of "min 65536 (limit + 1 - length body)" tail] True obtain x xs cs' where
        r: "net_recv (min 65536 (limit + 1 - length body)) (pieces cs tail) = (Chunk (x # xs), pieces cs' tail)"
          "x # xs @ concat cs' = concat cs" "[] \<notin> set cs'" by auto
      have "length (concat cs') < length (concat cs)" using arg_cong [OF r(2), of length] by simp
      from less.hyps [OF this r(3) less.prems(2), of "body @ x # xs"] r(2)
      obtain body' where "body_loop limit (body @ x # xs) (pieces cs' tail) = Inr body'"
        "if length (body @ concat cs) \<le> limit then body' = body @ concat cs else limit < length body'" by auto
      moreover have "body_loop limit body (pieces cs tail) = body_loop limit (body @ x # xs) (pieces cs' tail)"
        using True r(1) by (simp add: body_loop.simps [of limit body])
      ultimately show ?thesis by auto
    qed
  qed
qed

section \<open>The reply\<close>

text \<open>The answer to a reply whose head is \<open>h\<close> and whose body is \<open>b\<close>\<close>

definition reply_of :: "nat \<Rightarrow> bytes \<Rightarrow> bytes \<Rightarrow> exn + int \<times> bytes" where
  "reply_of limit h b =
    bindE (status_of (h @ BLANK_LINE)) (\<lambda>status.
      if \<not> (100 \<le> status \<and> status \<le> 599) then Inl (Lex ACTION_FAILED)
      else if length b > limit then Inl (Lex OUTPUT_LIMIT) else Inr (status, b))"

lemma status_of_head:
  assumes "find_sub BLANK_LINE head = Some (h, b)"
  shows "status_of head = status_of (h @ BLANK_LINE)"
proof -
  have "find_sub CRLF (h @ CRLF @ CRLF) \<noteq> None" by (rule find_sub_there)
  then obtain l r where l: "find_sub CRLF (h @ BLANK_LINE) = Some (l, r)" by (auto simp: CRLF_def BLANK_LINE_def)
  have "head = (h @ BLANK_LINE) @ b" using find_sub_split [OF assms] by simp
  then have "find_sub CRLF head = Some (l, r @ b)" using find_sub_append [OF l] by simp
  then show ?thesis using l by (simp add: status_of_def)
qed

text \<open>C40: reading a reply in pieces is parsing it whole. However the bytes of a reply are cut into pieces, if its head ends within
  16 KiB then the answer is the one of a parse of all the bytes at once: the error of the status line, \<open>ACTION_FAILED\<close> for a status out of range,
  \<open>OUTPUT_LIMIT\<close> for a body over the limit, and else the status and exactly the bytes after the head. A timeout counts as the
  end of the reply.\<close>

theorem http_reply_whole:
  assumes "[] \<notin> set cs" "stream_ends rest" "find_sub BLANK_LINE (concat cs) = Some (h, b)" "length h + 4 \<le> 16384"
  shows "read_reply limit (map Chunk cs @ rest) = reply_of limit h b"
proof -
  have data: "find_sub BLANK_LINE ([] @ concat cs) = Some (h, b)" using assms(3) by simp
  from head_loop_finds [OF assms(1) data assms(4), of rest] obtain head cs' b' where
    d: "head_loop [] (map Chunk cs @ rest) = Inr (head, map Chunk cs' @ rest)" "[] \<notin> set cs'"
      "find_sub BLANK_LINE head = Some (h, b')" "b = b' @ concat cs'" by blast
  from body_loop_reads [OF d(2) assms(2), of limit b'] obtain body where
    e: "body_loop limit b' (map Chunk cs' @ rest) = Inr body" "if length b \<le> limit then body = b else limit < length body" by (auto simp: d(4))
  have "(if length body > limit then Inl (Lex OUTPUT_LIMIT) else Inr (status, body)) =
      (if length b > limit then Inl (Lex OUTPUT_LIMIT) else Inr (status, b))" for status :: int
    using e(2) by (auto split: if_splits)
  then show ?thesis using d(1,3) e(1) status_of_head [OF d(3)] by (simp add: read_reply_def reply_of_def cong: if_cong)
qed

text \<open>The bytes of \<open>HTTP/1.1 200 OK\<close>, a blank line and a body of two bytes, in three pieces\<close>

theorem http_reply_whole_witness:
  "read_reply 10 (map Chunk [lit ''HTTP/1.1 20'', lit ''0 OK'' @ [13, 10, 13], [10, 65, 66]] @ [Timeout]) = Inr (200, [65, 66])"
proof -
  let ?cs = "[lit ''HTTP/1.1 20'', lit ''0 OK'' @ [13, 10, 13], [10, 65, 66]]"
  let ?h = "lit ''HTTP/1.1 200 OK''"
  have "find_sub BLANK_LINE (concat ?cs) = Some (?h, [65, 66])" by (simp add: lit_def BLANK_LINE_def)
  moreover have "reply_of 10 ?h [65, 66] = Inr (200, [65, 66])"
    by (simp add: reply_of_def status_of_def lit_def CRLF_def BLANK_LINE_def words_by_def is_c_space_def nth_item_def int_of_bytes_def strip_by_def
      parse_int_def is_digit_def INT_MAX_STR_DIGITS_def)
  ultimately show ?thesis
    using http_reply_whole [of ?cs "[Timeout]" ?h "[65, 66]" 10] by (simp add: stream_ends_def lit_def)
qed

end
