(* ===== verification/Adapters.thy ===== *)
theory Adapters imports Launcher begin

text \<open>
  Models \<open>src/lexwatt/adapters\<close>: the selection of a model under the remaining budget of a run, from \<open>lexrapid.py\<close>, and the surfaces of
  the three adapters that are not shipped, each of which raises a \<open>NotImplementedError\<close>. The error texts are left out.
\<close>

definition remaining_flops :: "json \<Rightarrow> exn + int option" where
  "remaining_flops status =
    bindE (subscript status ''budgets'') (\<lambda>budgets.
    bindE (subscript budgets ''max_flops'') (\<lambda>cap.
      if cap = JNull then Inr None
      else bindE (parse_u cap) (\<lambda>c. bindE (subscript status ''charged_flops'') (\<lambda>used. bindE (parse_u used) (\<lambda>u. Inr (Some (c - u)))))))"

definition select :: "json list \<Rightarrow> json \<Rightarrow> json \<Rightarrow> exn + (json \<times> estimate) option" where
  "select models work_fields status =
    bindE (remaining_flops status) (\<lambda>rem. case rem of None \<Rightarrow> Inl (Lex INVALID_INPUT) | Some n \<Rightarrow> choose_route models work_fields n)"

definition unavailable :: "exn + json" where "unavailable = Inl (Py Not_Implemented_Error)"

definition hosted_catalog :: "exn + json" where "hosted_catalog = unavailable"
definition routing_backend :: "exn + json" where "routing_backend = unavailable"
definition model_download :: "pystr \<Rightarrow> exn + json" where "model_download model_id = unavailable"

definition submit_rollup :: "json \<Rightarrow> exn + json" where "submit_rollup receipt = unavailable"
definition aggregate_host_energy :: "json list \<Rightarrow> exn + json" where "aggregate_host_energy receipts = unavailable"

definition trellis_start :: "json \<Rightarrow> json \<Rightarrow> exn + json" where "trellis_start config execv = unavailable"
definition trellis_status :: "pystr \<Rightarrow> exn + json" where "trellis_status run_id = unavailable"
definition trellis_events :: "pystr \<Rightarrow> pystr \<Rightarrow> int \<Rightarrow> exn + json" where "trellis_events run_id after_seq limit = unavailable"
definition trellis_stop :: "pystr \<Rightarrow> exn + json" where "trellis_stop run_id = unavailable"
definition assume_lifetime_lease :: "pystr \<Rightarrow> exn + json" where "assume_lifetime_lease run_id = unavailable"

text \<open>What is selected fits into what the run has left: with its charge the run stays within its budget of operations.\<close>

theorem selection_fits_budget:
  assumes "select models work status = Inr (Some (mid, est))"
  shows "\<exists>cap used. parse_u (fld (fld status ''budgets'') ''max_flops'') = Inr cap \<and> parse_u (fld status ''charged_flops'') = Inr used \<and>
    used + py_int (est_charged_flops est) \<le> cap"
proof -
  obtain n where n: "remaining_flops status = Inr (Some n)" "choose_route models work n = Inr (Some (mid, est))"
    using assms by (auto simp: select_def bindE_eq_Inr split: option.splits)
  have "py_int (est_charged_flops est) \<le> n" using choose_route_optimal [OF n(2)] by auto
  moreover have "subscript v k = Inr x \<Longrightarrow> fld v k = x" for v k x
    by (auto simp: subscript_def fld_def dict_item_def dict_get_def split: json.splits option.splits)
  then have "\<exists>cap used. parse_u (fld (fld status ''budgets'') ''max_flops'') = Inr cap \<and> parse_u (fld status ''charged_flops'') = Inr used \<and> n = cap - used"
    using n(1) by (fastforce simp: remaining_flops_def bindE_eq_Inr split: if_splits)
  ultimately show ?thesis by auto
qed

end
