(* ===== verification/ServerLoop.thy ===== *)
theory ServerLoop imports Server begin

text \<open>
  Models the life of the servers of \<open>src/lexwatt/server.py\<close>: opening and closing the control socket, who is let in, and the threads, one
  for each connection and each workload channel, as an inductive step relation. A thread takes a request from its connection in one step
  and answers it in a later one. The program does not lock the launcher that the threads share, so what the launcher does is known only
  while no two requests are being handled at once: then the whole handler is one step. From the moment two are (\<open>sv_mixed\<close>), the launcher
  may change in any way and the answers may be any, as long as some request is being handled.
\<close>

section \<open>The control socket\<close>

datatype server_call = Make_dir pystr nat | New_socket | Bind pystr | Chmod pystr nat | Listen nat | Start_thread | Close_socket | Unlink pystr

text \<open>The operating system as the state of its calls, with the calls made so far; \<open>cs_sock\<close> is whether \<open>_sock\<close> is set.\<close>

record 'k socket_server =
  cs_system :: 'k
  cs_calls :: "server_call list"
  cs_sock :: bool
  cs_closed :: bool

definition server_sys :: "(server_call \<Rightarrow> ('k, unit) act) \<Rightarrow> server_call \<Rightarrow> ('k socket_server, unit) act" where
  "server_sys system x s = (case system x (cs_system s) of (r, k) \<Rightarrow> (r, s\<lparr>cs_system := k, cs_calls := cs_calls s @ [x]\<rparr>))"

definition control_path :: "pystr \<Rightarrow> pystr" where "control_path dir = dir @ lit ''/control.sock''"

definition start_server :: "(server_call \<Rightarrow> ('k, unit) act) \<Rightarrow> pystr \<Rightarrow> ('k socket_server, unit) act" where
  "start_server system dir =
    andthen (server_sys system (Make_dir dir 0x1C0)) (\<lambda>_.
    andthen (server_sys system New_socket) (\<lambda>_.
    andthen (modify (\<lambda>s. s\<lparr>cs_sock := True\<rparr>)) (\<lambda>_.
    andthen (server_sys system (Bind (control_path dir))) (\<lambda>_.
    andthen (server_sys system (Chmod (control_path dir) 0x180)) (\<lambda>_.
    andthen (server_sys system (Listen 16)) (\<lambda>_. server_sys system Start_thread))))))"

definition passing_os_error :: "('s, unit) act \<Rightarrow> ('s, unit) act" where
  "passing_os_error m = handle_exn m (\<lambda>e. if e = Py OS_Error then ret () else raise e)"

definition stop_server :: "(server_call \<Rightarrow> ('k, unit) act) \<Rightarrow> pystr \<Rightarrow> ('k socket_server, unit) act" where
  "stop_server system dir =
    andthen (modify (\<lambda>s. s\<lparr>cs_closed := True\<rparr>)) (\<lambda>_.
    andthen (reads cs_sock) (\<lambda>open_sock.
    andthen (when_act open_sock (passing_os_error (server_sys system Close_socket))) (\<lambda>_.
      passing_os_error (server_sys system (Unlink (control_path dir))))))"

section \<open>Threads\<close>

text \<open>\<open>SO_PEERCRED\<close>: the process, the user and the group of the peer; \<open>None\<close> is an \<open>OSError\<close>.\<close>

definition peer_uid :: "(int \<times> int \<times> int) option \<Rightarrow> int option" where
  "peer_uid creds = (case creds of None \<Rightarrow> None | Some (pid, uid, gid) \<Rightarrow> Some uid)"

text \<open>The two halves of a round of \<open>_serve\<close>: the request that is read, or how the loop ends (\<open>None\<close>: by \<open>break\<close>), and the
  answer that is written, or the exception that ends the loop.\<close>

definition take_request :: "connection \<Rightarrow> (exn option + json) \<times> connection" where
  "take_request c =
    (case read_frame MAX_REQUEST_BYTES (cn_in c) of
       (Inl e, s') \<Rightarrow> (Inl (if exn_code e = None then Some e else None), c\<lparr>cn_in := s'\<rparr>)
     | (Inr None, s') \<Rightarrow> (Inl None, c\<lparr>cn_in := s'\<rparr>)
     | (Inr (Some payload), s') \<Rightarrow>
         (case read_request payload of
            Inl e \<Rightarrow> (Inl (if exn_code e = None then Some e else None), c\<lparr>cn_in := s'\<rparr>)
          | Inr req \<Rightarrow> (Inr req, c\<lparr>cn_in := s'\<rparr>)))"

definition reply_to :: "exn + json \<Rightarrow> connection \<Rightarrow> exn option \<times> connection" where
  "reply_to x c =
    (case x of
       Inl e \<Rightarrow> (Some e, c)
     | Inr resp \<Rightarrow> (case respond resp c of (Inl e, c') \<Rightarrow> (Some e, c') | (Inr _, c') \<Rightarrow> (None, c'\<lparr>cn_in := cn_in c\<rparr>)))"

text \<open>The loop of \<open>Server\<close> is the repetition of the two.\<close>

lemma serve_rounds:
  "serve h st c =
    (case take_request c of
       (Inl e, c1) \<Rightarrow> (e, st, c1)
     | (Inr req, c1) \<Rightarrow>
         (case answer_request h req st of
            (x, st') \<Rightarrow> (case reply_to x c1 of (Some e, c') \<Rightarrow> (Some e, st', c') | (None, c') \<Rightarrow> serve h st' c')))"
  by (subst serve.simps) (auto simp: take_request_def reply_to_def split: prod.splits sum.splits option.splits)

datatype peer = Control "int option" | Channel pystr

text \<open>A thread with the request it is handling, if any.\<close>

record thread =
  th_peer :: peer
  th_conn :: connection
  th_request :: "json option"

text \<open>The connections being served, the ones that are closed, and the launcher they share; \<open>sv_mixed\<close> tells that two requests have been
  handled at once.\<close>

record 'w servers =
  sv_launcher :: "'w launcher"
  sv_threads :: "thread list"
  sv_gone :: "(peer \<times> connection) list"
  sv_closed :: bool
  sv_mixed :: bool

definition new_thread :: "peer \<Rightarrow> connection \<Rightarrow> 'w servers \<Rightarrow> 'w servers" where
  "new_thread p c s = s\<lparr>sv_threads := sv_threads s @ [\<lparr>th_peer = p, th_conn = c, th_request = None\<rparr>]\<rparr>"

definition handling :: "'w servers \<Rightarrow> bool" where
  "handling s \<longleftrightarrow> (\<exists>T \<in> set (sv_threads s). th_request T \<noteq> None)"

definition end_thread :: "nat \<Rightarrow> connection \<Rightarrow> 'w servers \<Rightarrow> 'w servers" where
  "end_thread i c s =
    s\<lparr>sv_threads := take i (sv_threads s) @ drop (Suc i) (sv_threads s), sv_gone := (th_peer (sv_threads s ! i), c) # sv_gone s\<rparr>"

definition begin_request :: "nat \<Rightarrow> json \<Rightarrow> connection \<Rightarrow> 'w servers \<Rightarrow> 'w servers" where
  "begin_request i req c s =
    s\<lparr>sv_threads := (sv_threads s)[i := (sv_threads s ! i)\<lparr>th_conn := c, th_request := Some req\<rparr>], sv_mixed := sv_mixed s \<or> handling s\<rparr>"

definition end_request :: "nat \<Rightarrow> exn option \<times> connection \<Rightarrow> 'w servers \<Rightarrow> 'w servers" where
  "end_request i r s =
    (case r of
       (Some e, c) \<Rightarrow> end_thread i c s
     | (None, c) \<Rightarrow> s\<lparr>sv_threads := (sv_threads s)[i := (sv_threads s ! i)\<lparr>th_conn := c, th_request := None\<rparr>]\<rparr>)"

definition peer_handler :: "'w env \<Rightarrow> ed_lib \<Rightarrow> (nat \<Rightarrow> bytes) \<Rightarrow> (json \<Rightarrow> exn + pystr) \<Rightarrow> peer \<Rightarrow> json \<Rightarrow> ('w launcher, json) act" where
  "peer_handler E lib seeds hash_file p req =
    (case p of Control _ \<Rightarrow> control E lib seeds hash_file req 0 | Channel ch \<Rightarrow> workload E lib ch req)"

inductive server_step :: "'w env \<Rightarrow> ed_lib \<Rightarrow> (nat \<Rightarrow> bytes) \<Rightarrow> (json \<Rightarrow> exn + pystr) \<Rightarrow> 'w servers \<Rightarrow> 'w servers \<Rightarrow> bool"
  for E :: "'w env" and lib :: ed_lib and seeds :: "nat \<Rightarrow> bytes" and hash_file :: "json \<Rightarrow> exn + pystr" where
  accept_root: "\<not> sv_closed s \<Longrightarrow> peer_uid creds = Some 0 \<Longrightarrow> cn_out c = [] \<Longrightarrow>
    server_step E lib seeds hash_file s (new_thread (Control (peer_uid creds)) c s)"
| refuse: "\<not> sv_closed s \<Longrightarrow> peer_uid creds \<noteq> Some 0 \<Longrightarrow> cn_out c = [] \<Longrightarrow>
    server_step E lib seeds hash_file s (s\<lparr>sv_gone := (Control (peer_uid creds), c) # sv_gone s\<rparr>)"
| open_channel: "cn_out c = [] \<Longrightarrow> server_step E lib seeds hash_file s (new_thread (Channel ch) c s)"
| close_channel: "i < length (sv_threads s) \<Longrightarrow> sv_threads s ! i = T \<Longrightarrow> th_request T = None \<Longrightarrow> th_peer T = Channel ch \<Longrightarrow>
    server_step E lib seeds hash_file s (end_thread i (th_conn T) s)"
| take_one: "i < length (sv_threads s) \<Longrightarrow> sv_threads s ! i = T \<Longrightarrow> th_request T = None \<Longrightarrow> take_request (th_conn T) = (Inr req, c) \<Longrightarrow>
    server_step E lib seeds hash_file s (begin_request i req c s)"
| hang_up: "i < length (sv_threads s) \<Longrightarrow> sv_threads s ! i = T \<Longrightarrow> th_request T = None \<Longrightarrow> take_request (th_conn T) = (Inl e, c) \<Longrightarrow>
    server_step E lib seeds hash_file s (end_thread i c s)"
| answer_alone: "i < length (sv_threads s) \<Longrightarrow> sv_threads s ! i = T \<Longrightarrow> th_request T = Some req \<Longrightarrow> \<not> sv_mixed s \<Longrightarrow>
    answer_request (peer_handler E lib seeds hash_file (th_peer T)) req (sv_launcher s) = (x, L) \<Longrightarrow>
    server_step E lib seeds hash_file s (end_request i (reply_to x (th_conn T)) (s\<lparr>sv_launcher := L\<rparr>))"
| work_mixed: "sv_mixed s \<Longrightarrow> handling s \<Longrightarrow> server_step E lib seeds hash_file s (s\<lparr>sv_launcher := L\<rparr>)"
| answer_mixed: "i < length (sv_threads s) \<Longrightarrow> sv_threads s ! i = T \<Longrightarrow> th_request T = Some req \<Longrightarrow> sv_mixed s \<Longrightarrow>
    server_step E lib seeds hash_file s (end_request i (reply_to x (th_conn T)) s)"
| stop_accepting: "server_step E lib seeds hash_file s (s\<lparr>sv_closed := True\<rparr>)"

abbreviation server_run :: "'w env \<Rightarrow> ed_lib \<Rightarrow> (nat \<Rightarrow> bytes) \<Rightarrow> (json \<Rightarrow> exn + pystr) \<Rightarrow> 'w servers \<Rightarrow> 'w servers \<Rightarrow> bool" where
  "server_run E lib seeds hash_file \<equiv> (server_step E lib seeds hash_file)\<^sup>*\<^sup>*"

section \<open>Results\<close>

text \<open>Nobody but the owner can open the socket once it listens: the mode is set between the binding and the listening.\<close>

theorem listening_is_private:
  assumes "start_server system dir \<lparr>cs_system = k, cs_calls = [], cs_sock = False, cs_closed = False\<rparr> = (x, s)" "Listen n \<in> set (cs_calls s)"
  shows "\<exists>rest. cs_calls s = [Make_dir dir 0x1C0, New_socket, Bind (control_path dir), Chmod (control_path dir) 0x180, Listen n] @ rest"
  using assms
  by (auto simp: start_server_def server_sys_def andthen_def modify_def split: prod.splits sum.splits)

lemma answer_operates:
  assumes "answer_request (peer_handler E lib seeds hash_file p) req L = (x, L')"
  obtains ops where "L' = operate E lib seeds hash_file ops L"
proof -
  have L: "L' = snd (answer_request (peer_handler E lib seeds hash_file p) req L)" using assms by simp
  show thesis
  proof (cases p)
    case (Control u)
    with L show thesis by (intro that [of "[L_control req 0]"]) (simp add: operate_def asked peer_handler_def)
  next
    case (Channel ch)
    with L show thesis by (intro that [of "[L_workload ch req]"]) (simp add: operate_def asked peer_handler_def)
  qed
qed

lemma operate_append: "operate E lib seeds hash_file (xs @ ys) L = operate E lib seeds hash_file ys (operate E lib seeds hash_file xs L)"
  by (simp add: operate_def)

text \<open>The callers: their peers and what they were sent. A caller that is not root and no workload is an outsider.\<close>

definition callers :: "'w servers \<Rightarrow> (peer \<times> connection) set" where
  "callers s = (\<lambda>T. (th_peer T, th_conn T)) ` set (sv_threads s) \<union> set (sv_gone s)"

fun outsider :: "peer \<Rightarrow> bool" where
  "outsider (Control u) = (u \<noteq> Some 0)" | "outsider (Channel ch) = False"

definition only_root :: "'w servers \<Rightarrow> bool" where
  "only_root s \<longleftrightarrow> (\<forall>T \<in> set (sv_threads s). \<not> outsider (th_peer T)) \<and> (\<forall>(p, c) \<in> set (sv_gone s). outsider p \<longrightarrow> cn_out c = [])"

text \<open>A thread keeps its peer, and a caller stays one.\<close>

lemma peers_updated: "i < length ts \<Longrightarrow> th_peer T = th_peer (ts ! i) \<Longrightarrow> map th_peer (ts[i := T]) = map th_peer ts"
  by (simp add: map_update list_update_same_conv)

lemma threads_split: "i < length ts \<Longrightarrow> set ts = insert (ts ! i) (set (take i ts) \<union> set (drop (Suc i) ts))"
  by (subst id_take_nth_drop [of i ts]) auto

definition peers :: "'w servers \<Rightarrow> peer set" where
  "peers s = set (map th_peer (sv_threads s)) \<union> fst ` set (sv_gone s)"

lemma peers_callers: "peers s = fst ` callers s"
  by (simp add: peers_def callers_def image_Un image_image)

lemma end_thread_peers: "i < length (sv_threads s) \<Longrightarrow> peers (end_thread i c s) = peers s"
  using threads_split [of i "sv_threads s"] by (auto simp: peers_def end_thread_def)

lemma updated_peers: "i < length (sv_threads s) \<Longrightarrow> th_peer T = th_peer (sv_threads s ! i) \<Longrightarrow> peers (s\<lparr>sv_threads := (sv_threads s)[i := T]\<rparr>) = peers s"
  by (simp add: peers_def peers_updated del: set_map list.set_map)

lemma end_request_peers: "i < length (sv_threads s) \<Longrightarrow> peers (end_request i r s) = peers s"
  by (auto simp: end_request_def end_thread_peers updated_peers split: prod.split option.split)

lemma begin_request_peers: "i < length (sv_threads s) \<Longrightarrow> peers (begin_request i req c s) = peers s"
  by (simp add: begin_request_def peers_def peers_updated del: set_map list.set_map)

lemma step_peers: "server_step E lib seeds hash_file s t \<Longrightarrow> peers s \<subseteq> peers t"
  by (induction rule: server_step.induct) (auto simp: new_thread_def end_thread_peers end_request_peers begin_request_peers, auto simp: peers_def)

lemma end_thread_root: "i < length (sv_threads s) \<Longrightarrow> only_root s \<Longrightarrow> only_root (end_thread i c s)"
  using threads_split [of i "sv_threads s"] by (auto simp: only_root_def end_thread_def)

lemma updated_root:
  assumes "i < length (sv_threads s)" "only_root s" "th_peer T = th_peer (sv_threads s ! i)"
  shows "only_root (s\<lparr>sv_threads := (sv_threads s)[i := T]\<rparr>)"
proof -
  have "\<not> outsider (th_peer T)" using assms by (simp add: only_root_def)
  then show ?thesis using assms(2) set_update_subset_insert [of "sv_threads s" i T] by (auto simp: only_root_def)
qed

lemma end_request_root: "i < length (sv_threads s) \<Longrightarrow> only_root s \<Longrightarrow> only_root (end_request i r s)"
  by (auto simp: end_request_def end_thread_root updated_root split: prod.split option.split)

lemma only_root_step: "server_step E lib seeds hash_file s t \<Longrightarrow> only_root s \<Longrightarrow> only_root t"
proof (induction rule: server_step.induct)
  case (take_one i s T req c)
  have "only_root (s\<lparr>sv_threads := (sv_threads s)[i := (sv_threads s ! i)\<lparr>th_conn := c, th_request := Some req\<rparr>]\<rparr>)"
    by (rule updated_root) (use take_one in simp_all)
  then show ?case by (simp add: begin_request_def only_root_def)
next
  case (answer_alone i s T req x L)
  then show ?case by (intro end_request_root) (simp_all add: only_root_def)
qed (auto simp: end_thread_root end_request_root, auto simp: only_root_def new_thread_def)

text \<open>The launcher works for those let in, and, while no two requests are handled at once, by whole operations.\<close>

lemma end_request_shared [simp]: "sv_launcher (end_request i r s) = sv_launcher s" "sv_mixed (end_request i r s) = sv_mixed s"
  by (simp_all add: end_request_def end_thread_def split: prod.split option.split)

lemma begin_request_shared [simp]: "sv_launcher (begin_request i r c s) = sv_launcher s" "sv_mixed (begin_request i r c s) = (sv_mixed s \<or> handling s)"
  by (simp_all add: begin_request_def)

lemma end_thread_shared [simp]: "sv_launcher (end_thread i c s) = sv_launcher s" "sv_mixed (end_thread i c s) = sv_mixed s"
  by (simp_all add: end_thread_def)

lemma new_thread_shared [simp]: "sv_launcher (new_thread p c s) = sv_launcher s" "sv_mixed (new_thread p c s) = sv_mixed s"
  by (simp_all add: new_thread_def)

lemma step_launcher:
  "server_step E lib seeds hash_file s t \<Longrightarrow> sv_launcher t = sv_launcher s \<or>
    handling s \<and> (sv_mixed t \<or> (\<exists>ops. sv_launcher t = operate E lib seeds hash_file ops (sv_launcher s)))"
proof (induction rule: server_step.induct)
  case (answer_alone i s T req x L)
  obtain ops where "L = operate E lib seeds hash_file ops (sv_launcher s)" by (rule answer_operates [OF answer_alone(5)])
  moreover have "handling s" using answer_alone(1-3) by (auto simp: handling_def)
  ultimately show ?case by auto
qed auto

lemma step_mixed: "server_step E lib seeds hash_file s t \<Longrightarrow> sv_mixed s \<Longrightarrow> sv_mixed t"
  by (induction rule: server_step.induct) auto

lemma run_operates:
  "server_run E lib seeds hash_file s t \<Longrightarrow> \<not> sv_mixed t \<Longrightarrow> \<exists>ops. sv_launcher t = operate E lib seeds hash_file ops (sv_launcher s)"
proof (induction rule: rtranclp_induct)
  case base
  then show ?case by (intro exI [of _ "[]"]) (simp add: operate_def)
next
  case (step t u)
  obtain ops where 1: "sv_launcher t = operate E lib seeds hash_file ops (sv_launcher s)" using step step_mixed [OF step(2)] by blast
  have "\<exists>ops'. sv_launcher u = operate E lib seeds hash_file ops' (sv_launcher t)"
    using step_launcher [OF step(2)] step(4) by (auto intro: exI [of _ "[]"] simp: operate_def)
  with 1 show ?case by (metis operate_append)
qed

lemma run_untouched:
  "server_run E lib seeds hash_file s t \<Longrightarrow> only_root s \<Longrightarrow> only_root t \<and> (sv_launcher t = sv_launcher s \<or> (\<exists>p \<in> peers t. \<not> outsider p))"
proof (induction rule: rtranclp_induct)
  case (step t u)
  then have t: "only_root t" by simp
  have "\<exists>p \<in> peers t. \<not> outsider p" if "handling t" using that t by (auto simp: handling_def peers_def only_root_def)
  then have "sv_launcher u = sv_launcher s \<or> (\<exists>p \<in> peers t. \<not> outsider p)" using step.IH step.prems step_launcher [OF step(2)] by metis
  then show ?case using only_root_step [OF step(2) t] step_peers [OF step(2)] by blast
qed simp

text \<open>C26: the servers work for root and the workloads only, however their threads interleave, even where requests run inside each
  other. Over any run of the servers from the start: every thread serves user 0 or a workload channel; a caller of the control socket who
  is not root has been sent nothing, and while nobody else has been let in the launcher is as it was. And as long as no two requests have
  been handled at once, every run in memory has its old journal followed by sealed, linked entries; of requests that overlap
  nothing is claimed about the journals, as the program takes no lock.\<close>

theorem serving_is_safe:
  assumes "server_run E lib seeds hash_file s t" "sv_threads s = []" "sv_gone s = []"
  shows "(\<forall>T \<in> set (sv_threads t). \<not> outsider (th_peer T)) \<and> (\<forall>(p, c) \<in> callers t. outsider p \<longrightarrow> cn_out c = []) \<and>
    ((\<forall>(p, c) \<in> callers t. outsider p) \<longrightarrow> sv_launcher t = sv_launcher s) \<and>
    (quiet_env E now \<and> homed (sv_launcher s) \<and> map_of (la_runs (sv_launcher s)) rid = Some r \<and>
       settled now lib es (r\<lparr>rn_world := la_world (sv_launcher s)\<rparr>) \<and> \<not> sv_mixed t \<longrightarrow>
     (\<exists>r' new. map_of (la_runs (sv_launcher t)) rid = Some r' \<and> settled now lib (es @ new) (r'\<lparr>rn_world := la_world (sv_launcher t)\<rparr>)))"
proof -
  have "only_root s" using assms(2,3) by (simp add: only_root_def)
  from run_untouched [OF assms(1) this] have r: "only_root t" "sv_launcher t = sv_launcher s \<or> (\<exists>p \<in> peers t. \<not> outsider p)" by auto
  have "(\<forall>(p, c) \<in> callers t. outsider p \<longrightarrow> cn_out c = [])" using r(1) by (auto simp: only_root_def callers_def)
  moreover have "(\<forall>(p, c) \<in> callers t. outsider p) \<longrightarrow> sv_launcher t = sv_launcher s" using r(2) by (auto simp: peers_callers)
  moreover have "\<exists>r' new. map_of (la_runs (sv_launcher t)) rid = Some r' \<and> settled now lib (es @ new) (r'\<lparr>rn_world := la_world (sv_launcher t)\<rparr>)"
    if "quiet_env E now" "homed (sv_launcher s)" "map_of (la_runs (sv_launcher s)) rid = Some r"
      "settled now lib es (r\<lparr>rn_world := la_world (sv_launcher s)\<rparr>)" "\<not> sv_mixed t"
    using run_operates [OF assms(1) that(5)] quiet_env.operate_settles [OF that(1-4)] by metis
  ultimately show ?thesis using r(1) by (simp add: only_root_def)
qed

text \<open>Two runs of the servers: root asks and is answered, beside a refused caller; and root and a channel ask at once.\<close>

definition idle_servers :: "sim_host servers" where
  "idle_servers = \<lparr>sv_launcher = demo_launcher, sv_threads = [], sv_gone = [], sv_closed = False, sv_mixed = False\<rparr>"

lemma stop_taken: "\<exists>c. take_request (plain_conn cut_one_way) = (Inr (canon stop_req), c)"
proof -
  have "write_frame stop_bytes = Inr (framed stop_bytes)" by (simp add: write_frame_def framed_def length_stop MAX_RESPONSE_BYTES_def)
  from read_back [OF this cuts_smooth(1), of "framed stop_bytes" MAX_REQUEST_BYTES] cuts_flat(1) obtain s' where "read_frame MAX_REQUEST_BYTES cut_one_way = (Inr (Some stop_bytes), s')"
    by (auto simp: length_stop MAX_REQUEST_BYTES_def MAX_RESPONSE_BYTES_def)
  then show ?thesis by (simp add: take_request_def plain_conn_def stop_bytes_read)
qed

theorem serving_is_safe_witness:
  "\<exists>t u. server_run sim_env plain_lib (\<lambda>_. []) (\<lambda>_. bad) idle_servers t \<and> \<not> sv_mixed t \<and> length (sv_gone t) \<ge> 1 \<and>
     (\<exists>r' new. map_of (la_runs (sv_launcher t)) (lit ''r'') = Some r' \<and> settled sm_now_us plain_lib ([] @ new) (r'\<lparr>rn_world := la_world (sv_launcher t)\<rparr>)) \<and>
     server_run sim_env plain_lib (\<lambda>_. []) (\<lambda>_. bad) idle_servers u \<and> sv_mixed u \<and> la_runs (sv_launcher u) = [] \<and> length (sv_threads u) = 2 \<and>
     (\<forall>(p, c) \<in> callers u. outsider p \<longrightarrow> cn_out c = [])"
proof -
  let ?step = "server_step sim_env plain_lib (\<lambda>_. []) (\<lambda>_. bad)" and ?c = "plain_conn cut_one_way" and ?L = "demo_launcher\<lparr>la_runs := []\<rparr>"
  obtain c where c: "take_request ?c = (Inr (canon stop_req), c)" using stop_taken by blast
  let ?s1 = "new_thread (Control (peer_uid (Some (7, 0, 0)))) ?c idle_servers"
  let ?s2 = "?s1\<lparr>sv_gone := (Control (peer_uid (Some (8, 1000, 1000))), ?c) # sv_gone ?s1\<rparr>"
  have 1: "?step idle_servers ?s1" by (rule accept_root) (simp_all add: idle_servers_def peer_uid_def plain_conn_def)
  have 2: "?step ?s1 ?s2" by (rule refuse) (simp_all add: idle_servers_def peer_uid_def plain_conn_def new_thread_def)
  let ?a = "begin_request 0 (canon stop_req) c ?s2"
  have 3: "?step ?s2 ?a" by (rule take_one [OF _ refl]) (simp_all add: new_thread_def idle_servers_def c)
  obtain x L where x: "answer_request (peer_handler sim_env plain_lib (\<lambda>_. []) (\<lambda>_. bad) (th_peer (sv_threads ?a ! 0))) (canon stop_req) (sv_launcher ?a) = (x, L)"
    by (cases "answer_request (peer_handler sim_env plain_lib (\<lambda>_. []) (\<lambda>_. bad) (th_peer (sv_threads ?a ! 0))) (canon stop_req) (sv_launcher ?a)")
  let ?t = "end_request 0 (reply_to x (th_conn (sv_threads ?a ! 0))) (?a\<lparr>sv_launcher := L\<rparr>)"
  have 4: "?step ?a ?t"
    by (rule answer_alone [OF _ refl _ _ x]) (simp_all add: begin_request_def new_thread_def idle_servers_def handling_def)
  have t: "server_run sim_env plain_lib (\<lambda>_. []) (\<lambda>_. bad) idle_servers ?t" using 1 2 3 4 by (meson converse_rtranclp_into_rtranclp rtranclp.rtrancl_refl)
  let ?b = "new_thread (Channel (lit ''c'')) ?c ?a"
  have 5: "?step ?a ?b" by (rule open_channel) (simp add: plain_conn_def)
  let ?d = "begin_request 1 (canon stop_req) c ?b"
  have 6: "?step ?b ?d" by (rule take_one [OF _ refl]) (simp_all add: begin_request_def new_thread_def idle_servers_def c)
  let ?u = "?d\<lparr>sv_launcher := ?L\<rparr>"
  have m: "sv_mixed ?d" "handling ?d" by (simp_all add: begin_request_def new_thread_def idle_servers_def handling_def)
  have 7: "?step ?d ?u" by (rule work_mixed [OF m])
  have u: "server_run sim_env plain_lib (\<lambda>_. []) (\<lambda>_. bad) idle_servers ?u" using 1 2 3 5 6 7 by (meson converse_rtranclp_into_rtranclp rtranclp.rtrancl_refl)
  have i: "sv_threads idle_servers = []" "sv_gone idle_servers = []" by (simp_all add: idle_servers_def)
  have "\<not> sv_mixed ?t" "1 \<le> length (sv_gone ?t)"
    by (simp_all add: end_request_def end_thread_def begin_request_def new_thread_def idle_servers_def handling_def split: prod.split option.split)
  moreover have "sv_mixed ?u" "la_runs (sv_launcher ?u) = []" "length (sv_threads ?u) = 2" using m by (simp_all add: begin_request_def new_thread_def i)
  moreover note t u serving_is_safe [OF t i, where now = sm_now_us and rid = "lit ''r''" and r = "demo_run JOURNAL_SCHEMA" and es = "[]"]
    serving_is_safe [OF u i, where now = sm_now_us and rid = "lit ''r''" and r = "demo_run JOURNAL_SCHEMA" and es = "[]"]
    sim_quiet.quiet_env_axioms
  ultimately show ?thesis
    by (intro exI [of _ ?t] exI [of _ ?u]) (simp add: idle_servers_def demo_launcher_def homed_def dirs_def fresh_settled JOURNAL_SCHEMA_def)
qed

end
