(* ===== verification/Spec2Isabelle.thy ===== *)
theory Spec2Isabelle
  imports Prelude Errors Unicode Pyvalue Scalars Units Ids Estimator Meter Containment Sandbox Seccomp Jcs
    JcsRoundtrip Sha256 Hashing Ipaddr IpaddrRoundtrip Schema SchemaEvents Core Replay CoreInv CoreSteps CoreLifecycle CoreRun CoreProps
    Ed25519 Verify VerifyProps Effects Ledger Config Cpulist Host Engine EngineCommit EngineOps EngineRpc EngineSafe EngineReplies
    EngineProps EngineWorld EngineRequests Launcher LauncherSafe LauncherIndex LauncherProps Rebuild
    Server Sdk Recovery Cli CliRuns CliProps CliReceipt Linux LinuxSpawn LinuxProps LinuxHttp Adapters ServerLoop
begin

text \<open>
  A verification library for Lexwatt (\<open>src/src/lexwatt\<close>), a supervisor that runs a workload under energy,
  operation-count, spawn and time budgets and keeps a signed, hash-chained journal of what it did.

  How the program works. The launcher (\<open>engine.py\<close>, class \<open>Launcher\<close>) owns the index of launches and the runs; each
  \<open>Run\<close> owns a journal database (\<open>ledger.py\<close>), a reducer (\<open>core.py\<close>) and handles to the host (\<open>host/\<close>). A request or a
  timer tick calls the reducer, which returns events; \<open>Run._commit\<close> signs and appends them to the journal, updates the
  projections and stores the reply, all in one transaction. The meter (\<open>meter.py\<close>) turns counter readings into energy and
  decides when to stop; the verifier (\<open>verify.py\<close>) checks an exported journal and replays it (\<open>replay.py\<close>). All values on the
  wire and in the journal are canonical JSON (\<open>jcs.py\<close>), checked by closed validators (\<open>schema.py\<close>, \<open>scalars.py\<close>).

  Conventions. A JSON value is \<open>json\<close> (\<open>Pyvalue\<close>), a Python string the list of its code points (\<open>pystr\<close>), bytes a list of
  numbers, a Python integer an \<open>int\<close>, a dict an association list in insertion order. A function that may raise returns
  \<open>exn + 'a\<close>, where \<open>exn\<close> is a \<open>LexwattError\<close> with its code or one of Python's own exceptions; stateful code is an action
  of \<open>Effects\<close>, a function from a state to a result and the state as it is left, also by an exception. Each definition
  follows the order of the statements it translates. \<open>fld v k\<close> reads a key of a value that a validator has accepted.

  \<^item> \<open>Prelude\<close>, \<open>Effects\<close>: lists, sums and their \<open>bind\<close>, the actions and \<open>keeps\<close>, the calculus of what an action preserves.
  \<^item> \<open>Errors\<close> (\<open>errors.py\<close>), \<open>Unicode\<close>, \<open>Pyvalue\<close> (built-in text and integer operations), \<open>Scalars\<close> (\<open>scalars.py\<close>), \<open>Units\<close>
    (\<open>units.py\<close>), \<open>Ids\<close> (\<open>ids.py\<close>; locale of identifier generators): names and codecs; the lemmas say exactly what each parser
    accepts, the bounds of 127-bit protocol integers, and that fresh identifiers are fresh.
  \<^item> \<open>Estimator\<close> (\<open>estimator.py\<close>), \<open>Meter\<close> (\<open>meter.py\<close>), \<open>Containment\<close> (\<open>containment.py\<close>, \<open>redact.py\<close>), \<open>Sandbox\<close> (\<open>sandbox.py\<close>),
    \<open>Seccomp\<close> (\<open>seccomp.py\<close>): arithmetic of charges and energy, topology of power domains, policies on system calls and paths.
  \<^item> \<open>Jcs\<close>, \<open>JcsRoundtrip\<close> (\<open>jcs.py\<close>), \<open>Sha256\<close>, \<open>Hashing\<close> (\<open>hashing.py\<close>), \<open>Ed25519\<close> (\<open>ed25519.py\<close>): canonical bytes, digests, signatures; the
    parser reads back what the serialiser writes, digests bind their values up to key order and SHA-256 collisions.
  \<^item> \<open>Ipaddr\<close> (the addresses of Python's \<open>ipaddress\<close>), \<open>IpaddrRoundtrip\<close> (the text of an address reads back as itself), \<open>Schema\<close>,
    \<open>SchemaEvents\<close> (\<open>schema.py\<close>): every validator.
  \<^item> \<open>Core\<close> (\<open>core.py\<close>) with \<open>CoreInv\<close>, \<open>CoreSteps\<close>, \<open>CoreLifecycle\<close>, \<open>CoreRun\<close>, \<open>CoreProps\<close>; \<open>Replay\<close> (\<open>replay.py\<close>): the reducer, its
    invariant over every sequence of steps (\<open>core_run\<close>, an inductive relation), and the refinement: the events it emits are
    a journal that \<open>replay_events\<close> accepts and that ends in the state of the object.
  \<^item> \<open>Verify\<close>, \<open>VerifyProps\<close> (\<open>verify.py\<close>): the eight steps of receipt verification and exactly what they accept.
  \<^item> \<open>Ledger\<close> (\<open>ledger.py\<close>): tables, constraints, statements and transactions, with a storage that may fail at any statement;
    locales \<open>keyed_table\<close> and \<open>event_log\<close>. \<open>Config\<close> (\<open>config.py\<close>), \<open>Cpulist\<close> (\<open>host/linux.py\<close> and \<open>engine.py\<close>).
  \<^item> \<open>Host\<close> (\<open>host/base.py\<close>, \<open>host/sim.py\<close>): the calls to the host as the record \<open>env\<close> over a world of any type, the simulated
    host, and the locale \<open>steady_env\<close> of what a journal needs of a host.
  \<^item> \<open>Engine\<close>, \<open>EngineOps\<close>, \<open>EngineRpc\<close> (\<open>engine.py\<close>, class \<open>Run\<close>): the record \<open>run\<close> has the object's attributes, and every method is
    one definition over it. \<open>EngineCommit\<close> proves the transaction, \<open>EngineSafe\<close> lifts it: the locale \<open>run_invariant\<close> takes a property
    that time and transactions keep and shows that every method keeps it; its instances are \<open>grown\<close> (the journal only grows,
    by sealed and linked entries), \<open>replies\<close> (a stored reply stays, \<open>EngineReplies\<close>) and \<open>clocked\<close> (time does not go back). \<open>EngineWorld\<close>
    is the locale of what a transaction does to the host. \<open>EngineProps\<close>, \<open>EngineRequests\<close> state the properties.
  \<^item> \<open>Launcher\<close> (\<open>engine.py\<close>, class \<open>Launcher\<close>): the record \<open>launcher\<close> with the index, the runs over one shared world, and the
    directories on disk. \<open>LauncherSafe\<close> lifts every instance of \<open>run_invariant\<close> to any interleaving of calls on any runs;
    \<open>LauncherIndex\<close> proves the launch index over any number of processes; \<open>Rebuild\<close> compares a reopened run with the one
    that wrote the journal.
  \<^item> \<open>Server\<close> (\<open>server.py\<close>), \<open>Sdk\<close> (\<open>sdk.py\<close>): frames and the loop that serves a connection, over a stream of pieces and errors, and the
    client over the same streams; serving does not depend on the cuts, keeps every journal, and a call over the wire has the outcome of
    calling the handler, repeated while it is busy; \<open>ServerLoop\<close> is the control socket and the threads, an inductive step relation in which a
    request is taken and answered in two steps: its runs let in root only, and keep the journals while no two requests are handled at once. \<open>Recovery\<close> (\<open>recovery.py\<close>): which groups a recovery kills, and that it follows the journal's state.

  \<^item> \<open>Cli\<close>, \<open>CliRuns\<close>, \<open>CliProps\<close> (\<open>cli.py\<close>): flags, every command and \<open>main\<close> over the record \<open>cli\<close>, a process with its files,
    the launcher over the state directory and what it printed; the lemmas say when the commands return, how the stop reason
    decides the exit status, and what a command without root or an export cannot do; \<open>CliReceipt\<close> follows a receipt from the journal through
    \<open>receipt export\<close> to the exit status of \<open>verify\<close> in another process.

  \<^item> \<open>Linux\<close>, \<open>LinuxSpawn\<close> (\<open>host/linux.py\<close>, \<open>seccomp.install\<close>): the production host over the record \<open>kernel\<close> of the system calls it
    makes, each of which may answer anything; \<open>linux_env\<close> is that host as the engine calls it. \<open>LinuxProps\<close> shows that it is a
    \<open>quiet_env\<close>, so that the theorems on the engine hold on Linux, what a launched child has done before it executes a program, and
    what the host cannot do; \<open>LinuxHttp\<close> proves the reader of a brokered reply against a parse of the whole. \<open>Adapters\<close>
    (\<open>adapters/\<close>): the selection under a remaining budget.

  Parameters. The Ed25519 package is \<open>ed_lib\<close> (\<open>ed_correct\<close> states that it verifies what it signed), its key generator the
  sequence \<open>seeds\<close>; the hash of a model file is \<open>hash_file\<close>; the host is \<open>env\<close>, under \<open>quiet_env\<close> (its clock does not go back and its
  identifiers are identifiers), which the simulated host is proved to satisfy, and the Linux host under \<open>calm_kernel\<close>, where the kernel itself is
  the parameter \<open>kernel\<close>. SQLite's failures are schedules: \<open>db_fails\<close> for the
  statements of a connection, \<open>la_storage\<close> for the opening of databases.

  Termination and bounds. No definition uses fuel: recursions are structural or have a measure (the trimming of a page of events, the
  topology walk, the UTF-8 decoder, the arguments left, the bytes left on a stream). The three loops of the command line that wait for a
  run (\<open>drive_loop\<close>, \<open>kill_loop\<close>, \<open>meter_loop\<close>) are partial functions into options, with theorems on when they return;
  \<open>rounds\<close> is how many waits the shutdown deadline allows. The JSON parser counts down the nesting depth, which the program itself bounds by \<open>MAX_DEPTH\<close>.
  The limits in the statements (127-bit integers, 32 open actions, one mebibyte pages, a million events per receipt) are the program's.

  Not modelled: what the launcher does when two threads handle requests at once (\<open>server.py\<close>; the launcher has no lock, and \<open>ServerLoop\<close>
  lets it change in any way from then on; all other theories handle one request after the other), the wording of the command line's text for people and signals
  inside a tick (\<open>cli.py\<close>), the closing of network connections, SQLite's files and write-ahead log (\<open>ledger.py\<close>, \<open>journal_bytes\<close>), and the
  package's constants; they are I/O around the parts above. A child launched on Linux runs up to its last call before the supervisor
  reads the error pipe, because that read waits for the message or the last writer.
\<close>

end
